(* ===== verification/JsPrelude.thy ===== *)
theory JsPrelude
  imports Main "HOL-Library.Multiset"
begin

text \<open>
  Shared vocabulary of the development: the error values thrown by the services, the
  result type of fallible code, and the two ordered dictionaries of the language, the
  \<^verbatim>\<open>Map\<close> (insertion order) and the plain object (array-index keys ascending, then
  insertion order).  The dictionary contract is the locale \<open>ordered_dict\<close>; both
  dictionaries are instances of it, and the components use the laws through them.
\<close>

named_theorems dict_simps \<open>read-after-write laws of the ordered dictionaries\<close>
named_theorems res_simps \<open>elimination of the result type\<close>

section \<open>Thrown values and results\<close>

datatype js_error =
    ExpressionEvaluatorError string
  | TransformError string
  | StepExecutionError string
  | HookFailure string
  | SubWorkflowDepthExceededError
  | SubWorkflowCircularDependencyError
  | SubWorkflowPipelineNotFoundError
  | SubWorkflowTimeoutError
  | SubWorkflowChildFailedError
  | TypeError
  | PlainError string

type_synonym 'a res = "js_error + 'a"

definition rbind :: "'a res \<Rightarrow> ('a \<Rightarrow> 'b res) \<Rightarrow> 'b res" where
  "rbind r f = (case r of Inl e \<Rightarrow> Inl e | Inr x \<Rightarrow> f x)"

lemma rbind_simps [simp, res_simps]:
  "rbind (Inl e) f = Inl e"
  "rbind (Inr x) f = f x"
  by (simp_all add: rbind_def)

lemma rbind_Inr_iff [res_simps]:
  "rbind r f = Inr y \<longleftrightarrow> (\<exists>x. r = Inr x \<and> f x = Inr y)"
  by (cases r) auto

lemma rbind_Inl_iff [res_simps]:
  "rbind r f = Inl e \<longleftrightarrow> r = Inl e \<or> (\<exists>x. r = Inr x \<and> f x = Inl e)"
  by (cases r) auto

lemma rbind_cong [fundef_cong]:
  "r = r' \<Longrightarrow> (\<And>x. r' = Inr x \<Longrightarrow> f x = g x) \<Longrightarrow> rbind r f = rbind r' g"
  by (cases r') auto

text \<open>\<^verbatim>\<open>Array.prototype.map\<close> with a callback that may throw: stops at the first throw.\<close>

fun rmap :: "('a \<Rightarrow> 'b res) \<Rightarrow> 'a list \<Rightarrow> 'b list res" where
  "rmap f [] = Inr []"
| "rmap f (x # xs) = rbind (f x) (\<lambda>y. rbind (rmap f xs) (\<lambda>ys. Inr (y # ys)))"

lemma rmap_cong [fundef_cong]:
  "xs = ys \<Longrightarrow> (\<And>x. x \<in> set ys \<Longrightarrow> f x = g x) \<Longrightarrow> rmap f xs = rmap g ys"
proof (induction ys arbitrary: xs)
  case (Cons y ys)
  from Cons.prems have "rmap f ys = rmap g ys"
    by (intro Cons.IH) auto
  with Cons.prems show ?case by simp
qed simp

lemma rmap_Inr_length: "rmap f xs = Inr ys \<Longrightarrow> length ys = length xs"
  by (induction xs arbitrary: ys) (auto simp: rbind_Inr_iff)

lemma rmap_Inr_nth:
  "rmap f xs = Inr ys \<Longrightarrow> i < length xs \<Longrightarrow> f (xs ! i) = Inr (ys ! i)"
proof (induction xs arbitrary: ys i)
  case (Cons x xs)
  then obtain y zs where y: "f x = Inr y" and zs: "rmap f xs = Inr zs" and ys: "ys = y # zs"
    by (auto simp: rbind_Inr_iff)
  show ?case
  proof (cases i)
    case 0
    with y ys show ?thesis by simp
  next
    case (Suc j)
    with Cons.prems have "f (xs ! j) = Inr (zs ! j)" by (intro Cons.IH [OF zs]) simp
    with Suc ys show ?thesis by simp
  qed
qed simp

lemma rmap_total: "(\<And>x. x \<in> set xs \<Longrightarrow> f x = Inr (g x)) \<Longrightarrow> rmap f xs = Inr (map g xs)"
  by (induction xs) auto

lemma rmap_Inl_iff:
  "(\<exists>e. rmap f xs = Inl e) \<longleftrightarrow> (\<exists>x \<in> set xs. \<exists>e. f x = Inl e)"
proof (induction xs)
  case (Cons x xs)
  then show ?case by (cases "f x"; cases "rmap f xs") (auto simp: rbind_def)
qed simp

section \<open>Ordered dictionaries\<close>

type_synonym ('k, 'v) dict = "('k \<times> 'v) list"

abbreviation dict_get :: "('k, 'v) dict \<Rightarrow> 'k \<Rightarrow> 'v option" where
  "dict_get \<equiv> map_of"

abbreviation dict_keys :: "('k, 'v) dict \<Rightarrow> 'k list" where
  "dict_keys d \<equiv> map fst d"

abbreviation dict_values :: "('k, 'v) dict \<Rightarrow> 'v list" where
  "dict_values d \<equiv> map snd d"

abbreviation dict_has :: "('k, 'v) dict \<Rightarrow> 'k \<Rightarrow> bool" where
  "dict_has d k \<equiv> k \<in> set (map fst d)"

text \<open>\<^verbatim>\<open>Map.prototype.set\<close>: a present key keeps its place, a new key goes to the end.\<close>

fun map_set :: "('k, 'v) dict \<Rightarrow> 'k \<Rightarrow> 'v \<Rightarrow> ('k, 'v) dict" where
  "map_set [] k v = [(k, v)]"
| "map_set ((k', v') # d) k v =
     (if k' = k then (k', v) # d else (k', v') # map_set d k v)"

definition map_delete :: "('k, 'v) dict \<Rightarrow> 'k \<Rightarrow> ('k, 'v) dict" where
  "map_delete d k = filter (\<lambda>p. fst p \<noteq> k) d"

lemma map_set_get [simp, dict_simps]:
  "map_of (map_set d k v) j = (if j = k then Some v else map_of d j)"
  by (induction d k v rule: map_set.induct) auto

lemma map_set_keys:
  "map fst (map_set d k v) = (if dict_has d k then map fst d else map fst d @ [k])"
  by (induction d k v rule: map_set.induct) auto

lemma map_set_keyset [simp, dict_simps]: "fst ` set (map_set d k v) = insert k (fst ` set d)"
  using map_set_keys [of d k v] by (metis image_set insert_absorb list.set(1,2) list.set_map
      set_append Un_insert_right Un_empty_right image_set)

lemma map_set_distinct [simp, dict_simps]:
  "distinct (map fst d) \<Longrightarrow> distinct (map fst (map_set d k v))"
  by (simp add: map_set_keys)

lemma map_set_length_le: "length (map_set d k v) \<le> Suc (length d)"
  by (induction d k v rule: map_set.induct) auto

lemma map_set_length:
  "length (map_set d k v) = (if dict_has d k then length d else Suc (length d))"
  by (induction d k v rule: map_set.induct) auto

lemma map_set_snd: "snd ` set (map_set d k v) \<subseteq> insert v (snd ` set d)"
  by (induction d k v rule: map_set.induct) auto

lemma map_set_fresh: "\<not> dict_has d k \<Longrightarrow> map_set d k v = d @ [(k, v)]"
  by (induction d k v rule: map_set.induct) auto

lemma map_delete_get [simp, dict_simps]:
  "map_of (map_delete d k) j = (if j = k then None else map_of d j)"
  unfolding map_delete_def by (induction d) auto

lemma map_delete_keyset [simp, dict_simps]: "fst ` set (map_delete d k) = fst ` set d - {k}"
  unfolding map_delete_def by auto

lemma map_delete_distinct [simp, dict_simps]:
  "distinct (map fst d) \<Longrightarrow> distinct (map fst (map_delete d k))"
  unfolding map_delete_def by (simp add: distinct_map_filter)

lemma map_delete_length_le: "length (map_delete d k) \<le> length d"
  unfolding map_delete_def by simp

subsection \<open>Objects: array-index keys first, ascending\<close>

definition is_digit :: "char \<Rightarrow> bool" where
  "is_digit c \<longleftrightarrow> 48 \<le> (of_char c :: nat) \<and> (of_char c :: nat) \<le> 57"

definition digit_val :: "char \<Rightarrow> nat" where
  "digit_val c = of_char c - 48"

definition digits_val :: "string \<Rightarrow> nat" where
  "digits_val ds = foldl (\<lambda>n c. 10 * n + digit_val c) 0 ds"

text \<open>An array index: a canonical decimal numeral below \<open>2 ^ 32 - 1\<close>.\<close>

definition is_index_key :: "string \<Rightarrow> bool" where
  "is_index_key k \<longleftrightarrow>
     k \<noteq> [] \<and> list_all is_digit k \<and> (k = ''0'' \<or> hd k \<noteq> CHR ''0'') \<and>
     digits_val k < 4294967295"

definition key_before :: "string \<Rightarrow> string \<Rightarrow> bool" where
  "key_before k k' \<longleftrightarrow>
     is_index_key k \<and> (\<not> is_index_key k' \<or> digits_val k < digits_val k')"

fun obj_insert :: "(string, 'v) dict \<Rightarrow> string \<Rightarrow> 'v \<Rightarrow> (string, 'v) dict" where
  "obj_insert [] k v = [(k, v)]"
| "obj_insert ((k', v') # d) k v =
     (if key_before k k' then (k, v) # (k', v') # d else (k', v') # obj_insert d k v)"

text \<open>Assignment of an own property: \<^verbatim>\<open>o[k] = v\<close>.\<close>

definition obj_set :: "(string, 'v) dict \<Rightarrow> string \<Rightarrow> 'v \<Rightarrow> (string, 'v) dict" where
  "obj_set d k v = (if dict_has d k then map_set d k v else obj_insert d k v)"

definition obj_set_all :: "(string, 'v) dict \<Rightarrow> (string, 'v) dict \<Rightarrow> (string, 'v) dict" where
  "obj_set_all d e = fold (\<lambda>(k, v) o'. obj_set o' k v) e d"

lemma obj_insert_get:
  "\<not> dict_has d k \<Longrightarrow> map_of (obj_insert d k v) j = (if j = k then Some v else map_of d j)"
  by (induction d k v rule: obj_insert.induct) auto

lemma obj_insert_keyset: "fst ` set (obj_insert d k v) = insert k (fst ` set d)"
  by (induction d k v rule: obj_insert.induct) auto

lemma obj_insert_distinct:
  "distinct (map fst d) \<Longrightarrow> \<not> dict_has d k \<Longrightarrow> distinct (map fst (obj_insert d k v))"
proof (induction d k v rule: obj_insert.induct)
  case (2 k' v' d k v)
  then show ?case using obj_insert_keyset [of d k v] by (auto simp: image_iff)
qed simp

lemma obj_set_get [simp, dict_simps]:
  "map_of (obj_set d k v) j = (if j = k then Some v else map_of d j)"
  by (simp add: obj_set_def obj_insert_get)

lemma obj_set_keyset [simp, dict_simps]: "fst ` set (obj_set d k v) = insert k (fst ` set d)"
  by (simp add: obj_set_def obj_insert_keyset)

lemma obj_set_distinct [simp, dict_simps]:
  "distinct (map fst d) \<Longrightarrow> distinct (map fst (obj_set d k v))"
  by (auto simp add: obj_set_def obj_insert_distinct)

text \<open>
  The contract a client of either dictionary relies on.  \<open>ok\<close> is the representation
  invariant (no key occurs twice).
\<close>

locale ordered_dict =
  fixes ok :: "'d \<Rightarrow> bool"
    and lookup :: "'d \<Rightarrow> 'k \<Rightarrow> 'v option"
    and assign :: "'d \<Rightarrow> 'k \<Rightarrow> 'v \<Rightarrow> 'd"
    and empty :: 'd
  assumes lookup_empty: "lookup empty k = None"
    and lookup_assign: "lookup (assign d k v) j = (if j = k then Some v else lookup d j)"
    and ok_empty: "ok empty"
    and ok_assign: "ok d \<Longrightarrow> ok (assign d k v)"
begin

definition assign_all :: "'d \<Rightarrow> ('k \<times> 'v) list \<Rightarrow> 'd" where
  "assign_all d kvs = fold (\<lambda>(k, v) d'. assign d' k v) kvs d"

lemma assign_all_ok: "ok d \<Longrightarrow> ok (assign_all d kvs)"
  unfolding assign_all_def
  by (induction kvs arbitrary: d) (auto simp: ok_assign)

lemma lookup_assign_all:
  "lookup (assign_all d kvs) j =
     (case map_of (rev kvs) j of Some v \<Rightarrow> Some v | None \<Rightarrow> lookup d j)"
  unfolding assign_all_def
proof (induction kvs arbitrary: d)
  case (Cons kv kvs)
  obtain k v where kv: "kv = (k, v)" by (cases kv)
  have "map_of (rev (kv # kvs)) j =
      (case map_of (rev kvs) j of None \<Rightarrow> (if j = k then Some v else None) | Some w \<Rightarrow> Some w)"
    by (simp add: kv map_add_def split: option.split)
  with Cons.IH [of "assign d k v"] show ?case
    by (simp add: kv lookup_assign split: option.split)
qed (simp add: lookup_empty)

lemma lookup_assign_all_untouched:
  "j \<notin> fst ` set kvs \<Longrightarrow> lookup (assign_all d kvs) j = lookup d j"
  by (simp add: lookup_assign_all map_of_eq_None_iff [THEN iffD2])

end

interpretation js_map: ordered_dict
  "\<lambda>d. distinct (map fst d)" map_of map_set "[] :: ('k \<times> 'v) list"
  by unfold_locales simp_all

interpretation js_obj: ordered_dict
  "\<lambda>d. distinct (map fst d)" map_of obj_set "[] :: (string \<times> 'v) list"
  by unfold_locales simp_all

lemma obj_set_all_eq: "obj_set_all d e = js_obj.assign_all d e"
  by (simp add: obj_set_all_def js_obj.assign_all_def)

lemma obj_set_all_get [dict_simps]:
  "map_of (obj_set_all d e) j =
     (case map_of (rev e) j of Some v \<Rightarrow> Some v | None \<Rightarrow> map_of d j)"
  by (simp add: obj_set_all_eq js_obj.lookup_assign_all)

lemma obj_set_all_distinct [simp, dict_simps]:
  "distinct (map fst d) \<Longrightarrow> distinct (map fst (obj_set_all d e))"
  by (simp add: obj_set_all_eq js_obj.assign_all_ok)

lemma obj_set_all_untouched:
  "j \<notin> fst ` set e \<Longrightarrow> map_of (obj_set_all d e) j = map_of d j"
  by (simp add: obj_set_all_eq js_obj.lookup_assign_all_untouched)

section \<open>Lists as arrays\<close>

text \<open>\<^verbatim>\<open>Array.prototype.findIndex\<close>, with \<open>None\<close> for \<open>-1\<close>.\<close>

fun find_index :: "('a \<Rightarrow> bool) \<Rightarrow> 'a list \<Rightarrow> nat option" where
  "find_index P [] = None"
| "find_index P (x # xs) = (if P x then Some 0 else map_option Suc (find_index P xs))"

lemma find_index_Some:
  "find_index P xs = Some i \<longleftrightarrow> i < length xs \<and> P (xs ! i) \<and> (\<forall>j < i. \<not> P (xs ! j))"
proof (induction xs arbitrary: i)
  case (Cons x xs)
  show ?case
  proof (cases i)
    case 0
    then show ?thesis using Cons.IH by auto
  next
    case (Suc n)
    have "(\<forall>j < Suc n. \<not> P ((x # xs) ! j)) \<longleftrightarrow> \<not> P x \<and> (\<forall>j < n. \<not> P (xs ! j))"
      by (auto simp: less_Suc_eq_0_disj)
    with Suc Cons.IH show ?thesis by auto
  qed
qed simp

lemma find_index_None: "find_index P xs = None \<longleftrightarrow> (\<forall>x \<in> set xs. \<not> P x)"
  by (induction xs) auto

end
