(* ===== verification/JsNum.thy ===== *)
theory JsNum
  imports JsPrelude Complex_Main
begin

text \<open>
  The number type of the language: IEEE-754 binary64, executable over the rationals.
  A finite value is the rational it denotes; \<open>fl\<close> rounds an exact result to the nearest
  double, ties to even, with overflow to an infinity and gradual underflow.  The two
  zeros are one value here: the only operation that tells them apart is division by
  zero, which the modelled code rejects before dividing.

  Also here: the conversions \<^verbatim>\<open>Number(string)\<close> and \<^verbatim>\<open>String(number)\<close> (shortest decimal
  that reads back as the same double), and \<^verbatim>\<open>Math.round\<close>, \<^verbatim>\<open>floor\<close>, \<^verbatim>\<open>ceil\<close>, \<^verbatim>\<open>abs\<close>.
\<close>

datatype jsnum = Fin rat | PInf | NInf | NaN

section \<open>Rounding\<close>

fun nlog :: "nat \<Rightarrow> nat \<Rightarrow> nat" where
  "nlog b n = (if b < 2 \<or> n < b then 0 else Suc (nlog b (n div b)))"

declare nlog.simps [simp del]

definition bpow :: "nat \<Rightarrow> int \<Rightarrow> rat" where
  "bpow b e = (if 0 \<le> e then of_nat b ^ nat e else 1 / of_nat b ^ nat (- e))"

text \<open>The exponent \<open>e\<close> with \<open>b ^ e \<le> x < b ^ (e + 1)\<close>, for positive \<open>x\<close>.\<close>

definition rexp :: "nat \<Rightarrow> rat \<Rightarrow> int" where
  "rexp b x =
     (let (p, q) = quotient_of x;
          e = int (nlog b (nat p)) - int (nlog b (nat q))
      in if bpow b e \<le> x then e else e - 1)"

definition round_even :: "rat \<Rightarrow> int" where
  "round_even x =
     (let f = \<lfloor>x\<rfloor>; d = x - of_int f
      in if d < 1/2 then f else if 1/2 < d then f + 1 else if even f then f else f + 1)"

text \<open>The first magnitude that no longer fits.\<close>

definition overflow :: rat where
  "overflow = 2 ^ 1024"

definition fl :: "rat \<Rightarrow> jsnum" where
  "fl x =
     (if x = 0 then Fin 0
      else let u = bpow 2 (max (rexp 2 \<bar>x\<bar>) (-1022) - 52);
               y = of_int (round_even (x / u)) * u
           in if overflow \<le> y then PInf else if y \<le> - overflow then NInf else Fin y)"

lemma nlog_bounds: "2 \<le> b \<Longrightarrow> 0 < n \<Longrightarrow> b ^ nlog b n \<le> n \<and> n < b ^ Suc (nlog b n)"
proof (induction b n rule: nlog.induct)
  case (1 b n)
  show ?case
  proof (cases "n < b")
    case True
    with "1.prems" show ?thesis by (simp add: nlog.simps [of b n])
  next
    case False
    with "1.prems" have pos: "0 < n div b" by (simp add: div_greater_zero_iff)
    let ?k = "nlog b (n div b)"
    from "1.IH" False "1.prems" pos have IH: "b ^ ?k \<le> n div b" "n div b < b ^ Suc ?k" by auto
    from IH(1) have "b ^ ?k * b \<le> n"
      using "1.prems" by (metis less_eq_div_iff_mult_less_eq mult.commute mult.left_commute
          order_less_le_trans pos2)
    moreover from IH(2) have "n < b ^ Suc ?k * b"
      using "1.prems" by (simp add: div_less_iff_less_mult)
    moreover have "nlog b n = Suc ?k" using False "1.prems" by (simp add: nlog.simps [of b n])
    ultimately show ?thesis by (simp add: mult.commute)
  qed
qed

lemma quotient_of_nat: "quotient_of (of_nat n) = (int n, 1)"
  using quotient_of_int [of "int n"] by (simp add: of_rat_of_nat_eq)

lemma rexp_of_nat:
  assumes "2 \<le> b" "0 < n"
  shows "rexp b (of_nat n) = int (nlog b n)"
proof -
  have "nlog b 1 = 0" using assms by (simp add: nlog.simps [of b "Suc 0"])
  with nlog_bounds [OF assms] show ?thesis
    by (simp add: rexp_def quotient_of_nat bpow_def Let_def flip: of_nat_power)
qed

lemma round_even_int [simp]: "round_even (of_int n) = n"
  by (simp add: round_even_def)

lemma round_even_neg_int [simp]: "round_even (- of_int n) = - n"
  using round_even_int [of "- n"] by simp

text \<open>Integers of magnitude up to \<open>2 ^ 53\<close> are doubles: rounding leaves them alone.\<close>

lemma fl_nat:
  assumes "0 < n" "n \<le> 2 ^ 53"
  shows "fl (of_nat n) = Fin (of_nat n)" "fl (- of_nat n) = Fin (- of_nat n)"
proof -
  let ?k = "nlog 2 n"
  have bd: "2 ^ ?k \<le> n" "n < 2 ^ Suc ?k" using nlog_bounds [of 2 n] assms by auto
  then have "(2::nat) ^ ?k \<le> 2 ^ 53" using assms by linarith
  then have k53: "?k \<le> 53" by (rule power_le_imp_le_exp [rotated]) simp
  let ?u = "bpow 2 (int ?k - 52)"
  have "\<exists>m. of_nat n = of_int m * ?u"
  proof (cases "?k \<le> 52")
    case True
    then have "of_nat n = of_int (int n * 2 ^ (52 - ?k)) * ?u"
      by (simp add: bpow_def nat_diff_distrib of_nat_diff)
    then show ?thesis by blast
  next
    case False
    with k53 have k: "?k = 53" by simp
    with bd assms have "n = 2 ^ 53" by simp
    then show ?thesis using k by (intro exI [of _ "2 ^ 52"]) (simp add: bpow_def)
  qed
  then obtain m where m: "of_nat n = of_int m * ?u" by blast
  have u0: "?u \<noteq> 0" by (simp add: bpow_def)
  have rx: "rexp 2 (of_nat n) = int ?k" using assms by (simp add: rexp_of_nat)
  have mx: "max (int ?k) (- 1022) - 52 = int ?k - 52" by simp
  have q: "of_nat n / ?u = of_int m" "- of_nat n / ?u = of_int (- m)"
    using m u0 by simp_all
  have "of_nat n \<le> (2 ^ 53 :: rat)"
    using assms(2) by (metis of_nat_le_iff of_nat_numeral of_nat_power)
  moreover have "(2::rat) ^ 53 < overflow"
    unfolding overflow_def by (rule power_strict_increasing) simp_all
  ultimately have small: "of_nat n < overflow" by linarith
  have o0: "0 < overflow" by (simp add: overflow_def)
  have n0: "(0 :: rat) < of_nat n" using assms by simp
  show "fl (of_nat n) = Fin (of_nat n)"
    unfolding fl_def Let_def using n0 o0 rx mx q(1) m small by (simp add: mult.commute)
  show "fl (- of_nat n) = Fin (- of_nat n)"
    unfolding fl_def Let_def using n0 o0 rx mx q(2) m small by simp
qed

lemma fl_int: "\<bar>n\<bar> \<le> 2 ^ 53 \<Longrightarrow> fl (of_int n) = Fin (of_int n)"
proof (cases n)
  case (nonneg k)
  assume "\<bar>n\<bar> \<le> 2 ^ 53"
  with nonneg have "k \<le> 2 ^ 53" by (metis abs_of_nat of_nat_le_iff of_nat_numeral of_nat_power)
  with nonneg show ?thesis using fl_nat(1) [of k] by (cases "k = 0") (simp_all add: fl_def)
next
  case (neg k)
  assume "\<bar>n\<bar> \<le> 2 ^ 53"
  with neg have "Suc k \<le> 2 ^ 53"
    by (metis abs_minus_cancel abs_of_nat of_nat_le_iff of_nat_numeral of_nat_power)
  with neg show ?thesis using fl_nat(2) [of "Suc k"] by simp
qed

lemma fl_numeral [simp]:
  "fl 0 = Fin 0" "fl 1 = Fin 1"
  "(numeral k :: int) \<le> 2 ^ 53 \<Longrightarrow> fl (numeral k) = Fin (numeral k)"
  "(numeral k :: int) \<le> 2 ^ 53 \<Longrightarrow> fl (- numeral k) = Fin (- numeral k)"
  using fl_int [of 1] fl_int [of "numeral k"] fl_int [of "- numeral k"]
  by (simp_all add: fl_def)

section \<open>Arithmetic and comparison\<close>

fun jneg :: "jsnum \<Rightarrow> jsnum" where
  "jneg (Fin a) = Fin (- a)"
| "jneg PInf = NInf"
| "jneg NInf = PInf"
| "jneg NaN = NaN"

fun jadd :: "jsnum \<Rightarrow> jsnum \<Rightarrow> jsnum" where
  "jadd (Fin a) (Fin b) = fl (a + b)"
| "jadd NaN _ = NaN"
| "jadd _ NaN = NaN"
| "jadd PInf NInf = NaN"
| "jadd NInf PInf = NaN"
| "jadd PInf _ = PInf"
| "jadd NInf _ = NInf"
| "jadd (Fin _) y = y"

definition jsub :: "jsnum \<Rightarrow> jsnum \<Rightarrow> jsnum" where
  "jsub x y = jadd x (jneg y)"

fun jpos :: "jsnum \<Rightarrow> int" where
  "jpos (Fin a) = sgn (if a < 0 then -1 else if a = 0 then 0 else 1)"
| "jpos PInf = 1"
| "jpos NInf = -1"
| "jpos NaN = 0"

definition inf_of :: "int \<Rightarrow> jsnum" where
  "inf_of s = (if 0 < s then PInf else if s < 0 then NInf else NaN)"

fun jmul :: "jsnum \<Rightarrow> jsnum \<Rightarrow> jsnum" where
  "jmul (Fin a) (Fin b) = fl (a * b)"
| "jmul NaN _ = NaN"
| "jmul _ NaN = NaN"
| "jmul x y = inf_of (jpos x * jpos y)"

text \<open>Division; a zero divisor counts as the positive zero.\<close>

fun jdiv :: "jsnum \<Rightarrow> jsnum \<Rightarrow> jsnum" where
  "jdiv (Fin a) (Fin b) = (if b = 0 then inf_of (jpos (Fin a)) else fl (a / b))"
| "jdiv NaN _ = NaN"
| "jdiv _ NaN = NaN"
| "jdiv (Fin _) _ = Fin 0"
| "jdiv x (Fin b) = inf_of (jpos x * (if b < 0 then -1 else 1))"
| "jdiv _ _ = NaN"

text \<open>The remainder \<^verbatim>\<open>%\<close>: sign of the dividend, exact for finite operands.\<close>

definition rtrunc :: "rat \<Rightarrow> int" where
  "rtrunc x = (if 0 \<le> x then \<lfloor>x\<rfloor> else \<lceil>x\<rceil>)"

fun jmod :: "jsnum \<Rightarrow> jsnum \<Rightarrow> jsnum" where
  "jmod (Fin a) (Fin b) = (if b = 0 then NaN else Fin (a - b * of_int (rtrunc (a / b))))"
| "jmod NaN _ = NaN"
| "jmod _ NaN = NaN"
| "jmod (Fin a) _ = Fin a"
| "jmod _ _ = NaN"

fun jlt :: "jsnum \<Rightarrow> jsnum \<Rightarrow> bool" where
  "jlt (Fin a) (Fin b) = (a < b)"
| "jlt NaN _ = False"
| "jlt _ NaN = False"
| "jlt (Fin _) PInf = True"
| "jlt (Fin _) NInf = False"
| "jlt NInf NInf = False"
| "jlt NInf _ = True"
| "jlt PInf _ = False"

definition jeq :: "jsnum \<Rightarrow> jsnum \<Rightarrow> bool" where
  "jeq x y \<longleftrightarrow> x \<noteq> NaN \<and> x = y"

definition jle :: "jsnum \<Rightarrow> jsnum \<Rightarrow> bool" where
  "jle x y \<longleftrightarrow> jlt x y \<or> jeq x y"

definition is_finite :: "jsnum \<Rightarrow> bool" where
  "is_finite x \<longleftrightarrow> (case x of Fin _ \<Rightarrow> True | _ \<Rightarrow> False)"

lemma jlt_trichotomy: "x \<noteq> NaN \<Longrightarrow> y \<noteq> NaN \<Longrightarrow> jlt x y \<or> jeq x y \<or> jlt y x"
  by (cases x; cases y) (auto simp: jeq_def)

lemma jlt_asym: "jlt x y \<Longrightarrow> \<not> jlt y x \<and> \<not> jeq x y"
  by (cases x; cases y) (auto simp: jeq_def)

lemma jlt_trans: "jlt x y \<Longrightarrow> jlt y z \<Longrightarrow> jlt x z"
  by (cases x; cases y; cases z) auto

lemma jlt_NaN: "jlt x y \<Longrightarrow> x \<noteq> NaN \<and> y \<noteq> NaN"
  by (cases x; cases y) auto

definition jmin :: "jsnum list \<Rightarrow> jsnum" where
  "jmin xs = (if NaN \<in> set xs then NaN
              else fold (\<lambda>x m. if jlt x m then x else m) xs PInf)"

definition jmax :: "jsnum list \<Rightarrow> jsnum" where
  "jmax xs = (if NaN \<in> set xs then NaN
              else fold (\<lambda>x m. if jlt m x then x else m) xs NInf)"

fun jfloor :: "jsnum \<Rightarrow> jsnum" where
  "jfloor (Fin a) = Fin (of_int \<lfloor>a\<rfloor>)"
| "jfloor x = x"

fun jceil :: "jsnum \<Rightarrow> jsnum" where
  "jceil (Fin a) = Fin (of_int \<lceil>a\<rceil>)"
| "jceil x = x"

text \<open>\<^verbatim>\<open>Math.round\<close>: halves go up.\<close>

fun jround :: "jsnum \<Rightarrow> jsnum" where
  "jround (Fin a) = Fin (of_int \<lfloor>a + 1/2\<rfloor>)"
| "jround x = x"

fun jabs :: "jsnum \<Rightarrow> jsnum" where
  "jabs (Fin a) = Fin \<bar>a\<bar>"
| "jabs NaN = NaN"
| "jabs _ = PInf"

definition jint :: "int \<Rightarrow> jsnum" where
  "jint n = Fin (of_int n)"

section \<open>Numbers from and to text\<close>

definition is_space :: "char \<Rightarrow> bool" where
  "is_space c \<longleftrightarrow> (let n = of_char c :: nat in (9 \<le> n \<and> n \<le> 13) \<or> n = 32 \<or> n = 160)"

definition trim_left :: "string \<Rightarrow> string" where
  "trim_left s = dropWhile is_space s"

definition js_trim :: "string \<Rightarrow> string" where
  "js_trim s = rev (trim_left (rev (trim_left s)))"

definition digit_char :: "nat \<Rightarrow> char" where
  "digit_char d = char_of (48 + d)"

fun nat_digits :: "nat \<Rightarrow> string" where
  "nat_digits n = (if n < 10 then [digit_char n] else nat_digits (n div 10) @ [digit_char (n mod 10)])"

declare nat_digits.simps [simp del]

definition radix_val :: "char \<Rightarrow> nat option" where
  "radix_val c =
     (let n = of_char c :: nat
      in if 48 \<le> n \<and> n \<le> 57 then Some (n - 48)
         else if 97 \<le> n \<and> n \<le> 122 then Some (n - 87)
         else if 65 \<le> n \<and> n \<le> 90 then Some (n - 55)
         else None)"

fun radix_nat :: "nat \<Rightarrow> nat \<Rightarrow> string \<Rightarrow> nat option" where
  "radix_nat b acc [] = Some acc"
| "radix_nat b acc (c # cs) =
     (case radix_val c of
        Some d \<Rightarrow> if d < b then radix_nat b (b * acc + d) cs else None
      | None \<Rightarrow> None)"

text \<open>The exponent part: \<^verbatim>\<open>e\<close>, an optional sign, at least one digit, and nothing after.\<close>

definition parse_exponent :: "string \<Rightarrow> int option" where
  "parse_exponent s =
     (case s of
        [] \<Rightarrow> Some 0
      | c # r \<Rightarrow>
          if c = CHR ''e'' \<or> c = CHR ''E''
          then let (sg, ds) = (case r of
                      x # xs \<Rightarrow> if x = CHR ''-'' then (-1, xs)
                               else if x = CHR ''+'' then (1, xs) else (1, r)
                    | [] \<Rightarrow> (1, r))
               in if ds \<noteq> [] \<and> list_all is_digit ds then Some (sg * int (digits_val ds)) else None
          else None)"

text \<open>An unsigned decimal literal: digits, an optional fraction, an optional exponent.\<close>

definition parse_decimal :: "string \<Rightarrow> jsnum" where
  "parse_decimal s =
     (let ip = takeWhile is_digit s;
          r = dropWhile is_digit s;
          (fp, r') = (case r of
             c # cs \<Rightarrow> if c = CHR ''.'' then (takeWhile is_digit cs, dropWhile is_digit cs) else ([], r)
           | [] \<Rightarrow> ([], []))
      in if ip = [] \<and> fp = [] then NaN
         else case parse_exponent r' of
                None \<Rightarrow> NaN
              | Some e \<Rightarrow> fl (of_nat (digits_val (ip @ fp)) * bpow 10 (e - int (length fp))))"

definition parse_unsigned :: "string \<Rightarrow> jsnum" where
  "parse_unsigned s = (if s = ''Infinity'' then PInf else parse_decimal s)"

text \<open>\<^verbatim>\<open>Number(s)\<close>.\<close>

definition js_Number :: "string \<Rightarrow> jsnum" where
  "js_Number s =
     (let t = js_trim s;
          radix = (\<lambda>b. case radix_nat b 0 (drop 2 t) of
                     Some n \<Rightarrow> if length t > 2 then fl (of_nat n) else NaN
                   | None \<Rightarrow> NaN)
      in if t = [] then Fin 0
         else if take 2 t = ''0x'' \<or> take 2 t = ''0X'' then radix 16
         else if take 2 t = ''0o'' \<or> take 2 t = ''0O'' then radix 8
         else if take 2 t = ''0b'' \<or> take 2 t = ''0B'' then radix 2
         else if hd t = CHR ''-'' then jneg (parse_unsigned (tl t))
         else if hd t = CHR ''+'' then parse_unsigned (tl t)
         else parse_unsigned t)"

text \<open>
  \<^verbatim>\<open>String(n)\<close>.  \<open>short_digits\<close> tries 1, 2, ... significant digits and keeps the first
  decimal that rounds back to the number; 17 digits always do.
\<close>

definition digit_candidates :: "rat \<Rightarrow> int \<Rightarrow> nat \<Rightarrow> (nat \<times> int) list" where
  "digit_candidates x n k =
     (let s = x / bpow 10 (n - int k);
          lo = \<lfloor>s\<rfloor>; hi = lo + 1;
          cand = (\<lambda>c. if c = 10 ^ k then (10 ^ (k - 1), n + 1) else (nat c, n));
          ord = (if s - of_int lo < of_int hi - s then [lo, hi]
                 else if of_int hi - s < s - of_int lo then [hi, lo]
                 else if even lo then [lo, hi] else [hi, lo])
      in filter (\<lambda>(c, m). fl (of_nat c * bpow 10 (m - int k)) = Fin x)
           (map cand (filter (\<lambda>c. 10 ^ (k - 1) \<le> c) ord)))"

fun short_digits :: "rat \<Rightarrow> int \<Rightarrow> nat list \<Rightarrow> nat \<times> nat \<times> int" where
  "short_digits x n [] = (nat \<lfloor>x / bpow 10 (n - 17)\<rfloor>, 17, n)"
| "short_digits x n (k # ks) =
     (case digit_candidates x n k of
        (c, m) # _ \<Rightarrow> (c, k, m)
      | [] \<Rightarrow> short_digits x n ks)"

definition format_pos :: "rat \<Rightarrow> string" where
  "format_pos x =
     (let (c, k, n) = short_digits x (rexp 10 x + 1) [1..<18];
          ds = nat_digits c; e = n - 1;
          exps = (if e < 0 then ''e-'' else ''e+'') @ nat_digits (nat \<bar>e\<bar>)
      in if int k \<le> n \<and> n \<le> 21 then ds @ replicate (nat (n - int k)) (CHR ''0'')
         else if 0 < n \<and> n \<le> 21 then take (nat n) ds @ ''.'' @ drop (nat n) ds
         else if -6 < n \<and> n \<le> 0 then ''0.'' @ replicate (nat (- n)) (CHR ''0'') @ ds
         else if k = 1 then ds @ exps
         else take 1 ds @ ''.'' @ drop 1 ds @ exps)"

fun num_to_string :: "jsnum \<Rightarrow> string" where
  "num_to_string NaN = ''NaN''"
| "num_to_string PInf = ''Infinity''"
| "num_to_string NInf = ''-Infinity''"
| "num_to_string (Fin x) =
     (if x = 0 then ''0'' else if x < 0 then CHR ''-'' # format_pos (- x) else format_pos x)"

text \<open>The definitions to unfold when a numeral is read in a concrete string.\<close>

lemmas number_eval =
  js_Number_def js_trim_def trim_left_def is_space_def parse_unsigned_def parse_decimal_def
  is_digit_def parse_exponent_def digits_val_def digit_val_def bpow_def Let_def

lemma of_char_digit: "d < 10 \<Longrightarrow> of_char (digit_char d) = (48 + d :: nat)"
  by (simp add: digit_char_def of_char_of)

lemma digit_char_props:
  "d < 10 \<Longrightarrow> is_digit (digit_char d)" "d < 10 \<Longrightarrow> digit_val (digit_char d) = d"
  by (simp_all add: is_digit_def digit_val_def of_char_digit)

lemma nat_digits_props:
  "list_all is_digit (nat_digits n)" "nat_digits n \<noteq> []" "digits_val (nat_digits n) = n"
proof (induction n rule: nat_digits.induct)
  case (1 n)
  { case 1 show ?case by (subst nat_digits.simps) (use "1.IH" in \<open>simp add: digit_char_props\<close>) }
  { case 2 show ?case by (subst nat_digits.simps) simp }
  { case 3 show ?case by (subst nat_digits.simps) (use "1.IH" in \<open>simp add: digits_val_def digit_char_props\<close>) }
qed

text \<open>\<^verbatim>\<open>parseInt(s, 10)\<close>: leading blanks, a sign, then the longest run of digits; \<open>None\<close> is \<^verbatim>\<open>NaN\<close>.\<close>

definition parse_int10 :: "string \<Rightarrow> int option" where
  "parse_int10 s =
     (let t = dropWhile is_space s;
          (neg, u) = (case t of c # cs \<Rightarrow> if c = CHR ''-'' then (True, cs) else if c = CHR ''+'' then (False, cs) else (False, t)
                      | [] \<Rightarrow> (False, []));
          ds = takeWhile is_digit u
      in if ds = [] then None else Some (if neg then - int (digits_val ds) else int (digits_val ds)))"

end
