(* ===== verification/JsValue.thy ===== *)
theory JsValue
  imports JsNum
begin

text \<open>
  Run-time values of the services: the JSON data that flows through pipelines, plus
  \<^verbatim>\<open>undefined\<close> and the built-in functions that a property read can find on a prototype.
  Arrays and objects carry an identity, so that \<^verbatim>\<open>===\<close> on them is reference equality.
  A string is a list of characters, one per code unit; the model covers ASCII text, so case
  conversion is the ASCII one.
  No object has an own key \<^verbatim>\<open>__proto__\<close>.
\<close>

datatype jsval =
    VUndef
  | VNull
  | VBool bool
  | VNum jsnum
  | VStr string
  | VArr nat "jsval list"
  | VObj nat "(string \<times> jsval) list"
  | VFun string

type_synonym props = "(string \<times> jsval) list"

definition is_nullish :: "jsval \<Rightarrow> bool" where
  "is_nullish v \<longleftrightarrow> v = VNull \<or> v = VUndef"

text \<open>\<^verbatim>\<open>typeof v === "object"\<close> and \<open>v\<close> is not \<^verbatim>\<open>null\<close>.\<close>

fun is_object :: "jsval \<Rightarrow> bool" where
  "is_object (VArr _ _) = True"
| "is_object (VObj _ _) = True"
| "is_object _ = False"

fun strict_eq :: "jsval \<Rightarrow> jsval \<Rightarrow> bool" where
  "strict_eq (VNum x) b = (case b of VNum y \<Rightarrow> jeq x y | _ \<Rightarrow> False)"
| "strict_eq (VArr i _) b = (case b of VArr j _ \<Rightarrow> i = j | _ \<Rightarrow> False)"
| "strict_eq (VObj i _) b = (case b of VObj j _ \<Rightarrow> i = j | _ \<Rightarrow> False)"
| "strict_eq a b = (a = b)"

text \<open>\<^verbatim>\<open>Array.prototype.includes\<close> compares by \<open>SameValueZero\<close>: \<^verbatim>\<open>NaN\<close> equals itself.\<close>

definition same_value_zero :: "jsval \<Rightarrow> jsval \<Rightarrow> bool" where
  "same_value_zero a b \<longleftrightarrow> (a = VNum NaN \<and> b = VNum NaN) \<or> strict_eq a b"

lemma strict_eq_sym: "strict_eq a b = strict_eq b a"
  by (cases a; cases b) (auto simp: jeq_def)

lemma strict_eq_refl: "a \<noteq> VNum NaN \<Longrightarrow> strict_eq a a"
  by (cases a) (auto simp: jeq_def)

section \<open>Property reads\<close>

definition object_prototype :: "string list" where
  "object_prototype =
     [''constructor'', ''__defineGetter__'', ''__defineSetter__'', ''hasOwnProperty'',
      ''__lookupGetter__'', ''__lookupSetter__'', ''isPrototypeOf'', ''propertyIsEnumerable'',
      ''toString'', ''valueOf'', ''toLocaleString'']"

definition array_prototype :: "string list" where
  "array_prototype =
     [''at'', ''concat'', ''copyWithin'', ''fill'', ''find'', ''findIndex'', ''findLast'',
      ''findLastIndex'', ''lastIndexOf'', ''pop'', ''push'', ''reverse'', ''shift'', ''unshift'',
      ''slice'', ''sort'', ''splice'', ''includes'', ''indexOf'', ''join'', ''keys'', ''entries'',
      ''values'', ''forEach'', ''filter'', ''flat'', ''flatMap'', ''map'', ''every'', ''some'',
      ''reduce'', ''reduceRight'', ''toReversed'', ''toSorted'', ''toSpliced'', ''with'']"

definition prop_get :: "props \<Rightarrow> string \<Rightarrow> jsval" where
  "prop_get ps k =
     (case map_of ps k of
        Some v \<Rightarrow> v
      | None \<Rightarrow> if k \<in> set object_prototype then VFun k else VUndef)"

definition array_get :: "jsval list \<Rightarrow> string \<Rightarrow> jsval" where
  "array_get vs k =
     (if is_index_key k then (if digits_val k < length vs then vs ! digits_val k else VUndef)
      else if k = ''length'' then VNum (jint (int (length vs)))
      else if k \<in> set array_prototype \<or> k \<in> set object_prototype then VFun k
      else VUndef)"

text \<open>\<^verbatim>\<open>v[k]\<close> on a value whose \<^verbatim>\<open>typeof\<close> is \<^verbatim>\<open>"object"\<close>.\<close>

fun member_get :: "jsval \<Rightarrow> string \<Rightarrow> jsval" where
  "member_get (VObj _ ps) k = prop_get ps k"
| "member_get (VArr _ vs) k = array_get vs k"
| "member_get _ k = VUndef"

text \<open>\<^verbatim>\<open>Object.prototype.hasOwnProperty.call(v, k)\<close>.\<close>

fun has_own :: "jsval \<Rightarrow> string \<Rightarrow> bool" where
  "has_own (VObj _ ps) k = dict_has ps k"
| "has_own (VArr _ vs) k = (k = ''length'' \<or> is_index_key k \<and> digits_val k < length vs)"
| "has_own _ k = False"

lemma prop_get_own: "map_of ps k = Some v \<Longrightarrow> prop_get ps k = v"
  by (simp add: prop_get_def)

lemma prop_get_obj_set [simp]:
  "prop_get (obj_set ps k v) j = (if j = k then v else prop_get ps j)"
  by (simp add: prop_get_def)

lemma prop_get_obj_set_all:
  "prop_get (obj_set_all ps e) j =
     (case map_of (rev e) j of Some v \<Rightarrow> v | None \<Rightarrow> prop_get ps j)"
  by (simp add: prop_get_def obj_set_all_get split: option.split)

section \<open>Strings\<close>

definition ascii_lower :: "char \<Rightarrow> char" where
  "ascii_lower c = (let n = of_char c :: nat in if 65 \<le> n \<and> n \<le> 90 then char_of (n + 32) else c)"

definition ascii_upper :: "char \<Rightarrow> char" where
  "ascii_upper c = (let n = of_char c :: nat in if 97 \<le> n \<and> n \<le> 122 then char_of (n - 32) else c)"

definition js_toLowerCase :: "string \<Rightarrow> string" where
  "js_toLowerCase s = map ascii_lower s"

definition js_toUpperCase :: "string \<Rightarrow> string" where
  "js_toUpperCase s = map ascii_upper s"

definition starts_with :: "string \<Rightarrow> string \<Rightarrow> bool" where
  "starts_with s p \<longleftrightarrow> take (length p) s = p"

definition ends_with :: "string \<Rightarrow> string \<Rightarrow> bool" where
  "ends_with s p \<longleftrightarrow> length p \<le> length s \<and> drop (length s - length p) s = p"

fun str_includes :: "string \<Rightarrow> string \<Rightarrow> bool" where
  "str_includes [] p = (p = [])"
| "str_includes (c # s) p = (starts_with (c # s) p \<or> str_includes s p)"

lemma str_includes_iff: "str_includes s p \<longleftrightarrow> (\<exists>u v. s = u @ p @ v)"
proof (induction s)
  case (Cons c s)
  have "starts_with (c # s) p \<longleftrightarrow> (\<exists>v. c # s = p @ v)"
    unfolding starts_with_def by (metis append_eq_conv_conj append_take_drop_id)
  moreover have "(\<exists>u v. c # s = u @ p @ v) \<longleftrightarrow>
      (\<exists>v. c # s = p @ v) \<or> (\<exists>u v. s = u @ p @ v)"
    by (metis append_Cons append_Nil list.inject neq_Nil_conv)
  ultimately show ?case using Cons.IH by simp
qed simp

text \<open>\<^verbatim>\<open>s.split(c)\<close> for a one-character separator.\<close>

fun split_char :: "char \<Rightarrow> string \<Rightarrow> string list" where
  "split_char c [] = [[]]"
| "split_char c (x # xs) =
     (if x = c then [] # split_char c xs
      else case split_char c xs of
             [] \<Rightarrow> [[x]]
           | w # ws \<Rightarrow> (x # w) # ws)"

fun join_with :: "string \<Rightarrow> string list \<Rightarrow> string" where
  "join_with sep [] = []"
| "join_with sep [w] = w"
| "join_with sep (w # ws) = w @ sep @ join_with sep ws"

lemma split_char_nonempty [simp]: "split_char c s \<noteq> []"
  by (induction s) (auto split: list.splits)

lemma join_with_cons: "ws \<noteq> [] \<Longrightarrow> join_with sep (w # ws) = w @ sep @ join_with sep ws"
  by (cases ws) auto

lemma join_split_char: "join_with [c] (split_char c s) = s"
proof (induction s)
  case (Cons x xs)
  obtain w ws where w: "split_char c xs = w # ws"
    by (cases "split_char c xs") (use split_char_nonempty [of c xs] in auto)
  with Cons.IH show ?case
    by (cases ws) (auto simp: join_with_cons)
qed simp

section \<open>Conversion to text\<close>

text \<open>
  \<^verbatim>\<open>String(v)\<close>.  An object with an own \<^verbatim>\<open>toString\<close> (data, hence not callable) cannot be
  converted and throws.  Elements of an array convert with \<^verbatim>\<open>null\<close> and \<^verbatim>\<open>undefined\<close> as the
  empty string.
\<close>

fun to_str :: "jsval \<Rightarrow> string res"
and to_str_elems :: "jsval list \<Rightarrow> string list res" where
  "to_str VUndef = Inr ''undefined''"
| "to_str VNull = Inr ''null''"
| "to_str (VBool b) = Inr (if b then ''true'' else ''false'')"
| "to_str (VNum n) = Inr (num_to_string n)"
| "to_str (VStr s) = Inr s"
| "to_str (VArr _ vs) = rbind (to_str_elems vs) (\<lambda>ws. Inr (join_with '','' ws))"
| "to_str (VObj _ ps) =
     (if dict_has ps ''toString'' then Inl TypeError else Inr ''[object Object]'')"
| "to_str (VFun f) = Inr (''function '' @ f @ ''() { [native code] }'')"
| "to_str_elems [] = Inr []"
| "to_str_elems (v # vs) =
     rbind (if is_nullish v then Inr [] else to_str v)
       (\<lambda>w. rbind (to_str_elems vs) (\<lambda>ws. Inr (w # ws)))"

definition hex_digit :: "nat \<Rightarrow> char" where
  "hex_digit d = (if d < 10 then char_of (48 + d) else char_of (87 + d))"

definition json_escape :: "char \<Rightarrow> string" where
  "json_escape c =
     (let n = of_char c :: nat
      in if n = 34 then [char_of (92::nat), char_of (34::nat)]
         else if n = 92 then [char_of (92::nat), char_of (92::nat)]
         else if n = 8 then char_of (92::nat) # ''b''
         else if n = 9 then char_of (92::nat) # ''t''
         else if n = 10 then char_of (92::nat) # ''n''
         else if n = 12 then char_of (92::nat) # ''f''
         else if n = 13 then char_of (92::nat) # ''r''
         else if n < 32 then char_of (92::nat) # ''u00'' @ [hex_digit (n div 16), hex_digit (n mod 16)]
         else [c])"

definition json_quote :: "string \<Rightarrow> string" where
  "json_quote s = [char_of (34::nat)] @ concat (map json_escape s) @ [char_of (34::nat)]"

text \<open>\<^verbatim>\<open>JSON.stringify(v)\<close>; \<open>None\<close> is the result \<^verbatim>\<open>undefined\<close>.\<close>

fun json :: "jsval \<Rightarrow> string option"
and json_elems :: "jsval list \<Rightarrow> string list"
and json_props :: "props \<Rightarrow> string list" where
  "json VUndef = None"
| "json VNull = Some ''null''"
| "json (VBool b) = Some (if b then ''true'' else ''false'')"
| "json (VNum n) = Some (if is_finite n then num_to_string n else ''null'')"
| "json (VStr s) = Some (json_quote s)"
| "json (VArr _ vs) = Some (''['' @ join_with '','' (json_elems vs) @ '']'')"
| "json (VObj _ ps) = Some (''{'' @ join_with '','' (json_props ps) @ ''}'')"
| "json (VFun _) = None"
| "json_elems [] = []"
| "json_elems (v # vs) = (case json v of Some w \<Rightarrow> w | None \<Rightarrow> ''null'') # json_elems vs"
| "json_props [] = []"
| "json_props ((k, v) # ps) =
     (case json v of
        Some w \<Rightarrow> (json_quote k @ '':'' @ w) # json_props ps
      | None \<Rightarrow> json_props ps)"

section \<open>Parameters the host supplies\<close>

text \<open>
  Library routines whose result the language leaves to the implementation:
  \<^verbatim>\<open>Math.pow(10, d)\<close>, \<^verbatim>\<open>String.prototype.localeCompare\<close>, the date parser and
  compiled regular expressions (\<open>None\<close>: the pattern does not compile).
\<close>

record js_host =
  host_pow10 :: "jsnum \<Rightarrow> jsnum"
  host_localeCompare :: "string \<Rightarrow> string \<Rightarrow> int"
  host_dateParse :: "string \<Rightarrow> jsnum"
  host_toISOString :: "jsnum \<Rightarrow> string"
  host_regex :: "string \<Rightarrow> (string \<Rightarrow> bool) option"

end
