(* ===== verification/ConditionEvaluator.thy ===== *)
theory ConditionEvaluator
  imports JsValue
begin

text \<open>
  The structured conditions of conditional steps
  (\<^verbatim>\<open>services/pipeline/src/services/condition-evaluator.ts\<close>): a field path, an operator
  and an optional comparand, evaluated against a data object.  The regular-expression
  engine is a parameter (\<open>host_regex\<close>).
\<close>

datatype ConditionOperator =
    Op_eq | Op_neq | Op_gt | Op_gte | Op_lt | Op_lte
  | Op_contains | Op_not_contains | Op_exists | Op_not_exists | Op_matches

record Condition =
  c_field :: string
  c_operator :: ConditionOperator
  c_value :: jsval

section \<open>Operations\<close>

text \<open>\<open>None\<close> is \<^verbatim>\<open>{ present: false }\<close>, \<open>Some v\<close> is \<^verbatim>\<open>{ present: true, value: v }\<close>.\<close>

fun walk_own :: "jsval \<Rightarrow> string list \<Rightarrow> jsval option" where
  "walk_own cur [] = Some cur"
| "walk_own cur (part # parts) =
     (if \<not> is_object cur then None
      else if \<not> has_own cur part then None
      else walk_own (member_get cur part) parts)"

definition getFieldValue :: "props \<Rightarrow> string \<Rightarrow> jsval option" where
  "getFieldValue data field =
     (if field = [] then None else walk_own (VObj 0 data) (split_char (CHR ''.'') field))"

fun toNumberMaybe :: "jsval \<Rightarrow> jsnum option" where
  "toNumberMaybe (VNum n) = Some n"
| "toNumberMaybe (VStr s) = (let n = js_Number s in if is_finite n then Some n else None)"
| "toNumberMaybe _ = None"

text \<open>The nested-quantifier test: \<^verbatim>\<open>/([+*])\s*[)]\s*[+*{]/\<close>.\<close>

fun nested_quantifier :: "string \<Rightarrow> bool" where
  "nested_quantifier [] = False"
| "nested_quantifier (c # cs) =
     ((c \<in> set ''+*'' \<and>
       (case dropWhile is_space cs of
          p # ps \<Rightarrow> p = CHR '')'' \<and>
             (case dropWhile is_space ps of q # _ \<Rightarrow> q \<in> set ''+*{'' | [] \<Rightarrow> False)
        | [] \<Rightarrow> False))
      \<or> nested_quantifier cs)"

definition numeric_test :: "(jsnum \<Rightarrow> jsnum \<Rightarrow> bool) \<Rightarrow> jsval \<Rightarrow> jsval \<Rightarrow> bool" where
  "numeric_test R a b =
     (case (toNumberMaybe a, toNumberMaybe b) of
        (Some x, Some y) \<Rightarrow> R x y
      | _ \<Rightarrow> False)"

definition cond_eq :: "jsval \<Rightarrow> jsval \<Rightarrow> bool" where
  "cond_eq a b =
     (case (toNumberMaybe a, toNumberMaybe b) of
        (Some x, Some y) \<Rightarrow> jeq x y
      | _ \<Rightarrow> strict_eq a b)"

definition cond_neq :: "jsval \<Rightarrow> jsval \<Rightarrow> bool" where
  "cond_neq a b =
     (case (toNumberMaybe a, toNumberMaybe b) of
        (Some x, Some y) \<Rightarrow> \<not> jeq x y
      | _ \<Rightarrow> \<not> strict_eq a b)"

definition cond_contains :: "jsval \<Rightarrow> jsval \<Rightarrow> bool" where
  "cond_contains a b =
     (case a of
        VStr s \<Rightarrow> (case b of VStr p \<Rightarrow> str_includes s p | _ \<Rightarrow> False)
      | VArr _ vs \<Rightarrow> list_ex (same_value_zero b) vs
      | _ \<Rightarrow> False)"

definition cond_not_contains :: "jsval \<Rightarrow> jsval \<Rightarrow> bool" where
  "cond_not_contains a b =
     (case a of
        VStr s \<Rightarrow> \<not> (case b of VStr p \<Rightarrow> str_includes s p | _ \<Rightarrow> False)
      | VArr _ vs \<Rightarrow> \<not> list_ex (same_value_zero b) vs
      | _ \<Rightarrow> True)"

definition cond_matches :: "js_host \<Rightarrow> jsval \<Rightarrow> jsval \<Rightarrow> bool" where
  "cond_matches h a b =
     (case (a, b) of
        (VStr s, VStr p) \<Rightarrow>
          if nested_quantifier p \<or> 256 < length p then False
          else (case host_regex h p of Some re \<Rightarrow> re s | None \<Rightarrow> False)
      | _ \<Rightarrow> False)"

definition evaluateCondition :: "js_host \<Rightarrow> props \<Rightarrow> Condition \<Rightarrow> bool" where
  "evaluateCondition h data c =
     (let fv = getFieldValue data (c_field c); cv = c_value c
      in if c_operator c = Op_exists then fv \<noteq> None
         else if c_operator c = Op_not_exists then fv = None
         else case fv of
                None \<Rightarrow> False
              | Some v \<Rightarrow>
                  (case c_operator c of
                     Op_eq \<Rightarrow> cond_eq v cv
                   | Op_neq \<Rightarrow> cond_neq v cv
                   | Op_gt \<Rightarrow> numeric_test (\<lambda>x y. jlt y x) v cv
                   | Op_gte \<Rightarrow> numeric_test (\<lambda>x y. jle y x) v cv
                   | Op_lt \<Rightarrow> numeric_test jlt v cv
                   | Op_lte \<Rightarrow> numeric_test jle v cv
                   | Op_contains \<Rightarrow> cond_contains v cv
                   | Op_not_contains \<Rightarrow> cond_not_contains v cv
                   | Op_matches \<Rightarrow> cond_matches h v cv
                   | _ \<Rightarrow> False))"

section \<open>Field access\<close>

lemma walk_own_append:
  "walk_own v (xs @ ys) = Option.bind (walk_own v xs) (\<lambda>w. walk_own w ys)"
  by (induction xs arbitrary: v) auto

text \<open>Only own properties are ever reached: no path finds a prototype member.\<close>

fun fun_free :: "jsval \<Rightarrow> bool" and fun_free_list :: "jsval list \<Rightarrow> bool"
and fun_free_props :: "props \<Rightarrow> bool" where
  "fun_free (VFun _) = False"
| "fun_free (VArr _ vs) = fun_free_list vs"
| "fun_free (VObj _ ps) = fun_free_props ps"
| "fun_free _ = True"
| "fun_free_list [] = True"
| "fun_free_list (v # vs) = (fun_free v \<and> fun_free_list vs)"
| "fun_free_props [] = True"
| "fun_free_props ((k, v) # ps) = (fun_free v \<and> fun_free_props ps)"

lemma fun_free_list_nth: "fun_free_list vs \<Longrightarrow> i < length vs \<Longrightarrow> fun_free (vs ! i)"
  by (induction vs arbitrary: i) (auto simp: nth_Cons split: nat.splits)

lemma fun_free_props_get: "fun_free_props ps \<Longrightarrow> map_of ps k = Some v \<Longrightarrow> fun_free v"
  by (induction ps) (auto split: if_splits)

lemma member_get_own_fun_free:
  assumes "fun_free v" "has_own v k"
  shows "fun_free (member_get v k)"
proof (cases v)
  case (VObj i ps)
  with assms(2) obtain w where "map_of ps k = Some w"
    by (auto dest: weak_map_of_SomeI)
  with VObj assms(1) show ?thesis by (simp add: prop_get_def fun_free_props_get)
next
  case (VArr i vs)
  with assms show ?thesis
    by (auto simp: array_get_def fun_free_list_nth)
qed (use assms in auto)

lemma walk_own_fun_free: "fun_free v \<Longrightarrow> walk_own v path = Some w \<Longrightarrow> fun_free w"
  by (induction v path rule: walk_own.induct)
    (auto simp: member_get_own_fun_free split: if_splits)

section \<open>Properties\<close>

lemmas condition_defs =
  evaluateCondition_def cond_eq_def cond_neq_def cond_contains_def cond_not_contains_def
  numeric_test_def Let_def

lemma cond_neq_complement: "cond_neq a b = (\<not> cond_eq a b)"
  by (simp add: cond_eq_def cond_neq_def split: option.splits)

lemma cond_not_contains_complement: "cond_not_contains a b = (\<not> cond_contains a b)"
  by (cases a) (auto simp: cond_contains_def cond_not_contains_def)

lemma numeric_test_cases:
  assumes "toNumberMaybe a = Some x" "toNumberMaybe b = Some y" "x \<noteq> NaN" "y \<noteq> NaN"
  shows "numeric_test jlt a b \<or> cond_eq a b \<or> numeric_test (\<lambda>p q. jlt q p) a b"
    and "\<not> (numeric_test jlt a b \<and> cond_eq a b)"
    and "\<not> (numeric_test jlt a b \<and> numeric_test (\<lambda>p q. jlt q p) a b)"
    and "\<not> (cond_eq a b \<and> numeric_test (\<lambda>p q. jlt q p) a b)"
    and "numeric_test jle a b = (numeric_test jlt a b \<or> cond_eq a b)"
    and "numeric_test (\<lambda>p q. jle q p) a b = (numeric_test (\<lambda>p q. jlt q p) a b \<or> cond_eq a b)"
  using assms jlt_trichotomy [of x y] jlt_asym [of x y] jlt_asym [of y x]
  by (auto simp: numeric_test_def cond_eq_def jle_def jeq_def)

text \<open>
  An absent field satisfies \<^verbatim>\<open>not_exists\<close> and no other operator, so a
  condition over missing data always routes to the else branch.
\<close>

theorem evaluateCondition_absent:
  assumes "getFieldValue data (c_field c) = None"
  shows "evaluateCondition h data c = (c_operator c = Op_not_exists)"
  using assms by (cases "c_operator c") (simp_all add: evaluateCondition_def)

theorem evaluateCondition_absent_witness:
  "\<forall>h. evaluateCondition h [(''a'', VNull)] \<lparr>c_field = ''a.b'', c_operator = Op_neq, c_value = VNull\<rparr>
     = False"
proof
  fix h
  let ?c = "\<lparr>c_field = ''a.b'', c_operator = Op_neq, c_value = VNull\<rparr>"
  have "getFieldValue [(''a'', VNull)] (c_field ?c) = None"
    by (simp add: getFieldValue_def prop_get_def)
  from evaluateCondition_absent [OF this, of h]
  show "evaluateCondition h [(''a'', VNull)] ?c = False" by simp
qed

text \<open>
  On a present field the negative operators are the exact complements of the
  positive ones, for every comparand and every kind of field value.
\<close>

theorem evaluateCondition_complement:
  assumes "getFieldValue data f = Some v"
  shows "evaluateCondition h data \<lparr>c_field = f, c_operator = Op_neq, c_value = cv\<rparr>
           = (\<not> evaluateCondition h data \<lparr>c_field = f, c_operator = Op_eq, c_value = cv\<rparr>)
    \<and> evaluateCondition h data \<lparr>c_field = f, c_operator = Op_not_contains, c_value = cv\<rparr>
           = (\<not> evaluateCondition h data \<lparr>c_field = f, c_operator = Op_contains, c_value = cv\<rparr>)
    \<and> evaluateCondition h data \<lparr>c_field = f, c_operator = Op_exists, c_value = cv\<rparr>"
  using assms
  by (simp_all add: evaluateCondition_def cond_neq_complement cond_not_contains_complement)

theorem evaluateCondition_complement_witness:
  "\<forall>h. evaluateCondition h [(''n'', VNum (jint 42))]
        \<lparr>c_field = ''n'', c_operator = Op_neq, c_value = VStr ''42''\<rparr>
      = (\<not> evaluateCondition h [(''n'', VNum (jint 42))]
        \<lparr>c_field = ''n'', c_operator = Op_eq, c_value = VStr ''42''\<rparr>)"
proof
  fix h
  have "getFieldValue [(''n'', VNum (jint 42))] ''n'' = Some (VNum (jint 42))"
    by (simp add: getFieldValue_def prop_get_def)
  from evaluateCondition_complement [OF this, of h "VStr ''42''"]
  show "evaluateCondition h [(''n'', VNum (jint 42))]
        \<lparr>c_field = ''n'', c_operator = Op_neq, c_value = VStr ''42''\<rparr>
      = (\<not> evaluateCondition h [(''n'', VNum (jint 42))]
        \<lparr>c_field = ''n'', c_operator = Op_eq, c_value = VStr ''42''\<rparr>)" by blast
qed

text \<open>
  When field and comparand both read as numbers, exactly one of
  \<^verbatim>\<open>lt\<close>, \<^verbatim>\<open>eq\<close>, \<^verbatim>\<open>gt\<close> holds, and \<^verbatim>\<open>lte\<close>, \<^verbatim>\<open>gte\<close> are their unions with \<^verbatim>\<open>eq\<close>: numeric
  strings and numbers are ordered alike.
\<close>

theorem evaluateCondition_order:
  assumes "getFieldValue data f = Some v"
    and "toNumberMaybe v = Some x" "toNumberMaybe cv = Some y" "x \<noteq> NaN" "y \<noteq> NaN"
  shows "let ev = \<lambda>op. evaluateCondition h data \<lparr>c_field = f, c_operator = op, c_value = cv\<rparr>
    in (ev Op_lt \<or> ev Op_eq \<or> ev Op_gt)
    \<and> \<not> (ev Op_lt \<and> ev Op_eq) \<and> \<not> (ev Op_lt \<and> ev Op_gt) \<and> \<not> (ev Op_eq \<and> ev Op_gt)
    \<and> ev Op_lte = (ev Op_lt \<or> ev Op_eq) \<and> ev Op_gte = (ev Op_gt \<or> ev Op_eq)"
proof -
  define ev where "ev = (\<lambda>op. evaluateCondition h data \<lparr>c_field = f, c_operator = op, c_value = cv\<rparr>)"
  have "ev Op_lt = numeric_test jlt v cv" "ev Op_gt = numeric_test (\<lambda>p q. jlt q p) v cv"
    "ev Op_lte = numeric_test jle v cv" "ev Op_gte = numeric_test (\<lambda>p q. jle q p) v cv"
    "ev Op_eq = cond_eq v cv"
    using assms(1) by (simp_all add: ev_def evaluateCondition_def)
  with numeric_test_cases [OF assms(2-5)] show ?thesis
    unfolding Let_def ev_def [symmetric] by blast
qed

theorem evaluateCondition_order_witness:
  "toNumberMaybe (VStr '' 7 '') = Some (jint 7)
   \<and> (\<forall>h. (let ev = \<lambda>op. evaluateCondition h [(''n'', VStr '' 7 '')]
              \<lparr>c_field = ''n'', c_operator = op, c_value = VNum (jint 42)\<rparr>
        in ev Op_lte = (ev Op_lt \<or> ev Op_eq)))"
proof -
  have "js_Number '' 7 '' = Fin 7" by (simp add: number_eval)
  then have n: "toNumberMaybe (VStr '' 7 '') = Some (jint 7)"
    by (simp add: jint_def is_finite_def)
  have g: "getFieldValue [(''n'', VStr '' 7 '')] ''n'' = Some (VStr '' 7 '')"
    by (simp add: getFieldValue_def prop_get_def)
  have "jint 7 \<noteq> NaN" "jint 42 \<noteq> NaN" by (simp_all add: jint_def)
  then have "let ev = \<lambda>op. evaluateCondition h [(''n'', VStr '' 7 '')]
              \<lparr>c_field = ''n'', c_operator = op, c_value = VNum (jint 42)\<rparr>
        in ev Op_lte = (ev Op_lt \<or> ev Op_eq)" for h
    using evaluateCondition_order [OF g n, of "VNum (jint 42)" "jint 42" h]
    unfolding Let_def by simp
  with n show ?thesis by blast
qed

text \<open>
  A condition path only ever reaches own data.  From an object that holds no
  function, no path yields a function, whatever prototype names it mentions.
\<close>

theorem getFieldValue_own_data:
  assumes "fun_free_props data" "getFieldValue data f = Some v"
  shows "fun_free v"
  using assms walk_own_fun_free [of "VObj 0 data" _ v]
  by (auto simp: getFieldValue_def split: if_splits)

theorem getFieldValue_own_data_witness:
  "getFieldValue [(''u'', VObj 1 [(''toString'', VBool True)])] ''u.toString'' = Some (VBool True)
   \<and> fun_free (VBool True)
   \<and> getFieldValue [(''u'', VObj 1 [])] ''u.toString'' = None"
proof -
  let ?d = "[(''u'', VObj 1 [(''toString'', VBool True)])]"
  have g: "getFieldValue ?d ''u.toString'' = Some (VBool True)"
    by (simp add: getFieldValue_def prop_get_def)
  have "fun_free_props ?d" by simp
  from getFieldValue_own_data [OF this g] g show ?thesis
    by (simp add: getFieldValue_def prop_get_def)
qed

end
