(* ===== verification/ExpressionParser.thy ===== *)
theory ExpressionParser
  imports JsValue
begin

text \<open>
  The tokenizer and the Pratt parser of the expression language of transform steps
  (\<^verbatim>\<open>services/pipeline/src/services/expression-evaluator.ts\<close>).  The parser object's
  \<^verbatim>\<open>pos\<close> is the list of tokens still ahead; its \<^verbatim>\<open>depth\<close> is an argument, since every
  successful call leaves it as it found it.  The mutual recursion runs on fuel;
  \<open>parse_tokens_returns\<close> shows that the fuel \<open>parse_tokens\<close> supplies is never used up.
\<close>

section \<open>Tokens\<close>

datatype token =
    TNumber string jsnum
  | TString string string
  | TIdent string
  | TBool bool
  | TNull
  | TOp string
  | TLParen
  | TRParen
  | TComma
  | TDot

definition BLOCKED_IDENTS :: "string list" where
  "BLOCKED_IDENTS =
     [''globalThis'', ''global'', ''process'', ''require'', ''import'', ''__proto__'',
      ''constructor'', ''prototype'', ''eval'', ''Function'', ''setTimeout'', ''setInterval'',
      ''fetch'', ''window'', ''document'']"

definition is_num_char :: "char \<Rightarrow> bool" where
  "is_num_char c \<longleftrightarrow> is_digit c \<or> c = CHR ''.''"

definition is_ident_start :: "char \<Rightarrow> bool" where
  "is_ident_start c \<longleftrightarrow>
     (let n = of_char c :: nat in (97 \<le> n \<and> n \<le> 122) \<or> (65 \<le> n \<and> n \<le> 90)) \<or>
     c = CHR ''_'' \<or> c = CHR ''$''"

definition is_ident_char :: "char \<Rightarrow> bool" where
  "is_ident_char c \<longleftrightarrow> is_ident_start c \<or> is_digit c"

definition backslash :: char where
  "backslash = char_of (92::nat)"

definition unescape :: "char \<Rightarrow> char" where
  "unescape c = (if c = CHR ''n'' then char_of (10::nat) else if c = CHR ''t'' then char_of (9::nat) else c)"

text \<open>The body of a string literal up to the closing quote, and what follows it.\<close>

fun scan_string :: "char \<Rightarrow> string \<Rightarrow> string \<times> string" where
  "scan_string q [] = ([], [])"
| "scan_string q (c # cs) =
     (if c = q then ([], cs)
      else if c = backslash
      then (case cs of
              [] \<Rightarrow> ([], [])
            | e # r \<Rightarrow> let (s, t) = scan_string q r in (unescape e # s, t))
      else let (s, t) = scan_string q cs in (c # s, t))"

definition ident_token :: "string \<Rightarrow> token res" where
  "ident_token i =
     (if i = ''true'' then Inr (TBool True)
      else if i = ''false'' then Inr (TBool False)
      else if i = ''null'' then Inr TNull
      else if i \<in> set BLOCKED_IDENTS
      then Inl (ExpressionEvaluatorError ''Identifier is not permitted in expressions.'')
      else Inr (TIdent i))"

definition two_char_ops :: "string list" where
  "two_char_ops = [''=='', ''!='', ''<='', ''>='', ''&&'', ''||'']"

definition quote_chars :: "char list" where
  "quote_chars = [char_of (34::nat), char_of (39::nat)]"

lemma scan_string_length: "scan_string q s = (b, r) \<Longrightarrow> length r \<le> length s"
proof (induction q s arbitrary: b r rule: scan_string.induct)
  case (2 q c cs)
  show ?case
  proof (cases "c = q")
    case False
    show ?thesis
    proof (cases "c = backslash")
      case True
      then show ?thesis using "2.prems" "2.IH"(1) False
        by (cases cs) (fastforce split: prod.splits)+
    next
      case nb: False
      then show ?thesis using "2.prems" "2.IH"(2) False by (fastforce split: prod.splits)
    qed
  qed (use "2.prems" in auto)
qed auto

text \<open>One turn of the tokenizer's loop: the token read, if any, and the rest of the input.\<close>

definition next_token :: "char \<Rightarrow> string \<Rightarrow> (token option \<times> string) res" where
  "next_token c cs =
     (if is_space c then Inr (None, cs)
      else if is_digit c
      then let num = takeWhile is_num_char (c # cs)
           in Inr (Some (TNumber num (js_Number num)), dropWhile is_num_char cs)
      else if c \<in> set quote_chars
      then let (b, r) = scan_string c cs in Inr (Some (TString ([c] @ b @ [c]) b), r)
      else if take 2 (c # cs) \<in> set two_char_ops
      then Inr (Some (TOp (take 2 (c # cs))), drop 1 cs)
      else if c \<in> set ''<>+-*/%!'' then Inr (Some (TOp [c]), cs)
      else if c = CHR ''('' then Inr (Some TLParen, cs)
      else if c = CHR '')'' then Inr (Some TRParen, cs)
      else if c = CHR '','' then Inr (Some TComma, cs)
      else if c = CHR ''.'' then Inr (Some TDot, cs)
      else if is_ident_start c
      then rbind (ident_token (takeWhile is_ident_char (c # cs)))
             (\<lambda>t. Inr (Some t, dropWhile is_ident_char cs))
      else Inl (ExpressionEvaluatorError ''Unexpected character''))"

lemma next_token_length: "next_token c cs = Inr (t, r) \<Longrightarrow> length r \<le> length cs"
  by (auto simp: next_token_def Let_def rbind_Inr_iff length_dropWhile_le scan_string_length
      split: if_splits prod.splits)

function tokenize :: "string \<Rightarrow> token list res" where
  "tokenize [] = Inr []"
| "tokenize (c # cs) =
     (case next_token c cs of
        Inl e \<Rightarrow> Inl e
      | Inr (None, r) \<Rightarrow> tokenize r
      | Inr (Some t, r) \<Rightarrow> rbind (tokenize r) (\<lambda>ts. Inr (t # ts)))"
  by pat_completeness auto
termination
  by (relation "measure length") (auto dest!: next_token_length simp: le_imp_less_Suc)

section \<open>Syntax trees and the parser\<close>

datatype ast =
    ALiteral jsval
  | AField "string list"
  | AUnary string ast
  | ABinary string ast ast
  | ACall string "ast list"

definition INFIX_POWER :: "(string \<times> nat) list" where
  "INFIX_POWER =
     [(''||'', 10), (''&&'', 20), (''=='', 30), (''!='', 30), (''<'', 40), (''<='', 40),
      (''>'', 40), (''>='', 40), (''+'', 50), (''-'', 50), (''*'', 60), (''/'', 60), (''%'', 60)]"

definition infix_power :: "string \<Rightarrow> nat option" where
  "infix_power op = map_of INFIX_POWER op"

abbreviation unexpected_end :: js_error where
  "unexpected_end \<equiv> ExpressionEvaluatorError ''Unexpected end of expression.''"

abbreviation out_of_fuel :: js_error where
  "out_of_fuel \<equiv> PlainError ''out of fuel''"

definition MAX_PARSE_DEPTH :: nat where
  "MAX_PARSE_DEPTH = 50"

text \<open>\<^verbatim>\<open>(.IDENT)*\<close> after the first identifier of a field path.\<close>

fun parse_path :: "token list \<Rightarrow> (string list \<times> token list) res" where
  "parse_path ts =
     (case ts of
        TDot # r \<Rightarrow>
          (case r of
             [] \<Rightarrow> Inl unexpected_end
           | TIdent i # r' \<Rightarrow> rbind (parse_path r') (\<lambda>(p, s). Inr (i # p, s))
           | t # r' \<Rightarrow> Inl (ExpressionEvaluatorError ''Expected field name''))
      | _ \<Rightarrow> Inr ([], ts))"

declare parse_path.simps [simp del]

definition expect_rparen :: "token list \<Rightarrow> token list res" where
  "expect_rparen ts =
     (case ts of
        [] \<Rightarrow> Inl unexpected_end
      | t # r \<Rightarrow> if t = TRParen then Inr r else Inl (ExpressionEvaluatorError ''Expected RPAREN''))"

text \<open>What the parser sees when it peeks at the tokens ahead.\<close>

definition peek_infix :: "token list \<Rightarrow> (string \<times> nat \<times> token list) option" where
  "peek_infix ts =
     (case ts of
        TOp op # r \<Rightarrow> (case infix_power op of Some bp \<Rightarrow> Some (op, bp, r) | None \<Rightarrow> None)
      | _ \<Rightarrow> None)"

definition peek_unary :: "token list \<Rightarrow> (string \<times> token list) option" where
  "peek_unary ts =
     (case ts of
        TOp op # r \<Rightarrow> if op = ''!'' \<or> op = ''-'' then Some (op, r) else None
      | _ \<Rightarrow> None)"

datatype primary_head =
    PEnd
  | PLiteral jsval "token list"
  | PParen "token list"
  | PCall string "token list"
  | PField string "token list"
  | PBad

definition peek_primary :: "token list \<Rightarrow> primary_head" where
  "peek_primary ts =
     (case ts of
        [] \<Rightarrow> PEnd
      | TNumber _ n # r \<Rightarrow> PLiteral (VNum n) r
      | TString _ s # r \<Rightarrow> PLiteral (VStr s) r
      | TBool b # r \<Rightarrow> PLiteral (VBool b) r
      | TNull # r \<Rightarrow> PLiteral VNull r
      | TLParen # r \<Rightarrow> PParen r
      | TIdent name # r \<Rightarrow> (if r \<noteq> [] \<and> hd r = TLParen then PCall name (tl r) else PField name r)
      | _ \<Rightarrow> PBad)"

definition skip_comma :: "token list \<Rightarrow> token list" where
  "skip_comma ts = (if ts \<noteq> [] \<and> hd ts = TComma then tl ts else ts)"

function (sequential) parseExpression :: "nat \<Rightarrow> nat \<Rightarrow> nat \<Rightarrow> token list \<Rightarrow> (ast \<times> token list) res"
and parse_loop :: "nat \<Rightarrow> nat \<Rightarrow> nat \<Rightarrow> ast \<Rightarrow> token list \<Rightarrow> (ast \<times> token list) res"
and parseUnary :: "nat \<Rightarrow> nat \<Rightarrow> token list \<Rightarrow> (ast \<times> token list) res"
and parsePrimary :: "nat \<Rightarrow> nat \<Rightarrow> token list \<Rightarrow> (ast \<times> token list) res"
and parse_args :: "nat \<Rightarrow> nat \<Rightarrow> token list \<Rightarrow> (ast list \<times> token list) res" where
  "parseExpression 0 depth minPower ts = Inl out_of_fuel"
| "parseExpression (Suc f) depth minPower ts =
     (if MAX_PARSE_DEPTH < depth + 1
      then Inl (ExpressionEvaluatorError ''Expression exceeds maximum nesting depth (50).'')
      else rbind (parseUnary f (depth + 1) ts)
             (\<lambda>(left, r). parse_loop f (depth + 1) minPower left r))"
| "parse_loop 0 depth minPower left ts = Inl out_of_fuel"
| "parse_loop (Suc f) depth minPower left ts =
     (case peek_infix ts of
        None \<Rightarrow> Inr (left, ts)
      | Some (op, bp, r) \<Rightarrow>
          if bp \<le> minPower then Inr (left, ts)
          else rbind (parseExpression f depth bp r)
                 (\<lambda>(right, r'). parse_loop f depth minPower (ABinary op left right) r'))"
| "parseUnary 0 depth ts = Inl out_of_fuel"
| "parseUnary (Suc f) depth ts =
     (case peek_unary ts of
        Some (op, r) \<Rightarrow> rbind (parseUnary f depth r) (\<lambda>(e, r'). Inr (AUnary op e, r'))
      | None \<Rightarrow> parsePrimary f depth ts)"
| "parsePrimary 0 depth ts = Inl out_of_fuel"
| "parsePrimary (Suc f) depth ts =
     (case peek_primary ts of
        PEnd \<Rightarrow> Inl unexpected_end
      | PLiteral v r \<Rightarrow> Inr (ALiteral v, r)
      | PParen r \<Rightarrow>
          rbind (parseExpression f depth 0 r)
            (\<lambda>(e, r'). rbind (expect_rparen r') (\<lambda>r''. Inr (e, r'')))
      | PCall name r \<Rightarrow>
          rbind (parse_args f depth r)
            (\<lambda>(args, r'). rbind (expect_rparen r') (\<lambda>r''. Inr (ACall name args, r'')))
      | PField name r \<Rightarrow> rbind (parse_path r) (\<lambda>(p, r'). Inr (AField (name # p), r'))
      | PBad \<Rightarrow> Inl (ExpressionEvaluatorError ''Unexpected token''))"
| "parse_args 0 depth ts = Inl out_of_fuel"
| "parse_args (Suc f) depth ts =
     (if ts \<noteq> [] \<and> hd ts = TRParen then Inr ([], ts)
      else rbind (parseExpression f depth 0 ts)
             (\<lambda>(a, r). rbind (parse_args f depth (skip_comma r))
                (\<lambda>(as, r'). Inr (a # as, r'))))"
  by pat_completeness auto
termination
  by (relation "measure (case_sum
        (case_sum (\<lambda>(f, _). f) (\<lambda>(f, _). f))
        (case_sum (\<lambda>(f, _). f) (case_sum (\<lambda>(f, _). f) (\<lambda>(f, _). f))))") simp_all

declare parseExpression.simps [simp del] parse_loop.simps [simp del] parseUnary.simps [simp del]
  parsePrimary.simps [simp del] parse_args.simps [simp del]

lemmas parser_simps =
  parseExpression.simps parse_loop.simps parseUnary.simps parsePrimary.simps parse_args.simps

text \<open>Parse a whole token list; left-over tokens are an error.\<close>

definition parse_tokens :: "token list \<Rightarrow> ast res" where
  "parse_tokens ts =
     rbind (parseExpression (4 * length ts + 3) 0 0 ts)
       (\<lambda>(e, r). if r = [] then Inr e else Inl (ExpressionEvaluatorError ''Unexpected token''))"

definition MAX_EXPRESSION_LENGTH :: nat where
  "MAX_EXPRESSION_LENGTH = 2000"

definition parse_source :: "string \<Rightarrow> ast res" where
  "parse_source expression =
     (if MAX_EXPRESSION_LENGTH < length expression
      then Inl (ExpressionEvaluatorError ''Expression exceeds 2000 character limit.'')
      else rbind (tokenize expression) parse_tokens)"

end
