(* ===== verification/ExpressionEvaluator.thy ===== *)
theory ExpressionEvaluator
  imports ExpressionParser
begin

text \<open>
  Evaluation of expression trees
  (\<^verbatim>\<open>services/pipeline/src/services/expression-evaluator.ts\<close>): truthiness, field
  resolution, the built-in functions, \<^verbatim>\<open>evalNode\<close> and the entry points.
\<close>

section \<open>Helpers\<close>

definition isTruthy :: "jsval \<Rightarrow> bool" where
  "isTruthy v \<longleftrightarrow>
     \<not> (is_nullish v \<or> v = VBool False \<or> (\<exists>n. v = VNum n \<and> jeq n (jint 0)) \<or> v = VStr [])"

lemma isTruthy_code [code]:
  "isTruthy v =
     (case v of VNull \<Rightarrow> False | VUndef \<Rightarrow> False | VBool b \<Rightarrow> b
      | VNum n \<Rightarrow> \<not> jeq n (jint 0) | VStr s \<Rightarrow> s \<noteq> [] | _ \<Rightarrow> True)"
  by (cases v) (auto simp: isTruthy_def is_nullish_def)

fun resolve_from :: "jsval \<Rightarrow> string list \<Rightarrow> jsval" where
  "resolve_from cur [] = cur"
| "resolve_from cur (key # path) =
     (if \<not> is_object cur then VUndef else resolve_from (member_get cur key) path)"

definition resolveField :: "string list \<Rightarrow> props \<Rightarrow> jsval" where
  "resolveField path record = resolve_from (VObj 0 record) path"

definition toNum :: "jsval \<Rightarrow> jsnum res" where
  "toNum v =
     (case v of
        VNum n \<Rightarrow> Inr n
      | VStr s \<Rightarrow> (let n = js_Number s in if is_finite n then Inr n
                  else Inl (ExpressionEvaluatorError ''requires numeric operands''))
      | _ \<Rightarrow> Inl (ExpressionEvaluatorError ''requires numeric operands''))"

section \<open>Built-in functions\<close>

definition arg :: "jsval list \<Rightarrow> nat \<Rightarrow> jsval" where
  "arg args i = (if i < length args then args ! i else VUndef)"

definition str2 :: "(string \<Rightarrow> string \<Rightarrow> bool) \<Rightarrow> jsval \<Rightarrow> jsval \<Rightarrow> jsval" where
  "str2 p a b = (case (a, b) of (VStr s, VStr t) \<Rightarrow> VBool (p s t) | _ \<Rightarrow> VBool False)"

definition str1 :: "(string \<Rightarrow> string) \<Rightarrow> jsval \<Rightarrow> jsval" where
  "str1 f a = (case a of VStr s \<Rightarrow> VStr (f s) | _ \<Rightarrow> a)"

definition num1 :: "(jsnum \<Rightarrow> jsnum) \<Rightarrow> jsval \<Rightarrow> jsval" where
  "num1 f a = (case a of VNum n \<Rightarrow> VNum (f n) | _ \<Rightarrow> VNull)"

text \<open>\<^verbatim>\<open>v === null || v === undefined ? "" : String(v)\<close>\<close>

definition str_or_empty :: "jsval \<Rightarrow> string res" where
  "str_or_empty v = (if is_nullish v then Inr [] else to_str v)"

definition builtin_length :: "jsval \<Rightarrow> jsval" where
  "builtin_length v =
     (case v of
        VStr s \<Rightarrow> VNum (jint (int (length s)))
      | VArr _ vs \<Rightarrow> VNum (jint (int (length vs)))
      | _ \<Rightarrow> VNull)"

definition builtin_toNumber :: "jsval \<Rightarrow> jsval" where
  "builtin_toNumber v =
     (case v of
        VNum n \<Rightarrow> VNum n
      | VStr s \<Rightarrow> (let n = js_Number s in if is_finite n then VNum n else VNull)
      | _ \<Rightarrow> VNull)"

definition builtin_round :: "js_host \<Rightarrow> jsval \<Rightarrow> jsval \<Rightarrow> jsval" where
  "builtin_round h v digits =
     (case v of
        VNum n \<Rightarrow>
          let d = (case digits of VNum k \<Rightarrow> k | _ \<Rightarrow> jint 0); factor = host_pow10 h d
          in VNum (jdiv (jround (jmul n factor)) factor)
      | _ \<Rightarrow> VNull)"

definition builtin_coalesce :: "jsval list \<Rightarrow> jsval" where
  "builtin_coalesce args =
     (case find (\<lambda>a. \<not> is_nullish a) args of Some v \<Rightarrow> v | None \<Rightarrow> VNull)"

definition BUILTINS :: "(string \<times> (js_host \<Rightarrow> jsval list \<Rightarrow> jsval res)) list" where
  "BUILTINS =
     [(''startsWith'', \<lambda>h as. Inr (str2 starts_with (arg as 0) (arg as 1))),
      (''endsWith'', \<lambda>h as. Inr (str2 ends_with (arg as 0) (arg as 1))),
      (''includes'', \<lambda>h as. Inr (str2 str_includes (arg as 0) (arg as 1))),
      (''toLowerCase'', \<lambda>h as. Inr (str1 js_toLowerCase (arg as 0))),
      (''toUpperCase'', \<lambda>h as. Inr (str1 js_toUpperCase (arg as 0))),
      (''trim'', \<lambda>h as. Inr (str1 js_trim (arg as 0))),
      (''length'', \<lambda>h as. Inr (builtin_length (arg as 0))),
      (''toString'', \<lambda>h as. rbind (str_or_empty (arg as 0)) (\<lambda>s. Inr (VStr s))),
      (''toNumber'', \<lambda>h as. Inr (builtin_toNumber (arg as 0))),
      (''isNull'', \<lambda>h as. Inr (VBool (is_nullish (arg as 0)))),
      (''isNotNull'', \<lambda>h as. Inr (VBool (\<not> is_nullish (arg as 0)))),
      (''concat'', \<lambda>h as. rbind (rmap str_or_empty as) (\<lambda>ws. Inr (VStr (concat ws)))),
      (''round'', \<lambda>h as. Inr (builtin_round h (arg as 0) (arg as 1))),
      (''floor'', \<lambda>h as. Inr (num1 jfloor (arg as 0))),
      (''ceil'', \<lambda>h as. Inr (num1 jceil (arg as 0))),
      (''abs'', \<lambda>h as. Inr (num1 jabs (arg as 0))),
      (''coalesce'', \<lambda>h as. Inr (builtin_coalesce as))]"

text \<open>
  \<^verbatim>\<open>BUILTINS[name]\<close> also finds the members of \<^verbatim>\<open>Object.prototype\<close>.  Called without a
  receiver they throw a \<^verbatim>\<open>TypeError\<close>, except \<^verbatim>\<open>isPrototypeOf\<close> on a non-object, which
  answers \<^verbatim>\<open>false\<close>.  (The name \<^verbatim>\<open>constructor\<close> never gets past the tokenizer.)
\<close>

definition inherited_call :: "string \<Rightarrow> jsval list \<Rightarrow> jsval res" where
  "inherited_call name args =
     (if name = ''isPrototypeOf'' \<and> \<not> is_object (arg args 0) \<and> (\<forall>f. arg args 0 \<noteq> VFun f)
      then Inr (VBool False) else Inl TypeError)"

lemma inherited_call_code [code]:
  "inherited_call name args =
     (if name = ''isPrototypeOf'' \<and> \<not> is_object (arg args 0) \<and>
         (case arg args 0 of VFun f \<Rightarrow> False | _ \<Rightarrow> True)
      then Inr (VBool False) else Inl TypeError)"
  by (cases "arg args 0") (auto simp: inherited_call_def)

definition lookup_builtin :: "string \<Rightarrow> (js_host \<Rightarrow> jsval list \<Rightarrow> jsval res) option" where
  "lookup_builtin name =
     (case map_of BUILTINS name of
        Some f \<Rightarrow> Some f
      | None \<Rightarrow> if name \<in> set object_prototype then Some (\<lambda>h as. inherited_call name as) else None)"

section \<open>Evaluation\<close>

definition eval_compare :: "(jsnum \<Rightarrow> jsnum \<Rightarrow> bool) \<Rightarrow> jsval \<Rightarrow> jsval \<Rightarrow> jsval res" where
  "eval_compare R l r = rbind (toNum l) (\<lambda>x. rbind (toNum r) (\<lambda>y. Inr (VBool (R x y))))"

definition eval_arith :: "(jsnum \<Rightarrow> jsnum \<Rightarrow> jsnum) \<Rightarrow> jsval \<Rightarrow> jsval \<Rightarrow> jsval res" where
  "eval_arith f l r = rbind (toNum l) (\<lambda>x. rbind (toNum r) (\<lambda>y. Inr (VNum (f x y))))"

definition eval_divide :: "(jsnum \<Rightarrow> jsnum \<Rightarrow> jsnum) \<Rightarrow> string \<Rightarrow> jsval \<Rightarrow> jsval \<Rightarrow> jsval res" where
  "eval_divide f msg l r =
     rbind (toNum r) (\<lambda>d.
       if jeq d (jint 0) then Inl (ExpressionEvaluatorError msg)
       else rbind (toNum l) (\<lambda>x. Inr (VNum (f x d))))"

definition eval_plus :: "jsval \<Rightarrow> jsval \<Rightarrow> jsval res" where
  "eval_plus l r =
     (if (\<exists>s. l = VStr s) \<or> (\<exists>s. r = VStr s)
      then rbind (str_or_empty l) (\<lambda>a. rbind (str_or_empty r) (\<lambda>b. Inr (VStr (a @ b))))
      else eval_arith jadd l r)"

lemma eval_plus_code [code]:
  "eval_plus l r =
     (if (case l of VStr s \<Rightarrow> True | _ \<Rightarrow> False) \<or> (case r of VStr s \<Rightarrow> True | _ \<Rightarrow> False)
      then rbind (str_or_empty l) (\<lambda>a. rbind (str_or_empty r) (\<lambda>b. Inr (VStr (a @ b))))
      else eval_arith jadd l r)"
  by (cases l; cases r) (simp_all add: eval_plus_def)

definition eval_binop :: "string \<Rightarrow> jsval \<Rightarrow> jsval \<Rightarrow> jsval res" where
  "eval_binop op l r =
     (if op = ''=='' then Inr (VBool (strict_eq l r))
      else if op = ''!='' then Inr (VBool (\<not> strict_eq l r))
      else if op = ''<'' then eval_compare jlt l r
      else if op = ''<='' then eval_compare jle l r
      else if op = ''>'' then eval_compare (\<lambda>x y. jlt y x) l r
      else if op = ''>='' then eval_compare (\<lambda>x y. jle y x) l r
      else if op = ''+'' then eval_plus l r
      else if op = ''-'' then eval_arith jsub l r
      else if op = ''*'' then eval_arith jmul l r
      else if op = ''/'' then eval_divide jdiv ''Division by zero.'' l r
      else if op = ''%'' then eval_divide jmod ''Modulo by zero.'' l r
      else Inl (ExpressionEvaluatorError ''Unknown binary operator''))"

definition eval_unop :: "string \<Rightarrow> jsval \<Rightarrow> jsval res" where
  "eval_unop op v =
     (if op = ''!'' then Inr (VBool (\<not> isTruthy v))
      else if op = ''-''
      then (case v of VNum n \<Rightarrow> Inr (VNum (jneg n))
            | _ \<Rightarrow> Inl (ExpressionEvaluatorError ''Unary minus applied to non-number value''))
      else Inl (ExpressionEvaluatorError ''Unknown unary operator''))"

definition MAX_EVAL_DEPTH :: nat where
  "MAX_EVAL_DEPTH = 100"

abbreviation eval_depth_error :: js_error where
  "eval_depth_error \<equiv> ExpressionEvaluatorError ''Expression evaluation depth limit exceeded.''"

fun evalNode :: "js_host \<Rightarrow> props \<Rightarrow> nat \<Rightarrow> ast \<Rightarrow> jsval res" where
  "evalNode h ctx depth (ALiteral v) =
     (if MAX_EVAL_DEPTH < depth then Inl eval_depth_error else Inr v)"
| "evalNode h ctx depth (AField path) =
     (if MAX_EVAL_DEPTH < depth then Inl eval_depth_error else Inr (resolveField path ctx))"
| "evalNode h ctx depth (AUnary op e) =
     (if MAX_EVAL_DEPTH < depth then Inl eval_depth_error
      else rbind (evalNode h ctx (depth + 1) e) (eval_unop op))"
| "evalNode h ctx depth (ABinary op l r) =
     (if MAX_EVAL_DEPTH < depth then Inl eval_depth_error
      else if op = ''&&''
      then rbind (evalNode h ctx (depth + 1) l) (\<lambda>a.
             if \<not> isTruthy a then Inr (VBool False)
             else rbind (evalNode h ctx (depth + 1) r) (\<lambda>b. Inr (VBool (isTruthy b))))
      else if op = ''||''
      then rbind (evalNode h ctx (depth + 1) l) (\<lambda>a.
             if isTruthy a then Inr (VBool True)
             else rbind (evalNode h ctx (depth + 1) r) (\<lambda>b. Inr (VBool (isTruthy b))))
      else rbind (evalNode h ctx (depth + 1) l) (\<lambda>a.
             rbind (evalNode h ctx (depth + 1) r) (\<lambda>b. eval_binop op a b)))"
| "evalNode h ctx depth (ACall name args) =
     (if MAX_EVAL_DEPTH < depth then Inl eval_depth_error
      else case lookup_builtin name of
             None \<Rightarrow> Inl (ExpressionEvaluatorError ''Unknown function'')
           | Some fn \<Rightarrow> rbind (rmap (evalNode h ctx (depth + 1)) args) (fn h))"

definition evaluate :: "js_host \<Rightarrow> string \<Rightarrow> props \<Rightarrow> jsval res" where
  "evaluate h expression ctx = rbind (parse_source expression) (evalNode h ctx 0)"

definition evaluateBoolean :: "js_host \<Rightarrow> string \<Rightarrow> props \<Rightarrow> bool res" where
  "evaluateBoolean h expression ctx =
     rbind (evaluate h expression ctx) (\<lambda>v. Inr (isTruthy v))"

end
