(* ===== verification/ExpressionProperties.thy ===== *)
theory ExpressionProperties
  imports ExpressionEvaluator
begin

text \<open>
  What the expression language guarantees: no blocked identifier survives tokenizing and
  parsing, and the parser returns on every token list.
\<close>

section \<open>Identifiers\<close>

definition tok_idents :: "token list \<Rightarrow> string set" where
  "tok_idents ts = {i. TIdent i \<in> set ts}"

fun ast_idents :: "ast \<Rightarrow> string set" where
  "ast_idents (ALiteral v) = {}"
| "ast_idents (AField p) = set p"
| "ast_idents (AUnary op e) = ast_idents e"
| "ast_idents (ABinary op l r) = ast_idents l \<union> ast_idents r"
| "ast_idents (ACall name args) = insert name (\<Union>a \<in> set args. ast_idents a)"

lemma tok_idents_simps [simp]:
  "tok_idents [] = {}"
  "tok_idents (t # ts) = (case t of TIdent i \<Rightarrow> {i} | _ \<Rightarrow> {}) \<union> tok_idents ts"
  by (auto simp: tok_idents_def split: token.splits)

lemma ident_token_unblocked: "ident_token i = Inr (TIdent j) \<Longrightarrow> j \<notin> set BLOCKED_IDENTS"
  by (auto simp: ident_token_def split: if_splits)

lemma next_token_unblocked:
  "next_token c cs = Inr (Some (TIdent i), r) \<Longrightarrow> i \<notin> set BLOCKED_IDENTS"
  by (auto simp: next_token_def Let_def rbind_Inr_iff dest: ident_token_unblocked
      split: if_splits prod.splits)

lemma tokenize_unblocked:
  "tokenize s = Inr ts \<Longrightarrow> tok_idents ts \<inter> set BLOCKED_IDENTS = {}"
proof (induction s arbitrary: ts rule: tokenize.induct)
  case (2 c cs)
  from "2.prems" obtain t r where nt: "next_token c cs = Inr (t, r)"
    by (auto split: sum.splits)
  show ?case
  proof (cases t)
    case None
    with "2.prems" nt "2.IH"(1) [OF nt _ None] show ?thesis by simp
  next
    case (Some tok)
    with "2.prems" nt obtain us where us: "tokenize r = Inr us" and ts: "ts = tok # us"
      by (auto simp: rbind_Inr_iff)
    have "tok_idents us \<inter> set BLOCKED_IDENTS = {}"
      using "2.IH"(2) [OF nt _ Some us] by simp
    moreover have "(case tok of TIdent i \<Rightarrow> {i} | _ \<Rightarrow> {}) \<inter> set BLOCKED_IDENTS = {}"
      using nt Some next_token_unblocked by (auto split: token.splits)
    ultimately show ?thesis using ts by auto
  qed
qed simp

section \<open>What a parser call consumes\<close>

definition consumes :: "nat \<Rightarrow> token list \<Rightarrow> token list \<Rightarrow> bool" where
  "consumes n ts r \<longleftrightarrow> n + length r \<le> length ts \<and> tok_idents r \<subseteq> tok_idents ts"

lemma consumes_trans: "consumes m ts r \<Longrightarrow> consumes n r s \<Longrightarrow> consumes (m + n) ts s"
  by (auto simp: consumes_def)

lemma consumes_weaken: "consumes m ts r \<Longrightarrow> n \<le> m \<Longrightarrow> consumes n ts r"
  by (auto simp: consumes_def)

lemma parse_path_consumes:
  "parse_path ts = Inr (p, r) \<Longrightarrow> consumes 0 ts r \<and> set p \<subseteq> tok_idents ts"
proof (induction ts arbitrary: p r rule: parse_path.induct)
  case (1 ts)
  then show ?case
    by (subst (asm) (2) parse_path.simps)
      (auto simp: consumes_def rbind_Inr_iff split: list.splits token.splits, fastforce+)
qed

lemma peek_infix_Some: "peek_infix ts = Some (op, bp, r) \<Longrightarrow> ts = TOp op # r \<and> infix_power op = Some bp"
  by (auto simp: peek_infix_def split: list.splits token.splits option.splits)

lemma peek_unary_Some: "peek_unary ts = Some (op, r) \<Longrightarrow> ts = TOp op # r \<and> (op = ''!'' \<or> op = ''-'')"
  by (auto simp: peek_unary_def split: list.splits token.splits if_splits)

lemma peek_primary_consumes:
  "peek_primary ts = PLiteral v r \<Longrightarrow> consumes 1 ts r"
  "peek_primary ts = PParen r \<Longrightarrow> consumes 1 ts r"
  "peek_primary ts = PCall n r \<Longrightarrow> consumes 2 ts r \<and> n \<in> tok_idents ts"
  "peek_primary ts = PField n r \<Longrightarrow> consumes 1 ts r \<and> n \<in> tok_idents ts"
  by (auto simp: peek_primary_def consumes_def neq_Nil_conv split: list.splits token.splits if_splits)

lemma expect_rparen_consumes: "expect_rparen ts = Inr r \<Longrightarrow> consumes 1 ts r"
  by (auto simp: expect_rparen_def consumes_def split: list.splits if_splits)

lemma skip_comma_consumes: "consumes 0 ts (skip_comma ts)"
  by (cases ts) (auto simp: skip_comma_def consumes_def)

lemma parser_consumes:
  "parseExpression f d m ts = Inr (e, r) \<Longrightarrow> consumes 1 ts r \<and> ast_idents e \<subseteq> tok_idents ts"
  "parse_loop f d m l ts = Inr (e, r) \<Longrightarrow>
     consumes 0 ts r \<and> ast_idents e \<subseteq> ast_idents l \<union> tok_idents ts"
  "parseUnary f d ts = Inr (e, r) \<Longrightarrow> consumes 1 ts r \<and> ast_idents e \<subseteq> tok_idents ts"
  "parsePrimary f d ts = Inr (e, r) \<Longrightarrow> consumes 1 ts r \<and> ast_idents e \<subseteq> tok_idents ts"
  "parse_args f d ts = Inr (as, r) \<Longrightarrow>
     consumes 0 ts r \<and> (\<Union>a \<in> set as. ast_idents a) \<subseteq> tok_idents ts"
proof (induction f d m ts and f d m l ts and f d ts and f d ts and f d ts
    arbitrary: e r and e r and e r and e r and as r
    rule: parseExpression_parse_loop_parseUnary_parsePrimary_parse_args.induct)
  case (2 f depth minPower ts)
  then obtain l s where u: "parseUnary f (depth + 1) ts = Inr (l, s)"
    and lp: "parse_loop f (depth + 1) minPower l s = Inr (e, r)"
    and dp: "\<not> MAX_PARSE_DEPTH < depth + 1"
    by (auto simp: parser_simps rbind_Inr_iff split: if_splits)
  from "2.IH"(1) [OF dp u] "2.IH"(2) [OF dp u refl lp] show ?case
    by (auto simp: consumes_def)
next
  case (4 f depth minPower left ts)
  show ?case
  proof (cases "peek_infix ts")
    case None
    with "4.prems" show ?thesis by (auto simp: parser_simps consumes_def)
  next
    case (Some p)
    obtain op bp s where p: "p = (op, bp, s)" by (cases p)
    with Some have ts: "ts = TOp op # s" by (auto dest: peek_infix_Some)
    show ?thesis
    proof (cases "bp \<le> minPower")
      case True
      with "4.prems" Some p show ?thesis by (auto simp: parser_simps consumes_def)
    next
      case False
      with "4.prems" Some p obtain right s' where
        x: "parseExpression f depth bp s = Inr (right, s')" and
        lp: "parse_loop f depth minPower (ABinary op left right) s' = Inr (e, r)"
        by (auto simp: parser_simps rbind_Inr_iff)
      from "4.IH"(1) [OF Some [unfolded p] refl refl False x]
        "4.IH"(2) [OF Some [unfolded p] refl refl False x refl lp] ts
      show ?thesis by (auto simp: consumes_def)
    qed
  qed
next
  case (6 f depth ts)
  show ?case
  proof (cases "peek_unary ts")
    case None
    with "6.prems" have "parsePrimary f depth ts = Inr (e, r)" by (simp add: parser_simps)
    then show ?thesis by (rule "6.IH"(1) [OF None])
  next
    case (Some p)
    obtain op s where p: "p = (op, s)" by (cases p)
    with Some have ts: "ts = TOp op # s" by (auto dest: peek_unary_Some)
    from "6.prems" Some p obtain e' where x: "parseUnary f depth s = Inr (e', r)" and "e = AUnary op e'"
      by (auto simp: parser_simps rbind_Inr_iff)
    with "6.IH"(2) [OF Some [unfolded p] refl x] ts show ?thesis by (auto simp: consumes_def)
  qed
next
  case (8 f depth ts)
  show ?case
  proof (cases "peek_primary ts")
    case (PLiteral v s)
    with "8.prems" peek_primary_consumes(1) [OF PLiteral] show ?thesis
      by (auto simp: parser_simps)
  next
    case (PParen s)
    with "8.prems" obtain s' where x: "parseExpression f depth 0 s = Inr (e, s')"
      and rp: "expect_rparen s' = Inr r"
      by (auto simp: parser_simps rbind_Inr_iff)
    from "8.IH"(1) [OF PParen x] peek_primary_consumes(2) [OF PParen] expect_rparen_consumes [OF rp]
    show ?thesis by (auto simp: consumes_def)
  next
    case (PCall n s)
    with "8.prems" obtain as s' where x: "parse_args f depth s = Inr (as, s')"
      and rp: "expect_rparen s' = Inr r" and e: "e = ACall n as"
      by (auto simp: parser_simps rbind_Inr_iff)
    from "8.IH"(2) [OF PCall x] peek_primary_consumes(3) [OF PCall] expect_rparen_consumes [OF rp] e
    show ?thesis by (auto simp: consumes_def)
  next
    case (PField n s)
    with "8.prems" obtain p where x: "parse_path s = Inr (p, r)" and e: "e = AField (n # p)"
      by (auto simp: parser_simps rbind_Inr_iff)
    from parse_path_consumes [OF x] peek_primary_consumes(4) [OF PField] e
    show ?thesis by (auto simp: consumes_def)
  qed (use "8.prems" in \<open>auto simp: parser_simps\<close>)
next
  case (10 f depth ts)
  show ?case
  proof (cases "ts \<noteq> [] \<and> hd ts = TRParen")
    case True
    with "10.prems" show ?thesis by (auto simp: parser_simps consumes_def)
  next
    case False
    with "10.prems" obtain a s bs where x: "parseExpression f depth 0 ts = Inr (a, s)"
      and y: "parse_args f depth (skip_comma s) = Inr (bs, r)" and as: "as = a # bs"
      by (auto simp: parser_simps rbind_Inr_iff)
    from "10.IH"(1) [OF False x] "10.IH"(2) [OF False x refl y] skip_comma_consumes [of s] as
    show ?thesis by (auto simp: consumes_def) blast
  qed
qed (simp_all add: parser_simps)

section \<open>The fuel suffices\<close>

lemma parse_path_fuel: "parse_path ts \<noteq> Inl out_of_fuel"
proof (induction ts rule: parse_path.induct)
  case (1 ts)
  then show ?case
    by (subst parse_path.simps) (auto simp: rbind_Inl_iff split: list.splits token.splits)
qed

lemma expect_rparen_fuel: "expect_rparen ts \<noteq> Inl out_of_fuel"
  by (auto simp: expect_rparen_def split: list.splits)

lemma parser_fuel:
  "4 * length ts + 3 \<le> f \<Longrightarrow> parseExpression f d m ts \<noteq> Inl out_of_fuel"
  "4 * length ts + 1 \<le> f \<Longrightarrow> parse_loop f d m l ts \<noteq> Inl out_of_fuel"
  "4 * length ts + 2 \<le> f \<Longrightarrow> parseUnary f d ts \<noteq> Inl out_of_fuel"
  "4 * length ts + 1 \<le> f \<Longrightarrow> parsePrimary f d ts \<noteq> Inl out_of_fuel"
  "4 * length ts + 4 \<le> f \<Longrightarrow> parse_args f d ts \<noteq> Inl out_of_fuel"
proof (induction f d m ts and f d m l ts and f d ts and f d ts and f d ts
    rule: parseExpression_parse_loop_parseUnary_parsePrimary_parse_args.induct)
  case (2 f depth minPower ts)
  show ?case
  proof
    assume eq: "parseExpression (Suc f) depth minPower ts = Inl out_of_fuel"
    then have dp: "\<not> MAX_PARSE_DEPTH < depth + 1" by (auto simp: parser_simps)
    have "parseUnary f (depth + 1) ts \<noteq> Inl out_of_fuel"
      using "2.IH"(1) [OF dp] "2.prems" by simp
    with eq dp obtain l s where u: "parseUnary f (depth + 1) ts = Inr (l, s)"
      and lp: "parse_loop f (depth + 1) minPower l s = Inl out_of_fuel"
      by (auto simp: parser_simps rbind_Inl_iff)
    have "length s + 1 \<le> length ts" using parser_consumes(3) [OF u] by (simp add: consumes_def)
    with "2.IH"(2) [OF dp u refl] "2.prems" lp show False by simp
  qed
next
  case (4 f depth minPower left ts)
  show ?case
  proof
    assume eq: "parse_loop (Suc f) depth minPower left ts = Inl out_of_fuel"
    then obtain op bp s where pk: "peek_infix ts = Some (op, bp, s)" and nb: "\<not> bp \<le> minPower"
      by (auto simp: parser_simps split: option.splits if_splits)
    then have ts: "length ts = Suc (length s)" by (auto dest: peek_infix_Some)
    have "parseExpression f depth bp s \<noteq> Inl out_of_fuel"
      using "4.IH"(1) [OF pk refl refl nb] "4.prems" ts by simp
    with eq pk nb obtain right s' where x: "parseExpression f depth bp s = Inr (right, s')"
      and lp: "parse_loop f depth minPower (ABinary op left right) s' = Inl out_of_fuel"
      by (auto simp: parser_simps rbind_Inl_iff)
    have "length s' \<le> length s" using parser_consumes(1) [OF x] by (simp add: consumes_def)
    with "4.IH"(2) [OF pk refl refl nb x refl] "4.prems" ts lp show False by simp
  qed
next
  case (6 f depth ts)
  show ?case
  proof (cases "peek_unary ts")
    case None
    with "6.IH"(1) [OF None] "6.prems" show ?thesis by (simp add: parser_simps)
  next
    case (Some p)
    obtain op s where p: "p = (op, s)" by (cases p)
    with Some have "length ts = Suc (length s)" by (auto dest: peek_unary_Some)
    with "6.IH"(2) [OF Some [unfolded p] refl] "6.prems" Some p show ?thesis
      by (auto simp: parser_simps rbind_Inl_iff)
  qed
next
  case (8 f depth ts)
  show ?case
  proof (cases "peek_primary ts")
    case (PParen s)
    have "length s + 1 \<le> length ts" using peek_primary_consumes(2) [OF PParen] by (simp add: consumes_def)
    with "8.IH"(1) [OF PParen] "8.prems" PParen show ?thesis
      by (auto simp: parser_simps rbind_Inl_iff expect_rparen_fuel)
  next
    case (PCall n s)
    have "length s + 2 \<le> length ts" using peek_primary_consumes(3) [OF PCall] by (simp add: consumes_def)
    with "8.IH"(2) [OF PCall] "8.prems" PCall show ?thesis
      by (auto simp: parser_simps rbind_Inl_iff expect_rparen_fuel)
  qed (auto simp: parser_simps rbind_Inl_iff parse_path_fuel)
next
  case (10 f depth ts)
  show ?case
  proof
    assume eq: "parse_args (Suc f) depth ts = Inl out_of_fuel"
    then have nr: "\<not> (ts \<noteq> [] \<and> hd ts = TRParen)" by (auto simp: parser_simps)
    have "parseExpression f depth 0 ts \<noteq> Inl out_of_fuel"
      using "10.IH"(1) [OF nr] "10.prems" by simp
    with eq nr obtain a s where x: "parseExpression f depth 0 ts = Inr (a, s)"
      and y: "parse_args f depth (skip_comma s) = Inl out_of_fuel"
      by (auto simp: parser_simps rbind_Inl_iff)
    have "length (skip_comma s) + 1 \<le> length ts"
      using parser_consumes(1) [OF x] skip_comma_consumes [of s] by (simp add: consumes_def)
    with "10.IH"(2) [OF nr x refl] "10.prems" y show False by simp
  qed
qed simp_all

section \<open>Properties of parsing\<close>

text \<open>
  Parsing returns on every token list.  The recursion of the parser is
  bounded by the number of tokens, so the fuel of the model is never exhausted and every
  failure is one of the parser's own errors.
\<close>

theorem parse_tokens_returns: "parse_tokens ts \<noteq> Inl out_of_fuel"
  using parser_fuel(1) [of ts "4 * length ts + 3" 0 0]
  by (auto simp: parse_tokens_def rbind_Inl_iff split: if_splits)

text \<open>
  No expression that passes the front end can name a blocked identifier, as a
  field, as a path component or as a function: whatever reaches the evaluator is free of
  \<^verbatim>\<open>constructor\<close>, \<^verbatim>\<open>__proto__\<close>, \<^verbatim>\<open>process\<close> and the other names on the block list.
\<close>

theorem parse_source_unblocked:
  assumes "parse_source src = Inr e"
  shows "ast_idents e \<inter> set BLOCKED_IDENTS = {}"
proof -
  from assms obtain ts where ts: "tokenize src = Inr ts" and p: "parse_tokens ts = Inr e"
    by (auto simp: parse_source_def rbind_Inr_iff split: if_splits)
  from p obtain r where "parseExpression (4 * length ts + 3) 0 0 ts = Inr (e, r)"
    by (auto simp: parse_tokens_def rbind_Inr_iff split: if_splits)
  with tokenize_unblocked [OF ts] show ?thesis by (auto dest: parser_consumes(1))
qed

theorem parse_source_unblocked_witness:
  "parse_source ''!a.b'' = Inr (AUnary ''!'' (AField [''a'', ''b'']))
   \<and> ast_idents (AUnary ''!'' (AField [''a'', ''b''])) \<inter> set BLOCKED_IDENTS = {}"
proof -
  have p: "parse_source ''!a.b'' = Inr (AUnary ''!'' (AField [''a'', ''b'']))" by code_simp
  from p parse_source_unblocked [OF p] show ?thesis by blast
qed

end
