(* ===== verification/ExpressionPrinter.thy ===== *)
theory ExpressionPrinter
  imports ExpressionProperties
begin

text \<open>
  The specification of precedence and associativity: a printer that puts parentheses only
  where the binding powers require them, and the proof that the Pratt parser inverts it.
  Left operands of equal power need no parentheses, right operands do: every infix
  operator is left-associative.  The parser's depth limit appears as the bound on
  \<open>nesting\<close>.
\<close>

section \<open>Minimal-parenthesis printing\<close>

definition op_power :: "string \<Rightarrow> nat" where
  "op_power op = (case infix_power op of Some bp \<Rightarrow> bp | None \<Rightarrow> 0)"

text \<open>The power of the outermost operator; everything that is not infix binds tightest.\<close>

fun top_power :: "ast \<Rightarrow> nat" where
  "top_power (ABinary op l r) = op_power op"
| "top_power _ = 100"

fun literal_token :: "jsval \<Rightarrow> token" where
  "literal_token (VNum n) = TNumber [] n"
| "literal_token (VStr s) = TString [] s"
| "literal_token (VBool b) = TBool b"
| "literal_token _ = TNull"

definition wrap :: "nat \<Rightarrow> ast \<Rightarrow> token list \<Rightarrow> token list" where
  "wrap k e ts = (if top_power e \<le> k then [TLParen] @ ts @ [TRParen] else ts)"

fun sep_args :: "token list list \<Rightarrow> token list" where
  "sep_args [] = []"
| "sep_args [ts] = ts"
| "sep_args (ts # tss) = ts @ TComma # sep_args tss"

fun print_ast :: "ast \<Rightarrow> token list" where
  "print_ast (ALiteral v) = [literal_token v]"
| "print_ast (AField p) = TIdent (hd p) # concat (map (\<lambda>i. [TDot, TIdent i]) (tl p))"
| "print_ast (AUnary op e) = TOp op # wrap 99 e (print_ast e)"
| "print_ast (ABinary op l r) =
     wrap (op_power op - 1) l (print_ast l) @ TOp op # wrap (op_power op) r (print_ast r)"
| "print_ast (ACall name args) =
     TIdent name # TLParen # sep_args (map print_ast args) @ [TRParen]"

text \<open>Trees the grammar can produce.\<close>

fun wf_ast :: "ast \<Rightarrow> bool" where
  "wf_ast (ALiteral v) =
     (case v of VNum _ \<Rightarrow> True | VStr _ \<Rightarrow> True | VBool _ \<Rightarrow> True | VNull \<Rightarrow> True | _ \<Rightarrow> False)"
| "wf_ast (AField p) = (p \<noteq> [])"
| "wf_ast (AUnary op e) = ((op = ''!'' \<or> op = ''-'') \<and> wf_ast e)"
| "wf_ast (ABinary op l r) = (infix_power op \<noteq> None \<and> wf_ast l \<and> wf_ast r)"
| "wf_ast (ACall name args) = list_all wf_ast args"

text \<open>How many nested \<^verbatim>\<open>parseExpression\<close> calls the printed form opens below its own.\<close>

definition wrap_nesting :: "nat \<Rightarrow> ast \<Rightarrow> nat \<Rightarrow> nat" where
  "wrap_nesting k e n = (if top_power e \<le> k then Suc n else n)"

fun nesting :: "ast \<Rightarrow> nat" where
  "nesting (ALiteral v) = 0"
| "nesting (AField p) = 0"
| "nesting (AUnary op e) = wrap_nesting 99 e (nesting e)"
| "nesting (ABinary op l r) =
     max (wrap_nesting (op_power op - 1) l (nesting l))
         (Suc (wrap_nesting (op_power op) r (nesting r)))"
| "nesting (ACall name args) = fold max (map (\<lambda>a. Suc (nesting a)) args) 0"

section \<open>Eventual results\<close>

text \<open>More fuel never changes an answer, be it a tree or an error.\<close>

lemma parser_mono:
  "parseExpression f d m ts \<noteq> Inl out_of_fuel \<Longrightarrow>
     parseExpression (Suc f) d m ts = parseExpression f d m ts"
  "parse_loop f d m l ts \<noteq> Inl out_of_fuel \<Longrightarrow> parse_loop (Suc f) d m l ts = parse_loop f d m l ts"
  "parseUnary f d ts \<noteq> Inl out_of_fuel \<Longrightarrow> parseUnary (Suc f) d ts = parseUnary f d ts"
  "parsePrimary f d ts \<noteq> Inl out_of_fuel \<Longrightarrow> parsePrimary (Suc f) d ts = parsePrimary f d ts"
  "parse_args f d ts \<noteq> Inl out_of_fuel \<Longrightarrow> parse_args (Suc f) d ts = parse_args f d ts"
proof (induction f d m ts and f d m l ts and f d ts and f d ts and f d ts
    rule: parseExpression_parse_loop_parseUnary_parsePrimary_parse_args.induct)
  case (2 f depth minPower ts)
  show ?case
  proof (cases "MAX_PARSE_DEPTH < depth + 1")
    case False
    let ?u = "parseUnary f (depth + 1) ts"
    have u: "?u \<noteq> Inl out_of_fuel"
      using "2.prems" False by (auto simp: parseExpression.simps)
    have eq: "parseUnary (Suc f) (depth + 1) ts = ?u" by (rule "2.IH"(1) [OF False u])
    show ?thesis
    proof (cases ?u)
      case (Inr p)
      obtain l r where p: "p = (l, r)" by (cases p)
      have "parse_loop f (depth + 1) minPower l r \<noteq> Inl out_of_fuel"
        using "2.prems" False Inr p by (simp add: parseExpression.simps)
      from "2.IH"(2) [OF False Inr p [symmetric] this] eq Inr p False show ?thesis
        by (simp add: parseExpression.simps(2))
    qed (use eq False in \<open>simp add: parseExpression.simps(2)\<close>)
  qed (simp add: parseExpression.simps)
next
  case (4 f depth minPower left ts)
  show ?case
  proof (cases "peek_infix ts")
    case (Some q)
    obtain op bp s where q: "q = (op, bp, s)" by (cases q)
    note pk = Some [unfolded q]
    show ?thesis
    proof (cases "bp \<le> minPower")
      case False
      let ?x = "parseExpression f depth bp s"
      have "?x \<noteq> Inl out_of_fuel" using "4.prems" False pk by (auto simp: parse_loop.simps)
      from "4.IH"(1) [OF pk refl refl False this] have eq: "parseExpression (Suc f) depth bp s = ?x" .
      show ?thesis
      proof (cases ?x)
        case (Inr p)
        obtain e r where p: "p = (e, r)" by (cases p)
        have "parse_loop f depth minPower (ABinary op left e) r \<noteq> Inl out_of_fuel"
          using "4.prems" False Inr p pk by (simp add: parse_loop.simps)
        from "4.IH"(2) [OF pk refl refl False Inr p [symmetric] this] eq Inr p False pk show ?thesis
          by (simp add: parse_loop.simps(2) [of _ _ _ left])
      qed (use eq False pk in \<open>simp add: parse_loop.simps(2)\<close>)
    qed (use pk in \<open>simp add: parse_loop.simps\<close>)
  qed (simp add: parse_loop.simps)
next
  case (6 f depth ts)
  show ?case
  proof (cases "peek_unary ts")
    case None
    with "6.prems" have "parsePrimary f depth ts \<noteq> Inl out_of_fuel" by (simp add: parseUnary.simps)
    from "6.IH"(1) [OF None this] None show ?thesis by (simp add: parseUnary.simps)
  next
    case (Some q)
    obtain op s where q: "q = (op, s)" by (cases q)
    note pk = Some [unfolded q]
    have "parseUnary f depth s \<noteq> Inl out_of_fuel" using "6.prems" pk by (auto simp: parseUnary.simps)
    from "6.IH"(2) [OF pk refl this] pk show ?thesis by (simp add: parseUnary.simps(2) [of _ _ ts])
  qed
next
  case (8 f depth ts)
  show ?case
  proof (cases "peek_primary ts")
    case (PParen s)
    have "parseExpression f depth 0 s \<noteq> Inl out_of_fuel"
      using "8.prems" PParen by (auto simp: parsePrimary.simps)
    from "8.IH"(1) [OF PParen this] PParen show ?thesis by (simp add: parsePrimary.simps(2) [of _ _ ts])
  next
    case (PCall n s)
    have "parse_args f depth s \<noteq> Inl out_of_fuel"
      using "8.prems" PCall by (auto simp: parsePrimary.simps)
    from "8.IH"(2) [OF PCall this] PCall show ?thesis by (simp add: parsePrimary.simps(2) [of _ _ ts])
  qed (simp_all add: parsePrimary.simps)
next
  case (10 f depth ts)
  show ?case
  proof (cases "ts \<noteq> [] \<and> hd ts = TRParen")
    case False
    let ?x = "parseExpression f depth 0 ts"
    have "?x \<noteq> Inl out_of_fuel" using "10.prems" False by (auto simp: parse_args.simps)
    from "10.IH"(1) [OF False this] have eq: "parseExpression (Suc f) depth 0 ts = ?x" .
    show ?thesis
    proof (cases ?x)
      case (Inr p)
      obtain e r where p: "p = (e, r)" by (cases p)
      have "parse_args f depth (skip_comma r) \<noteq> Inl out_of_fuel"
        using "10.prems" False Inr p by (auto simp: parse_args.simps)
      from "10.IH"(2) [OF False Inr p [symmetric] this] eq Inr p False show ?thesis
        by (auto simp: parse_args.simps(2) [of _ _ ts])
    qed (use eq False in \<open>simp add: parse_args.simps(2) [of _ _ ts]\<close>)
  qed (simp add: parse_args.simps)
qed (simp_all add: parser_simps)

lemma parser_mono_le:
  "f \<le> g \<Longrightarrow> parseExpression f d m ts = Inr x \<Longrightarrow> parseExpression g d m ts = Inr x"
  "f \<le> g \<Longrightarrow> parse_loop f d m l ts = Inr x \<Longrightarrow> parse_loop g d m l ts = Inr x"
  "f \<le> g \<Longrightarrow> parseUnary f d ts = Inr x \<Longrightarrow> parseUnary g d ts = Inr x"
  "f \<le> g \<Longrightarrow> parsePrimary f d ts = Inr x \<Longrightarrow> parsePrimary g d ts = Inr x"
  "f \<le> g \<Longrightarrow> parse_args f d ts = Inr y \<Longrightarrow> parse_args g d ts = Inr y"
  by (induction g rule: nat_induct_at_least; simp add: parser_mono)+

lemma parseExpression_settled:
  "f \<le> g \<Longrightarrow> parseExpression f d m ts \<noteq> Inl out_of_fuel \<Longrightarrow>
     parseExpression g d m ts = parseExpression f d m ts"
  by (induction g rule: nat_induct_at_least) (simp_all add: parser_mono)

definition ev_expr where "ev_expr d m ts x \<longleftrightarrow> (\<exists>f. parseExpression f d m ts = Inr x)"
definition ev_loop where "ev_loop d m l ts x \<longleftrightarrow> (\<exists>f. parse_loop f d m l ts = Inr x)"
definition ev_unary where "ev_unary d ts x \<longleftrightarrow> (\<exists>f. parseUnary f d ts = Inr x)"
definition ev_primary where "ev_primary d ts x \<longleftrightarrow> (\<exists>f. parsePrimary f d ts = Inr x)"
definition ev_args where "ev_args d ts x \<longleftrightarrow> (\<exists>f. parse_args f d ts = Inr x)"

lemmas ev_defs = ev_expr_def ev_loop_def ev_unary_def ev_primary_def ev_args_def

lemma ev_exprI:
  assumes "ev_unary (Suc d) ts (l, r)" "ev_loop (Suc d) m l r x" "d < MAX_PARSE_DEPTH"
  shows "ev_expr d m ts x"
proof -
  from assms obtain f g where "parseUnary f (Suc d) ts = Inr (l, r)" "parse_loop g (Suc d) m l r = Inr x"
    by (auto simp: ev_defs)
  then have "parseUnary (max f g) (Suc d) ts = Inr (l, r)" "parse_loop (max f g) (Suc d) m l r = Inr x"
    using parser_mono_le(3) [of f "max f g"] parser_mono_le(2) [of g "max f g"] by simp_all
  with assms(3) have "parseExpression (Suc (max f g)) d m ts = Inr x"
    by (simp add: parseExpression.simps)
  then show ?thesis by (auto simp: ev_defs)
qed

lemma ev_loop_step:
  assumes "peek_infix ts = Some (op, bp, r)" "m < bp"
    and "ev_expr d bp r (e, r')" "ev_loop d m (ABinary op l e) r' x"
  shows "ev_loop d m l ts x"
proof -
  from assms(3,4) obtain f g where "parseExpression f d bp r = Inr (e, r')"
    "parse_loop g d m (ABinary op l e) r' = Inr x"
    by (auto simp: ev_defs)
  then have "parseExpression (max f g) d bp r = Inr (e, r')"
    "parse_loop (max f g) d m (ABinary op l e) r' = Inr x"
    using parser_mono_le(1) [of f "max f g"] parser_mono_le(2) [of g "max f g"] by simp_all
  with assms(1,2) have "parse_loop (Suc (max f g)) d m l ts = Inr x"
    by (simp add: parse_loop.simps)
  then show ?thesis by (auto simp: ev_defs)
qed

lemma ev_loop_stop:
  assumes "case peek_infix ts of None \<Rightarrow> True | Some (op, bp, r) \<Rightarrow> bp \<le> m"
  shows "ev_loop d m l ts (l, ts)"
proof -
  from assms have "parse_loop (Suc 0) d m l ts = Inr (l, ts)"
    by (auto simp: parse_loop.simps split: option.splits)
  then show ?thesis by (auto simp: ev_defs)
qed

lemma ev_unary_op:
  assumes "op = ''!'' \<or> op = ''-''" "ev_unary d ts (e, r)"
  shows "ev_unary d (TOp op # ts) (AUnary op e, r)"
proof -
  from assms obtain f where "parseUnary f d ts = Inr (e, r)" by (auto simp: ev_defs)
  with assms(1) have "parseUnary (Suc f) d (TOp op # ts) = Inr (AUnary op e, r)"
    by (auto simp: parseUnary.simps peek_unary_def)
  then show ?thesis by (auto simp: ev_defs)
qed

lemma ev_unary_primary:
  assumes "peek_unary ts = None" "ev_primary d ts x"
  shows "ev_unary d ts x"
proof -
  from assms(2) obtain f where "parsePrimary f d ts = Inr x" by (auto simp: ev_defs)
  with assms(1) have "parseUnary (Suc f) d ts = Inr x" by (simp add: parseUnary.simps)
  then show ?thesis by (auto simp: ev_defs)
qed

lemma ev_primary_paren:
  assumes "ev_expr d 0 ts (e, TRParen # r)"
  shows "ev_unary d (TLParen # ts) (e, r)"
proof (rule ev_unary_primary)
  from assms obtain f where "parseExpression f d 0 ts = Inr (e, TRParen # r)" by (auto simp: ev_defs)
  then have "parsePrimary (Suc f) d (TLParen # ts) = Inr (e, r)"
    by (simp add: parsePrimary.simps peek_primary_def expect_rparen_def)
  then show "ev_primary d (TLParen # ts) (e, r)" by (auto simp: ev_defs)
qed (simp add: peek_unary_def)

lemma ev_primary_call:
  assumes "ev_args d ts (as, TRParen # r)"
  shows "ev_unary d (TIdent n # TLParen # ts) (ACall n as, r)"
proof (rule ev_unary_primary)
  from assms obtain f where "parse_args f d ts = Inr (as, TRParen # r)" by (auto simp: ev_defs)
  then have "parsePrimary (Suc f) d (TIdent n # TLParen # ts) = Inr (ACall n as, r)"
    by (simp add: parsePrimary.simps peek_primary_def expect_rparen_def)
  then show "ev_primary d (TIdent n # TLParen # ts) (ACall n as, r)" by (auto simp: ev_defs)
qed (simp add: peek_unary_def)

lemma ev_args_Nil: "ev_args d (TRParen # r) ([], TRParen # r)"
  unfolding ev_args_def by (intro exI [of _ 1]) (simp add: parse_args.simps)

lemma ev_args_Cons:
  assumes "ts \<noteq> [] \<Longrightarrow> hd ts \<noteq> TRParen" "ev_expr d 0 ts (a, r)" "ev_args d (skip_comma r) (as, r')"
  shows "ev_args d ts (a # as, r')"
proof -
  from assms(2,3) obtain f g where "parseExpression f d 0 ts = Inr (a, r)"
    "parse_args g d (skip_comma r) = Inr (as, r')"
    by (auto simp: ev_defs)
  then have "parseExpression (max f g) d 0 ts = Inr (a, r)"
    "parse_args (max f g) d (skip_comma r) = Inr (as, r')"
    using parser_mono_le(1) [of f "max f g"] parser_mono_le(5) [of g "max f g"] by simp_all
  with assms(1) have "parse_args (Suc (max f g)) d ts = Inr (a # as, r')"
    by (auto simp: parse_args.simps)
  then show ?thesis by (auto simp: ev_defs)
qed

section \<open>The parser inverts the printer\<close>

text \<open>What may follow a printed tree: nothing that would extend a field path or open a call.\<close>

definition follows :: "token list \<Rightarrow> bool" where
  "follows ts \<longleftrightarrow> ts = [] \<or> (hd ts \<noteq> TDot \<and> hd ts \<noteq> TLParen)"

definition next_power_le :: "token list \<Rightarrow> nat \<Rightarrow> bool" where
  "next_power_le ts k \<longleftrightarrow> (case peek_infix ts of None \<Rightarrow> True | Some (op, bp, r) \<Rightarrow> bp \<le> k)"

lemma next_power_le_mono: "next_power_le ts k \<Longrightarrow> k \<le> k' \<Longrightarrow> next_power_le ts k'"
  by (auto simp: next_power_le_def split: option.splits)

lemma follows_simps [simp]:
  "follows []" "follows (TOp op # ts)" "follows (TRParen # ts)" "follows (TComma # ts)"
  by (simp_all add: follows_def)

lemma next_power_le_simps [simp]:
  "next_power_le [] k" "next_power_le (TRParen # ts) k" "next_power_le (TComma # ts) k"
  by (simp_all add: next_power_le_def peek_infix_def)

lemma infix_power_bounds: "infix_power op = Some bp \<Longrightarrow> 10 \<le> bp \<and> bp \<le> 60"
  by (auto simp: infix_power_def INFIX_POWER_def split: if_splits)

lemma op_power_bounds: "infix_power op = Some bp \<Longrightarrow> 10 \<le> op_power op \<and> op_power op \<le> 60"
  by (auto simp: op_power_def dest: infix_power_bounds)

lemma top_power_le_60: "wf_ast e \<Longrightarrow> top_power e \<le> 60 \<longleftrightarrow> (\<exists>op l r. e = ABinary op l r)"
  by (cases e) (auto dest: op_power_bounds)

lemma top_power_pos: "wf_ast e \<Longrightarrow> 10 \<le> top_power e"
  by (cases e) (auto dest: op_power_bounds)

lemma print_path:
  "follows ts \<Longrightarrow> parse_path (concat (map (\<lambda>i. [TDot, TIdent i]) p) @ ts) = Inr (p, ts)"
proof (induction p)
  case Nil
  then show ?case
    by (subst parse_path.simps) (auto simp: follows_def split: list.splits token.splits)
next
  case (Cons i p)
  then show ?case by (subst parse_path.simps) simp
qed

lemma ev_field:
  assumes "follows ts" "p \<noteq> []"
  shows "ev_unary d (print_ast (AField p) @ ts) (AField p, ts)"
proof (rule ev_unary_primary)
  obtain n q where p: "p = n # q" using assms(2) by (cases p) auto
  let ?r = "concat (map (\<lambda>i. [TDot, TIdent i]) q) @ ts"
  have "\<not> (?r \<noteq> [] \<and> hd ?r = TLParen)"
    using assms(1) by (cases q) (auto simp: follows_def)
  then have "peek_primary (TIdent n # ?r) = PField n ?r" by (auto simp: peek_primary_def)
  then have "parsePrimary 1 d (TIdent n # ?r) = Inr (AField p, ts)"
    using print_path [OF assms(1), of q] by (simp add: parsePrimary.simps p)
  then show "ev_primary d (print_ast (AField p) @ ts) (AField p, ts)"
    unfolding ev_primary_def p by (intro exI [of _ 1]) simp
qed (use assms in \<open>simp add: peek_unary_def\<close>)

lemma ev_literal:
  assumes "wf_ast (ALiteral v)"
  shows "ev_unary d (literal_token v # ts) (ALiteral v, ts)"
proof (rule ev_unary_primary)
  have "parsePrimary 1 d (literal_token v # ts) = Inr (ALiteral v, ts)"
    using assms by (cases v) (simp_all add: parsePrimary.simps peek_primary_def)
  then show "ev_primary d (literal_token v # ts) (ALiteral v, ts)" by (auto simp: ev_defs)
  show "peek_unary (literal_token v # ts) = None"
    using assms by (cases v) (simp_all add: peek_unary_def)
qed

text \<open>
  The parser, one level inside a \<^verbatim>\<open>parseExpression\<close> call, reads a printed tree and is then
  in its loop with that tree on the left.
\<close>

definition reads :: "nat \<Rightarrow> nat \<Rightarrow> token list \<Rightarrow> ast \<Rightarrow> token list \<Rightarrow> bool" where
  "reads d m ts e r \<longleftrightarrow>
     (\<forall>x. ev_loop d m e r x \<longrightarrow> (\<exists>l s. ev_unary d ts (l, s) \<and> ev_loop d m l s x))"

lemma readsD:
  "reads d m ts e r \<Longrightarrow> ev_loop d m e r x \<Longrightarrow> \<exists>l s. ev_unary d ts (l, s) \<and> ev_loop d m l s x"
  unfolding reads_def by blast

lemma reads_unary: "ev_unary d ts (e, r) \<Longrightarrow> reads d m ts e r"
  by (auto simp: reads_def)

lemma reads_expr:
  assumes "reads (Suc d) m ts e r" "next_power_le r m" "d < MAX_PARSE_DEPTH"
  shows "ev_expr d m ts (e, r)"
proof -
  have "ev_loop (Suc d) m e r (e, r)"
    using assms(2) by (intro ev_loop_stop) (simp add: next_power_le_def)
  from readsD [OF assms(1) this] obtain l s
    where "ev_unary (Suc d) ts (l, s)" "ev_loop (Suc d) m l s (e, r)"
    by blast
  with assms(3) show ?thesis by (auto intro: ev_exprI)
qed

lemma reads_paren:
  assumes "reads (Suc d) 0 (ts @ TRParen # r) e (TRParen # r)" "d < MAX_PARSE_DEPTH"
  shows "ev_unary d (TLParen # ts @ TRParen # r) (e, r)"
  using reads_expr [OF assms(1) _ assms(2)] by (intro ev_primary_paren) simp

lemma hd_print_ast: "print_ast e \<noteq> [] \<and> hd (print_ast e) \<noteq> TRParen"
proof (induction e)
  case (ALiteral v)
  then show ?case by (cases v) auto
next
  case (ABinary op l r)
  then show ?case by (auto simp: wrap_def)
qed auto

text \<open>
  The statement proved by induction on the tree; a tree that is not infix is even one
  operand for \<^verbatim>\<open>parseUnary\<close>.
\<close>

definition printed_ok :: "ast \<Rightarrow> bool" where
  "printed_ok e \<longleftrightarrow>
     (\<forall>d m r. m < top_power e \<longrightarrow> follows r \<longrightarrow> next_power_le r (top_power e) \<longrightarrow>
        d + nesting e \<le> MAX_PARSE_DEPTH \<longrightarrow> reads d m (print_ast e @ r) e r) \<and>
     (\<forall>d r. 60 < top_power e \<longrightarrow> follows r \<longrightarrow> d + nesting e \<le> MAX_PARSE_DEPTH \<longrightarrow>
        ev_unary d (print_ast e @ r) (e, r))"

lemma printed_okD:
  "printed_ok e \<Longrightarrow> m < top_power e \<Longrightarrow> follows r \<Longrightarrow> next_power_le r (top_power e) \<Longrightarrow>
     d + nesting e \<le> MAX_PARSE_DEPTH \<Longrightarrow> reads d m (print_ast e @ r) e r"
  by (simp add: printed_ok_def)

lemma printed_ok_unaryI:
  assumes "\<And>d r. follows r \<Longrightarrow> d + nesting e \<le> MAX_PARSE_DEPTH \<Longrightarrow> ev_unary d (print_ast e @ r) (e, r)"
  shows "printed_ok e"
  using assms by (auto simp: printed_ok_def intro: reads_unary)

lemma printed_paren:
  assumes "printed_ok e" "wf_ast e" "d + Suc (nesting e) \<le> MAX_PARSE_DEPTH"
  shows "ev_unary d (TLParen # print_ast e @ TRParen # r) (e, r)"
  using assms top_power_pos [of e]
  by (intro reads_paren printed_okD) auto

text \<open>A tree in an operand position, with the parentheses it needs there.\<close>

lemma printed_wrap:
  assumes "printed_ok e" "wf_ast e" "m \<le> k" "follows r" "next_power_le r (Suc k)"
    and "d + wrap_nesting k e (nesting e) \<le> MAX_PARSE_DEPTH"
  shows "reads d m (wrap k e (print_ast e) @ r) e r"
proof (cases "top_power e \<le> k")
  case True
  with assms show ?thesis
    by (auto simp: wrap_def wrap_nesting_def intro!: reads_unary printed_paren)
next
  case False
  with assms show ?thesis
    by (auto simp: wrap_def wrap_nesting_def intro!: printed_okD elim: next_power_le_mono)
qed

lemma printed_binary:
  assumes "printed_ok l" "printed_ok r" "wf_ast (ABinary op l r)"
  shows "printed_ok (ABinary op l r)"
  unfolding printed_ok_def
proof (intro conjI allI impI)
  fix d m s
  let ?q = "op_power op" and ?e = "ABinary op l r"
  assume m: "m < top_power ?e" and fo: "follows s" and np: "next_power_le s (top_power ?e)"
    and dp: "d + nesting ?e \<le> MAX_PARSE_DEPTH"
  from assms(3) obtain bp where bp: "infix_power op = Some bp" and q: "?q = bp" "10 \<le> ?q"
    by (auto simp: op_power_def dest: infix_power_bounds)
  let ?X = "TOp op # wrap ?q r (print_ast r) @ s"
  have pk: "peek_infix ?X = Some (op, ?q, wrap ?q r (print_ast r) @ s)"
    using bp q by (simp add: peek_infix_def)
  have rd: "reads (Suc d) ?q (wrap ?q r (print_ast r) @ s) r s"
    using assms dp fo np by (intro printed_wrap) (auto elim: next_power_le_mono)
  have er: "ev_expr d ?q (wrap ?q r (print_ast r) @ s) (r, s)"
    using rd np dp by (intro reads_expr) auto
  have rl: "reads d m (wrap (?q - 1) l (print_ast l) @ ?X) l ?X"
    using assms dp m q pk by (intro printed_wrap) (auto simp: next_power_le_def)
  show "reads d m (print_ast ?e @ s) ?e s"
    unfolding reads_def
  proof (intro allI impI)
    fix x
    assume "ev_loop d m ?e s x"
    with pk m er have "ev_loop d m l ?X x" by (auto intro: ev_loop_step)
    from readsD [OF rl this]
    show "\<exists>l' s'. ev_unary d (print_ast ?e @ s) (l', s') \<and> ev_loop d m l' s' x"
      by simp
  qed
next
  fix d s
  assume "60 < top_power (ABinary op l r)"
  with assms(3) op_power_bounds show "ev_unary d (print_ast (ABinary op l r) @ s) (ABinary op l r, s)"
    by fastforce
qed

lemma printed_unary:
  assumes "printed_ok e" "wf_ast (AUnary op e)"
  shows "printed_ok (AUnary op e)"
proof (rule printed_ok_unaryI)
  fix d r
  assume fo: "follows r" and dp: "d + nesting (AUnary op e) \<le> MAX_PARSE_DEPTH"
  have "ev_unary d (wrap 99 e (print_ast e) @ r) (e, r)"
  proof (cases "top_power e \<le> 99")
    case True
    with assms dp show ?thesis by (auto simp: wrap_def wrap_nesting_def intro!: printed_paren)
  next
    case False
    with assms fo dp show ?thesis by (simp add: wrap_def wrap_nesting_def printed_ok_def)
  qed
  with assms(2) show "ev_unary d (print_ast (AUnary op e) @ r) (AUnary op e, r)"
    by (auto intro: ev_unary_op)
qed

lemma fold_max_bounds: "fold max xs (n :: nat) \<le> k \<longleftrightarrow> n \<le> k \<and> (\<forall>x \<in> set xs. x \<le> k)"
  by (induction xs arbitrary: n) auto

lemma printed_args:
  assumes "\<forall>a \<in> set args. printed_ok a \<and> wf_ast a \<and> d + Suc (nesting a) \<le> MAX_PARSE_DEPTH"
  shows "ev_args d (sep_args (map print_ast args) @ TRParen # r) (args, TRParen # r)"
  using assms
proof (induction args)
  case Nil
  then show ?case by (simp add: ev_args_Nil)
next
  case (Cons a as)
  let ?rest = "(if as = [] then [] else TComma # sep_args (map print_ast as)) @ TRParen # r"
  have toks: "sep_args (map print_ast (a # as)) @ TRParen # r = print_ast a @ ?rest"
    by (cases as) auto
  have "ev_expr d 0 (print_ast a @ ?rest) (a, ?rest)"
  proof (rule reads_expr)
    show "reads (Suc d) 0 (print_ast a @ ?rest) a ?rest"
      using Cons.prems top_power_pos [of a] by (intro printed_okD) auto
  qed (use Cons.prems in auto)
  moreover have "ev_args d (skip_comma ?rest) (as, TRParen # r)"
  proof (cases as)
    case Nil
    then show ?thesis by (simp add: skip_comma_def ev_args_Nil)
  next
    case (Cons b bs)
    then show ?thesis using Cons.IH Cons.prems by (simp add: skip_comma_def)
  qed
  ultimately show ?case
    unfolding toks using hd_print_ast [of a] by (intro ev_args_Cons) (auto simp: hd_append)
qed

lemma printed_ok_all: "wf_ast e \<Longrightarrow> printed_ok e"
proof (induction e)
  case (ALiteral v)
  then show ?case by (intro printed_ok_unaryI) (simp add: ev_literal)
next
  case (AField p)
  then show ?case by (intro printed_ok_unaryI ev_field) auto
next
  case (AUnary op e)
  then show ?case by (intro printed_unary) auto
next
  case (ABinary op l r)
  then show ?case by (intro printed_binary) auto
next
  case (ACall name args)
  show ?case
  proof (rule printed_ok_unaryI)
    fix d r
    assume "d + nesting (ACall name args) \<le> MAX_PARSE_DEPTH"
    then have "\<forall>a \<in> set args. d + Suc (nesting a) \<le> MAX_PARSE_DEPTH"
      using fold_max_bounds [of "map (\<lambda>a. Suc (nesting a)) args" 0 "MAX_PARSE_DEPTH - d"] by auto
    then have "ev_args d (sep_args (map print_ast args) @ TRParen # r) (args, TRParen # r)"
      using ACall by (intro printed_args) (auto simp: list_all_iff)
    then show "ev_unary d (print_ast (ACall name args) @ r) (ACall name args, r)"
      by (simp add: ev_primary_call)
  qed
qed



end
