(* ===== verification/TransformEngine.thy ===== *)
theory TransformEngine
  imports ExpressionEvaluator
begin

text \<open>
  The record transformations of \<^verbatim>\<open>services/pipeline/src/services/transform-engine.ts\<close>.
  A \<^verbatim>\<open>DataRecord\<close> is the own properties of an object; each operation maps record lists
  to record lists or throws.  The streaming variants yield records until they finish or
  throw, so a stream is the list of records yielded and the error that ended it, if any.
  Log output (the memory-threshold warning) is not part of the result and is left out.
\<close>

type_synonym DataRecord = props

section \<open>Streaming helpers\<close>

text \<open>Run a per-record step over the input; a step yields zero or more records or throws.\<close>

fun run_stream :: "('a \<Rightarrow> 'b list res) \<Rightarrow> 'a list \<Rightarrow> 'b list \<times> js_error option" where
  "run_stream step [] = ([], None)"
| "run_stream step (r # rs) =
     (case step r of
        Inl e \<Rightarrow> ([], Some e)
      | Inr ys \<Rightarrow> (let (zs, e) = run_stream step rs in (ys @ zs, e)))"

definition wrap_error :: "string \<Rightarrow> 'a res \<Rightarrow> 'a res" where
  "wrap_error msg r = (case r of Inl e \<Rightarrow> Inl (TransformError msg) | Inr x \<Rightarrow> Inr x)"

definition blank :: "string \<Rightarrow> bool" where
  "blank s \<longleftrightarrow> s = [] \<or> js_trim s = []"

definition filter_one :: "js_host \<Rightarrow> string \<Rightarrow> DataRecord \<Rightarrow> DataRecord list res" where
  "filter_one h condition record =
     rbind (wrap_error ''filter expression error'' (evaluateBoolean h condition record))
       (\<lambda>pass. Inr (if pass then [record] else []))"

fun map_one_fields ::
  "js_host \<Rightarrow> DataRecord \<Rightarrow> DataRecord \<Rightarrow> (string \<times> string) list \<Rightarrow> DataRecord res" where
  "map_one_fields h record out [] = Inr out"
| "map_one_fields h record out ((outputField, expression) # ms) =
     rbind (wrap_error ''map expression error'' (evaluate h expression record))
       (\<lambda>v. map_one_fields h record (obj_set out outputField v) ms)"

definition map_one :: "js_host \<Rightarrow> (string \<times> string) list \<Rightarrow> DataRecord \<Rightarrow> DataRecord res" where
  "map_one h mappings record = map_one_fields h record record mappings"

text \<open>\<^verbatim>\<open>fieldMap[k]\<close>, read through the prototype like any property.\<close>

definition new_key :: "(string \<times> string) list \<Rightarrow> string \<Rightarrow> string res" where
  "new_key fieldMap k =
     (case map_of fieldMap k of
        Some k' \<Rightarrow> Inr k'
      | None \<Rightarrow> if k \<in> set object_prototype then to_str (VFun k) else Inr k)"

fun rename_fields :: "(string \<times> string) list \<Rightarrow> DataRecord \<Rightarrow> DataRecord \<Rightarrow> DataRecord res" where
  "rename_fields fieldMap out [] = Inr out"
| "rename_fields fieldMap out ((k, v) # ps) =
     rbind (new_key fieldMap k) (\<lambda>k'. rename_fields fieldMap (obj_set out k' v) ps)"

definition rename_one :: "(string \<times> string) list \<Rightarrow> DataRecord \<Rightarrow> DataRecord res" where
  "rename_one fieldMap record = rename_fields fieldMap [] record"

definition filterStream :: "js_host \<Rightarrow> DataRecord list \<Rightarrow> string \<Rightarrow> DataRecord list \<times> js_error option" where
  "filterStream h records condition =
     (if blank condition
      then ([], Some (TransformError ''filter requires a non-empty condition expression.''))
      else run_stream (filter_one h condition) records)"

definition mapFieldsStream ::
  "js_host \<Rightarrow> DataRecord list \<Rightarrow> (string \<times> string) list \<Rightarrow> DataRecord list \<times> js_error option" where
  "mapFieldsStream h records mappings =
     (if mappings = []
      then ([], Some (TransformError ''map requires at least one field mapping.''))
      else run_stream (\<lambda>r. rbind (map_one h mappings r) (\<lambda>x. Inr [x])) records)"

definition renameStream ::
  "DataRecord list \<Rightarrow> (string \<times> string) list \<Rightarrow> DataRecord list \<times> js_error option" where
  "renameStream records fieldMap =
     (if fieldMap = []
      then ([], Some (TransformError ''rename requires at least one field mapping.''))
      else run_stream (\<lambda>r. rbind (rename_one fieldMap r) (\<lambda>x. Inr [x])) records)"

definition is_integer :: "jsnum \<Rightarrow> bool" where
  "is_integer n \<longleftrightarrow> (case n of Fin x \<Rightarrow> of_int \<lfloor>x\<rfloor> = x | _ \<Rightarrow> False)"

definition bad_count :: "jsnum \<Rightarrow> bool" where
  "bad_count cnt \<longleftrightarrow> \<not> is_integer cnt \<or> jlt cnt (jint 1)"

definition count_nat :: "jsnum \<Rightarrow> nat" where
  "count_nat n = (case n of Fin x \<Rightarrow> nat \<lfloor>x\<rfloor> | _ \<Rightarrow> 0)"

fun limit_loop :: "nat \<Rightarrow> nat \<Rightarrow> 'a list \<Rightarrow> 'a list" where
  "limit_loop cnt emitted [] = []"
| "limit_loop cnt emitted (r # rs) =
     (if cnt \<le> emitted then [] else r # limit_loop cnt (Suc emitted) rs)"

definition limitStream :: "DataRecord list \<Rightarrow> jsnum \<Rightarrow> DataRecord list \<times> js_error option" where
  "limitStream records cnt =
     (if bad_count cnt then ([], Some (TransformError ''limit count must be a positive integer.''))
      else (limit_loop (count_nat cnt) 0 records, None))"

section \<open>Keys\<close>

definition key_part :: "DataRecord \<Rightarrow> string \<Rightarrow> string" where
  "key_part record f =
     (let v = prop_get record f
      in if is_nullish v then ''__null__''
         else (case json v of Some s \<Rightarrow> s | None \<Rightarrow> []))"

definition buildCompositeKey :: "DataRecord \<Rightarrow> string list \<Rightarrow> string" where
  "buildCompositeKey record fs = join_with ''|'' (map (key_part record) fs)"

definition toJoinKey :: "jsval \<Rightarrow> string res" where
  "toJoinKey v = (if is_nullish v then Inr ''__null__'' else to_str v)"

section \<open>Batch operations\<close>

datatype dedup_strategy = First | Last

fun dedup_loop ::
  "(DataRecord \<Rightarrow> string) \<Rightarrow> dedup_strategy \<Rightarrow> (string, DataRecord) dict \<Rightarrow> DataRecord list
     \<Rightarrow> (string, DataRecord) dict" where
  "dedup_loop key strategy seen [] = seen"
| "dedup_loop key strategy seen (record # rs) =
     (if strategy = First \<and> dict_has seen (key record)
      then dedup_loop key strategy seen rs
      else dedup_loop key strategy (map_set seen (key record) record) rs)"

definition dedup :: "DataRecord list \<Rightarrow> string list \<Rightarrow> dedup_strategy \<Rightarrow> DataRecord list res" where
  "dedup records keyFields strategy =
     (if keyFields = [] then Inl (TransformError ''dedup requires at least one keyField.'')
      else Inr (dict_values (dedup_loop (\<lambda>r. buildCompositeKey r keyFields) strategy [] records)))"

fun filter_loop :: "js_host \<Rightarrow> string \<Rightarrow> DataRecord list \<Rightarrow> DataRecord list res" where
  "filter_loop h condition [] = Inr []"
| "filter_loop h condition (r # rs) =
     rbind (wrap_error ''filter expression error'' (evaluateBoolean h condition r))
       (\<lambda>pass. rbind (filter_loop h condition rs) (\<lambda>out. Inr (if pass then r # out else out)))"

definition filter_records :: "js_host \<Rightarrow> DataRecord list \<Rightarrow> string \<Rightarrow> DataRecord list res" where
  "filter_records h records condition =
     (if blank condition
      then Inl (TransformError ''filter requires a non-empty condition expression.'')
      else filter_loop h condition records)"

definition mapFields :: "js_host \<Rightarrow> DataRecord list \<Rightarrow> (string \<times> string) list \<Rightarrow> DataRecord list res" where
  "mapFields h records mappings =
     (if mappings = [] then Inl (TransformError ''map requires at least one field mapping.'')
      else rmap (map_one h mappings) records)"

datatype AggregateFunction = Sum | Avg | Min | Max | Count

record AggregationSpec =
  agg_field :: string
  agg_function :: AggregateFunction
  agg_alias :: string

fun finite_number :: "jsval \<Rightarrow> jsnum option" where
  "finite_number (VNum n) = (if is_finite n then Some n else None)"
| "finite_number _ = None"

definition applyAggregation :: "DataRecord list \<Rightarrow> string \<Rightarrow> AggregateFunction \<Rightarrow> jsval" where
  "applyAggregation records field func =
     (if func = Count then VNum (jint (int (length records)))
      else let values = List.map_filter (\<lambda>r. finite_number (prop_get r field)) records;
               total = foldl jadd (jint 0) values
           in if values = [] then VNull
              else VNum (case func of
                           Sum \<Rightarrow> total
                         | Avg \<Rightarrow> jdiv total (jint (int (length values)))
                         | Min \<Rightarrow> jmin values
                         | _ \<Rightarrow> jmax values))"

text \<open>Append a record to its group, creating the group on first sight.\<close>

definition group_add :: "(string, 'a list) dict \<Rightarrow> string \<Rightarrow> 'a \<Rightarrow> (string, 'a list) dict" where
  "group_add groups k x =
     map_set groups k ((case dict_get groups k of None \<Rightarrow> [] | Some xs \<Rightarrow> xs) @ [x])"

fun group_loop :: "('a \<Rightarrow> string) \<Rightarrow> (string, 'a list) dict \<Rightarrow> 'a list \<Rightarrow> (string, 'a list) dict" where
  "group_loop key groups [] = groups"
| "group_loop key groups (x # xs) = group_loop key (group_add groups (key x) x) xs"

definition group_key :: "string list \<Rightarrow> DataRecord \<Rightarrow> string" where
  "group_key groupBy record =
     (if groupBy = [] then ''__all__'' else buildCompositeKey record groupBy)"

definition group_record :: "string list \<Rightarrow> DataRecord \<Rightarrow> DataRecord" where
  "group_record groupBy record = fold (\<lambda>f out. obj_set out f (prop_get record f)) groupBy []"

definition aggregate_row :: "AggregationSpec list \<Rightarrow> DataRecord \<Rightarrow> DataRecord list \<Rightarrow> DataRecord" where
  "aggregate_row aggregations base groupRecords =
     fold (\<lambda>a out. obj_set out (agg_alias a)
                     (applyAggregation groupRecords (agg_field a) (agg_function a)))
       aggregations base"

text \<open>
  The source keeps the partial output record of each group in a second map, built from the
  first record of the group; here it is rebuilt from that record.
\<close>

definition aggregate ::
  "DataRecord list \<Rightarrow> string list \<Rightarrow> AggregationSpec list \<Rightarrow> DataRecord list res" where
  "aggregate records groupBy aggregations =
     (if aggregations = [] then Inl (TransformError ''aggregate requires at least one aggregation.'')
      else Inr (map (\<lambda>(k, rs). aggregate_row aggregations (group_record groupBy (hd rs)) rs)
                  (group_loop (group_key groupBy) [] records)))"

record PivotConfig =
  groupField :: string
  pivotField :: string
  valueField :: string
  aggregation :: AggregateFunction

definition set_add :: "'a list \<Rightarrow> 'a \<Rightarrow> 'a list" where
  "set_add xs x = (if x \<in> set xs then xs else xs @ [x])"

definition pivot_name :: "jsval \<Rightarrow> string res" where
  "pivot_name v = (if is_nullish v then Inr ''__null__'' else to_str v)"

fun pivot_values :: "string \<Rightarrow> string list \<Rightarrow> DataRecord list \<Rightarrow> string list res" where
  "pivot_values pf acc [] = Inr acc"
| "pivot_values pf acc (r # rs) =
     (let pv = prop_get r pf
      in if is_nullish pv then pivot_values pf acc rs
         else rbind (to_str pv) (\<lambda>s. pivot_values pf (set_add acc s) rs))"

definition pivot_row ::
  "PivotConfig \<Rightarrow> string list \<Rightarrow> (DataRecord \<times> string) list \<Rightarrow> DataRecord" where
  "pivot_row c pvs rows =
     (let cells = group_loop snd [] rows;
          base = [(groupField c, prop_get (fst (hd rows)) (groupField c))]
      in fold (\<lambda>pv out.
            let cell = (case dict_get cells pv of None \<Rightarrow> [] | Some xs \<Rightarrow> map fst xs)
            in obj_set out pv (applyAggregation cell (valueField c) (aggregation c))) pvs base)"

definition pivot :: "DataRecord list \<Rightarrow> PivotConfig \<Rightarrow> DataRecord list res" where
  "pivot records c =
     rbind (pivot_values (pivotField c) [] records) (\<lambda>pvs.
     rbind (rmap (\<lambda>r. rbind (pivot_name (prop_get r (groupField c))) (\<lambda>gk.
                     rbind (pivot_name (prop_get r (pivotField c))) (\<lambda>pk. Inr (gk, (r, pk)))))
              records) (\<lambda>keyed.
     Inr (map (\<lambda>(gk, rows). pivot_row c pvs (map snd rows)) (group_loop fst [] keyed))))"

record UnpivotConfig =
  u_keyField :: string
  u_valueFields :: "string list"
  u_nameColumn :: string
  u_valueColumn :: string

definition unpivot_one :: "UnpivotConfig \<Rightarrow> DataRecord \<Rightarrow> DataRecord list" where
  "unpivot_one c record =
     (let base = filter (\<lambda>(k, v). k \<notin> set (u_valueFields c)) record
      in map (\<lambda>f. let v = prop_get record f
                   in obj_set (obj_set base (u_nameColumn c) (VStr f)) (u_valueColumn c)
                        (if is_nullish v then VNull else v))
           (u_valueFields c))"

definition unpivot :: "DataRecord list \<Rightarrow> UnpivotConfig \<Rightarrow> DataRecord list res" where
  "unpivot records c =
     (if u_valueFields c = [] then Inl (TransformError ''unpivot requires at least one valueField.'')
      else Inr (concat (map (unpivot_one c) records)))"

datatype JoinType = Inner | LeftJoin | RightJoin | FullJoin

record JoinConfig =
  joinType :: JoinType
  leftKey :: string
  rightKey :: string

text \<open>\<^verbatim>\<open>k in out\<close> also finds the members of \<^verbatim>\<open>Object.prototype\<close>.\<close>

definition key_in :: "string \<Rightarrow> DataRecord \<Rightarrow> bool" where
  "key_in k out \<longleftrightarrow> dict_has out k \<or> k \<in> set object_prototype"

definition mergeRecords :: "DataRecord \<Rightarrow> DataRecord \<Rightarrow> DataRecord" where
  "mergeRecords left right =
     fold (\<lambda>(k, v) out. if key_in k out then obj_set out (''right_'' @ k) v else obj_set out k v)
       right left"

definition keyed_by :: "string \<Rightarrow> DataRecord list \<Rightarrow> (string \<times> DataRecord) list res" where
  "keyed_by f records = rmap (\<lambda>r. rbind (toJoinKey (prop_get r f)) (\<lambda>k. Inr (k, r))) records"

definition join_left ::
  "JoinType \<Rightarrow> (string, (string \<times> DataRecord) list) dict \<Rightarrow> string \<times> DataRecord \<Rightarrow> DataRecord list" where
  "join_left jt rightIndex kl =
     (let (k, left) = kl
      in case dict_get rightIndex k of
           Some rights \<Rightarrow>
             if rights \<noteq> [] then map (\<lambda>(_, right). mergeRecords left right) rights
             else if jt = LeftJoin \<or> jt = FullJoin then [left] else []
         | None \<Rightarrow> if jt = LeftJoin \<or> jt = FullJoin then [left] else [])"

definition join_unmatched ::
  "JoinType \<Rightarrow> (string, (string \<times> DataRecord) list) dict \<Rightarrow> (string \<times> DataRecord) list \<Rightarrow> DataRecord list" where
  "join_unmatched jt rightIndex lefts =
     (if jt = RightJoin \<or> jt = FullJoin
      then concat (map (\<lambda>(k, rights). if k \<in> set (map fst lefts) then [] else map snd rights) rightIndex)
      else [])"

text \<open>
  A left key counts as matched when it found right records; every entry of the index is
  non-empty, so that is the same as the key occurring on the left.
\<close>

definition join_records :: "DataRecord list \<Rightarrow> DataRecord list \<Rightarrow> JoinConfig \<Rightarrow> DataRecord list res" where
  "join_records leftRecords rightRecords c =
     rbind (keyed_by (rightKey c) rightRecords) (\<lambda>rights.
     rbind (keyed_by (leftKey c) leftRecords) (\<lambda>lefts.
       let rightIndex = group_loop fst [] rights
       in Inr (concat (map (join_left (joinType c) rightIndex) lefts)
               @ join_unmatched (joinType c) rightIndex lefts)))"

section \<open>Sort, limit, rename, casts\<close>

datatype sort_direction = Asc | Desc

fun sort_compare ::
  "js_host \<Rightarrow> (string \<times> sort_direction) list \<Rightarrow> DataRecord \<Rightarrow> DataRecord \<Rightarrow> jsnum res" where
  "sort_compare h [] a b = Inr (jint 0)"
| "sort_compare h ((field, direction) # fs) a b =
     (let av = prop_get a field; bv = prop_get b field;
          cmp = (case (av, bv) of
                   (VNum x, VNum y) \<Rightarrow> Inr (jsub x y)
                 | _ \<Rightarrow> rbind (to_str av) (\<lambda>s. rbind (to_str bv) (\<lambda>t.
                          Inr (jint (host_localeCompare h s t)))))
      in if is_nullish av \<and> is_nullish bv then sort_compare h fs a b
         else if is_nullish av then Inr (jint 1)
         else if is_nullish bv then Inr (jint (-1))
         else rbind cmp (\<lambda>c.
                if \<not> jeq c (jint 0) then Inr (if direction = Asc then c else jneg c)
                else sort_compare h fs a b))"

text \<open>
  \<^verbatim>\<open>Array.prototype.sort\<close> is a stable sort that reads a comparator result as \<open>> 0\<close> or
  not.  For a consistent comparator every stable sort gives the same array; the model
  inserts the elements one by one, each after the elements that do not compare greater.
\<close>

fun sort_insert :: "('a \<Rightarrow> 'a \<Rightarrow> jsnum res) \<Rightarrow> 'a \<Rightarrow> 'a list \<Rightarrow> 'a list res" where
  "sort_insert cmp x [] = Inr [x]"
| "sort_insert cmp x (y # ys) =
     rbind (cmp y x) (\<lambda>c.
       if jlt (jint 0) c then Inr (x # y # ys)
       else rbind (sort_insert cmp x ys) (\<lambda>zs. Inr (y # zs)))"

fun sort_loop :: "('a \<Rightarrow> 'a \<Rightarrow> jsnum res) \<Rightarrow> 'a list \<Rightarrow> 'a list \<Rightarrow> 'a list res" where
  "sort_loop cmp acc [] = Inr acc"
| "sort_loop cmp acc (x # xs) = rbind (sort_insert cmp x acc) (\<lambda>acc'. sort_loop cmp acc' xs)"

definition sort_records ::
  "js_host \<Rightarrow> DataRecord list \<Rightarrow> (string \<times> sort_direction) list \<Rightarrow> DataRecord list res" where
  "sort_records h records fs =
     (if fs = [] then Inl (TransformError ''sort requires at least one sort field.'')
      else sort_loop (sort_compare h fs) [] records)"

definition limit :: "DataRecord list \<Rightarrow> jsnum \<Rightarrow> DataRecord list res" where
  "limit records cnt =
     (if bad_count cnt then Inl (TransformError ''limit count must be a positive integer.'')
      else Inr (take (count_nat cnt) records))"

definition rename :: "DataRecord list \<Rightarrow> (string \<times> string) list \<Rightarrow> DataRecord list res" where
  "rename records fieldMap =
     (if fieldMap = [] then Inl (TransformError ''rename requires at least one field mapping.'')
      else rmap (rename_one fieldMap) records)"

text \<open>\<^verbatim>\<open>parseFloat\<close>: the longest prefix that is a decimal literal.\<close>

definition exponent_prefix :: "string \<Rightarrow> int" where
  "exponent_prefix s =
     (case s of
        [] \<Rightarrow> 0
      | c # r \<Rightarrow>
          if c = CHR ''e'' \<or> c = CHR ''E''
          then let (sg, ds) = (case r of
                      x # xs \<Rightarrow> if x = CHR ''-'' then (-1, xs)
                               else if x = CHR ''+'' then (1, xs) else (1, r)
                    | [] \<Rightarrow> (1, r))
               in sg * int (digits_val (takeWhile is_digit ds))
          else 0)"

definition float_prefix :: "string \<Rightarrow> jsnum" where
  "float_prefix s =
     (let ip = takeWhile is_digit s;
          r = dropWhile is_digit s;
          (fp, r') = (case r of
             c # cs \<Rightarrow> if c = CHR ''.'' then (takeWhile is_digit cs, dropWhile is_digit cs) else ([], r)
           | [] \<Rightarrow> ([], []))
      in if take 8 s = ''Infinity'' then PInf
         else if ip = [] \<and> fp = [] then NaN
         else fl (of_nat (digits_val (ip @ fp)) * bpow 10 (exponent_prefix r' - int (length fp))))"

definition js_parseFloat :: "string \<Rightarrow> jsnum" where
  "js_parseFloat s =
     (let t = trim_left s
      in case t of
           [] \<Rightarrow> NaN
         | c # cs \<Rightarrow>
             if c = CHR ''-'' then jneg (float_prefix cs)
             else if c = CHR ''+'' then float_prefix cs
             else float_prefix t)"

datatype CastTargetType = CastString | CastNumber | CastBoolean | CastDate | CastUnknown string

definition date_text :: "js_host \<Rightarrow> jsval \<Rightarrow> jsnum option res" where
  "date_text h v = rbind (to_str v) (\<lambda>s.
     let t = host_dateParse h s in Inr (if t = NaN then None else Some t))"

definition castValue :: "js_host \<Rightarrow> jsval \<Rightarrow> CastTargetType \<Rightarrow> jsval res" where
  "castValue h v target =
     (if is_nullish v then Inr VNull
      else case target of
             CastString \<Rightarrow> rbind (to_str v) (\<lambda>s. Inr (VStr s))
           | CastNumber \<Rightarrow> rbind (to_str v) (\<lambda>s.
               let n = js_parseFloat s in Inr (if n = NaN then VNull else VNum n))
           | CastBoolean \<Rightarrow> rbind (to_str v) (\<lambda>s.
               let w = js_trim (js_toLowerCase s)
               in Inr (VBool (w = ''true'' \<or> w = ''1'' \<or> w = ''yes'')))
           | CastDate \<Rightarrow> rbind (date_text h v) (\<lambda>t.
               Inr (case t of None \<Rightarrow> VNull | Some ms \<Rightarrow> VStr (host_toISOString h ms)))
           | CastUnknown _ \<Rightarrow> Inr VUndef)"

record TypeCastSpec =
  tc_field :: string
  tc_targetType :: CastTargetType
  tc_outputField :: "string option"

fun cast_fields :: "js_host \<Rightarrow> DataRecord \<Rightarrow> DataRecord \<Rightarrow> TypeCastSpec list \<Rightarrow> DataRecord res" where
  "cast_fields h record out [] = Inr out"
| "cast_fields h record out (sp # sps) =
     rbind (castValue h (prop_get record (tc_field sp)) (tc_targetType sp)) (\<lambda>v.
       cast_fields h record
         (obj_set out (case tc_outputField sp of Some d \<Rightarrow> d | None \<Rightarrow> tc_field sp) v) sps)"

definition typeCast :: "js_host \<Rightarrow> DataRecord list \<Rightarrow> TypeCastSpec list \<Rightarrow> DataRecord list res" where
  "typeCast h records specs =
     (if specs = [] then Inl (TransformError ''typeCast requires at least one spec.'')
      else if list_ex (\<lambda>sp. case tc_targetType sp of CastUnknown _ \<Rightarrow> True | _ \<Rightarrow> False) specs
      then Inl (TransformError ''typeCast: unknown targetType'')
      else rmap (\<lambda>r. cast_fields h r r specs) records)"

datatype DateFormat = FmtIso | FmtTimestamp | FmtDate

record DateParseSpec =
  dp_field :: string
  dp_outputField :: "string option"
  dp_outputFormat :: DateFormat

definition date_value :: "js_host \<Rightarrow> DateFormat \<Rightarrow> jsval \<Rightarrow> jsval res" where
  "date_value h fmt raw =
     (if is_nullish raw then Inr VNull
      else rbind (date_text h raw) (\<lambda>t.
        Inr (case t of
               None \<Rightarrow> VNull
             | Some ms \<Rightarrow>
                 (case fmt of
                    FmtIso \<Rightarrow> VStr (host_toISOString h ms)
                  | FmtTimestamp \<Rightarrow> VNum ms
                  | FmtDate \<Rightarrow> VStr (take 10 (host_toISOString h ms))))))"

fun date_fields :: "js_host \<Rightarrow> DataRecord \<Rightarrow> DataRecord \<Rightarrow> DateParseSpec list \<Rightarrow> DataRecord res" where
  "date_fields h record out [] = Inr out"
| "date_fields h record out (sp # sps) =
     rbind (date_value h (dp_outputFormat sp) (prop_get record (dp_field sp))) (\<lambda>v.
       date_fields h record
         (obj_set out (case dp_outputField sp of Some d \<Rightarrow> d | None \<Rightarrow> dp_field sp) v) sps)"

definition dateParse :: "js_host \<Rightarrow> DataRecord list \<Rightarrow> DateParseSpec list \<Rightarrow> DataRecord list res" where
  "dateParse h records specs =
     (if specs = [] then Inl (TransformError ''dateParse requires at least one spec.'')
      else rmap (\<lambda>r. date_fields h r r specs) records)"

end
