(* ===== verification/TransformProperties.thy ===== *)
theory TransformProperties
  imports TransformEngine "HOL-Library.Product_Lexorder" "HOL-Library.List_Lexorder"
begin

text \<open>
  Correctness of the record transformations: streams agree with their batch forms, dedup
  and grouping are characterised by first occurrences, the hash join equals the
  nested-loop join, sort is a stable permutation into comparator order.
\<close>

section \<open>First occurrences and grouping\<close>

fun firsts :: "'a list \<Rightarrow> 'a list" where
  "firsts [] = []"
| "firsts (x # xs) = x # filter (\<lambda>y. y \<noteq> x) (firsts xs)"

lemma set_firsts [simp]: "set (firsts xs) = set xs"
  by (induction xs) auto

lemma distinct_firsts [simp]: "distinct (firsts xs)"
  by (induction xs) auto

lemma firsts_snoc: "firsts (xs @ [x]) = (if x \<in> set xs then firsts xs else firsts xs @ [x])"
  by (induction xs) auto

lemma firsts_length: "length (firsts xs) \<le> length xs"
  by (induction xs) (auto intro: le_trans [OF length_filter_le])

lemma group_loop_snoc: "group_loop key g (xs @ [x]) = group_add (group_loop key g xs) (key x) x"
  by (induction xs arbitrary: g) auto

lemma map_of_map_pair: "map_of (map (\<lambda>k. (k, f k)) ks) k = (if k \<in> set ks then Some (f k) else None)"
  by (induction ks) auto

lemma map_set_map_pair:
  "distinct ks \<Longrightarrow> k \<in> set ks \<Longrightarrow>
     map_set (map (\<lambda>k. (k, f k)) ks) k v = map (\<lambda>j. (j, if j = k then v else f j)) ks"
  by (induction ks) auto

text \<open>A tabulated dictionary, updated at one key.\<close>

lemma map_set_tabulate:
  assumes "\<And>j. j \<in> set ks \<Longrightarrow> j \<noteq> k \<Longrightarrow> f j = g j" "distinct ks"
  shows "map_set (map (\<lambda>j. (j, f j)) ks) k (g k)
           = map (\<lambda>j. (j, g j)) (if k \<in> set ks then ks else ks @ [k])"
proof (cases "k \<in> set ks")
  case True
  with assms show ?thesis by (auto simp: map_set_map_pair)
next
  case False
  moreover have "map (\<lambda>j. (j, f j)) ks = map (\<lambda>j. (j, g j)) ks"
    using assms(1) False by auto
  ultimately show ?thesis
    by (subst map_set_fresh) (auto simp: image_iff)
qed

lemma group_loop_spec:
  "group_loop key [] xs = map (\<lambda>k. (k, filter (\<lambda>x. key x = k) xs)) (firsts (map key xs))"
proof (induction xs rule: rev_induct)
  case (snoc x xs)
  let ?k = "key x" and ?ks = "firsts (map key xs)"
  have old: "(case map_of (map (\<lambda>k. (k, filter (\<lambda>y. key y = k) xs)) ?ks) ?k of
        None \<Rightarrow> [] | Some ys \<Rightarrow> ys) = filter (\<lambda>y. key y = ?k) xs"
    by (auto simp: map_of_map_pair image_iff intro!: filter_empty_conv [THEN iffD2, symmetric] dest: sym)
  have "group_loop key [] (xs @ [x]) =
      map_set (map (\<lambda>k. (k, filter (\<lambda>y. key y = k) xs)) ?ks) ?k (filter (\<lambda>y. key y = ?k) (xs @ [x]))"
    using old by (simp add: group_loop_snoc snoc group_add_def)
  also have "\<dots> = map (\<lambda>k. (k, filter (\<lambda>y. key y = k) (xs @ [x])))
      (if ?k \<in> set ?ks then ?ks else ?ks @ [?k])"
    by (rule map_set_tabulate) auto
  also have "(if ?k \<in> set ?ks then ?ks else ?ks @ [?k]) = firsts (map key (xs @ [x]))"
    by (simp add: firsts_snoc)
  finally show ?case .
qed simp

lemma sum_list_group_lengths:
  "sum_list (map (\<lambda>k. length (filter (\<lambda>x. key x = k) xs)) (firsts (map key xs))) = length xs"
proof -
  have "sum_list (map (\<lambda>k. length (filter (\<lambda>x. key x = k) xs)) (firsts (map key xs)))
      = (\<Sum>k \<in> key ` set xs. length (filter (\<lambda>x. key x = k) xs))"
    using sum_list_distinct_conv_sum_set [OF distinct_firsts, of _ "map key xs"] by simp
  also have "\<dots> = length xs"
  proof (induction xs)
    case (Cons x xs)
    let ?n = "\<lambda>xs k. length (filter (\<lambda>x. key x = k) xs)"
    have "(\<Sum>k \<in> key ` set (x # xs). ?n (x # xs) k)
        = (\<Sum>k \<in> key ` set (x # xs). ?n xs k) + (\<Sum>k \<in> key ` set (x # xs). if key x = k then 1 else 0)"
      unfolding sum.distrib [symmetric] by (rule sum.cong) auto
    also have "(\<Sum>k \<in> key ` set (x # xs). if key x = k then 1 else 0) = (1::nat)"
      by (subst sum.delta') auto
    also have "(\<Sum>k \<in> key ` set (x # xs). ?n xs k) = (\<Sum>k \<in> key ` set xs. ?n xs k)"
      by (rule sum.mono_neutral_right) (auto simp: filter_empty_conv)
    finally show ?case using Cons.IH by simp
  qed simp
  finally show ?thesis .
qed

section \<open>Streams\<close>

definition stream_result :: "'a list \<times> js_error option \<Rightarrow> 'a list res" where
  "stream_result s = (case snd s of None \<Rightarrow> Inr (fst s) | Some e \<Rightarrow> Inl e)"

lemma run_stream_rmap:
  "stream_result (run_stream (\<lambda>r. rbind (f r) (\<lambda>x. Inr [x])) rs) = rmap f rs"
proof (induction rs)
  case (Cons r rs)
  then show ?case unfolding rmap.simps Cons.IH [symmetric]
    by (cases "f r"; cases "run_stream (\<lambda>r. rbind (f r) (\<lambda>x. Inr [x])) rs")
      (auto simp: stream_result_def split: option.splits)
qed (simp add: stream_result_def)

lemma run_stream_filter:
  "stream_result (run_stream (filter_one h c) rs) = filter_loop h c rs"
proof (induction rs)
  case (Cons r rs)
  then show ?case unfolding filter_loop.simps Cons.IH [symmetric]
    by (cases "wrap_error ''filter expression error'' (evaluateBoolean h c r)";
        cases "run_stream (filter_one h c) rs")
      (auto simp: stream_result_def filter_one_def [of h c r] split: option.splits)
qed (simp add: stream_result_def)

lemma limit_loop_take: "limit_loop n k xs = take (n - k) xs"
proof (induction n k xs rule: limit_loop.induct)
  case (2 n k r rs)
  then show ?case by (cases "n - k") (auto simp: take_Cons' diff_Suc split: nat.splits)
qed simp

text \<open>
  Every streaming transform delivers exactly what its batch form returns: the
  same records when neither throws, and the same error when either does.
\<close>

theorem stream_batch_equivalence:
  "stream_result (filterStream h records condition) = filter_records h records condition
   \<and> stream_result (mapFieldsStream h records mappings) = mapFields h records mappings
   \<and> stream_result (renameStream records fieldMap) = rename records fieldMap
   \<and> stream_result (limitStream records cnt) = limit records cnt"
proof (intro conjI)
  show "stream_result (filterStream h records condition) = filter_records h records condition"
    by (simp add: filterStream_def filter_records_def run_stream_filter)
      (simp add: stream_result_def)
  show "stream_result (mapFieldsStream h records mappings) = mapFields h records mappings"
    by (simp add: mapFieldsStream_def mapFields_def run_stream_rmap) (simp add: stream_result_def)
  show "stream_result (renameStream records fieldMap) = rename records fieldMap"
    by (simp add: renameStream_def rename_def run_stream_rmap) (simp add: stream_result_def)
  show "stream_result (limitStream records cnt) = limit records cnt"
    by (simp add: limitStream_def limit_def stream_result_def limit_loop_take)
qed

section \<open>Filter and map\<close>

lemma filter_loop_spec:
  "filter_loop h c rs = Inr ys \<Longrightarrow>
     (\<forall>r \<in> set rs. \<exists>b. evaluateBoolean h c r = Inr b) \<and>
     ys = filter (\<lambda>r. evaluateBoolean h c r = Inr True) rs"
proof (induction rs arbitrary: ys)
  case (Cons r rs)
  then obtain b zs where "evaluateBoolean h c r = Inr b" "filter_loop h c rs = Inr zs"
    "ys = (if b then r # zs else zs)"
    by (auto simp: rbind_Inr_iff wrap_error_def split: sum.splits)
  with Cons.IH [of zs] show ?case by auto
qed simp

lemma filter_loop_total:
  "\<forall>r \<in> set rs. \<exists>b. evaluateBoolean h c r = Inr b \<Longrightarrow> \<exists>ys. filter_loop h c rs = Inr ys"
  by (induction rs) (auto simp: wrap_error_def)

text \<open>
  \<^verbatim>\<open>filter\<close> succeeds exactly when the condition evaluates on every record, and
  then keeps, in order, precisely the records on which it is truthy; any evaluation error
  surfaces as a \<^verbatim>\<open>TransformError\<close>.
\<close>

theorem filter_records_spec:
  "filter_records h records condition =
     (if blank condition
      then Inl (TransformError ''filter requires a non-empty condition expression.'')
      else if list_all (\<lambda>r. \<not> isl (evaluateBoolean h condition r)) records
      then Inr (filter (\<lambda>r. evaluateBoolean h condition r = Inr True) records)
      else Inl (TransformError ''filter expression error''))"
proof -
  have "filter_loop h condition rs =
      (if list_all (\<lambda>r. \<not> isl (evaluateBoolean h condition r)) rs
       then Inr (filter (\<lambda>r. evaluateBoolean h condition r = Inr True) rs)
       else Inl (TransformError ''filter expression error''))" for rs
    by (induction rs) (auto simp: wrap_error_def rbind_def split: sum.splits)
  then show ?thesis by (simp add: filter_records_def)
qed

lemma map_one_fields_get:
  "map_one_fields h rc out ms = Inr out' \<Longrightarrow>
     prop_get out' k =
       (case map_of (rev ms) k of
          None \<Rightarrow> prop_get out k
        | Some ex \<Rightarrow> (case evaluate h ex rc of Inr v \<Rightarrow> v | Inl _ \<Rightarrow> VUndef))"
proof (induction h rc out ms rule: map_one_fields.induct)
  case (2 h rc out f ex ms)
  then obtain v where v: "evaluate h ex rc = Inr v"
    and rec: "map_one_fields h rc (obj_set out f v) ms = Inr out'"
    by (auto simp: rbind_Inr_iff wrap_error_def split: sum.splits)
  from "2.IH" [OF _ rec] v show ?case
    by (auto simp: map_add_def wrap_error_def split: option.splits)
qed simp

text \<open>
  \<^verbatim>\<open>mapFields\<close> keeps the number and order of records; in each result a mapped
  field holds the value of its expression on the \<^emph>\<open>original\<close> record, and every other field is
  unchanged.
\<close>

theorem mapFields_spec:
  assumes "mapFields h records mappings = Inr out" "i < length records" "distinct (map fst mappings)"
  shows "length out = length records
    \<and> prop_get (out ! i) k =
        (case map_of mappings k of
           None \<Rightarrow> prop_get (records ! i) k
         | Some ex \<Rightarrow> (case evaluate h ex (records ! i) of Inr v \<Rightarrow> v | Inl _ \<Rightarrow> VUndef))"
proof -
  from assms(1) have r: "rmap (map_one h mappings) records = Inr out"
    by (auto simp: mapFields_def split: if_splits)
  have "map_of (rev mappings) = map_of mappings"
    using assms(3) by (intro map_of_eqI) (auto simp: rev_map [symmetric] map_of_eq_Some_iff)
  with rmap_Inr_nth [OF r assms(2)] rmap_Inr_length [OF r] show ?thesis
    by (auto simp: map_one_def dest!: map_one_fields_get [where k = k])
qed

theorem mapFields_spec_witness:
  "\<forall>h. mapFields h [[(''a'', VNull)]] [(''b'', ''a'')] = Inr [[(''a'', VNull), (''b'', VNull)]]
     \<and> prop_get [(''a'', VNull), (''b'', VNull)] ''b'' = VNull"
proof
  fix h
  let ?out = "[(''a'', VNull), (''b'', VNull)]"
  have p: "parse_source ''a'' = Inr (AField [''a''])" by code_simp
  then have m: "mapFields h [[(''a'', VNull)]] [(''b'', ''a'')] = Inr [?out]"
    by (simp add: mapFields_def map_one_def evaluate_def wrap_error_def resolveField_def
        prop_get_def obj_set_def key_before_def is_index_key_def is_digit_def)
  from mapFields_spec [OF m, of 0 "''b''"] m p
  show "mapFields h [[(''a'', VNull)]] [(''b'', ''a'')] = Inr [?out] \<and> prop_get ?out ''b'' = VNull"
    by (simp add: evaluate_def resolveField_def prop_get_def)
qed

section \<open>Deduplication and aggregation\<close>

lemma dedup_loop_snoc:
  "dedup_loop key st seen (xs @ [x]) =
     (let seen' = dedup_loop key st seen xs
      in if st = First \<and> dict_has seen' (key x) then seen' else map_set seen' (key x) x)"
  by (induction xs arbitrary: seen) (cases st; simp add: Let_def)+

text \<open>The record a strategy keeps of the records sharing a key.\<close>

definition pick :: "dedup_strategy \<Rightarrow> 'a list \<Rightarrow> 'a" where
  "pick st xs = (if st = First then hd xs else last xs)"

lemma filter_key_nonempty: "key x \<in> key ` set xs \<Longrightarrow> filter (\<lambda>y. key y = key x) xs \<noteq> []"
  by (auto simp: filter_empty_conv)

lemma dedup_loop_spec:
  "dedup_loop key st [] xs = map (\<lambda>k. (k, pick st (filter (\<lambda>x. key x = k) xs))) (firsts (map key xs))"
proof (induction xs rule: rev_induct)
  case (snoc x xs)
  let ?k = "key x" and ?ks = "firsts (map key xs)"
  let ?f = "\<lambda>xs k. pick st (filter (\<lambda>x. key x = k) xs)"
  show ?case
  proof (cases "st = First \<and> ?k \<in> key ` set xs")
    case True
    then have "?f (xs @ [x]) j = ?f xs j" for j
      using filter_key_nonempty [of key x xs] by (auto simp: pick_def)
    then show ?thesis using True snoc.IH
      by (simp add: dedup_loop_snoc Let_def firsts_snoc image_image del: filter_append)
  next
    case False
    then have "?f (xs @ [x]) ?k = x"
      by (auto simp: pick_def hd_append filter_empty_conv image_iff)
    with False have "dedup_loop key st [] (xs @ [x]) = map_set (map (\<lambda>j. (j, ?f xs j)) ?ks) ?k (?f (xs @ [x]) ?k)"
      by (auto simp: dedup_loop_snoc snoc Let_def o_def)
    also have "\<dots> = map (\<lambda>j. (j, ?f (xs @ [x]) j)) (if ?k \<in> set ?ks then ?ks else ?ks @ [?k])"
      by (rule map_set_tabulate) auto
    finally show ?thesis by (simp add: firsts_snoc)
  qed
qed simp

text \<open>
  \<^verbatim>\<open>dedup\<close> returns one record per distinct composite key, in order of the keys'
  first occurrence: the first record with that key under strategy \<^verbatim>\<open>first\<close>, the last one
  under \<^verbatim>\<open>last\<close>; without key fields it throws.
\<close>

theorem dedup_spec:
  "dedup records keyFields strategy =
     (if keyFields = [] then Inl (TransformError ''dedup requires at least one keyField.'')
      else Inr (map (\<lambda>k. pick strategy (filter (\<lambda>r. buildCompositeKey r keyFields = k) records))
                  (firsts (map (\<lambda>r. buildCompositeKey r keyFields) records))))"
  by (simp add: dedup_def dedup_loop_spec o_def)

text \<open>
  \<^verbatim>\<open>aggregate\<close> partitions the records by group key: one row per distinct key in
  order of first occurrence, each computed from exactly the records of its group, and the
  group sizes add up to the number of records.
\<close>

theorem aggregate_spec:
  "aggregate records groupBy aggs =
     (if aggs = [] then Inl (TransformError ''aggregate requires at least one aggregation.'')
      else Inr (map (\<lambda>k. let g = filter (\<lambda>r. group_key groupBy r = k) records
                         in aggregate_row aggs (group_record groupBy (hd g)) g)
                  (firsts (map (group_key groupBy) records))))
   \<and> sum_list (map (\<lambda>k. length (filter (\<lambda>r. group_key groupBy r = k) records))
                 (firsts (map (group_key groupBy) records))) = length records"
  by (simp add: aggregate_def group_loop_spec sum_list_group_lengths Let_def)

section \<open>Joins\<close>

definition matches :: "(string \<times> DataRecord) list \<Rightarrow> string \<Rightarrow> DataRecord list" where
  "matches rights k = map snd (filter (\<lambda>p. fst p = k) rights)"

lemma matches_empty: "matches rights k = [] \<longleftrightarrow> k \<notin> fst ` set rights"
  by (auto simp: matches_def filter_empty_conv)

text \<open>The join as nested loops over the keyed records, without an index.\<close>

definition nested_join ::
  "JoinType \<Rightarrow> (string \<times> DataRecord) list \<Rightarrow> (string \<times> DataRecord) list \<Rightarrow> DataRecord list" where
  "nested_join jt lefts rights =
     concat (map (\<lambda>(k, l).
       if matches rights k = [] then (if jt = LeftJoin \<or> jt = FullJoin then [l] else [])
       else map (mergeRecords l) (matches rights k)) lefts)
     @ (if jt = RightJoin \<or> jt = FullJoin
        then concat (map (matches rights) (filter (\<lambda>k. k \<notin> fst ` set lefts) (firsts (map fst rights))))
        else [])"

lemma join_left_matches:
  "join_left jt (group_loop fst [] rights) (k, l) =
     (if matches rights k = [] then (if jt = LeftJoin \<or> jt = FullJoin then [l] else [])
      else map (mergeRecords l) (matches rights k))"
proof (cases "k \<in> fst ` set rights")
  case True
  then have "filter (\<lambda>p. fst p = k) rights \<noteq> []" by (auto simp: filter_empty_conv)
  with True show ?thesis
    by (auto simp: join_left_def group_loop_spec map_of_map_pair matches_def split: if_splits)
next
  case False
  then show ?thesis
    by (auto simp: join_left_def group_loop_spec map_of_map_pair matches_empty)
qed

lemma concat_map_if: "concat (map (\<lambda>k. if P k then [] else f k) ks) = concat (map f (filter (\<lambda>k. \<not> P k) ks))"
  by (induction ks) auto

lemma join_unmatched_matches:
  "join_unmatched jt (group_loop fst [] rights) lefts =
     (if jt = RightJoin \<or> jt = FullJoin
      then concat (map (matches rights) (filter (\<lambda>k. k \<notin> fst ` set lefts) (firsts (map fst rights))))
      else [])"
  by (simp add: join_unmatched_def group_loop_spec o_def concat_map_if matches_def [abs_def])

text \<open>
  Property C30: the indexed \<^verbatim>\<open>join\<close> computes the nested-loop join: for every join type the
  same merged pairs in the same order, unmatched left records kept by left and full joins,
  unmatched right records appended by right and full joins; it fails only when a join key
  cannot be turned into text.
\<close>

theorem join_records_nested_loop:
  "join_records leftRecords rightRecords c =
     rbind (keyed_by (rightKey c) rightRecords) (\<lambda>rights.
     rbind (keyed_by (leftKey c) leftRecords) (\<lambda>lefts.
       Inr (nested_join (joinType c) lefts rights)))"
proof -
  have "join_left (joinType c) (group_loop fst [] rights)
      = (\<lambda>(k, l).
       if matches rights k = [] then (if joinType c = LeftJoin \<or> joinType c = FullJoin then [l] else [])
       else map (mergeRecords l) (matches rights k))" for rights
    by (auto simp: fun_eq_iff join_left_matches)
  then show ?thesis
    by (simp add: join_records_def nested_join_def join_unmatched_matches Let_def)
qed

lemma mergeRecords_fold_get:
  assumes "map_of out k = Some v" "\<And>k'. k \<noteq> ''right_'' @ k'"
  shows "map_of (fold (\<lambda>(k, v) out. if key_in k out then obj_set out (''right_'' @ k) v
           else obj_set out k v) ps out) k = Some v"
  using assms(1)
proof (induction ps arbitrary: out)
  case (Cons p ps)
  obtain j w where p: "p = (j, w)" by (cases p)
  have "k \<noteq> j" if "\<not> key_in j out"
    using that Cons.prems by (auto simp: key_in_def map_of_eq_None_iff [symmetric])
  with Cons assms(2) [of j] show ?case by (auto simp: p)
qed simp

text \<open>
  Merging never changes a field of the left record unless its name starts with
  \<^verbatim>\<open>right_\<close>: a conflicting right field is stored under a prefixed name.
\<close>

theorem mergeRecords_keeps_left:
  assumes "map_of left k = Some v" "\<And>k'. k \<noteq> ''right_'' @ k'"
  shows "map_of (mergeRecords left right) k = Some v"
  unfolding mergeRecords_def by (rule mergeRecords_fold_get [OF assms])

theorem mergeRecords_keeps_left_witness:
  "map_of (mergeRecords [(''id'', VNum (jint 1))] [(''id'', VNum (jint 2))]) ''id'' = Some (VNum (jint 1))
   \<and> map_of (mergeRecords [(''id'', VNum (jint 1))] [(''id'', VNum (jint 2))]) ''right_id''
       = Some (VNum (jint 2))"
proof -
  have "map_of [(''id'', VNum (jint 1))] ''id'' = Some (VNum (jint 1))" by simp
  from mergeRecords_keeps_left [OF this, of "[(''id'', VNum (jint 2))]"] show ?thesis
    by (simp add: mergeRecords_def key_in_def)
qed

text \<open>
  The prefix can itself collide.  A left field already named \<^verbatim>\<open>right_id\<close> is
  overwritten when both records also have \<^verbatim>\<open>id\<close>.
\<close>

lemma mergeRecords_prefix_collision:
  "map_of (mergeRecords [(''id'', VNull), (''right_id'', VStr ''left value'')]
             [(''id'', VStr ''r'')]) ''right_id'' = Some (VStr ''r'')"
  by (simp add: mergeRecords_def key_in_def)

section \<open>Sorting\<close>

text \<open>A comparator that orders by a key, on the elements that satisfy \<open>P\<close>.\<close>

definition compares_by :: "('a \<Rightarrow> bool) \<Rightarrow> ('a \<Rightarrow> 'a \<Rightarrow> jsnum res) \<Rightarrow> ('a \<Rightarrow> 'k::linorder) \<Rightarrow> bool" where
  "compares_by P cmp key \<longleftrightarrow>
     (\<forall>a b. P a \<longrightarrow> P b \<longrightarrow> (\<exists>c. cmp a b = Inr c \<and> (jlt (jint 0) c \<longleftrightarrow> key b < key a)))"

lemma sort_insert_mset: "sort_insert cmp x ys = Inr zs \<Longrightarrow> mset zs = add_mset x (mset ys)"
  by (induction ys arbitrary: zs) (auto simp: rbind_Inr_iff split: if_splits)

lemma sort_loop_mset: "sort_loop cmp acc xs = Inr zs \<Longrightarrow> mset zs = mset acc + mset xs"
  by (induction xs arbitrary: acc) (auto simp: rbind_Inr_iff dest: sort_insert_mset)

lemma sort_insert_by:
  assumes "compares_by P cmp key" "P x" "\<forall>y \<in> set ys. P y" "sorted (map key ys)"
  shows "\<exists>zs. sort_insert cmp x ys = Inr zs \<and> sorted (map key zs) \<and>
     filter (\<lambda>y. key y = k) zs = filter (\<lambda>y. key y = k) (ys @ [x])"
  using assms(3,4)
proof (induction ys)
  case (Cons y ys)
  with assms obtain c where c: "cmp y x = Inr c" "jlt (jint 0) c \<longleftrightarrow> key x < key y"
    unfolding compares_by_def by (meson list.set_intros(1))
  show ?case
  proof (cases "key x < key y")
    case True
    with Cons.prems have "filter (\<lambda>z. key z = key x) (y # ys) = []"
      by (auto simp: filter_empty_conv)
    then have "filter (\<lambda>z. key z = k) (x # y # ys) = filter (\<lambda>z. key z = k) (y # ys @ [x])"
      by (cases "key x = k") auto
    with True Cons.prems c show ?thesis by auto
  next
    case False
    from Cons obtain zs where zs: "sort_insert cmp x ys = Inr zs" "sorted (map key zs)"
      "filter (\<lambda>y. key y = k) zs = filter (\<lambda>y. key y = k) (ys @ [x])" by auto
    have "set zs = insert x (set ys)"
      using sort_insert_mset [OF zs(1)] by (metis set_mset_add_mset_insert set_mset_mset)
    with False Cons.prems zs c show ?thesis by auto
  qed
qed simp

lemma sort_loop_by:
  assumes "compares_by P cmp key" "\<forall>x \<in> set xs. P x" "\<forall>y \<in> set acc. P y" "sorted (map key acc)"
  shows "\<exists>zs. sort_loop cmp acc xs = Inr zs \<and> sorted (map key zs) \<and>
     filter (\<lambda>y. key y = k) zs = filter (\<lambda>y. key y = k) (acc @ xs)"
  using assms(2-4)
proof (induction xs arbitrary: acc)
  case (Cons x xs)
  then obtain zs where zs: "sort_insert cmp x acc = Inr zs" "sorted (map key zs)"
    "filter (\<lambda>y. key y = k) zs = filter (\<lambda>y. key y = k) (acc @ [x])"
    using sort_insert_by [OF assms(1)] by (metis list.set_intros(1))
  have "set zs = insert x (set acc)"
    using sort_insert_mset [OF zs(1)] by (metis set_mset_add_mset_insert set_mset_mset)
  with Cons.IH [of zs] Cons.prems zs show ?case by auto
qed simp

lemma sort_loop_sort_key:
  assumes "compares_by P cmp key" "\<forall>x \<in> set xs. P x"
  shows "sort_loop cmp [] xs = Inr (sort_key key xs)"
proof -
  from sort_loop_by [OF assms, of "[]"] obtain zs where
    zs: "sort_loop cmp [] xs = Inr zs" "sorted (map key zs)" by auto
  from sort_loop_by [OF assms, of "[]"] zs(1)
  have "filter (\<lambda>y. key y = k) zs = filter (\<lambda>y. key y = k) xs" for k by fastforce
  then have "filter (\<lambda>y. key a = key y) zs = filter (\<lambda>y. key a = key y) xs" for a
    by (simp only: eq_commute [of "key a"])
  moreover have "mset zs = mset xs" using sort_loop_mset [OF zs(1)] by simp
  ultimately have "sort_key key xs = zs"
    using zs(2) by (intro properties_for_sort_key) auto
  with zs(1) show ?thesis by simp
qed

text \<open>
  The sort key of a record: nulls after everything else whatever the direction, numbers by
  value, reversed for a descending field.
\<close>

definition field_rank :: "sort_direction \<Rightarrow> jsval \<Rightarrow> nat \<times> rat" where
  "field_rank d v =
     (case v of VNum (Fin x) \<Rightarrow> (0, if d = Asc then x else - x) | _ \<Rightarrow> (1, 0))"

definition record_rank :: "(string \<times> sort_direction) list \<Rightarrow> DataRecord \<Rightarrow> (nat \<times> rat) list" where
  "record_rank fs r = map (\<lambda>(f, d). field_rank d (prop_get r f)) fs"

text \<open>Null, missing, or an integer small enough for exact subtraction.\<close>

definition rankable :: "jsval \<Rightarrow> bool" where
  "rankable v \<longleftrightarrow> is_nullish v \<or> (\<exists>n. v = VNum (jint n) \<and> \<bar>n\<bar> \<le> 2 ^ 52)"

lemma rankable_cases:
  assumes "rankable v"
  obtains "v = VNull" | "v = VUndef" | n where "v = VNum (jint n)" "\<bar>n\<bar> \<le> 2 ^ 52"
  using assms by (auto simp: rankable_def is_nullish_def)

lemma jsub_small:
  assumes "\<bar>m\<bar> \<le> 2 ^ 52" "\<bar>n\<bar> \<le> 2 ^ 52"
  shows "jsub (jint m) (jint n) = jint (m - n)"
proof -
  from assms have "\<bar>m - n\<bar> \<le> 2 ^ 53" by simp
  then have "fl (of_int (m - n)) = Fin (of_int (m - n))" by (rule fl_int)
  then show ?thesis by (simp add: jint_def jsub_def)
qed

lemma jint_order [simp]:
  "jlt (jint m) (jint n) = (m < n)" "jeq (jint m) (jint n) = (m = n)" "jneg (jint n) = jint (- n)"
  by (simp_all add: jint_def jeq_def)

lemma rank_simps:
  "field_rank d (VNum (jint n)) = (0, of_int (if d = Asc then n else - n))"
  "field_rank d VNull = (1, 0)" "field_rank d VUndef = (1, 0)"
  "record_rank ((f, d) # fs) r = field_rank d (prop_get r f) # record_rank fs r"
  by (simp_all add: field_rank_def record_rank_def jint_def)

lemma sort_compare_ranks:
  assumes "\<forall>(f, d) \<in> set fs. rankable (prop_get a f) \<and> rankable (prop_get b f)"
  shows "\<exists>c. sort_compare h fs a b = Inr c \<and> (jlt (jint 0) c \<longleftrightarrow> record_rank fs b < record_rank fs a)"
  using assms
proof (induction fs)
  case Nil
  then show ?case by (simp add: jint_def record_rank_def)
next
  case (Cons p fs)
  obtain f d where p: "p = (f, d)" by (cases p)
  with Cons have ih: "\<exists>c. sort_compare h fs a b = Inr c
      \<and> (jlt (jint 0) c \<longleftrightarrow> record_rank fs b < record_rank fs a)"
    and ra: "rankable (prop_get a f)" and rb: "rankable (prop_get b f)" by auto
  from ra rb show ?case
    by (elim rankable_cases)
      (use ih in \<open>auto simp: p is_nullish_def jsub_small rank_simps\<close>)
qed

text \<open>
  On records whose sort fields hold integers (or are null or missing) the
  multi-field \<^verbatim>\<open>sort\<close> is the stable sort by the lexicographic rank of the fields: nulls last,
  ascending or descending per field, ties left in input order.
\<close>

theorem sort_records_stable:
  assumes "fs \<noteq> []" "\<forall>r \<in> set records. \<forall>(f, d) \<in> set fs. rankable (prop_get r f)"
  shows "sort_records h records fs = Inr (sort_key (record_rank fs) records)"
proof -
  let ?P = "\<lambda>r. \<forall>(f, d) \<in> set fs. rankable (prop_get r f)"
  have "compares_by ?P (sort_compare h fs) (record_rank fs)"
    unfolding compares_by_def using sort_compare_ranks [of fs] by fast
  from sort_loop_sort_key [OF this assms(2)] assms(1) show ?thesis
    by (simp add: sort_records_def)
qed

theorem sort_records_stable_witness:
  "\<forall>h. sort_records h [[(''n'', VNull)], [(''n'', VNum (jint 1))], [(''n'', VNum (jint 5))]] [(''n'', Desc)]
    = Inr [[(''n'', VNum (jint 5))], [(''n'', VNum (jint 1))], [(''n'', VNull)]]"
proof
  fix h
  let ?rs = "[[(''n'', VNull)], [(''n'', VNum (jint 1))], [(''n'', VNum (jint 5))]]"
  have "\<forall>r \<in> set ?rs. \<forall>(f, d) \<in> set [(''n'', Desc)]. rankable (prop_get r f)"
    by (auto simp: prop_get_def rankable_def is_nullish_def)
  from sort_records_stable [OF _ this, of h]
  show "sort_records h ?rs [(''n'', Desc)]
    = Inr [[(''n'', VNum (jint 5))], [(''n'', VNum (jint 1))], [(''n'', VNull)]]"
    by (simp add: record_rank_def field_rank_def prop_get_def jint_def)
qed

text \<open>
  Whatever the comparator answers, a successful \<^verbatim>\<open>sort\<close> returns a permutation of
  its input: no record is lost or duplicated.
\<close>

theorem sort_records_permutes:
  "sort_records h records fs = Inr out \<Longrightarrow> mset out = mset records"
  by (auto simp: sort_records_def split: if_splits dest: sort_loop_mset)

theorem sort_records_permutes_witness:
  "\<forall>h. \<exists>out. sort_records h [[(''n'', VNull)], [(''n'', VNum (jint 5))]] [(''n'', Asc)] = Inr out
     \<and> mset out = {#[(''n'', VNull)], [(''n'', VNum (jint 5))]#}"
proof
  fix h
  let ?rs = "[[(''n'', VNull)], [(''n'', VNum (jint 5))]]"
  have s: "sort_records h ?rs [(''n'', Asc)] = Inr (rev ?rs)"
    by (simp add: sort_records_def prop_get_def is_nullish_def jint_def)
  from sort_records_permutes [OF s] s
  show "\<exists>out. sort_records h ?rs [(''n'', Asc)] = Inr out \<and> mset out = {#[(''n'', VNull)], [(''n'', VNum (jint 5))]#}"
    by simp
qed

text \<open>
  With mixed types the comparator is not consistent: numbers compare by value but a
  number and a string compare as text, so with any text order that has \<open>10 < 5 < 9\<close> as
  strings the three values below form a cycle.
\<close>

lemma sort_compare_cycle:
  assumes "host_localeCompare h (num_to_string (jint 10)) ''5'' = -1"
    "host_localeCompare h ''5'' (num_to_string (jint 9)) = -1"
  shows "sort_compare h [(''n'', Asc)] [(''n'', VNum (jint 10))] [(''n'', VStr ''5'')] = Inr (jint (-1))
    \<and> sort_compare h [(''n'', Asc)] [(''n'', VStr ''5'')] [(''n'', VNum (jint 9))] = Inr (jint (-1))
    \<and> sort_compare h [(''n'', Asc)] [(''n'', VNum (jint 9))] [(''n'', VNum (jint 10))] = Inr (jint (-1))"
  using assms by (simp add: prop_get_def is_nullish_def jsub_small)

end
