(* ===== verification/SsrfBlocklist.thy ===== *)
theory SsrfBlocklist
  imports JsValue
begin

text \<open>
  The SSRF block list of \<^verbatim>\<open>services/pipeline/src/services/ssrf-blocklist.ts\<close>.  The regular
  expressions use literals, \<^verbatim>\<open>\d+\<close>, groups, alternatives, options and the anchors \<^verbatim>\<open>^\<close> and
  \<^verbatim>\<open>$\<close>; the flag \<^verbatim>\<open>i\<close> makes the letters of a literal match either case.  A pattern is a list
  of atoms, and matching returns every possible rest of the input, so backtracking is the
  list of alternatives.
\<close>

datatype atom =
    Lit string
  | LitI string
  | Digits
  | OneOf "string list"
  | OptPort
  | SlashOrEnd

text \<open>
  \<^verbatim>\<open>OptPort\<close> is \<^verbatim>\<open>(:\d+)?\<close>, \<^verbatim>\<open>SlashOrEnd\<close> is \<^verbatim>\<open>(\/|$)\<close>, \<^verbatim>\<open>OneOf\<close> a group of literal
  alternatives.
\<close>

definition after_prefix :: "string \<Rightarrow> string \<Rightarrow> string list" where
  "after_prefix p s = (if take (length p) s = p then [drop (length p) s] else [])"

text \<open>Every rest after one or more digits: \<^verbatim>\<open>\d+\<close> may stop early.\<close>

fun after_digits :: "string \<Rightarrow> string list" where
  "after_digits [] = []"
| "after_digits (c # s) = (if is_digit c then s # after_digits s else [])"

fun match_atom :: "atom \<Rightarrow> string \<Rightarrow> string list" where
  "match_atom (Lit p) s = after_prefix p s"
| "match_atom (LitI p) s =
     (if js_toLowerCase (take (length p) s) = p then [drop (length p) s] else [])"
| "match_atom Digits s = after_digits s"
| "match_atom (OneOf ps) s = concat (map (\<lambda>p. after_prefix p s) ps)"
| "match_atom OptPort s =
     concat (map after_digits (after_prefix '':'' s)) @ [s]"
| "match_atom SlashOrEnd s = (if s = [] then [[]] else after_prefix ''/'' s)"

fun match_atoms :: "atom list \<Rightarrow> string \<Rightarrow> string list" where
  "match_atoms [] s = [s]"
| "match_atoms (a # as) s = concat (map (match_atoms as) (match_atom a s))"

datatype pattern = Pattern bool "atom list"

text \<open>\<^verbatim>\<open>https?:\/\/\<close> at the start of the pattern, with or without the flag \<^verbatim>\<open>i\<close>.\<close>

definition match_scheme :: "bool \<Rightarrow> string \<Rightarrow> string list" where
  "match_scheme ci s =
     match_atom (if ci then LitI ''https://'' else Lit ''https://'') s
     @ match_atom (if ci then LitI ''http://'' else Lit ''http://'') s"

fun test_pattern :: "pattern \<Rightarrow> string \<Rightarrow> bool" where
  "test_pattern (Pattern ci as) url =
     list_ex (\<lambda>r. match_atoms as r \<noteq> []) (match_scheme ci url)"

definition dotted_rest :: "atom list" where
  "dotted_rest = [Lit ''.'', Digits, Lit ''.'', Digits, OptPort, SlashOrEnd]"

definition SSRF_BLOCKED_PATTERNS :: "pattern list" where
  "SSRF_BLOCKED_PATTERNS =
     [Pattern True [LitI ''localhost'', OptPort, SlashOrEnd],
      Pattern False ([Lit ''127.'', Digits] @ dotted_rest),
      Pattern True [LitI ''[::1]'', OptPort, SlashOrEnd],
      Pattern False [Lit ''0.0.0.0'', OptPort, SlashOrEnd],
      Pattern False ([Lit ''10.'', Digits] @ dotted_rest),
      Pattern False ([Lit ''172.'', OneOf [''16'', ''17'', ''18'', ''19'', ''20'', ''21'', ''22'', ''23'', ''24'',
         ''25'', ''26'', ''27'', ''28'', ''29'', ''30'', ''31'']] @ dotted_rest),
      Pattern False ([Lit ''192.168''] @ dotted_rest),
      Pattern False ([Lit ''169.254''] @ dotted_rest),
      Pattern True [LitI ''[fe80:''],
      Pattern True [LitI ''metadata.google.internal'', OptPort, SlashOrEnd],
      Pattern False [Lit ''100.100.100.200'', OptPort, SlashOrEnd]]"

definition isUrlSsrfBlocked :: "string \<Rightarrow> bool" where
  "isUrlSsrfBlocked url \<longleftrightarrow> list_ex (\<lambda>p. test_pattern p url) SSRF_BLOCKED_PATTERNS"

section \<open>What is blocked\<close>

definition digits :: "string \<Rightarrow> bool" where
  "digits d \<longleftrightarrow> d \<noteq> [] \<and> list_all is_digit d"

text \<open>The text after the host: an optional port, then the end or a path.\<close>

definition host_tail :: "string \<Rightarrow> bool" where
  "host_tail t \<longleftrightarrow>
     (\<exists>port r. t = port @ r \<and> (port = [] \<or> (\<exists>d. digits d \<and> port = '':'' @ d)) \<and> (r = [] \<or> hd r = CHR ''/''))"

definition private_quad :: "string \<Rightarrow> string \<Rightarrow> bool" where
  "private_quad a b \<longleftrightarrow>
     a = ''127'' \<or> a = ''10'' \<or> (a = ''192'' \<and> b = ''168'') \<or> (a = ''169'' \<and> b = ''254'')
     \<or> (a = ''172'' \<and> b \<in> {''16'', ''17'', ''18'', ''19'', ''20'', ''21'', ''22'', ''23'', ''24'',
         ''25'', ''26'', ''27'', ''28'', ''29'', ''30'', ''31''})"

lemma after_prefix_append [simp]: "after_prefix p (p @ s) = [s]"
  by (simp add: after_prefix_def)

lemma after_digits_mem: "digits d \<Longrightarrow> s \<in> set (after_digits (d @ s))"
proof (induction d)
  case (Cons c d)
  then show ?case by (cases d) (auto simp: digits_def)
qed (simp add: digits_def)

lemma match_atoms_step: "r \<in> set (match_atom a s) \<Longrightarrow> match_atoms as r \<noteq> [] \<Longrightarrow> match_atoms (a # as) s \<noteq> []"
  by auto

lemma match_tail:
  assumes "host_tail t"
  shows "match_atoms [OptPort, SlashOrEnd] t \<noteq> []"
proof -
  from assms obtain port r where t: "t = port @ r" and
    p: "port = [] \<or> (\<exists>d. digits d \<and> port = '':'' @ d)" and r: "r = [] \<or> hd r = CHR ''/''"
    by (auto simp: host_tail_def)
  have "match_atoms [SlashOrEnd] r \<noteq> []"
    using r by (cases r) (auto simp: after_prefix_def)
  moreover have "r \<in> set (match_atom OptPort t)"
    using p t after_digits_mem [of _ r] by (auto simp: after_prefix_def)
  ultimately show ?thesis by (rule match_atoms_step [rotated])
qed

lemma match_lit: "match_atoms as s \<noteq> [] \<Longrightarrow> match_atoms (Lit p # as) (p @ s) \<noteq> []"
  by simp

lemma match_digits: "digits d \<Longrightarrow> match_atoms as s \<noteq> [] \<Longrightarrow> match_atoms (Digits # as) (d @ s) \<noteq> []"
  using match_atoms_step [of s Digits "d @ s"] after_digits_mem by simp

lemma match_oneof: "p \<in> set ps \<Longrightarrow> match_atoms as s \<noteq> [] \<Longrightarrow> match_atoms (OneOf ps # as) (p @ s) \<noteq> []"
  by (rule match_atoms_step [of s]) (auto intro!: bexI [of _ p])

lemma match_dotted_rest:
  "digits c \<Longrightarrow> digits d \<Longrightarrow> host_tail t \<Longrightarrow>
     match_atoms dotted_rest (''.'' @ c @ ''.'' @ d @ t) \<noteq> []"
  unfolding dotted_rest_def by (intro match_lit match_digits match_tail)

lemma test_pattern_http:
  assumes "s = ''http://'' \<or> s = ''https://''" "match_atoms as r \<noteq> []"
  shows "test_pattern (Pattern False as) (s @ r)"
  using assms by (auto simp: match_scheme_def after_prefix_def)

text \<open>
  Every URL whose host is a dotted quad of a loopback, private (RFC 1918) or
  link-local range is blocked, for \<^verbatim>\<open>http\<close> and \<^verbatim>\<open>https\<close>, with or without a port, whatever path
  follows.
\<close>

theorem private_quad_blocked:
  assumes "s = ''http://'' \<or> s = ''https://''" "private_quad a b"
    and "digits b" "digits c" "digits d" "host_tail t"
  shows "isUrlSsrfBlocked (s @ a @ ''.'' @ b @ ''.'' @ c @ ''.'' @ d @ t)"
proof -
  have rest: "match_atoms dotted_rest (''.'' @ c @ ''.'' @ d @ t) \<noteq> []"
    using assms by (intro match_dotted_rest)
  let ?r = "b @ ''.'' @ c @ ''.'' @ d @ t"
  have "\<exists>p \<in> set SSRF_BLOCKED_PATTERNS. test_pattern p (s @ a @ ''.'' @ ?r)"
    using assms(2) unfolding private_quad_def
  proof (elim disjE conjE)
    assume "a = ''127''"
    then have "test_pattern (Pattern False ([Lit ''127.'', Digits] @ dotted_rest)) (s @ a @ ''.'' @ ?r)"
      using test_pattern_http [OF assms(1) match_lit [OF match_digits [OF assms(3) rest], of "''127.''"]]
      by simp
    then show ?thesis unfolding SSRF_BLOCKED_PATTERNS_def by (meson list.set_intros)
  next
    assume "a = ''10''"
    then have "test_pattern (Pattern False ([Lit ''10.'', Digits] @ dotted_rest)) (s @ a @ ''.'' @ ?r)"
      using test_pattern_http [OF assms(1) match_lit [OF match_digits [OF assms(3) rest], of "''10.''"]]
      by simp
    then show ?thesis unfolding SSRF_BLOCKED_PATTERNS_def by (meson list.set_intros)
  next
    assume "a = ''192''" "b = ''168''"
    then have "test_pattern (Pattern False ([Lit ''192.168''] @ dotted_rest)) (s @ a @ ''.'' @ ?r)"
      using test_pattern_http [OF assms(1) match_lit [OF rest, of "''192.168''"]] by simp
    then show ?thesis unfolding SSRF_BLOCKED_PATTERNS_def by (meson list.set_intros)
  next
    assume "a = ''169''" "b = ''254''"
    then have "test_pattern (Pattern False ([Lit ''169.254''] @ dotted_rest)) (s @ a @ ''.'' @ ?r)"
      using test_pattern_http [OF assms(1) match_lit [OF rest, of "''169.254''"]] by simp
    then show ?thesis unfolding SSRF_BLOCKED_PATTERNS_def by (meson list.set_intros)
  next
    let ?bs = "[''16'', ''17'', ''18'', ''19'', ''20'', ''21'', ''22'', ''23'', ''24'',
         ''25'', ''26'', ''27'', ''28'', ''29'', ''30'', ''31'']"
    assume a: "a = ''172''" and b: "b \<in> {''16'', ''17'', ''18'', ''19'', ''20'', ''21'', ''22'', ''23'', ''24'',
         ''25'', ''26'', ''27'', ''28'', ''29'', ''30'', ''31''}"
    then have "b \<in> set ?bs" by simp
    then have "test_pattern (Pattern False ([Lit ''172.'', OneOf ?bs] @ dotted_rest)) (s @ a @ ''.'' @ ?r)"
      using a test_pattern_http [OF assms(1) match_lit [OF match_oneof [OF _ rest], of b ?bs "''172.''"]]
      by simp
    then show ?thesis unfolding SSRF_BLOCKED_PATTERNS_def by (meson list.set_intros)
  qed
  then show ?thesis by (simp add: isUrlSsrfBlocked_def list_ex_iff)
qed

theorem private_quad_blocked_witness:
  "isUrlSsrfBlocked ''http://169.254.169.254/latest/meta-data''
   \<and> isUrlSsrfBlocked ''https://10.0.0.7:8443''"
proof -
  have d: "digits ''254''" "digits ''169''" "digits ''0''" "digits ''7''" "digits ''8443''"
    by (simp_all add: digits_def is_digit_def)
  have "host_tail ''/latest/meta-data''"
    unfolding host_tail_def by (rule exI [of _ "[]"]) simp
  then have 1: "isUrlSsrfBlocked (''http://'' @ ''169'' @ ''.'' @ ''254'' @ ''.'' @ ''169'' @ ''.'' @ ''254'' @ ''/latest/meta-data'')"
    by (intro private_quad_blocked) (simp_all add: private_quad_def d)
  have "host_tail '':8443''"
    unfolding host_tail_def using d(5) by (intro exI [of _ "'':8443''"] exI [of _ "[]"]) auto
  then have 2: "isUrlSsrfBlocked (''https://'' @ ''10'' @ ''.'' @ ''0'' @ ''.'' @ ''0'' @ ''.'' @ ''7'' @ '':8443'')"
    by (intro private_quad_blocked) (simp_all add: private_quad_def d)
  from 1 2 show ?thesis by simp
qed

text \<open>
  The tail must be a port, a path or the end: a query or a fragment directly after the host
  escapes every pattern, and so do user information and a trailing dot.
\<close>

lemma blocklist_gaps:
  "\<not> isUrlSsrfBlocked ''http://localhost?x''"
  "\<not> isUrlSsrfBlocked ''http://127.0.0.1?x''"
  "\<not> isUrlSsrfBlocked ''http://127.0.0.1#x''"
  "\<not> isUrlSsrfBlocked ''http://a@127.0.0.1/''"
  "\<not> isUrlSsrfBlocked ''http://localhost./''"
  by code_simp+

end
