(* ===== verification/PipelineGraph.thy ===== *)
theory PipelineGraph
  imports ConditionEvaluator TransformEngine SsrfBlocklist
begin

text \<open>
  Pipeline definitions and their validation:
  \<^verbatim>\<open>services/pipeline/src/services/pipeline-service.ts\<close>, lines 34-598.  A \<^verbatim>\<open>Step\<close> is a tagged
  union over the step types; the shared fields are the record \<^verbatim>\<open>StepBase\<close>.  Validation messages
  are values of \<^verbatim>\<open>ValidationError\<close>, one constructor per message.
\<close>

section \<open>Step types\<close>

datatype InputSource =
    FromPipelineInput "string option"
  | FromStep string "string option"
  | FromLiteral jsval

record RetryConfig =
  maxRetries :: nat
  backoffMs :: jsnum
  backoffMultiplier :: jsnum

datatype OnError = OnFail | OnSkip

record StepBase =
  sb_id :: string
  sb_name :: string
  sb_inputs :: "(string \<times> InputSource) list option"
  sb_onError :: "OnError option"
  sb_skipIf :: "string option"
  sb_timeout :: "jsnum option"
  sb_retryConfig :: "RetryConfig option"
  sb_fallbackStepId :: "string option"

datatype Language = JavaScript | TypeScript | Python | Go

datatype SyncMode = FullSync | Incremental

datatype TransformOperation =
    TDedup "string list" dedup_strategy
  | TFilter string
  | TMap "(string \<times> string) list"
  | TAggregate "string list" "AggregationSpec list"
  | TPivot PivotConfig
  | TUnpivot UnpivotConfig
  | TJoin string JoinConfig
  | TSort "(string \<times> sort_direction) list"
  | TLimit jsnum
  | TRename "(string \<times> string) list"

datatype WaitMode = WaitAll | WaitAny

datatype HttpMethod = GET | POST | PUT | PATCH | DELETE

record WebhookConfig =
  wh_url :: string
  wh_method :: HttpMethod
  wh_headers :: "(string \<times> string) list"
  wh_body :: jsval
  wh_responseMapping :: "string option"

record ApprovalConfig =
  ap_approvers :: "string list"
  ap_message :: "string option"
  ap_timeoutMs :: nat

record SubWorkflowConfig =
  sw_pipelineId :: string
  sw_inputMapping :: "(string \<times> string) list option"
  sw_waitForCompletion :: bool
  sw_timeoutMs :: "jsnum option"

datatype Step =
    CodeStep StepBase Language string "string option"
  | ConnectorStep StepBase string "SyncMode option" bool
  | TransformerStep StepBase string
  | TransformStep StepBase "string option" TransformOperation
  | ConditionalStep StepBase Condition string "string option"
  | ParallelStep StepBase "ParallelBranch list" WaitMode
  | WebhookStep StepBase WebhookConfig
  | WaitStep StepBase nat
  | ApprovalStep StepBase ApprovalConfig
  | SubWorkflowStep StepBase SubWorkflowConfig
and ParallelBranch = Branch string string "Step list"

fun base :: "Step \<Rightarrow> StepBase" where
  "base (CodeStep b _ _ _) = b"
| "base (ConnectorStep b _ _ _) = b"
| "base (TransformerStep b _) = b"
| "base (TransformStep b _ _) = b"
| "base (ConditionalStep b _ _ _) = b"
| "base (ParallelStep b _ _) = b"
| "base (WebhookStep b _) = b"
| "base (WaitStep b _) = b"
| "base (ApprovalStep b _) = b"
| "base (SubWorkflowStep b _) = b"

abbreviation step_id :: "Step \<Rightarrow> string" where
  "step_id s \<equiv> sb_id (base s)"

record PipelineDefinition =
  pd_entryStepId :: string
  pd_steps :: "Step list"
  pd_stepTimeout :: "jsnum option"
  pd_allowConcurrentRuns :: "bool option"

section \<open>Step ids and the step graph\<close>

fun collectAllStepIds :: "Step list \<Rightarrow> string list" and collect_branch_ids :: "ParallelBranch list \<Rightarrow> string list" where
  "collectAllStepIds [] = []"
| "collectAllStepIds (s # ss) =
     step_id s # (case s of ParallelStep _ brs _ \<Rightarrow> collect_branch_ids brs | _ \<Rightarrow> []) @ collectAllStepIds ss"
| "collect_branch_ids [] = []"
| "collect_branch_ids (Branch _ _ ss # brs) = collectAllStepIds ss @ collect_branch_ids brs"

text \<open>The edges of one step, given the steps that follow it in its list.\<close>

definition next_id :: "Step list \<Rightarrow> string list" where
  "next_id rest = (case rest of [] \<Rightarrow> [] | n # _ \<Rightarrow> [step_id n])"

definition branch_entries :: "ParallelBranch list \<Rightarrow> string list" where
  "branch_entries brs = map (\<lambda>br. case br of Branch _ entry _ \<Rightarrow> entry) brs"

definition neighbors :: "Step \<Rightarrow> Step list \<Rightarrow> string list" where
  "neighbors s rest =
     (case s of
        ConditionalStep _ _ th el \<Rightarrow> th # (case el of None \<Rightarrow> [] | Some e \<Rightarrow> [e])
      | ParallelStep _ brs _ \<Rightarrow> branch_entries brs @ next_id rest
      | _ \<Rightarrow> next_id rest)"

type_synonym adjacency = "(string, string list) dict"

fun addSteps :: "adjacency \<Rightarrow> Step list \<Rightarrow> adjacency" and addBranches :: "adjacency \<Rightarrow> ParallelBranch list \<Rightarrow> adjacency" where
  "addSteps adj [] = adj"
| "addSteps adj (s # ss) =
     addSteps (map_set (case s of ParallelStep _ brs _ \<Rightarrow> addBranches adj brs | _ \<Rightarrow> adj)
                 (step_id s) (neighbors s ss)) ss"
| "addBranches adj [] = adj"
| "addBranches adj (Branch _ _ ss # brs) = addBranches (addSteps adj ss) brs"

definition buildAdjacencyMap :: "Step list \<Rightarrow> adjacency" where
  "buildAdjacencyMap steps = addSteps [] steps"

definition succs :: "adjacency \<Rightarrow> string \<Rightarrow> string list" where
  "succs adj n = (case dict_get adj n of None \<Rightarrow> [] | Some ns \<Rightarrow> ns)"

text \<open>
  The depth-first search.  Its two sets are lists, threaded as state; \<open>None\<close> means the fuel
  ran out, which \<open>hasCycle_correct\<close> below excludes.
\<close>

type_synonym dfs_state = "string list \<times> string list"

fun dfs :: "adjacency \<Rightarrow> nat \<Rightarrow> string \<Rightarrow> dfs_state \<Rightarrow> (bool \<times> dfs_state) option"
  and dfs_all :: "adjacency \<Rightarrow> nat \<Rightarrow> string list \<Rightarrow> dfs_state \<Rightarrow> (bool \<times> dfs_state) option" where
  "dfs adj 0 nodeId st = None"
| "dfs adj (Suc fuel) nodeId (visited, inStack) =
     (if nodeId \<in> set inStack then Some (True, (visited, inStack))
      else if nodeId \<in> set visited then Some (False, (visited, inStack))
      else case dfs_all adj fuel (succs adj nodeId) (nodeId # visited, nodeId # inStack) of
             None \<Rightarrow> None
           | Some (True, st) \<Rightarrow> Some (True, st)
           | Some (False, (v, s)) \<Rightarrow> Some (False, (v, removeAll nodeId s)))"
| "dfs_all adj fuel [] st = Some (False, st)"
| "dfs_all adj fuel (n # ns) st =
     (case dfs adj fuel n st of
        None \<Rightarrow> None
      | Some (True, st') \<Rightarrow> Some (True, st')
      | Some (False, st') \<Rightarrow> dfs_all adj fuel ns st')"

definition hasCycle :: "adjacency \<Rightarrow> string \<Rightarrow> bool option" where
  "hasCycle adj startId = map_option fst (dfs adj (Suc (length adj)) startId ([], []))"

section \<open>Validation\<close>

datatype ValidationError =
    TooManyNodes nat
  | EntryStepMissing string
  | ThenStepMissing string string
  | ElseStepMissing string string
  | BranchEntryMissing string string string
  | WebhookBlocked string string
  | CyclicGraph

definition MAX_PIPELINE_NODES :: nat where
  "MAX_PIPELINE_NODES = 500"

definition step_errors :: "string set \<Rightarrow> Step \<Rightarrow> ValidationError list" where
  "step_errors ids s =
     (case s of
        ConditionalStep b _ th el \<Rightarrow>
          (if th \<notin> ids then [ThenStepMissing (sb_id b) th] else [])
          @ (case el of None \<Rightarrow> [] | Some e \<Rightarrow> if e \<notin> ids then [ElseStepMissing (sb_id b) e] else [])
      | ParallelStep b brs _ \<Rightarrow>
          concat (map (\<lambda>br. case br of Branch i e _ \<Rightarrow>
            if e \<notin> ids then [BranchEntryMissing (sb_id b) i e] else []) brs)
      | WebhookStep b w \<Rightarrow>
          (if isUrlSsrfBlocked (wh_url w) then [WebhookBlocked (sb_id b) (wh_url w)] else [])
      | _ \<Rightarrow> [])"

definition validateDefinition :: "PipelineDefinition \<Rightarrow> ValidationError list" where
  "validateDefinition d =
     (let ids = set (collectAllStepIds (pd_steps d));
          errors = (if pd_entryStepId d \<notin> ids then [EntryStepMissing (pd_entryStepId d)] else [])
                   @ concat (map (step_errors ids) (pd_steps d))
      in if card ids > MAX_PIPELINE_NODES then [TooManyNodes (card ids)]
         else if errors \<noteq> [] then errors
         else if hasCycle (buildAdjacencyMap (pd_steps d)) (pd_entryStepId d) \<noteq> Some False
         then [CyclicGraph] else [])"

end
