(* ===== verification/PipelineGraphProperties.thy ===== *)
theory PipelineGraphProperties
  imports PipelineGraph
begin

text \<open>
  The depth-first search is a sound, complete and terminating cycle check, and a definition
  without validation errors is a bounded graph whose entry and branch targets exist.
\<close>

definition edges :: "adjacency \<Rightarrow> (string \<times> string) set" where
  "edges adj = {(a, b). b \<in> set (succs adj a)}"

lemma edgesI [intro]: "b \<in> set (succs adj a) \<Longrightarrow> (a, b) \<in> edges adj"
  by (simp add: edges_def)

section \<open>The search state\<close>

lemma dfs_state:
  "dfs adj fuel n (v, s) = Some (False, (v', s')) \<Longrightarrow> s' = s \<and> set v \<subseteq> set v'"
  "dfs_all adj fuel ns (v, s) = Some (False, (v', s')) \<Longrightarrow> s' = s \<and> set v \<subseteq> set v'"
proof (induction adj fuel n "(v, s)" and adj fuel ns "(v, s)" arbitrary: v s v' s' and v s v' s'
    rule: dfs_dfs_all.induct)
  case (2 adj fuel n v s)
  then show ?case
    by (auto split: if_splits option.splits prod.splits bool.splits)
next
  case (4 adj fuel n ns)
  from "4.prems"(1) obtain v1 s1 where
    1: "dfs adj fuel n (v, s) = Some (False, (v1, s1))" and
    2: "dfs_all adj fuel ns (v1, s1) = Some (False, (v', s'))"
    by (auto split: option.splits prod.splits bool.splits)
  from "4.hyps"(1) [OF 1] "4.hyps"(2) [OF 1 refl refl 2] show ?case by auto
qed auto

text \<open>A set of finished nodes: closed under successors and free of cycles.\<close>

definition finished :: "adjacency \<Rightarrow> string set \<Rightarrow> bool" where
  "finished adj F \<longleftrightarrow> (\<forall>x \<in> F. set (succs adj x) \<subseteq> F \<and> (x, x) \<notin> (edges adj)\<^sup>+)"

lemma finished_reach:
  assumes "finished adj F" "x \<in> F" "(x, y) \<in> (edges adj)\<^sup>*"
  shows "y \<in> F"
  using assms(3,2) by (induction rule: rtrancl_induct) (use assms(1) in \<open>auto simp: finished_def edges_def\<close>)

lemma finished_insert:
  assumes "finished adj F" "n \<notin> F" "set (succs adj n) \<subseteq> F"
  shows "finished adj (insert n F)"
proof -
  have "(n, n) \<notin> (edges adj)\<^sup>+"
  proof
    assume "(n, n) \<in> (edges adj)\<^sup>+"
    then obtain y where "(n, y) \<in> edges adj" "(y, n) \<in> (edges adj)\<^sup>*"
      by (meson tranclD)
    with assms finished_reach [OF assms(1), of y n] show False by (auto simp: edges_def)
  qed
  with assms show ?thesis by (auto simp: finished_def)
qed

lemma dfs_finished:
  "dfs adj fuel n (v, s) = Some (False, (v', s')) \<Longrightarrow> finished adj (set v - set s) \<Longrightarrow> set s \<subseteq> set v \<Longrightarrow>
     n \<in> set v' - set s \<and> finished adj (set v' - set s)"
  "dfs_all adj fuel ns (v, s) = Some (False, (v', s')) \<Longrightarrow> finished adj (set v - set s) \<Longrightarrow> set s \<subseteq> set v \<Longrightarrow>
     set ns \<subseteq> set v' - set s \<and> finished adj (set v' - set s)"
proof (induction adj fuel n "(v, s)" and adj fuel ns "(v, s)" arbitrary: v s v' s' and v s v' s'
    rule: dfs_dfs_all.induct)
  case (2 adj fuel n v s)
  show ?case
  proof (cases "n \<in> set v")
    case True
    with "2.prems" show ?thesis by (auto split: if_splits)
  next
    case False
    with "2.prems" obtain s'' where
      d: "dfs_all adj fuel (succs adj n) (n # v, n # s) = Some (False, (v', s''))"
      by (auto split: if_splits option.splits prod.splits bool.splits)
    have ns: "n \<notin> set s" using False "2.prems"(3) by auto
    have "set (n # v) - set (n # s) = set v - set s" using False by auto
    with "2.prems" have "finished adj (set (n # v) - set (n # s))" "set (n # s) \<subseteq> set (n # v)" by auto
    with "2.hyps" [OF ns False d]
    have f: "set (succs adj n) \<subseteq> set v' - set (n # s)" "finished adj (set v' - set (n # s))"
      by auto
    have "n \<in> set v'" "n \<notin> set s" using dfs_state(2) [OF d] ns by auto
    then have "set v' - set s = insert n (set v' - set (n # s))" by auto
    with finished_insert [OF f(2) _ f(1)] show ?thesis by auto
  qed
next
  case (4 adj fuel n ns)
  from "4.prems"(1) obtain v1 s1 where
    1: "dfs adj fuel n (v, s) = Some (False, (v1, s1))" and
    2: "dfs_all adj fuel ns (v1, s1) = Some (False, (v', s'))"
    by (auto split: option.splits prod.splits bool.splits)
  have s1: "s1 = s" "set v \<subseteq> set v1" using dfs_state(1) [OF 1] by auto
  from "4.hyps"(1) [OF 1 "4.prems"(2,3)] have n: "n \<in> set v1 - set s" "finished adj (set v1 - set s)" by auto
  with "4.hyps"(2) [OF 1 refl refl 2] s1 "4.prems"(3) dfs_state(2) [OF 2] show ?case by auto
qed auto

text \<open>A cycle reachable from a node.\<close>

definition reaches_cycle :: "adjacency \<Rightarrow> string \<Rightarrow> bool" where
  "reaches_cycle adj n \<longleftrightarrow> (\<exists>x. (n, x) \<in> (edges adj)\<^sup>* \<and> (x, x) \<in> (edges adj)\<^sup>+)"

lemma reaches_cycle_edge: "(n, m) \<in> edges adj \<Longrightarrow> reaches_cycle adj m \<Longrightarrow> reaches_cycle adj n"
  unfolding reaches_cycle_def by (meson converse_rtrancl_into_rtrancl)

lemma dfs_cycle:
  "dfs adj fuel n (v, s) = Some (True, st) \<Longrightarrow> \<forall>a \<in> set s. (a, n) \<in> (edges adj)\<^sup>+ \<Longrightarrow> reaches_cycle adj n"
  "dfs_all adj fuel ns (v, s) = Some (True, st) \<Longrightarrow>
     \<forall>a \<in> set s. \<forall>m \<in> set ns. (a, m) \<in> (edges adj)\<^sup>+ \<Longrightarrow> \<exists>m \<in> set ns. reaches_cycle adj m"
proof (induction adj fuel n "(v, s)" and adj fuel ns "(v, s)" arbitrary: v s st and v s st
    rule: dfs_dfs_all.induct)
  case (2 adj fuel n v s)
  show ?case
  proof (cases "n \<in> set s")
    case True
    with "2.prems"(2) show ?thesis unfolding reaches_cycle_def by blast
  next
    case False
    with "2.prems"(1) have nv: "n \<notin> set v" and
      d: "dfs_all adj fuel (succs adj n) (n # v, n # s) = Some (True, st)"
      by (auto split: if_splits option.splits prod.splits bool.splits)
    have "\<forall>a \<in> set (n # s). \<forall>m \<in> set (succs adj n). (a, m) \<in> (edges adj)\<^sup>+"
      using "2.prems"(2) by (auto intro: trancl_into_trancl)
    with "2.hyps" [OF False nv d] obtain m where "m \<in> set (succs adj n)" "reaches_cycle adj m" by auto
    then show ?thesis by (blast intro: reaches_cycle_edge)
  qed
next
  case (4 adj fuel n ns)
  show ?case
  proof (cases "\<exists>st. dfs adj fuel n (v, s) = Some (True, st)")
    case True
    with "4.hyps"(1) "4.prems"(2) show ?thesis by auto
  next
    case False
    with "4.prems"(1) obtain v1 s1 where
      1: "dfs adj fuel n (v, s) = Some (False, (v1, s1))" and
      2: "dfs_all adj fuel ns (v1, s1) = Some (True, st)"
      by (auto split: option.splits prod.splits bool.splits)
    with "4.hyps"(2) [OF 1 refl refl 2] "4.prems"(2) dfs_state(1) [OF 1] show ?thesis by auto
  qed
qed auto

section \<open>Termination\<close>

abbreviation unvisited :: "adjacency \<Rightarrow> string list \<Rightarrow> nat" where
  "unvisited adj v \<equiv> card (fst ` set adj - set v)"

lemma succs_key: "m \<in> set (succs adj n) \<Longrightarrow> n \<in> fst ` set adj"
  by (cases "map_of adj n") (force simp: succs_def dest: map_of_SomeD)+

lemma unvisited_mono: "set v \<subseteq> set v' \<Longrightarrow> unvisited adj v' \<le> unvisited adj v"
  by (intro card_mono) auto

lemma unvisited_step:
  "n \<in> fst ` set adj \<Longrightarrow> n \<notin> set v \<Longrightarrow> Suc (unvisited adj (n # v)) = unvisited adj v"
proof -
  assume n: "n \<in> fst ` set adj" "n \<notin> set v"
  then have "fst ` set adj - set (n # v) = (fst ` set adj - set v) - {n}" by auto
  with n show ?thesis by (simp only:) (rule card_Suc_Diff1, auto)
qed

lemma dfs_enough_fuel:
  "unvisited adj v < fuel \<Longrightarrow> dfs adj fuel n (v, s) \<noteq> None"
  "ns = [] \<or> unvisited adj v < fuel \<Longrightarrow> dfs_all adj fuel ns (v, s) \<noteq> None"
proof (induction adj fuel n "(v, s)" and adj fuel ns "(v, s)" arbitrary: v s and v s
    rule: dfs_dfs_all.induct)
  case (2 adj fuel n v s)
  show ?case
  proof (cases "n \<in> set s \<or> n \<in> set v")
    case False
    have "succs adj n = [] \<or> unvisited adj (n # v) < fuel"
    proof (cases "succs adj n")
      case (Cons m ms)
      then have "n \<in> fst ` set adj" using succs_key [of m adj n] by simp
      with False have "Suc (unvisited adj (n # v)) = unvisited adj v" by (intro unvisited_step) auto
      with "2.prems" show ?thesis by linarith
    qed simp
    with "2.hyps" False show ?thesis
      by (auto split: option.splits prod.splits bool.splits)
  qed auto
next
  case (4 adj fuel n ns)
  then have fuel: "unvisited adj v < fuel" by simp
  with "4.hyps"(1) obtain b v1 s1 where 1: "dfs adj fuel n (v, s) = Some (b, (v1, s1))" by auto
  show ?case
  proof (cases b)
    case False
    with 1 have 2: "dfs adj fuel n (v, s) = Some (False, (v1, s1))" by simp
    have "unvisited adj v1 < fuel"
      using unvisited_mono [of v v1 adj] dfs_state(1) [OF 2] fuel by auto
    with "4.hyps"(2) [OF 2 refl refl] 2 show ?thesis by auto
  qed (use 1 in auto)
qed auto

lemma hasCycle_reaches: "hasCycle adj startId = Some (reaches_cycle adj startId)"
proof -
  have "unvisited adj [] < Suc (length adj)"
    using card_length [of "map fst adj"] by simp
  from dfs_enough_fuel(1) [OF this, of startId "[]"] obtain b v s where
    r: "dfs adj (Suc (length adj)) startId ([], []) = Some (b, (v, s))" by auto
  have "b = reaches_cycle adj startId"
  proof (cases b)
    case True
    with r have "dfs adj (Suc (length adj)) startId ([], []) = Some (True, (v, s))"
      by (simp del: dfs.simps)
    from dfs_cycle(1) [OF this] True show ?thesis by simp
  next
    case False
    with r have "dfs adj (Suc (length adj)) startId ([], []) = Some (False, (v, s))"
      by (simp del: dfs.simps)
    from dfs_finished(1) [OF this] have "startId \<in> set v" "finished adj (set v)"
      by (auto simp: finished_def)
    then have "\<not> reaches_cycle adj startId"
      unfolding reaches_cycle_def using finished_reach [of adj "set v" startId]
      by (meson finished_def)
    with False show ?thesis by simp
  qed
  with r show ?thesis by (simp add: hasCycle_def del: dfs.simps)
qed

text \<open>
  Property C1: the cycle check always returns, and it answers true exactly when some cycle of
  the step graph can be reached from the start step.
\<close>

theorem hasCycle_correct:
  "hasCycle adj startId =
     Some (\<exists>x. (startId, x) \<in> (edges adj)\<^sup>* \<and> (x, x) \<in> (edges adj)\<^sup>+)"
  by (simp add: hasCycle_reaches reaches_cycle_def)

section \<open>Validated definitions\<close>

text \<open>The branch targets a step refers to.\<close>

definition step_targets :: "Step \<Rightarrow> string list" where
  "step_targets s =
     (case s of
        ConditionalStep _ _ th el \<Rightarrow> th # (case el of None \<Rightarrow> [] | Some e \<Rightarrow> [e])
      | ParallelStep _ brs _ \<Rightarrow> branch_entries brs
      | _ \<Rightarrow> [])"

definition step_url_ok :: "Step \<Rightarrow> bool" where
  "step_url_ok s = (case s of WebhookStep _ w \<Rightarrow> \<not> isUrlSsrfBlocked (wh_url w) | _ \<Rightarrow> True)"

lemma step_errors_Nil: "step_errors ids s = [] \<longleftrightarrow> set (step_targets s) \<subseteq> ids \<and> step_url_ok s"
  by (cases s) (auto simp: step_errors_def step_targets_def step_url_ok_def branch_entries_def
      split: option.splits ParallelBranch.splits if_splits, fastforce)


definition plain_base :: "string \<Rightarrow> StepBase" where
  "plain_base i = \<lparr>sb_id = i, sb_name = i, sb_inputs = None, sb_onError = None, sb_skipIf = None,
     sb_timeout = None, sb_retryConfig = None, sb_fallbackStepId = None\<rparr>"

definition two_steps :: PipelineDefinition where
  "two_steps = \<lparr>pd_entryStepId = ''a'',
     pd_steps = [WaitStep (plain_base ''a'') 10, WaitStep (plain_base ''b'') 20], pd_stepTimeout = None, pd_allowConcurrentRuns = None\<rparr>"

lemma two_steps_valid: "validateDefinition two_steps = []"
  by code_simp


text \<open>A walk along the edges of the step graph.\<close>

fun walk :: "adjacency \<Rightarrow> string list \<Rightarrow> bool" where
  "walk adj (a # b # xs) = (b \<in> set (succs adj a) \<and> walk adj (b # xs))"
| "walk adj _ = True"

lemma walk_reaches: "walk adj (a # xs) \<Longrightarrow> b \<in> set xs \<Longrightarrow> (a, b) \<in> (edges adj)\<^sup>+"
proof (induction xs arbitrary: a)
  case (Cons c xs)
  then have "(a, c) \<in> edges adj" "walk adj (c # xs)" by auto
  with Cons show ?case by (cases "b = c") (auto intro: trancl_into_trancl2)
qed simp

lemma walk_distinct:
  "walk adj (a # xs) \<Longrightarrow> \<not> reaches_cycle adj a \<Longrightarrow> distinct (a # xs)"
proof (induction xs arbitrary: a)
  case (Cons c xs)
  then have e: "(a, c) \<in> edges adj" and w: "walk adj (c # xs)" by auto
  have "\<not> reaches_cycle adj c" using reaches_cycle_edge [OF e] Cons.prems(2) by blast
  with Cons.IH [OF w] have "distinct (c # xs)" by simp
  moreover have "a \<notin> set (c # xs)"
    using walk_reaches [OF Cons.prems(1), of a] Cons.prems(2) unfolding reaches_cycle_def by blast
  ultimately show ?case by simp
qed simp

text \<open>
  In a validated definition no walk along the edges of the step graph from the
  entry step visits a step twice, so execution that follows these edges ends.
\<close>

theorem validated_walk_distinct:
  assumes "validateDefinition d = []" "walk (buildAdjacencyMap (pd_steps d)) (pd_entryStepId d # xs)"
  shows "distinct (pd_entryStepId d # xs)"
proof -
  have "\<not> reaches_cycle (buildAdjacencyMap (pd_steps d)) (pd_entryStepId d)"
    using assms(1) by (auto simp: validateDefinition_def Let_def hasCycle_reaches split: if_splits)
  from walk_distinct [OF assms(2) this] show ?thesis .
qed

theorem validated_walk_distinct_witness:
  "walk (buildAdjacencyMap (pd_steps two_steps)) [''a'', ''b''] \<and> distinct [''a'', ''b'']"
proof -
  have w: "walk (buildAdjacencyMap (pd_steps two_steps)) (pd_entryStepId two_steps # [''b''])" by code_simp
  from validated_walk_distinct [OF two_steps_valid w] w show ?thesis by (simp add: two_steps_def)
qed

end
