(* ===== verification/PipelineService.thy ===== *)
theory PipelineService
  imports PipelineGraphProperties "HOL-Library.Product_Lexorder" "HOL-Library.List_Lexorder" "HOL-Library.Char_ord"
begin

text \<open>
  The pipeline service (\<^verbatim>\<open>services/pipeline/src/services/pipeline-service.ts\<close>, lines 417-440 and
  600-866) over the tables its repositories read and write
  (\<^verbatim>\<open>repositories/pipeline-repository.ts\<close>, \<^verbatim>\<open>pipeline-version-repository.ts\<close>,
  \<^verbatim>\<open>schedule-repository.ts\<close>, \<^verbatim>\<open>run-repository.ts\<close>).  The database is a record of row lists; each
  query is a function on it.  Ids and the clock come from the database and are arguments.
\<close>

section \<open>Slugs\<close>

definition slug_char :: "char \<Rightarrow> bool" where
  "slug_char c \<longleftrightarrow> is_digit c \<or> (97 \<le> (of_char c :: nat) \<and> (of_char c :: nat) \<le> 122)"

function collapse_spaces :: "string \<Rightarrow> string" where
  "collapse_spaces [] = []"
| "collapse_spaces (c # cs) =
     (if is_space c then CHR ''-'' # collapse_spaces (dropWhile is_space cs) else c # collapse_spaces cs)"
  by pat_completeness auto
termination
  by (relation "measure length") (auto intro: le_imp_less_Suc length_dropWhile_le)

definition strip_hyphens :: "string \<Rightarrow> string" where
  "strip_hyphens s =
     (let drop_h = dropWhile (\<lambda>c. c = CHR ''-'') in rev (drop_h (rev (drop_h s))))"

text \<open>\<^verbatim>\<open>/^[a-z0-9][a-z0-9-]{1,62}[a-z0-9]$/\<close>.\<close>

definition SLUG_RE :: "string \<Rightarrow> bool" where
  "SLUG_RE s \<longleftrightarrow> 3 \<le> length s \<and> length s \<le> 64 \<and> slug_char (hd s) \<and> slug_char (last s)
     \<and> list_all (\<lambda>c. slug_char c \<or> c = CHR ''-'') s"

definition slug_candidate :: "string \<Rightarrow> string" where
  "slug_candidate name =
     take 64 (strip_hyphens (filter (\<lambda>c. slug_char c \<or> c = CHR ''-'')
       (collapse_spaces (js_trim (js_toLowerCase name)))))"

definition deriveSlug :: "string \<Rightarrow> string \<Rightarrow> string" where
  "deriveSlug uuid name =
     (if SLUG_RE (slug_candidate name) then slug_candidate name else ''pipeline-'' @ take 8 uuid)"

section \<open>Tables and queries\<close>

record PipelineRow =
  p_id :: string
  p_tenant :: string
  p_name :: string
  p_slug :: string
  p_description :: "string option"
  p_definition :: PipelineDefinition
  p_is_active :: bool
  p_created_at :: nat
  p_updated_at :: nat
  p_created_by :: string
  p_current_version :: nat

record PipelineVersionRow =
  v_pipeline_id :: string
  v_tenant :: string
  v_number :: nat
  v_definition :: PipelineDefinition
  v_name :: string
  v_description :: "string option"
  v_created_by :: string

datatype RunStatus = RunPending | RunRunning | RunCompleted | RunFailed | RunCancelled

record PipelineDb =
  db_pipelines :: "PipelineRow list"
  db_versions :: "PipelineVersionRow list"
  db_schedules :: "(string \<times> bool) list"
  db_runs :: "(string \<times> RunStatus) list"

datatype pipeline_error =
    PipelineNotFoundError string
  | PipelineValidationError "ValidationError list"
  | PipelineInvalidWebhookUrlError string
  | PipelineVersionNotFoundError string nat
  | PipelineRunsActiveError string nat
  | DatabaseError string

type_synonym 'a svc = "(pipeline_error + 'a) \<times> PipelineDb"

record CreatePipelineInput =
  ci_name :: string
  ci_slug :: "string option"
  ci_description :: "string option"
  ci_definition :: PipelineDefinition
  ci_isActive :: bool

text \<open>An absent description is \<open>None\<close>; \<open>Some None\<close> clears it.\<close>

record UpdatePipelineInput =
  ui_name :: "string option"
  ui_description :: "string option option"
  ui_definition :: "PipelineDefinition option"
  ui_isActive :: "bool option"

definition findByTenantAndId :: "PipelineDb \<Rightarrow> string \<Rightarrow> string \<Rightarrow> PipelineRow option" where
  "findByTenantAndId db tenantId i = find (\<lambda>r. p_id r = i \<and> p_tenant r = tenantId) (db_pipelines db)"

text \<open>INSERT with the table's constraints: slug format and uniqueness, non-empty name.\<close>

definition repo_create :: "string \<Rightarrow> nat \<Rightarrow> PipelineRow \<Rightarrow> PipelineDb \<Rightarrow> PipelineRow svc" where
  "repo_create newId now row db =
     (let r = row\<lparr>p_id := newId, p_created_at := now, p_updated_at := now, p_current_version := 0\<rparr>
      in if js_trim (p_name r) = [] then (Inl (DatabaseError ''pipelines_name_not_empty''), db)
         else if \<not> SLUG_RE (p_slug r) then (Inl (DatabaseError ''pipelines_slug_format''), db)
         else if list_ex (\<lambda>x. p_tenant x = p_tenant r \<and> p_slug x = p_slug r) (db_pipelines db)
         then (Inl (DatabaseError ''pipelines_slug_per_tenant_unique''), db)
         else (Inr r, db\<lparr>db_pipelines := db_pipelines db @ [r]\<rparr>))"

definition apply_update :: "nat \<Rightarrow> UpdatePipelineInput \<Rightarrow> PipelineRow \<Rightarrow> PipelineRow" where
  "apply_update now u r =
     r\<lparr>p_name := (case ui_name u of None \<Rightarrow> p_name r | Some n \<Rightarrow> n),
       p_description := (case ui_description u of None \<Rightarrow> p_description r | Some d \<Rightarrow> d),
       p_definition := (case ui_definition u of None \<Rightarrow> p_definition r | Some d \<Rightarrow> d),
       p_is_active := (case ui_isActive u of None \<Rightarrow> p_is_active r | Some b \<Rightarrow> b),
       p_current_version := p_current_version r + 1,
       p_updated_at := now\<rparr>"

definition no_fields :: "UpdatePipelineInput \<Rightarrow> bool" where
  "no_fields u \<longleftrightarrow> ui_name u = None \<and> ui_description u = None \<and> ui_definition u = None \<and> ui_isActive u = None"

definition snapshot :: "string \<Rightarrow> PipelineRow \<Rightarrow> PipelineVersionRow" where
  "snapshot updatedBy r =
     \<lparr>v_pipeline_id = p_id r, v_tenant = p_tenant r, v_number = p_current_version r + 1,
      v_definition = p_definition r, v_name = p_name r, v_description = p_description r,
      v_created_by = updatedBy\<rparr>"

text \<open>
  The transaction of \<^verbatim>\<open>update\<close>: snapshot the locked row (when the updater is known), then
  UPDATE; a violated unique constraint rolls everything back.
\<close>

definition repo_update ::
  "nat \<Rightarrow> string \<Rightarrow> UpdatePipelineInput \<Rightarrow> string option \<Rightarrow> PipelineDb \<Rightarrow> PipelineRow option svc" where
  "repo_update now i u updatedBy db =
     (if no_fields u then (Inl (DatabaseError ''update() called with no fields''), db)
      else case find (\<lambda>r. p_id r = i) (db_pipelines db) of
             None \<Rightarrow> (Inr None, db)
           | Some r \<Rightarrow>
               let vs = (case updatedBy of None \<Rightarrow> [] | Some who \<Rightarrow> [snapshot who r]);
                   r' = apply_update now u r
               in if list_ex (\<lambda>v. list_ex (\<lambda>w. v_pipeline_id w = v_pipeline_id v \<and> v_number w = v_number v)
                                 (db_versions db)) vs
                  then (Inl (DatabaseError ''pipeline_versions_unique_version''), db)
                  else if js_trim (p_name r') = [] then (Inl (DatabaseError ''pipelines_name_not_empty''), db)
                  else (Inr (Some r'),
                        db\<lparr>db_pipelines := map (\<lambda>x. if p_id x = i then apply_update now u x else x) (db_pipelines db),
                           db_versions := db_versions db @ vs\<rparr>))"

text \<open>DELETE cascades to the rows that reference the pipeline.\<close>

definition repo_delete :: "string \<Rightarrow> PipelineDb \<Rightarrow> PipelineDb" where
  "repo_delete i db =
     db\<lparr>db_pipelines := filter (\<lambda>r. p_id r \<noteq> i) (db_pipelines db),
        db_versions := filter (\<lambda>v. v_pipeline_id v \<noteq> i) (db_versions db),
        db_schedules := filter (\<lambda>(p, _). p \<noteq> i) (db_schedules db),
        db_runs := filter (\<lambda>(p, _). p \<noteq> i) (db_runs db)\<rparr>"

definition disableByPipelineId :: "string \<Rightarrow> PipelineDb \<Rightarrow> PipelineDb" where
  "disableByPipelineId i db =
     db\<lparr>db_schedules := map (\<lambda>(p, en). (p, if p = i then False else en)) (db_schedules db)\<rparr>"

definition countActiveByPipelineId :: "PipelineDb \<Rightarrow> string \<Rightarrow> nat" where
  "countActiveByPipelineId db i =
     length (filter (\<lambda>(p, st). p = i \<and> (st = RunPending \<or> st = RunRunning)) (db_runs db))"

definition findByPipelineIdAndVersionNumber ::
  "PipelineDb \<Rightarrow> string \<Rightarrow> nat \<Rightarrow> PipelineVersionRow option" where
  "findByPipelineIdAndVersionNumber db i n =
     find (\<lambda>v. v_pipeline_id v = i \<and> v_number v = n) (db_versions db)"

definition listByPipelineId ::
  "PipelineDb \<Rightarrow> string \<Rightarrow> nat option \<Rightarrow> nat \<Rightarrow> PipelineVersionRow list" where
  "listByPipelineId db i cursor lmt =
     take lmt (rev (sort_key v_number
       (filter (\<lambda>v. v_pipeline_id v = i \<and> (case cursor of None \<Rightarrow> True | Some c \<Rightarrow> v_number v < c))
         (db_versions db))))"

text \<open>
  The pipeline list orders by creation time and id but resumes after an id.  Ids are
  lower-case UUID text, whose order is the lexicographic one.
\<close>

definition findByTenantId ::
  "PipelineDb \<Rightarrow> string \<Rightarrow> string option \<Rightarrow> bool option \<Rightarrow> nat \<Rightarrow> PipelineRow list" where
  "findByTenantId db tenantId cursor active lmt =
     take lmt (sort_key (\<lambda>r. (p_created_at r, p_id r))
       (filter (\<lambda>r. p_tenant r = tenantId
                  \<and> (case active of None \<Rightarrow> True | Some b \<Rightarrow> p_is_active r = b)
                  \<and> (case cursor of None \<Rightarrow> True | Some c \<Rightarrow> c < p_id r))
         (db_pipelines db)))"

section \<open>Service operations\<close>

definition getPipeline :: "string \<Rightarrow> string \<Rightarrow> PipelineDb \<Rightarrow> PipelineRow svc" where
  "getPipeline tenantId i db =
     (case findByTenantAndId db tenantId i of
        None \<Rightarrow> (Inl (PipelineNotFoundError i), db)
      | Some p \<Rightarrow> (Inr p, db))"

text \<open>The definition checks shared by create and update.\<close>

definition blocked_webhook :: "Step list \<Rightarrow> string option" where
  "blocked_webhook steps =
     map_option step_id (find (\<lambda>s. \<not> step_url_ok s) steps)"

definition check_definition :: "PipelineDefinition \<Rightarrow> pipeline_error option" where
  "check_definition d =
     (if validateDefinition d \<noteq> [] then Some (PipelineValidationError (validateDefinition d))
      else map_option PipelineInvalidWebhookUrlError (blocked_webhook (pd_steps d)))"

definition createPipeline ::
  "string \<Rightarrow> string \<Rightarrow> nat \<Rightarrow> string \<Rightarrow> string \<Rightarrow> CreatePipelineInput \<Rightarrow> PipelineDb \<Rightarrow> PipelineRow svc" where
  "createPipeline newId uuid now tenantId userId input db =
     (case check_definition (ci_definition input) of
        Some e \<Rightarrow> (Inl e, db)
      | None \<Rightarrow>
          repo_create newId now
            \<lparr>p_id = [], p_tenant = tenantId, p_name = ci_name input,
             p_slug = (case ci_slug input of Some s \<Rightarrow> s | None \<Rightarrow> deriveSlug uuid (ci_name input)),
             p_description = ci_description input, p_definition = ci_definition input,
             p_is_active = ci_isActive input, p_created_at = 0, p_updated_at = 0,
             p_created_by = userId, p_current_version = 0\<rparr> db)"

definition listPipelines ::
  "PipelineDb \<Rightarrow> string \<Rightarrow> string option \<Rightarrow> bool option \<Rightarrow> nat
     \<Rightarrow> PipelineRow list \<times> string option" where
  "listPipelines db tenantId cursor active lmt =
     (let rows = findByTenantId db tenantId cursor active lmt
      in (rows, if length rows = lmt \<and> rows \<noteq> [] then Some (p_id (last rows)) else None))"

definition updatePipeline ::
  "nat \<Rightarrow> string \<Rightarrow> string \<Rightarrow> UpdatePipelineInput \<Rightarrow> string option \<Rightarrow> PipelineDb \<Rightarrow> PipelineRow svc" where
  "updatePipeline now tenantId i input updatedBy db =
     (case findByTenantAndId db tenantId i of
        None \<Rightarrow> (Inl (PipelineNotFoundError i), db)
      | Some _ \<Rightarrow>
          (case Option.bind (ui_definition input) check_definition of
             Some e \<Rightarrow> (Inl e, db)
           | None \<Rightarrow>
               let db1 = (if ui_isActive input = Some False then disableByPipelineId i db else db)
               in case repo_update now i input updatedBy db1 of
                    (Inl e, db2) \<Rightarrow> (Inl e, db2)
                  | (Inr None, db2) \<Rightarrow> (Inl (PipelineNotFoundError i), db2)
                  | (Inr (Some r), db2) \<Rightarrow> (Inr r, db2)))"

definition deletePipeline :: "string \<Rightarrow> string \<Rightarrow> PipelineDb \<Rightarrow> unit svc" where
  "deletePipeline tenantId i db =
     (case findByTenantAndId db tenantId i of
        None \<Rightarrow> (Inl (PipelineNotFoundError i), db)
      | Some _ \<Rightarrow>
          let n = countActiveByPipelineId db i
          in if n > 0 then (Inl (PipelineRunsActiveError i n), db) else (Inr (), repo_delete i db))"

definition listVersions ::
  "PipelineDb \<Rightarrow> string \<Rightarrow> string \<Rightarrow> nat option \<Rightarrow> nat option
     \<Rightarrow> pipeline_error + (PipelineVersionRow list \<times> nat option)" where
  "listVersions db tenantId i cursor limo =
     (case findByTenantAndId db tenantId i of
        None \<Rightarrow> Inl (PipelineNotFoundError i)
      | Some _ \<Rightarrow>
          let lmt = (case limo of None \<Rightarrow> 50 | Some l \<Rightarrow> l);
              rows = listByPipelineId db i cursor lmt
          in Inr (rows, if length rows = lmt \<and> rows \<noteq> [] then Some (v_number (last rows)) else None))"

definition getVersion ::
  "PipelineDb \<Rightarrow> string \<Rightarrow> string \<Rightarrow> nat \<Rightarrow> pipeline_error + PipelineVersionRow" where
  "getVersion db tenantId i n =
     (case findByTenantAndId db tenantId i of
        None \<Rightarrow> Inl (PipelineNotFoundError i)
      | Some _ \<Rightarrow>
          (case findByPipelineIdAndVersionNumber db i n of
             None \<Rightarrow> Inl (PipelineVersionNotFoundError i n)
           | Some v \<Rightarrow> Inr v))"

definition rollback_input :: "PipelineVersionRow \<Rightarrow> UpdatePipelineInput" where
  "rollback_input v =
     \<lparr>ui_name = Some (v_name v),
      ui_description = (case v_description v of None \<Rightarrow> None | Some d \<Rightarrow> Some (Some d)),
      ui_definition = Some (v_definition v), ui_isActive = None\<rparr>"

definition rollbackToVersion ::
  "nat \<Rightarrow> string \<Rightarrow> string \<Rightarrow> nat \<Rightarrow> string \<Rightarrow> PipelineDb \<Rightarrow> PipelineRow svc" where
  "rollbackToVersion now tenantId i n userId db =
     (case getVersion db tenantId i n of
        Inl e \<Rightarrow> (Inl e, db)
      | Inr v \<Rightarrow>
          if validateDefinition (v_definition v) \<noteq> []
          then (Inl (PipelineValidationError (validateDefinition (v_definition v))), db)
          else updatePipeline now tenantId i (rollback_input v) (Some userId) db)"

end
