(* ===== verification/PipelineServiceProperties.thy ===== *)
theory PipelineServiceProperties
  imports PipelineService
begin

text \<open>
  Invariants of the pipeline tables, isolation between tenants, the update and rollback
  round trip, version paging, and derived slugs.
\<close>

section \<open>The table invariant\<close>

definition owns :: "PipelineRow \<Rightarrow> PipelineVersionRow \<Rightarrow> bool" where
  "owns r v \<longleftrightarrow> p_id r = v_pipeline_id v \<and> p_tenant r = v_tenant v
     \<and> 0 < v_number v \<and> v_number v \<le> p_current_version r"

definition db_ok :: "PipelineDb \<Rightarrow> bool" where
  "db_ok db \<longleftrightarrow>
     distinct (map p_id (db_pipelines db))
     \<and> (\<forall>r \<in> set (db_pipelines db). validateDefinition (p_definition r) = [] \<and> js_trim (p_name r) \<noteq> [])
     \<and> (\<forall>v \<in> set (db_versions db). validateDefinition (v_definition v) = [] \<and> js_trim (v_name v) \<noteq> []
          \<and> (\<exists>r \<in> set (db_pipelines db). owns r v))
     \<and> distinct (map (\<lambda>v. (v_pipeline_id v, v_number v)) (db_versions db))"

text \<open>What one tenant can observe: its pipelines, and the rows that belong to them.\<close>

definition tenant_ids :: "string \<Rightarrow> PipelineDb \<Rightarrow> string set" where
  "tenant_ids t db = p_id ` {r \<in> set (db_pipelines db). p_tenant r = t}"

definition tenant_view ::
  "string \<Rightarrow> PipelineDb \<Rightarrow> PipelineRow list \<times> PipelineVersionRow list \<times> (string \<times> bool) list \<times> (string \<times> RunStatus) list" where
  "tenant_view t db =
     (filter (\<lambda>r. p_tenant r = t) (db_pipelines db),
      filter (\<lambda>v. v_pipeline_id v \<in> tenant_ids t db) (db_versions db),
      filter (\<lambda>(p, _). p \<in> tenant_ids t db) (db_schedules db),
      filter (\<lambda>(p, _). p \<in> tenant_ids t db) (db_runs db))"

lemma find_by_id:
  "distinct (map p_id ps) \<Longrightarrow> r \<in> set ps \<Longrightarrow> find (\<lambda>x. p_id x = p_id r) ps = Some r"
  by (induction ps) (auto simp: image_iff)

lemma find_by_tenant_id:
  "distinct (map p_id ps) \<Longrightarrow> r \<in> set ps \<Longrightarrow> find (\<lambda>x. p_id x = p_id r \<and> p_tenant x = p_tenant r) ps = Some r"
  by (induction ps) (auto simp: image_iff)

lemma unique_row:
  "db_ok db \<Longrightarrow> x \<in> set (db_pipelines db) \<Longrightarrow> y \<in> set (db_pipelines db) \<Longrightarrow> p_id x = p_id y \<Longrightarrow> x = y"
  by (auto simp: db_ok_def distinct_map dest: inj_onD)

lemma find_append: "find P (xs @ ys) = (case find P xs of None \<Rightarrow> find P ys | Some x \<Rightarrow> Some x)"
  by (induction xs) auto

lemma find_filter: "find P (filter Q xs) = find (\<lambda>x. Q x \<and> P x) xs"
  by (induction xs) auto

lemma findByTenantAndId_SomeD:
  "findByTenantAndId db t i = Some r \<Longrightarrow> r \<in> set (db_pipelines db) \<and> p_id r = i \<and> p_tenant r = t"
  by (auto simp: findByTenantAndId_def find_Some_iff)

lemma check_definition_None: "check_definition d = None \<Longrightarrow> validateDefinition d = []"
  by (simp add: check_definition_def split: if_splits)

lemma apply_update_simps [simp]:
  "p_id (apply_update now u r) = p_id r" "p_tenant (apply_update now u r) = p_tenant r"
  "p_current_version (apply_update now u r) = Suc (p_current_version r)"
  "p_definition (apply_update now u r) = (case ui_definition u of None \<Rightarrow> p_definition r | Some d \<Rightarrow> d)"
  by (simp_all add: apply_update_def)

lemma map_update_ids:
  "map p_id (map (\<lambda>x. if p_id x = i then apply_update now u x else x) ps) = map p_id ps"
  by (induction ps) auto

definition updated :: "nat \<Rightarrow> string \<Rightarrow> UpdatePipelineInput \<Rightarrow> PipelineVersionRow list \<Rightarrow> PipelineDb \<Rightarrow> PipelineDb" where
  "updated now i u vs db =
     db\<lparr>db_pipelines := map (\<lambda>x. if p_id x = i then apply_update now u x else x) (db_pipelines db),
        db_versions := db_versions db @ vs\<rparr>"

lemma db_ok_updated:
  assumes ok: "db_ok db" and r: "r \<in> set (db_pipelines db)" "p_id r = i"
    and d: "\<And>d. ui_definition u = Some d \<Longrightarrow> validateDefinition d = []"
    and n: "js_trim (p_name (apply_update now u r)) \<noteq> []"
    and vs: "vs = [] \<or> (\<exists>w. vs = [snapshot w r] \<and>
        (p_id r, Suc (p_current_version r)) \<notin> (\<lambda>v. (v_pipeline_id v, v_number v)) ` set (db_versions db))"
  shows "db_ok (updated now i u vs db)"
proof -
  let ?f = "\<lambda>x. if p_id x = i then apply_update now u x else x"
  have own: "owns x v \<Longrightarrow> owns (?f x) v" for x v by (auto simp: owns_def)
  have "\<exists>x \<in> set (map ?f (db_pipelines db)). owns x v" if "v \<in> set (db_versions db @ vs)" for v
  proof (cases "v \<in> set (db_versions db)")
    case True
    with ok obtain x where "x \<in> set (db_pipelines db)" "owns x v" by (auto simp: db_ok_def)
    with own [of x v] show ?thesis by (intro bexI [of _ "?f x"]) auto
  next
    case False
    with that vs obtain w where "v = snapshot w r" by auto
    then have "owns (?f r) v" using r by (simp add: owns_def snapshot_def)
    with r(1) show ?thesis by (intro bexI [of _ "?f r"]) auto
  qed
  moreover have "validateDefinition (v_definition v) = [] \<and> js_trim (v_name v) \<noteq> []"
    if "v \<in> set (db_versions db @ vs)" for v
    using that vs ok r(1) by (auto simp: db_ok_def snapshot_def)
  moreover have "x = r" if "x \<in> set (db_pipelines db)" "p_id x = i" for x
    using that ok r by (auto simp: db_ok_def distinct_map dest: inj_onD)
  then have "validateDefinition (p_definition x) = [] \<and> js_trim (p_name x) \<noteq> []"
    if "x \<in> set (map ?f (db_pipelines db))" for x
    using that ok d n by (auto simp: db_ok_def split: option.splits)
  moreover have "distinct (map (\<lambda>v. (v_pipeline_id v, v_number v)) (db_versions db @ vs))"
    using ok vs by (auto simp: db_ok_def snapshot_def image_iff)
  ultimately show ?thesis
    using ok unfolding db_ok_def updated_def
    by (simp add: map_update_ids del: map_map set_map set_append map_append)
qed

lemma db_ok_disable [simp]: "db_ok (disableByPipelineId i db) = db_ok db"
  by (simp add: db_ok_def disableByPipelineId_def)

text \<open>The possible results of an update.\<close>

lemma updatePipeline_result:
  assumes "db_ok db" "updatePipeline now t i u by' db = (res, db')"
  obtains (unchanged) e where "res = Inl e" "db' = db \<or> db' = disableByPipelineId i db"
      "db' \<noteq> db \<Longrightarrow> i \<in> tenant_ids t db"
  | (success) r db1 vs where "r \<in> set (db_pipelines db)" "p_id r = i" "p_tenant r = t"
      "res = Inr (apply_update now u r)" "db1 = db \<or> db1 = disableByPipelineId i db"
      "db' = updated now i u vs db1"
      "vs = (case by' of None \<Rightarrow> [] | Some who \<Rightarrow> [snapshot who r])"
      "\<And>d. ui_definition u = Some d \<Longrightarrow> validateDefinition d = []"
      "vs = [] \<or> (p_id r, Suc (p_current_version r)) \<notin> (\<lambda>v. (v_pipeline_id v, v_number v)) ` set (db_versions db)"
      "js_trim (p_name (apply_update now u r)) \<noteq> []"
proof (cases "findByTenantAndId db t i")
  case None
  with assms(2) show thesis by (intro unchanged) (auto simp: updatePipeline_def)
next
  case (Some r)
  then have r: "r \<in> set (db_pipelines db)" "p_id r = i" "p_tenant r = t"
    using findByTenantAndId_SomeD by auto
  then have ti: "i \<in> tenant_ids t db" by (auto simp: tenant_ids_def)
  let ?db1 = "if ui_isActive u = Some False then disableByPipelineId i db else db"
  have db1: "db_pipelines ?db1 = db_pipelines db" "db_versions ?db1 = db_versions db"
    by (simp_all add: disableByPipelineId_def)
  have f: "find (\<lambda>x. p_id x = i) (db_pipelines ?db1) = Some r"
    using find_by_id [of "db_pipelines db" r] assms(1) r db1 by (simp add: db_ok_def)
  show thesis
  proof (cases "Option.bind (ui_definition u) check_definition")
    case (Some e)
    with \<open>findByTenantAndId db t i = Some r\<close> assms(2) show thesis
      by (intro unchanged) (auto simp: updatePipeline_def)
  next
    case None
    then have valid: "\<And>d. ui_definition u = Some d \<Longrightarrow> validateDefinition d = []"
      using check_definition_None by (auto simp: bind_eq_None_conv)
    have eq: "updatePipeline now t i u by' db =
      (case repo_update now i u by' ?db1 of
         (Inl e, db2) \<Rightarrow> (Inl e, db2)
       | (Inr None, db2) \<Rightarrow> (Inl (PipelineNotFoundError i), db2)
       | (Inr (Some r), db2) \<Rightarrow> (Inr r, db2))"
      using None \<open>findByTenantAndId db t i = Some r\<close> by (simp add: updatePipeline_def Let_def)
    let ?vs = "case by' of None \<Rightarrow> [] | Some who \<Rightarrow> [snapshot who r]"
    show thesis
    proof (cases "\<exists>e. fst (repo_update now i u by' ?db1) = Inl e")
      case True
      then have "snd (repo_update now i u by' ?db1) = ?db1"
        using f by (auto simp: repo_update_def Let_def split: if_splits)
      with True eq assms(2) ti show thesis
        by (intro unchanged [of "projl (fst (repo_update now i u by' ?db1))"])
          (auto split: prod.splits sum.splits option.splits if_splits)
    next
      case False
      then have "repo_update now i u by' ?db1 = (Inr (Some (apply_update now u r)), updated now i u ?vs ?db1)"
        and "?vs = [] \<or> (p_id r, Suc (p_current_version r)) \<notin> (\<lambda>v. (v_pipeline_id v, v_number v)) ` set (db_versions db)"
        and "js_trim (p_name (apply_update now u r)) \<noteq> []"
        using f db1 by (auto simp: repo_update_def updated_def Let_def snapshot_def list_ex_iff split: if_splits option.splits)
      with eq assms(2) r valid show thesis
        by (intro success [of r ?db1 ?vs]) auto
    qed
  qed
qed

section \<open>The contract of a tenant operation\<close>

text \<open>
  Every operation of the service runs on behalf of one tenant.  It keeps the table
  invariant and leaves what every other tenant can observe unchanged.
\<close>

locale tenant_operation =
  fixes run :: "PipelineDb \<Rightarrow> 'a svc" and tenant :: string and pre :: "PipelineDb \<Rightarrow> bool"
  assumes keeps_ok: "db_ok db \<Longrightarrow> pre db \<Longrightarrow> db_ok (snd (run db))"
    and isolates: "db_ok db \<Longrightarrow> pre db \<Longrightarrow> t \<noteq> tenant \<Longrightarrow> tenant_view t (snd (run db)) = tenant_view t db"
begin

lemma other_tenant_lookup:
  assumes "db_ok db" "pre db" "t \<noteq> tenant"
  shows "findByTenantAndId (snd (run db)) t i = findByTenantAndId db t i"
proof -
  have find_view: "findByTenantAndId d t i = find (\<lambda>r. p_id r = i) (fst (tenant_view t d))" for d
    by (simp add: findByTenantAndId_def tenant_view_def find_filter conj_commute)
  from isolates [OF assms] show ?thesis by (simp add: find_view)
qed

end

lemma image_selected:
  assumes "\<And>x. g (f x) = g x" "\<And>x. h (f x) = h x"
  shows "h ` {y \<in> f ` A. g y = t} = h ` {x \<in> A. g x = t}"
  using assms by (auto simp: image_iff) force+

lemma tenant_ids_updated:
  "tenant_ids t (updated now i u vs db) = tenant_ids t db"
  unfolding tenant_ids_def updated_def by (simp add: image_selected del: if_image_distrib)

lemma tenant_ids_disable [simp]: "tenant_ids t (disableByPipelineId i db) = tenant_ids t db"
  by (simp add: tenant_ids_def disableByPipelineId_def)

lemma tenant_ids_disjoint:
  "db_ok db \<Longrightarrow> i \<in> tenant_ids t db \<Longrightarrow> t' \<noteq> t \<Longrightarrow> i \<notin> tenant_ids t' db"
  unfolding db_ok_def tenant_ids_def by (auto dest: distinct_map [THEN iffD1] inj_onD)

lemma view_disable:
  "i \<notin> tenant_ids t db \<Longrightarrow> tenant_view t (disableByPipelineId i db) = tenant_view t db"
proof -
  assume i: "i \<notin> tenant_ids t db"
  have "filter (\<lambda>(p, _). p \<in> tenant_ids t db) (map (\<lambda>(p, en). (p, if p = i then False else en)) xs)
    = filter (\<lambda>(p, _). p \<in> tenant_ids t db) xs" for xs
    using i by (induction xs) (auto split: if_splits)
  then show ?thesis by (simp add: tenant_view_def) (simp add: disableByPipelineId_def)
qed

lemma view_updated:
  assumes "i \<notin> tenant_ids t db" "\<forall>v \<in> set vs. v_pipeline_id v = i"
  shows "tenant_view t (updated now i u vs db) = tenant_view t db"
proof -
  have "filter (\<lambda>r. p_tenant r = t) (map (\<lambda>x. if p_id x = i then apply_update now u x else x) ps)
     = filter (\<lambda>r. p_tenant r = t) ps" if "\<forall>r \<in> set ps. p_tenant r = t \<longrightarrow> p_id r \<noteq> i" for ps
    using that by (induction ps) auto
  moreover have "\<forall>r \<in> set (db_pipelines db). p_tenant r = t \<longrightarrow> p_id r \<noteq> i"
    using assms(1) by (auto simp: tenant_ids_def)
  moreover have "filter (\<lambda>v. v_pipeline_id v \<in> tenant_ids t db) vs = []"
    using assms by (auto simp: filter_empty_conv)
  ultimately show ?thesis
    by (simp add: tenant_view_def tenant_ids_updated) (simp add: updated_def)
qed

lemma update_keeps_and_isolates:
  assumes "db_ok db" "updatePipeline now t i u by' db = (res, db')"
  shows "db_ok db' \<and> (t' \<noteq> t \<longrightarrow> tenant_view t' db' = tenant_view t' db)"
  using assms
proof (cases rule: updatePipeline_result)
  case (unchanged e)
  with assms(1) tenant_ids_disjoint [of db i t t'] view_disable [of i t' db] show ?thesis
    by (cases "db' = db") auto
next
  case (success r db1 vs)
  have ok1: "db_ok db1" using success(5) assms(1) by auto
  have r1: "r \<in> set (db_pipelines db1)" and v1: "db_versions db1 = db_versions db"
    using success(1,5) by (auto simp: disableByPipelineId_def)
  have "vs = [] \<or> (\<exists>w. vs = [snapshot w r] \<and>
      (p_id r, Suc (p_current_version r)) \<notin> (\<lambda>v. (v_pipeline_id v, v_number v)) ` set (db_versions db1))"
    using success(7,9) v1 by (cases by') auto
  with db_ok_updated [OF ok1 r1 success(2) success(8) success(10)] success(6) have "db_ok db'" by blast
  moreover have "tenant_view t' db' = tenant_view t' db" if "t' \<noteq> t"
  proof -
    have "i \<in> tenant_ids t db" using success(1-3) by (auto simp: tenant_ids_def)
    with that assms(1) have n: "i \<notin> tenant_ids t' db" by (meson tenant_ids_disjoint)
    then have "i \<notin> tenant_ids t' db1" using success(5) by auto
    moreover have "\<forall>v \<in> set vs. v_pipeline_id v = i"
      using success(2,7) by (cases by') (auto simp: snapshot_def)
    ultimately show ?thesis using success(5,6) view_updated view_disable [OF n] by auto
  qed
  ultimately show ?thesis by blast
qed

interpretation update: tenant_operation "updatePipeline now tenantId i input updatedBy" tenantId "\<lambda>_. True"
  for now tenantId i input updatedBy
  by unfold_locales (use update_keeps_and_isolates [OF _ prod.collapse [symmetric]] in blast)+

lemma rollback_cases:
  "rollbackToVersion now t i n userId db = (res, db') \<Longrightarrow>
     db' = db \<or> (\<exists>u. updatePipeline now t i u (Some userId) db = (res, db'))"
  by (auto simp: rollbackToVersion_def split: sum.splits if_splits)

interpretation rollback: tenant_operation "rollbackToVersion now tenantId i n userId" tenantId "\<lambda>_. True"
  for now tenantId i n userId
proof
  fix db t
  obtain res db' where r: "rollbackToVersion now tenantId i n userId db = (res, db')" by fastforce
  assume ok: "db_ok db"
  with rollback_cases [OF r] update_keeps_and_isolates [OF ok]
  have both: "db_ok db' \<and> (t \<noteq> tenantId \<longrightarrow> tenant_view t db' = tenant_view t db)" by blast
  then show "db_ok (snd (rollbackToVersion now tenantId i n userId db))" by (simp add: r)
  assume "t \<noteq> tenantId"
  with both show "tenant_view t (snd (rollbackToVersion now tenantId i n userId db)) = tenant_view t db"
    by (simp add: r)
qed

text \<open>An insert takes an id that no row mentions yet.\<close>

definition fresh_id :: "string \<Rightarrow> PipelineDb \<Rightarrow> bool" where
  "fresh_id i db \<longleftrightarrow> i \<notin> p_id ` set (db_pipelines db)"

lemma create_result:
  "createPipeline newId uuid now t userId input db = (res, db') \<Longrightarrow>
     db' = db \<or> (\<exists>r. db' = db\<lparr>db_pipelines := db_pipelines db @ [r]\<rparr> \<and> res = Inr r \<and> p_id r = newId \<and> p_tenant r = t
        \<and> p_definition r = ci_definition input \<and> validateDefinition (p_definition r) = [] \<and> js_trim (p_name r) \<noteq> []
        \<and> SLUG_RE (p_slug r))"
  by (auto simp: createPipeline_def repo_create_def Let_def check_definition_None split: option.splits if_splits)

lemma db_ok_insert:
  assumes "db_ok db" "fresh_id (p_id r) db" "validateDefinition (p_definition r) = []"
    "js_trim (p_name r) \<noteq> []"
  shows "db_ok (db\<lparr>db_pipelines := db_pipelines db @ [r]\<rparr>)"
  using assms unfolding db_ok_def fresh_id_def by auto

lemma view_insert:
  "p_tenant r \<noteq> t \<Longrightarrow> tenant_view t (db\<lparr>db_pipelines := db_pipelines db @ [r]\<rparr>) = tenant_view t db"
proof -
  assume "p_tenant r \<noteq> t"
  moreover from this have "tenant_ids t (db\<lparr>db_pipelines := db_pipelines db @ [r]\<rparr>) = tenant_ids t db"
    by (auto simp: tenant_ids_def)
  ultimately show ?thesis by (simp add: tenant_view_def)
qed

interpretation create: tenant_operation
  "createPipeline newId uuid now tenantId userId input" tenantId "fresh_id newId"
  for newId uuid now tenantId userId input
proof
  fix db t
  obtain res db' where r: "createPipeline newId uuid now tenantId userId input db = (res, db')" by fastforce
  assume "db_ok db" "fresh_id newId db"
  with create_result [OF r] db_ok_insert show "db_ok (snd (createPipeline newId uuid now tenantId userId input db))"
    by (auto simp: r)
  assume "t \<noteq> tenantId"
  with create_result [OF r] view_insert
  show "tenant_view t (snd (createPipeline newId uuid now tenantId userId input db)) = tenant_view t db"
    by (auto simp: r)
qed

lemma delete_result:
  "snd (deletePipeline t i db) = db \<or>
     (i \<in> tenant_ids t db \<and> snd (deletePipeline t i db) = repo_delete i db)"
  using findByTenantAndId_SomeD [of db t i]
  by (auto simp: deletePipeline_def Let_def tenant_ids_def split: option.splits)

lemma db_ok_delete: "db_ok db \<Longrightarrow> db_ok (repo_delete i db)"
  unfolding db_ok_def repo_delete_def owns_def by (auto simp: distinct_map_filter) metis

lemma filter_other:
  "i \<notin> A \<Longrightarrow> filter (\<lambda>(p, _). p \<in> A) (filter (\<lambda>(p, _). p \<noteq> i) xs) = filter (\<lambda>(p, _). p \<in> A) xs"
  by (auto intro!: filter_cong)

lemma view_delete:
  assumes "i \<notin> tenant_ids t db"
  shows "tenant_view t (repo_delete i db) = tenant_view t db"
proof -
  have "filter (\<lambda>r. p_tenant r = t) (filter (\<lambda>r. p_id r \<noteq> i) (db_pipelines db))
      = filter (\<lambda>r. p_tenant r = t) (db_pipelines db)"
    using assms by (auto simp: tenant_ids_def intro!: filter_cong)
  moreover have ids: "tenant_ids t (repo_delete i db) = tenant_ids t db"
    using assms by (auto simp: tenant_ids_def repo_delete_def)
  moreover have "filter (\<lambda>v. v_pipeline_id v \<in> tenant_ids t db) (filter (\<lambda>v. v_pipeline_id v \<noteq> i) (db_versions db))
      = filter (\<lambda>v. v_pipeline_id v \<in> tenant_ids t db) (db_versions db)"
    using assms by (auto intro!: filter_cong)
  ultimately show ?thesis
    unfolding tenant_view_def ids using assms by (simp add: repo_delete_def filter_other del: filter_filter)
qed

interpretation delete: tenant_operation "deletePipeline tenantId i" tenantId "\<lambda>_. True"
  for tenantId i
proof
  fix db t
  assume "db_ok db"
  then show "db_ok (snd (deletePipeline tenantId i db))"
    using delete_result [of tenantId i db] db_ok_delete [of db i] by auto
  assume "t \<noteq> tenantId"
  with \<open>db_ok db\<close> show "tenant_view t (snd (deletePipeline tenantId i db)) = tenant_view t db"
    using delete_result [of tenantId i db] tenant_ids_disjoint [of db i tenantId t] view_delete [of i t db] by auto
qed

section \<open>Histories\<close>

text \<open>The operations of all tenants in any order, starting from empty tables.\<close>

inductive svc_step :: "string \<Rightarrow> PipelineDb \<Rightarrow> PipelineDb \<Rightarrow> bool" where
  create: "fresh_id newId db \<Longrightarrow> svc_step t db (snd (createPipeline newId uuid now t userId input db))"
| update: "svc_step t db (snd (updatePipeline now t i u by' db))"
| delete: "svc_step t db (snd (deletePipeline t i db))"
| rollback: "svc_step t db (snd (rollbackToVersion now t i n userId db))"

inductive svc_reachable :: "PipelineDb \<Rightarrow> bool" where
  empty: "svc_reachable \<lparr>db_pipelines = [], db_versions = [], db_schedules = [], db_runs = []\<rparr>"
| step: "svc_reachable db \<Longrightarrow> svc_step t db db' \<Longrightarrow> svc_reachable db'"

lemma svc_step_ok: "svc_step t db db' \<Longrightarrow> db_ok db \<Longrightarrow> db_ok db'"
  by (induction rule: svc_step.induct)
    (auto intro: create.keeps_ok update.keeps_ok delete.keeps_ok rollback.keeps_ok)

lemma db_ok_empty: "db_ok \<lparr>db_pipelines = [], db_versions = [], db_schedules = [], db_runs = []\<rparr>"
  by (simp add: db_ok_def)

lemma svc_reachable_db_ok: "svc_reachable db \<Longrightarrow> db_ok db"
  by (induction rule: svc_reachable.induct) (auto intro: svc_step_ok db_ok_empty)

text \<open>
  Property C27: in every reachable state of the tables all stored definitions and all version
  snapshots are valid, pipeline ids are unique, and no version number of a pipeline occurs
  twice, so the unique constraint of the versions table is never violated.
\<close>

theorem svc_reachable_ok:
  "svc_reachable db \<Longrightarrow>
     (\<forall>r \<in> set (db_pipelines db). validateDefinition (p_definition r) = [])
     \<and> (\<forall>v \<in> set (db_versions db). validateDefinition (v_definition v) = [])
     \<and> distinct (map p_id (db_pipelines db))
     \<and> distinct (map (\<lambda>v. (v_pipeline_id v, v_number v)) (db_versions db))"
  using svc_reachable_db_ok [of db] by (auto simp: db_ok_def)


definition empty_db :: PipelineDb where
  "empty_db = \<lparr>db_pipelines = [], db_versions = [], db_schedules = [], db_runs = []\<rparr>"

definition demo_input :: CreatePipelineInput where
  "demo_input = \<lparr>ci_name = ''Daily load'', ci_slug = None, ci_description = Some ''d'',
     ci_definition = two_steps, ci_isActive = True\<rparr>"

definition demo_row :: PipelineRow where
  "demo_row = \<lparr>p_id = ''p1'', p_tenant = ''t1'', p_name = ''Daily load'', p_slug = ''daily-load'',
     p_description = Some ''d'', p_definition = two_steps, p_is_active = True, p_created_at = 5,
     p_updated_at = 5, p_created_by = ''u'', p_current_version = 0\<rparr>"

definition demo_db :: PipelineDb where
  "demo_db = \<lparr>db_pipelines = [demo_row], db_versions = [], db_schedules = [], db_runs = []\<rparr>"

lemma demo_create: "snd (createPipeline ''p1'' ''00000000'' 5 ''t1'' ''u'' demo_input empty_db) = demo_db"
  by code_simp

lemma demo_reachable: "svc_reachable demo_db"
proof -
  have "svc_step ''t1'' empty_db (snd (createPipeline ''p1'' ''00000000'' 5 ''t1'' ''u'' demo_input empty_db))"
    by (rule svc_step.create) (simp add: fresh_id_def empty_db_def)
  then have "svc_step ''t1'' empty_db demo_db" by (simp add: demo_create)
  with svc_reachable.step [OF svc_reachable.empty] show ?thesis by (simp add: empty_db_def)
qed

theorem svc_reachable_ok_witness:
  "svc_reachable demo_db \<and> validateDefinition (p_definition demo_row) = []"
  using svc_reachable_ok [OF demo_reachable] demo_reachable by (simp add: demo_db_def)


section \<open>Rollback restores the replaced version\<close>

lemma valid_check_None: "validateDefinition d = [] \<Longrightarrow> check_definition d = None"
  by (auto simp: check_definition_def blocked_webhook_def find_None_iff validateDefinition_def Let_def
      step_errors_Nil split: if_splits)

lemma update_snapshot:
  assumes "db_ok db" "updatePipeline now t i u (Some who) db = (Inr r1, db1)"
    and "findByTenantAndId db t i = Some r0"
  shows "r1 = apply_update now u r0 \<and> db_ok db1 \<and> findByTenantAndId db1 t i = Some r1
    \<and> findByPipelineIdAndVersionNumber db1 i (p_current_version r1) = Some (snapshot who r0)"
  using assms(1,2)
proof (cases rule: updatePipeline_result)
  case (success r db' vs)
  have r0: "r0 = r"
    using unique_row [OF assms(1), of r0 r] success(1,2) findByTenantAndId_SomeD [OF assms(3)] by simp
  have ok: "db_ok db1" using update_keeps_and_isolates [OF assms(1,2)] by blast
  have v: "db_versions db' = db_versions db" and p: "db_pipelines db' = db_pipelines db"
    using success(5) by (auto simp: disableByPipelineId_def)
  have "r1 \<in> set (db_pipelines db1)"
    using success p by (auto simp: updated_def image_iff)
  with find_by_tenant_id [of "db_pipelines db1" r1] ok success(2-4) have "findByTenantAndId db1 t i = Some r1"
    by (simp add: db_ok_def findByTenantAndId_def)
  moreover have "find (\<lambda>v. v_pipeline_id v = i \<and> v_number v = Suc (p_current_version r)) (db_versions db) = None"
    using success(2,7,9) by (force simp: find_None_iff)
  then have "findByPipelineIdAndVersionNumber db1 i (p_current_version r1) = Some (snapshot who r)"
    using success(2,4,6,7) v
    by (simp add: findByPipelineIdAndVersionNumber_def updated_def find_append snapshot_def)
  ultimately show ?thesis using success(4) r0 ok by simp
qed simp

lemma update_succeeds:
  assumes "db_ok db" "findByTenantAndId db t i = Some r" "ui_name u = Some n" "js_trim n \<noteq> []"
    and "ui_definition u = Some d" "validateDefinition d = []" "ui_isActive u = None"
  shows "\<exists>db'. updatePipeline now t i u (Some who) db = (Inr (apply_update now u r), db')"
proof -
  have f: "find (\<lambda>x. p_id x = i) (db_pipelines db) = Some r"
    using find_by_id [of "db_pipelines db" r] findByTenantAndId_SomeD [OF assms(2)] assms(1)
    by (auto simp: db_ok_def)
  have "\<not> (v_pipeline_id w = i \<and> v_number w = Suc (p_current_version r))" if "w \<in> set (db_versions db)" for w
  proof -
    from that assms(1) obtain x where "x \<in> set (db_pipelines db)" "owns x w" by (auto simp: db_ok_def)
    with findByTenantAndId_SomeD [OF assms(2)] unique_row [OF assms(1), of x r] show ?thesis
      by (auto simp: owns_def)
  qed
  then show ?thesis
    using assms f findByTenantAndId_SomeD [OF assms(2)] valid_check_None [OF assms(6)]
    by (auto simp: updatePipeline_def repo_update_def no_fields_def Let_def snapshot_def list_ex_iff apply_update_def)
qed

text \<open>
  Rolling back to the version that an update created restores the replaced
  definition and name (and the description, when there was one), on a new version number.
\<close>

theorem update_then_rollback:
  assumes "svc_reachable db" "findByTenantAndId db t i = Some r0"
    and "updatePipeline now t i u (Some who) db = (Inr r1, db1)"
  shows "\<exists>r2 db2. rollbackToVersion now' t i (p_current_version r1) who' db1 = (Inr r2, db2)
    \<and> p_definition r2 = p_definition r0 \<and> p_name r2 = p_name r0
    \<and> (p_description r0 \<noteq> None \<longrightarrow> p_description r2 = p_description r0)
    \<and> p_current_version r2 = p_current_version r0 + 2"
proof -
  have ok: "db_ok db" using assms(1) by (rule svc_reachable_db_ok)
  from update_snapshot [OF ok assms(3,2)] have r1: "r1 = apply_update now u r0" "db_ok db1"
    "findByTenantAndId db1 t i = Some r1"
    "findByPipelineIdAndVersionNumber db1 i (p_current_version r1) = Some (snapshot who r0)" by auto
  have valid: "validateDefinition (p_definition r0) = []" "js_trim (p_name r0) \<noteq> []"
    using findByTenantAndId_SomeD [OF assms(2)] ok by (auto simp: db_ok_def)
  obtain db2 where "updatePipeline now' t i (rollback_input (snapshot who r0)) (Some who') db1
      = (Inr (apply_update now' (rollback_input (snapshot who r0)) r1), db2)"
    using update_succeeds [OF r1(2,3), of "rollback_input (snapshot who r0)" "p_name r0" "p_definition r0" now' who'] valid
    by (auto simp: rollback_input_def snapshot_def)
  with r1 valid show ?thesis
    by (auto simp: rollbackToVersion_def getVersion_def apply_update_def rollback_input_def snapshot_def
        split: option.splits)
qed

definition demo_update :: UpdatePipelineInput where
  "demo_update = \<lparr>ui_name = Some ''New name'', ui_description = Some None, ui_definition = None, ui_isActive = None\<rparr>"

theorem update_then_rollback_witness:
  "\<exists>r2 db2. rollbackToVersion 9 ''t1'' ''p1'' 1 ''u2''
      (snd (updatePipeline 7 ''t1'' ''p1'' demo_update (Some ''u'') demo_db)) = (Inr r2, db2)
    \<and> p_name r2 = ''Daily load'' \<and> p_current_version r2 = 2"
proof -
  have f: "findByTenantAndId demo_db ''t1'' ''p1'' = Some demo_row" by code_simp
  obtain db1 where u: "updatePipeline 7 ''t1'' ''p1'' demo_update (Some ''u'') demo_db
      = (Inr (apply_update 7 demo_update demo_row), db1)"
    using f by (auto simp: updatePipeline_def repo_update_def demo_update_def no_fields_def demo_db_def
        demo_row_def Let_def apply_update_def js_trim_def trim_left_def is_space_def)
  from update_then_rollback [OF demo_reachable f u, of 9 "''u2''"] u show ?thesis
    by (auto simp: demo_row_def)
qed

text \<open>A description that was absent is not restored: the newer text stays.\<close>

lemma rollback_keeps_newer_description:
  "p_description r0 = None \<Longrightarrow> p_description (apply_update now (rollback_input (snapshot who r0)) r) = p_description r"
  by (simp add: apply_update_def rollback_input_def snapshot_def)

section \<open>Paging through versions\<close>

text \<open>A client that follows \<^verbatim>\<open>nextCursor\<close> until it is null.\<close>

fun all_pages :: "nat \<Rightarrow> PipelineDb \<Rightarrow> string \<Rightarrow> string \<Rightarrow> nat option \<Rightarrow> nat \<Rightarrow> PipelineVersionRow list" where
  "all_pages 0 db t i cursor lmt = []"
| "all_pages (Suc fuel) db t i cursor lmt =
     (case listVersions db t i cursor (Some lmt) of
        Inl _ \<Rightarrow> []
      | Inr (rows, nxt) \<Rightarrow> rows @ (case nxt of None \<Rightarrow> [] | Some c \<Rightarrow> all_pages fuel db t i (Some c) lmt))"

definition versions_of :: "PipelineDb \<Rightarrow> string \<Rightarrow> PipelineVersionRow list" where
  "versions_of db i = rev (sort_key v_number (filter (\<lambda>v. v_pipeline_id v = i) (db_versions db)))"

lemma filter_below_last:
  assumes "sorted_wrt (\<lambda>x y. f y < f x) vs" "0 < k" "k \<le> length vs"
  shows "filter (\<lambda>v. f v < (f (last (take k vs)) :: nat)) vs = drop k vs"
proof -
  let ?a = "take k vs" and ?b = "drop k vs"
  have ne: "?a \<noteq> []" using assms by auto
  have s: "sorted_wrt (\<lambda>x y. f y < f x) (?a @ ?b)" using assms(1) by simp
  have "f (last ?a) \<le> f x" if "x \<in> set ?a" for x
    using s ne that by (metis append_butlast_last_id sorted_wrt_append Un_iff less_imp_le list.set_intros(1)
        set_append set_ConsD empty_iff list.set(1) order_refl)
  then have "filter (\<lambda>v. f v < f (last ?a)) ?a = []" by (auto simp: filter_empty_conv not_less)
  moreover have "filter (\<lambda>v. f v < f (last ?a)) ?b = ?b"
  proof -
    have "\<forall>x \<in> set ?a. \<forall>y \<in> set ?b. f y < f x" using s unfolding sorted_wrt_append by blast
    with last_in_set [OF ne] show ?thesis unfolding filter_id_conv by blast
  qed
  ultimately have "filter (\<lambda>v. f v < f (last ?a)) (?a @ ?b) = ?b" by (simp only: filter_append append_Nil)
  then show ?thesis by simp
qed

lemma versions_of_descending:
  assumes "db_ok db"
  shows "sorted_wrt (\<lambda>x y. v_number y < v_number x) (versions_of db i)"
proof -
  let ?vs = "filter (\<lambda>v. v_pipeline_id v = i) (db_versions db)"
  have "inj_on (\<lambda>v. (v_pipeline_id v, v_number v)) (set ?vs)" "distinct ?vs"
    using assms by (auto simp: db_ok_def distinct_map inj_on_def)
  then have "distinct (map v_number ?vs)"
    by (auto simp: distinct_map inj_on_def)
  then have "distinct (map v_number (sort_key v_number ?vs))"
    by (metis distinct_map distinct_sort set_sort)
  with sorted_sort_key [of v_number ?vs] have "sorted_wrt (<) (map v_number (sort_key v_number ?vs))"
    by (simp add: strict_sorted_iff)
  then show ?thesis by (simp add: versions_of_def sorted_wrt_rev sorted_wrt_map)
qed

lemma listByPipelineId_page:
  "listByPipelineId db i cursor lmt =
     take lmt (filter (\<lambda>v. case cursor of None \<Rightarrow> True | Some c \<Rightarrow> v_number v < c) (versions_of db i))"
  by (simp add: listByPipelineId_def versions_of_def rev_filter [symmetric] filter_sort conj_commute)

lemma all_pages_from:
  assumes ok: "db_ok db" and own: "findByTenantAndId db t i = Some r" and pos: "0 < lmt"
  shows "k \<le> length (versions_of db i) \<Longrightarrow> length (versions_of db i) - k < fuel \<Longrightarrow>
     cursor = (if k = 0 then None else Some (v_number (last (take k (versions_of db i))))) \<Longrightarrow>
     all_pages fuel db t i cursor lmt = drop k (versions_of db i)"
proof (induction fuel arbitrary: k cursor)
  case (Suc fuel)
  let ?vs = "versions_of db i"
  have page: "listByPipelineId db i cursor lmt = take lmt (drop k ?vs)"
  proof (cases "k = 0")
    case False
    with Suc.prems filter_below_last [OF versions_of_descending [OF ok, of i], of k] show ?thesis
      by (simp add: listByPipelineId_page)
  qed (use Suc.prems in \<open>simp add: listByPipelineId_page\<close>)
  show ?case
  proof (cases "k + lmt \<le> length ?vs")
    case True
    have last: "last (take lmt (drop k ?vs)) = last (take (k + lmt) ?vs)"
      using True pos by (simp add: take_add last_append)
    have "all_pages fuel db t i (Some (v_number (last (take (k + lmt) ?vs)))) lmt = drop (k + lmt) ?vs"
      using Suc.IH [of "k + lmt"] Suc.prems True pos by simp
    moreover have "take lmt (drop k ?vs) \<noteq> []" "length (take lmt (drop k ?vs)) = lmt"
      using True pos by auto
    ultimately have "all_pages (Suc fuel) db t i cursor lmt = take lmt (drop k ?vs) @ drop (k + lmt) ?vs"
      by (simp add: listVersions_def own page last Let_def)
    also have "\<dots> = drop k ?vs" by (metis add.commute append_take_drop_id drop_drop)
    finally show ?thesis .
  next
    case False
    then have "take lmt (drop k ?vs) = drop k ?vs" "length (drop k ?vs) \<noteq> lmt"
      using Suc.prems(1) by auto
    then show ?thesis by (simp add: listVersions_def own page Let_def)
  qed
qed simp

text \<open>
  A client that follows the version cursor page by page, with any positive page
  size, receives every version of the pipeline exactly once, newest first.
\<close>

theorem version_paging_complete:
  assumes "svc_reachable db" "findByTenantAndId db t i = Some r" "0 < lmt" "length (db_versions db) < fuel"
  shows "all_pages fuel db t i None lmt
    = rev (sort_key v_number (filter (\<lambda>v. v_pipeline_id v = i) (db_versions db)))"
proof -
  have "length (filter (\<lambda>v. v_pipeline_id v = i) (db_versions db)) < fuel"
    using length_filter_le assms(4) by (rule le_less_trans)
  with all_pages_from [OF svc_reachable_db_ok [OF assms(1)] assms(2,3), of 0 fuel None] assms(4)
  show ?thesis by (simp add: versions_of_def)
qed

theorem version_paging_complete_witness:
  "\<exists>vs. all_pages 5 (snd (updatePipeline 7 ''t1'' ''p1'' demo_update (Some ''u'') demo_db)) ''t1'' ''p1'' None 1 = vs
     \<and> length vs = 1"
proof -
  let ?u = "updatePipeline 7 ''t1'' ''p1'' demo_update (Some ''u'') demo_db"
  have f: "findByTenantAndId demo_db ''t1'' ''p1'' = Some demo_row" by code_simp
  have u: "?u = (Inr (apply_update 7 demo_update demo_row), updated 7 ''p1'' demo_update [snapshot ''u'' demo_row] demo_db)"
    using f by (auto simp: updatePipeline_def repo_update_def demo_update_def no_fields_def demo_db_def
        demo_row_def Let_def apply_update_def js_trim_def trim_left_def is_space_def updated_def)
  have reach: "svc_reachable (snd ?u)"
    by (rule svc_reachable.step [OF demo_reachable svc_step.update])
  have f1: "findByTenantAndId (snd ?u) ''t1'' ''p1'' = Some (apply_update 7 demo_update demo_row)"
    unfolding u by (simp add: findByTenantAndId_def updated_def demo_db_def demo_row_def)
  from version_paging_complete [OF reach f1, of 1 5] show ?thesis
    unfolding u by (simp add: updated_def demo_db_def snapshot_def demo_row_def)
qed

text \<open>
  The pipeline list is different: it is ordered by creation time, but its cursor is an id.
  Whenever a pipeline created later has a smaller id than the last row of a page, the next
  page misses it.
\<close>

lemma pipeline_paging_skips:
  assumes "p_tenant a = t" "p_tenant b = t" "p_created_at a < p_created_at b" "p_id b < p_id a"
    and "db_pipelines db = [a, b]"
  shows "listPipelines db t None None 1 = ([a], Some (p_id a))
    \<and> listPipelines db t (Some (p_id a)) None 1 = ([], None)"
  using assms by (auto simp: listPipelines_def findByTenantId_def Let_def less_prod_def)

section \<open>Derived slugs\<close>

text \<open>\<^verbatim>\<open>crypto.randomUUID()\<close> starts with eight lower-case hexadecimal digits.\<close>

definition uuid_head :: "string \<Rightarrow> bool" where
  "uuid_head u \<longleftrightarrow> 8 \<le> length u \<and> list_all slug_char (take 8 u)"

text \<open>
  Whatever the name, the derived slug satisfies the slug format the database
  checks; a name that already is a valid slug is kept.
\<close>

theorem deriveSlug_valid:
  "uuid_head uuid \<Longrightarrow> SLUG_RE (deriveSlug uuid name)
     \<and> (SLUG_RE (slug_candidate name) \<longrightarrow> deriveSlug uuid name = slug_candidate name)"
proof -
  assume "uuid_head uuid"
  moreover from this have "length (take 8 uuid) = 8" by (simp add: uuid_head_def)
  ultimately have "SLUG_RE (''pipeline-'' @ take 8 uuid)"
    by (cases "take 8 uuid" rule: rev_cases)
      (auto simp: SLUG_RE_def uuid_head_def slug_char_def list_all_iff)
  then show ?thesis by (simp add: deriveSlug_def)
qed

theorem deriveSlug_valid_witness:
  "deriveSlug ''0a1b2c3d-'' ''  My  ETL (v2) '' = ''my-etl-v2''
   \<and> deriveSlug ''0a1b2c3d-'' ''!!'' = ''pipeline-0a1b2c3d'' \<and> SLUG_RE ''pipeline-0a1b2c3d''"
proof -
  have u: "uuid_head ''0a1b2c3d-''" by code_simp
  have "deriveSlug ''0a1b2c3d-'' ''!!'' = ''pipeline-0a1b2c3d''"
    "deriveSlug ''0a1b2c3d-'' ''  My  ETL (v2) '' = ''my-etl-v2''" by code_simp+
  with deriveSlug_valid [OF u, of "''!!''"] show ?thesis by simp
qed

end
