(* ===== verification/ApprovalService.thy ===== *)
theory ApprovalService
  imports JsValue
begin

text \<open>
  The in-memory approval store of \<^verbatim>\<open>services/pipeline/src/services/approval-service.ts\<close>.  The
  store is the \<^verbatim>\<open>Map\<close> of records under the key \<^verbatim>\<open>executionId:stepId\<close>; times are milliseconds and
  \<^verbatim>\<open>new Date()\<close> is an argument.  Thrown errors are values of \<^verbatim>\<open>approval_error\<close>.
\<close>

datatype ApprovalDecision = Approve | Reject

datatype ApprovalStatus = ApPending | ApApproved | ApRejected | ApTimedOut

record ApprovalRecord =
  ar_executionId :: string
  ar_stepId :: string
  ar_approvers :: "string list"
  ar_message :: "string option"
  ar_status :: ApprovalStatus
  ar_requestedAt :: nat
  ar_decidedAt :: "nat option"
  ar_decidedBy :: "string option"
  ar_decision :: "ApprovalDecision option"
  ar_comment :: "string option"
  ar_timeoutAt :: nat

record PendingApprovalView =
  pv_executionId :: string
  pv_stepId :: string
  pv_approvers :: "string list"
  pv_message :: "string option"
  pv_status :: ApprovalStatus
  pv_requestedAt :: nat
  pv_timeoutAt :: nat

datatype approval_error =
    ApprovalNotFoundError string string
  | ApprovalUnauthorizedError string
  | ApprovalAlreadyDecidedError ApprovalStatus

type_synonym approval_store = "(string, ApprovalRecord) dict"

definition MAX_TERMINAL_ENTRIES :: nat where
  "MAX_TERMINAL_ENTRIES = 10000"

definition approval_key :: "string \<Rightarrow> string \<Rightarrow> string" where
  "approval_key executionId stepId = executionId @ '':'' @ stepId"

definition evictTerminalEntries :: "approval_store \<Rightarrow> approval_store" where
  "evictTerminalEntries store =
     (let terminalCount = length (filter (\<lambda>(_, r). ar_status r \<noteq> ApPending) store)
      in if terminalCount > MAX_TERMINAL_ENTRIES then filter (\<lambda>(_, r). ar_status r = ApPending) store
         else store)"

definition new_approval :: "nat \<Rightarrow> string \<Rightarrow> string \<Rightarrow> string list \<Rightarrow> string option \<Rightarrow> nat \<Rightarrow> ApprovalRecord" where
  "new_approval now executionId stepId approvers message timeoutMs =
     \<lparr>ar_executionId = executionId, ar_stepId = stepId, ar_approvers = approvers, ar_message = message,
      ar_status = ApPending, ar_requestedAt = now, ar_decidedAt = None, ar_decidedBy = None,
      ar_decision = None, ar_comment = None, ar_timeoutAt = now + timeoutMs\<rparr>"

definition requestApproval ::
  "nat \<Rightarrow> string \<Rightarrow> string \<Rightarrow> string list \<Rightarrow> string option \<Rightarrow> nat \<Rightarrow> approval_store
     \<Rightarrow> ApprovalRecord \<times> approval_store" where
  "requestApproval now executionId stepId approvers message timeoutMs store =
     (let k = approval_key executionId stepId
      in case dict_get store k of
           Some existing \<Rightarrow> (existing, store)
         | None \<Rightarrow>
             let r = new_approval now executionId stepId approvers message timeoutMs
             in (r, map_set store k r))"

definition decided_status :: "ApprovalDecision \<Rightarrow> ApprovalStatus" where
  "decided_status d = (case d of Approve \<Rightarrow> ApApproved | Reject \<Rightarrow> ApRejected)"

definition submitDecision ::
  "nat \<Rightarrow> string \<Rightarrow> string \<Rightarrow> string \<Rightarrow> ApprovalDecision \<Rightarrow> string option \<Rightarrow> approval_store
     \<Rightarrow> (approval_error + ApprovalRecord) \<times> approval_store" where
  "submitDecision now executionId stepId userId decision comment store =
     (let k = approval_key executionId stepId
      in case dict_get store k of
           None \<Rightarrow> (Inl (ApprovalNotFoundError executionId stepId), store)
         | Some r \<Rightarrow>
             if ar_status r \<noteq> ApPending then (Inl (ApprovalAlreadyDecidedError (ar_status r)), store)
             else if userId \<notin> set (ar_approvers r) then (Inl (ApprovalUnauthorizedError userId), store)
             else let updated = r\<lparr>ar_status := decided_status decision, ar_decidedAt := Some now,
                                  ar_decidedBy := Some userId, ar_decision := Some decision,
                                  ar_comment := comment\<rparr>
                  in (Inr updated, evictTerminalEntries (map_set store k updated)))"

definition getApprovalStatus ::
  "nat \<Rightarrow> string \<Rightarrow> string \<Rightarrow> approval_store \<Rightarrow> ApprovalRecord option \<times> approval_store" where
  "getApprovalStatus now executionId stepId store =
     (let k = approval_key executionId stepId
      in case dict_get store k of
           None \<Rightarrow> (None, store)
         | Some r \<Rightarrow>
             if ar_status r = ApPending \<and> ar_timeoutAt r < now
             then let timedOut = r\<lparr>ar_status := ApTimedOut, ar_decidedAt := Some (ar_timeoutAt r)\<rparr>
                  in (Some timedOut, map_set store k timedOut)
             else (Some r, store))"

definition pending_view :: "ApprovalRecord \<Rightarrow> PendingApprovalView" where
  "pending_view r =
     \<lparr>pv_executionId = ar_executionId r, pv_stepId = ar_stepId r, pv_approvers = ar_approvers r,
      pv_message = ar_message r, pv_status = ar_status r, pv_requestedAt = ar_requestedAt r,
      pv_timeoutAt = ar_timeoutAt r\<rparr>"

text \<open>The loop over the values of the store; it only overwrites existing keys.\<close>

fun list_pending_loop ::
  "nat \<Rightarrow> string \<Rightarrow> ApprovalRecord list \<Rightarrow> approval_store \<Rightarrow> PendingApprovalView list \<times> approval_store" where
  "list_pending_loop now executionId [] store = ([], store)"
| "list_pending_loop now executionId (r # rs) store =
     (if ar_executionId r \<noteq> executionId then list_pending_loop now executionId rs store
      else let (current, store1) = getApprovalStatus now (ar_executionId r) (ar_stepId r) store;
               (views, store2) = list_pending_loop now executionId rs store1
           in case current of
                Some c \<Rightarrow> (if ar_status c = ApPending then pending_view c # views else views, store2)
              | None \<Rightarrow> (views, store2))"

definition listPendingApprovals ::
  "nat \<Rightarrow> string \<Rightarrow> approval_store \<Rightarrow> PendingApprovalView list \<times> approval_store" where
  "listPendingApprovals now executionId store =
     list_pending_loop now executionId (dict_values store) store"

section \<open>The record life cycle\<close>

text \<open>A record is consistent: who decided, what and when agree with its status.\<close>

definition record_ok :: "ApprovalRecord \<Rightarrow> bool" where
  "record_ok r \<longleftrightarrow>
     (case ar_status r of
        ApPending \<Rightarrow> ar_decidedBy r = None \<and> ar_decision r = None \<and> ar_decidedAt r = None
      | ApTimedOut \<Rightarrow> ar_decidedBy r = None \<and> ar_decision r = None \<and> ar_decidedAt r = Some (ar_timeoutAt r)
      | ApApproved \<Rightarrow> ar_decision r = Some Approve \<and> (\<exists>u \<in> set (ar_approvers r). ar_decidedBy r = Some u)
      | ApRejected \<Rightarrow> ar_decision r = Some Reject \<and> (\<exists>u \<in> set (ar_approvers r). ar_decidedBy r = Some u))"

definition store_ok :: "approval_store \<Rightarrow> bool" where
  "store_ok store \<longleftrightarrow> distinct (map fst store)
     \<and> (\<forall>k r. dict_get store k = Some r \<longrightarrow> k = approval_key (ar_executionId r) (ar_stepId r) \<and> record_ok r)"

lemma store_okI:
  assumes "store_ok store" "k = approval_key (ar_executionId r) (ar_stepId r)" "record_ok r"
  shows "store_ok (map_set store k r)"
  using assms by (auto simp: store_ok_def)

lemma map_of_filter_values:
  "distinct (map fst d) \<Longrightarrow>
     map_of (filter (\<lambda>(_, r). P r) d) k = (case map_of d k of Some r \<Rightarrow> if P r then Some r else None | None \<Rightarrow> None)"
proof (induction d)
  case (Cons x d)
  then show ?case
    by (cases x) (auto split: option.splits if_splits simp: map_of_eq_None_iff dest: map_of_SomeD
        intro: rev_image_eqI)
qed simp

lemma evict_lookup:
  "distinct (map fst store) \<Longrightarrow> dict_get (evictTerminalEntries store) k = Some r \<Longrightarrow> dict_get store k = Some r"
  by (auto simp: evictTerminalEntries_def Let_def map_of_filter_values split: if_splits option.splits)

lemma evict_keeps_pending:
  "distinct (map fst store) \<Longrightarrow> dict_get store k = Some r \<Longrightarrow> ar_status r = ApPending \<Longrightarrow>
     dict_get (evictTerminalEntries store) k = Some r"
  by (simp add: evictTerminalEntries_def Let_def map_of_filter_values)

lemma evict_ok: "store_ok store \<Longrightarrow> store_ok (evictTerminalEntries store)"
  unfolding store_ok_def using evict_lookup
  by (metis distinct_map_filter evictTerminalEntries_def)

text \<open>The steps of the store: requests, decisions and status reads, at any time.\<close>

inductive approval_step :: "approval_store \<Rightarrow> approval_store \<Rightarrow> bool" where
  request: "approval_step store (snd (requestApproval now e s approvers msg timeoutMs store))"
| decide: "approval_step store (snd (submitDecision now e s userId d comment store))"
| status: "approval_step store (snd (getApprovalStatus now e s store))"

inductive approval_reachable :: "approval_store \<Rightarrow> bool" where
  init: "approval_reachable []"
| step: "approval_reachable store \<Longrightarrow> approval_step store store' \<Longrightarrow> approval_reachable store'"

lemmas approval_defs = requestApproval_def submitDecision_def getApprovalStatus_def Let_def

lemma approval_step_ok: "approval_step store store' \<Longrightarrow> store_ok store \<Longrightarrow> store_ok store'"
proof (induction rule: approval_step.induct)
  case (request store now e s approvers msg timeoutMs)
  then show ?case
    by (auto simp: approval_defs new_approval_def record_ok_def intro!: store_okI split: option.splits)
next
  case (decide store now e s userId d comment)
  show ?case
  proof (cases "dict_get store (approval_key e s)")
    case (Some r)
    then have "approval_key e s = approval_key (ar_executionId r) (ar_stepId r)"
      using decide by (auto simp: store_ok_def)
    with Some decide show ?thesis
      by (auto simp: approval_defs record_ok_def decided_status_def split: ApprovalDecision.split
          intro!: evict_ok store_okI)
  qed (use decide in \<open>simp add: approval_defs\<close>)
next
  case (status store now e s)
  show ?case
  proof (cases "dict_get store (approval_key e s)")
    case (Some r)
    then have "approval_key e s = approval_key (ar_executionId r) (ar_stepId r)" "record_ok r"
      using status by (auto simp: store_ok_def)
    with Some status show ?thesis
      by (auto simp: approval_defs record_ok_def intro!: store_okI)
  qed (use status in \<open>simp add: approval_defs\<close>)
qed

lemma approval_reachable_ok: "approval_reachable store \<Longrightarrow> store_ok store"
  by (induction rule: approval_reachable.induct) (auto simp: store_ok_def [of "[]"] intro: approval_step_ok)

text \<open>
  Only listed approvers decide.  In every reachable store an approved or
  rejected record names a decider from its approvers list and carries that decision, and a
  pending or timed-out record names nobody.
\<close>

theorem approval_integrity:
  assumes "approval_reachable store" "dict_get store k = Some r"
  shows "(ar_status r = ApApproved \<longleftrightarrow> ar_decision r = Some Approve)
    \<and> (ar_status r = ApRejected \<longleftrightarrow> ar_decision r = Some Reject)
    \<and> (case ar_decidedBy r of
          Some u \<Rightarrow> u \<in> set (ar_approvers r) \<and> ar_decision r \<noteq> None
        | None \<Rightarrow> ar_decision r = None)"
proof -
  from approval_reachable_ok [OF assms(1)] assms(2) have "record_ok r" by (auto simp: store_ok_def)
  then show ?thesis by (cases "ar_status r") (auto simp: record_ok_def)
qed

definition demo_store :: approval_store where
  "demo_store = snd (submitDecision 20 ''run'' ''gate'' ''ann'' Approve None
     (snd (requestApproval 10 ''run'' ''gate'' [''ann'', ''bob''] None 1000 [])))"

lemma demo_store_reachable: "approval_reachable demo_store"
  unfolding demo_store_def
  by (intro approval_reachable.step [OF _ approval_step.decide] approval_reachable.step [OF _ approval_step.request]
      approval_reachable.init)

lemma demo_store_lookup:
  "dict_get demo_store ''run:gate'' = Some \<lparr>ar_executionId = ''run'', ar_stepId = ''gate'',
     ar_approvers = [''ann'', ''bob''], ar_message = None, ar_status = ApApproved, ar_requestedAt = 10,
     ar_decidedAt = Some 20, ar_decidedBy = Some ''ann'', ar_decision = Some Approve, ar_comment = None,
     ar_timeoutAt = 1010\<rparr>"
  by code_simp

theorem approval_integrity_witness:
  "\<exists>r. dict_get demo_store ''run:gate'' = Some r \<and> ar_decidedBy r = Some ''ann'' \<and> ''ann'' \<in> set (ar_approvers r)"
  using approval_integrity [OF demo_store_reachable demo_store_lookup] demo_store_lookup by auto

lemma decided_lookup:
  assumes "store_ok store" "dict_get store k = Some r" "ar_status r \<noteq> ApPending" "approval_step store store'"
  shows "dict_get store' k = Some r \<or> dict_get store' k = None"
  using assms(4)
proof cases
  case (decide now e s userId d comment)
  have dist: "distinct (map fst store)" using assms(1) by (simp add: store_ok_def)
  show ?thesis
  proof (cases "dict_get store (approval_key e s)")
    case (Some r')
    let ?r = "r'\<lparr>ar_status := decided_status d, ar_decidedAt := Some now, ar_decidedBy := Some userId,
        ar_decision := Some d, ar_comment := comment\<rparr>"
    show ?thesis
    proof (cases "ar_status r' = ApPending \<and> userId \<in> set (ar_approvers r')")
      case True
      then have "k \<noteq> approval_key e s" using assms(2,3) Some by auto
      then have "dict_get (map_set store (approval_key e s) ?r) k = Some r" using assms(2) by simp
      with evict_lookup [of "map_set store (approval_key e s) ?r" k] dist Some True decide show ?thesis
        by (cases "dict_get store' k") (auto simp: approval_defs)
    qed (use assms decide Some in \<open>auto simp: approval_defs\<close>)
  qed (use assms decide in \<open>simp add: approval_defs\<close>)
qed (use assms in \<open>auto simp: approval_defs split: option.splits if_splits\<close>)

text \<open>
  A decision is final.  Whatever happens next in the store, the record of a
  decided or timed-out approval is either unchanged or has been evicted.
\<close>

theorem approval_final:
  assumes "approval_reachable store" "dict_get store k = Some r" "ar_status r \<noteq> ApPending"
    and "approval_step store store'"
  shows "dict_get store' k = Some r \<or> dict_get store' k = None"
  using decided_lookup [OF approval_reachable_ok [OF assms(1)] assms(2-4)] .

theorem approval_final_witness:
  "fst (submitDecision 30 ''run'' ''gate'' ''bob'' Reject None demo_store)
     = Inl (ApprovalAlreadyDecidedError ApApproved)
   \<and> map_option ar_status (dict_get (snd (submitDecision 30 ''run'' ''gate'' ''bob'' Reject None demo_store)) ''run:gate'')
     = Some ApApproved"
proof -
  let ?s = "snd (submitDecision 30 ''run'' ''gate'' ''bob'' Reject None demo_store)"
  have "fst (submitDecision 30 ''run'' ''gate'' ''bob'' Reject None demo_store)
      = Inl (ApprovalAlreadyDecidedError ApApproved)" "dict_get ?s ''run:gate'' \<noteq> None"
    by (simp_all add: submitDecision_def Let_def approval_key_def demo_store_lookup)
  with approval_final [OF demo_store_reachable demo_store_lookup _ approval_step.decide
      [of demo_store 30 "''run''" "''gate''" "''bob''" Reject None]] show ?thesis by auto
qed

section \<open>Deadlines\<close>

lemma status_after_deadline:
  "dict_get store (approval_key e s) = Some r \<Longrightarrow> ar_timeoutAt r < now \<Longrightarrow>
     fst (getApprovalStatus now e s store) = Some r' \<Longrightarrow> ar_status r' \<noteq> ApPending"
  by (auto simp: approval_defs split: if_splits)

text \<open>The deadline of a record never moves.\<close>

lemma timeout_stable:
  assumes "store_ok store" "approval_step store store'"
    and "dict_get store k = Some r" "dict_get store' k = Some r'"
  shows "ar_timeoutAt r' = ar_timeoutAt r"
  using assms(2)
proof cases
  case (decide now e s userId d comment)
  have dist: "distinct (map fst store)" using assms(1) by (simp add: store_ok_def)
  show ?thesis
  proof (cases "store' = store")
    case False
    with decide obtain x y where x: "dict_get store (approval_key e s) = Some x"
      and s': "store' = evictTerminalEntries (map_set store (approval_key e s) y)"
      and y: "ar_timeoutAt y = ar_timeoutAt x"
      by (auto simp: approval_defs split: option.splits if_splits)
    have "dict_get (map_set store (approval_key e s) y) k = Some r'"
      using evict_lookup [of "map_set store (approval_key e s) y" k r'] dist assms(4) s' by simp
    with x y assms(3) show ?thesis by (auto split: if_splits)
  qed (use assms in simp)
qed (use assms in \<open>auto simp: approval_defs split: option.splits if_splits\<close>)

text \<open>
  A decision that arrives after the deadline is still accepted when no status read has
  marked the record as timed out before.
\<close>

lemma late_decision_accepted:
  assumes "dict_get store (approval_key e s) = Some r" "ar_status r = ApPending" "u \<in> set (ar_approvers r)"
    and "ar_timeoutAt r < now"
  shows "\<exists>r'. fst (submitDecision now e s u Approve c store) = Inr r' \<and> ar_status r' = ApApproved"
  using assms by (auto simp: approval_defs decided_status_def)

text \<open>
  With ten thousand finished approvals in the store the sweep after a decision also removes
  the record just decided, so the next read finds nothing.
\<close>

lemma decision_evicted:
  assumes "store_ok store" "dict_get store (approval_key e s) = Some r" "ar_status r = ApPending"
    and "u \<in> set (ar_approvers r)"
    and "length (filter (\<lambda>(_, x). ar_status x \<noteq> ApPending)
           (map_set store (approval_key e s) (r\<lparr>ar_status := decided_status d, ar_decidedAt := Some now,
              ar_decidedBy := Some u, ar_decision := Some d, ar_comment := c\<rparr>))) > 10000"
  shows "fst (getApprovalStatus now' e s (snd (submitDecision now e s u d c store))) = None"
proof -
  have "distinct (map fst store)" using assms(1) by (simp add: store_ok_def)
  with assms show ?thesis
    by (cases d) (simp_all add: approval_defs evictTerminalEntries_def MAX_TERMINAL_ENTRIES_def
        map_of_filter_values decided_status_def)
qed

end
