(* ===== verification/StepExecutors.thy ===== *)
theory StepExecutors
  imports PipelineService ApprovalService
begin

text \<open>
  The step executors of \<^verbatim>\<open>services/pipeline/src/services/execution-engine.ts\<close> (lines 57-1395): path
  and input resolution, hook chains, and one executor per step type.

  The other services (execution, ingestion, plugin, webhook targets, JSONata, child runs, the
  clock, the cancellation flag, the approval store) are the record \<^verbatim>\<open>Env\<close> of functions.  Each takes a
  tick, the path of the interaction in the run (main-loop iteration, attempt, branch,
  position in the branch), so an answer may differ between any two calls.  Log lines are
  output only and are left out; an error message keeps its fixed leading text.  \<open>None\<close> as the
  result of an executor means it did not finish within the fuel.
\<close>

section \<open>Parameters\<close>

type_synonym tick = "nat list"

datatype HttpOutcome = NetworkError string | HttpResponse nat "jsval option"

record ExecutionRequest =
  rq_pluginId :: "string option"
  rq_language :: "Language option"
  rq_code :: "string option"
  rq_entrypoint :: string
  rq_input :: jsval
  rq_timeoutMs :: jsnum
  rq_tenantId :: string
  rq_runId :: string
  rq_stepId :: string
  rq_hookContext :: bool

datatype Criticality = Critical | Advisory

record HookRef =
  hk_hookId :: string
  hk_pluginId :: string
  hk_entrypoint :: string
  hk_criticality :: Criticality
  hk_timeoutMs :: jsnum

record Env =
  env_execute :: "tick \<Rightarrow> ExecutionRequest \<Rightarrow> HttpOutcome"
  env_ingest :: "tick \<Rightarrow> props \<Rightarrow> HttpOutcome"
  env_fetch :: "tick \<Rightarrow> WebhookConfig \<Rightarrow> jsval option \<Rightarrow> jsnum \<Rightarrow> HttpOutcome"
  env_plugin_hooks :: "tick \<Rightarrow> string \<Rightarrow> (nat \<times> HookRef list) res"
  env_jsonata :: "tick \<Rightarrow> string \<Rightarrow> jsval \<Rightarrow> jsval res"
  env_trigger :: "tick \<Rightarrow> string \<Rightarrow> props \<Rightarrow> string list \<Rightarrow> string + string"
  env_waitChild :: "tick \<Rightarrow> string \<Rightarrow> jsnum \<Rightarrow> (RunStatus \<times> jsval option) res"
  env_cancelled :: "tick \<Rightarrow> bool"
  env_poll_cancelled :: "tick \<Rightarrow> nat \<Rightarrow> bool"
  env_approvals :: "tick \<Rightarrow> approval_store"
  env_actors :: "tick \<Rightarrow> nat \<Rightarrow> approval_store \<Rightarrow> approval_store"
  env_clock :: "tick \<Rightarrow> nat \<Rightarrow> nat"
  env_settle :: "tick \<Rightarrow> nat list"
  env_id :: "tick \<Rightarrow> nat"
  env_pow :: "jsnum \<Rightarrow> nat \<Rightarrow> jsnum"

record EngineConfig =
  cfg_host :: js_host
  cfg_stepDefaultTimeoutMs :: jsnum
  cfg_hasApproval :: bool
  cfg_hasSubWorkflow :: bool

record RunContext =
  rc_runId :: string
  rc_tenantId :: string
  rc_pipelineId :: string
  rc_definition :: PipelineDefinition
  rc_runInput :: props
  rc_runInputId :: nat
  rc_stepOutputs :: "(string, jsval) dict"
  rc_callStack :: "string list"
  rc_queueWaitMs :: nat

section \<open>Flattening, timeouts, paths\<close>

fun collectAllStepsFlat :: "Step list \<Rightarrow> Step list" and flat_branches :: "ParallelBranch list \<Rightarrow> Step list" where
  "collectAllStepsFlat [] = []"
| "collectAllStepsFlat (s # ss) =
     s # (case s of ParallelStep _ brs _ \<Rightarrow> flat_branches brs | _ \<Rightarrow> []) @ collectAllStepsFlat ss"
| "flat_branches [] = []"
| "flat_branches (Branch _ _ ss # brs) = collectAllStepsFlat ss @ flat_branches brs"

definition MIN_STEP_TIMEOUT_MS :: jsnum where
  "MIN_STEP_TIMEOUT_MS = jint 5000"

definition adjustTimeoutForQueueWait :: "jsnum \<Rightarrow> nat \<Rightarrow> jsnum" where
  "adjustTimeoutForQueueWait timeoutMs queueWaitMs =
     jmax [jsub timeoutMs (jint (int queueWaitMs)), MIN_STEP_TIMEOUT_MS]"

definition SUB_WORKFLOW_MAX_DEPTH :: nat where
  "SUB_WORKFLOW_MAX_DEPTH = 5"

definition step_timeout :: "EngineConfig \<Rightarrow> RunContext \<Rightarrow> jsnum option \<Rightarrow> jsnum" where
  "step_timeout cfg ctx own =
     (case own of
        Some t \<Rightarrow> t
      | None \<Rightarrow> (case pd_stepTimeout (rc_definition ctx) of
                   Some t \<Rightarrow> t
                 | None \<Rightarrow> cfg_stepDefaultTimeoutMs cfg))"

text \<open>\<^verbatim>\<open>path.replace(/^\$\.?/, "")\<close>.\<close>

definition strip_root :: "string \<Rightarrow> string" where
  "strip_root p =
     (case p of
        c # r \<Rightarrow> if c = CHR ''$'' then (case r of d # r' \<Rightarrow> if d = CHR ''.'' then r' else r | [] \<Rightarrow> [])
                 else p
      | [] \<Rightarrow> [])"

text \<open>\<^verbatim>\<open>split(/\.|\[(\d+)\]/)\<close>: the captured index becomes a part of its own.\<close>

function split_path :: "string \<Rightarrow> string \<Rightarrow> string list" where
  "split_path acc [] = [acc]"
| "split_path acc (c # cs) =
     (let ds = takeWhile is_digit cs; rest = dropWhile is_digit cs
      in if c = CHR ''.'' then acc # split_path [] cs
         else if c = CHR ''['' \<and> ds \<noteq> [] \<and> rest \<noteq> [] \<and> hd rest = CHR '']''
         then acc # ds # split_path [] (tl rest)
         else split_path (acc @ [c]) cs)"
  by pat_completeness auto
termination
proof (relation "measure (\<lambda>(acc, s). length s)"; clarsimp)
  fix cs :: string
  have "length (tl (dropWhile is_digit cs)) \<le> length (dropWhile is_digit cs)" by simp
  also have "\<dots> \<le> length cs" by (rule length_dropWhile_le)
  finally show "length (dropWhile is_digit cs) - Suc 0 < Suc (length cs)" by simp
qed

fun walk_path :: "jsval \<Rightarrow> string list \<Rightarrow> jsval" where
  "walk_path cur [] = cur"
| "walk_path cur (p # ps) = (if is_object cur then walk_path (member_get cur p) ps else VUndef)"

definition getPath :: "jsval \<Rightarrow> string \<Rightarrow> jsval" where
  "getPath obj path =
     (if is_nullish obj then VUndef
      else let cleanPath = strip_root path
           in if cleanPath = [] then obj
              else walk_path obj (filter (\<lambda>p. p \<noteq> []) (split_path [] cleanPath)))"

definition input_value :: "RunContext \<Rightarrow> InputSource \<Rightarrow> jsval" where
  "input_value ctx src =
     (case src of
        FromLiteral v \<Rightarrow> v
      | FromPipelineInput p \<Rightarrow>
          let v = VObj (rc_runInputId ctx) (rc_runInput ctx)
          in (case p of None \<Rightarrow> v | Some path \<Rightarrow> getPath v path)
      | FromStep sid p \<Rightarrow>
          let v = (case dict_get (rc_stepOutputs ctx) sid of None \<Rightarrow> VUndef | Some v \<Rightarrow> v)
          in (case p of None \<Rightarrow> v | Some path \<Rightarrow> getPath v path))"

definition resolveStepInput :: "RunContext \<Rightarrow> Step \<Rightarrow> props" where
  "resolveStepInput ctx s =
     (case sb_inputs (base s) of
        None \<Rightarrow> []
      | Some inputs \<Rightarrow> fold (\<lambda>(f, src) out. obj_set out f (input_value ctx src)) inputs [])"

section \<open>Execution service and hooks\<close>

definition http_ok :: "nat \<Rightarrow> bool" where
  "http_ok status \<longleftrightarrow> 200 \<le> status \<and> status \<le> 299"

text \<open>The JSON body of a successful response, or the error the caller throws.\<close>

definition json_or_throw :: "string \<Rightarrow> HttpOutcome \<Rightarrow> jsval res" where
  "json_or_throw msg r =
     (case r of
        NetworkError m \<Rightarrow> Inl (PlainError m)
      | HttpResponse status body \<Rightarrow>
          if http_ok status
          then (case body of None \<Rightarrow> Inl (PlainError ''Unexpected token in JSON'') | Some v \<Rightarrow> Inr v)
          else Inl (StepExecutionError msg))"

definition callExecutionService :: "Env \<Rightarrow> tick \<Rightarrow> ExecutionRequest \<Rightarrow> jsval res" where
  "callExecutionService env t request =
     json_or_throw ''Execution Service returned'' (env_execute env t request)"

text \<open>\<^verbatim>\<open>response.output\<close> of a parsed body; reading it on null throws.\<close>

definition output_of :: "jsval \<Rightarrow> jsval res" where
  "output_of v = (if is_nullish v then Inl TypeError else Inr (member_get v ''output''))"

text \<open>A status outside 200-299 gives no hooks; a failed request throws.\<close>

definition resolveHookChain :: "Env \<Rightarrow> tick \<Rightarrow> string \<Rightarrow> HookRef list res" where
  "resolveHookChain env t stage =
     rbind (env_plugin_hooks env t stage) (\<lambda>(status, hooks). Inr (if http_ok status then hooks else []))"

fun executeHookChain ::
  "Env \<Rightarrow> tick \<Rightarrow> nat \<Rightarrow> string \<Rightarrow> string \<Rightarrow> string \<Rightarrow> HookRef list \<Rightarrow> jsval \<Rightarrow> jsval res" where
  "executeHookChain env t i tenantId runId stepId [] payload = Inr payload"
| "executeHookChain env t i tenantId runId stepId (hook # hooks) payload =
     (let request = \<lparr>rq_pluginId = Some (hk_pluginId hook), rq_language = None, rq_code = None,
                      rq_entrypoint = hk_entrypoint hook, rq_input = payload,
                      rq_timeoutMs = hk_timeoutMs hook, rq_tenantId = tenantId, rq_runId = runId,
                      rq_stepId = stepId, rq_hookContext = True\<rparr>
      in case rbind (callExecutionService env (i # t) request) output_of of
           Inr out \<Rightarrow> executeHookChain env t (Suc i) tenantId runId stepId hooks out
         | Inl e \<Rightarrow>
             if hk_criticality hook = Critical then Inl e
             else executeHookChain env t (Suc i) tenantId runId stepId hooks payload)"

text \<open>\<^verbatim>\<open>skipIf\<close> and other JSONata conditions: too long throws, else truthiness of the value.\<close>

definition js_boolean :: "jsval \<Rightarrow> bool" where
  "js_boolean v =
     (case v of
        VUndef \<Rightarrow> False | VNull \<Rightarrow> False | VBool b \<Rightarrow> b
      | VNum n \<Rightarrow> \<not> (n = NaN \<or> n = Fin 0) | VStr s \<Rightarrow> s \<noteq> [] | _ \<Rightarrow> True)"

definition evaluateConditional :: "Env \<Rightarrow> tick \<Rightarrow> string \<Rightarrow> jsval \<Rightarrow> bool res" where
  "evaluateConditional env t expression context =
     (if length expression > 5000 then Inl (PlainError ''Conditional expression exceeds 5000 character limit.'')
      else rbind (env_jsonata env t expression context) (\<lambda>v. Inr (js_boolean v)))"

section \<open>One executor per step type\<close>

definition execution_request ::
  "EngineConfig \<Rightarrow> RunContext \<Rightarrow> Step \<Rightarrow> props \<Rightarrow> nat \<Rightarrow> ExecutionRequest" where
  "execution_request cfg ctx s resolvedInput i =
     \<lparr>rq_pluginId = (case s of TransformerStep _ p \<Rightarrow> Some p | _ \<Rightarrow> None),
      rq_language = (case s of CodeStep _ l _ _ \<Rightarrow> Some l | _ \<Rightarrow> None),
      rq_code = (case s of CodeStep _ _ c _ \<Rightarrow> Some c | _ \<Rightarrow> None),
      rq_entrypoint = (case s of CodeStep _ _ _ (Some e) \<Rightarrow> e | _ \<Rightarrow> ''main''),
      rq_input = VObj i resolvedInput,
      rq_timeoutMs = adjustTimeoutForQueueWait (step_timeout cfg ctx (sb_timeout (base s))) (rc_queueWaitMs ctx),
      rq_tenantId = rc_tenantId ctx, rq_runId = rc_runId ctx, rq_stepId = step_id s,
      rq_hookContext = False\<rparr>"

definition executeCodeStep :: "Env \<Rightarrow> EngineConfig \<Rightarrow> RunContext \<Rightarrow> tick \<Rightarrow> Step \<Rightarrow> props \<Rightarrow> jsval res" where
  "executeCodeStep env cfg ctx t s resolvedInput =
     rbind (callExecutionService env t (execution_request cfg ctx s resolvedInput (env_id env t))) output_of"

text \<open>
  Records are objects; another element in a record array is outside the model and is
  reported as a type error.
\<close>

definition as_record :: "jsval \<Rightarrow> DataRecord res" where
  "as_record v = (case v of VObj _ ps \<Rightarrow> Inr ps | _ \<Rightarrow> Inl TypeError)"

definition extractRecordArray :: "jsval \<Rightarrow> jsval list res" where
  "extractRecordArray output =
     (case output of
        VUndef \<Rightarrow> Inl (StepExecutionError ''Transform join/dataSource: step produced no output.'')
      | VNull \<Rightarrow> Inl (StepExecutionError ''Transform join/dataSource: step produced no output.'')
      | VObj i ps \<Rightarrow> (case prop_get ps ''records'' of VArr _ vs \<Rightarrow> Inr vs | _ \<Rightarrow> Inr [output])
      | VArr _ vs \<Rightarrow> Inr vs
      | _ \<Rightarrow> Inl (StepExecutionError ''Transform: step output is not a record array''))"

definition prior_output :: "RunContext \<Rightarrow> string \<Rightarrow> jsval" where
  "prior_output ctx sid = (case dict_get (rc_stepOutputs ctx) sid of None \<Rightarrow> VUndef | Some v \<Rightarrow> v)"

definition input_records :: "RunContext \<Rightarrow> nat \<Rightarrow> string option \<Rightarrow> props \<Rightarrow> jsval list res" where
  "input_records ctx i dataSource resolvedInput =
     (case dataSource of
        Some sid \<Rightarrow> extractRecordArray (prior_output ctx sid)
      | None \<Rightarrow>
          (case prop_get resolvedInput ''records'' of
             VArr _ vs \<Rightarrow> Inr vs
           | _ \<Rightarrow> Inr [VObj i resolvedInput]))"

definition apply_transform ::
  "js_host \<Rightarrow> RunContext \<Rightarrow> TransformOperation \<Rightarrow> DataRecord list \<Rightarrow> DataRecord list res" where
  "apply_transform h ctx op records =
     (case op of
        TDedup keyFields strategy \<Rightarrow> dedup records keyFields strategy
      | TFilter condition \<Rightarrow> filter_records h records condition
      | TMap mappings \<Rightarrow> mapFields h records mappings
      | TAggregate groupBy aggs \<Rightarrow> aggregate records groupBy aggs
      | TPivot c \<Rightarrow> pivot records c
      | TUnpivot c \<Rightarrow> unpivot records c
      | TJoin rightSource c \<Rightarrow>
          rbind (extractRecordArray (prior_output ctx rightSource)) (\<lambda>vs.
          rbind (rmap as_record vs) (\<lambda>rights. join_records records rights c))
      | TSort fs \<Rightarrow> sort_records h records fs
      | TLimit n \<Rightarrow> limit records n
      | TRename fm \<Rightarrow> rename records fm)"

definition executeTransformStep ::
  "js_host \<Rightarrow> RunContext \<Rightarrow> nat \<Rightarrow> string option \<Rightarrow> TransformOperation \<Rightarrow> props \<Rightarrow> jsval res" where
  "executeTransformStep h ctx i dataSource op resolvedInput =
     rbind (input_records ctx i dataSource resolvedInput) (\<lambda>vs.
     rbind (rmap as_record vs) (\<lambda>records.
     rbind (apply_transform h ctx op records) (\<lambda>out.
       Inr (VObj i [(''records'', VArr (Suc i) (map (VObj (Suc i)) out)),
                    (''count'', VNum (jint (int (length out))))]))))"

definition connector_body ::
  "RunContext \<Rightarrow> StepBase \<Rightarrow> string \<Rightarrow> SyncMode option \<Rightarrow> bool \<Rightarrow> props \<Rightarrow> props" where
  "connector_body ctx b instId mode wait resolvedInput =
     obj_set_all
       ([(''connectorInstanceId'', VStr instId), (''tenantId'', VStr (rc_tenantId ctx)),
         (''runId'', VStr (rc_runId ctx)), (''stepId'', VStr (sb_id b))]
        @ (case mode of None \<Rightarrow> [] | Some m \<Rightarrow>
             [(''syncMode'', VStr (case m of FullSync \<Rightarrow> ''full'' | Incremental \<Rightarrow> ''incremental''))])
        @ [(''waitForCompletion'', VBool wait)])
       resolvedInput"

definition executeConnectorStep ::
  "Env \<Rightarrow> RunContext \<Rightarrow> tick \<Rightarrow> StepBase \<Rightarrow> string \<Rightarrow> SyncMode option \<Rightarrow> bool \<Rightarrow> props \<Rightarrow> jsval res" where
  "executeConnectorStep env ctx t b instId mode wait resolvedInput =
     rbind (json_or_throw ''Ingestion Service returned''
              (env_ingest env t (connector_body ctx b instId mode wait resolvedInput))) output_of"

definition webhook_body :: "Env \<Rightarrow> tick \<Rightarrow> WebhookConfig \<Rightarrow> props \<Rightarrow> jsval res" where
  "webhook_body env t w resolvedInput =
     (case wh_body w of
        VStr s \<Rightarrow>
          if starts_with s ''=''
          then env_jsonata env t (drop 1 s) (VObj (env_id env t) [(''input'', VObj (Suc (env_id env t)) resolvedInput)])
          else Inr (VStr s)
      | v \<Rightarrow> Inr v)"

definition executeWebhookStep :: "Env \<Rightarrow> tick \<Rightarrow> StepBase \<Rightarrow> WebhookConfig \<Rightarrow> props \<Rightarrow> jsval res" where
  "executeWebhookStep env t b w resolvedInput =
     (if isUrlSsrfBlocked (wh_url w)
      then Inl (StepExecutionError ''Webhook step URL is blocked by the SSRF policy.'')
      else rbind (webhook_body env t w resolvedInput) (\<lambda>body.
        let timeoutMs = jmin [(case sb_timeout b of Some x \<Rightarrow> x | None \<Rightarrow> jint 30000), jint 120000];
            sent = (if body \<noteq> VUndef \<and> wh_method w \<noteq> GET then Some body else None)
        in case env_fetch env t w sent timeoutMs of
             NetworkError m \<Rightarrow> Inl (StepExecutionError ''Webhook step HTTP request failed'')
           | HttpResponse status rb \<Rightarrow>
               let output = VObj (env_id env t)
                     [(''statusCode'', VNum (jint (int status))),
                      (''body'', (case rb of None \<Rightarrow> VNull | Some v \<Rightarrow> v))]
               in (case wh_responseMapping w of
                     None \<Rightarrow> Inr output
                   | Some m \<Rightarrow> rbind (env_jsonata env (0 # t) m output)
                                 (\<lambda>v. Inr (if is_nullish v then output else v)))))"

definition executeWaitStep :: "Env \<Rightarrow> js_host \<Rightarrow> tick \<Rightarrow> nat \<Rightarrow> jsval res" where
  "executeWaitStep env h t durationMs =
     (let started = env_clock env t 0; resumed = env_clock env t 1
      in Inr (VObj (env_id env t)
           [(''durationMs'', VNum (jint (int durationMs))),
            (''actualDurationMs'', VNum (jint (int resumed - int started))),
            (''resumedAt'', VStr (host_toISOString h (jint (int resumed))))]))"

text \<open>
  The poll loop of an approval step.  It shares the approval store with other actors:
  \<^verbatim>\<open>env_actors\<close> is what they do to it while the loop sleeps before poll \<open>n\<close>.
\<close>

definition opt_str :: "string option \<Rightarrow> jsval" where
  "opt_str o' = (case o' of None \<Rightarrow> VNull | Some s \<Rightarrow> VStr s)"

definition approval_output :: "js_host \<Rightarrow> nat \<Rightarrow> ApprovalRecord \<Rightarrow> jsval" where
  "approval_output h i r =
     VObj i [(''decision'', VStr ''approved''), (''decidedBy'', opt_str (ar_decidedBy r)),
             (''decidedAt'', (case ar_decidedAt r of None \<Rightarrow> VNull
                              | Some d \<Rightarrow> VStr (host_toISOString h (jint (int d))))),
             (''comment'', opt_str (ar_comment r))]"

fun approval_poll ::
  "nat \<Rightarrow> Env \<Rightarrow> js_host \<Rightarrow> tick \<Rightarrow> nat \<Rightarrow> string \<Rightarrow> string \<Rightarrow> approval_store \<Rightarrow> jsval res option" where
  "approval_poll 0 env h t n runId stepId store = None"
| "approval_poll (Suc fuel) env h t n runId stepId store =
     (if env_poll_cancelled env t n
      then Some (Inl (StepExecutionError ''Approval step interrupted by pipeline cancellation.''))
      else case getApprovalStatus (env_clock env t (Suc n)) runId stepId (env_actors env t n store) of
             (None, _) \<Rightarrow> Some (Inl (StepExecutionError ''Approval record unexpectedly missing from store.''))
           | (Some r, store') \<Rightarrow>
               (case ar_status r of
                  ApApproved \<Rightarrow> Some (Inr (approval_output h (env_id env t) r))
                | ApRejected \<Rightarrow> Some (Inl (StepExecutionError ''Approval step rejected''))
                | ApTimedOut \<Rightarrow> Some (Inl (StepExecutionError ''Approval step timed out without a decision.''))
                | ApPending \<Rightarrow> approval_poll fuel env h t (Suc n) runId stepId store'))"

definition executeApprovalStep ::
  "nat \<Rightarrow> Env \<Rightarrow> EngineConfig \<Rightarrow> RunContext \<Rightarrow> tick \<Rightarrow> StepBase \<Rightarrow> ApprovalConfig \<Rightarrow> jsval res option" where
  "executeApprovalStep fuel env cfg ctx t b a =
     (if \<not> cfg_hasApproval cfg
      then Some (Inl (StepExecutionError ''Approval step requires an ApprovalService but none was provided.''))
      else let (_, store) = requestApproval (env_clock env t 0) (rc_runId ctx) (sb_id b) (ap_approvers a)
                 (ap_message a) (ap_timeoutMs a) (env_approvals env t)
           in approval_poll fuel env (cfg_host cfg) t 0 (rc_runId ctx) (sb_id b) store)"

definition steps_context :: "nat \<Rightarrow> (string, jsval) dict \<Rightarrow> props" where
  "steps_context i outputs = fold (\<lambda>(sid, out) o'. obj_set o' sid (VObj i [(''output'', out)])) outputs []"

definition resolveSubWorkflowInput :: "RunContext \<Rightarrow> nat \<Rightarrow> (string \<times> string) list \<Rightarrow> props" where
  "resolveSubWorkflowInput ctx i inputMapping =
     (let parentCtx = VObj i [(''input'', VObj (rc_runInputId ctx) (rc_runInput ctx)),
                              (''steps'', VObj i (steps_context i (rc_stepOutputs ctx)))]
      in fold (\<lambda>(childField, parentPath) out. obj_set out childField (getPath parentCtx parentPath))
           inputMapping [])"

definition full_call_chain :: "RunContext \<Rightarrow> string list" where
  "full_call_chain ctx = rc_callStack ctx @ [rc_pipelineId ctx]"

definition sub_workflow_guard :: "EngineConfig \<Rightarrow> RunContext \<Rightarrow> SubWorkflowConfig \<Rightarrow> js_error option" where
  "sub_workflow_guard cfg ctx w =
     (if length (rc_callStack ctx) \<ge> SUB_WORKFLOW_MAX_DEPTH then Some SubWorkflowDepthExceededError
      else if sw_pipelineId w \<in> set (full_call_chain ctx) then Some SubWorkflowCircularDependencyError
      else if \<not> cfg_hasSubWorkflow cfg
      then Some (StepExecutionError ''Sub-workflow step cannot execute: subWorkflowTrigger is not configured'')
      else None)"

definition run_status_text :: "RunStatus \<Rightarrow> string" where
  "run_status_text st =
     (case st of RunPending \<Rightarrow> ''pending'' | RunRunning \<Rightarrow> ''running'' | RunCompleted \<Rightarrow> ''completed''
      | RunFailed \<Rightarrow> ''failed'' | RunCancelled \<Rightarrow> ''cancelled'')"

definition await_child ::
  "Env \<Rightarrow> EngineConfig \<Rightarrow> RunContext \<Rightarrow> tick \<Rightarrow> SubWorkflowConfig \<Rightarrow> string \<Rightarrow> jsval res" where
  "await_child env cfg ctx t w childRunId =
     (case env_waitChild env t childRunId (step_timeout cfg ctx (sw_timeoutMs w)) of
        Inl SubWorkflowTimeoutError \<Rightarrow> Inl SubWorkflowTimeoutError
      | Inl _ \<Rightarrow> Inl (StepExecutionError ''Sub-workflow step error while waiting for child run'')
      | Inr (status, out) \<Rightarrow>
          if status = RunFailed \<or> status = RunCancelled then Inl SubWorkflowChildFailedError
          else Inr (VObj (env_id env t)
                 ([(''childRunId'', VStr childRunId), (''childPipelineId'', VStr (sw_pipelineId w)),
                   (''status'', VStr (run_status_text status))]
                  @ (case out of None \<Rightarrow> [] | Some v \<Rightarrow> [(''output'', v)]))))"

definition executeSubWorkflowStep ::
  "Env \<Rightarrow> EngineConfig \<Rightarrow> RunContext \<Rightarrow> tick \<Rightarrow> SubWorkflowConfig \<Rightarrow> jsval res" where
  "executeSubWorkflowStep env cfg ctx t w =
     (case sub_workflow_guard cfg ctx w of
        Some e \<Rightarrow> Inl e
      | None \<Rightarrow>
          let childInput = (case sw_inputMapping w of None \<Rightarrow> []
                            | Some m \<Rightarrow> resolveSubWorkflowInput ctx (env_id env t) m)
          in case env_trigger env t (sw_pipelineId w) childInput (full_call_chain ctx) of
               Inl msg \<Rightarrow>
                 if str_includes msg ''not found'' \<or> str_includes msg ''PIPELINE_NOT_FOUND''
                 then Inl SubWorkflowPipelineNotFoundError
                 else Inl (StepExecutionError ''Sub-workflow step failed to trigger child pipeline'')
             | Inr childRunId \<Rightarrow>
                 if \<not> sw_waitForCompletion w
                 then Inr (VObj (env_id env t)
                        [(''childRunId'', VStr childRunId), (''childPipelineId'', VStr (sw_pipelineId w)),
                         (''status'', VStr ''pending'')])
                 else await_child env cfg ctx t w childRunId)"

definition computeBackoffMs :: "Env \<Rightarrow> jsnum \<Rightarrow> jsnum \<Rightarrow> nat \<Rightarrow> jsnum" where
  "computeBackoffMs env backoff multiplier attempt = jround (jmul backoff (env_pow env multiplier attempt))"

section \<open>Dispatch, branches and parallel steps\<close>

definition getNextStepId :: "Step \<Rightarrow> string option \<Rightarrow> Step list \<Rightarrow> string option" where
  "getNextStepId s conditionalNextId steps =
     (case (s, conditionalNextId) of
        (ConditionalStep _ _ _ _, Some n) \<Rightarrow> Some n
      | _ \<Rightarrow>
          (case find_index (\<lambda>x. step_id x = step_id s) steps of
             None \<Rightarrow> None
           | Some i \<Rightarrow> if Suc i < length steps then Some (step_id (steps ! Suc i)) else None))"

type_synonym StepResult = "jsval \<times> string option"

definition executeConditionalStep ::
  "Env \<Rightarrow> js_host \<Rightarrow> RunContext \<Rightarrow> tick \<Rightarrow> Condition \<Rightarrow> string \<Rightarrow> string option \<Rightarrow> props \<Rightarrow> StepResult" where
  "executeConditionalStep env h ctx t c thenId elseId resolvedInput =
     (let dataContext = obj_set_all (obj_set_all [] (rc_runInput ctx)) resolvedInput;
          result = evaluateCondition h dataContext c;
          nextId = (if result then Some thenId else elseId)
      in (VObj (env_id env t)
            [(''condition'', VBool result),
             (''nextStepId'', (case nextId of None \<Rightarrow> VNull | Some n \<Rightarrow> VStr n))], nextId))"

text \<open>Every step type but \<^verbatim>\<open>parallel\<close>.\<close>

definition executeSimpleStep ::
  "nat \<Rightarrow> Env \<Rightarrow> EngineConfig \<Rightarrow> RunContext \<Rightarrow> tick \<Rightarrow> Step \<Rightarrow> StepResult res option" where
  "executeSimpleStep fuel env cfg ctx t s =
     (let resolvedInput = resolveStepInput ctx s;
          h = cfg_host cfg;
          plain = (\<lambda>r. rbind r (\<lambda>v. Inr (v, None)))
      in case s of
           CodeStep _ _ _ _ \<Rightarrow> Some (plain (executeCodeStep env cfg ctx t s resolvedInput))
         | ConnectorStep b i m w \<Rightarrow> Some (plain (executeConnectorStep env ctx t b i m w resolvedInput))
         | TransformerStep _ _ \<Rightarrow> Some (plain (executeCodeStep env cfg ctx t s resolvedInput))
         | TransformStep _ ds op \<Rightarrow> Some (plain (executeTransformStep h ctx (env_id env t) ds op resolvedInput))
         | ConditionalStep _ c th el \<Rightarrow> Some (Inr (executeConditionalStep env h ctx t c th el resolvedInput))
         | ParallelStep _ _ _ \<Rightarrow> None
         | WebhookStep b w \<Rightarrow> Some (plain (executeWebhookStep env t b w resolvedInput))
         | WaitStep _ d \<Rightarrow> Some (plain (executeWaitStep env h t d))
         | ApprovalStep b a \<Rightarrow> map_option plain (executeApprovalStep fuel env cfg ctx t b a)
         | SubWorkflowStep _ w \<Rightarrow> Some (plain (executeSubWorkflowStep env cfg ctx t w)))"

text \<open>
  \<^verbatim>\<open>Promise.all\<close> and \<^verbatim>\<open>Promise.race\<close> over the branches: \<open>order\<close> is the order in which they settle,
  and a branch without a result never does.
\<close>

definition settled_first :: "nat list \<Rightarrow> ('a \<Rightarrow> bool) \<Rightarrow> 'a option list \<Rightarrow> 'a option" where
  "settled_first order P rs =
     (let picks = map (\<lambda>i. rs ! i) (filter (\<lambda>i. i < length rs) (order @ [0..<length rs]))
      in map_option the (find (\<lambda>r. case r of None \<Rightarrow> False | Some x \<Rightarrow> P x) picks))"

definition parallel_all :: "nat \<Rightarrow> nat list \<Rightarrow> string list \<Rightarrow> jsval res option list \<Rightarrow> jsval res option" where
  "parallel_all i order ids rs =
     (case settled_first order isl rs of
        Some r \<Rightarrow> Some r
      | None \<Rightarrow>
          if None \<in> set rs then None
          else Some (Inr (VObj i (fold (\<lambda>(k, r) out. obj_set out k (projr (the r))) (zip ids rs) []))))"

definition parallel_any :: "nat \<Rightarrow> nat list \<Rightarrow> string list \<Rightarrow> jsval res option list \<Rightarrow> jsval res option" where
  "parallel_any i order ids rs =
     (settled_first order (\<lambda>_. True)
        (map (\<lambda>(k, r). map_option (\<lambda>x. rbind x (\<lambda>v. Inr (VObj i [(k, v)]))) r) (zip ids rs)))"

definition step_map :: "Step list \<Rightarrow> (string, Step) dict" where
  "step_map steps = fold (\<lambda>s d. map_set d (step_id s) s) steps []"

function (sequential) executeStep ::
    "nat \<Rightarrow> Env \<Rightarrow> EngineConfig \<Rightarrow> RunContext \<Rightarrow> tick \<Rightarrow> Step \<Rightarrow> StepResult res option"
  and runBranches ::
    "nat \<Rightarrow> Env \<Rightarrow> EngineConfig \<Rightarrow> RunContext \<Rightarrow> tick \<Rightarrow> nat \<Rightarrow> ParallelBranch list \<Rightarrow> jsval res option list"
  and traverseBranch ::
    "nat \<Rightarrow> Env \<Rightarrow> EngineConfig \<Rightarrow> RunContext \<Rightarrow> tick \<Rightarrow> nat \<Rightarrow> Step list \<Rightarrow> string option \<Rightarrow> jsval \<Rightarrow> jsval res option" where
  "executeStep fuel env cfg ctx t s =
     (case s of
        ParallelStep b brs mode \<Rightarrow>
          let rs = runBranches fuel env cfg ctx t 0 brs;
              ids = map (\<lambda>br. case br of Branch i _ _ \<Rightarrow> i) brs
          in map_option (\<lambda>r. rbind r (\<lambda>v. Inr (v, None)))
               (if mode = WaitAll then parallel_all (env_id env t) (env_settle env t) ids rs
                else parallel_any (env_id env t) (env_settle env t) ids rs)
      | _ \<Rightarrow> executeSimpleStep fuel env cfg ctx t s)"
| "runBranches fuel env cfg ctx t i [] = []"
| "runBranches fuel env cfg ctx t i (Branch bid entry ss # brs) =
     traverseBranch fuel env cfg ctx (i # t) 0 ss (Some entry) VUndef
     # runBranches fuel env cfg ctx t (Suc i) brs"
| "traverseBranch 0 env cfg ctx t k ss cur lastOutput = None"
| "traverseBranch (Suc fuel) env cfg ctx t k ss cur lastOutput =
     (case cur of
        None \<Rightarrow> Some (Inr lastOutput)
      | Some sid \<Rightarrow>
          (case dict_get (step_map ss) sid of
             None \<Rightarrow> Some (Inr lastOutput)
           | Some s \<Rightarrow>
               (case executeStep fuel env cfg ctx (k # t) s of
                  None \<Rightarrow> None
                | Some (Inl e) \<Rightarrow> Some (Inl e)
                | Some (Inr (out, nxt)) \<Rightarrow>
                    traverseBranch fuel env cfg ctx t (Suc k) ss (getNextStepId s nxt ss) out)))"
  by pat_completeness auto
termination
  by (relation "measures [\<lambda>x. case x of
        Inl (fuel, _) \<Rightarrow> fuel
      | Inr (Inl (fuel, _)) \<Rightarrow> fuel
      | Inr (Inr (fuel, _)) \<Rightarrow> fuel,
      \<lambda>x. case x of
        Inl (_, _, _, _, _, s) \<Rightarrow> Suc (Suc (size s))
      | Inr (Inl (_, _, _, _, _, _, brs)) \<Rightarrow> Suc (size_list size brs)
      | Inr (Inr _) \<Rightarrow> 0]") auto

end
