(* ===== verification/ExecutionTracker.thy ===== *)
theory ExecutionTracker
  imports JsValue
begin

text \<open>
  The execution tracker of \<^verbatim>\<open>services/pipeline/src/services/execution-tracker.ts\<close>.  An emitter is
  the list of its subscribers; emitting returns the deliveries \<open>(subscriber, event)\<close>, which the
  operations hand back with the new state.  \<^verbatim>\<open>new Date()\<close> is the argument \<open>now\<close>.
\<close>

datatype RunStepStatus = StPending | StRunning | StCompleted | StFailed | StSkipped | StCancelled

datatype ExecutionOverallStatus = ExPending | ExRunning | ExCompleted | ExFailed

record StepStatus =
  ss_stepId :: string
  ss_name :: string
  ss_type :: string
  ss_status :: RunStepStatus
  ss_startedAt :: "nat option"
  ss_completedAt :: "nat option"
  ss_inputRecordCount :: "nat option"
  ss_outputRecordCount :: "nat option"
  ss_error :: "string option"
  ss_durationMs :: "int option"

record ExecutionProgress =
  completedSteps :: nat
  totalSteps :: nat
  percentage :: jsnum

record ExecutionStatus =
  ex_executionId :: string
  ex_pipelineId :: string
  ex_status :: ExecutionOverallStatus
  ex_startedAt :: nat
  ex_completedAt :: "nat option"
  ex_steps :: "StepStatus list"
  ex_progress :: ExecutionProgress
  ex_inputSnapshot :: "jsval option"
  ex_replayOf :: "string option"

record StepDefinition =
  sd_stepId :: string
  sd_name :: string
  sd_type :: string

datatype ExecutionEvent =
    StepStartEvent string StepStatus
  | StepCompleteEvent string StepStatus
  | StepErrorEvent string StepStatus
  | ExecutionCompleteEvent string ExecutionStatus

record TrackedExecution =
  te_status :: ExecutionStatus
  te_listeners :: "nat list"
  te_lastUpdatedAt :: nat

record Tracker =
  activeExecutions :: "(string, TrackedExecution) dict"
  historyByPipeline :: "(string, ExecutionStatus list) dict"

definition DEFAULT_HISTORY_LIMIT :: nat where
  "DEFAULT_HISTORY_LIMIT = 50"

definition MAX_ACTIVE_EXECUTIONS :: nat where
  "MAX_ACTIVE_EXECUTIONS = 5000"

definition INPUT_SNAPSHOT_MAX_BYTES :: nat where
  "INPUT_SNAPSHOT_MAX_BYTES = 1048576"

definition TERMINAL_STEP_STATUSES :: "RunStepStatus list" where
  "TERMINAL_STEP_STATUSES = [StCompleted, StFailed, StSkipped, StCancelled]"

definition computeProgress :: "StepStatus list \<Rightarrow> ExecutionProgress" where
  "computeProgress steps =
     (let total = length steps;
          completed = length (filter (\<lambda>s. ss_status s \<in> set TERMINAL_STEP_STATUSES) steps)
      in if total = 0 then \<lparr>completedSteps = 0, totalSteps = 0, percentage = jint 0\<rparr>
         else \<lparr>completedSteps = completed, totalSteps = total,
               percentage = jround (jmul (jdiv (jint (int completed)) (jint (int total))) (jint 100))\<rparr>)"

definition evictOldestActiveIfNeeded :: "Tracker \<Rightarrow> Tracker" where
  "evictOldestActiveIfNeeded tr =
     (if length (activeExecutions tr) < MAX_ACTIVE_EXECUTIONS then tr
      else tr\<lparr>activeExecutions := tl (activeExecutions tr)\<rparr>)"

definition archiveToHistory :: "ExecutionStatus \<Rightarrow> Tracker \<Rightarrow> Tracker" where
  "archiveToHistory st tr =
     (let old = (case dict_get (historyByPipeline tr) (ex_pipelineId st) of None \<Rightarrow> [] | Some h \<Rightarrow> h)
      in tr\<lparr>historyByPipeline :=
              map_set (historyByPipeline tr) (ex_pipelineId st) (take DEFAULT_HISTORY_LIMIT (st # old))\<rparr>)"

definition pending_step :: "StepDefinition \<Rightarrow> StepStatus" where
  "pending_step d =
     \<lparr>ss_stepId = sd_stepId d, ss_name = sd_name d, ss_type = sd_type d, ss_status = StPending,
      ss_startedAt = None, ss_completedAt = None, ss_inputRecordCount = None,
      ss_outputRecordCount = None, ss_error = None, ss_durationMs = None\<rparr>"

definition kept_snapshot :: "jsval option \<Rightarrow> jsval option" where
  "kept_snapshot input =
     (case input of
        None \<Rightarrow> None
      | Some v \<Rightarrow>
          (case json v of
             Some s \<Rightarrow> if length s \<le> INPUT_SNAPSHOT_MAX_BYTES then Some v else None
           | None \<Rightarrow> None))"

definition startExecution ::
  "nat \<Rightarrow> string \<Rightarrow> string \<Rightarrow> StepDefinition list \<Rightarrow> jsval option \<Rightarrow> string option \<Rightarrow> Tracker \<Rightarrow> Tracker res" where
  "startExecution now executionId pipelineId steps inputSnapshot replayOf tr =
     (if executionId = [] then Inl (PlainError ''executionId must not be empty.'')
      else if pipelineId = [] then Inl (PlainError ''pipelineId must not be empty.'')
      else if steps = [] then Inl (PlainError ''steps must contain at least one step definition.'')
      else let tr1 = evictOldestActiveIfNeeded tr;
               stepStatuses = map pending_step steps;
               st = \<lparr>ex_executionId = executionId, ex_pipelineId = pipelineId, ex_status = ExRunning,
                     ex_startedAt = now, ex_completedAt = None, ex_steps = stepStatuses,
                     ex_progress = computeProgress stepStatuses,
                     ex_inputSnapshot = kept_snapshot inputSnapshot, ex_replayOf = replayOf\<rparr>
           in Inr (tr1\<lparr>activeExecutions := map_set (activeExecutions tr1) executionId
                       \<lparr>te_status = st, te_listeners = [], te_lastUpdatedAt = now\<rparr>\<rparr>))"

record StepResultInfo =
  ri_error :: "string option"
  ri_inputRecordCount :: "nat option"
  ri_outputRecordCount :: "nat option"

definition or_old :: "'a option \<Rightarrow> 'a option \<Rightarrow> 'a option" where
  "or_old new old = (case new of None \<Rightarrow> old | Some x \<Rightarrow> Some x)"

definition update_step :: "nat \<Rightarrow> RunStepStatus \<Rightarrow> StepResultInfo \<Rightarrow> StepStatus \<Rightarrow> StepStatus" where
  "update_step now status result s =
     (let s1 = s\<lparr>ss_status := status\<rparr>;
          s2 = (if status = StRunning then s1\<lparr>ss_startedAt := Some now\<rparr> else s1);
          s3 = (if status \<in> set TERMINAL_STEP_STATUSES
                then s2\<lparr>ss_completedAt := Some now,
                        ss_durationMs := (case ss_startedAt s2 of
                            None \<Rightarrow> ss_durationMs s2 | Some t \<Rightarrow> Some (int now - int t))\<rparr>
                else s2)
      in s3\<lparr>ss_error := or_old (ri_error result) (ss_error s3),
            ss_inputRecordCount := or_old (ri_inputRecordCount result) (ss_inputRecordCount s3),
            ss_outputRecordCount := or_old (ri_outputRecordCount result) (ss_outputRecordCount s3)\<rparr>)"

definition step_event :: "string \<Rightarrow> RunStepStatus \<Rightarrow> StepStatus \<Rightarrow> ExecutionEvent" where
  "step_event executionId status s =
     (if status = StRunning then StepStartEvent executionId s
      else if status = StFailed then StepErrorEvent executionId s
      else StepCompleteEvent executionId s)"

definition emit :: "TrackedExecution \<Rightarrow> ExecutionEvent \<Rightarrow> (nat \<times> ExecutionEvent) list" where
  "emit te ev = map (\<lambda>l. (l, ev)) (te_listeners te)"

definition updateStepStatus ::
  "nat \<Rightarrow> string \<Rightarrow> string \<Rightarrow> RunStepStatus \<Rightarrow> StepResultInfo \<Rightarrow> Tracker
     \<Rightarrow> Tracker \<times> (nat \<times> ExecutionEvent) list" where
  "updateStepStatus now executionId stepId status result tr =
     (case dict_get (activeExecutions tr) executionId of
        None \<Rightarrow> (tr, [])
      | Some te \<Rightarrow>
          (case find_index (\<lambda>s. ss_stepId s = stepId) (ex_steps (te_status te)) of
             None \<Rightarrow> (tr, [])
           | Some i \<Rightarrow>
               let steps = ex_steps (te_status te);
                   updated = update_step now status result (steps ! i);
                   steps' = steps[i := updated];
                   te' = te\<lparr>te_status := (te_status te)\<lparr>ex_steps := steps', ex_progress := computeProgress steps'\<rparr>,
                            te_lastUpdatedAt := now\<rparr>
               in (tr\<lparr>activeExecutions := map_set (activeExecutions tr) executionId te'\<rparr>,
                   emit te' (step_event executionId status updated))))"

definition completeExecution ::
  "nat \<Rightarrow> string \<Rightarrow> ExecutionOverallStatus \<Rightarrow> Tracker \<Rightarrow> Tracker \<times> (nat \<times> ExecutionEvent) list" where
  "completeExecution now executionId status tr =
     (case dict_get (activeExecutions tr) executionId of
        None \<Rightarrow> (tr, [])
      | Some te \<Rightarrow>
          let st = (te_status te)\<lparr>ex_status := status, ex_completedAt := Some now,
                                  ex_progress := computeProgress (ex_steps (te_status te))\<rparr>;
              tr1 = archiveToHistory st tr
          in (tr1\<lparr>activeExecutions := map_delete (activeExecutions tr1) executionId\<rparr>,
              emit te (ExecutionCompleteEvent executionId st)))"

definition getExecutionStatus :: "string \<Rightarrow> Tracker \<Rightarrow> ExecutionStatus option" where
  "getExecutionStatus executionId tr =
     (case dict_get (activeExecutions tr) executionId of
        Some te \<Rightarrow> Some (te_status te)
      | None \<Rightarrow> find (\<lambda>e. ex_executionId e = executionId) (concat (dict_values (historyByPipeline tr))))"

definition getExecutionHistory :: "string \<Rightarrow> int \<Rightarrow> Tracker \<Rightarrow> ExecutionStatus list res" where
  "getExecutionHistory pipelineId lmt tr =
     (if lmt \<le> 0 then Inl (PlainError ''limit must be a positive integer.'')
      else Inr (take (nat lmt)
             (case dict_get (historyByPipeline tr) pipelineId of None \<Rightarrow> [] | Some h \<Rightarrow> h)))"

definition subscribe :: "string \<Rightarrow> nat \<Rightarrow> Tracker \<Rightarrow> Tracker" where
  "subscribe executionId listener tr =
     (case dict_get (activeExecutions tr) executionId of
        None \<Rightarrow> tr
      | Some te \<Rightarrow> tr\<lparr>activeExecutions :=
          map_set (activeExecutions tr) executionId (te\<lparr>te_listeners := te_listeners te @ [listener]\<rparr>)\<rparr>)"

definition unsubscribe :: "string \<Rightarrow> nat \<Rightarrow> Tracker \<Rightarrow> Tracker" where
  "unsubscribe executionId listener tr =
     (case dict_get (activeExecutions tr) executionId of
        None \<Rightarrow> tr
      | Some te \<Rightarrow> tr\<lparr>activeExecutions :=
          map_set (activeExecutions tr) executionId (te\<lparr>te_listeners := remove1 listener (te_listeners te)\<rparr>)\<rparr>)"

section \<open>The tracker invariant\<close>

definition progress_ok :: "ExecutionStatus \<Rightarrow> bool" where
  "progress_ok e \<longleftrightarrow> ex_progress e = computeProgress (ex_steps e)"

definition active_ok :: "string \<Rightarrow> TrackedExecution \<Rightarrow> bool" where
  "active_ok k te \<longleftrightarrow> ex_executionId (te_status te) = k \<and> ex_status (te_status te) = ExRunning
     \<and> ex_completedAt (te_status te) = None \<and> progress_ok (te_status te)"

definition history_ok :: "string \<Rightarrow> ExecutionStatus list \<Rightarrow> bool" where
  "history_ok p h \<longleftrightarrow> length h \<le> DEFAULT_HISTORY_LIMIT
     \<and> (\<forall>e \<in> set h. ex_pipelineId e = p \<and> ex_completedAt e \<noteq> None \<and> progress_ok e
          \<and> (ex_status e = ExCompleted \<or> ex_status e = ExFailed))"

definition tracker_ok :: "Tracker \<Rightarrow> bool" where
  "tracker_ok tr \<longleftrightarrow>
     distinct (map fst (activeExecutions tr)) \<and> length (activeExecutions tr) \<le> MAX_ACTIVE_EXECUTIONS
     \<and> (\<forall>(k, te) \<in> set (activeExecutions tr). active_ok k te)
     \<and> distinct (map fst (historyByPipeline tr))
     \<and> (\<forall>(p, h) \<in> set (historyByPipeline tr). history_ok p h)"

lemma tracker_ok_active: "tracker_ok tr \<Longrightarrow> dict_get (activeExecutions tr) k = Some te \<Longrightarrow> active_ok k te"
  by (auto simp: tracker_ok_def dest: map_of_SomeD)

lemma tracker_ok_history: "tracker_ok tr \<Longrightarrow> dict_get (historyByPipeline tr) p = Some h \<Longrightarrow> history_ok p h"
  by (auto simp: tracker_ok_def dest: map_of_SomeD)

lemma map_set_member: "x \<in> set (map_set d k v) \<Longrightarrow> x = (k, v) \<or> x \<in> set d"
  by (induction d k v rule: map_set.induct) (auto split: if_splits)

text \<open>
  The contract shared by the operations: from a tracker in order, every operation gives a
  tracker in order.
\<close>

locale tracker_operation =
  fixes run :: "Tracker \<Rightarrow> Tracker"
  assumes keeps_ok: "tracker_ok tr \<Longrightarrow> tracker_ok (run tr)"
begin

lemma iterate_ok: "tracker_ok tr \<Longrightarrow> tracker_ok ((run ^^ n) tr)"
  by (induction n) (auto intro: keeps_ok)

end

lemma active_set_ok:
  assumes "tracker_ok tr" "active_ok k te" "length (map_set (activeExecutions tr) k te) \<le> MAX_ACTIVE_EXECUTIONS"
  shows "tracker_ok (tr\<lparr>activeExecutions := map_set (activeExecutions tr) k te\<rparr>)"
  using assms by (auto simp: tracker_ok_def dest!: map_set_member)

lemma map_set_known: "dict_get d k = Some x \<Longrightarrow> length (map_set d k y) = length d"
  by (auto simp: map_set_length dest: map_of_SomeD intro: rev_image_eqI)

lemma evict_active_ok: "tracker_ok tr \<Longrightarrow> tracker_ok (evictOldestActiveIfNeeded tr)
    \<and> length (activeExecutions (evictOldestActiveIfNeeded tr)) < MAX_ACTIVE_EXECUTIONS"
  by (cases "activeExecutions tr")
    (auto simp: tracker_ok_def evictOldestActiveIfNeeded_def MAX_ACTIVE_EXECUTIONS_def)

lemma startExecution_ok:
  assumes "tracker_ok tr" "startExecution now e p steps snap rep tr = Inr tr'"
  shows "tracker_ok tr'"
proof -
  let ?t = "evictOldestActiveIfNeeded tr"
  have t: "tracker_ok ?t" "length (activeExecutions ?t) < MAX_ACTIVE_EXECUTIONS" using evict_active_ok [OF assms(1)] by auto
  obtain te where "tr' = ?t\<lparr>activeExecutions := map_set (activeExecutions ?t) e te\<rparr>" "active_ok e te"
    using assms(2) by (auto simp: startExecution_def Let_def active_ok_def progress_ok_def split: if_splits)
  with active_set_ok [OF t(1)] t(2) show ?thesis by (simp add: map_set_length)
qed

interpretation start: tracker_operation
  "\<lambda>tr. case startExecution now e p steps snap rep tr of Inr tr' \<Rightarrow> tr' | Inl _ \<Rightarrow> tr"
  for now e p steps snap rep
  by unfold_locales (auto split: sum.split intro: startExecution_ok)

interpretation step: tracker_operation "\<lambda>tr. fst (updateStepStatus now e s st r tr)" for now e s st r
proof
  fix tr assume ok: "tracker_ok tr"
  show "tracker_ok (fst (updateStepStatus now e s st r tr))"
  proof (cases "dict_get (activeExecutions tr) e")
    case (Some te)
    then have "active_ok e te" using ok by (rule tracker_ok_active [rotated])
    with Some ok show ?thesis
      by (auto simp: updateStepStatus_def Let_def active_ok_def progress_ok_def map_set_known
          intro!: active_set_ok split: option.split) (simp_all add: tracker_ok_def)
  qed (use ok in \<open>simp add: updateStepStatus_def\<close>)
qed

lemma history_push:
  assumes "history_ok (ex_pipelineId st) h" "progress_ok st" "ex_completedAt st \<noteq> None"
    "ex_status st = ExCompleted \<or> ex_status st = ExFailed"
  shows "history_ok (ex_pipelineId st) (take DEFAULT_HISTORY_LIMIT (st # h))"
  using assms unfolding history_ok_def by (auto dest!: in_set_takeD)

lemma archive_ok:
  assumes "tracker_ok tr" "progress_ok st" "ex_completedAt st \<noteq> None" "ex_status st = ExCompleted \<or> ex_status st = ExFailed"
  shows "tracker_ok (archiveToHistory st tr)"
proof -
  let ?p = "ex_pipelineId st"
  let ?old = "case dict_get (historyByPipeline tr) ?p of None \<Rightarrow> [] | Some h \<Rightarrow> h"
  have "history_ok ?p ?old"
    using assms(1) by (cases "dict_get (historyByPipeline tr) ?p")
      (auto simp: history_ok_def [of _ "[]"] dest: tracker_ok_history)
  then have "history_ok ?p (take DEFAULT_HISTORY_LIMIT (st # ?old))"
    using assms(2-4) by (intro history_push)
  with assms(1) show ?thesis
    by (auto simp: tracker_ok_def archiveToHistory_def Let_def dest!: map_set_member)
qed

lemma active_delete_ok:
  "tracker_ok tr \<Longrightarrow> tracker_ok (tr\<lparr>activeExecutions := map_delete (activeExecutions tr) e\<rparr>)"
  by (auto simp: tracker_ok_def map_delete_def distinct_map_filter intro: le_trans [OF length_filter_le]
      split: if_splits)

interpretation complete: tracker_operation
  "\<lambda>tr. fst (completeExecution now e (if failed then ExFailed else ExCompleted) tr)" for now e failed
proof
  fix tr assume ok: "tracker_ok tr"
  show "tracker_ok (fst (completeExecution now e (if failed then ExFailed else ExCompleted) tr))"
    using ok by (cases "dict_get (activeExecutions tr) e")
      (auto simp: completeExecution_def Let_def progress_ok_def intro!: active_delete_ok archive_ok)
qed

lemma listeners_ok:
  assumes "tracker_ok tr" "dict_get (activeExecutions tr) e = Some te"
  shows "tracker_ok (tr\<lparr>activeExecutions := map_set (activeExecutions tr) e (te\<lparr>te_listeners := ls\<rparr>)\<rparr>)"
proof (rule active_set_ok [OF assms(1)])
  show "active_ok e (te\<lparr>te_listeners := ls\<rparr>)"
    using tracker_ok_active [OF assms] by (simp add: active_ok_def)
  show "length (map_set (activeExecutions tr) e (te\<lparr>te_listeners := ls\<rparr>)) \<le> MAX_ACTIVE_EXECUTIONS"
    using assms(1) by (simp add: map_set_known [OF assms(2)] tracker_ok_def)
qed

interpretation sub: tracker_operation "subscribe e l" for e l
  by unfold_locales (auto simp: subscribe_def split: option.split intro: listeners_ok)

interpretation unsub: tracker_operation "unsubscribe e l" for e l
  by unfold_locales (auto simp: unsubscribe_def split: option.split intro: listeners_ok)

inductive tracker_reachable :: "Tracker \<Rightarrow> bool" where
  init: "tracker_reachable \<lparr>activeExecutions = [], historyByPipeline = []\<rparr>"
| start: "tracker_reachable tr \<Longrightarrow> startExecution now e p steps snap rep tr = Inr tr' \<Longrightarrow> tracker_reachable tr'"
| update: "tracker_reachable tr \<Longrightarrow> tracker_reachable (fst (updateStepStatus now e s st r tr))"
| complete: "tracker_reachable tr \<Longrightarrow>
    tracker_reachable (fst (completeExecution now e (if failed then ExFailed else ExCompleted) tr))"
| subscribe: "tracker_reachable tr \<Longrightarrow> tracker_reachable (subscribe e l tr)"
| unsubscribe: "tracker_reachable tr \<Longrightarrow> tracker_reachable (unsubscribe e l tr)"

lemma tracker_reachable_tracker_ok: "tracker_reachable tr \<Longrightarrow> tracker_ok tr"
proof (induction rule: tracker_reachable.induct)
  case init
  then show ?case by (simp add: tracker_ok_def)
qed (blast intro: startExecution_ok step.keeps_ok complete.keeps_ok sub.keeps_ok unsub.keeps_ok)+

lemma progress_bounds:
  "completedSteps (computeProgress steps) \<le> totalSteps (computeProgress steps)
   \<and> totalSteps (computeProgress steps) = length steps"
  by (simp add: computeProgress_def Let_def)

text \<open>
  In every reachable tracker at most 5000 executions are active and at most 50
  are kept per pipeline; the progress of each tracked execution is the one its steps give,
  active executions are running, and archived ones have ended as completed or failed.
\<close>

theorem tracker_reachable_bounds:
  assumes "tracker_reachable tr"
  shows "length (activeExecutions tr) \<le> 5000
    \<and> (\<forall>k te. dict_get (activeExecutions tr) k = Some te \<longrightarrow>
         ex_status (te_status te) = ExRunning
         \<and> ex_progress (te_status te) = computeProgress (ex_steps (te_status te)))
    \<and> (\<forall>p h. dict_get (historyByPipeline tr) p = Some h \<longrightarrow> length h \<le> 50
         \<and> (\<forall>e \<in> set h. ex_pipelineId e = p \<and> (ex_status e = ExCompleted \<or> ex_status e = ExFailed)
              \<and> ex_progress e = computeProgress (ex_steps e)))"
proof -
  have ok: "tracker_ok tr" using assms by (rule tracker_reachable_tracker_ok)
  then have "length (activeExecutions tr) \<le> 5000" by (simp add: tracker_ok_def MAX_ACTIVE_EXECUTIONS_def)
  with tracker_ok_active [OF ok] tracker_ok_history [OF ok] show ?thesis
    unfolding active_ok_def history_ok_def progress_ok_def DEFAULT_HISTORY_LIMIT_def by blast
qed

definition demo_tracker :: Tracker where
  "demo_tracker = (case startExecution 5 ''r1'' ''p1'' [\<lparr>sd_stepId = ''a'', sd_name = ''A'', sd_type = ''code''\<rparr>]
      None None \<lparr>activeExecutions = [], historyByPipeline = []\<rparr> of Inr tr \<Rightarrow> tr | Inl _ \<Rightarrow> undefined)"

lemma demo_tracker_reachable: "tracker_reachable demo_tracker"
  by (rule tracker_reachable.start [OF tracker_reachable.init,
        of 5 "''r1''" "''p1''" "[\<lparr>sd_stepId = ''a'', sd_name = ''A'', sd_type = ''code''\<rparr>]" None None])
    (simp add: demo_tracker_def startExecution_def Let_def)

theorem tracker_reachable_bounds_witness:
  "tracker_reachable demo_tracker \<and> length (activeExecutions demo_tracker) \<le> 5000"
  using tracker_reachable_bounds [OF demo_tracker_reachable] demo_tracker_reachable by blast

section \<open>Completion\<close>

lemma find_append_right: "\<forall>x \<in> set xs. \<not> P x \<Longrightarrow> find P (xs @ ys) = find P ys"
  by (induction xs) auto

lemma find_concat_other:
  assumes "\<forall>e \<in> set (concat (dict_values d)). \<not> P e" "P x"
  shows "find P (concat (dict_values (map_set d k (x # ys)))) = Some x"
  using assms by (induction d k "x # ys" rule: map_set.induct) (auto simp: find_append_right)

text \<open>
  Completing an active execution tells every subscriber exactly once, makes the
  final status readable by id and first in its pipeline's history, and ends the stream: later
  step updates for it are delivered to nobody.
\<close>

theorem completeExecution_spec:
  assumes "tracker_reachable tr" "dict_get (activeExecutions tr) e = Some te"
    and "\<forall>x \<in> set (concat (dict_values (historyByPipeline tr))). ex_executionId x \<noteq> e"
    and "completeExecution now e status tr = (tr', deliveries)"
  shows "\<exists>st. getExecutionStatus e tr' = Some st \<and> ex_status st = status \<and> ex_completedAt st = Some now
      \<and> ex_steps st = ex_steps (te_status te)
      \<and> deliveries = map (\<lambda>l. (l, ExecutionCompleteEvent e st)) (te_listeners te)
      \<and> getExecutionHistory (ex_pipelineId st) 1 tr' = Inr [st]
      \<and> snd (updateStepStatus now' e s status' r tr') = []"
proof -
  let ?st = "(te_status te)\<lparr>ex_status := status, ex_completedAt := Some now,
      ex_progress := computeProgress (ex_steps (te_status te))\<rparr>"
  have id: "ex_executionId ?st = e"
    using tracker_ok_active [OF tracker_reachable_tracker_ok [OF assms(1)] assms(2)] by (simp add: active_ok_def)
  obtain h where h: "historyByPipeline tr' = map_set (historyByPipeline tr) (ex_pipelineId ?st) (?st # h)"
    and a: "activeExecutions tr' = map_delete (activeExecutions tr) e"
    and d: "deliveries = map (\<lambda>l. (l, ExecutionCompleteEvent e ?st)) (te_listeners te)"
    using assms(2,4) by (auto simp: completeExecution_def Let_def archiveToHistory_def emit_def
        DEFAULT_HISTORY_LIMIT_def)
  have "find (\<lambda>x. ex_executionId x = e) (concat (dict_values (historyByPipeline tr'))) = Some ?st"
    unfolding h using assms(3) id by (intro find_concat_other) auto
  then have "getExecutionStatus e tr' = Some ?st" by (simp add: getExecutionStatus_def a)
  moreover have "getExecutionHistory (ex_pipelineId ?st) 1 tr' = Inr [?st]"
    by (simp add: getExecutionHistory_def h)
  moreover have "snd (updateStepStatus now' e s status' r tr') = []" by (simp add: updateStepStatus_def a)
  ultimately show ?thesis using d by (intro exI [of _ ?st]) simp
qed

theorem completeExecution_spec_witness:
  "\<exists>st. getExecutionStatus ''r1'' (fst (completeExecution 9 ''r1'' ExFailed demo_tracker)) = Some st
     \<and> ex_status st = ExFailed"
proof -
  obtain te where te: "dict_get (activeExecutions demo_tracker) ''r1'' = Some te"
    and h: "historyByPipeline demo_tracker = []"
    by (simp add: demo_tracker_def startExecution_def Let_def evictOldestActiveIfNeeded_def MAX_ACTIVE_EXECUTIONS_def)
  obtain tr' dl where c: "completeExecution 9 ''r1'' ExFailed demo_tracker = (tr', dl)" by fastforce
  have "\<forall>x \<in> set (concat (dict_values (historyByPipeline demo_tracker))). ex_executionId x \<noteq> ''r1''"
    by (simp add: h)
  from completeExecution_spec [OF demo_tracker_reachable te this c, of 10 "''a''" StFailed
      "\<lparr>ri_error = None, ri_inputRecordCount = None, ri_outputRecordCount = None\<rparr>"] c
  show ?thesis by auto
qed

end
