(* ===== verification/ExecutionEngine.thy ===== *)
theory ExecutionEngine
  imports StepExecutors ExecutionTracker
begin

text \<open>
  \<^verbatim>\<open>processRun\<close> of \<^verbatim>\<open>services/pipeline/src/services/execution-engine.ts\<close> (lines 157-181 and
  1397-2021), the worker that drives one run.  Its state is the run row, the step rows, the
  step outputs, the execution tracker, the events published, and the lock and connection it
  holds.  The main loop is split at the comments of the source: one definition per phase of
  a step visit.  Database calls succeed unless a constraint of the schema
  (\<^verbatim>\<open>db/migrations/001_initial_schema.sql\<close>) rejects them.
\<close>

section \<open>State\<close>

record RunStep =
  rs_status :: RunStepStatus
  rs_attempt_count :: nat
  rs_started_at :: "nat option"
  rs_completed_at :: "nat option"
  rs_output :: "jsval option"
  rs_error :: "string option"

record RunRow =
  rr_pipeline_id :: string
  rr_input :: props
  rr_inputId :: nat
  rr_definition :: PipelineDefinition
  rr_triggered_by :: string
  rr_replayOf :: "string option"

record Job =
  job_runId :: string
  job_tenantId :: string
  job_callStack :: "string list option"
  job_timestamp :: "nat option"
  job_processedOn :: "nat option"

record EngineState =
  es_run :: RunStatus
  es_started_at :: "nat option"
  es_completed_at :: "nat option"
  es_error :: "(string \<times> string option) option"
  es_steps :: "(string, RunStep) dict"
  es_outputs :: "(string, jsval) dict"
  es_tracker :: "Tracker option"
  es_events :: "string list"
  es_slept :: "jsnum list"
  es_lockHeld :: bool
  es_clientsOut :: nat

datatype Outcome = Cancelled | StepFailed string js_error | Traversed | Thrown js_error

datatype Next = Goto "string option" | Stop Outcome

datatype RunEnd = Skipped | Ended | Threw js_error

section \<open>Advisory lock\<close>

definition hex_digit :: "char \<Rightarrow> int option" where
  "hex_digit c =
     (let n = of_char c :: int
      in if 48 \<le> n \<and> n \<le> 57 then Some (n - 48)
         else if 97 \<le> n \<and> n \<le> 102 then Some (n - 87)
         else if 65 \<le> n \<and> n \<le> 70 then Some (n - 55) else None)"

fun hex_value :: "int \<Rightarrow> string \<Rightarrow> int option" where
  "hex_value acc [] = Some acc"
| "hex_value acc (c # cs) = Option.bind (hex_digit c) (\<lambda>d. hex_value (16 * acc + d) cs)"

definition advisoryLockKey :: "string \<Rightarrow> int option" where
  "advisoryLockKey pipelineId =
     (let hex = take 16 (filter (\<lambda>c. c \<noteq> CHR ''-'') pipelineId)
      in if hex = [] then None else hex_value 0 hex)"

text \<open>
  \<^verbatim>\<open>pg_try_advisory_lock($1::bigint)\<close>: the text of the key must be in the range of \<^verbatim>\<open>bigint\<close>.
  \<open>free\<close> says whether another session holds the lock.
\<close>

definition tryAcquireAdvisoryLock :: "bool \<Rightarrow> string \<Rightarrow> bool res" where
  "tryAcquireAdvisoryLock free pipelineId =
     (case advisoryLockKey pipelineId of
        None \<Rightarrow> Inl (PlainError ''Cannot convert to a BigInt'')
      | Some k \<Rightarrow> if k \<le> 9223372036854775807 then Inr free
                  else Inl (PlainError ''value is out of range for type bigint''))"

section \<open>Step rows\<close>

definition step_type :: "Step \<Rightarrow> string" where
  "step_type s =
     (case s of
        CodeStep _ _ _ _ \<Rightarrow> ''code'' | ConnectorStep _ _ _ _ \<Rightarrow> ''connector''
      | TransformerStep _ _ \<Rightarrow> ''transformer'' | TransformStep _ _ _ \<Rightarrow> ''transform''
      | ConditionalStep _ _ _ _ \<Rightarrow> ''conditional'' | ParallelStep _ _ _ \<Rightarrow> ''parallel''
      | WebhookStep _ _ \<Rightarrow> ''webhook'' | WaitStep _ _ \<Rightarrow> ''wait'' | ApprovalStep _ _ \<Rightarrow> ''approval''
      | SubWorkflowStep _ _ \<Rightarrow> ''sub_workflow'')"

text \<open>
  The step types the deployed schema admits (\<^verbatim>\<open>run_steps_step_type_valid\<close>).  The list is an argument
  of the engine, so that the other step types can be studied with a corrected schema.
\<close>

definition migration_step_types :: "string list" where
  "migration_step_types = [''code'', ''connector'', ''transformer'', ''conditional'', ''parallel'', ''webhook'']"

definition createBatch :: "string list \<Rightarrow> Step list \<Rightarrow> (string, RunStep) dict res" where
  "createBatch types steps =
     (if \<not> list_all (\<lambda>s. step_type s \<in> set types) steps
      then Inl (PlainError ''violates check constraint run_steps_step_type_valid'')
      else if \<not> distinct (map step_id steps)
      then Inl (PlainError ''violates unique constraint run_steps_step_id_per_run_unique'')
      else Inr (map (\<lambda>s. (step_id s, \<lparr>rs_status = StPending, rs_attempt_count = 0, rs_started_at = None,
                                      rs_completed_at = None, rs_output = None, rs_error = None\<rparr>)) steps))"

definition set_step :: "string \<Rightarrow> (RunStep \<Rightarrow> RunStep) \<Rightarrow> EngineState \<Rightarrow> EngineState" where
  "set_step sid f st = st\<lparr>es_steps := map (\<lambda>(k, r). (k, if k = sid then f r else r)) (es_steps st)\<rparr>"

definition cancel_pending :: "EngineState \<Rightarrow> EngineState" where
  "cancel_pending st =
     st\<lparr>es_steps := map (\<lambda>(k, r). (k, if rs_status r = StPending then r\<lparr>rs_status := StCancelled\<rparr> else r))
                      (es_steps st)\<rparr>"

definition emitPlatformEvent :: "string \<Rightarrow> EngineState \<Rightarrow> EngineState" where
  "emitPlatformEvent ev st = st\<lparr>es_events := es_events st @ [ev]\<rparr>"

definition track_step ::
  "nat \<Rightarrow> string \<Rightarrow> string \<Rightarrow> RunStepStatus \<Rightarrow> string option \<Rightarrow> EngineState \<Rightarrow> EngineState" where
  "track_step now runId sid status err st =
     st\<lparr>es_tracker := map_option (\<lambda>tr. fst (updateStepStatus now runId sid status
          \<lparr>ri_error = err, ri_inputRecordCount = None, ri_outputRecordCount = None\<rparr> tr)) (es_tracker st)\<rparr>"

definition track_complete :: "nat \<Rightarrow> string \<Rightarrow> ExecutionOverallStatus \<Rightarrow> EngineState \<Rightarrow> EngineState" where
  "track_complete now runId status st =
     st\<lparr>es_tracker := map_option (\<lambda>tr. fst (completeExecution now runId status tr)) (es_tracker st)\<rparr>"

section \<open>One visit of a step\<close>

definition run_hooks ::
  "Env \<Rightarrow> RunContext \<Rightarrow> tick \<Rightarrow> string \<Rightarrow> string \<Rightarrow> props \<Rightarrow> js_error + js_error option" where
  "run_hooks env ctx t stage stepId payload =
     (case resolveHookChain env t stage of
        Inl e \<Rightarrow> Inl e
      | Inr hooks \<Rightarrow>
          if hooks = [] then Inr None
          else (case executeHookChain env t 0 (rc_tenantId ctx) (rc_runId ctx) stepId hooks
                       (VObj (env_id env t) payload) of
                  Inl e \<Rightarrow> Inr (Some e) | Inr _ \<Rightarrow> Inr None))"

text \<open>\<open>Inl\<close> is an error of the hook lookup, which nothing catches; \<open>Inr (Some e)\<close> a failed hook.\<close>

definition skip_requested :: "Env \<Rightarrow> RunContext \<Rightarrow> tick \<Rightarrow> Step \<Rightarrow> bool" where
  "skip_requested env ctx t s =
     (case sb_skipIf (base s) of
        None \<Rightarrow> False
      | Some e \<Rightarrow>
          e \<noteq> [] \<and>
          evaluateConditional env t e
            (VObj (env_id env t)
              [(''input'', VObj (rc_runInputId ctx) (rc_runInput ctx)),
               (''steps'', VObj (env_id env t) (steps_context (env_id env t) (rc_stepOutputs ctx)))]) = Inr True)"

definition getNextStepIdFromMain :: "Step \<Rightarrow> Step list \<Rightarrow> string option \<Rightarrow> string option" where
  "getNextStepIdFromMain s steps conditionalNext =
     (case (s, conditionalNext) of
        (ConditionalStep _ _ _ _, Some n) \<Rightarrow> Some n
      | _ \<Rightarrow>
          (case find_index (\<lambda>x. step_id x = step_id s) steps of
             None \<Rightarrow> None
           | Some i \<Rightarrow> if Suc i < length steps then Some (step_id (steps ! Suc i)) else None))"

text \<open>
  The retry loop: \<open>remaining\<close> more attempts are allowed after attempt number \<open>attempt\<close>.  The
  result carries the number of the last attempt made.
\<close>

fun attempt_loop ::
  "nat \<Rightarrow> Env \<Rightarrow> EngineConfig \<Rightarrow> RunContext \<Rightarrow> tick \<Rightarrow> Step \<Rightarrow> nat \<Rightarrow> nat \<Rightarrow> (StepResult res \<times> nat) option" where
  "attempt_loop fuel env cfg ctx t s 0 attempt =
     map_option (\<lambda>r. (r, attempt)) (executeStep fuel env cfg ctx (attempt # t) s)"
| "attempt_loop fuel env cfg ctx t s (Suc remaining) attempt =
     (case executeStep fuel env cfg ctx (attempt # t) s of
        None \<Rightarrow> None
      | Some (Inr x) \<Rightarrow> Some (Inr x, attempt)
      | Some (Inl e) \<Rightarrow> attempt_loop fuel env cfg ctx t s remaining (Suc attempt))"

definition max_retries :: "Step \<Rightarrow> nat" where
  "max_retries s = (case sb_retryConfig (base s) of None \<Rightarrow> 0 | Some rc \<Rightarrow> maxRetries rc)"

definition retry_delays :: "Env \<Rightarrow> Step \<Rightarrow> nat \<Rightarrow> jsnum list" where
  "retry_delays env s attempts =
     (case sb_retryConfig (base s) of
        None \<Rightarrow> []
      | Some rc \<Rightarrow> map (computeBackoffMs env (backoffMs rc) (backoffMultiplier rc)) [0..<attempts])"

definition set_output :: "string \<Rightarrow> jsval \<Rightarrow> EngineState \<Rightarrow> EngineState" where
  "set_output sid v st = st\<lparr>es_outputs := map_set (es_outputs st) sid v\<rparr>"

text \<open>After the retries are exhausted: fallback step, then \<^verbatim>\<open>onError\<close>.\<close>

definition after_failure ::
  "nat \<Rightarrow> RunContext \<Rightarrow> Step list \<Rightarrow> Step \<Rightarrow> js_error \<Rightarrow> EngineState \<Rightarrow> EngineState \<times> Next" where
  "after_failure now ctx allSteps s e st =
     (let st1 = set_step (step_id s) (\<lambda>r. r\<lparr>rs_status := StFailed, rs_completed_at := Some now,
                  rs_error := Some ''STEP_EXECUTION_FAILED''\<rparr>) st;
          st2 = track_step now (rc_runId ctx) (step_id s) StFailed (Some ''error'') st1
      in case sb_fallbackStepId (base s) of
           Some fb \<Rightarrow> (set_output (step_id s) VNull st2, Goto (Some fb))
         | None \<Rightarrow>
             if sb_onError (base s) = Some OnSkip
             then (set_output (step_id s) VNull st2, Goto (getNextStepIdFromMain s allSteps None))
             else (st2, Stop (StepFailed (step_id s) e)))"

definition output_record :: "nat \<Rightarrow> jsval \<Rightarrow> jsval" where
  "output_record i v = (if is_object v then v else VObj i [(''value'', v)])"

definition after_success ::
  "Env \<Rightarrow> RunContext \<Rightarrow> tick \<Rightarrow> Step list \<Rightarrow> Step \<Rightarrow> StepResult \<Rightarrow> EngineState \<Rightarrow> EngineState \<times> Next" where
  "after_success env ctx t allSteps s res st =
     (let (out, nextId) = res;
          now = env_clock env t 1;
          st1 = set_output (step_id s) out st;
          st2 = set_step (step_id s) (\<lambda>r. r\<lparr>rs_status := StCompleted, rs_completed_at := Some now\<rparr>) st1;
          st3 = track_step now (rc_runId ctx) (step_id s) StCompleted None st2;
          st4 = set_step (step_id s) (\<lambda>r. r\<lparr>rs_output := Some (output_record (env_id env t) out)\<rparr>) st3;
          st5 = emitPlatformEvent ''pipeline.step.completed'' st4
      in case run_hooks env ctx (2 # t) (''after:pipeline.step:'' @ step_id s) (step_id s)
                [(''stepId'', VStr (step_id s)), (''output'', out)] of
           Inl e \<Rightarrow> (st5, Stop (Thrown e))
         | Inr None \<Rightarrow> (st5, Goto (getNextStepIdFromMain s allSteps nextId))
         | Inr (Some e) \<Rightarrow>
             (track_step now (rc_runId ctx) (step_id s) StFailed None
                (set_step (step_id s) (\<lambda>r. r\<lparr>rs_status := StFailed,
                   rs_error := Some ''PIPELINE_HOOK_CRITICAL_FAILURE''\<rparr>) st5),
              Stop (StepFailed (step_id s) e)))"

definition mark_running :: "Env \<Rightarrow> RunContext \<Rightarrow> tick \<Rightarrow> Step \<Rightarrow> EngineState \<Rightarrow> EngineState" where
  "mark_running env ctx t s st =
     (let now = env_clock env t 0
      in track_step now (rc_runId ctx) (step_id s) StRunning None
           (set_step (step_id s) (\<lambda>r. r\<lparr>rs_status := StRunning, rs_started_at := Some now\<rparr>) st))"

definition record_attempts :: "Env \<Rightarrow> Step \<Rightarrow> nat \<Rightarrow> EngineState \<Rightarrow> EngineState" where
  "record_attempts env s attempts st =
     (if attempts = 0 then st
      else (set_step (step_id s) (\<lambda>x. x\<lparr>rs_attempt_count := attempts\<rparr>) st)
             \<lparr>es_slept := es_slept st @ retry_delays env s attempts\<rparr>)"

definition run_step ::
  "nat \<Rightarrow> Env \<Rightarrow> EngineConfig \<Rightarrow> RunContext \<Rightarrow> tick \<Rightarrow> Step list \<Rightarrow> Step \<Rightarrow> EngineState \<Rightarrow> (EngineState \<times> Next) option" where
  "run_step fuel env cfg ctx t allSteps s st =
     (let st2 = mark_running env ctx t s st
      in case attempt_loop fuel env cfg ctx (0 # t) s (max_retries s) 0 of
           None \<Rightarrow> None
         | Some (r, attempts) \<Rightarrow>
             let st3 = record_attempts env s attempts st2
             in Some (case r of
                        Inl e \<Rightarrow> after_failure (env_clock env t 1) ctx allSteps s e st3
                      | Inr res \<Rightarrow> after_success env ctx t allSteps s res st3))"

definition visit_step ::
  "nat \<Rightarrow> Env \<Rightarrow> EngineConfig \<Rightarrow> RunContext \<Rightarrow> tick \<Rightarrow> Step list \<Rightarrow> Step \<Rightarrow> EngineState \<Rightarrow> (EngineState \<times> Next) option" where
  "visit_step fuel env cfg ctx t allSteps s st =
     (if skip_requested env ctx t s
      then Some (track_step (env_clock env t 0) (rc_runId ctx) (step_id s) StSkipped None
                   (set_step (step_id s) (\<lambda>r. r\<lparr>rs_status := StSkipped\<rparr>) st),
                 Goto (getNextStepIdFromMain s allSteps None))
      else case run_hooks env ctx (1 # t) (''before:pipeline.step:'' @ step_id s) (step_id s)
                  [(''stepId'', VStr (step_id s)), (''input'', VObj (env_id env t) (resolveStepInput ctx s))] of
             Inl e \<Rightarrow> Some (st, Stop (Thrown e))
           | Inr (Some e) \<Rightarrow>
               Some (set_step (step_id s) (\<lambda>r. r\<lparr>rs_status := StFailed,
                        rs_completed_at := Some (env_clock env t 0),
                        rs_error := Some ''PIPELINE_HOOK_CRITICAL_FAILURE''\<rparr>) st,
                     Stop (StepFailed (step_id s) e))
           | Inr None \<Rightarrow> run_step fuel env cfg ctx t allSteps s st)"

text \<open>The step traversal loop; iteration \<open>k\<close> has tick \<open>[k]\<close>.\<close>

definition loop_body ::
  "nat \<Rightarrow> Env \<Rightarrow> EngineConfig \<Rightarrow> RunContext \<Rightarrow> nat \<Rightarrow> Step list \<Rightarrow> string \<Rightarrow> EngineState \<Rightarrow> (EngineState \<times> Next) option" where
  "loop_body fuel env cfg ctx k allSteps sid st =
     (if env_cancelled env [k] then Some (st, Stop Cancelled)
      else case dict_get (step_map allSteps) sid of
             None \<Rightarrow> Some (st, Stop Traversed)
           | Some s \<Rightarrow>
               if \<not> dict_has (es_steps st) sid then Some (st, Stop Traversed)
               else visit_step fuel env cfg (ctx\<lparr>rc_stepOutputs := es_outputs st\<rparr>) [k] allSteps s st)"

fun traverse ::
  "nat \<Rightarrow> Env \<Rightarrow> EngineConfig \<Rightarrow> RunContext \<Rightarrow> nat \<Rightarrow> Step list \<Rightarrow> string option \<Rightarrow> EngineState \<Rightarrow> (EngineState \<times> Outcome) option" where
  "traverse 0 env cfg ctx k allSteps cur st = None"
| "traverse (Suc fuel) env cfg ctx k allSteps cur st =
     (case cur of
        None \<Rightarrow> Some (st, Traversed)
      | Some sid \<Rightarrow>
          (case loop_body fuel env cfg ctx k allSteps sid st of
             None \<Rightarrow> None
           | Some (st', Stop oc) \<Rightarrow> Some (st', oc)
           | Some (st', Goto nxt) \<Rightarrow> traverse fuel env cfg ctx (Suc k) allSteps nxt st'))"

section \<open>Ending a run\<close>

text \<open>Advisory: only a failing lookup of the hooks escapes.\<close>

definition runAfterCompleteHooks :: "Env \<Rightarrow> RunContext \<Rightarrow> RunStatus \<Rightarrow> RunEnd" where
  "runAfterCompleteHooks env ctx finalStatus =
     (case run_hooks env ctx [3] ''after:pipeline.complete'' []
             [(''pipelineId'', VStr (rc_pipelineId ctx)), (''runId'', VStr (rc_runId ctx)),
              (''finalStatus'', VStr (run_status_text finalStatus))] of
        Inl e \<Rightarrow> Threw e | Inr _ \<Rightarrow> Ended)"

definition finish_cancelled :: "Env \<Rightarrow> RunContext \<Rightarrow> nat \<Rightarrow> EngineState \<Rightarrow> EngineState \<times> RunEnd" where
  "finish_cancelled env ctx now st =
     (emitPlatformEvent ''pipeline.cancelled''
        ((cancel_pending st)\<lparr>es_run := RunCancelled, es_completed_at := Some now\<rparr>),
      runAfterCompleteHooks env ctx RunCancelled)"

definition finish_failed ::
  "Env \<Rightarrow> RunContext \<Rightarrow> nat \<Rightarrow> string \<Rightarrow> EngineState \<Rightarrow> EngineState \<times> RunEnd" where
  "finish_failed env ctx now failedStepId st =
     (track_complete now (rc_runId ctx) ExFailed
        (emitPlatformEvent ''pipeline.failed''
          ((cancel_pending st)\<lparr>es_run := RunFailed, es_completed_at := Some now,
                              es_error := Some (''STEP_EXECUTION_FAILED'', Some failedStepId)\<rparr>)),
      runAfterCompleteHooks env ctx RunFailed)"

definition hook_failure :: "Env \<Rightarrow> RunContext \<Rightarrow> nat \<Rightarrow> EngineState \<Rightarrow> EngineState" where
  "hook_failure env ctx now st =
     track_complete now (rc_runId ctx) ExFailed
       (st\<lparr>es_run := RunFailed, es_completed_at := Some now,
           es_error := Some (''PIPELINE_HOOK_CRITICAL_FAILURE'', None)\<rparr>)"

definition finish_complete :: "Env \<Rightarrow> RunContext \<Rightarrow> nat \<Rightarrow> EngineState \<Rightarrow> EngineState \<times> RunEnd" where
  "finish_complete env ctx now st =
     (case run_hooks env ctx [4] ''before:pipeline.complete'' []
             [(''pipelineId'', VStr (rc_pipelineId ctx)), (''runId'', VStr (rc_runId ctx))] of
        Inl e \<Rightarrow> (st, Threw e)
      | Inr (Some e) \<Rightarrow> (hook_failure env ctx now st, runAfterCompleteHooks env ctx RunFailed)
      | Inr None \<Rightarrow>
          (track_complete now (rc_runId ctx) ExCompleted
             (emitPlatformEvent ''pipeline.completed'' (st\<lparr>es_run := RunCompleted, es_completed_at := Some now\<rparr>)),
           runAfterCompleteHooks env ctx RunCompleted))"

definition finish :: "Env \<Rightarrow> RunContext \<Rightarrow> EngineState \<times> Outcome \<Rightarrow> EngineState \<times> RunEnd" where
  "finish env ctx r =
     (let (st, oc) = r; now = env_clock env [] 1
      in case oc of
           Cancelled \<Rightarrow> finish_cancelled env ctx now st
         | StepFailed sid e \<Rightarrow> finish_failed env ctx now sid st
         | Traversed \<Rightarrow> finish_complete env ctx now st
         | Thrown e \<Rightarrow> (st, Threw e))"

section \<open>The run\<close>

definition queue_wait :: "Job \<Rightarrow> nat" where
  "queue_wait job =
     (case (job_processedOn job, job_timestamp job) of (Some p, Some q) \<Rightarrow> p - q | _ \<Rightarrow> 0)"

definition run_context :: "Job \<Rightarrow> RunRow \<Rightarrow> RunContext" where
  "run_context job run =
     \<lparr>rc_runId = job_runId job, rc_tenantId = job_tenantId job, rc_pipelineId = rr_pipeline_id run,
      rc_definition = rr_definition run, rc_runInput = rr_input run, rc_runInputId = rr_inputId run,
      rc_stepOutputs = [], rc_callStack = (case job_callStack job of None \<Rightarrow> [] | Some cs \<Rightarrow> cs),
      rc_queueWaitMs = queue_wait job\<rparr>"

definition start_tracking :: "nat \<Rightarrow> Job \<Rightarrow> RunRow \<Rightarrow> Step list \<Rightarrow> EngineState \<Rightarrow> EngineState res" where
  "start_tracking now job run allSteps st =
     (case es_tracker st of
        None \<Rightarrow> Inr st
      | Some tr \<Rightarrow>
          rbind (startExecution now (job_runId job) (rr_pipeline_id run)
                   (map (\<lambda>s. \<lparr>sd_stepId = step_id s, sd_name = sb_name (base s), sd_type = step_type s\<rparr>) allSteps)
                   (Some (VObj (rr_inputId run) (rr_input run))) (rr_replayOf run) tr)
            (\<lambda>tr'. Inr (st\<lparr>es_tracker := Some tr'\<rparr>)))"

text \<open>From the transition to \<^verbatim>\<open>running\<close> to the end of the run, with the lock held.\<close>

definition drive ::
  "nat \<Rightarrow> Env \<Rightarrow> EngineConfig \<Rightarrow> string list \<Rightarrow> Job \<Rightarrow> RunRow \<Rightarrow> EngineState \<Rightarrow> (EngineState \<times> RunEnd) option" where
  "drive fuel env cfg types job run st0 =
     (let ctx = run_context job run;
          now = env_clock env [] 0;
          st1 = st0\<lparr>es_run := RunRunning, es_started_at := Some now, es_outputs := []\<rparr>;
          allSteps = collectAllStepsFlat (pd_steps (rr_definition run))
      in case createBatch types allSteps of
           Inl e \<Rightarrow> Some (st1, Threw e)
         | Inr rows \<Rightarrow>
             (case start_tracking now job run allSteps (st1\<lparr>es_steps := rows\<rparr>) of
                Inl e \<Rightarrow> Some (st1\<lparr>es_steps := rows\<rparr>, Threw e)
              | Inr st2 \<Rightarrow>
                  (case run_hooks env ctx [5] ''after:pipeline.trigger'' []
                          [(''pipelineId'', VStr (rc_pipelineId ctx)), (''runId'', VStr (rc_runId ctx)),
                           (''triggeredBy'', VStr (rr_triggered_by run))] of
                     Inl e \<Rightarrow> Some (st2, Threw e)
                   | Inr (Some e) \<Rightarrow> Some (hook_failure env ctx now st2, Ended)
                   | Inr None \<Rightarrow>
                       map_option (finish env ctx)
                         (traverse fuel env cfg ctx 6 allSteps (Some (pd_entryStepId (rr_definition run))) st2))))"

definition processRun ::
  "nat \<Rightarrow> Env \<Rightarrow> EngineConfig \<Rightarrow> string list \<Rightarrow> bool \<Rightarrow> Job \<Rightarrow> RunRow option \<Rightarrow> EngineState
     \<Rightarrow> (EngineState \<times> RunEnd) option" where
  "processRun fuel env cfg types free job row st =
     (case row of
        None \<Rightarrow> Some (st, Skipped)
      | Some run \<Rightarrow>
          if es_run st \<noteq> RunPending then Some (st, Skipped)
          else let st1 = st\<lparr>es_clientsOut := Suc (es_clientsOut st)\<rparr>
               in case tryAcquireAdvisoryLock free (rr_pipeline_id run) of
                    Inl e \<Rightarrow> Some (st1, Threw e)
                  | Inr False \<Rightarrow> Some (st, Threw (PlainError ''Advisory lock held''))
                  | Inr True \<Rightarrow>
                      map_option (\<lambda>(st2, e). (st2\<lparr>es_lockHeld := False, es_clientsOut := es_clientsOut st2 - 1\<rparr>, e))
                        (drive fuel env cfg types job run (st1\<lparr>es_lockHeld := True\<rparr>)))"

end
