(* ===== verification/EngineProperties.thy ===== *)
theory EngineProperties
  imports ExecutionEngine PipelineGraphProperties
begin

text \<open>
  Properties of the execution engine: what a worker holds and leaves behind, whichever
  way the run ends, shown once for every observation of the state that the steps keep (the
  locale \<open>engine_observation\<close>).
\<close>

lemma next_in_order:
  "getNextStepIdFromMain s steps None =
     (case find_index (\<lambda>x. step_id x = step_id s) steps of
        None \<Rightarrow> None
      | Some i \<Rightarrow> if Suc i < length steps then Some (step_id (steps ! Suc i)) else None)"
  by (simp add: getNextStepIdFromMain_def split: Step.split)

section \<open>What a step visit leaves alone\<close>

text \<open>
  An observation of the engine state that row updates, outputs, tracking, events and pauses
  do not change is the same after the traversal as before.
\<close>

locale engine_observation =
  fixes obs :: "EngineState \<Rightarrow> 'a"
  assumes rows: "obs (set_step sid f st) = obs st"
    and outputs: "obs (set_output sid v st) = obs st"
    and tracked: "obs (track_step now rid sid s e st) = obs st"
    and event: "obs (emitPlatformEvent ev st) = obs st"
    and paused: "obs (st\<lparr>es_slept := ds\<rparr>) = obs st"
begin

lemmas laws = rows outputs tracked event paused

lemma after_failure_obs: "obs (fst (after_failure now ctx steps s e st)) = obs st"
  by (simp add: after_failure_def Let_def laws split: option.split)

lemma after_success_obs: "obs (fst (after_success env ctx t steps s res st)) = obs st"
  by (simp add: after_success_def Let_def laws split: option.split sum.split prod.split)

lemma run_step_obs:
  assumes "run_step fuel env cfg ctx t steps s st = Some (st', nxt)"
  shows "obs st' = obs st"
proof -
  have "obs (record_attempts env s n (mark_running env ctx t s st)) = obs st" for n
    by (simp add: record_attempts_def mark_running_def Let_def laws)
  with assms show ?thesis
    by (auto simp: run_step_def Let_def split: option.splits prod.splits sum.splits)
       (metis after_failure_obs after_success_obs fst_conv)+
qed

lemma visit_step_obs:
  "visit_step fuel env cfg ctx t steps s st = Some (st', nxt) \<Longrightarrow> obs st' = obs st"
  by (auto simp: visit_step_def laws run_step_obs split: if_splits sum.splits option.splits)

lemma loop_body_obs:
  "loop_body fuel env cfg ctx k steps sid st = Some (st', nxt) \<Longrightarrow> obs st' = obs st"
  by (auto simp: loop_body_def visit_step_obs split: if_splits option.splits)

lemma traverse_obs:
  "traverse fuel env cfg ctx k steps cur st = Some (st', oc) \<Longrightarrow> obs st' = obs st"
  by (induction fuel env cfg ctx k steps cur st rule: traverse.induct)
     (auto simp: loop_body_obs split: option.splits prod.splits Next.splits)

end

lemmas state_ops = set_step_def set_output_def track_step_def emitPlatformEvent_def

interpretation runstat: engine_observation es_run
  by unfold_locales (simp_all add: state_ops)

interpretation held: engine_observation es_lockHeld
  by unfold_locales (simp_all add: state_ops)

interpretation clients: engine_observation es_clientsOut
  by unfold_locales (simp_all add: state_ops)

interpretation rowkeys: engine_observation "\<lambda>st. map fst (es_steps st)"
  by unfold_locales (simp_all add: state_ops case_prod_beta comp_def)

section \<open>Locks and connections\<close>

lemma finish_holds:
  "es_lockHeld (fst (finish env ctx (st, oc))) = es_lockHeld st \<and> es_clientsOut (fst (finish env ctx (st, oc))) = es_clientsOut st"
  by (simp add: finish_def Let_def finish_cancelled_def finish_failed_def finish_complete_def hook_failure_def
      track_complete_def emitPlatformEvent_def cancel_pending_def split: Outcome.split sum.split option.split)

lemma start_tracking_holds:
  "start_tracking now job run steps st = Inr st' \<Longrightarrow>
     es_lockHeld st' = es_lockHeld st \<and> es_clientsOut st' = es_clientsOut st \<and> es_steps st' = es_steps st
     \<and> es_run st' = es_run st"
  by (auto simp: start_tracking_def res_simps split: option.splits)

lemma drive_holds:
  assumes "drive fuel env cfg types job run st = Some (st', e)"
  shows "es_clientsOut st' = es_clientsOut st"
  using assms finish_holds
  by (auto simp: drive_def Let_def hook_failure_def track_complete_def split: sum.splits option.splits
      dest!: start_tracking_holds clients.traverse_obs) (metis fst_conv)+


section \<open>How a run ends\<close>

text \<open>No row is in state running, except perhaps that of the given step.\<close>

definition settled :: "EngineState \<Rightarrow> bool" where
  "settled st \<longleftrightarrow> (\<forall>(k, r) \<in> set (es_steps st). rs_status r \<noteq> StRunning)"

definition settled_but :: "string \<Rightarrow> EngineState \<Rightarrow> bool" where
  "settled_but sid st \<longleftrightarrow> (\<forall>(k, r) \<in> set (es_steps st). k \<noteq> sid \<longrightarrow> rs_status r \<noteq> StRunning)"

lemma settled_but_step: "settled_but sid st \<Longrightarrow> settled_but sid (set_step sid f st)"
  by (auto simp: settled_but_def set_step_def split: if_splits)

lemma settled_step: "settled_but sid st \<Longrightarrow> (\<And>r. rs_status (f r) \<noteq> StRunning) \<Longrightarrow> settled (set_step sid f st)"
  by (auto simp: settled_but_def settled_def set_step_def split: if_splits)

lemma settled_weaken: "settled st \<Longrightarrow> settled_but sid st"
  by (auto simp: settled_but_def settled_def)

lemma settled_frame [simp]:
  "settled (track_step now rid sid s e st) = settled st"
  "settled (set_output sid v st) = settled st"
  "settled (emitPlatformEvent ev st) = settled st"
  "settled_but sid (track_step now rid sid' s e st) = settled_but sid st"
  "settled_but sid (set_output sid' v st) = settled_but sid st"
  "settled_but sid (emitPlatformEvent ev st) = settled_but sid st"
  "settled_but sid (st\<lparr>es_slept := ds\<rparr>) = settled_but sid st"
  by (simp_all add: settled_def settled_but_def state_ops)

lemma after_failure_settled:
  "settled_but (step_id s) st \<Longrightarrow> settled (fst (after_failure now ctx steps s e st))"
  by (auto simp: after_failure_def Let_def settled_step split: option.split)

lemma after_success_settled:
  assumes "settled_but (step_id s) st"
  shows "settled (fst (after_success env ctx t steps s res st))"
proof -
  have ok: "settled (set_step (step_id s) (\<lambda>r. r\<lparr>rs_output := o'\<rparr>) x)" if "settled x" for o' x
    using that by (auto simp: settled_def set_step_def split: if_splits)
  show ?thesis
    using assms
    by (auto simp: after_success_def Let_def case_prod_beta intro!: ok settled_step settled_but_step
        split: option.split sum.split intro: settled_weaken)
qed

lemma run_step_settled:
  assumes "run_step fuel env cfg ctx t steps s st = Some (st', nxt)" "settled st"
  shows "settled st'"
proof -
  have "settled_but (step_id s) (record_attempts env s n (mark_running env ctx t s st))" for n
    using assms(2) by (simp add: record_attempts_def mark_running_def Let_def settled_but_step settled_weaken)
  with assms show ?thesis
    by (auto simp: run_step_def Let_def split: option.splits prod.splits sum.splits)
       (metis after_failure_settled after_success_settled fst_conv)+
qed

lemma visit_step_settled:
  "visit_step fuel env cfg ctx t steps s st = Some (st', nxt) \<Longrightarrow> settled st \<Longrightarrow> settled st'"
  by (auto simp: visit_step_def run_step_settled settled_weaken intro!: settled_step
      split: if_splits sum.splits option.splits)

lemma traverse_settled:
  "traverse fuel env cfg ctx k steps cur st = Some (st', oc) \<Longrightarrow> settled st \<Longrightarrow> settled st'"
  by (induction fuel env cfg ctx k steps cur st rule: traverse.induct)
     (auto simp: loop_body_def visit_step_settled split: option.splits prod.splits Next.splits if_splits)

text \<open>The state in which a run ends.\<close>

definition ended_well :: "EngineState \<Rightarrow> bool" where
  "ended_well st \<longleftrightarrow>
     es_run st \<in> {RunCompleted, RunFailed, RunCancelled} \<and> es_completed_at st \<noteq> None \<and> settled st
     \<and> (es_run st = RunCancelled \<or> (es_run st = RunFailed \<and> (\<exists>c sid. es_error st = Some (c, Some sid)))
        \<longrightarrow> (\<forall>(k, r) \<in> set (es_steps st). rs_status r \<noteq> StPending))"

lemma cancel_pending_rows:
  "settled st \<Longrightarrow> settled (cancel_pending st)"
  "\<forall>(k, r) \<in> set (es_steps (cancel_pending st)). rs_status r \<noteq> StPending"
  by (auto simp: settled_def cancel_pending_def split: if_splits)

lemma finish_ended_well:
  assumes "finish env ctx (st, oc) = (st', Ended)" "settled st"
  shows "ended_well st'"
  using assms cancel_pending_rows [of st]
  by (auto simp: finish_def Let_def finish_cancelled_def finish_failed_def finish_complete_def hook_failure_def
      track_complete_def emitPlatformEvent_def ended_well_def settled_def split: Outcome.splits sum.splits option.splits)

lemma createBatch_rows:
  "createBatch types steps = Inr rows \<Longrightarrow>
     (\<forall>(k, r) \<in> set rows. rs_status r = StPending) \<and> map fst rows = map step_id steps \<and> distinct (map step_id steps)"
  by (auto simp: createBatch_def split: if_splits)

lemma drive_cases:
  assumes "drive fuel env cfg types job run st = Some (st', e)"
  obtains (early) er where "e = Threw er"
  | (hook) rows st2 where "createBatch types (collectAllStepsFlat (pd_steps (rr_definition run))) = Inr rows"
      "es_steps st2 = rows" "st' = hook_failure env (run_context job run) (env_clock env [] 0) st2"
  | (full) rows st2 st3 oc where "createBatch types (collectAllStepsFlat (pd_steps (rr_definition run))) = Inr rows"
      "es_steps st2 = rows"
      "traverse fuel env cfg (run_context job run) 6 (collectAllStepsFlat (pd_steps (rr_definition run)))
         (Some (pd_entryStepId (rr_definition run))) st2 = Some (st3, oc)"
      "finish env (run_context job run) (st3, oc) = (st', e)"
proof (cases "createBatch types (collectAllStepsFlat (pd_steps (rr_definition run)))")
  case (Inl er)
  with assms early show ?thesis by (auto simp: drive_def Let_def)
next
  case (Inr rows)
  let ?st1 = "st\<lparr>es_run := RunRunning, es_started_at := Some (env_clock env [] 0), es_outputs := [], es_steps := rows\<rparr>"
  show ?thesis
  proof (cases "start_tracking (env_clock env [] 0) job run (collectAllStepsFlat (pd_steps (rr_definition run))) ?st1")
    case (Inl er)
    with assms early \<open>createBatch _ _ = _\<close> show ?thesis by (auto simp: drive_def Let_def)
  next
    case (Inr st2)
    then have "es_steps st2 = rows" using start_tracking_holds by fastforce
    with assms early hook full Inr \<open>createBatch _ _ = _\<close> show ?thesis
      by (auto simp: drive_def Let_def split: sum.splits option.splits)
  qed
qed

lemma drive_ended_well:
  assumes "drive fuel env cfg types job run st = Some (st', Ended)"
  shows "ended_well st'"
  using assms
proof (cases rule: drive_cases)
  case (hook rows st2)
  with createBatch_rows [OF hook(1)] show ?thesis
    by (fastforce simp: hook_failure_def track_complete_def ended_well_def settled_def)
next
  case (full rows st2 st3 oc)
  then have "settled st2" using createBatch_rows [OF full(1)] by (fastforce simp: settled_def)
  with full show ?thesis by (blast intro: finish_ended_well traverse_settled)
qed simp

lemma processRun_ended_well:
  assumes "processRun fuel env cfg types free job row st = Some (st', Ended)"
  obtains st2 where "ended_well st2" "st' = st2\<lparr>es_lockHeld := False, es_clientsOut := es_clientsOut st2 - 1\<rparr>"
  using assms
  by (auto simp: processRun_def Let_def split: option.splits if_splits sum.splits bool.splits dest: drive_ended_well)

lemma processRun_terminal_status:
  "processRun fuel env cfg types free job row st = Some (st', Ended) \<Longrightarrow>
     es_run st' \<in> {RunCompleted, RunFailed, RunCancelled}"
  by (elim processRun_ended_well) (simp add: ended_well_def)

text \<open>
  Property C2: a run that the worker finishes is in a final state.  Its status is completed,
  failed or cancelled with a completion time, no step row is left running, and after a
  cancellation or a failed step none is left pending.
\<close>

theorem processRun_terminal:
  assumes "processRun fuel env cfg types free job row st = Some (st', Ended)"
  shows "es_run st' \<in> {RunCompleted, RunFailed, RunCancelled} \<and> es_completed_at st' \<noteq> None
    \<and> (\<forall>(k, r) \<in> set (es_steps st'). rs_status r \<noteq> StRunning)
    \<and> (es_run st' = RunCancelled \<or> (es_run st' = RunFailed \<and> (\<exists>c sid. es_error st' = Some (c, Some sid)))
        \<longrightarrow> (\<forall>(k, r) \<in> set (es_steps st'). rs_status r \<noteq> StPending))"
  using assms by (elim processRun_ended_well) (simp add: ended_well_def settled_def)

section \<open>A concrete worker\<close>

text \<open>Services that answer with fixed values, for the instances below.\<close>

definition demo_env :: Env where
  "demo_env = \<lparr>env_execute = (\<lambda>t rq. HttpResponse 200 (Some (VObj 0 [(''output'', VNum (Fin 1))]))),
     env_ingest = (\<lambda>t b. HttpResponse 503 None), env_fetch = (\<lambda>t w b n. NetworkError ''down''),
     env_plugin_hooks = (\<lambda>t s. Inr (200, [])), env_jsonata = (\<lambda>t e v. Inr VNull),
     env_trigger = (\<lambda>t p i c. Inr ''child''), env_waitChild = (\<lambda>t r n. Inr (RunCompleted, None)),
     env_cancelled = (\<lambda>t. False), env_poll_cancelled = (\<lambda>t n. False), env_approvals = (\<lambda>t. []),
     env_actors = (\<lambda>t n st. st), env_clock = (\<lambda>t n. n), env_settle = (\<lambda>t. []), env_id = length,
     env_pow = (\<lambda>b n. b)\<rparr>"

definition demo_host :: js_host where
  "demo_host = \<lparr>host_pow10 = (\<lambda>n. n), host_localeCompare = (\<lambda>a b. 0), host_dateParse = (\<lambda>s. NaN),
     host_toISOString = (\<lambda>n. []), host_regex = (\<lambda>p. None)\<rparr>"

definition demo_cfg :: EngineConfig where
  "demo_cfg = \<lparr>cfg_host = demo_host, cfg_stepDefaultTimeoutMs = Fin 30000, cfg_hasApproval = True, cfg_hasSubWorkflow = True\<rparr>"

definition demo_job :: Job where
  "demo_job = \<lparr>job_runId = ''r1'', job_tenantId = ''t1'', job_callStack = None, job_timestamp = None, job_processedOn = None\<rparr>"

definition demo_row :: "string \<Rightarrow> PipelineDefinition \<Rightarrow> RunRow" where
  "demo_row pid d = \<lparr>rr_pipeline_id = pid, rr_input = [], rr_inputId = 0, rr_definition = d,
     rr_triggered_by = ''manual'', rr_replayOf = None\<rparr>"

definition demo_pending :: EngineState where
  "demo_pending = \<lparr>es_run = RunPending, es_started_at = None, es_completed_at = None, es_error = None, es_steps = [],
     es_outputs = [], es_tracker = None, es_events = [], es_slept = [], es_lockHeld = False, es_clientsOut = 0\<rparr>"

text \<open>A code step that is answered, then a connector step whose service is unavailable.\<close>

definition code_step :: "string \<Rightarrow> Step" where
  "code_step i = CodeStep (plain_base i) JavaScript [] None"

definition failing_step :: "string \<Rightarrow> Step" where
  "failing_step i = ConnectorStep (plain_base i) ''crm'' None True"

definition demo_def :: "Step list \<Rightarrow> PipelineDefinition" where
  "demo_def steps = \<lparr>pd_entryStepId = step_id (hd steps), pd_steps = steps, pd_stepTimeout = None, pd_allowConcurrentRuns = None\<rparr>"

definition demo_run :: "Step list \<Rightarrow> (EngineState \<times> RunEnd) option" where
  "demo_run steps = processRun 20 demo_env demo_cfg migration_step_types True demo_job
     (Some (demo_row ''0a1b2c3d-0000-4000-8000-000000000001'' (demo_def steps))) demo_pending"

lemma demo_code_step: "executeStep fuel demo_env cfg ctx t (code_step i) = Some (Inr (VNum (Fin 1), None))"
  by (simp add: code_step_def executeSimpleStep_def executeCodeStep_def callExecutionService_def demo_env_def
      json_or_throw_def http_ok_def output_of_def is_nullish_def prop_get_def Let_def)

lemma demo_failing_step:
  "executeStep fuel demo_env cfg ctx t (failing_step i) = Some (Inl (StepExecutionError ''Ingestion Service returned''))"
  by (simp add: failing_step_def executeSimpleStep_def executeConnectorStep_def demo_env_def json_or_throw_def
      http_ok_def Let_def)

lemma demo_no_hooks: "run_hooks demo_env ctx t stage sid p = Inr None"
  by (simp add: run_hooks_def resolveHookChain_def demo_env_def)

lemma demo_lock: "tryAcquireAdvisoryLock True ''0a1b2c3d-0000-4000-8000-000000000001'' = Inr True"
  by code_simp

lemmas demo_simps = demo_code_step demo_failing_step demo_no_hooks demo_lock

lemma demo_not_cancelled [simp]: "env_cancelled demo_env t = False" "env_clock demo_env t n = n"
  by (simp_all add: demo_env_def)

lemma demo_base [simp]: "base (code_step i) = plain_base i" "base (failing_step i) = plain_base i"
  by (simp_all add: code_step_def failing_step_def)

lemma demo_shape [simp]:
  "collectAllStepsFlat (code_step i # ss) = code_step i # collectAllStepsFlat ss"
  "collectAllStepsFlat (failing_step i # ss) = failing_step i # collectAllStepsFlat ss"
  "step_type (code_step i) = ''code''" "step_type (failing_step i) = ''connector''"
  by (simp_all add: code_step_def failing_step_def step_type_def)

lemma demo_visit:
  "visit_step fuel demo_env cfg ctx t steps (code_step i) st
     = Some (after_success demo_env ctx t steps (code_step i) (VNum (Fin 1), None)
              (mark_running demo_env ctx t (code_step i) st))"
  "visit_step fuel demo_env cfg ctx t steps (failing_step i) st
     = Some (after_failure 1 ctx steps (failing_step i) (StepExecutionError ''Ingestion Service returned'')
              (mark_running demo_env ctx t (failing_step i) st))"
  by (simp_all add: visit_step_def skip_requested_def plain_base_def demo_simps run_step_def max_retries_def
      record_attempts_def del: executeStep.simps)

lemmas engine_run_simps = processRun_def drive_def createBatch_def start_tracking_def Let_def loop_body_def
  step_map_def after_success_def after_failure_def next_in_order mark_running_def state_ops
  finish_def finish_failed_def finish_complete_def cancel_pending_def track_complete_def runAfterCompleteHooks_def

lemma demo_failed_run:
  "\<exists>st'. demo_run [code_step ''a'', failing_step ''b'', code_step ''c''] = Some (st', Ended)
     \<and> es_run st' = RunFailed \<and> es_error st' = Some (''STEP_EXECUTION_FAILED'', Some ''b'')
     \<and> map (\<lambda>(k, r). (k, rs_status r)) (es_steps st')
         = [(''a'', StCompleted), (''b'', StFailed), (''c'', StCancelled)]"
  by (simp add: demo_run_def demo_pending_def demo_row_def demo_lock demo_def_def migration_step_types_def
      demo_no_hooks demo_visit plain_base_def engine_run_simps numeral_eq_Suc del: collectAllStepsFlat.simps(2))


theorem processRun_terminal_witness:
  "\<exists>st'. demo_run [code_step ''a'', failing_step ''b'', code_step ''c''] = Some (st', Ended)
     \<and> es_run st' = RunFailed \<and> (\<forall>(k, r) \<in> set (es_steps st'). rs_status r \<notin> {StPending, StRunning})"
proof -
  obtain st' where st': "demo_run [code_step ''a'', failing_step ''b'', code_step ''c''] = Some (st', Ended)"
    "es_run st' = RunFailed" "es_error st' = Some (''STEP_EXECUTION_FAILED'', Some ''b'')"
    using demo_failed_run by blast
  from processRun_terminal [OF st'(1) [unfolded demo_run_def]] st' show ?thesis by auto
qed

text \<open>
  A run is driven once.  When the queue delivers the job of a finished run
  again, the second delivery changes nothing.
\<close>

theorem processRun_once:
  assumes "processRun fuel env cfg types free job row st = Some (st', Ended)"
  shows "processRun fuel' env' cfg types free' job row st' = Some (st', Skipped)"
proof -
  have "es_run st' \<noteq> RunPending" using processRun_terminal_status [OF assms] by auto
  then show ?thesis by (simp add: processRun_def split: option.split)
qed

theorem processRun_once_witness:
  "\<exists>st'. demo_run [code_step ''a'', failing_step ''b'', code_step ''c''] = Some (st', Ended)
     \<and> processRun 20 demo_env demo_cfg migration_step_types True demo_job
         (Some (demo_row ''0a1b2c3d-0000-4000-8000-000000000001'' (demo_def [code_step ''a'', failing_step ''b'', code_step ''c''])))
         st' = Some (st', Skipped)"
  using demo_failed_run processRun_once unfolding demo_run_def by blast

end
