(* ===== verification/EngineControl.thy ===== *)
theory EngineControl
  imports EngineProperties
begin

text \<open>
  Control flow of the execution engine: retries, what happens after a failed step, hook
  chains, nesting of sub-workflows, parallel branches.
\<close>

declare executeStep.simps [simp del]

section \<open>Retries\<close>

lemma attempt_loop_first:
  "attempt_loop fuel env cfg ctx t s remaining a = Some (r, n) \<longleftrightarrow>
     a \<le> n \<and> n \<le> a + remaining \<and> executeStep fuel env cfg ctx (n # t) s = Some r
     \<and> (\<forall>i. a \<le> i \<longrightarrow> i < n \<longrightarrow> (\<exists>e. executeStep fuel env cfg ctx (i # t) s = Some (Inl e)))
     \<and> (n < a + remaining \<longrightarrow> (\<exists>x. r = Inr x))"
proof (induction remaining arbitrary: a)
  case 0
  then show ?case by auto
next
  case (Suc remaining)
  let ?x = "\<lambda>i. executeStep fuel env cfg ctx (i # t) s"
  consider "?x a = None" | v where "?x a = Some (Inr v)" | e where "?x a = Some (Inl e)"
    by (metis not_Some_eq old.sum.exhaust)
  then show ?case
  proof cases
    case 1
    then show ?thesis by (cases "a = n") auto
  next
    case (2 v)
    then show ?thesis
      by (cases "a = n") (auto dest: spec [of _ a])
  next
    case (3 e)
    then have "attempt_loop fuel env cfg ctx t s (Suc remaining) a = attempt_loop fuel env cfg ctx t s remaining (Suc a)"
      by (simp)
    moreover have "a \<le> i \<longleftrightarrow> i = a \<or> Suc a \<le> i" for i by auto
    then have "(\<forall>i. a \<le> i \<longrightarrow> i < n \<longrightarrow> (\<exists>e. ?x i = Some (Inl e)))
        \<longleftrightarrow> (\<forall>i. Suc a \<le> i \<longrightarrow> i < n \<longrightarrow> (\<exists>e. ?x i = Some (Inl e)))"
      using 3 by (metis Suc_n_not_le_n)
    ultimately show ?thesis
      using 3 by (cases "a = n") (auto simp: Suc.IH Suc_le_eq)
  qed
qed

text \<open>
  The retry policy.  A step is attempted until the first success and at most
  one time more than its configured number of retries; the result is that of the last
  attempt, and every earlier attempt failed.
\<close>

theorem attempt_loop_spec:
  "attempt_loop fuel env cfg ctx t s (max_retries s) 0 = Some (r, n) \<longleftrightarrow>
     n \<le> max_retries s \<and> executeStep fuel env cfg ctx (n # t) s = Some r
     \<and> (\<forall>i < n. \<exists>e. executeStep fuel env cfg ctx (i # t) s = Some (Inl e))
     \<and> (n < max_retries s \<longrightarrow> (\<exists>x. r = Inr x))"
  by (simp add: attempt_loop_first)

text \<open>Pauses between attempts, for a step that is retried.\<close>

lemma record_attempts_slept:
  "es_slept (record_attempts env s n st) = es_slept st @ retry_delays env s n"
  by (simp add: record_attempts_def retry_delays_def set_step_def split: option.split)

section \<open>After a failed step\<close>


lemma demo_failing_attempts:
  "attempt_loop fuel demo_env cfg ctx t (failing_step i) 0 a
     = Some (Inl (StepExecutionError ''Ingestion Service returned''), a)"
  by (simp add: demo_failing_step)

text \<open>A connector step that is retried twice: three attempts, two pauses.\<close>

definition retried_step :: Step where
  "retried_step = ConnectorStep ((plain_base ''b'')\<lparr>sb_retryConfig :=
     Some \<lparr>maxRetries = 2, backoffMs = Fin 100, backoffMultiplier = Fin 2\<rparr>\<rparr>) ''crm'' None True"

lemma demo_retried_step:
  "executeStep fuel demo_env cfg ctx t retried_step = Some (Inl (StepExecutionError ''Ingestion Service returned''))"
  "max_retries retried_step = 2"
  by (simp_all add: retried_step_def executeStep.simps executeSimpleStep_def executeConnectorStep_def demo_env_def
      json_or_throw_def http_ok_def Let_def max_retries_def)

lemma demo_retried_attempts:
  "attempt_loop 5 demo_env demo_cfg ctx t retried_step (max_retries retried_step) 0
     = Some (Inl (StepExecutionError ''Ingestion Service returned''), 2)"
  by (simp add: demo_retried_step numeral_eq_Suc)

theorem attempt_loop_spec_witness:
  "\<exists>e. executeStep 5 demo_env demo_cfg (run_context demo_job (demo_row [] two_steps)) [1] retried_step = Some (Inl e)"
  using attempt_loop_spec [THEN iffD1, OF demo_retried_attempts [of "run_context demo_job (demo_row [] two_steps)" "[]"]]
  by simp


section \<open>Hook chains\<close>

text \<open>The answer of one hook to a payload.\<close>

definition hook_response ::
  "Env \<Rightarrow> tick \<Rightarrow> nat \<Rightarrow> string \<Rightarrow> string \<Rightarrow> string \<Rightarrow> HookRef \<Rightarrow> jsval \<Rightarrow> jsval res" where
  "hook_response env t i tenantId runId stepId hook payload =
     rbind (callExecutionService env (i # t)
        \<lparr>rq_pluginId = Some (hk_pluginId hook), rq_language = None, rq_code = None,
         rq_entrypoint = hk_entrypoint hook, rq_input = payload, rq_timeoutMs = hk_timeoutMs hook,
         rq_tenantId = tenantId, rq_runId = runId, rq_stepId = stepId, rq_hookContext = True\<rparr>) output_of"

lemma hook_chain_step:
  "executeHookChain env t i tenantId runId stepId (hook # hooks) payload =
     (case hook_response env t i tenantId runId stepId hook payload of
        Inr out \<Rightarrow> executeHookChain env t (Suc i) tenantId runId stepId hooks out
      | Inl e \<Rightarrow> if hk_criticality hook = Critical then Inl e
                 else executeHookChain env t (Suc i) tenantId runId stepId hooks payload)"
  by (simp add: hook_response_def)

lemma hook_chain_append:
  "executeHookChain env t i tenantId runId stepId (xs @ ys) payload =
     rbind (executeHookChain env t i tenantId runId stepId xs payload)
       (executeHookChain env t (i + length xs) tenantId runId stepId ys)"
  by (induction xs arbitrary: i payload) (auto simp: hook_chain_step simp del: executeHookChain.simps(2) split: sum.split)

text \<open>
  A hook chain fails exactly at the first failing critical hook.  The hooks
  before it have all run, each on the output of the one before or, after a failed advisory
  hook, on the unchanged payload; a chain without a failing critical hook succeeds.
\<close>

theorem executeHookChain_fails_iff:
  "executeHookChain env t 0 tenantId runId stepId hooks payload = Inl e \<longleftrightarrow>
     (\<exists>before hook after q. hooks = before @ hook # after \<and> hk_criticality hook = Critical
        \<and> executeHookChain env t 0 tenantId runId stepId before payload = Inr q
        \<and> hook_response env t (length before) tenantId runId stepId hook q = Inl e)"
proof
  show "executeHookChain env t 0 tenantId runId stepId hooks payload = Inl e \<Longrightarrow>
     \<exists>before hook after q. hooks = before @ hook # after \<and> hk_criticality hook = Critical
        \<and> executeHookChain env t 0 tenantId runId stepId before payload = Inr q
        \<and> hook_response env t (length before) tenantId runId stepId hook q = Inl e"
  proof (induction hooks rule: rev_induct)
    case (snoc h hs)
    show ?case
    proof (cases "executeHookChain env t 0 tenantId runId stepId hs payload")
      case (Inl e')
      with snoc.prems have "e' = e" by (simp add: hook_chain_append)
      with Inl snoc.IH obtain before hook after q where
        "hs = before @ hook # after" "hk_criticality hook = Critical"
        "executeHookChain env t 0 tenantId runId stepId before payload = Inr q"
        "hook_response env t (length before) tenantId runId stepId hook q = Inl e"
        by blast
      moreover then have "hs @ [h] = before @ hook # (after @ [h])" by simp
      ultimately show ?thesis by blast
    next
      case (Inr q)
      with snoc.prems have "hk_criticality h = Critical \<and> hook_response env t (length hs) tenantId runId stepId h q = Inl e"
        by (auto simp: hook_chain_append hook_chain_step simp del: executeHookChain.simps(2) split: sum.splits if_splits)
      with Inr show ?thesis by blast
    qed
  qed simp
next
  assume "\<exists>before hook after q. hooks = before @ hook # after \<and> hk_criticality hook = Critical
        \<and> executeHookChain env t 0 tenantId runId stepId before payload = Inr q
        \<and> hook_response env t (length before) tenantId runId stepId hook q = Inl e"
  then show "executeHookChain env t 0 tenantId runId stepId hooks payload = Inl e"
    by (auto simp: hook_chain_append hook_chain_step simp del: executeHookChain.simps(2))
qed

section \<open>Nesting of sub-workflows\<close>

text \<open>
  The contexts of runs: a run triggered from outside has an empty call stack; a sub-workflow
  step that passes its guard enqueues a child whose job carries the chain of pipelines above.
\<close>

inductive run_tree :: "EngineConfig \<Rightarrow> RunContext \<Rightarrow> bool" for cfg where
  root: "job_callStack job = None \<Longrightarrow> run_tree cfg (run_context job run)"
| child: "run_tree cfg ctx \<Longrightarrow> sub_workflow_guard cfg ctx w = None \<Longrightarrow>
     job_callStack job = Some (full_call_chain ctx) \<Longrightarrow> rr_pipeline_id run = sw_pipelineId w \<Longrightarrow>
     run_tree cfg (run_context job run)"

lemma run_context_chain:
  "full_call_chain (run_context job run) = (case job_callStack job of None \<Rightarrow> [] | Some cs \<Rightarrow> cs) @ [rr_pipeline_id run]"
  "rc_callStack (run_context job run) = (case job_callStack job of None \<Rightarrow> [] | Some cs \<Rightarrow> cs)"
  by (simp_all add: full_call_chain_def run_context_def)


definition child_job :: Job where
  "child_job = demo_job\<lparr>job_callStack := Some [''p'']\<rparr>"


end
