(* ===== verification/EngineTermination.thy ===== *)
theory EngineTermination
  imports EngineControl
begin

text \<open>
  When a run returns: the order in which the engine visits the steps of a definition follows
  the step graph that validation has checked for cycles, as long as the definition does not
  use the features whose edges that graph leaves out; and a poll for an approval ends.
\<close>

section \<open>Edges of a serial definition\<close>

text \<open>
  The steps for which the engine's next step is always a neighbour in the graph of
  \<^verbatim>\<open>buildAdjacencyMap\<close>: no parallel step, no fallback step, and a conditional step has both
  targets and no \<^verbatim>\<open>skipIf\<close>.
\<close>

definition serial_step :: "Step \<Rightarrow> bool" where
  "serial_step s \<longleftrightarrow>
     (case s of
        ParallelStep _ _ _ \<Rightarrow> False
      | ConditionalStep b _ _ el \<Rightarrow> el \<noteq> None \<and> sb_skipIf b = None
      | _ \<Rightarrow> True) \<and> sb_fallbackStepId (base s) = None"

lemma serial_no_branches:
  "serial_step s \<Longrightarrow> (case s of ParallelStep _ brs _ \<Rightarrow> f brs | _ \<Rightarrow> x) = x"
  by (cases s) (simp_all add: serial_step_def)

lemma addSteps_other:
  "list_all serial_step ss \<Longrightarrow> k \<notin> step_id ` set ss \<Longrightarrow> dict_get (addSteps adj ss) k = dict_get adj k"
  by (induction ss arbitrary: adj) (auto simp: serial_no_branches)

lemma adjacency_lookup:
  "list_all serial_step (xs @ s # ss) \<Longrightarrow> distinct (map step_id (xs @ s # ss)) \<Longrightarrow>
     dict_get (addSteps adj (xs @ s # ss)) (step_id s) = Some (neighbors s ss)"
  by (induction xs arbitrary: adj) (auto simp: serial_no_branches addSteps_other)

lemma flat_serial: "list_all serial_step ss \<Longrightarrow> collectAllStepsFlat ss = ss"
  by (induction ss) (auto simp: serial_no_branches)

lemma step_map_distinct:
  "distinct (map step_id ss) \<Longrightarrow> dict_get (step_map ss) k = Some s \<longleftrightarrow> s \<in> set ss \<and> step_id s = k"
proof (induction ss rule: rev_induct)
  case (snoc x xs)
  then have "step_id x \<notin> step_id ` set xs" by simp
  then have "s \<in> set xs \<Longrightarrow> step_id s \<noteq> step_id x" by (metis imageI)
  with snoc show ?case by (cases "k = step_id x") (auto simp: step_map_def)
qed (simp add: step_map_def)

lemma find_index_split:
  assumes "distinct (map step_id (xs @ s # ys))"
  shows "find_index (\<lambda>x. step_id x = step_id s) (xs @ s # ys) = Some (length xs)"
  using assms by (induction xs) auto

lemma next_is_neighbor:
  assumes "distinct (map step_id steps)" "list_all serial_step steps" "s \<in> set steps"
    and "getNextStepIdFromMain s steps None = Some n" "\<forall>b c th el. s \<noteq> ConditionalStep b c th el"
  shows "n \<in> set (succs (buildAdjacencyMap steps) (step_id s))"
proof -
  obtain xs ys where st: "steps = xs @ s # ys" using assms(3) by (auto dest: split_list)
  then have "n \<in> set (next_id ys)"
    using assms(1,4) find_index_split [of xs s ys]
    by (cases ys) (auto simp: next_in_order next_id_def nth_append split: if_splits)
  moreover have "neighbors s ys = next_id ys"
    using assms(2,3,5) st by (cases s) (auto simp: neighbors_def serial_step_def)
  ultimately show ?thesis
    using adjacency_lookup [of xs s ys] assms(1,2) st by (simp add: succs_def buildAdjacencyMap_def)
qed

section \<open>One visit\<close>

lemma conditional_result:
  "executeStep fuel env cfg ctx t (ConditionalStep b c th el) =
     Some (Inr (executeConditionalStep env (cfg_host cfg) ctx t c th el (resolveStepInput ctx (ConditionalStep b c th el))))"
  by (simp add: executeStep.simps executeSimpleStep_def Let_def)

lemma conditional_attempt:
  "\<exists>v nid. attempt_loop fuel env cfg ctx t (ConditionalStep b c th el) n a = Some (Inr (v, nid), a)
     \<and> nid \<in> {Some th, el}"
  by (cases n) (auto simp: conditional_result executeConditionalStep_def Let_def)

lemma after_success_goto:
  "after_success env ctx t steps s (v, nid) st = (st', Goto nxt) \<Longrightarrow> nxt = getNextStepIdFromMain s steps nid"
  by (auto simp: after_success_def Let_def split: sum.splits option.splits)

lemma plain_next:
  "\<forall>b c th el. s \<noteq> ConditionalStep b c th el \<Longrightarrow> getNextStepIdFromMain s steps nid = getNextStepIdFromMain s steps None"
  by (cases s) (auto simp: getNextStepIdFromMain_def)

lemma after_failure_goto:
  "after_failure now ctx steps s e st = (st', Goto nxt) \<Longrightarrow> sb_fallbackStepId (base s) = None \<Longrightarrow>
     nxt = getNextStepIdFromMain s steps None"
  by (auto simp: after_failure_def Let_def split: if_splits)

lemma run_step_next:
  assumes "run_step fuel env cfg ctx t steps s st = Some (st', Goto nxt)" "serial_step s"
    and plain: "\<forall>b c th el. s \<noteq> ConditionalStep b c th el"
  shows "nxt = getNextStepIdFromMain s steps None"
  using assms(1,2) plain_next [OF plain]
  by (auto simp: run_step_def Let_def serial_step_def split: option.splits sum.splits prod.splits
      dest: after_failure_goto after_success_goto)

lemma visit_conditional_next:
  assumes "visit_step fuel env cfg ctx t steps (ConditionalStep b c th (Some el)) st = Some (st', Goto nxt)"
    and "sb_skipIf b = None"
  shows "nxt \<in> {Some th, Some el}"
proof -
  let ?s = "ConditionalStep b c th (Some el)"
  have "run_step fuel env cfg ctx t steps ?s st = Some (st', Goto nxt)"
    using assms by (auto simp: visit_step_def skip_requested_def split: sum.splits option.splits)
  with conditional_attempt [of fuel env cfg ctx "0 # t" b c th "Some el" "max_retries ?s" 0] show ?thesis
    by (auto simp: run_step_def Let_def getNextStepIdFromMain_def dest!: after_success_goto)
qed

lemma visit_step_edge:
  assumes "visit_step fuel env cfg ctx t steps s st = Some (st', Goto (Some n))" "s \<in> set steps"
    and steps: "distinct (map step_id steps)" "list_all serial_step steps"
  shows "n \<in> set (succs (buildAdjacencyMap steps) (step_id s))"
proof (cases "\<exists>b c th el. s = ConditionalStep b c th el")
  case True
  moreover have ser: "serial_step s" using assms(2) steps(2) by (auto simp: list_all_iff)
  ultimately obtain b c th el where s: "s = ConditionalStep b c th (Some el)" "sb_skipIf b = None"
    by (auto simp: serial_step_def)
  then have "n \<in> {th, el}" using visit_conditional_next assms(1) by blast
  moreover obtain xs ys where "steps = xs @ s # ys" using assms(2) by (auto dest: split_list)
  ultimately show ?thesis
    using adjacency_lookup [of xs s ys] steps s
    by (auto simp: succs_def buildAdjacencyMap_def neighbors_def)
next
  case False
  then have plain: "\<forall>b c th el. s \<noteq> ConditionalStep b c th el" by blast
  have "serial_step s" using assms(2) steps(2) by (auto simp: list_all_iff)
  then have "getNextStepIdFromMain s steps None = Some n"
    using assms(1) run_step_next [OF _ _ plain]
    by (fastforce simp: visit_step_def split: if_splits sum.splits option.splits)
  with next_is_neighbor steps assms(2) plain show ?thesis by blast
qed

section \<open>The traversal returns\<close>

text \<open>Polls for the approvals of a definition end within \<open>F\<close> polls.\<close>

definition approvals_end :: "nat \<Rightarrow> Env \<Rightarrow> EngineConfig \<Rightarrow> Step list \<Rightarrow> bool" where
  "approvals_end F env cfg steps \<longleftrightarrow>
     (\<forall>b a ctx t. ApprovalStep b a \<in> set steps \<longrightarrow> executeApprovalStep F env cfg ctx t b a \<noteq> None)"

lemma approval_poll_mono:
  "approval_poll fuel env h t n rid sid store = Some r \<Longrightarrow> fuel \<le> fuel' \<Longrightarrow>
     approval_poll fuel' env h t n rid sid store = Some r"
proof (induction fuel arbitrary: n store fuel')
  case (Suc fuel)
  then obtain f where f: "fuel' = Suc f" "fuel \<le> f" by (cases fuel') auto
  show ?case
  proof (cases "getApprovalStatus (env_clock env t (Suc n)) rid sid (env_actors env t n store)")
    case (Pair found store')
    show ?thesis
    proof (cases "\<not> env_poll_cancelled env t n \<and> map_option ar_status found = Some ApPending")
      case True
      with Suc.prems Suc.IH [OF _ f(2), of "Suc n" store'] Pair f(1) show ?thesis by auto
    next
      case False
      with Suc.prems(1) Pair f(1) show ?thesis
        by (cases found) (auto split: if_splits ApprovalStatus.splits)
    qed
  qed
qed simp

lemma executeApprovalStep_mono:
  "executeApprovalStep F env cfg ctx t b a \<noteq> None \<Longrightarrow> F \<le> fuel \<Longrightarrow> executeApprovalStep fuel env cfg ctx t b a \<noteq> None"
  by (auto simp: executeApprovalStep_def Let_def split: prod.splits if_splits dest: approval_poll_mono)

lemma serial_step_returns:
  assumes "serial_step s" "s \<in> set steps" "approvals_end F env cfg steps" "F \<le> fuel"
  shows "executeStep fuel env cfg ctx t s \<noteq> None"
  using assms executeApprovalStep_mono [of F env cfg ctx t _ _ fuel]
  by (cases s) (auto simp: executeStep.simps executeSimpleStep_def Let_def serial_step_def approvals_end_def)

lemma attempt_loop_returns:
  "(\<And>t. executeStep fuel env cfg ctx t s \<noteq> None) \<Longrightarrow> attempt_loop fuel env cfg ctx t s n a \<noteq> None"
proof (induction n arbitrary: a)
  case (Suc n)
  from Suc.prems [of "a # t"] Suc.IH [OF Suc.prems] show ?case by (auto split: sum.split)
qed simp

lemma visit_step_returns:
  "(\<And>t. executeStep fuel env cfg ctx t s \<noteq> None) \<Longrightarrow> visit_step fuel env cfg ctx t steps s st \<noteq> None"
  using attempt_loop_returns [of fuel env cfg ctx s "0 # t" "max_retries s" 0]
  by (auto simp: visit_step_def run_step_def Let_def split: sum.split option.split)

text \<open>The steps that can still be visited from a step.\<close>

definition ahead :: "Step list \<Rightarrow> string \<Rightarrow> string set" where
  "ahead steps sid = {x \<in> step_id ` set steps. (sid, x) \<in> (edges (buildAdjacencyMap steps))\<^sup>*}"

lemma ahead_less:
  assumes "sid \<in> step_id ` set steps" "(sid, n) \<in> edges (buildAdjacencyMap steps)"
    and "\<not> reaches_cycle (buildAdjacencyMap steps) sid"
  shows "card (ahead steps n) < card (ahead steps sid)"
proof (rule psubset_card_mono)
  have "(n, sid) \<notin> (edges (buildAdjacencyMap steps))\<^sup>*"
    using assms(2,3) unfolding reaches_cycle_def by (meson rtrancl.rtrancl_refl rtrancl_into_trancl2)
  then have "sid \<in> ahead steps sid - ahead steps n" using assms(1) by (simp add: ahead_def)
  moreover have "ahead steps n \<subseteq> ahead steps sid"
    using assms(2) by (auto simp: ahead_def intro: converse_rtrancl_into_rtrancl)
  ultimately show "ahead steps n \<subset> ahead steps sid" by blast
qed (simp add: ahead_def)

lemma traverse_returns:
  assumes steps: "distinct (map step_id steps)" "list_all serial_step steps" "approvals_end F env cfg steps"
    and "case cur of None \<Rightarrow> True | Some sid \<Rightarrow> \<not> reaches_cycle (buildAdjacencyMap steps) sid"
    and "(case cur of None \<Rightarrow> 0 | Some sid \<Rightarrow> card (ahead steps sid)) + F < fuel"
  shows "traverse (Suc fuel) env cfg ctx k steps cur st \<noteq> None"
  using assms(4,5)
proof (induction fuel arbitrary: cur k st)
  case (Suc fuel)
  show ?case
  proof (cases cur)
    case (Some sid)
    show ?thesis
    proof (cases "\<exists>s st' n. dict_get (step_map steps) sid = Some s
        \<and> loop_body (Suc fuel) env cfg ctx k steps sid st = Some (st', Goto (Some n))")
      case True
      then obtain s st' n where s: "dict_get (step_map steps) sid = Some s"
        and lb: "loop_body (Suc fuel) env cfg ctx k steps sid st = Some (st', Goto (Some n))" by blast
      then have mem: "s \<in> set steps" "step_id s = sid" using step_map_distinct [OF steps(1)] by auto
      then have e: "(sid, n) \<in> edges (buildAdjacencyMap steps)"
        using lb s visit_step_edge [OF _ mem(1) steps(1,2)]
        by (fastforce simp: loop_body_def split: if_splits)
      have nc: "\<not> reaches_cycle (buildAdjacencyMap steps) sid" using Suc.prems(1) Some by simp
      then have "\<not> reaches_cycle (buildAdjacencyMap steps) n" using e reaches_cycle_edge by blast
      moreover have "card (ahead steps n) < card (ahead steps sid)" using mem e nc by (auto intro: ahead_less)
      ultimately have "traverse (Suc fuel) env cfg ctx (Suc k) steps (Some n) st' \<noteq> None"
        using Suc.prems(2) Some by (intro Suc.IH) auto
      with lb Some show ?thesis by (simp del: traverse.simps add: traverse.simps(2) [of "Suc fuel"])
    next
      case False
      have "loop_body (Suc fuel) env cfg ctx k steps sid st \<noteq> None"
        using visit_step_returns [OF serial_step_returns [OF _ _ steps(3)]] steps(2) Suc.prems(2) Some
          step_map_distinct [OF steps(1)]
        by (auto simp: loop_body_def list_all_iff split: option.split)
      then obtain st' nxt where "loop_body (Suc fuel) env cfg ctx k steps sid st = Some (st', nxt)" by auto
      with False Some show ?thesis
        by (cases nxt) (auto simp: loop_body_def split: if_splits option.splits)
    qed
  qed simp
qed simp


lemma demo_def_valid: "validateDefinition (demo_def [code_step ''a'', failing_step ''b'']) = []"
  by code_simp


end
