(* ===== verification/EngineApproval.thy ===== *)
theory EngineApproval
  imports EngineTermination
begin

text \<open>
  The approval step of the engine on top of the approval service: the contract of a store
  of decisions with deadlines, that the service keeps it, and what the engine's poll loop
  gets from it.
\<close>

section \<open>The contract\<close>

text \<open>
  A store that holds at most one record for the client.  Other actors may decide or drop the
  record but not change its terms (what was asked, and the deadline); a read after the
  deadline does not find it pending.
\<close>

locale decision_store =
  fixes ok :: "'st \<Rightarrow> bool"
    and look :: "'st \<Rightarrow> 'rec option"
    and read :: "nat \<Rightarrow> 'st \<Rightarrow> 'rec option \<times> 'st"
    and act :: "'st \<Rightarrow> 'st \<Rightarrow> bool"
    and pending :: "'rec \<Rightarrow> bool"
    and terms :: "'rec \<Rightarrow> 'c \<times> nat"
  assumes act_ok: "ok st \<Longrightarrow> act st st' \<Longrightarrow> ok st'"
    and act_terms: "ok st \<Longrightarrow> act st st' \<Longrightarrow> look st' = Some r' \<Longrightarrow> \<exists>r. look st = Some r \<and> terms r' = terms r"
    and read_ok: "ok st \<Longrightarrow> ok (snd (read now st))"
    and read_look: "look (snd (read now st)) = fst (read now st)"
    and read_terms: "fst (read now st) = Some r' \<Longrightarrow> \<exists>r. look st = Some r \<and> terms r' = terms r"
    and read_late: "fst (read now st) = Some r' \<Longrightarrow> snd (terms r') < now \<Longrightarrow> \<not> pending r'"
begin

text \<open>The store is sound and a record in it has the terms \<open>T\<close>.\<close>

definition bound_to :: "'c \<times> nat \<Rightarrow> 'st \<Rightarrow> bool" where
  "bound_to T st \<longleftrightarrow> ok st \<and> (\<forall>r. look st = Some r \<longrightarrow> terms r = T)"

lemma poll_bound:
  assumes "bound_to T st" "act st st'" "read now st' = (found, st'')"
  shows "bound_to T st''" "found = Some r \<Longrightarrow> look st'' = Some r \<and> terms r = T"
proof -
  have ok': "ok st'" and T': "look st' = Some r' \<Longrightarrow> terms r' = T" for r'
    using assms(1,2) act_ok act_terms unfolding bound_to_def by metis+
  have found: "found = Some r' \<Longrightarrow> look st'' = Some r' \<and> terms r' = T" for r'
    using read_look [of now st'] read_terms [of now st' r'] T' assms(3) by fastforce
  then show "found = Some r \<Longrightarrow> look st'' = Some r \<and> terms r = T" .
  show "bound_to T st''"
    using found read_look [of now st'] read_ok [OF ok', of now] assms(3) unfolding bound_to_def by simp
qed

lemma poll_late:
  assumes "bound_to T st" "act st st'" "read now st' = (Some r, st'')" "snd T < now"
  shows "\<not> pending r"
  using poll_bound(2) [OF assms(1-3) refl] read_late [of now st' r] assms(3,4) by simp

end

section \<open>The service keeps it\<close>

text \<open>What others do while the engine waits for one key: anything but a request for that key.\<close>

inductive other_step :: "string \<Rightarrow> approval_store \<Rightarrow> approval_store \<Rightarrow> bool" for k where
  request: "approval_key e s \<noteq> k \<Longrightarrow> other_step k store (snd (requestApproval now e s approvers msg timeoutMs store))"
| decide: "other_step k store (snd (submitDecision now e s userId d comment store))"
| status: "other_step k store (snd (getApprovalStatus now e s store))"

lemma other_step_approval: "other_step k store store' \<Longrightarrow> approval_step store store'"
  by (induction rule: other_step.induct) (auto intro: approval_step.intros)

definition approval_terms :: "ApprovalRecord \<Rightarrow> string list \<times> nat" where
  "approval_terms r = (ar_approvers r, ar_timeoutAt r)"

lemma other_step_terms:
  assumes "store_ok store" "other_step k store store'" "dict_get store' k = Some r'"
  shows "\<exists>r. dict_get store k = Some r \<and> approval_terms r' = approval_terms r"
  using assms(2)
proof cases
  case (decide now e s userId d comment)
  have dist: "distinct (map fst store)" using assms(1) by (simp add: store_ok_def)
  show ?thesis
  proof (cases "store' = store")
    case False
    with decide obtain x y where x: "dict_get store (approval_key e s) = Some x"
      and s': "store' = evictTerminalEntries (map_set store (approval_key e s) y)"
      and y: "approval_terms y = approval_terms x"
      by (auto simp: approval_defs approval_terms_def split: option.splits if_splits)
    have "dict_get (map_set store (approval_key e s) y) k = Some r'"
      using evict_lookup [of "map_set store (approval_key e s) y" k r'] dist assms(3) s' by simp
    with x y show ?thesis by (auto split: if_splits)
  qed (use assms in simp)
qed (use assms in \<open>auto simp: approval_defs approval_terms_def split: option.splits if_splits\<close>)

lemma other_steps_terms:
  assumes "(other_step k)\<^sup>*\<^sup>* store store'" "store_ok store"
  shows "store_ok store'" "dict_get store' k = Some r' \<Longrightarrow> \<exists>r. dict_get store k = Some r \<and> approval_terms r' = approval_terms r"
  using assms
proof (induction arbitrary: r' rule: rtranclp_induct)
  case (step y z)
  { case 1 then show ?case using step by (blast intro: approval_step_ok other_step_approval) }
  { case 2 then show ?case using step other_step_terms [OF _ step.hyps(2)] by metis }
qed auto

interpretation approvals: decision_store store_ok "\<lambda>st. dict_get st (approval_key e s)"
  "\<lambda>now. getApprovalStatus now e s" "(other_step (approval_key e s))\<^sup>*\<^sup>*" "\<lambda>r. ar_status r = ApPending" approval_terms
  for e s
proof (unfold_locales, goal_cases)
  case (1 st st') then show ?case by (rule other_steps_terms(1) [rotated])
next
  case (2 st st' r') then show ?case using other_steps_terms(2) by blast
next
  case (3 st now) then show ?case by (blast intro: approval_step_ok approval_step.status)
qed (auto simp: approval_defs approval_terms_def split: option.splits if_splits)

section \<open>The poll loop\<close>

text \<open>
  What the engine relies on while it waits: every poll finds a store that the other actors
  have reached from the one before.
\<close>

definition fair_actors :: "Env \<Rightarrow> tick \<Rightarrow> string \<Rightarrow> bool" where
  "fair_actors env t k \<longleftrightarrow> (\<forall>n store. (other_step k)\<^sup>*\<^sup>* store (env_actors env t n store))"

lemma poll_returns:
  assumes "fair_actors env t (approval_key e s)" "snd T < env_clock env t (Suc (n + m))"
    and "approvals.bound_to e s T store"
  shows "approval_poll (Suc m) env h t n e s store \<noteq> None"
  using assms(2,3)
proof (induction m arbitrary: n store)
  case 0
  obtain found store' where g: "getApprovalStatus (env_clock env t (Suc n)) e s (env_actors env t n store) = (found, store')"
    by fastforce
  have "(other_step (approval_key e s))\<^sup>*\<^sup>* store (env_actors env t n store)" using assms(1) by (simp add: fair_actors_def)
  from approvals.poll_late [OF 0(2) this] g 0(1) have "found = Some r \<Longrightarrow> ar_status r \<noteq> ApPending" for r by auto
  with g show ?case by (cases found) (auto split: ApprovalStatus.split)
next
  case (Suc m)
  obtain found store' where g: "getApprovalStatus (env_clock env t (Suc n)) e s (env_actors env t n store) = (found, store')"
    by fastforce
  have "(other_step (approval_key e s))\<^sup>*\<^sup>* store (env_actors env t n store)" using assms(1) by (simp add: fair_actors_def)
  from approvals.poll_bound(1) [OF Suc.prems(2) this g] Suc.IH [of "Suc n" store'] Suc.prems(1) g show ?case
    by (auto split: option.split ApprovalStatus.split)
qed

lemma poll_approved:
  assumes "fair_actors env t (approval_key e s)" "approvals.bound_to e s T store"
    and "approval_poll fuel env h t n e s store = Some (Inr v)"
  shows "\<exists>r u. v = approval_output h (env_id env t) r \<and> ar_decidedBy r = Some u \<and> u \<in> set (fst T)
    \<and> ar_decision r = Some Approve"
  using assms(2,3)
proof (induction fuel arbitrary: n store)
  case (Suc fuel)
  obtain found store' where g: "getApprovalStatus (env_clock env t (Suc n)) e s (env_actors env t n store) = (found, store')"
    by fastforce
  have act: "(other_step (approval_key e s))\<^sup>*\<^sup>* store (env_actors env t n store)" using assms(1) by (simp add: fair_actors_def)
  note bound = approvals.poll_bound [OF Suc.prems(1) act g]
  obtain r where r: "found = Some r" "ar_status r = ApApproved \<or> ar_status r = ApPending"
    using Suc.prems(2) g by (cases found) (auto split: if_splits ApprovalStatus.splits)
  show ?case
  proof (cases "ar_status r = ApPending")
    case True
    with Suc.prems(2) g r(1) Suc.IH [OF bound(1), of "Suc n"] show ?thesis by (auto split: if_splits)
  next
    case False
    have "record_ok r" "approval_terms r = T"
      using bound(1) bound(2) [OF r(1)] by (auto simp: approvals.bound_to_def store_ok_def)
    with False Suc.prems(2) g r show ?thesis
      by (auto simp: record_ok_def approval_terms_def split: if_splits)
  qed
qed simp

text \<open>The store after the engine has filed a request for a new key.\<close>

lemma request_bound:
  assumes "store_ok store" "dict_get store (approval_key e s) = None"
  shows "approvals.bound_to e s (approvers, now + timeoutMs) (snd (requestApproval now e s approvers msg timeoutMs store))"
proof -
  have "store_ok (snd (requestApproval now e s approvers msg timeoutMs store))"
    by (rule approval_step_ok [OF approval_step.request assms(1)])
  then show ?thesis
    using assms(2) by (simp add: approvals.bound_to_def approval_defs new_approval_def approval_terms_def)
qed

lemma approval_step_poll:
  "cfg_hasApproval cfg \<Longrightarrow> executeApprovalStep fuel env cfg ctx t b a =
     approval_poll fuel env (cfg_host cfg) t 0 (rc_runId ctx) (sb_id b)
       (snd (requestApproval (env_clock env t 0) (rc_runId ctx) (sb_id b) (ap_approvers a) (ap_message a)
          (ap_timeoutMs a) (env_approvals env t)))"
  by (simp add: executeApprovalStep_def case_prod_beta)

text \<open>
  Property C5: an approval step ends.  Once a poll happens after the deadline of the
  request, the step has returned or failed, whatever approvers, other runs and status
  queries do to the shared store in the meantime.
\<close>

theorem approval_step_ends:
  assumes "cfg_hasApproval cfg" "store_ok (env_approvals env t)"
    and "dict_get (env_approvals env t) (approval_key (rc_runId ctx) (sb_id b)) = None"
    and "fair_actors env t (approval_key (rc_runId ctx) (sb_id b))"
    and "env_clock env t 0 + ap_timeoutMs a < env_clock env t (Suc n)"
  shows "\<exists>r. executeApprovalStep (Suc n) env cfg ctx t b a = Some r"
  using poll_returns [OF assms(4) _ request_bound [OF assms(2,3), where now = "env_clock env t 0" and approvers = "ap_approvers a"
        and msg = "ap_message a" and timeoutMs = "ap_timeoutMs a"], where n = 0 and m = n] assms(1,5)
  by (simp add: approval_step_poll del: approval_poll.simps)


text \<open>An approver who decides before the second poll.\<close>

definition gate :: ApprovalConfig where
  "gate = \<lparr>ap_approvers = [''ann''], ap_message = None, ap_timeoutMs = 3\<rparr>"

definition ann_env :: Env where
  "ann_env = demo_env\<lparr>env_actors := (\<lambda>t n store. if n = 1 then snd (submitDecision 2 ''r1'' ''g'' ''ann'' Approve None store) else store)\<rparr>"

lemma ann_fair: "fair_actors ann_env t k"
  by (auto simp: fair_actors_def ann_env_def intro!: r_into_rtranclp other_step.decide)

theorem approval_step_ends_witness:
  "\<exists>r. executeApprovalStep 4 ann_env demo_cfg (run_context demo_job (demo_row ''p'' two_steps)) [] (plain_base ''g'') gate = Some r"
  using approval_step_ends [OF _ _ _ ann_fair, of demo_cfg "[]" "run_context demo_job (demo_row ''p'' two_steps)"
      "plain_base ''g''" gate 3]
  by (simp add: demo_cfg_def ann_env_def demo_env_def store_ok_def gate_def)

lemma ann_approves:
  "\<exists>v. executeApprovalStep 4 ann_env demo_cfg (run_context demo_job (demo_row ''p'' two_steps)) [] (plain_base ''g'') gate
     = Some (Inr v)"
  by (simp add: executeApprovalStep_def demo_cfg_def ann_env_def demo_env_def run_context_def demo_job_def demo_row_def
      plain_base_def gate_def approval_defs new_approval_def approval_key_def decided_status_def
      evictTerminalEntries_def MAX_TERMINAL_ENTRIES_def numeral_eq_Suc)


end
