(* ===== verification/EngineLimits.thy ===== *)
theory EngineLimits
  imports EngineTermination
begin

text \<open>
  Where the engine falls short of its comments or of the rest of the service, each as a
  lemma about the model: a validated definition that never ends, a dangling fallback that
  counts as success, runs left in state running, a leaked connection, branch steps that are
  visited again, a race that the failing branch wins.
\<close>

section \<open>A validated definition that never ends\<close>

text \<open>
  The graph that validation checks has no edge for the fall-through of a conditional step
  without \<^verbatim>\<open>elseStepId\<close>, but the engine takes it.
\<close>

definition never :: Condition where
  "never = \<lparr>c_field = ''x'', c_operator = Op_exists, c_value = VNull\<rparr>"

definition always :: Condition where
  "always = \<lparr>c_field = ''x'', c_operator = Op_not_exists, c_value = VNull\<rparr>"

definition step_b :: Step where "step_b = ConditionalStep (plain_base ''b'') never ''z'' None"
definition step_d :: Step where "step_d = ConditionalStep (plain_base ''d'') always ''b'' (Some ''z'')"
definition step_z :: Step where "step_z = CodeStep (plain_base ''z'') JavaScript [] None"

definition loop_def :: PipelineDefinition where
  "loop_def = demo_def [step_b, step_d, step_z]"

lemma loop_def_valid: "validateDefinition loop_def = []"
  by code_simp

definition no_input :: RunContext where
  "no_input = run_context demo_job (demo_row ''0a1b'' loop_def)"

lemma loop_conditions:
  "evaluateCondition h [] never = False" "evaluateCondition h [] always = True"
  by (simp_all add: evaluateCondition_def never_def always_def getFieldValue_def Let_def)

lemma loop_visit:
  "\<exists>st'. visit_step fuel demo_env cfg (no_input\<lparr>rc_stepOutputs := outs\<rparr>) t [step_b, step_d, step_z] step_b st
     = Some (st', Goto (Some ''d''))"
  "\<exists>st'. visit_step fuel demo_env cfg (no_input\<lparr>rc_stepOutputs := outs\<rparr>) t [step_b, step_d, step_z] step_d st
     = Some (st', Goto (Some ''b''))"
  by (simp_all add: visit_step_def skip_requested_def demo_no_hooks run_step_def Let_def max_retries_def step_b_def step_d_def
      step_z_def plain_base_def conditional_result executeConditionalStep_def resolveStepInput_def no_input_def
      run_context_def demo_row_def obj_set_all_def loop_conditions after_success_def getNextStepIdFromMain_def
      split: prod.split)

lemma loop_next:
  assumes "map fst (es_steps st) = [''b'', ''d'', ''z'']" "sid \<in> {''b'', ''d''}"
  shows "\<exists>st'. loop_body fuel demo_env cfg no_input k [step_b, step_d, step_z] sid st
      = Some (st', Goto (Some (if sid = ''b'' then ''d'' else ''b''))) \<and> map fst (es_steps st') = [''b'', ''d'', ''z'']"
proof -
  let ?s = "if sid = ''b'' then step_b else step_d"
  have "dict_get (step_map [step_b, step_d, step_z]) sid = Some ?s"
    using assms(2) by (auto simp: step_map_def step_b_def step_d_def step_z_def plain_base_def)
  moreover have "dict_has (es_steps st) sid"
    using assms by (auto simp: map_of_eq_None_iff simp flip: set_map)
  ultimately have "loop_body fuel demo_env cfg no_input k [step_b, step_d, step_z] sid st =
      visit_step fuel demo_env cfg (no_input\<lparr>rc_stepOutputs := es_outputs st\<rparr>) [k] [step_b, step_d, step_z] ?s st"
    by (simp add: loop_body_def)
  then obtain st' where lb: "loop_body fuel demo_env cfg no_input k [step_b, step_d, step_z] sid st
      = Some (st', Goto (Some (if sid = ''b'' then ''d'' else ''b'')))"
    using loop_visit [of fuel cfg "es_outputs st" "[k]" st] assms(2) by (cases "sid = ''b''") auto
  with rowkeys.loop_body_obs [OF lb] assms(1) show ?thesis by simp
qed

lemma validated_run_diverges:
  assumes "map fst (es_steps st) = [''b'', ''d'', ''z'']" "sid \<in> {''b'', ''d''}"
  shows "traverse fuel demo_env cfg no_input k [step_b, step_d, step_z] (Some sid) st = None"
  using assms
proof (induction fuel arbitrary: k st sid)
  case (Suc fuel)
  let ?next = "if sid = ''b'' then ''d'' else ''b''"
  from loop_next [OF Suc.prems, of fuel cfg k] obtain st' where
    lb: "loop_body fuel demo_env cfg no_input k [step_b, step_d, step_z] sid st = Some (st', Goto (Some ?next))"
    and keys: "map fst (es_steps st') = [''b'', ''d'', ''z'']"
    by (elim exE conjE)
  have "traverse fuel demo_env cfg no_input (Suc k) [step_b, step_d, step_z] (Some ?next) st' = None"
    by (rule Suc.IH [OF keys]) simp
  with lb show ?case by (simp only: traverse.simps option.case prod.case Next.case)
qed simp

section \<open>Fallbacks\<close>

text \<open>
  A fallback step that does not exist, which validation does not look at, ends the run as
  completed although its only step has failed.
\<close>

definition dangling :: Step where
  "dangling = ConnectorStep ((plain_base ''b'')\<lparr>sb_fallbackStepId := Some ''nowhere''\<rparr>) ''crm'' None True"

lemma dangling_valid: "validateDefinition (demo_def [dangling]) = []"
  by code_simp

lemma dangling_visit:
  "visit_step fuel demo_env cfg ctx t steps dangling st
     = Some (after_failure 1 ctx steps dangling (StepExecutionError ''Ingestion Service returned'')
              (mark_running demo_env ctx t dangling st))"
proof -
  have "executeStep fuel demo_env cfg ctx t dangling = Some (Inl (StepExecutionError ''Ingestion Service returned''))" for t
    by (simp add: dangling_def executeStep.simps executeSimpleStep_def executeConnectorStep_def demo_env_def
        json_or_throw_def http_ok_def Let_def)
  then show ?thesis
    by (simp add: visit_step_def skip_requested_def demo_no_hooks run_step_def Let_def max_retries_def
        record_attempts_def dangling_def plain_base_def)
qed

lemma dangling_shape: "base dangling = (plain_base ''b'')\<lparr>sb_fallbackStepId := Some ''nowhere''\<rparr>"
  "step_type dangling = ''connector''" "collectAllStepsFlat [dangling] = [dangling]"
  by (simp_all add: dangling_def step_type_def)

lemma dangling_fallback_completes:
  "\<exists>st'. demo_run [dangling] = Some (st', Ended) \<and> es_run st' = RunCompleted
     \<and> map (\<lambda>(k, r). (k, rs_status r)) (es_steps st') = [(''b'', StFailed)]"
  by (simp add: demo_run_def demo_pending_def demo_row_def demo_lock demo_def_def migration_step_types_def
      demo_no_hooks dangling_visit dangling_shape plain_base_def engine_run_simps numeral_eq_Suc
      del: collectAllStepsFlat.simps(2))

section \<open>Runs left running\<close>

text \<open>
  A step type that the deployed schema does not admit: the insert of the step rows fails, the
  error escapes and the run stays in state running; a later delivery of the job is skipped.
\<close>

lemma rejected_type_strands_run:
  assumes "es_run st = RunPending" "tryAcquireAdvisoryLock True (rr_pipeline_id run) = Inr True"
    and "s \<in> set (collectAllStepsFlat (pd_steps (rr_definition run)))" "step_type s \<notin> set migration_step_types"
  shows "\<exists>st' e. processRun fuel env cfg migration_step_types True job (Some run) st = Some (st', Threw e)
    \<and> es_run st' = RunRunning
    \<and> processRun fuel' env' cfg migration_step_types True job (Some run) st' = Some (st', Skipped)"
proof -
  have "\<exists>e. createBatch migration_step_types (collectAllStepsFlat (pd_steps (rr_definition run))) = Inl e"
    using assms(3,4) by (auto simp: createBatch_def list_all_iff)
  with assms show ?thesis by (auto simp: processRun_def drive_def Let_def)
qed

lemma unsupported_types:
  "list_all (\<lambda>ty. ty \<notin> set migration_step_types) [''transform'', ''wait'', ''approval'', ''sub_workflow'']"
  by code_simp

text \<open>An error of the hook lookup has the same effect.\<close>

lemma hook_lookup_error_strands_run:
  assumes "es_run st = RunPending" "tryAcquireAdvisoryLock True (rr_pipeline_id run) = Inr True"
    and "createBatch types (collectAllStepsFlat (pd_steps (rr_definition run))) = Inr rows" "es_tracker st = None"
    and "\<And>t stage. env_plugin_hooks env t stage = Inl er"
  shows "\<exists>st'. processRun fuel env cfg types True job (Some run) st = Some (st', Threw er) \<and> es_run st' = RunRunning"
  using assms
  by (auto simp: processRun_def drive_def Let_def start_tracking_def run_hooks_def resolveHookChain_def)

section \<open>A leaked connection\<close>

text \<open>
  The lock key is the first 16 hex digits of the pipeline id read as an unsigned number; half
  of them do not fit \<^verbatim>\<open>bigint\<close>.  The query then fails before the lock is marked as acquired,
  and the client is not given back.
\<close>

lemma large_key_leaks_client:
  assumes "es_run st = RunPending" "advisoryLockKey (rr_pipeline_id run) = Some k" "9223372036854775807 < k"
  shows "\<exists>e. processRun fuel env cfg types free job (Some run) st
    = Some (st\<lparr>es_clientsOut := Suc (es_clientsOut st)\<rparr>, Threw e)"
  using assms by (simp add: processRun_def tryAcquireAdvisoryLock_def Let_def)

lemma large_key_example: "advisoryLockKey ''9b1deb4d-3b7d-4bad-9bdd-2b0d7b3dcb6d'' = Some 11177348567146515373"
  by code_simp

section \<open>Parallel steps\<close>

text \<open>
  The main loop walks the flattened list, so after a parallel step it goes to the first
  step of the first branch and runs the branch steps again, one after the other.
\<close>

lemma parallel_next_is_branch_step:
  assumes "distinct (map step_id (collectAllStepsFlat (ParallelStep b (Branch bid entry (x # xs) # brs) mode # ss)))"
  shows "getNextStepIdFromMain (ParallelStep b (Branch bid entry (x # xs) # brs) mode)
     (collectAllStepsFlat (ParallelStep b (Branch bid entry (x # xs) # brs) mode # ss)) res = Some (step_id x)"
  by (simp add: getNextStepIdFromMain_def)

text \<open>With \<^verbatim>\<open>waitMode: any\<close> the first branch to settle decides, also by failing.\<close>

lemma race_lost_to_failure:
  "parallel_any i (1 # order) [k, k'] [r, Some (Inl e)] = Some (Inl e)"
  by (simp add: parallel_any_def settled_first_def)

end
