(* ===== verification/CircuitBreaker.thy ===== *)
theory CircuitBreaker
  imports JsPrelude
begin

text \<open>
  The circuit breaker of the gateway, \<^verbatim>\<open>services/gateway/src/utils/circuit-breaker.ts\<close>.  A call is two
  events, its admission and its return, so that calls overlap as they do around the \<^verbatim>\<open>await\<close>.
\<close>

section \<open>Model\<close>

datatype BreakerState = Closed | Open | HalfOpen

record CircuitBreakerOptions =
  failureThreshold :: nat
  resetTimeoutMs :: nat

record Breaker =
  br_state :: BreakerState
  consecutiveFailures :: nat
  openedAt :: "nat option"
  probeInFlight :: bool

definition createCircuitBreaker :: Breaker where
  "createCircuitBreaker = \<lparr>br_state = Closed, consecutiveFailures = 0, openedAt = None, probeInFlight = False\<rparr>"

definition transitionToOpen :: "nat \<Rightarrow> Breaker \<Rightarrow> Breaker" where
  "transitionToOpen now b = b\<lparr>br_state := Open, openedAt := Some now\<rparr>"

definition transitionToClosed :: "Breaker \<Rightarrow> Breaker" where
  "transitionToClosed b = b\<lparr>br_state := Closed, consecutiveFailures := 0, openedAt := None\<rparr>"

definition transitionToHalfOpen :: "Breaker \<Rightarrow> Breaker" where
  "transitionToHalfOpen b = b\<lparr>br_state := HalfOpen, probeInFlight := False, consecutiveFailures := 0\<rparr>"

definition checkHalfOpenTransition :: "CircuitBreakerOptions \<Rightarrow> nat \<Rightarrow> Breaker \<Rightarrow> Breaker" where
  "checkHalfOpenTransition opts now b =
     (case openedAt b of
        Some t \<Rightarrow> if br_state b = Open \<and> int now - int t \<ge> int (resetTimeoutMs opts) then transitionToHalfOpen b else b
      | None \<Rightarrow> b)"

text \<open>The part of \<^verbatim>\<open>execute\<close> before \<^verbatim>\<open>await fn()\<close>; \<open>False\<close> is the thrown \<^verbatim>\<open>CircuitBreakerOpenError\<close>.\<close>

definition admit :: "CircuitBreakerOptions \<Rightarrow> nat \<Rightarrow> Breaker \<Rightarrow> bool \<times> Breaker" where
  "admit opts now b0 =
     (let b = checkHalfOpenTransition opts now b0
      in if br_state b = Open then (False, b)
         else if br_state b = HalfOpen \<and> probeInFlight b then (False, b)
         else if br_state b = HalfOpen then (True, b\<lparr>probeInFlight := True\<rparr>)
         else (True, b))"

definition on_success :: "Breaker \<Rightarrow> Breaker" where
  "on_success b =
     (if br_state b = HalfOpen then transitionToClosed (b\<lparr>probeInFlight := False\<rparr>)
      else b\<lparr>consecutiveFailures := 0\<rparr>)"

definition on_failure :: "CircuitBreakerOptions \<Rightarrow> nat \<Rightarrow> Breaker \<Rightarrow> Breaker" where
  "on_failure opts now b0 =
     (let b = b0\<lparr>consecutiveFailures := Suc (consecutiveFailures b0)\<rparr>
      in if br_state b = HalfOpen then transitionToOpen now (b\<lparr>probeInFlight := False\<rparr>)
         else if consecutiveFailures b \<ge> failureThreshold opts then transitionToOpen now b
         else b)"

text \<open>A call that returns before any other event.\<close>

definition execute ::
  "CircuitBreakerOptions \<Rightarrow> nat \<Rightarrow> nat \<Rightarrow> 'a res \<Rightarrow> Breaker \<Rightarrow> 'a res \<times> Breaker" where
  "execute opts now later result b =
     (case admit opts now b of
        (False, b') \<Rightarrow> (Inl (PlainError ''The upstream service is temporarily unavailable. The circuit breaker is open.''), b')
      | (True, b') \<Rightarrow>
          (case result of Inr v \<Rightarrow> (Inr v, on_success b') | Inl e \<Rightarrow> (Inl e, on_failure opts later b')))"

text \<open>Overlapping calls: a sequence of admissions and returns, with the answers to the admissions.\<close>

datatype breaker_event = CallAt nat | Succeeded | FailedAt nat

fun breaker_run :: "CircuitBreakerOptions \<Rightarrow> breaker_event list \<Rightarrow> Breaker \<Rightarrow> bool list \<times> Breaker" where
  "breaker_run opts [] b = ([], b)"
| "breaker_run opts (CallAt now # evs) b =
     (let (ok, b') = admit opts now b; (oks, b'') = breaker_run opts evs b' in (ok # oks, b''))"
| "breaker_run opts (Succeeded # evs) b = breaker_run opts evs (on_success b)"
| "breaker_run opts (FailedAt now # evs) b = breaker_run opts evs (on_failure opts now b)"

lemmas breaker_defs = transitionToOpen_def transitionToClosed_def transitionToHalfOpen_def
  checkHalfOpenTransition_def admit_def on_success_def on_failure_def Let_def

section \<open>States\<close>

definition breaker_ok :: "CircuitBreakerOptions \<Rightarrow> Breaker \<Rightarrow> bool" where
  "breaker_ok opts b \<longleftrightarrow>
     (case br_state b of
        Closed \<Rightarrow> openedAt b = None \<and> consecutiveFailures b < failureThreshold opts \<and> \<not> probeInFlight b
      | Open \<Rightarrow> openedAt b \<noteq> None \<and> \<not> probeInFlight b
      | HalfOpen \<Rightarrow> openedAt b \<noteq> None \<and> consecutiveFailures b = 0)"

lemma event_ok:
  assumes "breaker_ok opts b"
  shows "breaker_ok opts (snd (admit opts now b))"
    and "0 < failureThreshold opts \<Longrightarrow> breaker_ok opts (on_success b)"
    and "breaker_ok opts (on_failure opts now b)"
  using assms by (auto simp: breaker_ok_def breaker_defs split: BreakerState.splits option.splits)

lemma breaker_run_ok:
  "breaker_ok opts b \<Longrightarrow> 0 < failureThreshold opts \<Longrightarrow> breaker_ok opts (snd (breaker_run opts evs b))"
proof (induction opts evs b rule: breaker_run.induct)
  case (2 opts now evs b)
  then show ?case using event_ok(1) [of opts b now] by (cases "admit opts now b") (auto simp: case_prod_beta)
qed (auto simp: event_ok)

section \<open>An open breaker\<close>

definition event_time :: "breaker_event \<Rightarrow> nat option" where
  "event_time ev = (case ev of CallAt n \<Rightarrow> Some n | Succeeded \<Rightarrow> None | FailedAt n \<Rightarrow> Some n)"

definition opened_since :: "nat \<Rightarrow> Breaker \<Rightarrow> bool" where
  "opened_since t b \<longleftrightarrow> br_state b = Open \<and> (\<exists>t' \<ge> t. openedAt b = Some t')"

lemma opened_since_event:
  assumes "opened_since t b"
  shows "now < t + resetTimeoutMs opts \<Longrightarrow> admit opts now b = (False, b)"
    and "opened_since t (on_success b)"
    and "t \<le> now \<Longrightarrow> opened_since t (on_failure opts now b)"
  using assms by (auto simp: opened_since_def breaker_defs)

text \<open>
  An open breaker protects the upstream.  While less than the reset time has
  passed since it opened, it rejects every call, in any interleaving with returns of calls
  that were admitted earlier, and it stays open.
\<close>

theorem open_breaker_rejects:
  assumes "br_state b = Open" "openedAt b = Some t"
    and "\<forall>ev \<in> set evs. \<forall>n. event_time ev = Some n \<longrightarrow> t \<le> n \<and> n < t + resetTimeoutMs opts"
  shows "True \<notin> set (fst (breaker_run opts evs b)) \<and> br_state (snd (breaker_run opts evs b)) = Open"
proof -
  have "opened_since t b" using assms(1,2) by (auto simp: opened_since_def)
  with assms(3) have "True \<notin> set (fst (breaker_run opts evs b)) \<and> opened_since t (snd (breaker_run opts evs b))"
  proof (induction opts evs b rule: breaker_run.induct)
    case (2 opts now evs b)
    then have "admit opts now b = (False, b)"
      by (auto simp: event_time_def intro!: opened_since_event)
    with 2 show ?case by (auto simp: case_prod_beta Let_def)
  qed (auto simp: event_time_def opened_since_event)
  then show ?thesis by (simp add: opened_since_def)
qed

definition demo_opts :: CircuitBreakerOptions where
  "demo_opts = \<lparr>failureThreshold = 2, resetTimeoutMs = 10\<rparr>"

definition tripped :: Breaker where
  "tripped = snd (breaker_run demo_opts [CallAt 0, CallAt 1, CallAt 2, FailedAt 3, FailedAt 4] createCircuitBreaker)"

theorem open_breaker_rejects_witness:
  "fst (breaker_run demo_opts [CallAt 5, FailedAt 6, Succeeded, CallAt 13] tripped) = [False, False]"
proof -
  have "br_state tripped = Open" "openedAt tripped = Some 4" by code_simp+
  from open_breaker_rejects [OF this, of "[CallAt 5, FailedAt 6, Succeeded, CallAt 13]" demo_opts] show ?thesis
    by (auto simp: event_time_def demo_opts_def Let_def case_prod_beta)
qed

section \<open>When a closed breaker opens\<close>

text \<open>A history of calls one after the other, newest last: \<open>True\<close> for a success.\<close>

fun serial_run :: "CircuitBreakerOptions \<Rightarrow> (nat \<times> bool) list \<Rightarrow> Breaker \<Rightarrow> Breaker" where
  "serial_run opts [] b = b"
| "serial_run opts ((now, ok) # cs) b =
     serial_run opts cs (snd (execute opts now now (if ok then Inr () else Inl (PlainError [])) b))"

definition failure_run :: "nat \<Rightarrow> bool list \<Rightarrow> bool" where
  "failure_run n hist \<longleftrightarrow> (\<exists>xs ys. hist = xs @ replicate n False @ ys)"

definition trailing :: "bool list \<Rightarrow> nat" where
  "trailing hist = length (takeWhile Not (rev hist))"

lemma trailing_simps [simp]:
  "trailing [] = 0" "trailing (h @ [True]) = 0" "trailing (h @ [False]) = Suc (trailing h)"
  by (simp_all add: trailing_def)

lemma trailing_split: "\<exists>xs. h = xs @ replicate (trailing h) False"
proof (induction h rule: rev_induct)
  case (snoc x h)
  then obtain xs where h: "h = xs @ replicate (trailing h) False" by blast
  show ?case
  proof (cases x)
    case False
    have "h @ [False] = xs @ replicate (trailing (h @ [False])) False"
      by (subst h) (simp add: replicate_append_same)
    with False show ?thesis by (metis (full_types))
  qed simp
qed simp

lemma trailing_ge: "n \<le> trailing (xs @ replicate n False)"
  by (induction n) (simp_all flip: replicate_append_same append_assoc)

lemma failure_run_snoc:
  assumes "0 < n"
  shows "failure_run n (h @ [x]) \<longleftrightarrow> failure_run n h \<or> n \<le> trailing (h @ [x])"
proof
  assume "failure_run n (h @ [x])"
  then obtain xs ys where eq: "h @ [x] = xs @ replicate n False @ ys" by (auto simp: failure_run_def)
  show "failure_run n h \<or> n \<le> trailing (h @ [x])"
  proof (cases ys rule: rev_cases)
    case Nil
    with eq trailing_ge [of n xs] show ?thesis by simp
  next
    case (snoc zs z)
    then have "h = xs @ replicate n False @ zs" using eq by (simp flip: append_assoc)
    then show ?thesis by (auto simp: failure_run_def)
  qed
next
  assume "failure_run n h \<or> n \<le> trailing (h @ [x])"
  then show "failure_run n (h @ [x])"
  proof
    assume "failure_run n h"
    then obtain xs ys where "h = xs @ replicate n False @ ys" by (auto simp: failure_run_def)
    then have "h @ [x] = xs @ replicate n False @ (ys @ [x])" by simp
    then show ?thesis unfolding failure_run_def by blast
  next
    assume le: "n \<le> trailing (h @ [x])"
    obtain xs where "h @ [x] = xs @ replicate (trailing (h @ [x])) False" using trailing_split by blast
    also have "replicate (trailing (h @ [x])) False = replicate (trailing (h @ [x]) - n) False @ replicate n False"
      using le by (simp flip: replicate_add)
    finally have "h @ [x] = (xs @ replicate (trailing (h @ [x]) - n) False) @ replicate n False @ []" by simp
    then show ?thesis unfolding failure_run_def by blast
  qed
qed

lemma serial_run_append: "serial_run opts (xs @ ys) b = serial_run opts ys (serial_run opts xs b)"
  by (induction opts xs b rule: serial_run.induct) simp_all

lemma closed_execute:
  assumes "br_state b = Closed" "openedAt b = None"
  shows "snd (execute opts now later (Inr v) b) = b\<lparr>consecutiveFailures := 0\<rparr>"
    and "snd (execute opts now later (Inl e) b) = on_failure opts later b"
  using assms by (simp_all add: execute_def breaker_defs)

lemma serial_run_counts:
  assumes "0 < failureThreshold opts" "\<not> failure_run (failureThreshold opts) (map snd cs)"
  shows "serial_run opts cs createCircuitBreaker
    = createCircuitBreaker\<lparr>consecutiveFailures := trailing (map snd cs)\<rparr>"
  using assms(2)
proof (induction cs rule: rev_induct)
  case Nil
  then show ?case by (simp add: createCircuitBreaker_def)
next
  case (snoc c cs)
  obtain now ok where c: "c = (now, ok)" by (cases c)
  have "\<not> failure_run (failureThreshold opts) (map snd cs)" "trailing (map snd (cs @ [c])) < failureThreshold opts"
    using snoc.prems assms(1) by (auto simp: failure_run_snoc)
  with snoc.IH c show ?case
    by (cases ok) (auto simp: serial_run_append closed_execute createCircuitBreaker_def on_failure_def Let_def)
qed

text \<open>
  A breaker opens exactly at the failure threshold.  For calls one after the
  other, it has stayed closed throughout if and only if there never were as many
  consecutive failures as the threshold.
\<close>

theorem breaker_opens_at_threshold:
  assumes "0 < failureThreshold opts"
  shows "(\<forall>n \<le> length cs. br_state (serial_run opts (take n cs) createCircuitBreaker) = Closed)
    \<longleftrightarrow> \<not> failure_run (failureThreshold opts) (map snd cs)"
proof (induction cs rule: rev_induct)
  case Nil
  have "\<not> failure_run (failureThreshold opts) []" using assms by (simp add: failure_run_def)
  then show ?case by (simp add: createCircuitBreaker_def)
next
  case (snoc c cs)
  have split: "(\<forall>n \<le> length (cs @ [c]). br_state (serial_run opts (take n (cs @ [c])) createCircuitBreaker) = Closed) \<longleftrightarrow>
      (\<forall>n \<le> length cs. br_state (serial_run opts (take n cs) createCircuitBreaker) = Closed)
      \<and> br_state (serial_run opts (cs @ [c]) createCircuitBreaker) = Closed"
    by (auto simp: le_Suc_eq)
  show ?case
  proof (cases "failure_run (failureThreshold opts) (map snd cs)")
    case True
    with snoc split assms show ?thesis by (simp add: failure_run_snoc)
  next
    case False
    obtain now ok where c: "c = (now, ok)" by (cases c)
    have "br_state (serial_run opts (cs @ [c]) createCircuitBreaker) = Closed \<longleftrightarrow>
        \<not> failureThreshold opts \<le> trailing (map snd (cs @ [c]))"
      using serial_run_counts [OF assms False] c assms
      by (cases ok) (auto simp: serial_run_append closed_execute createCircuitBreaker_def on_failure_def
          transitionToOpen_def Let_def)
    with False snoc split assms show ?thesis by (auto simp: failure_run_snoc)
  qed
qed

theorem breaker_opens_at_threshold_witness:
  "br_state (serial_run demo_opts [(0, False), (1, True), (2, False)] createCircuitBreaker) = Closed"
proof -
  have "\<not> failure_run 2 [False, True, False]"
    using failure_run_snoc [of 2 "[False, True]" False] failure_run_snoc [of 2 "[False]" True]
      failure_run_snoc [of 2 "[]" False]
    by (simp add: failure_run_def trailing_def)
  then show ?thesis
    using breaker_opens_at_threshold [of demo_opts "[(0, False), (1, True), (2, False)]"]
    by (auto simp: demo_opts_def dest: spec [of _ 3])
qed

section \<open>Probes\<close>

text \<open>While a probe is in flight and nothing returns, further calls are rejected.\<close>

lemma one_probe:
  "br_state b = HalfOpen \<Longrightarrow> probeInFlight b \<Longrightarrow> admit opts now b = (False, b)"
  by (simp add: breaker_defs split: option.split)

text \<open>
  A call from before the breaker opened that fails while the probe is in flight counts as
  the probe: after another reset time a second probe is admitted although the first has not
  returned.  Here the calls at 0 and 1 are still running when the breaker opens at 4.
\<close>

lemma two_probes_in_flight:
  "fst (breaker_run demo_opts [CallAt 0, CallAt 1, CallAt 2, FailedAt 3, FailedAt 4, CallAt 14, FailedAt 15, CallAt 25]
     createCircuitBreaker) = [True, True, True, True, True]"
  by code_simp

text \<open>Likewise a late success closes the breaker without the probe having returned.\<close>

lemma straggler_closes:
  "br_state (snd (breaker_run demo_opts [CallAt 0, CallAt 1, CallAt 2, FailedAt 3, FailedAt 4, CallAt 14, Succeeded]
     createCircuitBreaker)) = Closed"
  by code_simp

end
