(* ===== verification/RateLimiter.thy ===== *)
theory RateLimiter
  imports JsNum
begin

text \<open>
  The sliding-window rate limiter of the gateway,
  \<^verbatim>\<open>services/gateway/src/utils/sliding-window-rate-limiter.ts\<close>: the Lua script on Redis counters and the
  in-memory fallback.  Times are milliseconds.  A Redis key \<^verbatim>\<open>key:windowStart\<close> is the pair of its two
  parts (the number after the last colon is the window start), a Redis entry is a counter
  with its expiry time.
\<close>

section \<open>In-memory fallback\<close>

record InMemoryWindow =
  timestamps :: "nat list"
  lastAccessedAt :: nat

type_synonym windows = "(string, InMemoryWindow) dict"

definition IN_MEMORY_MAX_ENTRIES :: nat where
  "IN_MEMORY_MAX_ENTRIES = 10000"

definition IN_MEMORY_TTL_MS :: nat where
  "IN_MEMORY_TTL_MS = 2 * 60 * 1000"

text \<open>The first entry with the smallest access time.\<close>

fun oldest_entry :: "windows \<Rightarrow> (string \<times> nat) option \<Rightarrow> (string \<times> nat) option" where
  "oldest_entry [] best = best"
| "oldest_entry ((k, w) # ws) best =
     oldest_entry ws
       (case best of
          None \<Rightarrow> Some (k, lastAccessedAt w)
        | Some (k', t) \<Rightarrow> if lastAccessedAt w < t then Some (k, lastAccessedAt w) else best)"

definition evictStaleInMemoryEntries :: "nat \<Rightarrow> windows \<Rightarrow> windows" where
  "evictStaleInMemoryEntries now ws =
     (let ws1 = filter (\<lambda>(_, w). \<not> int now - int (lastAccessedAt w) > int IN_MEMORY_TTL_MS) ws
      in if length ws1 \<ge> IN_MEMORY_MAX_ENTRIES
         then (case oldest_entry ws1 None of None \<Rightarrow> ws1 | Some (k, _) \<Rightarrow> map_delete ws1 k)
         else ws1)"

record CheckResult =
  allowed :: bool
  remaining :: int
  resetAt :: int

definition window_check :: "nat \<Rightarrow> int \<Rightarrow> nat \<Rightarrow> InMemoryWindow \<Rightarrow> CheckResult \<times> InMemoryWindow" where
  "window_check now instanceLimit windowMs w =
     (let windowStart = int now - int windowMs;
          ts = dropWhile (\<lambda>t. int t \<le> windowStart) (timestamps w);
          cnt = int (length ts);
          reset = (int now + int windowMs) div 1000
      in if cnt \<ge> instanceLimit
         then (\<lparr>allowed = False, remaining = 0, resetAt = reset\<rparr>, \<lparr>timestamps = ts, lastAccessedAt = now\<rparr>)
         else (\<lparr>allowed = True, remaining = instanceLimit - cnt - 1, resetAt = reset\<rparr>,
               \<lparr>timestamps = ts @ [now], lastAccessedAt = now\<rparr>))"

definition inMemoryCheck :: "nat \<Rightarrow> string \<Rightarrow> int \<Rightarrow> nat \<Rightarrow> windows \<Rightarrow> CheckResult \<times> windows" where
  "inMemoryCheck now key instanceLimit windowMs ws =
     (let ws1 = (if length ws \<ge> IN_MEMORY_MAX_ENTRIES then evictStaleInMemoryEntries now ws else ws);
          w = (case dict_get ws1 key of None \<Rightarrow> \<lparr>timestamps = [], lastAccessedAt = now\<rparr> | Some w \<Rightarrow> w);
          (r, w') = window_check now instanceLimit windowMs w
      in (r, map_set ws1 key w'))"

section \<open>Redis counters\<close>

record Counter =
  cn_value :: nat
  cn_expiresAt :: nat

type_synonym redis = "(string \<times> int, Counter) dict"

definition redis_get :: "nat \<Rightarrow> redis \<Rightarrow> string \<times> int \<Rightarrow> nat" where
  "redis_get now r k = (case dict_get r k of None \<Rightarrow> 0 | Some c \<Rightarrow> if now < cn_expiresAt c then cn_value c else 0)"

text \<open>\<^verbatim>\<open>SLIDING_WINDOW_LUA\<close>: the result is \<^verbatim>\<open>[allowed, remaining, reset]\<close>.\<close>

definition SLIDING_WINDOW_LUA ::
  "nat \<Rightarrow> string \<times> int \<Rightarrow> string \<times> int \<Rightarrow> int \<Rightarrow> nat \<Rightarrow> int \<Rightarrow> redis \<Rightarrow> (int \<times> int \<times> int) \<times> redis" where
  "SLIDING_WINDOW_LUA now curKey prevKey arg1 windowMs limit r =
     (let current = redis_get now r curKey;
          previous = redis_get now r prevKey;
          elapsed = arg1 mod int windowMs;
          effective = rat_of_nat previous * (1 - rat_of_int elapsed / rat_of_nat windowMs) + rat_of_nat current
      in if effective \<ge> rat_of_int limit then ((0, \<lfloor>effective\<rfloor>, - 1), r)
         else ((1, limit - \<lfloor>effective\<rfloor> - 1, (arg1 + int windowMs) div 1000),
               map_set r curKey \<lparr>cn_value = Suc current, cn_expiresAt = now + 2 * windowMs\<rparr>))"

definition window_start :: "nat \<Rightarrow> nat \<Rightarrow> int" where
  "window_start W now = (int now div int W) * int W"

definition redis_check :: "nat \<Rightarrow> string \<Rightarrow> int \<Rightarrow> nat \<Rightarrow> redis \<Rightarrow> (int \<times> int \<times> int) \<times> redis" where
  "redis_check now key limit W r =
     (let windowStart = window_start W now
      in SLIDING_WINDOW_LUA now (key, windowStart) (key, windowStart - int W) windowStart W limit r)"

section \<open>The limiter\<close>

record Limiter =
  redisHealthy :: bool
  inMemoryWindows :: windows
  redisStore :: redis

record RateLimiterConfig =
  windowMs :: nat
  fallbackReplicaCount :: int

record RateLimitResult =
  rl_allowed :: bool
  rl_remaining :: int
  rl_resetAt :: int
  rl_policy :: string

text \<open>\<^verbatim>\<open>Math.floor(limit * burstMultiplier)\<close>, for finite configuration values.\<close>

definition effective_limit :: "int \<Rightarrow> jsnum \<Rightarrow> int" where
  "effective_limit limit burst = (case jmul (jint limit) burst of Fin q \<Rightarrow> \<lfloor>q\<rfloor> | _ \<Rightarrow> 0)"

definition fallback :: "RateLimiterConfig \<Rightarrow> nat \<Rightarrow> string \<Rightarrow> int \<Rightarrow> Limiter \<Rightarrow> RateLimitResult \<times> Limiter" where
  "fallback cfg now key effectiveLimit st =
     (let replicaCount = max 1 (fallbackReplicaCount cfg);
          (r, ws) = inMemoryCheck now key (effectiveLimit div replicaCount) (windowMs cfg) (inMemoryWindows st)
      in (\<lparr>rl_allowed = allowed r, rl_remaining = remaining r, rl_resetAt = resetAt r,
           rl_policy = ''in-memory-fallback''\<rparr>, st\<lparr>inMemoryWindows := ws\<rparr>))"

text \<open>\<open>commandOk\<close> is whether the \<^verbatim>\<open>eval\<close> command succeeds; a failing one flips to the fallback.\<close>

definition check ::
  "RateLimiterConfig \<Rightarrow> nat \<Rightarrow> bool \<Rightarrow> string \<Rightarrow> int \<Rightarrow> jsnum \<Rightarrow> Limiter \<Rightarrow> RateLimitResult \<times> Limiter" where
  "check cfg now commandOk key limit burst st =
     (let effectiveLimit = effective_limit limit burst
      in if \<not> redisHealthy st then fallback cfg now key effectiveLimit st
         else if \<not> commandOk then fallback cfg now key effectiveLimit (st\<lparr>redisHealthy := False\<rparr>)
         else let ((ok, rem, reset), r) = redis_check now key effectiveLimit (windowMs cfg) (redisStore st)
              in (\<lparr>rl_allowed = (ok = 1), rl_remaining = max 0 rem,
                   rl_resetAt = (if reset > 0 then reset else (int now + int (windowMs cfg)) div 1000),
                   rl_policy = ''redis-sliding-window''\<rparr>, st\<lparr>redisStore := r\<rparr>))"

definition on_redis_error :: "Limiter \<Rightarrow> Limiter" where
  "on_redis_error st = st\<lparr>redisHealthy := False\<rparr>"

definition on_redis_ready :: "Limiter \<Rightarrow> Limiter" where
  "on_redis_ready st = st\<lparr>redisHealthy := True\<rparr>"

section \<open>The in-memory bound\<close>

text \<open>The requests of one window that are admitted, by the times at which they arrive.\<close>

fun window_run :: "int \<Rightarrow> nat \<Rightarrow> nat list \<Rightarrow> InMemoryWindow \<Rightarrow> nat list" where
  "window_run limit W [] w = []"
| "window_run limit W (now # nows) w =
     (let (r, w') = window_check now limit W w
      in (if allowed r then [now] else []) @ window_run limit W nows w')"

definition in_span :: "nat \<Rightarrow> nat \<Rightarrow> nat list \<Rightarrow> nat list" where
  "in_span T W ts = filter (\<lambda>t. int T - int W < int t \<and> t \<le> T) ts"

lemma in_span_append [simp]: "in_span T W (xs @ ys) = in_span T W xs @ in_span T W ys"
  by (simp add: in_span_def)

text \<open>
  The window after the admissions \<open>adm\<close>: it holds those of them that are still needed, and
  no interval has seen more than the limit.
\<close>

definition window_inv :: "int \<Rightarrow> nat \<Rightarrow> nat list \<Rightarrow> InMemoryWindow \<Rightarrow> nat \<Rightarrow> bool" where
  "window_inv limit W adm w clock \<longleftrightarrow>
     sorted adm \<and> (\<forall>t \<in> set adm. t \<le> clock)
     \<and> (\<exists>old. adm = old @ timestamps w \<and> (\<forall>t \<in> set old. int t \<le> int clock - int W))
     \<and> (\<forall>T. int (length (in_span T W adm)) \<le> limit)"

lemma window_step:
  assumes inv: "window_inv limit W adm w clock" and "clock \<le> now" and "window_check now limit W w = (r, w')"
  shows "window_inv limit W (adm @ (if allowed r then [now] else [])) w' now"
proof -
  let ?P = "\<lambda>t. int t \<le> int now - int W"
  define ts where "ts = dropWhile ?P (timestamps w)"
  define pre where "pre = takeWhile ?P (timestamps w)"
  from inv obtain old where old: "adm = old @ timestamps w" "\<forall>t \<in> set old. int t \<le> int clock - int W"
    and srt: "sorted adm" and le: "\<forall>t \<in> set adm. t \<le> clock" and bound: "\<forall>T. int (length (in_span T W adm)) \<le> limit"
    unfolding window_inv_def by blast
  have adm: "adm = (old @ pre) @ ts" using old(1) by (simp add: pre_def ts_def)
  have small: "\<forall>t \<in> set (old @ pre). ?P t"
    using old(2) assms(2) by (auto simp: pre_def dest: set_takeWhileD)
  have le': "\<forall>t \<in> set adm. t \<le> now" using le assms(2) by auto
  have spans: "int (length (in_span T W (adm @ [now]))) \<le> limit" if "int (length ts) < limit" for T
  proof (cases "T < now")
    case True
    with bound show ?thesis by (auto simp: in_span_def)
  next
    case False
    then have "in_span T W (old @ pre) = []" using small by (force simp: in_span_def filter_empty_conv)
    then have "length (in_span T W (adm @ [now])) \<le> Suc (length ts)"
      by (auto simp: adm in_span_def intro: le_SucI)
    with that show ?thesis by simp
  qed
  consider "allowed r" "int (length ts) < limit" "timestamps w' = ts @ [now]" | "\<not> allowed r" "timestamps w' = ts"
    using assms(3) by (auto simp: window_check_def Let_def ts_def split: if_splits)
  then show ?thesis
  proof cases
    case 1
    have "sorted (adm @ [now])" using srt le' by (simp add: sorted_append)
    moreover have "adm @ [now] = (old @ pre) @ timestamps w'" using adm 1(3) by simp
    ultimately show ?thesis using 1 le' small spans unfolding window_inv_def by force
  next
    case 2
    have "adm = (old @ pre) @ timestamps w'" using adm 2(2) by simp
    with 2 show ?thesis using srt le' small bound unfolding window_inv_def by auto
  qed
qed

lemma window_run_bound:
  "window_inv limit W adm w clock \<Longrightarrow> sorted nows \<Longrightarrow> (\<forall>n \<in> set nows. clock \<le> n) \<Longrightarrow>
     int (length (in_span T W (adm @ window_run limit W nows w))) \<le> limit"
proof (induction nows arbitrary: adm w clock)
  case Nil
  then show ?case by (simp add: window_inv_def)
next
  case (Cons now nows)
  obtain r w' where c: "window_check now limit W w = (r, w')" by (cases "window_check now limit W w")
  have "window_inv limit W (adm @ (if allowed r then [now] else [])) w' now"
    using window_step [OF Cons.prems(1) _ c] Cons.prems(3) by simp
  from Cons.IH [OF this] Cons.prems(2) c show ?case by (simp split: if_splits)
qed

text \<open>The whole fallback: a sequence of calls for any keys, and those that are admitted.\<close>

fun fallback_run :: "int \<Rightarrow> nat \<Rightarrow> (nat \<times> string) list \<Rightarrow> windows \<Rightarrow> (nat \<times> string) list" where
  "fallback_run limit W [] ws = []"
| "fallback_run limit W ((now, key) # calls) ws =
     (let (r, ws') = inMemoryCheck now key limit W ws
      in (if allowed r then [(now, key)] else []) @ fallback_run limit W calls ws')"

definition times_of :: "string \<Rightarrow> (nat \<times> string) list \<Rightarrow> nat list" where
  "times_of k calls = map fst (filter (\<lambda>(_, k'). k' = k) calls)"

lemma times_of_simps [simp]:
  "times_of k [] = []" "times_of k ((n, k') # cs) = (if k' = k then n # times_of k cs else times_of k cs)"
  "times_of k (xs @ ys) = times_of k xs @ times_of k ys"
  by (simp_all add: times_of_def)

definition window_of :: "windows \<Rightarrow> string \<Rightarrow> InMemoryWindow" where
  "window_of ws k = (case dict_get ws k of None \<Rightarrow> \<lparr>timestamps = [], lastAccessedAt = 0\<rparr> | Some w \<Rightarrow> w)"

lemma window_check_access: "window_check now limit W (w\<lparr>lastAccessedAt := n\<rparr>) = window_check now limit W w"
  by (simp add: window_check_def)

lemma window_run_access: "window_run limit W nows (w\<lparr>lastAccessedAt := n\<rparr>) = window_run limit W nows w"
  by (cases nows) (simp_all add: window_check_access)

text \<open>As long as the map is not full, the keys do not disturb each other.\<close>

lemma fallback_run_key:
  assumes "distinct (map fst ws)" "card (set (map fst ws) \<union> set (map snd calls)) < IN_MEMORY_MAX_ENTRIES"
  shows "times_of k (fallback_run limit W calls ws) = window_run limit W (times_of k calls) (window_of ws k)"
  using assms
proof (induction calls arbitrary: ws)
  case (Cons c calls)
  obtain now key where c: "c = (now, key)" by (cases c)
  let ?w = "case dict_get ws key of None \<Rightarrow> \<lparr>timestamps = [], lastAccessedAt = now\<rparr> | Some w \<Rightarrow> w"
  obtain r w' where wc: "window_check now limit W ?w = (r, w')" by (cases "window_check now limit W ?w")
  have "card (set (map fst ws)) \<le> card (set (map fst ws) \<union> set (map snd (c # calls)))" by (rule card_mono) auto
  then have "length ws < IN_MEMORY_MAX_ENTRIES"
    using Cons.prems distinct_card [of "map fst ws"] by simp
  then have imc: "inMemoryCheck now key limit W ws = (r, map_set ws key w')"
    using wc by (simp add: inMemoryCheck_def Let_def)
  have "set (map fst (map_set ws key w')) \<union> set (map snd calls) = set (map fst ws) \<union> set (map snd (c # calls))"
    using c by auto
  then have IH: "times_of k (fallback_run limit W calls (map_set ws key w'))
      = window_run limit W (times_of k calls) (window_of (map_set ws key w') k)"
    using Cons.prems by (intro Cons.IH) auto
  have "window_check now limit W (window_of ws key) = (r, w')"
    using wc by (simp add: window_of_def window_check_def split: option.splits)
  with IH imc c show ?case by (cases "key = k") (simp_all add: window_of_def)
qed simp

lemma fallback_span:
  assumes "sorted (map fst calls)" "card (set (map snd calls)) < IN_MEMORY_MAX_ENTRIES" "0 \<le> limit"
  shows "int (length (in_span T W (times_of k (fallback_run limit W calls [])))) \<le> limit"
proof -
  have "sorted (times_of k calls)"
    using assms(1) by (induction calls) (auto simp: times_of_def)
  moreover have "window_inv limit W [] (window_of [] k) 0"
    using assms(3) by (simp add: window_inv_def window_of_def in_span_def)
  ultimately have "int (length (in_span T W (window_run limit W (times_of k calls) (window_of [] k)))) \<le> limit"
    using window_run_bound [of limit W "[]" "window_of [] k" 0 "times_of k calls" T] by simp
  then show ?thesis
    using fallback_run_key [of "[]" calls k limit W] assms(2) by simp
qed

section \<open>The bound on Redis\<close>

lemma window_start_bounds:
  assumes "0 < W"
  shows "window_start W n \<le> int n" "int n < window_start W n + int W" "window_start W n mod int W = 0"
proof -
  have "int n = window_start W n + int n mod int W" by (simp add: window_start_def)
  with assms show "window_start W n \<le> int n" "int n < window_start W n + int W"
    using pos_mod_bound [of "int W" "int n"] pos_mod_sign [of "int W" "int n"] by linarith+
qed (simp add: window_start_def)

text \<open>
  The script is called with the start of the window where it computes the elapsed part of
  the window, so the elapsed part is always zero and the previous window counts in full.
\<close>

lemma redis_check_plain:
  assumes "0 < W"
  shows "redis_check now key limit W r =
    (let s = window_start W now; current = redis_get now r (key, s); previous = redis_get now r (key, s - int W)
     in if int previous + int current \<ge> limit then ((0, int previous + int current, - 1), r)
        else ((1, limit - (int previous + int current) - 1, (s + int W) div 1000),
              map_set r (key, s) \<lparr>cn_value = Suc current, cn_expiresAt = now + 2 * W\<rparr>))"
proof -
  have eff: "rat_of_nat p * (1 - rat_of_int (window_start W now mod int W) / rat_of_nat W) + rat_of_nat c
      = rat_of_int (int p + int c)" for p c
    using window_start_bounds(3) [OF assms] by simp
  show ?thesis
    unfolding redis_check_def SLIDING_WINDOW_LUA_def Let_def eff of_int_le_iff floor_of_int by simp
qed

text \<open>A client that used its whole limit in one window is rejected throughout the next one.\<close>

lemma previous_window_blocks:
  assumes "0 < W" "int (redis_get now r (key, window_start W now - int W)) \<ge> limit"
  shows "fst (fst (redis_check now key limit W r)) = 0"
  using assms by (simp add: redis_check_plain Let_def)

fun redis_run :: "int \<Rightarrow> nat \<Rightarrow> (nat \<times> string) list \<Rightarrow> redis \<Rightarrow> (nat \<times> string) list" where
  "redis_run limit W [] r = []"
| "redis_run limit W ((now, key) # calls) r =
     (let ((ok, _, _), r') = redis_check now key limit W r
      in (if ok = 1 then [(now, key)] else []) @ redis_run limit W calls r')"

text \<open>How many requests of a key are admitted in the window that starts at \<open>s\<close>.\<close>

definition admitted :: "nat \<Rightarrow> string \<Rightarrow> int \<Rightarrow> (nat \<times> string) list \<Rightarrow> nat" where
  "admitted W k s adm = length (filter (\<lambda>n. window_start W n = s) (times_of k adm))"

lemma admitted_snoc:
  "admitted W k s (adm @ [(now, key)]) = admitted W k s adm + (if k = key \<and> window_start W now = s then 1 else 0)"
  by (auto simp: admitted_def)

definition redis_inv :: "int \<Rightarrow> nat \<Rightarrow> (nat \<times> string) list \<Rightarrow> redis \<Rightarrow> nat \<Rightarrow> bool" where
  "redis_inv limit W adm r clock \<longleftrightarrow>
     (\<forall>(n, k) \<in> set adm. n \<le> clock)
     \<and> (\<forall>k s. case dict_get r (k, s) of
              None \<Rightarrow> admitted W k s adm = 0
            | Some c \<Rightarrow> cn_value c = admitted W k s adm \<and> s + 2 * int W \<le> int (cn_expiresAt c))
     \<and> (\<forall>k s. int (admitted W k s adm) + int (admitted W k (s + int W) adm) \<le> limit)"

lemma redis_inv_get:
  assumes "redis_inv limit W adm r clock" "int now < s + 2 * int W"
  shows "redis_get now r (k, s) = admitted W k s adm"
proof -
  from assms(1) have "case dict_get r (k, s) of
      None \<Rightarrow> admitted W k s adm = 0
    | Some c \<Rightarrow> cn_value c = admitted W k s adm \<and> s + 2 * int W \<le> int (cn_expiresAt c)"
    unfolding redis_inv_def by blast
  with assms(2) show ?thesis by (auto simp: redis_get_def split: option.splits)
qed

lemma redis_inv_future:
  assumes "redis_inv limit W adm r clock" "clock \<le> now" "0 < W"
  shows "admitted W k (window_start W now + int W) adm = 0"
proof -
  have "window_start W n \<noteq> window_start W now + int W" if "n \<le> now" for n
    using that window_start_bounds(1) [OF assms(3), of n] window_start_bounds(2) [OF assms(3), of now] by linarith
  then show ?thesis
    using assms(1,2) unfolding redis_inv_def admitted_def times_of_def by (auto simp: filter_empty_conv)
qed

lemma redis_step:
  assumes inv: "redis_inv limit W adm r clock" and "clock \<le> now" "0 < W"
    and call: "redis_check now key limit W r = ((ok, x, y), r')"
  shows "redis_inv limit W (adm @ (if ok = 1 then [(now, key)] else [])) r' now"
proof -
  let ?s = "window_start W now"
  note ws = window_start_bounds [OF assms(3), of now]
  have cur: "redis_get now r (key, ?s) = admitted W key ?s adm"
    and prev: "redis_get now r (key, ?s - int W) = admitted W key (?s - int W) adm"
    using ws by (auto intro!: redis_inv_get [OF inv])
  from inv have le: "\<forall>(n, k) \<in> set adm. n \<le> now"
    and vals: "\<And>k s. case dict_get r (k, s) of None \<Rightarrow> admitted W k s adm = 0
        | Some c \<Rightarrow> cn_value c = admitted W k s adm \<and> s + 2 * int W \<le> int (cn_expiresAt c)"
    and sums: "\<And>k s. int (admitted W k s adm) + int (admitted W k (s + int W) adm) \<le> limit"
    using assms(2) unfolding redis_inv_def by fastforce+
  show ?thesis
  proof (cases "int (admitted W key (?s - int W) adm) + int (admitted W key ?s adm) \<ge> limit")
    case True
    with call have "ok = 0" "r' = r" by (auto simp: redis_check_plain [OF assms(3)] Let_def cur prev)
    then have same: "adm @ (if ok = 1 then [(now, key)] else []) = adm" by simp
    show ?thesis unfolding redis_inv_def same \<open>r' = r\<close> using le vals sums by blast
  next
    case False
    with call have ok: "ok = 1"
      and r': "r' = map_set r (key, ?s) \<lparr>cn_value = Suc (admitted W key ?s adm), cn_expiresAt = now + 2 * W\<rparr>"
      by (auto simp: redis_check_plain [OF assms(3)] Let_def cur prev)
    let ?adm = "adm @ [(now, key)]"
    have "int (admitted W k s ?adm) + int (admitted W k (s + int W) ?adm) \<le> limit" for k s
    proof -
      consider "k = key" "s = ?s" | "k = key" "s = ?s - int W" | "k \<noteq> key \<or> (?s \<noteq> s \<and> ?s \<noteq> s + int W)" by fastforce
      then show ?thesis
      proof cases
        case 1
        with False redis_inv_future [OF inv assms(2,3), of key] assms(3) show ?thesis by (simp add: admitted_snoc)
      next
        case 2
        with False assms(3) show ?thesis by (simp add: admitted_snoc)
      next
        case 3
        then have "admitted W k s ?adm = admitted W k s adm" "admitted W k (s + int W) ?adm = admitted W k (s + int W) adm"
          by (auto simp: admitted_snoc)
        with sums [of k s] show ?thesis by simp
      qed
    qed
    moreover have "case dict_get r' (k, s) of None \<Rightarrow> admitted W k s ?adm = 0
        | Some c \<Rightarrow> cn_value c = admitted W k s ?adm \<and> s + 2 * int W \<le> int (cn_expiresAt c)" for k s
      using vals [of k s] ws(1) by (auto simp: r' admitted_snoc split: option.splits)
    ultimately show ?thesis using le ok unfolding redis_inv_def by auto
  qed
qed

lemma redis_run_inv:
  "redis_inv limit W adm r clock \<Longrightarrow> sorted (map fst calls) \<Longrightarrow> (\<forall>(n, k) \<in> set calls. clock \<le> n) \<Longrightarrow> 0 < W \<Longrightarrow>
     \<exists>r' clock'. redis_inv limit W (adm @ redis_run limit W calls r) r' clock'"
proof (induction calls arbitrary: adm r clock)
  case (Cons c calls)
  obtain now key where c: "c = (now, key)" by (cases c)
  obtain ok x y r' where call: "redis_check now key limit W r = ((ok, x, y), r')" by (metis prod.exhaust)
  have "redis_inv limit W (adm @ (if ok = 1 then [(now, key)] else [])) r' now"
    using redis_step [OF Cons.prems(1) _ Cons.prems(4) call] Cons.prems(3) c by auto
  from Cons.IH [OF this] Cons.prems c call show ?case by (fastforce split: if_splits)
qed auto

lemma span_windows:
  assumes "0 < W"
  shows "length (filter (\<lambda>t. int T - int W < int t \<and> t \<le> T) ts) \<le>
    length (filter (\<lambda>t. window_start W t = window_start W T - int W) ts) + length (filter (\<lambda>t. window_start W t = window_start W T) ts)"
proof (induction ts)
  case (Cons t ts)
  have "window_start W t = window_start W T - int W \<or> window_start W t = window_start W T"
    if t: "int T - int W < int t" "t \<le> T"
  proof -
    have "int t div int W \<le> int T div int W" using t(2) assms by (simp add: zdiv_mono1)
    moreover have "(int T - int W) div int W = int T div int W - 1"
      using div_add_self2 [of "int W" "int T - int W"] assms by simp
    then have "int T div int W - 1 \<le> int t div int W" using t(1) assms zdiv_mono1 [of "int T - int W" "int t" "int W"] by simp
    ultimately have "int t div int W = int T div int W - 1 \<or> int t div int W = int T div int W" by linarith
    then show ?thesis by (auto simp: window_start_def left_diff_distrib)
  qed
  with Cons show ?case by auto
qed simp

lemma redis_span:
  assumes "sorted (map fst calls)" "0 < W" "0 \<le> limit"
  shows "int (length (in_span T W (times_of k (redis_run limit W calls [])))) \<le> limit"
proof -
  have "redis_inv limit W [] [] 0" using assms(3) by (simp add: redis_inv_def admitted_def)
  from redis_run_inv [OF this assms(1) _ assms(2)] obtain r clock where
    "redis_inv limit W (redis_run limit W calls []) r clock" by auto
  then have "int (admitted W k (window_start W T - int W) (redis_run limit W calls []))
      + int (admitted W k (window_start W T) (redis_run limit W calls [])) \<le> limit"
    unfolding redis_inv_def by (metis diff_add_cancel)
  with span_windows [OF assms(2), of T "times_of k (redis_run limit W calls [])"] show ?thesis
    unfolding admitted_def in_span_def by linarith
qed

section \<open>What both promise\<close>

text \<open>
  A limiter: a run gives the admitted calls, and an interval of one window never sees more
  of a key than the limit.  A longer interval then sees at most the limit per window.
\<close>

locale window_limiter =
  fixes run :: "int \<Rightarrow> nat \<Rightarrow> (nat \<times> string) list \<Rightarrow> (nat \<times> string) list"
    and admissible :: "(nat \<times> string) list \<Rightarrow> bool"
  assumes span: "sorted (map fst calls) \<Longrightarrow> admissible calls \<Longrightarrow> 0 < W \<Longrightarrow> 0 \<le> limit \<Longrightarrow>
      int (length (in_span T W (times_of k (run limit W calls)))) \<le> limit"
begin

lemma span_split:
  "length (in_span T (Suc m * W) ts) \<le> length (in_span T W ts) + (if T < W then 0 else length (in_span (T - W) (m * W) ts))"
  by (induction ts) (auto simp: in_span_def of_nat_diff)

lemma spans:
  assumes "sorted (map fst calls)" "admissible calls" "0 < W" "0 \<le> limit"
  shows "int (length (in_span T (m * W) (times_of k (run limit W calls)))) \<le> int m * limit"
proof (induction m arbitrary: T)
  case 0
  then show ?case by (simp add: in_span_def)
next
  case (Suc m)
  let ?ts = "times_of k (run limit W calls)"
  have "int (length (in_span T W ?ts)) \<le> limit" using span assms by blast
  moreover have "0 \<le> int m * limit" using assms(4) by simp
  ultimately show ?case
    using span_split [of T m W ?ts] Suc [of "T - W"] by (simp add: distrib_right split: if_splits)
qed

end

interpretation redis_limiter: window_limiter "\<lambda>limit W calls. redis_run limit W calls []" "\<lambda>_. True"
  by unfold_locales (rule redis_span)

interpretation memory_limiter: window_limiter "\<lambda>limit W calls. fallback_run limit W calls []"
  "\<lambda>calls. card (set (map snd calls)) < IN_MEMORY_MAX_ENTRIES"
  by unfold_locales (rule fallback_span)

text \<open>
  Property C31: the limit holds on Redis.  Over any sequence of calls from any number of
  gateway instances, an interval of \<open>m\<close> windows, aligned or not, sees at most \<open>m\<close> times the limit
  of admitted requests of a key, despite the expiry of counters.
\<close>

theorem redis_window_bound:
  assumes "sorted (map fst calls)" "0 < W" "0 \<le> limit"
  shows "int (length (filter (\<lambda>t. int T - int (m * W) < int t \<and> t \<le> T) (times_of k (redis_run limit W calls []))))
    \<le> int m * limit"
  using redis_limiter.spans [OF assms(1) _ assms(2,3)] by (simp add: in_span_def)

theorem redis_window_bound_witness:
  "length (times_of ''a'' (redis_run 2 100 [(10, ''a''), (50, ''a''), (95, ''a''), (105, ''a'')] [])) = 2
   \<and> length (filter (\<lambda>t. int 105 - int 100 < int t \<and> t \<le> 105)
        (times_of ''a'' (redis_run 2 100 [(10, ''a''), (50, ''a''), (95, ''a''), (105, ''a'')] []))) \<le> 2"
proof -
  have "length (times_of ''a'' (redis_run 2 100 [(10, ''a''), (50, ''a''), (95, ''a''), (105, ''a'')] [])) = 2"
    by (simp add: redis_check_plain window_start_def redis_get_def Let_def)
  then show ?thesis
    using redis_window_bound [of "[(10, ''a''), (50, ''a''), (95, ''a''), (105, ''a'')]" 100 2 105 1 "''a''"] by simp
qed

text \<open>
  The fallback keeps its instance limit.  As long as fewer keys are in use than
  the map can hold, an interval of \<open>m\<close> windows sees at most \<open>m\<close> times the instance limit of
  admitted requests of a key, however the calls for different keys interleave.
\<close>

theorem fallback_window_bound:
  assumes "sorted (map fst calls)" "card (set (map snd calls)) < 10000" "0 < W" "0 \<le> limit"
  shows "int (length (filter (\<lambda>t. int T - int (m * W) < int t \<and> t \<le> T) (times_of k (fallback_run limit W calls []))))
    \<le> int m * limit"
  using memory_limiter.spans [OF assms(1) _ assms(3,4)] assms(2) by (simp add: in_span_def IN_MEMORY_MAX_ENTRIES_def)

theorem fallback_window_bound_witness:
  "length (times_of ''a'' (fallback_run 2 100 [(1, ''a''), (5, ''b''), (7, ''a''), (9, ''a'')] [])) \<le> 2"
  using fallback_window_bound [of "[(1, ''a''), (5, ''b''), (7, ''a''), (9, ''a'')]" 100 2 9 1 "''a''"]
  by (simp add: inMemoryCheck_def window_check_def Let_def IN_MEMORY_MAX_ENTRIES_def card_insert_if)

text \<open>
  When the map is full, the least recently used window is dropped: its key starts again with
  an empty window.
\<close>

lemma evicted_key_restarts:
  assumes "length ws1 = IN_MEMORY_MAX_ENTRIES" "oldest_entry ws1 None = Some (k, t)"
    and "\<forall>(k, w) \<in> set ws1. int now - int (lastAccessedAt w) \<le> int IN_MEMORY_TTL_MS"
  shows "dict_get (evictStaleInMemoryEntries now ws1) k = None"
proof -
  have "filter (\<lambda>(_, w). \<not> int now - int (lastAccessedAt w) > int IN_MEMORY_TTL_MS) ws1 = ws1"
    using assms(3) by (auto simp: filter_id_conv)
  with assms(1,2) show ?thesis
    by (auto simp: evictStaleInMemoryEntries_def Let_def map_delete_def map_of_eq_None_iff)
qed

end
