(* ===== verification/IpAllowlist.thy ===== *)
theory IpAllowlist
  imports JsValue "HOL-Library.Word"
begin

text \<open>
  The IP allow list of \<^verbatim>\<open>packages/core/src/middleware/ip-allowlist.ts\<close>.  JavaScript's bitwise operators work on
  32-bit integers, so addresses and masks are 32-bit words; \<^verbatim>\<open>>>> 0\<close> reads them as unsigned.
\<close>

unbundle bit_operations_syntax

section \<open>The client address\<close>

definition stripPortSuffix :: "string \<Rightarrow> string" where
  "stripPortSuffix ip =
     (if starts_with ip ''['' \<and> CHR '']'' \<in> set ip then tl (takeWhile (\<lambda>c. c \<noteq> CHR '']'') ip)
      else if length (split_char (CHR '':'') ip) - 1 = 1 then takeWhile (\<lambda>c. c \<noteq> CHR '':'') ip
      else ip)"

text \<open>The argument is the \<^verbatim>\<open>X-Real-IP\<close> header.\<close>

definition parseIpFromRequest :: "string option \<Rightarrow> string" where
  "parseIpFromRequest realIp =
     (case realIp of None \<Rightarrow> [] | Some h \<Rightarrow> if h \<noteq> [] then stripPortSuffix (js_trim h) else [])"

section \<open>Parsing\<close>

definition is_hex :: "char \<Rightarrow> bool" where
  "is_hex c \<longleftrightarrow> (case radix_val c of Some n \<Rightarrow> n < 16 | None \<Rightarrow> False)"

definition hex_group :: "string \<Rightarrow> bool" where
  "hex_group s \<longleftrightarrow> 1 \<le> length s \<and> length s \<le> 4 \<and> list_all is_hex s"

text \<open>\<^verbatim>\<open>parseInt(s, 16)\<close> of hexadecimal digits.\<close>

definition hex_num :: "string \<Rightarrow> 32 word" where
  "hex_num s = foldl (\<lambda>n c. 16 * n + of_nat (the (radix_val c))) 0 s"

text \<open>What follows a case-insensitive \<^verbatim>\<open>::ffff:\<close>.\<close>

definition after_mapped :: "string \<Rightarrow> string option" where
  "after_mapped ip = (if map ascii_lower (take 7 ip) = ''::ffff:'' then Some (drop 7 ip) else None)"

definition quad_text :: "string \<Rightarrow> bool" where
  "quad_text s \<longleftrightarrow>
     (let parts = split_char (CHR ''.'') s
      in length parts = 4 \<and> list_all (\<lambda>p. 1 \<le> length p \<and> length p \<le> 3 \<and> list_all is_digit p) parts)"

definition normaliseIp :: "string \<Rightarrow> string" where
  "normaliseIp ip =
     (case after_mapped ip of
        None \<Rightarrow> ip
      | Some rest \<Rightarrow>
          if quad_text rest then rest
          else (case split_char (CHR '':'') rest of
                  [a, b] \<Rightarrow>
                    if hex_group a \<and> hex_group b
                    then let hi = hex_num a; lo = hex_num b
                         in join_with ''.'' (map (\<lambda>w. nat_digits (unat w))
                              [drop_bit 8 hi AND 0xff, hi AND 0xff, drop_bit 8 lo AND 0xff, lo AND 0xff])
                    else ip
                | _ \<Rightarrow> ip))"

text \<open>
  \<^verbatim>\<open>parseInt(s, 10)\<close> under the test \<^verbatim>\<open>String(n) === s\<close>: a canonical decimal numeral, or the text \<^verbatim>\<open>NaN\<close>,
  for which \<^verbatim>\<open>parseInt\<close> gives not-a-number.  A negative numeral fails the range tests of the callers.
\<close>

datatype IntText = NotInt | NanText | IntText nat

definition canonical_int :: "string \<Rightarrow> IntText" where
  "canonical_int s =
     (if s = ''NaN'' then NanText
      else if s \<noteq> [] \<and> list_all is_digit s \<and> nat_digits (digits_val s) = s then IntText (digits_val s)
      else NotInt)"

text \<open>One round of the loop; not-a-number passes both range tests and \<^verbatim>\<open>NaN >>> 0\<close> is 0.\<close>

definition parse_octet :: "32 word \<Rightarrow> string \<Rightarrow> 32 word option" where
  "parse_octet res part =
     (case canonical_int part of
        NotInt \<Rightarrow> None
      | NanText \<Rightarrow> Some 0
      | IntText n \<Rightarrow> if n > 255 then None else Some (res * 256 + of_nat n))"

fun parse_octets :: "32 word \<Rightarrow> string list \<Rightarrow> 32 word option" where
  "parse_octets res [] = Some res"
| "parse_octets res (p # ps) = Option.bind (parse_octet res p) (\<lambda>r. parse_octets r ps)"

definition parseIpv4 :: "string \<Rightarrow> 32 word option" where
  "parseIpv4 ip =
     (let parts = split_char (CHR ''.'') ip in if length parts \<noteq> 4 then None else parse_octets 0 parts)"

text \<open>\<^verbatim>\<open>s.split("::")\<close>.\<close>

fun split_colons :: "string \<Rightarrow> string list" where
  "split_colons (a # b # cs) =
     (if a = CHR '':'' \<and> b = CHR '':'' then [] # split_colons cs
      else case split_colons (b # cs) of [] \<Rightarrow> [[a]] | w # ws \<Rightarrow> (a # w) # ws)"
| "split_colons s = [s]"

fun parse_group_list :: "string list \<Rightarrow> 32 word list option" where
  "parse_group_list [] = Some []"
| "parse_group_list (p # ps) = (if hex_group p then map_option (Cons (hex_num p)) (parse_group_list ps) else None)"

definition parseGroups :: "string \<Rightarrow> 32 word list option" where
  "parseGroups s = (if s = [] then Some [] else parse_group_list (split_char (CHR '':'') s))"

definition expandIpv6 :: "string \<Rightarrow> 32 word list option" where
  "expandIpv6 ip =
     (if str_includes (map ascii_lower ip) ''::ffff:'' \<and> normaliseIp ip \<noteq> ip then None
      else case split_colons ip of
             [h] \<Rightarrow> (case parseGroups h of Some gs \<Rightarrow> if length gs = 8 then Some gs else None | None \<Rightarrow> None)
           | [l, r] \<Rightarrow>
               (case (parseGroups l, parseGroups r) of
                  (Some left, Some right) \<Rightarrow>
                    if length left + length right > 8 then None
                    else Some (left @ replicate (8 - length left - length right) 0 @ right)
                | _ \<Rightarrow> None)
           | _ \<Rightarrow> None)"

section \<open>Matching\<close>

definition v4_match :: "32 word \<Rightarrow> 32 word \<Rightarrow> string option \<Rightarrow> bool" where
  "v4_match ipv4 cidrIpv4 prefixLenStr =
     (case prefixLenStr of
        None \<Rightarrow> ipv4 = cidrIpv4
      | Some s \<Rightarrow>
          (case canonical_int s of
             NotInt \<Rightarrow> False
           | NanText \<Rightarrow> ipv4 = cidrIpv4
           | IntText prefixLen \<Rightarrow>
               if prefixLen > 32 then False
               else if prefixLen = 0 then True
               else let mask = push_bit (32 - prefixLen) 0xffffffff
                    in ipv4 AND mask = cidrIpv4 AND mask))"

text \<open>The comparison loop of the IPv6 path.\<close>

fun v6_compare :: "nat \<Rightarrow> 32 word list \<Rightarrow> 32 word list \<Rightarrow> bool" where
  "v6_compare bitsLeft (g # gs) (h # hs) =
     (if bitsLeft = 0 then True
      else let bits = min bitsLeft 16; mask = push_bit (16 - bits) 0xffff AND 0xffff
           in if g AND mask \<noteq> h AND mask then False else v6_compare (bitsLeft - 16) gs hs)"
| "v6_compare _ _ _ = True"

definition v6_match :: "32 word list \<Rightarrow> 32 word list \<Rightarrow> string option \<Rightarrow> bool" where
  "v6_match ipv6 cidrIpv6 prefixLenStr =
     (case prefixLenStr of
        None \<Rightarrow> ipv6 = cidrIpv6
      | Some s \<Rightarrow>
          (case canonical_int s of
             NotInt \<Rightarrow> False
           | NanText \<Rightarrow> ipv6 = cidrIpv6
           | IntText prefixLen \<Rightarrow> if prefixLen > 128 then False else v6_compare prefixLen ipv6 cidrIpv6))"

text \<open>The address and the prefix length, split at the last slash.\<close>

definition split_cidr :: "string \<Rightarrow> string \<times> string option" where
  "split_cidr cidr =
     (if CHR ''/'' \<notin> set cidr then (cidr, None)
      else let suf = rev (takeWhile (\<lambda>c. c \<noteq> CHR ''/'') (rev cidr))
           in (take (length cidr - length suf - 1) cidr, Some suf))"

definition isIpInCidr :: "string \<Rightarrow> string \<Rightarrow> bool" where
  "isIpInCidr ip cidr =
     (let normIp = normaliseIp ip; (cidrAddress, prefixLenStr) = split_cidr cidr; normCidr = normaliseIp cidrAddress
      in case (parseIpv4 normIp, parseIpv4 normCidr) of
           (Some a, Some c) \<Rightarrow> v4_match a c prefixLenStr
         | _ \<Rightarrow>
             (case (expandIpv6 normIp, expandIpv6 normCidr) of
                (Some a, Some c) \<Rightarrow> v6_match a c prefixLenStr
              | _ \<Rightarrow> False))"

definition isIpInAllowlist :: "string \<Rightarrow> string list \<Rightarrow> bool" where
  "isIpInAllowlist ip allowlist =
     (let normIp = normaliseIp ip in list_ex (\<lambda>entry. isIpInCidr normIp (js_trim entry)) allowlist)"

datatype MiddlewareResult = NextHandler | Forbidden string

definition createIpAllowlistMiddleware :: "string list \<Rightarrow> string option \<Rightarrow> string option \<Rightarrow> MiddlewareResult" where
  "createIpAllowlistMiddleware allowlist ctxt realIp =
     (if allowlist = [] then NextHandler
      else let clientIp = parseIpFromRequest realIp
           in if clientIp = [] then Forbidden ''Access denied: client IP address could not be determined.''
              else if \<not> isIpInAllowlist clientIp allowlist
              then Forbidden (''Access denied: IP is not in the '' @ (case ctxt of None \<Rightarrow> ''IP'' | Some c \<Rightarrow> c) @ '' allowlist.'')
              else NextHandler)"

section \<open>Numerals\<close>

declare digit_char_props [simp] nat_digits_props [simp]

lemma canonical_nat_digits [simp]: "canonical_int (nat_digits n) = IntText n"
proof -
  have "\<not> list_all is_digit ''NaN''" by (simp add: is_digit_def)
  then have "nat_digits n \<noteq> ''NaN''" using nat_digits_props(1) [of n] by metis
  then show ?thesis by (simp add: canonical_int_def)
qed

lemma digits_no_char: "list_all is_digit s \<Longrightarrow> \<not> is_digit c \<Longrightarrow> c \<notin> set s"
  by (auto simp: list_all_iff)

lemma nat_digits_no_char [simp]: "\<not> is_digit c \<Longrightarrow> c \<notin> set (nat_digits n)"
  by (rule digits_no_char) simp_all

lemma not_digits [simp]: "\<not> is_digit (CHR ''.'')" "\<not> is_digit (CHR ''/'')" "\<not> is_digit (CHR '':'')"
  by (simp_all add: is_digit_def)

lemma split_char_none: "c \<notin> set s \<Longrightarrow> split_char c s = [s]"
  by (induction s) auto

lemma split_char_append: "c \<notin> set s \<Longrightarrow> split_char c (s @ c # t) = s # split_char c t"
  by (induction s) auto

lemma split_join: "ws \<noteq> [] \<Longrightarrow> \<forall>w \<in> set ws. c \<notin> set w \<Longrightarrow> split_char c (join_with [c] ws) = ws"
proof (induction ws rule: induct_list012)
  case (3 x y zs)
  then show ?case by (simp add: split_char_append)
qed (simp_all add: split_char_none)

section \<open>Dotted quads\<close>

text \<open>The text of an address.\<close>

definition octets :: "32 word \<Rightarrow> nat list" where
  "octets w = [unat w div 2 ^ 24, unat w div 2 ^ 16 mod 256, unat w div 2 ^ 8 mod 256, unat w mod 256]"

definition quad :: "32 word \<Rightarrow> string" where
  "quad w = join_with ''.'' (map nat_digits (octets w))"

lemma octets_le: "n \<in> set (octets w) \<Longrightarrow> n \<le> 255"
proof -
  have "unat w < 2 ^ 32" using unsigned_less [of w] by simp
  then have "unat w div 2 ^ 24 \<le> 255" by simp
  then show "n \<in> set (octets w) \<Longrightarrow> n \<le> 255" by (auto simp: octets_def)
qed

lemma octets_value: "((unat w div 2 ^ 24 * 256 + unat w div 2 ^ 16 mod 256) * 256 + unat w div 2 ^ 8 mod 256) * 256 + unat w mod 256 = unat w"
  for w :: "32 word"
proof -
  have "n div 2 ^ 24 * 256 + n div 2 ^ 16 mod 256 = n div 2 ^ 16" "n div 2 ^ 16 * 256 + n div 2 ^ 8 mod 256 = n div 2 ^ 8"
    "n div 2 ^ 8 * 256 + n mod 256 = n" for n :: nat
    using div_mult_mod_eq [of "n div 2 ^ 16" 256] div_mult_mod_eq [of "n div 2 ^ 8" 256] div_mult_mod_eq [of n 256]
    by (simp_all add: div_mult2_eq [symmetric])
  then show ?thesis by simp
qed

lemma split_quad [simp]: "split_char (CHR ''.'') (quad w) = map nat_digits (octets w)"
  unfolding quad_def
  by (rule split_join) (auto simp: octets_def)

lemma parse_quad [simp]: "parseIpv4 (quad w) = Some w"
proof -
  have le: "unat w div 2 ^ 24 \<le> 255" using octets_le [of _ w] by (simp add: octets_def)
  have "x mod 256 \<le> 255" for x :: nat by (simp flip: less_Suc_eq_le)
  with le have "parse_octets 0 (map nat_digits (octets w)) = Some
      (((of_nat (unat w div 2 ^ 24) * 256 + of_nat (unat w div 2 ^ 16 mod 256)) * 256 + of_nat (unat w div 2 ^ 8 mod 256)) * 256
        + of_nat (unat w mod 256))"
    by (simp add: octets_def parse_octet_def not_less)
  also have "\<dots> = Some (of_nat (((unat w div 2 ^ 24 * 256 + unat w div 2 ^ 16 mod 256) * 256 + unat w div 2 ^ 8 mod 256) * 256
        + unat w mod 256))"
    by (simp only: of_nat_add of_nat_mult of_nat_numeral)
  also have "\<dots> = Some w" unfolding octets_value by simp
  finally show ?thesis by (simp add: parseIpv4_def Let_def octets_def)
qed

lemma nat_digits_short: "n \<le> 255 \<Longrightarrow> length (nat_digits n) \<le> 3"
  by (subst nat_digits.simps, subst nat_digits.simps, subst nat_digits.simps) auto

lemma quad_text_quad: "quad_text (quad w)"
  using octets_le [of _ w] nat_digits_short
  by (auto simp: quad_text_def Let_def octets_def Suc_le_eq)

lemma after_mapped_quad: "after_mapped (quad w) = None"
proof -
  obtain c cs where c: "nat_digits (unat w div 2 ^ 24) = c # cs"
    using nat_digits_props(2) [of "unat w div 2 ^ 24"] by (cases "nat_digits (unat w div 2 ^ 24)") auto
  have dig: "is_digit c" using nat_digits_props(1) [of "unat w div 2 ^ 24"] unfolding c by simp
  then have "ascii_lower c = c" "c \<noteq> CHR '':''" by (auto simp: ascii_lower_def is_digit_def Let_def)
  moreover obtain rest where "quad w = c # rest" using c by (simp add: quad_def octets_def)
  ultimately show ?thesis by (simp add: after_mapped_def)
qed

lemma normalise_quad [simp]: "normaliseIp (quad w) = quad w" "normaliseIp (''::ffff:'' @ quad w) = quad w"
  by (simp_all add: normaliseIp_def after_mapped_quad quad_text_quad) (simp add: after_mapped_def ascii_lower_def quad_text_quad)

lemma slash_not_in_quad: "CHR ''/'' \<notin> set (quad w)"
  by (simp add: quad_def octets_def)

lemma split_cidr_quad [simp]:
  "split_cidr (quad w) = (quad w, None)" "split_cidr (quad w @ ''/'' @ nat_digits n) = (quad w, Some (nat_digits n))"
proof -
  have "takeWhile (\<lambda>c. c \<noteq> CHR ''/'') (rev (nat_digits n) @ CHR ''/'' # rev (quad w)) = rev (nat_digits n)"
    by (subst takeWhile_append2) auto
  then show "split_cidr (quad w @ ''/'' @ nat_digits n) = (quad w, Some (nat_digits n))"
    by (simp add: split_cidr_def)
qed (simp add: split_cidr_def slash_not_in_quad)

lemmas quad_forms = normalise_quad(2) [simplified] split_cidr_quad(2) [simplified]

section \<open>Prefixes\<close>

lemma mask_eq_iff:
  fixes a b :: "32 word"
  shows "a AND push_bit k 0xffffffff = b AND push_bit k 0xffffffff \<longleftrightarrow> drop_bit k a = drop_bit k b"
proof -
  have ones: "(0xffffffff :: 32 word) = - 1" by simp
  show ?thesis
  proof
    assume eq: "a AND push_bit k 0xffffffff = b AND push_bit k 0xffffffff"
    show "drop_bit k a = drop_bit k b"
    proof (rule bit_eqI)
      fix n
      from eq have "bit (a AND push_bit k 0xffffffff) (k + n) = bit (b AND push_bit k 0xffffffff) (k + n)" by simp
      then show "bit (drop_bit k a) n = bit (drop_bit k b) n"
        unfolding ones by (cases "k + n < 32") (auto simp: bit_simps dest: bit_imp_le_length)
    qed
  next
    assume eq: "drop_bit k a = drop_bit k b"
    show "a AND push_bit k 0xffffffff = b AND push_bit k 0xffffffff"
    proof (rule bit_eqI)
      fix n
      from eq have "bit (drop_bit k a) (n - k) = bit (drop_bit k b) (n - k)" by simp
      then show "bit (a AND push_bit k 0xffffffff) n = bit (b AND push_bit k 0xffffffff) n"
        unfolding ones by (auto simp: bit_simps)
    qed
  qed
qed

text \<open>
  A CIDR entry matches exactly its block.  For two dotted-quad addresses and a
  prefix length, the first is in the range of the second if and only if their first
  prefix-length bits agree; length 0 matches everything, a length above 32 nothing.
\<close>

theorem isIpInCidr_prefix:
  "isIpInCidr (quad a) (quad c @ ''/'' @ nat_digits n) \<longleftrightarrow> n \<le> 32 \<and> drop_bit (32 - n) a = drop_bit (32 - n) c"
proof -
  have zero: "drop_bit 32 w = 0" for w :: "32 word"
    by (rule bit_eqI) (auto simp: bit_simps dest: bit_imp_le_length)
  have "isIpInCidr (quad a) (quad c @ ''/'' @ nat_digits n) = v4_match a c (Some (nat_digits n))"
    by (simp add: isIpInCidr_def Let_def quad_forms)
  also have "\<dots> \<longleftrightarrow> n \<le> 32 \<and> drop_bit (32 - n) a = drop_bit (32 - n) c"
    unfolding v4_match_def by (cases "n = 0") (auto simp: mask_eq_iff zero Let_def)
  finally show ?thesis .
qed

text \<open>
  An IPv4-mapped IPv6 client address is treated as the IPv4 address it stands
  for, by every allow list.
\<close>

theorem mapped_address_equivalent:
  "isIpInAllowlist (''::ffff:'' @ quad a) allowlist = isIpInAllowlist (quad a) allowlist"
  by (simp add: isIpInAllowlist_def Let_def quad_forms)

text \<open>
  The octet test accepts the text \<^verbatim>\<open>NaN\<close>, which also resets the value parsed so far.
\<close>

lemma nan_octets_accepted:
  "parseIpv4 ''10.NaN.0.1'' = Some 1" "isIpInCidr ''10.NaN.0.1'' ''0.0.0.1/32''"
  by code_simp+

text \<open>Two compressed halves with eight groups already written out are accepted too.\<close>

lemma empty_compression_accepted: "expandIpv6 ''1:2:3:4::5:6:7:8'' = expandIpv6 ''1:2:3:4:5:6:7:8''"
  by code_simp

end
