(* ===== verification/GraphqlLexer.thy ===== *)
theory GraphqlLexer
  imports TransformEngine "HOL-Library.Extended_Nat"
begin

text \<open>
  The GraphQL lexer of the gateway, the class \<^verbatim>\<open>Lexer\<close> of \<^verbatim>\<open>services/gateway/src/graphql/parser.ts\<close>.
  Text is a list of UTF-16 code units, and the position in the source is the text still to be
  read.  The loops run on a bound, the length of that text, which is never reached because every
  turn takes a character.  The last lemma is what the parser relies on: a token other than
  end-of-file takes at least one character.
\<close>

section \<open>Text\<close>

type_synonym utext = "nat list"

definition u :: "string \<Rightarrow> utext" where
  "u s = map of_char s"

definition isNameStart :: "nat \<Rightarrow> bool" where
  "isNameStart c \<longleftrightarrow> (97 \<le> c \<and> c \<le> 122) \<or> (65 \<le> c \<and> c \<le> 90) \<or> c = 95"

definition isDigit :: "nat \<Rightarrow> bool" where
  "isDigit c \<longleftrightarrow> 48 \<le> c \<and> c \<le> 57"

definition isNameContinue :: "nat \<Rightarrow> bool" where
  "isNameContinue c \<longleftrightarrow> isNameStart c \<or> (48 \<le> c \<and> c \<le> 57)"

text \<open>\<^verbatim>\<open>String.fromCharCode(parseInt(hex, 16))\<close>; text that is not a number gives code unit 0.\<close>

definition js_space :: "nat \<Rightarrow> bool" where
  "js_space c \<longleftrightarrow> c \<in> set ([9, 10, 11, 12, 13, 32, 160, 5760] @ [8192..<8203] @ [8232, 8233, 8239, 8287, 12288, 65279])"

definition hex_val :: "nat \<Rightarrow> nat option" where
  "hex_val c = (if c < 256 then (case radix_val (char_of c) of Some d \<Rightarrow> if d < 16 then Some d else None | None \<Rightarrow> None) else None)"

definition unicode_unit :: "utext \<Rightarrow> nat" where
  "unicode_unit hex =
     (let s = dropWhile js_space hex;
          neg = (s \<noteq> [] \<and> hd s = 45);
          s1 = (if s \<noteq> [] \<and> (hd s = 45 \<or> hd s = 43) then tl s else s);
          s2 = (if take 2 s1 = u ''0x'' \<or> take 2 s1 = u ''0X'' then drop 2 s1 else s1);
          n = foldl (\<lambda>a c. 16 * a + the (hex_val c)) 0 (takeWhile (\<lambda>c. hex_val c \<noteq> None) s2)
      in if neg then (65536 - n) mod 65536 else n)"

section \<open>Lexer\<close>

datatype TokenType = T_NAME | T_STRING | T_INT | T_FLOAT | T_PUNCTUATOR | T_EOF

record Token =
  tk_type :: TokenType
  tk_value :: utext
  tk_line :: nat
  tk_column :: nat

record Lexer =
  lx_rest :: utext
  lx_line :: nat
  lx_column :: nat

definition lex_advance :: "Lexer \<Rightarrow> Lexer" where
  "lex_advance lx =
     (case lx_rest lx of
        [] \<Rightarrow> lx\<lparr>lx_column := Suc (lx_column lx)\<rparr>
      | c # cs \<Rightarrow>
          if c = 10 then \<lparr>lx_rest = cs, lx_line = Suc (lx_line lx), lx_column = 1\<rparr>
          else \<lparr>lx_rest = cs, lx_line = lx_line lx, lx_column = Suc (lx_column lx)\<rparr>)"

text \<open>Take characters while a test holds.\<close>

fun lex_while :: "(nat \<Rightarrow> bool) \<Rightarrow> nat \<Rightarrow> Lexer \<Rightarrow> utext \<times> Lexer" where
  "lex_while P 0 lx = ([], lx)"
| "lex_while P (Suc n) lx =
     (case lx_rest lx of
        [] \<Rightarrow> ([], lx)
      | c # cs \<Rightarrow> if P c then (let (v, lx') = lex_while P n (lex_advance lx) in (c # v, lx')) else ([], lx))"

definition take_while :: "(nat \<Rightarrow> bool) \<Rightarrow> Lexer \<Rightarrow> utext \<times> Lexer" where
  "take_while P lx = lex_while P (length (lx_rest lx)) lx"

text \<open>White space, commas and comments; the flag says that a comment is being skipped.\<close>

fun skip_loop :: "nat \<Rightarrow> bool \<Rightarrow> Lexer \<Rightarrow> Lexer" where
  "skip_loop 0 comment lx = lx"
| "skip_loop (Suc n) comment lx =
     (case lx_rest lx of
        [] \<Rightarrow> lx
      | c # cs \<Rightarrow>
          if comment then skip_loop n (c \<noteq> 10) (lex_advance lx)
          else if c \<in> {32, 9, 10, 13, 44} then skip_loop n False (lex_advance lx)
          else if c = 35 then skip_loop n True (lex_advance lx)
          else lx)"

definition skipWhitespaceAndComments :: "Lexer \<Rightarrow> Lexer" where
  "skipWhitespaceAndComments lx = skip_loop (length (lx_rest lx)) False lx"

fun string_loop :: "nat \<Rightarrow> Lexer \<Rightarrow> utext \<times> Lexer" where
  "string_loop 0 lx = ([], lx)"
| "string_loop (Suc n) lx =
     (case lx_rest lx of
        [] \<Rightarrow> ([], lx)
      | c # cs \<Rightarrow>
          let lx1 = lex_advance lx
          in if c = 34 then ([], lx1)
             else if c = 92
             then let lx2 = lex_advance lx1;
                      (piece, lx3) =
                        (case cs of
                           [] \<Rightarrow> ([], lx2)
                         | e # es \<Rightarrow>
                             if e = 110 then ([10], lx2) else if e = 114 then ([13], lx2)
                             else if e = 116 then ([9], lx2)
                             else if e = 117
                             then ([unicode_unit (take 4 es)],
                                   lx2\<lparr>lx_rest := drop 4 es, lx_column := lx_column lx2 + 4\<rparr>)
                             else ([e], lx2));
                      (v, lx') = string_loop n lx3
                  in (piece @ v, lx')
             else let (v, lx') = string_loop n lx1 in (c # v, lx'))"

definition readString :: "Lexer \<Rightarrow> utext \<times> Lexer" where
  "readString lx = string_loop (length (lx_rest lx)) (lex_advance lx)"

definition lex_peek :: "Lexer \<Rightarrow> nat option" where
  "lex_peek lx = (case lx_rest lx of [] \<Rightarrow> None | c # _ \<Rightarrow> Some c)"

text \<open>Take one character if it is among the given ones.\<close>

definition take_one :: "nat list \<Rightarrow> Lexer \<Rightarrow> utext \<times> Lexer" where
  "take_one cs lx =
     (case lex_peek lx of
        None \<Rightarrow> ([], lx) | Some c \<Rightarrow> if c \<in> set cs then ([c], lex_advance lx) else ([], lx))"

definition readNumber :: "Lexer \<Rightarrow> TokenType \<times> utext \<times> Lexer" where
  "readNumber lx =
     (let (sign, l1) = take_one [45] lx;
          (ip, l2) = take_while isDigit l1;
          (dot, l3) = take_one [46] l2;
          (fp, l4) = (if dot = [] then ([], l3) else take_while isDigit l3);
          (e, l5) = take_one [101, 69] l4;
          (es, l6) = (if e = [] then ([], l5) else take_one [43, 45] l5);
          (ed, l7) = (if e = [] then ([], l6) else take_while isDigit l6)
      in (if dot = [] \<and> e = [] then T_INT else T_FLOAT, sign @ ip @ dot @ fp @ e @ es @ ed, l7))"

definition PUNCTUATORS :: utext where
  "PUNCTUATORS = u ''{}()[]:=@!|&''"

definition mk_token :: "TokenType \<Rightarrow> utext \<Rightarrow> Lexer \<Rightarrow> Token" where
  "mk_token ty v lx = \<lparr>tk_type = ty, tk_value = v, tk_line = lx_line lx, tk_column = lx_column lx\<rparr>"

definition lex_next :: "Lexer \<Rightarrow> Token \<times> Lexer" where
  "lex_next lx0 =
     (let lx = skipWhitespaceAndComments lx0
      in case lx_rest lx of
           [] \<Rightarrow> (mk_token T_EOF [] lx, lx)
         | c # cs \<Rightarrow>
             if c \<in> set PUNCTUATORS then (mk_token T_PUNCTUATOR [c] lx, lex_advance lx)
             else if take 3 (lx_rest lx) = u ''...''
             then (mk_token T_PUNCTUATOR (u ''...'') lx, lex_advance (lex_advance (lex_advance lx)))
             else if c = 34 then (let (v, lx') = readString lx in (mk_token T_STRING v lx, lx'))
             else if c = 45 \<or> isDigit c
             then (let (ty, v, lx') = readNumber lx in (mk_token ty v lx, lx'))
             else if isNameStart c then (let (v, lx') = take_while isNameContinue lx in (mk_token T_NAME v lx, lx'))
             else (mk_token T_NAME [c] lx, lex_advance lx))"

text \<open>Every token but the last takes at least one character.\<close>

lemma lex_advance_rest [simp]: "lx_rest (lex_advance lx) = tl (lx_rest lx)"
  by (simp add: lex_advance_def split: list.split)

lemma lex_while_le: "length (lx_rest (snd (lex_while P n lx))) \<le> length (lx_rest lx)"
proof (induction P n lx rule: lex_while.induct)
  case (2 P n lx)
  show ?case
  proof (cases "lx_rest lx")
    case (Cons c cs)
    with 2 [OF Cons] show ?thesis by (auto simp: case_prod_beta Let_def)
  qed simp
qed simp

lemma take_while_le: "length (lx_rest (snd (take_while P lx))) \<le> length (lx_rest lx)"
  by (simp add: take_while_def lex_while_le)

lemma take_while_less:
  "lx_rest lx = c # cs \<Longrightarrow> P c \<Longrightarrow> length (lx_rest (snd (take_while P lx))) < length (lx_rest lx)"
  using lex_while_le [of P "length cs" "lex_advance lx"]
  by (simp add: take_while_def case_prod_beta Let_def)

lemma take_one_le: "length (lx_rest (snd (take_one cs lx))) \<le> length (lx_rest lx)"
  by (simp add: take_one_def lex_peek_def split: list.split)

lemma skip_loop_le: "length (lx_rest (skip_loop n b lx)) \<le> length (lx_rest lx)"
proof (induction n arbitrary: b lx)
  case (Suc n)
  have IH: "length (lx_rest (skip_loop n b' (lex_advance lx))) \<le> length (lx_rest lx)" for b'
    using Suc [of b' "lex_advance lx"] by simp
  show ?case by (cases "lx_rest lx") (use IH in auto)
qed simp

lemma string_loop_le: "length (lx_rest (snd (string_loop n lx))) \<le> length (lx_rest lx)"
proof (induction n arbitrary: lx)
  case (Suc n)
  have IH: "length (lx_rest lx3) \<le> k \<Longrightarrow> length (lx_rest (snd (string_loop n lx3))) \<le> k" for lx3 k
    using Suc [of lx3] by simp
  show ?case
  proof (cases "lx_rest lx")
    case (Cons c cs)
    then show ?thesis
      by (cases cs) (auto simp: Let_def case_prod_beta intro!: IH)
  qed simp
qed simp

lemma readString_less:
  "lx_rest lx = c # cs \<Longrightarrow> length (lx_rest (snd (readString lx))) < length (lx_rest lx)"
  using string_loop_le [of "length (lx_rest lx)" "lex_advance lx"] by (simp add: readString_def)

text \<open>A number starts with a minus sign or a digit, which it takes.\<close>

lemma readNumber_props:
  assumes "lx_rest lx = c # cs" "c = 45 \<or> isDigit c" "readNumber lx = (ty, v, lx')"
  shows "length (lx_rest lx') < length (lx_rest lx)" "ty = T_INT \<or> ty = T_FLOAT"
proof -
  let ?l = "\<lambda>x. length (lx_rest x)"
  define l1 where "l1 = snd (take_one [45] lx)"
  define l2 where "l2 = snd (take_while isDigit l1)"
  define l3 where "l3 = snd (take_one [46] l2)"
  define l4 where "l4 = (if fst (take_one [46] l2) = [] then l3 else snd (take_while isDigit l3))"
  define l5 where "l5 = snd (take_one [101, 69] l4)"
  define l6 where "l6 = (if fst (take_one [101, 69] l4) = [] then l5 else snd (take_one [43, 45] l5))"
  note defs = l1_def l2_def l3_def l4_def l5_def l6_def
  have "?l l2 < ?l lx"
  proof (cases "c = 45")
    case True
    with assms(1) have "?l l1 < ?l lx" by (simp add: l1_def take_one_def lex_peek_def)
    with take_while_le [of isDigit l1] show ?thesis by (simp add: l2_def)
  next
    case False
    with assms(1,2) have "l1 = lx" "isDigit c" by (simp_all add: l1_def take_one_def lex_peek_def)
    with assms(1) take_while_less [of l1 c cs isDigit] show ?thesis by (simp add: l2_def)
  qed
  moreover have "?l l3 \<le> ?l l2" "?l l5 \<le> ?l l4" by (simp_all add: l3_def l5_def take_one_le)
  moreover have "?l l4 \<le> ?l l3" "?l l6 \<le> ?l l5" by (simp_all add: l4_def l6_def take_one_le take_while_le)
  moreover have "?l lx' \<le> ?l l6"
    using assms(3) take_while_le [of isDigit l6]
    by (auto simp: readNumber_def Let_def case_prod_beta defs split: if_splits)
  ultimately show "?l lx' < ?l lx" by linarith
  show "ty = T_INT \<or> ty = T_FLOAT"
    using assms(3) by (auto simp: readNumber_def Let_def case_prod_beta split: if_splits)
qed

lemma mk_token_simps [simp]: "tk_type (mk_token ty v lx) = ty" "tk_value (mk_token ty v lx) = v"
  by (simp_all add: mk_token_def)

lemma lex_next_progress:
  assumes "lex_next lx = (t, lx')"
  shows "(tk_type t = T_EOF \<and> tk_value t = [] \<and> lx_rest lx' = []) \<or>
         (tk_type t \<noteq> T_EOF \<and> length (lx_rest lx') < length (lx_rest lx))"
proof -
  define l where "l = skipWhitespaceAndComments lx"
  have le: "length (lx_rest l) \<le> length (lx_rest lx)"
    by (simp add: l_def skipWhitespaceAndComments_def skip_loop_le)
  show ?thesis
  proof (cases "lx_rest l")
    case Nil
    with assms show ?thesis by (auto simp: lex_next_def Let_def l_def)
  next
    case (Cons c cs)
    have num: "length (lx_rest (snd (snd (readNumber l)))) < length (lx_rest l) \<and>
               fst (readNumber l) \<noteq> T_EOF" if "c = 45 \<or> isDigit c"
      using readNumber_props [OF Cons that, of "fst (readNumber l)" "fst (snd (readNumber l))"
          "snd (snd (readNumber l))"] by auto
    have name: "length (lx_rest (snd (take_while isNameContinue l))) < length (lx_rest l)" if "isNameStart c"
      using take_while_less [OF Cons, of isNameContinue] that by (simp add: isNameContinue_def)
    note str = readString_less [OF Cons]
    show ?thesis
      using assms le Cons num name str
      by (simp add: lex_next_def Let_def case_prod_beta flip: l_def split: if_splits) auto
  qed
qed

end
