(* ===== verification/GraphqlParser.thy ===== *)
theory GraphqlParser
  imports GraphqlLexer "HOL-Library.Monad_Syntax" "HOL-Library.Extended_Nat"
begin

text \<open>
  The GraphQL parser, the class \<^verbatim>\<open>Parser\<close> of \<^verbatim>\<open>services/gateway/src/graphql/parser.ts\<close>, with the depth
  calculation and the schema validation of the same file, over the types of \<^verbatim>\<open>graphql/types.ts\<close>.
  The record \<open>Parser\<close> is the state of the object.  A parsing method that loops or recurses takes
  fuel and returns \<open>None\<close> when it runs out; \<open>parseDocument\<close> starts it with a multiple of the length
  of the source, which \<open>GraphqlProperties\<close> proves to be enough.
\<close>

section \<open>Syntax trees\<close>

datatype GraphQLValue =
    StringValue utext
  | IntValue jsnum
  | FloatValue jsnum
  | BooleanValue bool
  | NullValue
  | EnumValue utext
  | ListValue "GraphQLValue list"
  | ObjectValue "(utext \<times> GraphQLValue) list"
  | Variable utext

record GraphQLArgument =
  arg_name :: utext
  arg_value :: GraphQLValue

datatype GraphQLSelection =
    Field (f_alias: "utext option") (f_name: utext) (f_arguments: "GraphQLArgument list")
      (f_directives: "utext list") (f_selectionSet: "GraphQLSelection list option")
  | InlineFragment (i_typeCondition: "utext option") (i_selectionSet: "GraphQLSelection list")
  | FragmentSpread (s_name: utext)

type_synonym GraphQLSelectionSet = "GraphQLSelection list"

record GraphQLFragmentDefinition =
  fr_name :: utext
  fr_typeCondition :: utext
  fr_selectionSet :: GraphQLSelectionSet

record GraphQLVariableDefinition =
  vd_name :: utext
  vd_type :: utext
  vd_nullable :: bool
  vd_isList :: bool
  vd_defaultValue :: "GraphQLValue option"

datatype operation_kind = Query | Mutation | Subscription

record GraphQLOperationDefinition =
  op_kind :: operation_kind
  op_name :: "utext option"
  op_variableDefinitions :: "GraphQLVariableDefinition list"
  op_selectionSet :: GraphQLSelectionSet

record GraphQLDocument =
  doc_operations :: "GraphQLOperationDefinition list"
  doc_fragments :: "(utext, GraphQLFragmentDefinition) dict"

record ParseError =
  pe_message :: utext
  pe_line :: nat
  pe_column :: nat

datatype ParseResult = ParseOk GraphQLDocument | ParseFailed "ParseError list"

section \<open>Parser state\<close>

record Parser =
  ps_lexer :: Lexer
  ps_current :: Token
  ps_errors :: "ParseError list"
  ps_aliasCount :: nat
  ps_maxDepth :: nat
  ps_maxAliases :: nat

definition new_Parser :: "utext \<Rightarrow> nat \<Rightarrow> nat \<Rightarrow> Parser" where
  "new_Parser src maxDepth maxAliases =
     (let (t, lx) = lex_next \<lparr>lx_rest = src, lx_line = 1, lx_column = 1\<rparr>
      in \<lparr>ps_lexer = lx, ps_current = t, ps_errors = [], ps_aliasCount = 0,
          ps_maxDepth = maxDepth, ps_maxAliases = maxAliases\<rparr>)"

definition adv :: "Parser \<Rightarrow> Parser" where
  "adv p = (let (t, lx) = lex_next (ps_lexer p) in p\<lparr>ps_lexer := lx, ps_current := t\<rparr>)"

definition cv :: "Parser \<Rightarrow> utext" where
  "cv p = tk_value (ps_current p)"

definition ct :: "Parser \<Rightarrow> TokenType" where
  "ct p = tk_type (ps_current p)"

definition push_error :: "utext \<Rightarrow> Parser \<Rightarrow> Parser" where
  "push_error msg p =
     p\<lparr>ps_errors := ps_errors p @ [\<lparr>pe_message = msg, pe_line = tk_line (ps_current p), pe_column = tk_column (ps_current p)\<rparr>]\<rparr>"

definition quote :: utext where
  "quote = [39]"

definition type_name :: "TokenType \<Rightarrow> utext" where
  "type_name t =
     (case t of T_NAME \<Rightarrow> u ''NAME'' | T_STRING \<Rightarrow> u ''STRING'' | T_INT \<Rightarrow> u ''INT'' | T_FLOAT \<Rightarrow> u ''FLOAT''
      | T_PUNCTUATOR \<Rightarrow> u ''PUNCTUATOR'' | T_EOF \<Rightarrow> u ''EOF'')"

text \<open>The value of the token that was current is returned; the parser advances in any case.\<close>

definition expect :: "TokenType \<Rightarrow> utext option \<Rightarrow> Parser \<Rightarrow> utext \<times> Parser" where
  "expect ty v p =
     (cv p,
      if ct p \<noteq> ty \<or> (v \<noteq> None \<and> v \<noteq> Some (cv p))
      then adv (push_error (u ''Expected '' @ (case v of Some w \<Rightarrow> w | None \<Rightarrow> type_name ty) @
                            u '' but got '' @ quote @ cv p @ quote) p)
      else adv p)"

definition skip_value :: "utext \<Rightarrow> Parser \<Rightarrow> bool \<times> Parser" where
  "skip_value v p = (if cv p = v then (True, adv p) else (False, p))"

definition expect_name :: "Parser \<Rightarrow> utext \<times> Parser" where
  "expect_name p = expect T_NAME None p"

definition expect_punct :: "string \<Rightarrow> Parser \<Rightarrow> Parser" where
  "expect_punct s p = snd (expect T_PUNCTUATOR (Some (u s)) p)"

text \<open>A loop goes on until the closing token or the end of the input.\<close>

definition at_end :: "string \<Rightarrow> Parser \<Rightarrow> bool" where
  "at_end s p \<longleftrightarrow> cv p = u s \<or> ct p = T_EOF"


section \<open>Values\<close>

text \<open>\<^verbatim>\<open>parseInt(raw, 10)\<close> and \<^verbatim>\<open>parseFloat(raw)\<close> of a number token, which is ASCII.\<close>

definition ascii :: "utext \<Rightarrow> string" where
  "ascii s = map char_of s"

definition int_token :: "utext \<Rightarrow> jsnum" where
  "int_token raw =
     (let neg = (raw \<noteq> [] \<and> hd raw = 45); ds = ascii (if neg then tl raw else raw)
      in if ds = [] then NaN else fl (of_int (if neg then - int (digits_val ds) else int (digits_val ds))))"

text \<open>
  \<^verbatim>\<open>fields[key] = value\<close> on a plain object: the key \<^verbatim>\<open>__proto__\<close> sets the prototype and adds no property.
\<close>

definition set_field :: "(utext \<times> GraphQLValue) list \<Rightarrow> utext \<Rightarrow> GraphQLValue \<Rightarrow> (utext \<times> GraphQLValue) list" where
  "set_field fs key v = (if key = u ''__proto__'' then fs else map_set fs key v)"

fun parseValue :: "nat \<Rightarrow> Parser \<Rightarrow> (GraphQLValue \<times> Parser) option"
and parse_values :: "nat \<Rightarrow> Parser \<Rightarrow> (GraphQLValue list \<times> Parser) option"
and parse_fields :: "nat \<Rightarrow> (utext \<times> GraphQLValue) list \<Rightarrow> Parser \<Rightarrow> ((utext \<times> GraphQLValue) list \<times> Parser) option" where
  "parseValue 0 p = None"
| "parseValue (Suc n) p =
     (if cv p = u ''$'' then (let (name, q) = expect_name (adv p) in Some (Variable name, q))
      else if ct p = T_STRING then Some (StringValue (cv p), adv p)
      else if ct p = T_INT then Some (IntValue (int_token (cv p)), adv p)
      else if ct p = T_FLOAT then Some (FloatValue (js_parseFloat (ascii (cv p))), adv p)
      else if cv p = u ''true'' then Some (BooleanValue True, adv p)
      else if cv p = u ''false'' then Some (BooleanValue False, adv p)
      else if cv p = u ''null'' then Some (NullValue, adv p)
      else if cv p = u ''['' then
        do { (vs, q) \<leftarrow> parse_values n (adv p); Some (ListValue vs, expect_punct '']'' q) }
      else if cv p = u ''{'' then
        do { (fs, q) \<leftarrow> parse_fields n [] (adv p); Some (ObjectValue fs, expect_punct ''}'' q) }
      else if ct p = T_NAME then Some (EnumValue (cv p), adv p)
      else Some (NullValue, adv (push_error (u ''Unexpected token '' @ quote @ cv p @ quote @ u '' while parsing value'') p)))"
| "parse_values 0 p = None"
| "parse_values (Suc n) p =
     (if at_end '']'' p then Some ([], p)
      else do { (v, q) \<leftarrow> parseValue n p; (vs, r) \<leftarrow> parse_values n q; Some (v # vs, r) })"
| "parse_fields 0 fs p = None"
| "parse_fields (Suc n) fs p =
     (if at_end ''}'' p then Some (fs, p)
      else let (key, q) = expect_name p
           in do { (v, r) \<leftarrow> parseValue n (expect_punct '':'' q); parse_fields n (set_field fs key v) r })"

section \<open>Selections\<close>

fun parse_arguments :: "nat \<Rightarrow> Parser \<Rightarrow> (GraphQLArgument list \<times> Parser) option" where
  "parse_arguments 0 p = None"
| "parse_arguments (Suc n) p =
     (if at_end '')'' p then Some ([], p)
      else let (name, q) = expect_name p
           in do { (v, r) \<leftarrow> parseValue n (expect_punct '':'' q);
                   (as, s) \<leftarrow> parse_arguments n r;
                   Some (\<lparr>arg_name = name, arg_value = v\<rparr> # as, s) })"

text \<open>The arguments of a directive are skipped up to the matching parenthesis.\<close>

fun skip_parens :: "nat \<Rightarrow> nat \<Rightarrow> Parser \<Rightarrow> Parser option" where
  "skip_parens 0 depth2 p = None"
| "skip_parens (Suc n) depth2 p =
     (if ct p = T_EOF \<or> depth2 = 0 then Some p
      else skip_parens n (if cv p = u ''('' then Suc depth2 else if cv p = u '')'' then depth2 - 1 else depth2) (adv p))"

fun parse_directives :: "nat \<Rightarrow> Parser \<Rightarrow> (utext list \<times> Parser) option" where
  "parse_directives 0 p = None"
| "parse_directives (Suc n) p =
     (if cv p \<noteq> u ''@'' then Some ([], p)
      else let (d, q) = expect_name (adv p)
           in do { r \<leftarrow> (if cv q = u ''('' then skip_parens n 1 (adv q) else Some q);
                   (ds, s) \<leftarrow> parse_directives n r;
                   Some (d # ds, s) })"

text \<open>
  The head of a field: its name and alias, and whether the alias limit lets the field go on.
\<close>

definition field_head :: "Parser \<Rightarrow> utext option \<times> utext \<times> bool \<times> Parser" where
  "field_head p =
     (let q = adv p
      in if cv q = u '':''
         then let (name, r) = expect_name (adv q); r = r\<lparr>ps_aliasCount := Suc (ps_aliasCount r)\<rparr>
              in if ps_maxAliases r < ps_aliasCount r
                 then (Some (cv p), name, False,
                       push_error (u ''Query exceeds maximum allowed alias count of '' @ u (nat_digits (ps_maxAliases r)) @ u ''.'') r)
                 else (Some (cv p), name, True, r)
         else (None, cv p, True, q))"

text \<open>
  The \<^verbatim>\<open>depth\<close> parameter of \<^verbatim>\<open>parseSelectionSet\<close> and \<^verbatim>\<open>parseField\<close> is passed along and never read, so it is
  not a parameter here.
\<close>

fun parseSelectionSet :: "nat \<Rightarrow> Parser \<Rightarrow> (GraphQLSelectionSet option \<times> Parser) option"
and parse_selections :: "nat \<Rightarrow> Parser \<Rightarrow> (GraphQLSelectionSet \<times> Parser) option"
and parse_spread :: "nat \<Rightarrow> Parser \<Rightarrow> (GraphQLSelection option \<times> Parser) option"
and parseField :: "nat \<Rightarrow> Parser \<Rightarrow> (GraphQLSelection option \<times> Parser) option" where
  "parseSelectionSet 0 p = None"
| "parseSelectionSet (Suc n) p =
     (if cv p \<noteq> u ''{'' then Some (None, push_error (u ''Expected { but got '' @ quote @ cv p @ quote) p)
      else do { (sels, q) \<leftarrow> parse_selections n (adv p); Some (Some sels, expect_punct ''}'' q) })"
| "parse_selections 0 p = None"
| "parse_selections (Suc n) p =
     (if at_end ''}'' p then Some ([], p)
      else do { (sel, q) \<leftarrow> (if cv p = u ''...'' then parse_spread n (adv p) else parseField n p);
                (sels, r) \<leftarrow> parse_selections n q;
                Some (case sel of Some x \<Rightarrow> x # sels | None \<Rightarrow> sels, r) })"
| "parse_spread 0 p = None"
| "parse_spread (Suc n) p =
     (if cv p = u ''on''
      then let (tc, q) = expect_name (adv p)
           in do { (sub, r) \<leftarrow> parseSelectionSet n q; Some (map_option (InlineFragment (Some tc)) sub, r) }
      else if ct p = T_NAME then Some (Some (FragmentSpread (cv p)), adv p)
      else do { (sub, r) \<leftarrow> parseSelectionSet n p; Some (map_option (InlineFragment None) sub, r) })"
| "parseField 0 p = None"
| "parseField (Suc n) p =
     (if ct p \<noteq> T_NAME
      then Some (None, adv (push_error (u ''Expected field name but got '' @ quote @ cv p @ quote) p))
      else let (alias, name, go, q) = field_head p
           in if \<not> go then Some (None, q)
              else do { (args, r) \<leftarrow>
                          (if cv q = u ''('' then do { (as, a) \<leftarrow> parse_arguments n (adv q); Some (as, expect_punct '')'' a) }
                           else Some ([], q));
                        (dirs, s) \<leftarrow> parse_directives n r;
                        (sub, t) \<leftarrow> (if cv s = u ''{'' then parseSelectionSet n s else Some (None, s));
                        Some (Some (Field alias name args dirs sub), t) })"

section \<open>Definitions\<close>

definition parseTypeRef :: "Parser \<Rightarrow> (utext \<times> bool \<times> bool) \<times> Parser" where
  "parseTypeRef p =
     (let (typeName, isList, q) =
            (if cv p = u ''[''
             then let (tn, q1) = expect_name (adv p); q2 = (if cv q1 = u ''!'' then adv q1 else q1)
                  in (tn, True, expect_punct '']'' q2)
             else let (tn, q1) = expect_name p in (tn, False, q1))
      in if cv q = u ''!'' then ((typeName, False, isList), adv q) else ((typeName, True, isList), q))"

definition parseVariableDefinition :: "nat \<Rightarrow> Parser \<Rightarrow> (GraphQLVariableDefinition option \<times> Parser) option" where
  "parseVariableDefinition n p =
     (if cv p \<noteq> u ''$''
      then Some (None, adv (push_error (u ''Expected variable starting with $ but got '' @ quote @ cv p @ quote) p))
      else let (name, q) = expect_name (adv p); ((tn, nullable, isList), r) = parseTypeRef (expect_punct '':'' q)
           in do { (def, s) \<leftarrow> (if cv r = u ''='' then do { (v, s) \<leftarrow> parseValue n (adv r); Some (Some v, s) }
                                else Some (None, r));
                   Some (Some \<lparr>vd_name = name, vd_type = tn, vd_nullable = nullable, vd_isList = isList,
                               vd_defaultValue = def\<rparr>, s) })"

fun parse_variables :: "nat \<Rightarrow> Parser \<Rightarrow> (GraphQLVariableDefinition list \<times> Parser) option" where
  "parse_variables 0 p = None"
| "parse_variables (Suc n) p =
     (if at_end '')'' p then Some ([], p)
      else do { (vd, q) \<leftarrow> parseVariableDefinition n p;
                (vds, r) \<leftarrow> parse_variables n q;
                Some (case vd of Some x \<Rightarrow> x # vds | None \<Rightarrow> vds, r) })"

definition keyword_kind :: "utext \<Rightarrow> operation_kind option" where
  "keyword_kind k =
     (if k = u ''query'' then Some Query else if k = u ''mutation'' then Some Mutation
      else if k = u ''subscription'' then Some Subscription else None)"

text \<open>The rest of an operation: variable definitions and selection set.\<close>

definition operation_rest ::
  "nat \<Rightarrow> operation_kind \<Rightarrow> utext option \<Rightarrow> Parser \<Rightarrow> (GraphQLOperationDefinition option \<times> Parser) option" where
  "operation_rest n kind name p =
     do { (vds, q) \<leftarrow>
            (if cv p = u ''('' then do { (vs, a) \<leftarrow> parse_variables n (adv p); Some (vs, expect_punct '')'' a) }
             else Some ([], p));
          (sels, r) \<leftarrow> parseSelectionSet n q;
          Some (map_option (\<lambda>ss. \<lparr>op_kind = kind, op_name = name, op_variableDefinitions = vds, op_selectionSet = ss\<rparr>) sels, r) }"

definition parseOperation :: "nat \<Rightarrow> Parser \<Rightarrow> (GraphQLOperationDefinition option \<times> Parser) option" where
  "parseOperation n p =
     (case keyword_kind (cv p) of
        Some kind \<Rightarrow>
          let q = adv p
          in if ct q = T_NAME then operation_rest n kind (Some (cv q)) (adv q) else operation_rest n kind None q
      | None \<Rightarrow>
          if cv p \<noteq> u ''{''
          then Some (None, adv (push_error (u ''Unknown operation type '' @ quote @ cv p @ quote @
                                            u ''. Expected query, mutation, or {.'') p))
          else operation_rest n Query None p)"

definition parseFragmentDefinition :: "nat \<Rightarrow> Parser \<Rightarrow> (GraphQLFragmentDefinition option \<times> Parser) option" where
  "parseFragmentDefinition n p =
     (let p1 = snd (expect T_NAME (Some (u ''fragment'')) p);
          (name, p2) = expect_name p1;
          p3 = snd (expect T_NAME (Some (u ''on'')) p2);
          (tc, p4) = expect_name p3
      in do { (sels, q) \<leftarrow> parseSelectionSet n p4;
              Some (map_option (\<lambda>ss. \<lparr>fr_name = name, fr_typeCondition = tc, fr_selectionSet = ss\<rparr>) sels, q) })"

text \<open>\<^verbatim>\<open>fragments.set\<close> unless the name is taken, which is an error at the current token.\<close>

definition add_fragment ::
  "(utext, GraphQLFragmentDefinition) dict \<Rightarrow> GraphQLFragmentDefinition option \<Rightarrow> Parser \<Rightarrow>
   (utext, GraphQLFragmentDefinition) dict \<times> Parser" where
  "add_fragment frs frag p =
     (case frag of
        None \<Rightarrow> (frs, p)
      | Some f \<Rightarrow>
          if map_of frs (fr_name f) \<noteq> None
          then (frs, push_error (u ''Duplicate fragment name '' @ quote @ fr_name f @ quote @ u ''.'') p)
          else (map_set frs (fr_name f) f, p))"

fun parse_definitions :: "nat \<Rightarrow> GraphQLDocument \<Rightarrow> Parser \<Rightarrow> (GraphQLDocument \<times> Parser) option" where
  "parse_definitions 0 doc p = None"
| "parse_definitions (Suc n) doc p =
     (if ct p = T_EOF then Some (doc, p)
      else if cv p = u ''fragment'' then
        do { (frag, q) \<leftarrow> parseFragmentDefinition n p;
             let (frs, r) = add_fragment (doc_fragments doc) frag q;
             parse_definitions n (doc\<lparr>doc_fragments := frs\<rparr>) r }
      else
        do { (op, q) \<leftarrow> parseOperation n p;
             parse_definitions n
               (case op of Some x \<Rightarrow> doc\<lparr>doc_operations := doc_operations doc @ [x]\<rparr> | None \<Rightarrow> doc) q })"

section \<open>Depth\<close>

text \<open>
  The loop over the selections of a set, with the running maximum; \<open>\<infinity>\<close> is returned at once for a
  fragment that is being expanded already.  A fragment is expanded at most once on a path, and
  otherwise the selections get smaller.
\<close>

definition unexpanded :: "(utext, GraphQLFragmentDefinition) dict \<Rightarrow> utext set \<Rightarrow> nat" where
  "unexpanded frs visited = card (fst ` set frs - visited)"

lemma unexpanded_less:
  "map_of frs name = Some frag \<Longrightarrow> name \<notin> visited \<Longrightarrow> unexpanded frs (insert name visited) < unexpanded frs visited"
  unfolding unexpanded_def by (rule psubset_card_mono) (use map_of_SomeD in force)+

function (sequential) depth_loop ::
  "(utext, GraphQLFragmentDefinition) dict \<Rightarrow> nat \<Rightarrow> utext set \<Rightarrow> GraphQLSelectionSet \<Rightarrow> enat \<Rightarrow> enat" where
  "depth_loop frs current visited [] max_d = max_d"
| "depth_loop frs current visited (FragmentSpread name # sels) max_d =
     (if name \<in> visited then \<infinity>
      else case map_of frs name of
             None \<Rightarrow> depth_loop frs current visited sels max_d
           | Some frag \<Rightarrow>
               depth_loop frs current visited sels
                 (max max_d (depth_loop frs current (insert name visited) (fr_selectionSet frag) (enat current))))"
| "depth_loop frs current visited (InlineFragment tc sub # sels) max_d =
     depth_loop frs current visited sels
       (max max_d (depth_loop frs (Suc current) visited sub (enat (Suc current))))"
| "depth_loop frs current visited (Field al nm args dirs sub # sels) max_d =
     (let fieldDepth = Suc current;
          m1 = max max_d (enat fieldDepth)
      in depth_loop frs current visited sels
           (case sub of
              Some ss \<Rightarrow> max m1 (depth_loop frs fieldDepth visited ss (enat fieldDepth))
            | None \<Rightarrow> m1))"
  by pat_completeness auto
termination
  by (relation "measures [\<lambda>(frs, c, vis, sels, m). unexpanded frs vis, \<lambda>(frs, c, vis, sels, m). size_list size sels]")
    (simp_all add: unexpanded_less)

definition selectionSetDepth ::
  "GraphQLSelectionSet \<Rightarrow> (utext, GraphQLFragmentDefinition) dict \<Rightarrow> nat \<Rightarrow> utext set \<Rightarrow> enat" where
  "selectionSetDepth ss frs current visited = depth_loop frs current visited ss (enat current)"

section \<open>Parsing a document\<close>

definition depth_error :: "nat \<Rightarrow> enat \<Rightarrow> ParseError" where
  "depth_error maxDepth d =
     \<lparr>pe_message =
        (case d of
           \<infinity> \<Rightarrow> u ''Query rejected: fragment cycle detected.''
         | enat n \<Rightarrow> u ''Query exceeds maximum allowed depth of '' @ u (nat_digits maxDepth) @
             u '' (got '' @ u (nat_digits n) @ u '').''),
      pe_line = 1, pe_column = 1\<rparr>"

fun check_depths :: "nat \<Rightarrow> (utext, GraphQLFragmentDefinition) dict \<Rightarrow> GraphQLOperationDefinition list \<Rightarrow> ParseError option" where
  "check_depths maxDepth frs [] = None"
| "check_depths maxDepth frs (op # ops) =
     (let depth = selectionSetDepth (op_selectionSet op) frs 0 {}
      in if enat maxDepth < depth then Some (depth_error maxDepth depth) else check_depths maxDepth frs ops)"

definition parse :: "nat \<Rightarrow> Parser \<Rightarrow> ParseResult option" where
  "parse n p =
     do { (doc, q) \<leftarrow> parse_definitions n \<lparr>doc_operations = [], doc_fragments = []\<rparr> p;
          Some (if ps_errors q \<noteq> [] then ParseFailed (ps_errors q)
                else case check_depths (ps_maxDepth q) (doc_fragments doc) (doc_operations doc) of
                       Some e \<Rightarrow> ParseFailed [e]
                     | None \<Rightarrow> ParseOk doc) }"

definition parse_fuel :: "utext \<Rightarrow> nat" where
  "parse_fuel source = 3 * length source + 10"

text \<open>The options default to depth 5 and 50 aliases.\<close>

definition parseDocument :: "utext \<Rightarrow> nat option \<Rightarrow> nat option \<Rightarrow> ParseResult option" where
  "parseDocument source maxDepth maxAliases =
     parse (parse_fuel source)
       (new_Parser source (case maxDepth of None \<Rightarrow> 5 | Some d \<Rightarrow> d) (case maxAliases of None \<Rightarrow> 50 | Some a \<Rightarrow> a))"

section \<open>Validation against a schema\<close>

record GraphQLArgDefinition =
  ad_type :: utext
  ad_nullable :: bool
  ad_defaultValue :: "jsval option"

record GraphQLFieldDefinition =
  fd_type :: utext
  fd_nullable :: bool
  fd_isList :: bool
  fd_args :: "(utext, GraphQLArgDefinition) dict option"

datatype GraphQLTypeEntry =
    ObjectType (ot_name: utext) (ot_fields: "(utext, GraphQLFieldDefinition) dict")
  | EnumType (et_name: utext) (et_values: "utext list")

record GraphQLSchema =
  sch_types :: "(utext, GraphQLTypeEntry) dict"
  sch_queryFields :: "(utext, GraphQLFieldDefinition) dict"
  sch_mutationFields :: "(utext, GraphQLFieldDefinition) dict"
  sch_fieldToEntitySlug :: "(utext, utext) dict"

record GraphQLValidationError =
  ve_message :: utext
  ve_path :: utext

text \<open>
  \<^verbatim>\<open>parentFields[name]\<close> on a plain object: a name that is not an own property but a member of
  \<^verbatim>\<open>Object.prototype\<close> gives that member, which has no \<^verbatim>\<open>args\<close> and no \<^verbatim>\<open>type\<close>.
\<close>

datatype 'a lookup = Own 'a | Inherited | Missing

definition inherited_name :: "utext \<Rightarrow> bool" where
  "inherited_name nm \<longleftrightarrow> nm \<in> u ` set (''__proto__'' # object_prototype)"

definition lookup_field :: "(utext, 'a) dict \<Rightarrow> utext \<Rightarrow> 'a lookup" where
  "lookup_field fs nm =
     (case map_of fs nm of Some f \<Rightarrow> Own f | None \<Rightarrow> if inherited_name nm then Inherited else Missing)"

definition check_arguments ::
  "(utext, GraphQLArgDefinition) dict \<Rightarrow> utext \<Rightarrow> utext \<Rightarrow> GraphQLArgument list \<Rightarrow> GraphQLValidationError list" where
  "check_arguments known path name args =
     concat (map (\<lambda>a. if lookup_field known (arg_name a) \<noteq> Missing then []
                      else [\<lparr>ve_message = u ''Unknown argument '' @ quote @ arg_name a @ quote @ u '' on field '' @ quote @
                               name @ quote @ u ''.'',
                             ve_path = path @ u ''.'' @ name\<rparr>]) args)"

definition child_fields :: "GraphQLSchema \<Rightarrow> utext \<Rightarrow> (utext, GraphQLFieldDefinition) dict option" where
  "child_fields schema ty =
     (case map_of (sch_types schema) ty of
        Some (ObjectType tn fs) \<Rightarrow> if fs \<noteq> [] then Some fs else None
      | _ \<Rightarrow> None)"

fun validateSelectionSet ::
  "(utext, GraphQLFieldDefinition) dict \<Rightarrow> GraphQLSchema \<Rightarrow> GraphQLDocument \<Rightarrow> utext \<Rightarrow> GraphQLSelectionSet \<Rightarrow>
   GraphQLValidationError list" where
  "validateSelectionSet parentFields schema doc path [] = []"
| "validateSelectionSet parentFields schema doc path (FragmentSpread name # sels) =
     (if map_of (doc_fragments doc) name = None
      then [\<lparr>ve_message = u ''Unknown fragment '' @ quote @ name @ quote @ u ''.'', ve_path = path\<rparr>] else []) @
     validateSelectionSet parentFields schema doc path sels"
| "validateSelectionSet parentFields schema doc path (InlineFragment tc sub # sels) =
     validateSelectionSet parentFields schema doc path sub @ validateSelectionSet parentFields schema doc path sels"
| "validateSelectionSet parentFields schema doc path (Field al name args dirs sub # sels) =
     (case lookup_field parentFields name of
        Missing \<Rightarrow>
          [\<lparr>ve_message = u ''Field '' @ quote @ name @ quote @ u '' does not exist on '' @ quote @ path @ quote @ u ''.'',
            ve_path = path @ u ''.'' @ name\<rparr>]
      | Inherited \<Rightarrow> []
      | Own field \<Rightarrow>
          (case fd_args field of Some known \<Rightarrow> check_arguments known path name args | None \<Rightarrow> []) @
          (case sub of
             Some ss \<Rightarrow>
               (case child_fields schema (fd_type field) of
                  Some fs \<Rightarrow> validateSelectionSet fs schema doc (path @ u ''.'' @ name) ss
                | None \<Rightarrow> [])
           | None \<Rightarrow> [])) @
     validateSelectionSet parentFields schema doc path sels"

definition kind_name :: "operation_kind \<Rightarrow> utext" where
  "kind_name k = (case k of Query \<Rightarrow> u ''query'' | Mutation \<Rightarrow> u ''mutation'' | Subscription \<Rightarrow> u ''subscription'')"

definition validateDocument :: "GraphQLDocument \<Rightarrow> GraphQLSchema \<Rightarrow> GraphQLValidationError list" where
  "validateDocument doc schema =
     concat (map (\<lambda>op. validateSelectionSet
                         (if op_kind op = Mutation then sch_mutationFields schema else sch_queryFields schema)
                         schema doc (kind_name (op_kind op)) (op_selectionSet op))
                 (doc_operations doc))"

end
