(* ===== verification/GraphqlProperties.thy ===== *)
theory GraphqlProperties
  imports GraphqlParser
begin

text \<open>
  The GraphQL parser returns on every text and keeps the alias limit.  Every parsing method is
  shown to relate the parser before and after it by \<open>grows\<close> (or \<open>eats\<close>, when it takes the current
  token), which carries both the measure for the fuel and the count of aliases.
\<close>

section \<open>What a parsing step does to the parser\<close>

text \<open>
  The text that is left, with the current token; and the relation between the parser before and
  after a step that produced \<open>k\<close> aliased fields.
\<close>

definition left :: "Parser \<Rightarrow> nat" where
  "left p = length (lx_rest (ps_lexer p)) + (if ct p = T_EOF then 0 else 1)"

definition eof_ok :: "Parser \<Rightarrow> bool" where
  "eof_ok p \<longleftrightarrow> (ct p = T_EOF \<longrightarrow> cv p = [])"

definition grows :: "Parser \<Rightarrow> nat \<Rightarrow> Parser \<Rightarrow> bool" where
  "grows p k q \<longleftrightarrow>
     left q \<le> left p \<and> (eof_ok p \<longrightarrow> eof_ok q) \<and>
     ps_maxDepth q = ps_maxDepth p \<and> ps_maxAliases q = ps_maxAliases p \<and>
     ps_aliasCount p + k \<le> ps_aliasCount q \<and>
     (ps_errors q = [] \<longrightarrow> ps_errors p = [] \<and>
        (ps_aliasCount p \<le> ps_maxAliases p \<longrightarrow> ps_aliasCount q \<le> ps_maxAliases p))"

lemma u_empty [simp]: "u s = [] \<longleftrightarrow> s = []" "[] = u s \<longleftrightarrow> s = []"
  by (auto simp: u_def)

lemma eof_value [simp]: "eof_ok p \<Longrightarrow> cv p = u (c # cs) \<Longrightarrow> ct p \<noteq> T_EOF"
  by (auto simp: eof_ok_def u_def)

lemma adv_cases:
  "(ct (adv p) = T_EOF \<and> cv (adv p) = [] \<and> lx_rest (ps_lexer (adv p)) = []) \<or>
   (ct (adv p) \<noteq> T_EOF \<and> length (lx_rest (ps_lexer (adv p))) < length (lx_rest (ps_lexer p)))"
  using lex_next_progress [of "ps_lexer p"]
  by (auto simp: adv_def ct_def cv_def split: prod.splits)

lemma adv_keeps [simp]:
  "ps_errors (adv p) = ps_errors p" "ps_aliasCount (adv p) = ps_aliasCount p"
  "ps_maxDepth (adv p) = ps_maxDepth p" "ps_maxAliases (adv p) = ps_maxAliases p"
  by (simp_all add: adv_def split: prod.split)

lemma adv_eof_ok [simp]: "eof_ok (adv p)"
  using adv_cases [of p] by (auto simp: eof_ok_def)

lemma adv_left_le: "left (adv p) \<le> left p"
  using adv_cases [of p] by (auto simp: left_def)

lemma adv_left_less: "ct p \<noteq> T_EOF \<Longrightarrow> left (adv p) < left p"
  using adv_cases [of p] by (auto simp: left_def)

lemma push_error_keeps [simp]:
  "ct (push_error m p) = ct p" "cv (push_error m p) = cv p" "left (push_error m p) = left p"
  "eof_ok (push_error m p) = eof_ok p" "ps_aliasCount (push_error m p) = ps_aliasCount p"
  "ps_maxDepth (push_error m p) = ps_maxDepth p" "ps_maxAliases (push_error m p) = ps_maxAliases p"
  "ps_errors (push_error m p) \<noteq> []"
  by (simp_all add: push_error_def ct_def cv_def left_def eof_ok_def)

lemma grows_refl [simp]: "grows p 0 p"
  by (simp add: grows_def)

lemma grows_trans: "grows p j q \<Longrightarrow> grows q k r \<Longrightarrow> grows p (j + k) r"
  by (auto simp: grows_def)

lemma grows_trans0: "grows p 0 q \<Longrightarrow> grows q k r \<Longrightarrow> grows p k r"
  "grows p k q \<Longrightarrow> grows q 0 r \<Longrightarrow> grows p k r"
  using grows_trans by fastforce+

lemma grows0_trans: "grows p 0 q \<Longrightarrow> grows q 0 r \<Longrightarrow> grows p 0 r"
  by (rule grows_trans0)

lemma grows_adv [simp, intro]: "grows p 0 (adv p)"
  by (simp add: grows_def adv_left_le)

lemma grows_push_error [simp, intro]: "grows p 0 (push_error m p)"
  by (simp add: grows_def)

lemma grows_expect: "expect ty v p = (w, q) \<Longrightarrow> grows p 0 q"
  by (auto simp: expect_def intro: grows_trans0 split: if_splits)

lemma grows_expect_name [intro]: "expect_name p = (w, q) \<Longrightarrow> grows p 0 q"
  by (simp add: expect_name_def grows_expect)

lemma grows_expect_punct [simp, intro]: "grows p 0 (expect_punct s p)"
  using grows_expect [of T_PUNCTUATOR "Some (u s)" p] by (cases "expect T_PUNCTUATOR (Some (u s)) p") (simp add: expect_punct_def)

lemma expect_less: "expect ty v p = (w, q) \<Longrightarrow> ct p \<noteq> T_EOF \<Longrightarrow> left q < left p"
  using adv_left_less [of p] adv_left_less [of "push_error m p" for m] by (auto simp: expect_def split: if_splits)

lemma expect_name_less: "expect_name p = (w, q) \<Longrightarrow> ct p \<noteq> T_EOF \<Longrightarrow> left q < left p"
  by (simp add: expect_name_def expect_less)

lemma grows_left: "grows p k q \<Longrightarrow> left q \<le> left p"
  by (simp add: grows_def)

lemma grows_eof: "grows p k q \<Longrightarrow> eof_ok p \<Longrightarrow> eof_ok q"
  by (simp add: grows_def)

text \<open>A step that takes at least the current token.\<close>

definition eats :: "Parser \<Rightarrow> nat \<Rightarrow> Parser \<Rightarrow> bool" where
  "eats p k q \<longleftrightarrow> grows p k q \<and> (ct p \<noteq> T_EOF \<longrightarrow> left q < left p)"

lemma eats_grows [intro]: "eats p k q \<Longrightarrow> grows p k q"
  by (simp add: eats_def)

lemma eats_then: "eats p j q \<Longrightarrow> grows q k r \<Longrightarrow> eats p (j + k) r"
  using grows_trans by (fastforce simp: eats_def dest: grows_left)

lemma eats_adv: "grows (adv p) k q \<Longrightarrow> eats p k q"
  using grows_left [of "adv p" k q] adv_left_less [of p] grows_trans0(1) [OF grows_adv]
  by (auto simp: eats_def)

lemma eats_error: "grows (adv (push_error m p)) k q \<Longrightarrow> eats p k q"
  using eats_adv [of "push_error m p" k q] grows_trans0(1) [OF grows_push_error]
  by (auto simp: eats_def)

lemma eats_name: "expect_name p = (w, r) \<Longrightarrow> grows r k q \<Longrightarrow> eats p k q"
  using grows_left [of r k q] expect_name_less [of p w r] grows_trans0(1) [OF grows_expect_name]
  by (auto simp: eats_def)

lemmas parser_splits = if_split_asm prod.split_asm Option.bind_split_asm

section \<open>Values\<close>

lemma value_grows:
  "parseValue n p = Some (v, q) \<Longrightarrow> eats p 0 q"
  "parse_values n p = Some (vs, q) \<Longrightarrow> grows p 0 q"
  "parse_fields n fs p = Some (fs', q) \<Longrightarrow> grows p 0 q"
proof (induction n arbitrary: p v q vs fs fs')
  case (Suc n)
  note IH = Suc.IH
  {
    case 1
    have vs: "eats p 0 (expect_punct '']'' r)" if "parse_values n (adv p) = Some (ws, r)" for ws r
      by (rule eats_adv [OF grows_trans0(1) [OF IH(2) [OF that] grows_expect_punct]])
    have fs: "eats p 0 (expect_punct ''}'' r)" if "parse_fields n [] (adv p) = Some (ws, r)" for ws r
      by (rule eats_adv [OF grows_trans0(1) [OF IH(3) [OF that] grows_expect_punct]])
    have name: "eats p 0 r" if "expect_name (adv p) = (w, r)" for w r
      by (rule eats_adv [OF grows_expect_name [OF that]])
    show ?case
      using 1 vs fs name eats_adv [OF grows_refl, of p] eats_error [OF grows_refl, of p]
      by (auto split: parser_splits)
  next
    case 2
    show ?case
      using 2 IH(2) grows0_trans [OF eats_grows [OF IH(1)]]
      by (auto simp: bind_eq_Some_conv split: if_splits)
  next
    case 3
    show ?case
    proof (cases "at_end ''}'' p")
      case False
      with 3 obtain w r v s where k: "expect_name p = (w, r)"
        and v: "parseValue n (expect_punct '':'' r) = Some (v, s)" and r: "parse_fields n (set_field fs w v) s = Some (fs', q)"
        by (auto simp: bind_eq_Some_conv split: prod.splits)
      have "grows p 0 s"
        using grows0_trans [OF grows0_trans [OF grows_expect_name [OF k] grows_expect_punct] eats_grows [OF IH(1) [OF v]]] .
      from grows0_trans [OF this IH(3) [OF r]] show ?thesis .
    qed (use 3 in simp)
  }
qed simp_all

text \<open>Fuel of twice the text that is left is enough for a value.\<close>

lemma grows_ok: "grows p k q \<Longrightarrow> eof_ok p \<Longrightarrow> left p \<le> m \<Longrightarrow> eof_ok q \<and> left q \<le> m"
  by (auto dest: grows_left grows_eof)

lemma eats_less: "eats p k q \<Longrightarrow> ct p \<noteq> T_EOF \<Longrightarrow> left q < left p"
  by (simp add: eats_def)

lemma name_then_punct:
  assumes "expect_name p = (w, q)"
  shows "eats p 0 (expect_punct s q)" "eof_ok (expect_punct s q)"
proof -
  show "eats p 0 (expect_punct s q)" by (rule eats_name [OF assms grows_expect_punct])
  show "eof_ok (expect_punct s q)" by (simp add: expect_punct_def expect_def)
qed

lemma value_returns:
  "2 * left p + 1 \<le> n \<Longrightarrow> eof_ok p \<Longrightarrow> \<exists>r. parseValue n p = Some r"
  "2 * left p + 2 \<le> n \<Longrightarrow> eof_ok p \<Longrightarrow> \<exists>r. parse_values n p = Some r"
  "2 * left p + 2 \<le> n \<Longrightarrow> eof_ok p \<Longrightarrow> \<exists>r. parse_fields n fs p = Some r"
proof (induction n arbitrary: p fs)
  case (Suc n)
  note IH = Suc.IH
  {
    case 1
    have "\<exists>r. parse_values n (adv p) = Some r" "\<exists>r. parse_fields n [] (adv p) = Some r" if "ct p \<noteq> T_EOF"
      using 1(1) adv_left_less [OF that] by (intro IH(2,3); simp)+
    then show ?case
      using 1(2) by (auto split: prod.split)
  next
    case 2
    show ?case
    proof (cases "at_end '']'' p")
      case False
      then have ne: "ct p \<noteq> T_EOF" by (simp add: at_end_def)
      obtain v q where v: "parseValue n p = Some (v, q)"
        using IH(1) [of p] 2 by auto
      note e = value_grows(1) [OF v]
      have "2 * left q + 2 \<le> n" "eof_ok q"
        using eats_less [OF e ne] grows_eof [OF eats_grows [OF e]] 2 by auto
      from IH(2) [OF this] v False show ?thesis by auto
    qed simp
  next
    case 3
    show ?case
    proof (cases "at_end ''}'' p")
      case False
      then have ne: "ct p \<noteq> T_EOF" by (simp add: at_end_def)
      obtain key q where k: "expect_name p = (key, q)" by (cases "expect_name p")
      note e = name_then_punct [OF k, of "'':''"]
      obtain v r where v: "parseValue n (expect_punct '':'' q) = Some (v, r)"
        using IH(1) [OF _ e(2)] eats_less [OF e(1) ne] 3(1) by auto
      note g = eats_grows [OF value_grows(1) [OF v]]
      have "2 * left r + 2 \<le> n" "eof_ok r"
        using eats_less [OF e(1) ne] grows_left [OF g] grows_eof [OF g e(2)] 3(1) by auto
      from IH(3) [OF this] v k False show ?thesis by auto
    qed simp
  }
qed simp_all

section \<open>Arguments and directives\<close>

lemma arguments_grows: "parse_arguments n p = Some (as, q) \<Longrightarrow> grows p 0 q"
proof (induction n arbitrary: p as q)
  case (Suc n)
  show ?case
  proof (cases "at_end '')'' p")
    case False
    with Suc.prems obtain w r v s bs where k: "expect_name p = (w, r)"
      and v: "parseValue n (expect_punct '':'' r) = Some (v, s)" and "parse_arguments n s = Some (bs, q)"
      by (auto simp: bind_eq_Some_conv split: prod.splits)
    then show ?thesis
      using grows0_trans [OF grows0_trans [OF eats_grows [OF name_then_punct(1) [OF k]] eats_grows [OF value_grows(1) [OF v]]]] Suc.IH
      by blast
  qed (use Suc.prems in simp)
qed simp

lemma arguments_returns: "2 * left p + 2 \<le> n \<Longrightarrow> eof_ok p \<Longrightarrow> \<exists>r. parse_arguments n p = Some r"
proof (induction n arbitrary: p)
  case (Suc n)
  show ?case
  proof (cases "at_end '')'' p")
    case False
    then have ne: "ct p \<noteq> T_EOF" by (simp add: at_end_def)
    obtain key q where k: "expect_name p = (key, q)" by (cases "expect_name p")
    note e = name_then_punct [OF k, of "'':''"]
    obtain v r where v: "parseValue n (expect_punct '':'' q) = Some (v, r)"
      using value_returns(1) [OF _ e(2), of n] eats_less [OF e(1) ne] Suc.prems(1) by auto
    note g = eats_grows [OF value_grows(1) [OF v]]
    have "2 * left r + 2 \<le> n" "eof_ok r"
      using eats_less [OF e(1) ne] grows_left [OF g] grows_eof [OF g e(2)] Suc.prems(1) by auto
    from Suc.IH [OF this] v k False show ?thesis by auto
  qed simp
qed simp

lemma argument_list_grows:
  "(if b then do { (as, a) \<leftarrow> parse_arguments n (adv r); Some (as, expect_punct '')'' a) } else Some ([], r)) = Some (args, q)
   \<Longrightarrow> grows r 0 q"
  using grows0_trans [OF grows0_trans [OF grows_adv arguments_grows] grows_expect_punct]
  by (auto simp: bind_eq_Some_conv split: if_splits)

lemma argument_list_returns:
  assumes "2 * left r + 2 \<le> n" "eof_ok r"
  shows "\<exists>x. (if b then do { (as, a) \<leftarrow> parse_arguments n (adv r); Some (as, expect_punct '')'' a) } else Some ([], r)) = Some x"
  using arguments_returns [of "adv r" n] adv_left_le [of r] assms by auto

lemma skip_parens_grows: "skip_parens n d p = Some q \<Longrightarrow> grows p 0 q"
  by (induction n arbitrary: d p) (auto split: if_split_asm intro: grows0_trans [OF grows_adv])

lemma skip_parens_returns: "left p < n \<Longrightarrow> \<exists>q. skip_parens n d p = Some q"
proof (induction n arbitrary: d p)
  case (Suc n)
  then show ?case using adv_left_less [of p] by auto
qed simp

lemma directive_arguments_grows:
  "(if b then skip_parens n d (adv r) else Some r) = Some s \<Longrightarrow> grows r 0 s"
  using grows0_trans [OF grows_adv skip_parens_grows] by (auto split: if_splits)

lemma directives_grows: "parse_directives n p = Some (ds, q) \<Longrightarrow> grows p 0 q"
proof (induction n arbitrary: p ds q)
  case (Suc n)
  show ?case
  proof (cases "cv p = u ''@''")
    case True
    with Suc.prems obtain w r s es where k: "expect_name (adv p) = (w, r)"
      and s: "(if cv r = u ''('' then skip_parens n 1 (adv r) else Some r) = Some s"
      and q: "parse_directives n s = Some (es, q)"
      by (auto simp: bind_eq_Some_conv split: prod.splits)
    have "grows p 0 s"
      using grows0_trans [OF eats_grows [OF eats_adv [OF grows_expect_name [OF k]]] directive_arguments_grows [OF s]] .
    from grows0_trans [OF this Suc.IH [OF q]] show ?thesis .
  qed (use Suc.prems in simp)
qed simp

lemma directives_returns: "left p + 1 \<le> n \<Longrightarrow> eof_ok p \<Longrightarrow> \<exists>r. parse_directives n p = Some r"
proof (induction n arbitrary: p)
  case (Suc n)
  show ?case
  proof (cases "cv p = u ''@''")
    case True
    with Suc.prems have ne: "ct p \<noteq> T_EOF" by simp
    obtain w r where k: "expect_name (adv p) = (w, r)" by (cases "expect_name (adv p)")
    have r: "left r < left p" "eof_ok r"
      using eats_less [OF eats_adv [OF grows_expect_name [OF k]] ne] grows_eof [OF grows_expect_name [OF k]] by simp_all
    have "\<exists>s. (if cv r = u ''('' then skip_parens n 1 (adv r) else Some r) = Some s"
      using skip_parens_returns [of "adv r" n 1] adv_left_le [of r] r(1) Suc.prems(1) by auto
    then obtain s where s: "(if cv r = u ''('' then skip_parens n 1 (adv r) else Some r) = Some s" by blast
    from directive_arguments_grows [OF s] have "left s + 1 \<le> n" "eof_ok s"
      using r Suc.prems(1) by (auto dest: grows_left grows_eof)
    from Suc.IH [OF this] k s True show ?thesis by auto
  qed simp
qed simp

section \<open>Selections\<close>

fun sel_aliases :: "GraphQLSelectionSet \<Rightarrow> nat" where
  "sel_aliases [] = 0"
| "sel_aliases (FragmentSpread name # sels) = sel_aliases sels"
| "sel_aliases (InlineFragment tc sub # sels) = sel_aliases sub + sel_aliases sels"
| "sel_aliases (Field al name args dirs sub # sels) =
     (if al = None then 0 else 1) + (case sub of Some ss \<Rightarrow> sel_aliases ss | None \<Rightarrow> 0) + sel_aliases sels"

abbreviation set_aliases :: "GraphQLSelectionSet option \<Rightarrow> nat" where
  "set_aliases so \<equiv> (case so of Some ss \<Rightarrow> sel_aliases ss | None \<Rightarrow> 0)"

abbreviation one_aliases :: "GraphQLSelection option \<Rightarrow> nat" where
  "one_aliases so \<equiv> (case so of Some x \<Rightarrow> sel_aliases [x] | None \<Rightarrow> 0)"

lemma sel_aliases_Cons: "sel_aliases (x # xs) = sel_aliases [x] + sel_aliases xs"
  by (cases x) simp_all

lemma field_head_eats:
  assumes "field_head p = (al, nm, go, q)"
  shows "eats p (if al \<noteq> None \<and> go then 1 else 0) q"
proof (cases "cv (adv p) = u '':''")
  case True
  obtain w r where k: "expect_name (adv (adv p)) = (w, r)" by (cases "expect_name (adv (adv p))")
  let ?r = "r\<lparr>ps_aliasCount := Suc (ps_aliasCount r)\<rparr>"
  have r: "grows (adv p) 0 r"
    using grows0_trans [OF grows_adv grows_expect_name [OF k]] .
  have same: "left ?r = left r" "eof_ok ?r = eof_ok r" by (simp_all add: left_def eof_ok_def ct_def cv_def)
  have "grows r (if go then 1 else 0) q"
    using assms True k same by (auto simp: field_head_def Let_def grows_def split: if_splits)
  moreover have "al \<noteq> None" using assms True k by (auto simp: field_head_def Let_def split: if_splits)
  ultimately show ?thesis using eats_adv [OF grows_trans0(1) [OF r]] by auto
next
  case False
  with assms show ?thesis by (auto simp: field_head_def Let_def intro: eats_adv)
qed

lemma selection_grows:
  "parseSelectionSet n p = Some (so, q) \<Longrightarrow> grows p (set_aliases so) q"
  "parse_selections n p = Some (ss, q) \<Longrightarrow> grows p (sel_aliases ss) q"
  "parse_spread n p = Some (x, q) \<Longrightarrow> grows p (one_aliases x) q"
  "parseField n p = Some (x, q) \<Longrightarrow> eats p (one_aliases x) q"
proof (induction n arbitrary: p so q ss x)
  case (Suc n)
  note IH = Suc.IH
  {
    case 1
    then show ?case
      using grows_trans0(2) [OF grows_trans0(1) [OF grows_adv IH(2)] grows_expect_punct]
      by (auto simp: bind_eq_Some_conv split: if_splits)
  next
    case 2
    show ?case
    proof (cases "at_end ''}'' p")
      case False
      with 2 obtain y r ts where
        y: "(if cv p = u ''...'' then parse_spread n (adv p) else parseField n p) = Some (y, r)"
        and ts: "parse_selections n r = Some (ts, q)" and ss: "ss = (case y of Some x \<Rightarrow> x # ts | None \<Rightarrow> ts)"
        by (auto simp: bind_eq_Some_conv)
      have "grows p (one_aliases y) r"
        using y grows_trans0(1) [OF grows_adv IH(3)] eats_grows [OF IH(4)] by (auto split: if_splits)
      from grows_trans [OF this IH(2) [OF ts]] show ?thesis
        by (cases y) (simp_all add: ss sel_aliases_Cons [of _ ts])
    qed (use 2 in simp)
  next
    case 3
    have sub: "grows p (one_aliases (map_option (InlineFragment tc) so)) q"
      if "grows p 0 r" "parseSelectionSet n r = Some (so, q)" for tc so r
      using grows_trans0(1) [OF that(1) IH(1) [OF that(2)]] by (cases so) simp_all
    have on: "grows p 0 r" if "expect_name (adv p) = (w, r)" for w r
      by (rule grows0_trans [OF grows_adv grows_expect_name [OF that]])
    show ?case
      using 3 sub sub [OF grows_refl] on by (auto simp: bind_eq_Some_conv split: if_splits prod.splits)
  next
    case 4
    show ?case
    proof (cases "ct p = T_NAME")
      case True
      obtain al nm go r where h: "field_head p = (al, nm, go, r)" by (cases "field_head p")
      note e = field_head_eats [OF h]
      show ?thesis
      proof (cases go)
        case True
        with 4 \<open>ct p = T_NAME\<close> h obtain args a dirs d so where
          "(if cv r = u ''('' then do { (as, a) \<leftarrow> parse_arguments n (adv r); Some (as, expect_punct '')'' a) }
            else Some ([], r)) = Some (args, a)" and d: "parse_directives n a = Some (dirs, d)"
          and "(if cv d = u ''{'' then parseSelectionSet n d else Some (None, d)) = Some (so, q)"
          and x: "x = Some (Field al nm args dirs so)"
          by (auto simp: bind_eq_Some_conv)
        then have "grows r 0 a" "grows d (set_aliases so) q"
          using argument_list_grows [of "cv r = u ''(''" n r args a] IH(1) by (auto split: if_splits)
        then have "grows r (set_aliases so) q"
          using grows_trans0(1) [OF grows0_trans [OF _ directives_grows [OF d]]] by blast
        from eats_then [OF e this] True show ?thesis by (cases al) (simp_all add: x)
      qed (use 4 \<open>ct p = T_NAME\<close> h e in auto)
    qed (use 4 eats_error [OF grows_refl] in auto)
  }
qed simp_all

lemma selection_set_eats:
  assumes "parseSelectionSet n p = Some (so, q)" "cv p = u ''{''"
  shows "eats p (set_aliases so) q"
proof (cases n)
  case (Suc m)
  with assms obtain ss r where "parse_selections m (adv p) = Some (ss, r)" "so = Some ss" "q = expect_punct ''}'' r"
    by (auto simp: bind_eq_Some_conv)
  then show ?thesis using eats_adv [OF grows_trans0(2) [OF selection_grows(2) grows_expect_punct]] by simp
qed (use assms in simp)

text \<open>Three units of fuel per character are enough for a selection set.\<close>

lemma selection_returns:
  "3 * left p + 2 \<le> n \<Longrightarrow> eof_ok p \<Longrightarrow> \<exists>r. parseSelectionSet n p = Some r"
  "3 * left p + 4 \<le> n \<Longrightarrow> eof_ok p \<Longrightarrow> \<exists>r. parse_selections n p = Some r"
  "3 * left p + 3 \<le> n \<Longrightarrow> eof_ok p \<Longrightarrow> \<exists>r. parse_spread n p = Some r"
  "3 * left p + 3 \<le> n \<Longrightarrow> eof_ok p \<Longrightarrow> \<exists>r. parseField n p = Some r"
proof (induction n arbitrary: p)
  case (Suc n)
  note IH = Suc.IH
  {
    case 1
    have "\<exists>r. parse_selections n (adv p) = Some r" if "ct p \<noteq> T_EOF"
      using 1(1) adv_left_less [OF that] by (intro IH(2); simp)
    then show ?case using 1(2) by auto
  next
    case 2
    show ?case
    proof (cases "at_end ''}'' p")
      case False
      then have ne: "ct p \<noteq> T_EOF" by (simp add: at_end_def)
      have "\<exists>r. parse_spread n (adv p) = Some r" "\<exists>r. parseField n p = Some r"
        using 2 adv_left_less [OF ne] by (intro IH(3,4); simp)+
      then obtain y q where y: "(if cv p = u ''...'' then parse_spread n (adv p) else parseField n p) = Some (y, q)"
        by (cases "cv p = u ''...''") auto
      have e: "eats p (one_aliases y) q"
        using y selection_grows(4) eats_adv [OF selection_grows(3)] by (auto split: if_splits)
      have "3 * left q + 4 \<le> n" "eof_ok q"
        using eats_less [OF e ne] grows_eof [OF eats_grows [OF e]] 2 by auto
      from IH(2) [OF this] y False show ?thesis by auto
    qed simp
  next
    case 3
    obtain w r where k: "expect_name (adv p) = (w, r)" by (cases "expect_name (adv p)")
    have "\<exists>x. parseSelectionSet n r = Some x" if "ct p \<noteq> T_EOF"
      using 3 eats_less [OF eats_adv [OF grows_expect_name [OF k]] that] grows_eof [OF grows_expect_name [OF k]]
      by (intro IH(1); simp)
    moreover have "\<exists>x. parseSelectionSet n p = Some x" using 3 by (intro IH(1); simp)
    ultimately show ?case using 3(2) k by auto
  next
    case 4
    show ?case
    proof (cases "ct p = T_NAME")
      case True
      obtain al nm go r where h: "field_head p = (al, nm, go, r)" by (cases "field_head p")
      note e = field_head_eats [OF h]
      have r: "left r < left p" "eof_ok r"
        using eats_less [OF e] True grows_eof [OF eats_grows [OF e] 4(2)] by simp_all
      obtain args a where
        a: "(if cv r = u ''('' then do { (as, a) \<leftarrow> parse_arguments n (adv r); Some (as, expect_punct '')'' a) }
            else Some ([], r)) = Some (args, a)"
        using argument_list_returns [of r n "cv r = u ''(''"] r 4(1) by force
      note ga = argument_list_grows [OF a]
      obtain dirs d where d: "parse_directives n a = Some (dirs, d)"
        using directives_returns [of a n] grows_left [OF ga] grows_eof [OF ga r(2)] r(1) 4(1) by auto
      note gd = grows0_trans [OF ga directives_grows [OF d]]
      have "\<exists>x. parseSelectionSet n d = Some x"
        using grows_left [OF gd] grows_eof [OF gd r(2)] r(1) 4(1) by (intro IH(1); simp)
      with h a d True show ?thesis by auto
    qed simp
  }
qed simp_all

section \<open>Documents\<close>

lemma typeRef_grows:
  assumes "parseTypeRef p = (t, q)"
  shows "grows p 0 q"
proof -
  have opt: "grows r 0 (if b then adv r else r)" for b r by simp
  obtain w1 r1 where 1: "expect_name (adv p) = (w1, r1)" by (cases "expect_name (adv p)")
  obtain w2 r2 where 2: "expect_name p = (w2, r2)" by (cases "expect_name p")
  have lst: "grows p 0 (expect_punct '']'' (if b then adv r1 else r1))" for b
    by (rule grows0_trans [OF grows0_trans [OF grows0_trans [OF grows_adv grows_expect_name [OF 1]] opt] grows_expect_punct])
  show ?thesis
    using assms 1 2 lst [of True] lst [of False] grows_expect_name [OF 2]
      grows0_trans [OF lst [of True] grows_adv] grows0_trans [OF lst [of False] grows_adv]
      grows0_trans [OF grows_expect_name [OF 2] grows_adv]
    by (auto simp: parseTypeRef_def Let_def split: if_splits)
qed

lemma variable_eats: "parseVariableDefinition n p = Some (vd, q) \<Longrightarrow> eats p 0 q"
proof (cases "cv p = u ''$''")
  case True
  assume v: "parseVariableDefinition n p = Some (vd, q)"
  obtain w r where k: "expect_name (adv p) = (w, r)" by (cases "expect_name (adv p)")
  obtain t s where t: "parseTypeRef (expect_punct '':'' r) = (t, s)" by (cases "parseTypeRef (expect_punct '':'' r)")
  have s: "grows (adv p) 0 s"
    using grows0_trans [OF grows0_trans [OF grows_expect_name [OF k] grows_expect_punct] typeRef_grows [OF t]] .
  have "grows s 0 q"
    using v True k t grows0_trans [OF grows_adv eats_grows [OF value_grows(1)]]
    by (cases t) (auto simp: parseVariableDefinition_def bind_eq_Some_conv split: if_splits)
  from eats_adv [OF grows0_trans [OF s this]] show ?thesis .
next
  case False
  assume "parseVariableDefinition n p = Some (vd, q)"
  with False eats_error [OF grows_refl] show ?thesis by (auto simp: parseVariableDefinition_def)
qed

lemma variable_returns:
  assumes "2 * left p + 1 \<le> n" "eof_ok p"
  shows "\<exists>r. parseVariableDefinition n p = Some r"
proof -
  obtain w r where k: "expect_name (adv p) = (w, r)" by (cases "expect_name (adv p)")
  obtain t s where t: "parseTypeRef (expect_punct '':'' r) = (t, s)" by (cases "parseTypeRef (expect_punct '':'' r)")
  have s: "grows p 0 s"
    using grows0_trans [OF grows0_trans [OF grows0_trans [OF grows_adv grows_expect_name [OF k]] grows_expect_punct]
        typeRef_grows [OF t]] .
  have "\<exists>v. parseValue n (adv s) = Some v"
    using grows_left [OF s] adv_left_le [of s] assms(1) by (intro value_returns(1)) simp_all
  then show ?thesis using k t by (cases t) (auto simp: parseVariableDefinition_def)
qed

lemma variables_grows: "parse_variables n p = Some (vds, q) \<Longrightarrow> grows p 0 q"
proof (induction n arbitrary: p vds q)
  case (Suc n)
  then show ?case
    using grows0_trans [OF eats_grows [OF variable_eats]]
    by (auto simp: bind_eq_Some_conv split: if_splits)
qed simp

lemma variables_returns: "2 * left p + 2 \<le> n \<Longrightarrow> eof_ok p \<Longrightarrow> \<exists>r. parse_variables n p = Some r"
proof (induction n arbitrary: p)
  case (Suc n)
  show ?case
  proof (cases "at_end '')'' p")
    case False
    then have ne: "ct p \<noteq> T_EOF" by (simp add: at_end_def)
    obtain v q where v: "parseVariableDefinition n p = Some (v, q)"
      using variable_returns [of p n] Suc.prems by auto
    note e = variable_eats [OF v]
    have "2 * left q + 2 \<le> n" "eof_ok q"
      using eats_less [OF e ne] grows_eof [OF eats_grows [OF e]] Suc.prems by auto
    from Suc.IH [OF this] v False show ?thesis by auto
  qed simp
qed simp

abbreviation op_aliases :: "GraphQLOperationDefinition option \<Rightarrow> nat" where
  "op_aliases x \<equiv> (case x of Some d \<Rightarrow> sel_aliases (op_selectionSet d) | None \<Rightarrow> 0)"

abbreviation frag_aliases :: "GraphQLFragmentDefinition option \<Rightarrow> nat" where
  "frag_aliases x \<equiv> (case x of Some f \<Rightarrow> sel_aliases (fr_selectionSet f) | None \<Rightarrow> 0)"

lemma variable_list_grows:
  "(if b then do { (vs, a) \<leftarrow> parse_variables n (adv p); Some (vs, expect_punct '')'' a) } else Some ([], p)) = Some (vds, q)
   \<Longrightarrow> grows p 0 q"
  using grows0_trans [OF grows0_trans [OF grows_adv variables_grows] grows_expect_punct]
  by (auto simp: bind_eq_Some_conv split: if_splits)

lemma operation_rest_grows:
  assumes "operation_rest n kind name p = Some (x, q)"
  shows "grows p (op_aliases x) q"
proof -
  obtain vds r so where v: "(if cv p = u ''('' then do { (vs, a) \<leftarrow> parse_variables n (adv p); Some (vs, expect_punct '')'' a) }
      else Some ([], p)) = Some (vds, r)" and ss: "parseSelectionSet n r = Some (so, q)"
    and x: "x = map_option (\<lambda>ss. \<lparr>op_kind = kind, op_name = name, op_variableDefinitions = vds, op_selectionSet = ss\<rparr>) so"
    using assms by (auto simp: operation_rest_def bind_eq_Some_conv)
  from grows_trans0(1) [OF variable_list_grows [OF v] selection_grows(1) [OF ss]] show ?thesis
    by (cases so) (simp_all add: x)
qed

lemma operation_rest_returns:
  assumes "3 * left p + 2 \<le> n" "eof_ok p"
  shows "\<exists>x. operation_rest n kind name p = Some x"
proof -
  obtain vds r where v: "(if cv p = u ''('' then do { (vs, a) \<leftarrow> parse_variables n (adv p); Some (vs, expect_punct '')'' a) }
      else Some ([], p)) = Some (vds, r)"
    using variables_returns [of "adv p" n] adv_left_le [of p] assms by fastforce
  note g = variable_list_grows [OF v]
  obtain so q where "parseSelectionSet n r = Some (so, q)"
    using selection_returns(1) [of r n] grows_left [OF g] grows_eof [OF g] assms by auto
  with v show ?thesis by (auto simp: operation_rest_def)
qed

lemma operation_eats:
  assumes "parseOperation n p = Some (x, q)"
  shows "eats p (op_aliases x) q"
proof (cases "keyword_kind (cv p)")
  case (Some kind)
  then show ?thesis
    using assms eats_adv [OF operation_rest_grows] eats_adv [OF grows_trans0(1) [OF grows_adv operation_rest_grows]]
    by (auto simp: parseOperation_def Let_def split: if_splits)
next
  case None
  show ?thesis
  proof (cases "cv p = u ''{''")
    case True
    with None assms obtain so where so: "parseSelectionSet n p = Some (so, q)" and x:
      "x = map_option (\<lambda>ss. \<lparr>op_kind = Query, op_name = None, op_variableDefinitions = [], op_selectionSet = ss\<rparr>) so"
      by (auto simp: parseOperation_def operation_rest_def bind_eq_Some_conv u_def)
    from selection_set_eats [OF so True] show ?thesis by (cases so) (simp_all add: x)
  qed (use assms None eats_error [OF grows_refl] in \<open>auto simp: parseOperation_def\<close>)
qed

lemma operation_returns:
  assumes "3 * left p + 2 \<le> n" "eof_ok p"
  shows "\<exists>x. parseOperation n p = Some x"
proof -
  have r: "\<exists>x. operation_rest n kind name q = Some x" if "grows p 0 q" for kind name q
    using grows_left [OF that] grows_eof [OF that] assms by (intro operation_rest_returns) simp_all
  show ?thesis
    using r [OF grows_refl] r [OF grows_adv] r [OF grows0_trans [OF grows_adv grows_adv]]
    by (simp add: parseOperation_def Let_def split: option.split)
qed

lemma fragment_head:
  assumes "expect T_NAME (Some (u ''fragment'')) p = (w1, p1)" "expect_name p1 = (w2, p2)"
    "expect T_NAME (Some (u ''on'')) p2 = (w3, p3)" "expect_name p3 = (w4, p4)"
  shows "eats p 0 p4"
proof -
  have "grows p1 0 p4"
    using grows0_trans [OF grows0_trans [OF grows_expect_name [OF assms(2)] grows_expect [OF assms(3)]]
        grows_expect_name [OF assms(4)]] .
  then show ?thesis
    using eats_then [of p 0 p1 0 p4] expect_less [OF assms(1)] grows_expect [OF assms(1)] by (simp add: eats_def)
qed

lemma fragment_eats:
  assumes "parseFragmentDefinition n p = Some (x, q)"
  shows "eats p (frag_aliases x) q"
proof -
  obtain w1 p1 w2 p2 w3 p3 w4 p4 where e: "expect T_NAME (Some (u ''fragment'')) p = (w1, p1)" "expect_name p1 = (w2, p2)"
    "expect T_NAME (Some (u ''on'')) p2 = (w3, p3)" "expect_name p3 = (w4, p4)"
    by (meson surj_pair)
  with assms obtain so where so: "parseSelectionSet n p4 = Some (so, q)"
    and x: "x = map_option (\<lambda>ss. \<lparr>fr_name = w2, fr_typeCondition = w4, fr_selectionSet = ss\<rparr>) so"
    by (auto simp: parseFragmentDefinition_def Let_def bind_eq_Some_conv)
  from eats_then [OF fragment_head [OF e] selection_grows(1) [OF so]] show ?thesis
    by (cases so) (simp_all add: x)
qed

lemma fragment_returns:
  assumes "3 * left p + 2 \<le> n" "eof_ok p"
  shows "\<exists>x. parseFragmentDefinition n p = Some x"
proof -
  obtain w1 p1 w2 p2 w3 p3 w4 p4 where e: "expect T_NAME (Some (u ''fragment'')) p = (w1, p1)" "expect_name p1 = (w2, p2)"
    "expect T_NAME (Some (u ''on'')) p2 = (w3, p3)" "expect_name p3 = (w4, p4)"
    by (meson surj_pair)
  note g = eats_grows [OF fragment_head [OF e]]
  have "\<exists>r. parseSelectionSet n p4 = Some r"
    using grows_left [OF g] grows_eof [OF g] assms by (intro selection_returns(1)) simp_all
  with e show ?thesis by (auto simp: parseFragmentDefinition_def Let_def)
qed

definition doc_aliases :: "GraphQLDocument \<Rightarrow> nat" where
  "doc_aliases doc =
     sum_list (map (\<lambda>d. sel_aliases (op_selectionSet d)) (doc_operations doc)) +
     sum_list (map (\<lambda>(name, f). sel_aliases (fr_selectionSet f)) (doc_fragments doc))"

lemma add_fragment_grows:
  assumes "add_fragment (doc_fragments doc) x p = (frs, q)"
  shows "grows p 0 q" "doc_aliases (doc\<lparr>doc_fragments := frs\<rparr>) \<le> doc_aliases doc + frag_aliases x"
  using assms
  by (auto simp: add_fragment_def doc_aliases_def map_set_fresh map_of_eq_None_iff split: option.splits if_splits)

lemma definitions_grows:
  "parse_definitions n doc p = Some (doc', q) \<Longrightarrow> \<exists>k. grows p k q \<and> doc_aliases doc' \<le> doc_aliases doc + k"
proof (induction n arbitrary: doc p)
  case (Suc n)
  have chain: ?case if "parse_definitions n d r = Some (doc', q)" "grows p j r" "doc_aliases d \<le> doc_aliases doc + j" for d r j
    using Suc.IH [OF that(1)] grows_trans [OF that(2)] that(3) by fastforce
  consider (stop) "ct p = T_EOF" | (frag) "ct p \<noteq> T_EOF" "cv p = u ''fragment''"
    | (op) "ct p \<noteq> T_EOF" "cv p \<noteq> u ''fragment''" by blast
  then show ?case
  proof cases
    case stop
    with Suc.prems show ?thesis by (auto intro: exI [of _ 0])
  next
    case frag
    with Suc.prems obtain x r where x: "parseFragmentDefinition n p = Some (x, r)"
      by (auto simp: bind_eq_Some_conv)
    obtain frs s where f: "add_fragment (doc_fragments doc) x r = (frs, s)" by (meson surj_pair)
    have rest: "parse_definitions n (doc\<lparr>doc_fragments := frs\<rparr>) s = Some (doc', q)"
      using Suc.prems frag x f by simp
    note a = add_fragment_grows [OF f]
    show ?thesis by (rule chain [OF rest grows_trans0(2) [OF eats_grows [OF fragment_eats [OF x]] a(1)] a(2)])
  next
    case op
    with Suc.prems obtain x r where x: "parseOperation n p = Some (x, r)"
      and rest: "parse_definitions n (case x of Some y \<Rightarrow> doc\<lparr>doc_operations := doc_operations doc @ [y]\<rparr> | None \<Rightarrow> doc) r = Some (doc', q)"
      by (auto simp: bind_eq_Some_conv)
    show ?thesis
      by (rule chain [OF rest eats_grows [OF operation_eats [OF x]]]) (simp add: doc_aliases_def split: option.split)
  qed
qed simp

lemma definitions_returns: "3 * left p + 5 \<le> n \<Longrightarrow> eof_ok p \<Longrightarrow> \<exists>x. parse_definitions n doc p = Some x"
proof (induction n arbitrary: doc p)
  case (Suc n)
  have more: "\<exists>x. parse_definitions n d r = Some x" if "ct p \<noteq> T_EOF" "eats p k r" for d r k
    using Suc.prems eats_less [OF that(2,1)] grows_eof [OF eats_grows [OF that(2)]] by (intro Suc.IH) simp_all
  obtain x r where x: "parseFragmentDefinition n p = Some (x, r)"
    using fragment_returns [of p n] Suc.prems by auto
  obtain frs s where f: "add_fragment (doc_fragments doc) x r = (frs, s)" by (meson surj_pair)
  have "eats p (frag_aliases x) s"
    using eats_then [OF fragment_eats [OF x] add_fragment_grows(1) [OF f]] by simp
  note frag = more [OF _ this]
  obtain y t where y: "parseOperation n p = Some (y, t)"
    using operation_returns [of p n] Suc.prems by auto
  note op = more [OF _ operation_eats [OF y]]
  show ?case using frag op x f y by auto
qed simp

lemma new_Parser_ok:
  "left (new_Parser src d a) \<le> length src" "eof_ok (new_Parser src d a)"
  "ps_errors (new_Parser src d a) = []" "ps_aliasCount (new_Parser src d a) = 0"
  "ps_maxDepth (new_Parser src d a) = d" "ps_maxAliases (new_Parser src d a) = a"
  using lex_next_progress [of "\<lparr>lx_rest = src, lx_line = 1, lx_column = 1\<rparr>"]
  by (auto simp: new_Parser_def left_def eof_ok_def ct_def cv_def split: prod.splits)

section \<open>The parser returns, within its limits\<close>

text \<open>
  Property C33: the parser returns a result on every source text: its soft recovery from errors
  never stays in front of the same token for ever.
\<close>

theorem parseDocument_returns: "\<exists>r. parseDocument source maxDepth maxAliases = Some r"
proof -
  define p where "p = new_Parser source (case maxDepth of None \<Rightarrow> 5 | Some d \<Rightarrow> d) (case maxAliases of None \<Rightarrow> 50 | Some a \<Rightarrow> a)"
  have "3 * left p + 5 \<le> parse_fuel source" "eof_ok p"
    using new_Parser_ok(1) [of source] by (simp_all add: p_def new_Parser_ok(2) parse_fuel_def add_le_mono)
  from definitions_returns [OF this, of "\<lparr>doc_operations = [], doc_fragments = []\<rparr>"] show ?thesis
    by (auto simp: parseDocument_def parse_def p_def)
qed

text \<open>
  A document the parser accepts has at most as many aliased fields, in its operations
  and fragments together, as the limit allows (50 by default).
\<close>

theorem parseDocument_alias_limit:
  assumes "parseDocument source maxDepth maxAliases = Some (ParseOk doc)"
  shows "doc_aliases doc \<le> (case maxAliases of None \<Rightarrow> 50 | Some a \<Rightarrow> a)"
proof -
  define p where "p = new_Parser source (case maxDepth of None \<Rightarrow> 5 | Some d \<Rightarrow> d) (case maxAliases of None \<Rightarrow> 50 | Some a \<Rightarrow> a)"
  from assms obtain q where d: "parse_definitions (parse_fuel source) \<lparr>doc_operations = [], doc_fragments = []\<rparr> p = Some (doc, q)"
    and e: "ps_errors q = []"
    by (auto simp: parseDocument_def parse_def p_def bind_eq_Some_conv split: if_splits option.splits)
  from definitions_grows [OF d] obtain k where g: "grows p k q" and k: "doc_aliases doc \<le> k"
    by (auto simp: doc_aliases_def)
  have "k \<le> ps_aliasCount q" "ps_aliasCount q \<le> ps_maxAliases p"
    using g e by (simp_all add: grows_def p_def new_Parser_ok)
  with k show ?thesis by (simp add: p_def new_Parser_ok)
qed

theorem parseDocument_alias_limit_witness:
  "\<exists>doc. parseDocument (u ''{a:b ...F} fragment F on T{c:d}'') None (Some 2) = Some (ParseOk doc) \<and> doc_aliases doc \<le> 2"
proof -
  let ?doc = "\<lparr>doc_operations = [\<lparr>op_kind = Query, op_name = None, op_variableDefinitions = [],
      op_selectionSet = [Field (Some (u ''a'')) (u ''b'') [] [] None, FragmentSpread (u ''F'')]\<rparr>],
    doc_fragments = [(u ''F'', \<lparr>fr_name = u ''F'', fr_typeCondition = u ''T'',
      fr_selectionSet = [Field (Some (u ''c'')) (u ''d'') [] [] None]\<rparr>)]\<rparr>"
  have "parseDocument (u ''{a:b ...F} fragment F on T{c:d}'') None (Some 2) = Some (ParseOk ?doc)"
    by code_simp
  with parseDocument_alias_limit [OF this] show ?thesis by auto
qed

end
