(* ===== verification/GraphqlDepth.thy ===== *)
theory GraphqlDepth
  imports GraphqlProperties
begin

text \<open>
  The depth limit of the GraphQL parser.  \<open>nested\<close> says what the limit is about, without visited
  sets and running maxima: a chain of fields and inline fragments, one inside the other, where the
  body of a fragment stands for its spread.  The depth calculation decides exactly whether such
  chains stay within a bound and no fragment reachable from the operation spreads itself.
\<close>

section \<open>Chains of nested selections\<close>

inductive nested :: "(utext, GraphQLFragmentDefinition) dict \<Rightarrow> GraphQLSelectionSet \<Rightarrow> nat \<Rightarrow> bool" for frs where
  nested_0: "nested frs sels 0"
| nested_leaf: "Field al nm args dirs sub \<in> set sels \<Longrightarrow> nested frs sels 1"
| nested_field: "Field al nm args dirs (Some ss) \<in> set sels \<Longrightarrow> nested frs ss n \<Longrightarrow> nested frs sels (Suc n)"
| nested_inline: "InlineFragment tc ss \<in> set sels \<Longrightarrow> nested frs ss n \<Longrightarrow> nested frs sels (Suc n)"
| nested_spread: "FragmentSpread nm \<in> set sels \<Longrightarrow> map_of frs nm = Some f \<Longrightarrow> nested frs (fr_selectionSet f) n \<Longrightarrow>
    nested frs sels n"

text \<open>The fragments that a selection set spreads, directly or inside fields and inline fragments.\<close>

inductive spreads :: "GraphQLSelectionSet \<Rightarrow> utext \<Rightarrow> bool" where
  spreads_here: "FragmentSpread nm \<in> set sels \<Longrightarrow> spreads sels nm"
| spreads_field: "Field al fn args dirs (Some ss) \<in> set sels \<Longrightarrow> spreads ss nm \<Longrightarrow> spreads sels nm"
| spreads_inline: "InlineFragment tc ss \<in> set sels \<Longrightarrow> spreads ss nm \<Longrightarrow> spreads sels nm"

text \<open>A path of spreads from a selection set to a fragment that is defined.\<close>

inductive expands :: "(utext, GraphQLFragmentDefinition) dict \<Rightarrow> GraphQLSelectionSet \<Rightarrow> utext \<Rightarrow> bool" for frs where
  expands_one: "spreads sels nm \<Longrightarrow> map_of frs nm = Some f \<Longrightarrow> expands frs sels nm"
| expands_step: "spreads sels nm \<Longrightarrow> map_of frs nm = Some f \<Longrightarrow> expands frs (fr_selectionSet f) nm' \<Longrightarrow> expands frs sels nm'"

definition cyclic :: "(utext, GraphQLFragmentDefinition) dict \<Rightarrow> GraphQLSelectionSet \<Rightarrow> bool" where
  "cyclic frs sels \<longleftrightarrow>
     (\<exists>nm f. expands frs sels nm \<and> map_of frs nm = Some f \<and> expands frs (fr_selectionSet f) nm)"

section \<open>The loop over the selections\<close>

text \<open>The depth below one selection.\<close>

definition sel_depth :: "(utext, GraphQLFragmentDefinition) dict \<Rightarrow> nat \<Rightarrow> utext set \<Rightarrow> GraphQLSelection \<Rightarrow> enat" where
  "sel_depth frs cur vis sel =
     (case sel of
        FragmentSpread nm \<Rightarrow>
          if nm \<in> vis then \<infinity>
          else (case map_of frs nm of None \<Rightarrow> 0 | Some f \<Rightarrow> selectionSetDepth (fr_selectionSet f) frs cur (insert nm vis))
      | InlineFragment tc ss \<Rightarrow> selectionSetDepth ss frs (Suc cur) vis
      | Field al nm args dirs sub \<Rightarrow>
          max (enat (Suc cur)) (case sub of None \<Rightarrow> 0 | Some ss \<Rightarrow> selectionSetDepth ss frs (Suc cur) vis))"

lemma depth_loop_le:
  "depth_loop frs cur vis sels m \<le> d \<longleftrightarrow> m \<le> d \<and> (\<forall>sel \<in> set sels. sel_depth frs cur vis sel \<le> d)"
proof (induction sels arbitrary: m)
  case (Cons sel sels)
  show ?case
  proof (cases sel)
    case (Field al nm args dirs sub)
    then show ?thesis
      by (cases sub) (auto simp: Cons sel_depth_def selectionSetDepth_def Let_def)
  next
    case (InlineFragment tc ss)
    then show ?thesis by (auto simp: Cons sel_depth_def selectionSetDepth_def)
  next
    case (FragmentSpread nm)
    then show ?thesis
      by (cases "map_of frs nm") (auto simp: Cons sel_depth_def selectionSetDepth_def)
  qed
qed simp

lemma selectionSetDepth_le:
  "selectionSetDepth sels frs cur vis \<le> d \<longleftrightarrow> enat cur \<le> d \<and> (\<forall>sel \<in> set sels. sel_depth frs cur vis sel \<le> d)"
  unfolding selectionSetDepth_def by (rule depth_loop_le)

lemma depth_below:
  assumes "selectionSetDepth sels frs cur vis \<le> d"
  shows "Field al nm args dirs sub \<in> set sels \<Longrightarrow> enat (Suc cur) \<le> d"
    and "Field al nm args dirs (Some ss) \<in> set sels \<Longrightarrow> selectionSetDepth ss frs (Suc cur) vis \<le> d"
    and "InlineFragment tc ss \<in> set sels \<Longrightarrow> selectionSetDepth ss frs (Suc cur) vis \<le> d"
    and "FragmentSpread nm \<in> set sels \<Longrightarrow> map_of frs nm = Some f \<Longrightarrow> d \<noteq> \<infinity> \<Longrightarrow>
      nm \<notin> vis \<and> selectionSetDepth (fr_selectionSet f) frs cur (insert nm vis) \<le> d"
  using assms unfolding selectionSetDepth_le [of sels]
  by (force simp: sel_depth_def split: if_splits)+

section \<open>What a finite depth means\<close>

lemma depth_bounds_nested:
  "nested frs sels n \<Longrightarrow> selectionSetDepth sels frs cur vis \<le> enat b \<Longrightarrow> cur + n \<le> b"
proof (induction arbitrary: cur vis rule: nested.induct)
  case (nested_0 sels)
  then show ?case by (simp add: selectionSetDepth_le)
next
  case (nested_leaf al nm args dirs sub sels)
  then show ?case using depth_below(1) by fastforce
next
  case (nested_field al nm args dirs ss sels n)
  then show ?case using depth_below(2) by fastforce
next
  case (nested_inline tc ss sels n)
  then show ?case using depth_below(3) by fastforce
next
  case (nested_spread nm sels f n)
  then show ?case using depth_below(4) by blast
qed

lemma depth_spreads:
  "spreads sels nm \<Longrightarrow> selectionSetDepth sels frs cur vis \<le> enat b \<Longrightarrow> map_of frs nm = Some f \<Longrightarrow>
   nm \<notin> vis \<and> (\<exists>cur'. selectionSetDepth (fr_selectionSet f) frs cur' (insert nm vis) \<le> enat b)"
proof (induction arbitrary: cur rule: spreads.induct)
  case (spreads_here nm sels)
  then show ?case using depth_below(4) by blast
next
  case (spreads_field al fn args dirs ss sels nm)
  then show ?case using depth_below(2) by blast
next
  case (spreads_inline tc ss sels nm)
  then show ?case using depth_below(3) by blast
qed

lemma depth_expands:
  "expands frs sels nm \<Longrightarrow> selectionSetDepth sels frs cur vis \<le> enat b \<Longrightarrow>
   nm \<notin> vis \<and> (\<exists>f cur' vis'. map_of frs nm = Some f \<and> nm \<in> vis' \<and> selectionSetDepth (fr_selectionSet f) frs cur' vis' \<le> enat b)"
proof (induction arbitrary: cur vis rule: expands.induct)
  case (expands_one sels nm f)
  from depth_spreads [OF expands_one.hyps(1) expands_one.prems expands_one.hyps(2)] expands_one.hyps(2)
  show ?case by blast
next
  case (expands_step sels nm f nm')
  obtain cur' where "selectionSetDepth (fr_selectionSet f) frs cur' (insert nm vis) \<le> enat b"
    using depth_spreads [OF expands_step.hyps(1) expands_step.prems expands_step.hyps(2)] by blast
  from expands_step.IH [OF this] show ?case by blast
qed

lemma depth_acyclic: "selectionSetDepth sels frs cur vis \<le> enat b \<Longrightarrow> \<not> cyclic frs sels"
  unfolding cyclic_def using depth_expands by (metis option.inject)

section \<open>What a depth beyond the bound means\<close>

lemma expands_below: "(\<And>nm. spreads ss nm \<Longrightarrow> spreads sels nm) \<Longrightarrow> expands frs ss nm \<Longrightarrow> expands frs sels nm"
  by (erule expands.cases) (auto intro: expands.intros)

lemma cyclic_below: "(\<And>nm. expands frs ss nm \<Longrightarrow> expands frs sels nm) \<Longrightarrow> cyclic frs ss \<Longrightarrow> cyclic frs sels"
  unfolding cyclic_def by blast

text \<open>
  A chain beyond the bound, a way back to a fragment that is being expanded, or a cycle further on.
\<close>

definition too_deep :: "(utext, GraphQLFragmentDefinition) dict \<Rightarrow> nat \<Rightarrow> GraphQLSelectionSet \<Rightarrow> nat \<Rightarrow> utext set \<Rightarrow> bool" where
  "too_deep frs b sels cur vis \<longleftrightarrow>
     (\<exists>n. nested frs sels n \<and> b < cur + n) \<or> (\<exists>nm \<in> vis. expands frs sels nm) \<or> cyclic frs sels"

lemma too_deep_inside:
  assumes "\<And>n. nested frs ss n \<Longrightarrow> nested frs sels (Suc n)" "\<And>nm. spreads ss nm \<Longrightarrow> spreads sels nm"
    "too_deep frs b ss (Suc cur) vis"
  shows "too_deep frs b sels cur vis"
  using assms(1,3) expands_below [of ss sels, OF assms(2)] cyclic_below [of frs ss sels, OF expands_below [OF assms(2)]]
  unfolding too_deep_def by fastforce

lemma too_deep_spread:
  assumes "FragmentSpread nm \<in> set sels" "map_of frs nm = Some f" "too_deep frs b (fr_selectionSet f) cur (insert nm vis)"
  shows "too_deep frs b sels cur vis"
proof -
  have e: "expands frs (fr_selectionSet f) x \<Longrightarrow> expands frs sels x" "expands frs sels nm" for x
    using assms(1,2) by (auto intro: expands.intros spreads.intros)
  consider n where "nested frs (fr_selectionSet f) n" "b < cur + n" | "expands frs (fr_selectionSet f) nm"
    | x where "x \<in> vis" "expands frs (fr_selectionSet f) x" | "cyclic frs (fr_selectionSet f)"
    using assms(3) unfolding too_deep_def by blast
  then show ?thesis
  proof cases
    case 1
    then show ?thesis unfolding too_deep_def using nested_spread [OF assms(1,2)] by blast
  next
    case 2
    then show ?thesis unfolding too_deep_def cyclic_def using e(2) assms(2) by blast
  next
    case 3
    then show ?thesis unfolding too_deep_def using e(1) by blast
  next
    case 4
    then show ?thesis unfolding too_deep_def using cyclic_below [OF e(1)] by blast
  qed
qed

lemma deeper_is_too_deep:
  assumes "\<not> selectionSetDepth sels frs cur vis \<le> enat b" "vis \<subseteq> dom (map_of frs)"
  shows "too_deep frs b sels cur vis"
  using assms
proof (induction "(unexpanded frs vis, size_list size sels)" arbitrary: sels cur vis rule: wf_induct_rule [OF wf_lex_prod [OF wf_less wf_less]])
  case 1
  from "1.prems"(1) consider "b < cur" | sel where "sel \<in> set sels" "\<not> sel_depth frs cur vis sel \<le> enat b"
    by (auto simp: selectionSetDepth_le [of sels] not_le)
  then show ?case
  proof cases
    case 1
    then show ?thesis unfolding too_deep_def using nested_0 by force
  next
    case 2
    have smaller: "too_deep frs b ss (Suc cur) vis"
      if "size_list size ss < size sel" "\<not> selectionSetDepth ss frs (Suc cur) vis \<le> enat b" for ss
      using that(1) size_list_estimation [OF 2(1)] by (intro "1.hyps") (use that "1.prems" in auto)
    show ?thesis
    proof (cases sel)
      case (Field al nm args dirs sub)
      show ?thesis
      proof (cases "Suc cur \<le> b")
        case True
        with 2(2) Field obtain ss where ss: "sub = Some ss" "\<not> selectionSetDepth ss frs (Suc cur) vis \<le> enat b"
          by (auto simp: sel_depth_def split: option.splits)
        show ?thesis
          by (rule too_deep_inside [OF _ _ smaller])
            (use 2(1) Field ss in \<open>auto intro: nested_field spreads_field\<close>)
      next
        case False
        then show ?thesis unfolding too_deep_def using nested_leaf 2(1) Field by fastforce
      qed
    next
      case (InlineFragment tc ss)
      show ?thesis
        by (rule too_deep_inside [OF _ _ smaller])
          (use 2 InlineFragment in \<open>auto simp: sel_depth_def intro: nested_inline spreads_inline\<close>)
    next
      case (FragmentSpread nm)
      show ?thesis
      proof (cases "nm \<in> vis")
        case True
        with "1.prems"(2) obtain f where "map_of frs nm = Some f" by blast
        then show ?thesis
          unfolding too_deep_def using True 2(1) FragmentSpread by (auto intro: expands_one spreads_here)
      next
        case False
        with 2(2) FragmentSpread obtain f where f: "map_of frs nm = Some f"
          "\<not> selectionSetDepth (fr_selectionSet f) frs cur (insert nm vis) \<le> enat b"
          by (auto simp: sel_depth_def split: option.splits)
        have "too_deep frs b (fr_selectionSet f) cur (insert nm vis)"
          by (rule "1.hyps") (use f False "1.prems"(2) in \<open>auto simp: unexpanded_less\<close>)
        then show ?thesis using too_deep_spread 2(1) FragmentSpread f(1) by blast
      qed
    qed
  qed
qed

theorem depth_limit_decides:
  "selectionSetDepth sels frs 0 {} \<le> enat b \<longleftrightarrow> \<not> cyclic frs sels \<and> (\<forall>n. nested frs sels n \<longrightarrow> n \<le> b)"
  using depth_bounds_nested [of frs sels _ 0 "{}" b] depth_acyclic deeper_is_too_deep [of sels frs 0 "{}" b]
  by (auto simp: too_deep_def) (meson leD)

lemma check_depths_None:
  "check_depths d frs ops = None \<longleftrightarrow> (\<forall>op \<in> set ops. selectionSetDepth (op_selectionSet op) frs 0 {} \<le> enat d)"
  by (induction ops) (auto simp: Let_def not_less)

text \<open>
  Property C32: a document without syntax errors is accepted exactly when, for each of its operations,
  no fragment reachable from it spreads itself and no chain of nested fields and inline fragments,
  fragments expanded in place, is longer than the maximal depth.
\<close>

theorem parse_depth_exact:
  assumes "parse_definitions (parse_fuel source) \<lparr>doc_operations = [], doc_fragments = []\<rparr> (new_Parser source d a) = Some (doc, q)"
    and "ps_errors q = []"
  shows "parseDocument source (Some d) (Some a) = Some (ParseOk doc) \<longleftrightarrow>
    (\<forall>op \<in> set (doc_operations doc).
       \<not> cyclic (doc_fragments doc) (op_selectionSet op) \<and>
       (\<forall>n. nested (doc_fragments doc) (op_selectionSet op) n \<longrightarrow> n \<le> d))"
proof -
  have "ps_maxDepth q = d"
    using definitions_grows [OF assms(1)] by (auto simp: grows_def new_Parser_ok)
  then show ?thesis
    using assms check_depths_None [of d "doc_fragments doc" "doc_operations doc"]
    by (auto simp: parseDocument_def parse_def depth_limit_decides split: option.split)
qed

theorem parse_depth_exact_witness:
  "\<exists>doc. parseDocument (u ''{a ...F} fragment F on T{b{c}}'') (Some 2) (Some 0) = Some (ParseOk doc) \<and>
     \<not> cyclic (doc_fragments doc) (op_selectionSet (hd (doc_operations doc))) \<and>
     \<not> nested (doc_fragments doc) (op_selectionSet (hd (doc_operations doc))) 3"
proof -
  let ?src = "u ''{a ...F} fragment F on T{b{c}}''"
  let ?op = "\<lparr>op_kind = Query, op_name = None, op_variableDefinitions = [],
    op_selectionSet = [Field None (u ''a'') [] [] None, FragmentSpread (u ''F'')]\<rparr>"
  let ?doc = "\<lparr>doc_operations = [?op], doc_fragments = [(u ''F'', \<lparr>fr_name = u ''F'', fr_typeCondition = u ''T'',
      fr_selectionSet = [Field None (u ''b'') [] [] (Some [Field None (u ''c'') [] [] None])]\<rparr>)]\<rparr>"
  have "map_option (\<lambda>(doc, q). (doc, ps_errors q))
      (parse_definitions (parse_fuel ?src) \<lparr>doc_operations = [], doc_fragments = []\<rparr> (new_Parser ?src 2 0)) = Some (?doc, [])"
    by code_simp
  then obtain q where "parse_definitions (parse_fuel ?src) \<lparr>doc_operations = [], doc_fragments = []\<rparr> (new_Parser ?src 2 0) = Some (?doc, q)"
    "ps_errors q = []" by auto
  note exact = parse_depth_exact [OF this]
  have ok: "parseDocument ?src (Some 2) (Some 0) = Some (ParseOk ?doc)" by code_simp
  with exact have "\<not> cyclic (doc_fragments ?doc) (op_selectionSet ?op)" "\<not> nested (doc_fragments ?doc) (op_selectionSet ?op) 3"
    by auto
  with ok show ?thesis by auto
qed

section \<open>Where the parser is more lenient than its documentation\<close>

text \<open>A string literal that consists of a dollar sign is taken for the start of a variable.\<close>

lemma dollar_string_is_variable:
  "fst (the (parseValue 5 (new_Parser ([34, 36, 34] @ u '' x'') 5 50))) = Variable (u ''x'')"
  by code_simp

text \<open>A spread of a fragment that the document does not define is accepted by the parser.\<close>

lemma unknown_spread_accepted:
  "parseDocument (u ''{...F}'') None None =
     Some (ParseOk \<lparr>doc_operations = [\<lparr>op_kind = Query, op_name = None, op_variableDefinitions = [],
       op_selectionSet = [FragmentSpread (u ''F'')]\<rparr>], doc_fragments = []\<rparr>)"
  by code_simp

text \<open>A field named like a member of \<^verbatim>\<open>Object.prototype\<close> exists on every type, with any argument and sub-selection.\<close>

lemma inherited_field_valid:
  "inherited_name nm \<Longrightarrow> map_of parentFields nm = None \<Longrightarrow>
   validateSelectionSet parentFields schema doc path [Field al nm args dirs sub] = []"
  by (simp add: lookup_field_def)

lemma constructor_inherited: "inherited_name (u ''constructor'')"
  by code_simp

end
