(* ===== verification/StringOps.thy ===== *)
theory StringOps
  imports TransformEngine "HOL-Library.Sublist"
begin

text \<open>
  The string operations of \<^verbatim>\<open>services/pipeline/src/services/transform-engine.ts\<close> (\<^verbatim>\<open>stringOp\<close>), with the string methods of
  the language they use: \<^verbatim>\<open>replace\<close> and \<^verbatim>\<open>replaceAll\<close> of a text with their replacement patterns, and \<^verbatim>\<open>split\<close>.
\<close>

section \<open>String methods\<close>

text \<open>
  The replacement text for a match: \<^verbatim>\<open>$$\<close> is a dollar sign, \<^verbatim>\<open>$&\<close> the match, \<^verbatim>\<open>$`\<close> the text before and \<^verbatim>\<open>$'\<close> the text
  after it.  A search text has no groups, so everything else stands for itself.
\<close>

fun get_substitution :: "string \<Rightarrow> string \<Rightarrow> string \<Rightarrow> string \<Rightarrow> string" where
  "get_substitution before matched after (c # d # cs) =
     (if c = CHR ''$'' \<and> d = CHR ''$'' then CHR ''$'' # get_substitution before matched after cs
      else if c = CHR ''$'' \<and> d = CHR ''&'' then matched @ get_substitution before matched after cs
      else if c = CHR ''$'' \<and> d = CHR 0x60 then before @ get_substitution before matched after cs
      else if c = CHR ''$'' \<and> d = CHR 0x27 then after @ get_substitution before matched after cs
      else c # get_substitution before matched after (d # cs))"
| "get_substitution before matched after cs = cs"

fun replace_from :: "string \<Rightarrow> string \<Rightarrow> string \<Rightarrow> string \<Rightarrow> string" where
  "replace_from search repl before s =
     (if starts_with s search
      then get_substitution before search (drop (length search) s) repl @ drop (length search) s
      else case s of [] \<Rightarrow> [] | c # cs \<Rightarrow> c # replace_from search repl (before @ [c]) cs)"

definition js_replace :: "string \<Rightarrow> string \<Rightarrow> string \<Rightarrow> string" where
  "js_replace search repl s = replace_from search repl [] s"

lemma starts_with_shorter: "p \<noteq> [] \<Longrightarrow> starts_with s p \<Longrightarrow> length (drop (length p) s) < length s"
  unfolding starts_with_def by (cases s) auto

text \<open>
  Matches do not overlap; an empty search text matches before every character and at the end.
\<close>

function replace_all_from :: "string \<Rightarrow> string \<Rightarrow> string \<Rightarrow> string \<Rightarrow> string" where
  "replace_all_from search repl before s =
     (if search \<noteq> [] \<and> starts_with s search
      then let rest = drop (length search) s
           in get_substitution before search rest repl @ replace_all_from search repl (before @ search) rest
      else (if search = [] then get_substitution before [] s repl else []) @
           (case s of [] \<Rightarrow> [] | c # cs \<Rightarrow> c # replace_all_from search repl (before @ [c]) cs))"
  by pat_completeness auto
termination
  by (relation "measure (\<lambda>(search, repl, before, s). length s)") (auto simp del: length_drop simp: starts_with_shorter)

definition js_replaceAll :: "string \<Rightarrow> string \<Rightarrow> string \<Rightarrow> string" where
  "js_replaceAll search repl s = replace_all_from search repl [] s"

function split_from :: "string \<Rightarrow> string \<Rightarrow> string \<Rightarrow> string list" where
  "split_from sep part s =
     (if sep \<noteq> [] \<and> starts_with s sep then part # split_from sep [] (drop (length sep) s)
      else case s of [] \<Rightarrow> [part] | c # cs \<Rightarrow> split_from sep (part @ [c]) cs)"
  by pat_completeness auto
termination
  by (relation "measure (\<lambda>(sep, part, s). length s)") (auto simp del: length_drop simp: starts_with_shorter)

definition js_split :: "string \<Rightarrow> string \<Rightarrow> string list" where
  "js_split sep s = (if sep = [] then map (\<lambda>c. [c]) s else split_from sep [] s)"

section \<open>Operations\<close>

datatype StringOp =
    Trim
  | Uppercase
  | Lowercase
  | Replace (rp_search: string) (rp_replacement: string) (rp_replaceAll: "bool option")
  | Split (sp_separator: string) (sp_outputField: string) (sp_index: "jsnum option")

record StringOpSpec =
  so_field :: string
  so_operations :: "StringOp list"
  so_outputField :: "string option"

text \<open>\<^verbatim>\<open>parts[index] ?? null\<close>.\<close>

definition part_at :: "string list \<Rightarrow> jsnum \<Rightarrow> jsval" where
  "part_at parts n =
     (case n of
        Fin r \<Rightarrow> if r = of_int (rtrunc r) \<and> 0 \<le> r \<and> nat (rtrunc r) < length parts then VStr (parts ! nat (rtrunc r)) else VNull
      | _ \<Rightarrow> VNull)"

definition apply_op :: "nat \<Rightarrow> StringOp \<Rightarrow> string \<Rightarrow> jsval" where
  "apply_op i operation s =
     (case operation of
        Trim \<Rightarrow> VStr (js_trim s)
      | Uppercase \<Rightarrow> VStr (js_toUpperCase s)
      | Lowercase \<Rightarrow> VStr (js_toLowerCase s)
      | Replace search repl all \<Rightarrow> VStr (if all = Some True then js_replaceAll search repl s else js_replace search repl s)
      | Split sep outputField index \<Rightarrow>
          (case index of
             Some n \<Rightarrow> part_at (js_split sep s) n
           | None \<Rightarrow> VArr i (map VStr (js_split sep s))))"

text \<open>The chain stops at the first value that is not a string; \<open>i\<close> is the identity of a new array.\<close>

fun apply_ops :: "nat \<Rightarrow> StringOp list \<Rightarrow> jsval \<Rightarrow> jsval" where
  "apply_ops i (operation # ops) (VStr s) = apply_ops i ops (apply_op i operation s)"
| "apply_ops i ops v = v"

fun string_fields :: "nat \<Rightarrow> DataRecord \<Rightarrow> DataRecord \<Rightarrow> StringOpSpec list \<Rightarrow> DataRecord res" where
  "string_fields i record out [] = Inr out"
| "string_fields i record out (sp # sps) =
     (let raw = prop_get record (so_field sp);
          dest = (case so_outputField sp of Some d \<Rightarrow> d | None \<Rightarrow> so_field sp)
      in if is_nullish raw then string_fields i record (obj_set out dest VNull) sps
         else rbind (to_str raw) (\<lambda>s.
                string_fields i record (obj_set out dest (apply_ops i (so_operations sp) (VStr s))) sps))"

definition stringOp :: "nat \<Rightarrow> DataRecord list \<Rightarrow> StringOpSpec list \<Rightarrow> DataRecord list res" where
  "stringOp i records specs =
     (if specs = [] then Inl (TransformError ''stringOp requires at least one spec.'')
      else if list_ex (\<lambda>sp. so_operations sp = []) specs
      then Inl (TransformError ''stringOp: spec has no operations.'')
      else rmap (\<lambda>r. string_fields i r r specs) records)"

declare replace_from.simps [simp del] replace_all_from.simps [simp del] split_from.simps [simp del]

section \<open>Splitting and replacing\<close>

lemma starts_with_append: "starts_with s p \<longleftrightarrow> (\<exists>r. s = p @ r)"
  unfolding starts_with_def by (metis append_eq_conv_conj append_take_drop_id)

lemma split_from_unfold:
  "split_from sep part [] = [part]"
  "sep \<noteq> [] \<Longrightarrow> starts_with s sep \<Longrightarrow> split_from sep part s = part # split_from sep [] (drop (length sep) s)"
  "\<not> (sep \<noteq> [] \<and> starts_with (c # cs) sep) \<Longrightarrow> split_from sep part (c # cs) = split_from sep (part @ [c]) cs"
  by (subst split_from.simps, auto simp: starts_with_def)+

lemma replace_all_unfold:
  "sep \<noteq> [] \<Longrightarrow> replace_all_from sep repl before [] = []"
  "sep \<noteq> [] \<Longrightarrow> starts_with s sep \<Longrightarrow> replace_all_from sep repl before s =
     get_substitution before sep (drop (length sep) s) repl @ replace_all_from sep repl (before @ sep) (drop (length sep) s)"
  "sep \<noteq> [] \<Longrightarrow> \<not> starts_with (c # cs) sep \<Longrightarrow>
     replace_all_from sep repl before (c # cs) = c # replace_all_from sep repl (before @ [c]) cs"
  by (subst replace_all_from.simps, auto simp: starts_with_def Let_def)+

lemma split_from_nonempty [simp]: "split_from sep part s \<noteq> []"
  by (induction sep part s rule: split_from.induct) (subst split_from.simps, auto split: list.split)

lemma join_with_step: "ws \<noteq> [] \<Longrightarrow> join_with sep (w # ws) = w @ sep @ join_with sep ws"
  by (cases ws) auto

text \<open>Without a dollar sign the replacement is inserted as it is, and replacing is splitting and joining.\<close>

lemma get_substitution_plain [simp]: "CHR ''$'' \<notin> set repl \<Longrightarrow> get_substitution before matched after repl = repl"
  by (induction before matched after repl rule: get_substitution.induct) auto

lemma split_from_join:
  assumes "sep \<noteq> []" "CHR ''$'' \<notin> set repl"
  shows "join_with repl (split_from sep part s) = part @ replace_all_from sep repl before s"
  using assms
proof (induction sep part s arbitrary: before rule: split_from.induct)
  case (1 sep part s)
  show ?case
  proof (cases "starts_with s sep")
    case True
    have "join_with repl (split_from sep [] (drop (length sep) s)) =
        [] @ replace_all_from sep repl (before @ sep) (drop (length sep) s)"
      by (rule "1.IH"(1)) (use "1.prems" True in auto)
    with True "1.prems" show ?thesis
      by (simp add: split_from_unfold replace_all_unfold join_with_step)
  next
    case False
    show ?thesis
    proof (cases s)
      case Nil
      with False Nil "1.prems" show ?thesis
        by (simp add: split_from_unfold replace_all_unfold)
    next
      case (Cons c cs)
      have "join_with repl (split_from sep (part @ [c]) cs) = (part @ [c]) @ replace_all_from sep repl (before @ [c]) cs"
        by (rule "1.IH"(2)) (use "1.prems" False Cons in auto)
      with False Cons "1.prems" show ?thesis
        by (simp add: split_from_unfold replace_all_unfold)
    qed
  qed
qed

lemma replaceAll_split_join:
  assumes "search \<noteq> []" "CHR ''$'' \<notin> set repl"
  shows "js_replaceAll search repl s = join_with repl (js_split search s)"
  using split_from_join [OF assms, of "[]" s "[]"] assms(1) by (simp add: js_replaceAll_def js_split_def)

text \<open>No part contains the separator, because the scan stops at the first place where it occurs.\<close>

definition no_start_in :: "string \<Rightarrow> string \<Rightarrow> string \<Rightarrow> bool" where
  "no_start_in sep part s \<longleftrightarrow> (\<forall>pre u. part = pre @ u \<and> u \<noteq> [] \<longrightarrow> \<not> starts_with (u @ s) sep)"

lemma no_start_inside: "no_start_in sep part s \<Longrightarrow> sep \<noteq> [] \<Longrightarrow> \<not> str_includes part sep"
  by (fastforce simp: no_start_in_def str_includes_iff starts_with_append)

lemma no_start_in_step: "no_start_in sep part (c # cs) \<Longrightarrow> \<not> starts_with (c # cs) sep \<Longrightarrow> no_start_in sep (part @ [c]) cs"
  unfolding no_start_in_def
proof (intro allI impI)
  fix pre u
  assume h: "\<forall>pre u. part = pre @ u \<and> u \<noteq> [] \<longrightarrow> \<not> starts_with (u @ c # cs) sep"
    and n: "\<not> starts_with (c # cs) sep" and p: "part @ [c] = pre @ u \<and> u \<noteq> []"
  from p obtain w where "u = w @ [c]" "part = pre @ w"
    by (metis append_butlast_last_id append_assoc butlast_append butlast_snoc last_appendR last_snoc)
  with h n show "\<not> starts_with (u @ cs) sep" by (cases "w = []") auto
qed

lemma split_from_parts:
  "sep \<noteq> [] \<Longrightarrow> no_start_in sep part s \<Longrightarrow> w \<in> set (split_from sep part s) \<Longrightarrow> \<not> str_includes w sep"
proof (induction sep part s arbitrary: w rule: split_from.induct)
  case (1 sep part s)
  show ?case
  proof (cases "starts_with s sep")
    case True
    have "no_start_in sep [] (drop (length sep) s)" by (simp add: no_start_in_def)
    with True 1 no_start_inside show ?thesis
      by (auto simp: split_from_unfold)
  next
    case False
    then show ?thesis
      using 1 no_start_inside no_start_in_step
      by (cases s) (auto simp: split_from_unfold)
  qed
qed

lemma split_from_concat: "join_with sep (split_from sep part s) = part @ s"
proof (induction sep part s rule: split_from.induct)
  case (1 sep part s)
  show ?case
  proof (cases "sep \<noteq> [] \<and> starts_with s sep")
    case True
    then obtain r where "s = sep @ r" by (auto simp: starts_with_append)
    with 1 True show ?thesis by (simp add: split_from_unfold join_with_step)
  next
    case False
    with 1 show ?thesis by (cases s) (auto simp: split_from_unfold)
  qed
qed

text \<open>
  Splitting at a separator and joining the parts with it gives the text back, and no
  part contains the separator.
\<close>

theorem js_split_spec:
  assumes "sep \<noteq> []"
  shows "join_with sep (js_split sep s) = s \<and> list_all (\<lambda>w. \<not> str_includes w sep) (js_split sep s)"
  using assms split_from_concat [of sep "[]" s] split_from_parts [of sep "[]" s]
  by (auto simp: js_split_def list_all_iff no_start_in_def)

theorem js_split_spec_witness:
  "js_split '', '' ''a, b,, c'' = [''a'', ''b,'', ''c''] \<and> join_with '', '' (js_split '', '' ''a, b,, c'') = ''a, b,, c''"
  using js_split_spec [of "'', ''" "''a, b,, c''"] by (simp, code_simp)

text \<open>A replacement with a dollar sign is not inserted as it is.\<close>

lemma replacement_pattern: "js_replace ''x'' ''$&$&'' ''axb'' = ''axxb''"
  by code_simp

text \<open>The output field of a split operation is never read.\<close>

lemma split_output_field_ignored: "apply_op i (Split sep f idx) s = apply_op i (Split sep g idx) s"
  by (simp add: apply_op_def)

end
