(* ===== verification/RunService.thy ===== *)
theory RunService
  imports PipelineService ExecutionEngine
begin

text \<open>
  The run service of \<^verbatim>\<open>services/pipeline/src/services/run-service.ts\<close> over the tables of \<^verbatim>\<open>run-repository.ts\<close> and
  \<^verbatim>\<open>run-log-repository.ts\<close>, the job queue and the cancellation flags in Redis.  Ids and times are
  arguments, as is the answer of the queue to \<^verbatim>\<open>add\<close>: \<open>None\<close> when it rejects, otherwise the id of the job.
  \<open>triggerRun\<close> is the composition of its database steps, which are definitions of their own, because other
  requests run between them.
\<close>

section \<open>Rows\<close>

datatype TriggeredBy = ByManual | BySchedule | ByEvent | ByWebhook | ByService

record PipelineRun =
  pr_id :: string
  pr_pipeline_id :: string
  pr_tenant_id :: string
  pr_status :: RunStatus
  pr_triggered_by :: TriggeredBy
  pr_trigger_actor_id :: "string option"
  pr_trigger_meta :: props
  pr_input :: props
  pr_started_at :: "nat option"
  pr_completed_at :: "nat option"
  pr_error :: "props option"
  pr_bully_job_id :: "string option"
  pr_definition_snapshot :: PipelineDefinition
  pr_created_at :: nat

record UpdateRunData =
  ur_status :: "RunStatus option"
  ur_started_at :: "nat option"
  ur_completed_at :: "nat option"
  ur_error :: "props option option"
  ur_bully_job_id :: "string option"

datatype log_level = LogDebug | LogInfo | LogWarn | LogError

record RunLogRow =
  rl_id :: nat
  rl_run_id :: string
  rl_tenant_id :: string
  rl_step_id :: "string option"
  rl_level :: log_level
  rl_message :: string
  rl_details :: "props option"
  rl_created_at :: nat

text \<open>A flag in Redis is the time it was set at and the time it expires.\<close>

record RunDb =
  rd_pipelines :: "PipelineRow list"
  rd_runs :: "PipelineRun list"
  rd_steps :: "(string \<times> string \<times> RunStep) list"
  rd_logs :: "RunLogRow list"
  rd_queue :: "(string \<times> string) list"
  rd_flags :: "(string, nat \<times> nat) dict"

datatype run_error =
    RunPipelineNotFound string
  | PipelineInactiveError string
  | PipelineConcurrentRunError string nat
  | PipelineRunNotFoundError string
  | PipelineRunTerminalError string RunStatus
  | NoFieldsToUpdate string
  | QueueRejected

section \<open>Queries\<close>

definition run_findPipeline :: "RunDb \<Rightarrow> string \<Rightarrow> PipelineRow option" where
  "run_findPipeline db i = find (\<lambda>r. p_id r = i) (rd_pipelines db)"

definition run_findByTenantAndId :: "RunDb \<Rightarrow> string \<Rightarrow> string \<Rightarrow> PipelineRun option" where
  "run_findByTenantAndId db tenantId i = find (\<lambda>r. pr_id r = i \<and> pr_tenant_id r = tenantId) (rd_runs db)"

definition active_status :: "RunStatus \<Rightarrow> bool" where
  "active_status s \<longleftrightarrow> s = RunPending \<or> s = RunRunning"

definition run_countActive :: "RunDb \<Rightarrow> string \<Rightarrow> nat" where
  "run_countActive db i = length (filter (\<lambda>r. pr_pipeline_id r = i \<and> active_status (pr_status r)) (rd_runs db))"

text \<open>INSERT: the status is pending by default.\<close>

definition run_create ::
  "string \<Rightarrow> nat \<Rightarrow> string \<Rightarrow> string \<Rightarrow> TriggeredBy \<Rightarrow> string option \<Rightarrow> props \<Rightarrow> props \<Rightarrow> PipelineDefinition \<Rightarrow> PipelineRun" where
  "run_create newId now pipelineId tenantId triggeredBy actor meta input defn =
     \<lparr>pr_id = newId, pr_pipeline_id = pipelineId, pr_tenant_id = tenantId, pr_status = RunPending,
      pr_triggered_by = triggeredBy, pr_trigger_actor_id = actor, pr_trigger_meta = meta, pr_input = input,
      pr_started_at = None, pr_completed_at = None, pr_error = None, pr_bully_job_id = None,
      pr_definition_snapshot = defn, pr_created_at = now\<rparr>"

definition keep_old :: "'a option \<Rightarrow> 'a \<Rightarrow> 'a" where
  "keep_old new old = (case new of Some x \<Rightarrow> x | None \<Rightarrow> old)"

definition apply_run_update :: "UpdateRunData \<Rightarrow> PipelineRun \<Rightarrow> PipelineRun" where
  "apply_run_update d r =
     r\<lparr>pr_status := keep_old (ur_status d) (pr_status r),
       pr_started_at := keep_old (map_option Some (ur_started_at d)) (pr_started_at r),
       pr_completed_at := keep_old (map_option Some (ur_completed_at d)) (pr_completed_at r),
       pr_error := keep_old (ur_error d) (pr_error r),
       pr_bully_job_id := keep_old (map_option Some (ur_bully_job_id d)) (pr_bully_job_id r)\<rparr>"

definition no_update :: UpdateRunData where
  "no_update = \<lparr>ur_status = None, ur_started_at = None, ur_completed_at = None, ur_error = None, ur_bully_job_id = None\<rparr>"

definition run_updateStatus :: "string \<Rightarrow> UpdateRunData \<Rightarrow> RunDb \<Rightarrow> (run_error + PipelineRun option) \<times> RunDb" where
  "run_updateStatus i d db =
     (if d = no_update then (Inl (NoFieldsToUpdate i), db)
      else let rows = map (\<lambda>r. if pr_id r = i then apply_run_update d r else r) (rd_runs db)
           in (Inr (find (\<lambda>r. pr_id r = i) rows), db\<lparr>rd_runs := rows\<rparr>))"

text \<open>Rows before the cursor, newest first.\<close>

definition run_findByTenantId ::
  "RunDb \<Rightarrow> string \<Rightarrow> string option \<Rightarrow> RunStatus option \<Rightarrow> string option \<Rightarrow> nat \<Rightarrow> PipelineRun list" where
  "run_findByTenantId db tenantId cursor status pipelineId lmt =
     take lmt (rev (sort_key (\<lambda>r. (pr_created_at r, pr_id r))
       (filter (\<lambda>r. pr_tenant_id r = tenantId \<and> (\<forall>p \<in> set_option pipelineId. pr_pipeline_id r = p) \<and>
          (\<forall>s \<in> set_option status. pr_status r = s) \<and> (\<forall>c \<in> set_option cursor. pr_id r < c)) (rd_runs db))))"

definition log_findByRunId :: "RunDb \<Rightarrow> string \<Rightarrow> nat option \<Rightarrow> RunLogRow list" where
  "log_findByRunId db runId afterId =
     take 100 (sort_key rl_id
       (filter (\<lambda>l. rl_run_id l = runId \<and> (\<forall>a \<in> set_option afterId. a < rl_id l)) (rd_logs db)))"

section \<open>Operations\<close>

text \<open>The checks of \<^verbatim>\<open>triggerRun\<close>, up to the count of active runs.\<close>

definition trigger_check :: "RunDb \<Rightarrow> string \<Rightarrow> string \<Rightarrow> run_error + PipelineRow" where
  "trigger_check db pipelineId tenantId =
     (case run_findPipeline db pipelineId of
        None \<Rightarrow> Inl (RunPipelineNotFound pipelineId)
      | Some p \<Rightarrow>
          if p_tenant p \<noteq> tenantId then Inl (RunPipelineNotFound pipelineId)
          else if \<not> p_is_active p then Inl (PipelineInactiveError pipelineId)
          else if pd_allowConcurrentRuns (p_definition p) = Some False \<and> run_countActive db pipelineId > 0
          then Inl (PipelineConcurrentRunError pipelineId (run_countActive db pipelineId))
          else Inr p)"

text \<open>The run row, with the definition of the pipeline row read before.\<close>

definition trigger_insert ::
  "string \<Rightarrow> nat \<Rightarrow> PipelineRow \<Rightarrow> string \<Rightarrow> string \<Rightarrow> TriggeredBy \<Rightarrow> props \<Rightarrow> props \<Rightarrow> string option \<Rightarrow> RunDb \<Rightarrow> RunDb" where
  "trigger_insert newId now p pipelineId tenantId triggeredBy input meta actor db =
     db\<lparr>rd_runs := rd_runs db @ [run_create newId now pipelineId tenantId triggeredBy actor meta input (p_definition p)]\<rparr>"

text \<open>The job, and its id on the run row.\<close>

definition trigger_enqueue ::
  "string option option \<Rightarrow> string \<Rightarrow> string \<Rightarrow> RunDb \<Rightarrow> (run_error + string) \<times> RunDb" where
  "trigger_enqueue answer newId tenantId db =
     (case answer of
        None \<Rightarrow> (Inl QueueRejected, db)
      | Some jobId \<Rightarrow>
          let db' = db\<lparr>rd_queue := rd_queue db @ [(newId, tenantId)]\<rparr>
          in (Inr newId,
              case jobId of
                None \<Rightarrow> db'
              | Some j \<Rightarrow> snd (run_updateStatus newId (no_update\<lparr>ur_bully_job_id := Some j\<rparr>) db')))"

definition triggerRun ::
  "string \<Rightarrow> nat \<Rightarrow> string option option \<Rightarrow> string \<Rightarrow> string \<Rightarrow> TriggeredBy \<Rightarrow> props \<Rightarrow> props \<Rightarrow> string option \<Rightarrow> RunDb \<Rightarrow>
   (run_error + string) \<times> RunDb" where
  "triggerRun newId now answer pipelineId tenantId triggeredBy input meta actor db =
     (case trigger_check db pipelineId tenantId of
        Inl e \<Rightarrow> (Inl e, db)
      | Inr p \<Rightarrow>
          trigger_enqueue answer newId tenantId
            (trigger_insert newId now p pipelineId tenantId triggeredBy input meta actor db))"

record RunWithSteps =
  rw_run :: PipelineRun
  rw_steps :: "(string \<times> RunStep) list"
  rw_durationMs :: "int option"

definition getRun :: "RunDb \<Rightarrow> string \<Rightarrow> string \<Rightarrow> run_error + RunWithSteps" where
  "getRun db tenantId runId =
     (case run_findByTenantAndId db tenantId runId of
        None \<Rightarrow> Inl (PipelineRunNotFoundError runId)
      | Some run \<Rightarrow>
          Inr \<lparr>rw_run = run, rw_steps = map snd (filter (\<lambda>s. fst s = runId) (rd_steps db)),
               rw_durationMs = (case (pr_started_at run, pr_completed_at run) of
                                  (Some a, Some b) \<Rightarrow> Some (int b - int a) | _ \<Rightarrow> None)\<rparr>)"

definition listRuns ::
  "RunDb \<Rightarrow> string \<Rightarrow> string option \<Rightarrow> RunStatus option \<Rightarrow> string option \<Rightarrow> nat \<Rightarrow> PipelineRun list \<times> string option" where
  "listRuns db tenantId cursor status pipelineId lmt =
     (let rows = run_findByTenantId db tenantId cursor status pipelineId lmt
      in (rows, if length rows = lmt \<and> rows \<noteq> [] then Some (pr_id (last rows)) else None))"

definition CANCEL_FLAG_TTL_SECONDS :: nat where
  "CANCEL_FLAG_TTL_SECONDS = 3600"

definition TERMINAL_STATUSES :: "RunStatus list" where
  "TERMINAL_STATUSES = [RunCompleted, RunFailed, RunCancelled]"

definition cancelRun :: "nat \<Rightarrow> string \<Rightarrow> string \<Rightarrow> RunDb \<Rightarrow> (run_error + unit) \<times> RunDb" where
  "cancelRun now tenantId runId db =
     (case run_findByTenantAndId db tenantId runId of
        None \<Rightarrow> (Inl (PipelineRunNotFoundError runId), db)
      | Some run \<Rightarrow>
          if pr_status run \<in> set TERMINAL_STATUSES then (Inl (PipelineRunTerminalError runId (pr_status run)), db)
          else (Inr (), db\<lparr>rd_flags := map_set (rd_flags db) runId (now, now + 1000 * CANCEL_FLAG_TTL_SECONDS)\<rparr>))"

text \<open>What the worker reads between steps.\<close>

definition cancel_requested :: "nat \<Rightarrow> string \<Rightarrow> RunDb \<Rightarrow> bool" where
  "cancel_requested now runId db =
     (case map_of (rd_flags db) runId of None \<Rightarrow> False | Some (since, expires) \<Rightarrow> now < expires)"

definition getRunLogs :: "RunDb \<Rightarrow> string \<Rightarrow> nat option \<Rightarrow> RunLogRow list" where
  "getRunLogs db runId lastSeenId = log_findByRunId db runId lastSeenId"

definition replayRun ::
  "string \<Rightarrow> nat \<Rightarrow> string option option \<Rightarrow> string \<Rightarrow> string \<Rightarrow> string \<Rightarrow> string option \<Rightarrow> RunDb \<Rightarrow> (run_error + string) \<times> RunDb" where
  "replayRun newId now answer pipelineId tenantId executionId actor db =
     (case run_findByTenantAndId db tenantId executionId of
        None \<Rightarrow> (Inl (PipelineRunNotFoundError executionId), db)
      | Some run \<Rightarrow>
          if pr_pipeline_id run \<noteq> pipelineId then (Inl (PipelineRunNotFoundError executionId), db)
          else triggerRun newId now answer pipelineId tenantId ByManual (pr_input run)
                 [(''replayOf'', VStr executionId)] actor db)"

end
