(* ===== verification/RunServiceProperties.thy ===== *)
theory RunServiceProperties
  imports RunService
begin

text \<open>
  What the run service guarantees: when a trigger is admitted and what it leaves behind, isolation between
  tenants, replay with the same input, and at most one active run of a pipeline that asks for it as long as
  triggers do not overlap.  The last section shows what happens when they do, when the queue is
  down, and when a cancelled run does not look at its flag in time.
\<close>

section \<open>Triggering\<close>

definition trigger_admitted :: "RunDb \<Rightarrow> string \<Rightarrow> string \<Rightarrow> PipelineRow option" where
  "trigger_admitted db pipelineId tenantId =
     (case run_findPipeline db pipelineId of
        Some p \<Rightarrow>
          if p_tenant p = tenantId \<and> p_is_active p \<and>
             (pd_allowConcurrentRuns (p_definition p) \<noteq> Some False \<or> run_countActive db pipelineId = 0)
          then Some p else None
      | None \<Rightarrow> None)"

lemma trigger_check_admitted:
  "trigger_check db i t = Inr p \<longleftrightarrow> trigger_admitted db i t = Some p"
  "(\<exists>e. trigger_check db i t = Inl e) \<longleftrightarrow> trigger_admitted db i t = None"
  by (auto simp: trigger_check_def trigger_admitted_def split: option.splits)

lemma update_job_id:
  assumes "newId \<notin> pr_id ` set rs" "pr_id r = newId"
  shows "map (\<lambda>x. if pr_id x = newId then apply_run_update (no_update\<lparr>ur_bully_job_id := Some j\<rparr>) x else x) (rs @ [r]) =
    rs @ [r\<lparr>pr_bully_job_id := Some j\<rparr>]"
proof -
  have "map (\<lambda>x. if pr_id x = newId then f x else x) rs = rs" for f :: "PipelineRun \<Rightarrow> PipelineRun"
    using assms(1) by (intro map_idI) auto
  then show ?thesis
    using assms(2) by (simp add: apply_run_update_def no_update_def keep_old_def)
qed

lemma triggerRun_enqueued:
  assumes "newId \<notin> pr_id ` set (rd_runs db)" "trigger_admitted db i t = Some p"
  shows "triggerRun newId now (Some jobId) i t who input meta actor db =
    (Inr newId,
     db\<lparr>rd_runs := rd_runs db @ [(run_create newId now i t who actor meta input (p_definition p))\<lparr>pr_bully_job_id := jobId\<rparr>],
        rd_queue := rd_queue db @ [(newId, t)]\<rparr>)"
proof -
  have c: "trigger_check db i t = Inr p" using assms(2) by (simp add: trigger_check_admitted(1))
  let ?r = "run_create newId now i t who actor meta input (p_definition p)"
  have id: "pr_id ?r = newId" and none: "?r\<lparr>pr_bully_job_id := None\<rparr> = ?r" by (simp_all add: run_create_def)
  show ?thesis
  proof (cases jobId)
    case None
    then show ?thesis
      using none by (simp add: triggerRun_def c trigger_enqueue_def trigger_insert_def Let_def)
  next
    case (Some j)
    have "no_update\<lparr>ur_bully_job_id := Some j\<rparr> \<noteq> no_update" by (simp add: no_update_def)
    then show ?thesis
      using Some update_job_id [OF assms(1) id, of j]
      by (simp add: triggerRun_def c trigger_enqueue_def trigger_insert_def Let_def run_updateStatus_def)
  qed
qed

lemma triggerRun_refused: "trigger_admitted db i t = None \<Longrightarrow> \<exists>e. triggerRun newId now answer i t who input meta actor db = (Inl e, db)"
  using trigger_check_admitted(2) [of db i t] by (auto simp: triggerRun_def)

lemma triggerRun_rejected:
  "trigger_admitted db i t = Some p \<Longrightarrow> triggerRun newId now None i t who input meta actor db =
     (Inl QueueRejected, trigger_insert newId now p i t who input meta actor db)"
  using trigger_check_admitted(1) [of db i t p] by (simp add: triggerRun_def trigger_enqueue_def)


section \<open>Isolation between tenants\<close>

text \<open>What a tenant sees: its runs, its jobs, and the cancellation flags of its runs.\<close>

definition run_ids :: "RunDb \<Rightarrow> string set" where
  "run_ids db = pr_id ` set (rd_runs db)"

definition ids_unique :: "RunDb \<Rightarrow> bool" where
  "ids_unique db \<longleftrightarrow> distinct (map pr_id (rd_runs db))"

definition tenant_runs :: "string \<Rightarrow> RunDb \<Rightarrow> PipelineRun list" where
  "tenant_runs t db = filter (\<lambda>r. pr_tenant_id r = t) (rd_runs db)"

definition tenant_flags :: "string \<Rightarrow> RunDb \<Rightarrow> (string \<times> (nat \<times> nat) option) list" where
  "tenant_flags t db = map (\<lambda>r. (pr_id r, map_of (rd_flags db) (pr_id r))) (tenant_runs t db)"

definition run_view :: "string \<Rightarrow> RunDb \<Rightarrow> PipelineRun list \<times> (string \<times> string) list \<times> (string \<times> (nat \<times> nat) option) list" where
  "run_view t db = (tenant_runs t db, filter (\<lambda>j. snd j = t) (rd_queue db), tenant_flags t db)"

locale run_operation =
  fixes step :: "RunDb \<Rightarrow> RunDb" and owner :: string and fresh :: "RunDb \<Rightarrow> bool"
  assumes keeps_ids: "ids_unique db \<Longrightarrow> fresh db \<Longrightarrow> ids_unique (step db)"
    and isolates: "ids_unique db \<Longrightarrow> fresh db \<Longrightarrow> t \<noteq> owner \<Longrightarrow> run_view t (step db) = run_view t db"
begin

lemma keeps_view:
  assumes "ids_unique db" "fresh db" "t \<noteq> owner" "run_view t db = v"
  shows "ids_unique (step db) \<and> run_view t (step db) = v"
  using keeps_ids isolates assms by blast

end

lemma run_added:
  assumes "ids_unique db" "newId \<notin> run_ids db" "pr_id run = newId" "pr_tenant_id run = owner"
  shows "ids_unique (db\<lparr>rd_runs := rd_runs db @ [run], rd_queue := rd_queue db @ js\<rparr>)"
    and "t \<noteq> owner \<Longrightarrow> \<forall>j \<in> set js. snd j = owner \<Longrightarrow>
      run_view t (db\<lparr>rd_runs := rd_runs db @ [run], rd_queue := rd_queue db @ js\<rparr>) = run_view t db"
  using assms by (auto simp: ids_unique_def run_ids_def run_view_def tenant_runs_def tenant_flags_def filter_empty_conv)

lemma triggerRun_cases:
  assumes "newId \<notin> run_ids db"
  obtains "snd (triggerRun newId now answer i t who input meta actor db) = db"
  | run js where "pr_id run = newId" "pr_tenant_id run = t" "pr_pipeline_id run = i" "pr_status run = RunPending"
      "\<forall>j \<in> set js. snd j = t" "trigger_admitted db i t \<noteq> None" "pr_input run = input" "pr_trigger_meta run = meta"
      "snd (triggerRun newId now answer i t who input meta actor db) = db\<lparr>rd_runs := rd_runs db @ [run], rd_queue := rd_queue db @ js\<rparr>"
proof (cases "trigger_admitted db i t")
  case None
  with triggerRun_refused [OF None, of newId now answer who input meta actor] that(1) show ?thesis by auto
next
  case (Some p)
  let ?r = "run_create newId now i t who actor meta input (p_definition p)"
  show ?thesis
  proof (cases answer)
    case None
    have "snd (triggerRun newId now answer i t who input meta actor db) = db\<lparr>rd_runs := rd_runs db @ [?r], rd_queue := rd_queue db @ []\<rparr>"
      using None triggerRun_rejected [OF Some] by (simp add: trigger_insert_def)
    with Some show ?thesis by (intro that(2) [of ?r "[]"]) (simp_all add: run_create_def)
  next
    case (Some jobId)
    from triggerRun_enqueued [OF assms [unfolded run_ids_def] \<open>trigger_admitted db i t = Some p\<close>]
    have "snd (triggerRun newId now answer i t who input meta actor db) =
        db\<lparr>rd_runs := rd_runs db @ [?r\<lparr>pr_bully_job_id := jobId\<rparr>], rd_queue := rd_queue db @ [(newId, t)]\<rparr>"
      by (simp add: Some)
    with \<open>trigger_admitted db i t = Some p\<close> show ?thesis
      by (intro that(2) [of "?r\<lparr>pr_bully_job_id := jobId\<rparr>" "[(newId, t)]"]) (simp_all add: run_create_def)
  qed
qed

lemma triggerRun_operation:
  assumes "ids_unique db" "newId \<notin> run_ids db"
  shows "ids_unique (snd (triggerRun newId now answer i owner who input meta actor db))"
    and "t \<noteq> owner \<Longrightarrow> run_view t (snd (triggerRun newId now answer i owner who input meta actor db)) = run_view t db"
  by (rule triggerRun_cases [OF assms(2), of now answer i owner who input meta actor]; use assms run_added in auto)+

interpretation trigger: run_operation
  "\<lambda>db. snd (triggerRun newId now answer i owner who input meta actor db)" owner "\<lambda>db. newId \<notin> run_ids db"
  for newId now answer i owner who input meta actor
  by unfold_locales (simp_all add: triggerRun_operation)

lemma replayRun_cases:
  "snd (replayRun newId now answer i t e actor db) = db \<or>
   (\<exists>input meta. snd (replayRun newId now answer i t e actor db) = snd (triggerRun newId now answer i t ByManual input meta actor db))"
  by (auto simp: replayRun_def split: option.split)

interpretation replay: run_operation
  "\<lambda>db. snd (replayRun newId now answer i owner e actor db)" owner "\<lambda>db. newId \<notin> run_ids db"
  for newId now answer i owner e actor
proof
  fix db t
  assume h: "ids_unique db" "newId \<notin> run_ids db"
  show "ids_unique (snd (replayRun newId now answer i owner e actor db))"
    using replayRun_cases [of newId now answer i owner e actor db] h triggerRun_operation(1) [OF h] by auto
  show "t \<noteq> owner \<Longrightarrow> run_view t (snd (replayRun newId now answer i owner e actor db)) = run_view t db"
    using replayRun_cases [of newId now answer i owner e actor db] triggerRun_operation(2) [OF h] by auto
qed

lemma find_run:
  "run_findByTenantAndId db t i = Some r \<Longrightarrow> r \<in> set (rd_runs db) \<and> pr_id r = i \<and> pr_tenant_id r = t"
  by (auto simp: run_findByTenantAndId_def find_Some_iff)

interpretation cancel: run_operation "\<lambda>db. snd (cancelRun now owner runId db)" owner "\<lambda>_. True" for now owner runId
proof
  fix db t
  assume h: "ids_unique db"
  show "ids_unique (snd (cancelRun now owner runId db))"
    using h by (simp add: cancelRun_def ids_unique_def split: option.split)
  assume "t \<noteq> owner"
  have "pr_id x \<noteq> runId" if "run_findByTenantAndId db owner runId = Some r" "x \<in> set (tenant_runs t db)" for r x
    using find_run [OF that(1)] that(2) h \<open>t \<noteq> owner\<close>
    by (auto simp: tenant_runs_def ids_unique_def distinct_map dest: inj_onD)
  then show "run_view t (snd (cancelRun now owner runId db)) = run_view t db"
    by (auto simp: cancelRun_def run_view_def tenant_flags_def tenant_runs_def split: option.split)
qed

text \<open>A request of a tenant; the id of a new run is fresh in the database.\<close>

inductive request :: "string \<Rightarrow> RunDb \<Rightarrow> RunDb \<Rightarrow> bool" where
  req_trigger: "newId \<notin> run_ids db \<Longrightarrow> request t db (snd (triggerRun newId now answer i t who input meta actor db))"
| req_replay: "newId \<notin> run_ids db \<Longrightarrow> request t db (snd (replayRun newId now answer i t e actor db))"
| req_cancel: "request t db (snd (cancelRun now t runId db))"

definition others :: "string \<Rightarrow> RunDb \<Rightarrow> RunDb \<Rightarrow> bool" where
  "others t db db' \<longleftrightarrow> (\<exists>owner. owner \<noteq> t \<and> request owner db db')"

lemma request_isolates:
  "request owner db db' \<Longrightarrow> ids_unique db \<Longrightarrow> t \<noteq> owner \<Longrightarrow> ids_unique db' \<and> run_view t db' = run_view t db"
  by (induction rule: request.induct) (auto simp: trigger.keeps_view replay.keeps_view cancel.keeps_view)

text \<open>
  Whatever other tenants trigger, replay and cancel, a tenant's runs, queued jobs and cancellation flags
  stay as they are.
\<close>

theorem run_service_isolates:
  assumes "(others t)\<^sup>*\<^sup>* db db'" "ids_unique db"
  shows "run_view t db' = run_view t db"
proof -
  from assms have "ids_unique db' \<and> run_view t db' = run_view t db"
  proof (induction rule: rtranclp_induct)
    case (step b c)
    then show ?case using request_isolates [of _ b c t] by (auto simp: others_def)
  qed simp
  then show ?thesis ..
qed

section \<open>Replay\<close>

text \<open>
  A successful replay adds one pending run of the same pipeline and tenant with the input of the
  original run, linked to it, and leaves the original as it is.
\<close>

theorem replayRun_same_input:
  assumes "replayRun newId now (Some jobId) i t e actor db = (Inr runId, db')" "newId \<notin> run_ids db"
  shows "\<exists>orig run. orig \<in> set (rd_runs db) \<and> pr_id orig = e \<and> pr_tenant_id orig = t \<and> pr_pipeline_id orig = i \<and>
    runId = newId \<and> rd_runs db' = rd_runs db @ [run] \<and> pr_id run = newId \<and> pr_pipeline_id run = i \<and> pr_tenant_id run = t \<and>
    pr_status run = RunPending \<and> pr_input run = pr_input orig \<and> pr_trigger_meta run = [(''replayOf'', VStr e)]"
proof -
  from assms(1) obtain orig where o: "run_findByTenantAndId db t e = Some orig" "pr_pipeline_id orig = i"
    and r: "triggerRun newId now (Some jobId) i t ByManual (pr_input orig) [(''replayOf'', VStr e)] actor db = (Inr runId, db')"
    by (auto simp: replayRun_def split: option.splits if_splits)
  obtain p where p: "trigger_admitted db i t = Some p"
    using r triggerRun_refused [of db i t newId now "Some jobId" ByManual "pr_input orig" "[(''replayOf'', VStr e)]" actor]
    by (cases "trigger_admitted db i t") auto
  from r triggerRun_enqueued [OF assms(2) [unfolded run_ids_def] p, of now jobId ByManual "pr_input orig" "[(''replayOf'', VStr e)]" actor]
    find_run [OF o(1)] o(2)
  show ?thesis by (auto simp: run_create_def)
qed

section \<open>At most one active run\<close>

text \<open>
  Requests one after the other, a worker that starts pending runs and ends running ones, and edits of the
  pipeline table that keep the option of the pipeline in question.
\<close>

definition is_serial :: "string \<Rightarrow> RunDb \<Rightarrow> bool" where
  "is_serial i db \<longleftrightarrow> (\<forall>p. run_findPipeline db i = Some p \<longrightarrow> pd_allowConcurrentRuns (p_definition p) = Some False)"

definition set_status :: "string \<Rightarrow> RunStatus \<Rightarrow> RunDb \<Rightarrow> RunDb" where
  "set_status runId s db = snd (run_updateStatus runId (no_update\<lparr>ur_status := Some s\<rparr>) db)"

inductive serial_reachable :: "string \<Rightarrow> RunDb \<Rightarrow> bool" for i where
  sr_init: "rd_runs db = [] \<Longrightarrow> is_serial i db \<Longrightarrow> serial_reachable i db"
| sr_request: "serial_reachable i db \<Longrightarrow> request t db db' \<Longrightarrow> serial_reachable i db'"
| sr_start: "serial_reachable i db \<Longrightarrow> run \<in> set (rd_runs db) \<Longrightarrow> pr_status run = RunPending \<Longrightarrow>
    serial_reachable i (set_status (pr_id run) RunRunning db)"
| sr_end: "serial_reachable i db \<Longrightarrow> s \<in> set TERMINAL_STATUSES \<Longrightarrow> serial_reachable i (set_status runId s db)"
| sr_edit: "serial_reachable i db \<Longrightarrow> is_serial i (db\<lparr>rd_pipelines := ps\<rparr>) \<Longrightarrow> serial_reachable i (db\<lparr>rd_pipelines := ps\<rparr>)"

definition serial_inv :: "string \<Rightarrow> RunDb \<Rightarrow> bool" where
  "serial_inv i db \<longleftrightarrow> ids_unique db \<and> is_serial i db \<and> run_countActive db i \<le> 1"

lemma set_status_runs:
  "rd_runs (set_status j s db) = map (\<lambda>r. if pr_id r = j then r\<lparr>pr_status := s\<rparr> else r) (rd_runs db)"
  "rd_pipelines (set_status j s db) = rd_pipelines db"
  by (simp_all add: set_status_def run_updateStatus_def apply_run_update_def no_update_def keep_old_def Let_def cong: if_cong)

lemma set_status_ids [simp]: "ids_unique (set_status j s db) = ids_unique db" "is_serial i (set_status j s db) = is_serial i db"
proof -
  have eq: "map (pr_id \<circ> (\<lambda>r. if pr_id r = j then r\<lparr>pr_status := s\<rparr> else r)) rs = map pr_id rs" for rs by simp
  show "ids_unique (set_status j s db) = ids_unique db"
    by (simp only: ids_unique_def set_status_runs map_map eq)
  show "is_serial i (set_status j s db) = is_serial i db"
    by (simp add: is_serial_def run_findPipeline_def set_status_runs)
qed

lemma set_status_count:
  assumes "\<And>r. r \<in> set (rd_runs db) \<Longrightarrow> pr_id r = j \<Longrightarrow> active_status s \<Longrightarrow> active_status (pr_status r)"
  shows "run_countActive (set_status j s db) i \<le> run_countActive db i"
proof -
  have le: "length (filter (\<lambda>r. pr_pipeline_id r = i \<and> active_status (pr_status r)) (map (\<lambda>r. if pr_id r = j then r\<lparr>pr_status := s\<rparr> else r) rs))
      \<le> length (filter (\<lambda>r. pr_pipeline_id r = i \<and> active_status (pr_status r)) rs)"
    if "\<forall>r \<in> set rs. pr_id r = j \<longrightarrow> active_status s \<longrightarrow> active_status (pr_status r)" for rs
    using that by (induction rs) auto
  show ?thesis
    unfolding run_countActive_def set_status_runs by (rule le) (use assms in blast)
qed

lemma request_serial: "request t db db' \<Longrightarrow> serial_inv i db \<Longrightarrow> serial_inv i db'"
proof -
  have trig: "serial_inv i (snd (triggerRun newId now answer k t who input meta actor db))"
    if "serial_inv i db" "newId \<notin> run_ids db" for newId now answer k t who input meta actor db
  proof (rule triggerRun_cases [OF that(2), of now answer k t who input meta actor])
    fix run js
    assume r: "pr_id run = newId" "pr_pipeline_id run = k" "pr_status run = RunPending" "trigger_admitted db k t \<noteq> None"
      "snd (triggerRun newId now answer k t who input meta actor db) = db\<lparr>rd_runs := rd_runs db @ [run], rd_queue := rd_queue db @ js\<rparr>"
    have "run_countActive db i = 0" if "k = i"
      using r(4) \<open>serial_inv i db\<close> that by (auto simp: trigger_admitted_def serial_inv_def is_serial_def split: option.splits if_splits)
    then show ?thesis
      using r that
      by (auto simp: serial_inv_def is_serial_def run_findPipeline_def run_countActive_def ids_unique_def run_ids_def)
  qed (use that in simp)
  assume "request t db db'" "serial_inv i db"
  then show "serial_inv i db'"
  proof (induction rule: request.induct)
    case (req_trigger newId db t now answer k who input meta actor)
    then show ?case using trig by blast
  next
    case (req_replay newId db t now answer k e actor)
    then show ?case using trig replayRun_cases [of newId now answer k t e actor db] by metis
  next
    case (req_cancel t db now runId)
    then show ?case
      by (auto simp: cancelRun_def serial_inv_def ids_unique_def is_serial_def run_findPipeline_def run_countActive_def split: option.split)
  qed
qed

lemma serial_reachable_inv: "serial_reachable i db \<Longrightarrow> serial_inv i db"
proof (induction rule: serial_reachable.induct)
  case (sr_init db)
  then show ?case by (simp add: serial_inv_def ids_unique_def run_countActive_def)
next
  case (sr_request db t db')
  then show ?case using request_serial by blast
next
  case (sr_start db run)
  have "active_status (pr_status r)" if "r \<in> set (rd_runs db)" "pr_id r = pr_id run" for r
  proof -
    have "r = run" using sr_start that by (auto simp: serial_inv_def ids_unique_def distinct_map dest: inj_onD)
    with sr_start show ?thesis by (simp add: active_status_def)
  qed
  then have "run_countActive (set_status (pr_id run) RunRunning db) i \<le> run_countActive db i" by (intro set_status_count)
  with sr_start show ?case by (simp add: serial_inv_def)
next
  case (sr_end db s runId)
  then have "run_countActive (set_status runId s db) i \<le> run_countActive db i"
    by (intro set_status_count) (auto simp: TERMINAL_STATUSES_def active_status_def)
  with sr_end show ?case by (simp add: serial_inv_def)
next
  case (sr_edit db ps)
  then show ?case by (simp add: serial_inv_def ids_unique_def run_countActive_def)
qed

text \<open>
  Property C29: as long as triggers do not overlap, a pipeline that does not allow concurrent runs never has two active ones.
\<close>

theorem serial_pipeline_one_active:
  assumes "serial_reachable i db"
  shows "run_countActive db i \<le> 1"
  using serial_reachable_inv [OF assms] by (simp add: serial_inv_def)

section \<open>A concrete database\<close>

definition serial_def :: PipelineDefinition where
  "serial_def = \<lparr>pd_entryStepId = ''a'', pd_steps = [], pd_stepTimeout = None, pd_allowConcurrentRuns = Some False\<rparr>"

definition serial_row :: PipelineRow where
  "serial_row = \<lparr>p_id = ''p'', p_tenant = ''t'', p_name = ''P'', p_slug = ''ppp'', p_description = None, p_definition = serial_def,
     p_is_active = True, p_created_at = 0, p_updated_at = 0, p_created_by = ''u'', p_current_version = 0\<rparr>"

definition demo_runs :: RunDb where
  "demo_runs = \<lparr>rd_pipelines = [serial_row], rd_runs = [], rd_steps = [], rd_logs = [], rd_queue = [], rd_flags = []\<rparr>"

definition run_input :: props where
  "run_input = [(''n'', VNum (jint 1))]"

definition stored_run :: PipelineRun where
  "stored_run = (run_create ''r'' 7 ''p'' ''t'' ByManual None [] run_input serial_def)\<lparr>pr_bully_job_id := Some ''j''\<rparr>"

definition demo_triggered :: RunDb where
  "demo_triggered = demo_runs\<lparr>rd_runs := [stored_run], rd_queue := [(''r'', ''t'')]\<rparr>"

lemma demo_fresh [simp]: "rd_runs demo_runs = []" "run_ids demo_runs = {}" "ids_unique demo_runs"
  by (simp_all add: demo_runs_def run_ids_def ids_unique_def)

lemma demo_find: "run_findPipeline demo_runs ''p'' = Some serial_row" "run_countActive demo_runs i = 0"
  by (simp_all add: run_findPipeline_def demo_runs_def serial_row_def run_countActive_def)

lemma demo_admitted: "trigger_admitted demo_runs ''p'' ''t'' = Some serial_row"
  by (simp add: trigger_admitted_def demo_find) (simp add: serial_row_def)

lemma demo_trigger: "triggerRun ''r'' 7 (Some (Some ''j'')) ''p'' ''t'' ByManual run_input [] None demo_runs = (Inr ''r'', demo_triggered)"
  using triggerRun_enqueued [OF _ demo_admitted, of "''r''"]
  by (simp add: demo_triggered_def stored_run_def demo_runs_def serial_row_def)


theorem run_service_isolates_witness:
  "run_view ''other'' demo_triggered = run_view ''other'' demo_runs"
proof -
  have "request ''t'' demo_runs demo_triggered"
    using req_trigger [of "''r''" demo_runs "''t''" 7 "Some (Some ''j'')" "''p''" ByManual run_input "[]" None] demo_trigger by simp
  then have "(others ''other'')\<^sup>*\<^sup>* demo_runs demo_triggered" by (intro r_into_rtranclp) (auto simp: others_def)
  from run_service_isolates [OF this] show ?thesis by simp
qed

lemma demo_serial: "is_serial ''p'' demo_runs"
  by (simp add: is_serial_def demo_find) (simp add: serial_row_def serial_def_def)

lemma demo_reachable_runs: "serial_reachable ''p'' demo_triggered"
  using sr_request [OF sr_init [OF demo_fresh(1) demo_serial],
      OF req_trigger [of "''r''" demo_runs "''t''" 7 "Some (Some ''j'')" "''p''" ByManual run_input "[]" None]] demo_trigger
  by simp

theorem serial_pipeline_one_active_witness:
  "serial_reachable ''p'' demo_triggered \<and> run_countActive demo_triggered ''p'' \<le> 1"
  using serial_pipeline_one_active [OF demo_reachable_runs] demo_reachable_runs by simp

definition demo_finished :: RunDb where
  "demo_finished = set_status ''r'' RunCompleted demo_triggered"

lemma demo_finished_eq: "demo_finished = demo_triggered\<lparr>rd_runs := [stored_run\<lparr>pr_status := RunCompleted\<rparr>]\<rparr>"
  by (simp add: demo_finished_def demo_triggered_def set_status_def run_updateStatus_def no_update_def apply_run_update_def
      keep_old_def Let_def stored_run_def run_create_def)

lemma demo_finished_admitted: "trigger_admitted demo_finished ''p'' ''t'' = Some serial_row"
  by (simp add: trigger_admitted_def demo_finished_eq demo_triggered_def demo_runs_def run_findPipeline_def run_countActive_def)
    (simp add: serial_row_def active_status_def)

theorem replayRun_same_input_witness:
  "\<exists>run. rd_runs (snd (replayRun ''s'' 9 (Some None) ''p'' ''t'' ''r'' None demo_finished)) = [stored_run\<lparr>pr_status := RunCompleted\<rparr>, run] \<and>
     pr_input run = run_input"
proof -
  let ?r = "stored_run\<lparr>pr_status := RunCompleted\<rparr>"
  have f: "run_findByTenantAndId demo_finished ''t'' ''r'' = Some ?r" "pr_pipeline_id ?r = ''p''" "pr_input ?r = run_input"
    by (simp_all add: run_findByTenantAndId_def demo_finished_eq stored_run_def run_create_def)
  have fresh: "''s'' \<notin> run_ids demo_finished" by (simp add: run_ids_def demo_finished_eq stored_run_def run_create_def)
  obtain db' where r: "replayRun ''s'' 9 (Some None) ''p'' ''t'' ''r'' None demo_finished = (Inr ''s'', db')"
    using triggerRun_enqueued [OF fresh [unfolded run_ids_def] demo_finished_admitted] by (simp add: replayRun_def f)
  from replayRun_same_input [OF r fresh] r show ?thesis
    by (auto simp: demo_finished_eq stored_run_def run_create_def)
qed

section \<open>Where the service falls short\<close>

text \<open>Two requests that both check before either has inserted its run are both admitted.\<close>

lemma overlapping_triggers_admitted:
  assumes "trigger_check db i t = Inr p"
  shows "run_countActive (trigger_insert id2 now2 p i t who2 input2 meta2 actor2
      (trigger_insert id1 now1 p i t who1 input1 meta1 actor1 db)) i = run_countActive db i + 2"
  by (simp add: trigger_insert_def run_countActive_def run_create_def active_status_def)

text \<open>When the queue rejects the job, the run stays pending without a job and blocks a serial pipeline.\<close>

lemma queue_rejection_blocks:
  assumes "trigger_admitted db i t = Some p" "pd_allowConcurrentRuns (p_definition p) = Some False"
  shows "\<exists>n. trigger_check (snd (triggerRun newId now None i t who input meta actor db)) i t = Inl (PipelineConcurrentRunError i n)"
    and "rd_queue (snd (triggerRun newId now None i t who input meta actor db)) = rd_queue db"
  using assms
  by (auto simp: triggerRun_rejected trigger_insert_def trigger_check_def trigger_admitted_def run_findPipeline_def run_countActive_def
      run_create_def active_status_def split: option.splits if_splits)

text \<open>A cancellation that the worker does not read within the hour is forgotten.\<close>

lemma cancel_flag_expires:
  assumes "cancelRun now t runId db = (Inr (), db')"
  shows "cancel_requested now runId db'" "\<not> cancel_requested (now + 3600000) runId db'"
  using assms by (auto simp: cancelRun_def cancel_requested_def CANCEL_FLAG_TTL_SECONDS_def split: option.splits if_splits)

end
