(* ===== verification/TriggerService.thy ===== *)
theory TriggerService
  imports RunServiceProperties "HOL-Library.Sublist"
begin

text \<open>
  Event triggers, \<^verbatim>\<open>services/pipeline/src/services/trigger-service.ts\<close>: the tables of subscriptions that
  \<^verbatim>\<open>loadTriggers\<close> builds, and the handler of an event, which starts runs through the run service.  The
  JSONata engine is a parameter: \<open>None\<close> means that the expression throws or takes longer than the
  100 ms of the time-out.  The Redis client is the list of channels it is subscribed to.
\<close>

section \<open>State\<close>

datatype trigger_type = EventTrigger | WebhookTrigger

record EventTriggerConfig =
  ec_channel :: string
  ec_eventType :: "string option"
  ec_filter :: "string option"

record TriggerRow =
  tr_id :: string
  tr_pipeline_id :: string
  tr_tenant_id :: string
  tr_trigger_type :: trigger_type
  tr_config :: EventTriggerConfig
  tr_enabled :: bool
  tr_created_at :: nat

record PlatformEvent =
  ev_eventId :: "string option"
  ev_eventType :: "string option"
  ev_tenantId :: string
  ev_data :: props

record TriggerState =
  ts_client :: "string list option"
  ts_channels :: "(string, string list) dict"
  ts_triggers :: "(string, TriggerRow) dict"

definition trigger_init :: TriggerState where
  "trigger_init = \<lparr>ts_client = None, ts_channels = [], ts_triggers = []\<rparr>"

section \<open>Filters and events\<close>

definition evaluateFilter :: "(string \<Rightarrow> props \<Rightarrow> jsval option) \<Rightarrow> string \<Rightarrow> props \<Rightarrow> bool" where
  "evaluateFilter jsonata filterExpr eventData =
     (case jsonata filterExpr eventData of Some v \<Rightarrow> isTruthy v | None \<Rightarrow> True)"

text \<open>The tests of \<^verbatim>\<open>handleEvent\<close> on one trigger, before the pipeline is looked up.\<close>

definition matches_event :: "(string \<Rightarrow> props \<Rightarrow> jsval option) \<Rightarrow> PlatformEvent \<Rightarrow> TriggerRow \<Rightarrow> bool" where
  "matches_event jsonata event trigger \<longleftrightarrow>
     tr_enabled trigger \<and> tr_trigger_type trigger = EventTrigger \<and>
     (case ec_eventType (tr_config trigger) of Some ty \<Rightarrow> ev_eventType event = Some ty | None \<Rightarrow> True) \<and>
     (case ec_filter (tr_config trigger) of Some f \<Rightarrow> evaluateFilter jsonata f (ev_data event) | None \<Rightarrow> True)"

definition opt_prop :: "string \<Rightarrow> string option \<Rightarrow> props" where
  "opt_prop k v = (case v of Some s \<Rightarrow> [(k, VStr s)] | None \<Rightarrow> [])"

definition event_meta :: "string \<Rightarrow> PlatformEvent \<Rightarrow> props" where
  "event_meta channel event =
     [(''channel'', VStr channel)] @ opt_prop ''eventType'' (ev_eventType event) @ opt_prop ''eventId'' (ev_eventId event)"

text \<open>
  One turn of the loop.  A rejected trigger is logged, whatever the error, and the loop goes on.  The
  fresh id, the clock and the answer of the queue are functions of the position in the loop.
\<close>

record Supply =
  su_id :: "nat \<Rightarrow> string"
  su_now :: "nat \<Rightarrow> nat"
  su_answer :: "nat \<Rightarrow> string option option"

definition fire_trigger ::
  "(string \<Rightarrow> props \<Rightarrow> jsval option) \<Rightarrow> Supply \<Rightarrow> string \<Rightarrow> PlatformEvent \<Rightarrow> TriggerState \<Rightarrow> nat \<Rightarrow> string \<Rightarrow> RunDb \<Rightarrow> RunDb" where
  "fire_trigger jsonata su channel event st k triggerId db =
     (case map_of (ts_triggers st) triggerId of
        None \<Rightarrow> db
      | Some trigger \<Rightarrow>
          if \<not> matches_event jsonata event trigger then db
          else case run_findPipeline db (tr_pipeline_id trigger) of
                 None \<Rightarrow> db
               | Some pipeline \<Rightarrow>
                   if \<not> p_is_active pipeline then db
                   else snd (triggerRun (su_id su k) (su_now su k) (su_answer su k) (tr_pipeline_id trigger)
                               (tr_tenant_id trigger) ByEvent (ev_data event) (event_meta channel event) None db))"

fun fire_all ::
  "(string \<Rightarrow> props \<Rightarrow> jsval option) \<Rightarrow> Supply \<Rightarrow> string \<Rightarrow> PlatformEvent \<Rightarrow> TriggerState \<Rightarrow> nat \<Rightarrow> string list \<Rightarrow> RunDb \<Rightarrow> RunDb" where
  "fire_all jsonata su channel event st k [] db = db"
| "fire_all jsonata su channel event st k (triggerId # ids) db =
     fire_all jsonata su channel event st (Suc k) ids (fire_trigger jsonata su channel event st k triggerId db)"

definition subscribed :: "TriggerState \<Rightarrow> string \<Rightarrow> string list" where
  "subscribed st channel = (case map_of (ts_channels st) channel of Some ids \<Rightarrow> ids | None \<Rightarrow> [])"

text \<open>A message that is not JSON is dropped; \<open>None\<close> stands for it.\<close>

definition handleEvent ::
  "(string \<Rightarrow> props \<Rightarrow> jsval option) \<Rightarrow> Supply \<Rightarrow> string \<Rightarrow> PlatformEvent option \<Rightarrow> TriggerState \<Rightarrow> RunDb \<Rightarrow> RunDb" where
  "handleEvent jsonata su channel message st db =
     (case message of
        None \<Rightarrow> db
      | Some event \<Rightarrow> fire_all jsonata su channel event st 0 (subscribed st channel) db)"

section \<open>Loading and stopping\<close>

definition findEnabledByType :: "TriggerRow list \<Rightarrow> trigger_type \<Rightarrow> TriggerRow list" where
  "findEnabledByType rows ty =
     sort_key (\<lambda>r. (tr_created_at r, tr_id r)) (filter (\<lambda>r. tr_trigger_type r = ty \<and> tr_enabled r) rows)"

definition add_trigger :: "TriggerRow \<Rightarrow> TriggerState \<Rightarrow> TriggerState" where
  "add_trigger r st =
     (let channel = ec_channel (tr_config r)
      in st\<lparr>ts_triggers := map_set (ts_triggers st) (tr_id r) r,
            ts_channels := map_set (ts_channels st) channel (subscribed st channel @ [tr_id r])\<rparr>)"

definition loadTriggers :: "TriggerRow list \<Rightarrow> TriggerState \<Rightarrow> TriggerState" where
  "loadTriggers rows st =
     (case findEnabledByType rows EventTrigger of
        [] \<Rightarrow> st
      | triggers \<Rightarrow> let st' = fold add_trigger triggers st in st'\<lparr>ts_client := Some (map fst (ts_channels st'))\<rparr>)"

definition trigger_stop :: "TriggerState \<Rightarrow> TriggerState" where
  "trigger_stop st = trigger_init"

section \<open>What an event starts\<close>

definition fresh_supply :: "Supply \<Rightarrow> RunDb \<Rightarrow> bool" where
  "fresh_supply su db \<longleftrightarrow> inj (su_id su) \<and> (\<forall>k. su_id su k \<notin> run_ids db)"

text \<open>The trigger behind a run that an event started.\<close>

definition started_by ::
  "(string \<Rightarrow> props \<Rightarrow> jsval option) \<Rightarrow> string \<Rightarrow> PlatformEvent \<Rightarrow> TriggerState \<Rightarrow> string \<Rightarrow> PipelineRun \<Rightarrow> bool" where
  "started_by jsonata channel event st triggerId run \<longleftrightarrow>
     (\<exists>trigger. map_of (ts_triggers st) triggerId = Some trigger \<and> matches_event jsonata event trigger \<and>
        pr_pipeline_id run = tr_pipeline_id trigger \<and> pr_tenant_id run = tr_tenant_id trigger \<and>
        pr_status run = RunPending \<and> pr_input run = ev_data event \<and> pr_trigger_meta run = event_meta channel event)"

lemma fire_trigger_cases:
  assumes "su_id su k \<notin> run_ids db"
  obtains "fire_trigger jsonata su channel event st k triggerId db = db"
  | run js where "started_by jsonata channel event st triggerId run" "pr_id run = su_id su k"
      "fire_trigger jsonata su channel event st k triggerId db = db\<lparr>rd_runs := rd_runs db @ [run], rd_queue := rd_queue db @ js\<rparr>"
proof (cases "fire_trigger jsonata su channel event st k triggerId db = db")
  case False
  then obtain trigger where t: "map_of (ts_triggers st) triggerId = Some trigger" "matches_event jsonata event trigger"
    and eq: "fire_trigger jsonata su channel event st k triggerId db =
      snd (triggerRun (su_id su k) (su_now su k) (su_answer su k) (tr_pipeline_id trigger) (tr_tenant_id trigger)
        ByEvent (ev_data event) (event_meta channel event) None db)"
    by (auto simp: fire_trigger_def split: option.splits if_splits)
  show ?thesis
    by (rule triggerRun_cases [OF assms, of "su_now su k" "su_answer su k" "tr_pipeline_id trigger" "tr_tenant_id trigger"
          ByEvent "ev_data event" "event_meta channel event" None])
      (use t eq False that(2) in \<open>auto simp: started_by_def\<close>)
qed (use that(1) in simp)

lemma fire_trigger_fresh:
  assumes "inj (su_id su)" "\<forall>j \<ge> k. su_id su j \<notin> run_ids db"
  shows "\<forall>j \<ge> Suc k. su_id su j \<notin> run_ids (fire_trigger jsonata su channel event st k i db)"
proof (rule fire_trigger_cases [of su k db jsonata channel event st i])
  show "su_id su k \<notin> run_ids db" using assms(2) by simp
next
  assume "fire_trigger jsonata su channel event st k i db = db"
  with assms(2) show ?thesis by simp
next
  fix run js
  assume r: "pr_id run = su_id su k"
    "fire_trigger jsonata su channel event st k i db = db\<lparr>rd_runs := rd_runs db @ [run], rd_queue := rd_queue db @ js\<rparr>"
  have "su_id su j \<noteq> su_id su k" if "Suc k \<le> j" for j using assms(1) that by (auto dest: injD)
  with r assms(2) show ?thesis by (simp add: run_ids_def)
qed

text \<open>The new runs, each with a trigger of its own among the subscribed ones, in their order.\<close>

lemma fire_all_runs:
  assumes "inj (su_id su)" "\<forall>j \<ge> k. su_id su j \<notin> run_ids db"
  shows "\<exists>ids' new. subseq ids' ids \<and> list_all2 (started_by jsonata channel event st) ids' new \<and>
    rd_runs (fire_all jsonata su channel event st k ids db) = rd_runs db @ new"
  using assms(2)
proof (induction ids arbitrary: k db)
  case Nil
  then show ?case by (intro exI [of _ "[]"]) simp
next
  case (Cons i ids)
  let ?db = "fire_trigger jsonata su channel event st k i db"
  show ?case
  proof (rule fire_trigger_cases [of su k db jsonata channel event st i])
    show "su_id su k \<notin> run_ids db" using Cons.prems by simp
  next
    assume eq: "?db = db"
    obtain ids' new where "subseq ids' ids" "list_all2 (started_by jsonata channel event st) ids' new"
      "rd_runs (fire_all jsonata su channel event st (Suc k) ids db) = rd_runs db @ new"
      using Cons.IH [of "Suc k" db] Cons.prems by auto
    then show ?thesis using eq by (intro exI [of _ ids'] exI [of _ new]) auto
  next
    fix run js
    assume r: "started_by jsonata channel event st i run" "pr_id run = su_id su k"
      "?db = db\<lparr>rd_runs := rd_runs db @ [run], rd_queue := rd_queue db @ js\<rparr>"
    have "\<forall>j \<ge> Suc k. su_id su j \<notin> run_ids ?db" by (rule fire_trigger_fresh [OF assms(1) Cons.prems])
    from Cons.IH [OF this] obtain ids' new where "subseq ids' ids" "list_all2 (started_by jsonata channel event st) ids' new"
      "rd_runs (fire_all jsonata su channel event st (Suc k) ids ?db) = rd_runs ?db @ new" by blast
    then show ?thesis using r by (intro exI [of _ "i # ids'"] exI [of _ "run # new"]) auto
  qed
qed

text \<open>
  An event only adds runs, in the order of the triggers subscribed to its channel and at most one for each; every
  new run belongs to an enabled event trigger whose type and filter accept the event, and carries
  the event's data and origin.
\<close>

theorem handleEvent_starts:
  assumes "fresh_supply su db"
  shows "\<exists>ids new. subseq ids (subscribed st channel) \<and> list_all2 (started_by jsonata channel event st) ids new \<and>
    rd_runs (handleEvent jsonata su channel (Some event) st db) = rd_runs db @ new"
  using fire_all_runs [of su 0 db "subscribed st channel" jsonata channel event st] assms
  by (simp add: handleEvent_def fresh_supply_def)

text \<open>A trigger that is sure to be admitted, whatever the triggers before it have started.\<close>

definition sure_to_fire :: "(string \<Rightarrow> props \<Rightarrow> jsval option) \<Rightarrow> PlatformEvent \<Rightarrow> TriggerState \<Rightarrow> string \<Rightarrow> RunDb \<Rightarrow> bool" where
  "sure_to_fire jsonata event st triggerId db \<longleftrightarrow>
     (case map_of (ts_triggers st) triggerId of
        None \<Rightarrow> False
      | Some trigger \<Rightarrow>
          matches_event jsonata event trigger \<and>
          (case run_findPipeline db (tr_pipeline_id trigger) of
             None \<Rightarrow> False
           | Some p \<Rightarrow> p_tenant p = tr_tenant_id trigger \<and> p_is_active p \<and> pd_allowConcurrentRuns (p_definition p) \<noteq> Some False))"

lemma fire_trigger_keeps:
  "rd_pipelines (fire_trigger jsonata su channel event st k i db) = rd_pipelines db"
  by (simp add: fire_trigger_def triggerRun_def trigger_enqueue_def trigger_insert_def run_updateStatus_def Let_def
      split: option.split sum.split)

lemma sure_fires:
  assumes "sure_to_fire jsonata event st i db" "su_id su k \<notin> run_ids db"
  shows "\<exists>run \<in> set (rd_runs (fire_trigger jsonata su channel event st k i db)). started_by jsonata channel event st i run"
proof -
  from assms(1) obtain tr p where tr: "map_of (ts_triggers st) i = Some tr" "matches_event jsonata event tr"
    and p: "run_findPipeline db (tr_pipeline_id tr) = Some p" "p_tenant p = tr_tenant_id tr" "p_is_active p"
      "pd_allowConcurrentRuns (p_definition p) \<noteq> Some False"
    by (auto simp: sure_to_fire_def split: option.splits)
  have adm: "trigger_admitted db (tr_pipeline_id tr) (tr_tenant_id tr) = Some p" using p by (simp add: trigger_admitted_def)
  have eq: "fire_trigger jsonata su channel event st k i db =
      snd (triggerRun (su_id su k) (su_now su k) (su_answer su k) (tr_pipeline_id tr) (tr_tenant_id tr)
        ByEvent (ev_data event) (event_meta channel event) None db)"
    using tr p by (simp add: fire_trigger_def)
  show ?thesis
  proof (cases "su_answer su k")
    case None
    with eq adm tr show ?thesis
      by (auto simp: triggerRun_rejected trigger_insert_def started_by_def run_create_def)
  next
    case (Some jobId)
    with eq tr triggerRun_enqueued [OF assms(2) [unfolded run_ids_def] adm] show ?thesis
      by (auto simp: started_by_def run_create_def)
  qed
qed

lemma fire_all_fires:
  assumes "inj (su_id su)" "\<forall>j \<ge> k. su_id su j \<notin> run_ids db" "i \<in> set ids" "sure_to_fire jsonata event st i db"
  shows "\<exists>run \<in> set (rd_runs (fire_all jsonata su channel event st k ids db)). started_by jsonata channel event st i run"
  using assms(2-4)
proof (induction ids arbitrary: k db)
  case (Cons a ids)
  let ?db = "fire_trigger jsonata su channel event st k a db"
  have k: "su_id su k \<notin> run_ids db" using Cons.prems(1) by simp
  have fresh: "\<forall>j \<ge> Suc k. su_id su j \<notin> run_ids ?db" by (rule fire_trigger_fresh [OF assms(1) Cons.prems(1)])
  show ?case
  proof (cases "i = a")
    case True
    then obtain run where "run \<in> set (rd_runs ?db)" "started_by jsonata channel event st i run"
      using sure_fires [OF Cons.prems(3) k] by blast
    moreover obtain ids' new where "rd_runs (fire_all jsonata su channel event st (Suc k) ids ?db) = rd_runs ?db @ new"
      using fire_all_runs [OF assms(1) fresh] by blast
    ultimately show ?thesis by auto
  next
    case False
    have "run_findPipeline ?db = run_findPipeline db"
      by (simp add: fun_eq_iff run_findPipeline_def fire_trigger_keeps)
    with Cons.prems(3) have "sure_to_fire jsonata event st i ?db" by (simp add: sure_to_fire_def cong: option.case_cong)
    with Cons.IH [OF fresh] Cons.prems(2) False show ?thesis by auto
  qed
qed simp

text \<open>
  Every subscribed trigger that accepts the event and whose active pipeline allows concurrent
  runs starts its run, whichever triggers before it are refused or fail.
\<close>

theorem handleEvent_fires:
  assumes "fresh_supply su db" "i \<in> set (subscribed st channel)" "sure_to_fire jsonata event st i db"
  shows "\<exists>run. run \<in> set (rd_runs (handleEvent jsonata su channel (Some event) st db)) \<and> started_by jsonata channel event st i run"
  using fire_all_fires [of su 0 db i "subscribed st channel" jsonata event st channel] assms
  by (auto simp: handleEvent_def fresh_supply_def)

section \<open>A concrete subscription\<close>

definition demo_supply :: Supply where
  "demo_supply = \<lparr>su_id = (\<lambda>k. replicate k CHR ''r''), su_now = (\<lambda>k. k), su_answer = (\<lambda>k. if k = 0 then None else Some None)\<rparr>"

definition demo_trigger_row :: "nat \<Rightarrow> string \<Rightarrow> string \<Rightarrow> TriggerRow" where
  "demo_trigger_row n i pipeline =
     \<lparr>tr_id = i, tr_pipeline_id = pipeline, tr_tenant_id = ''t'', tr_trigger_type = EventTrigger,
      tr_config = \<lparr>ec_channel = ''c'', ec_eventType = Some ''saved'', ec_filter = None\<rparr>, tr_enabled = True, tr_created_at = n\<rparr>"

definition demo_event :: PlatformEvent where
  "demo_event = \<lparr>ev_eventId = None, ev_eventType = Some ''saved'', ev_tenantId = ''t'', ev_data = run_input\<rparr>"

definition demo_triggers :: TriggerState where
  "demo_triggers = loadTriggers [demo_trigger_row 0 ''x'' ''p'', demo_trigger_row 1 ''y'' ''q''] trigger_init"

definition demo_event_db :: RunDb where
  "demo_event_db = demo_runs\<lparr>rd_pipelines := [serial_row,
     serial_row\<lparr>p_id := ''q'', p_definition := serial_def\<lparr>pd_allowConcurrentRuns := None\<rparr>\<rparr>]\<rparr>"

lemma demo_supply_fresh: "fresh_supply demo_supply demo_event_db"
  by (auto simp: fresh_supply_def demo_supply_def inj_def run_ids_def demo_event_db_def demo_runs_def replicate_eq_replicate)

lemma demo_subscribed:
  "subscribed demo_triggers ''c'' = [''x'', ''y'']"
  "map_of (ts_triggers demo_triggers) ''x'' = Some (demo_trigger_row 0 ''x'' ''p'')"
  "map_of (ts_triggers demo_triggers) ''y'' = Some (demo_trigger_row 1 ''y'' ''q'')"
  by (simp_all add: demo_triggers_def loadTriggers_def findEnabledByType_def demo_trigger_row_def add_trigger_def trigger_init_def
      subscribed_def Let_def)

lemma demo_sure: "sure_to_fire jsonata demo_event demo_triggers ''y'' demo_event_db"
  by (simp add: sure_to_fire_def demo_subscribed demo_event_db_def run_findPipeline_def serial_row_def serial_def_def)
    (simp add: demo_trigger_row_def matches_event_def demo_event_def)

theorem handleEvent_starts_witness:
  "\<exists>ids new. subseq ids [''x'', ''y''] \<and> list_all2 (started_by (\<lambda>_ _. None) ''c'' demo_event demo_triggers) ids new \<and>
    rd_runs (handleEvent (\<lambda>_ _. None) demo_supply ''c'' (Some demo_event) demo_triggers demo_event_db) = rd_runs demo_event_db @ new"
  using handleEvent_starts [OF demo_supply_fresh, of demo_triggers "''c''" "\<lambda>_ _. None" demo_event] by (simp add: demo_subscribed)

theorem handleEvent_fires_witness:
  "\<exists>run. run \<in> set (rd_runs (handleEvent (\<lambda>_ _. None) demo_supply ''c'' (Some demo_event) demo_triggers demo_event_db)) \<and>
    started_by (\<lambda>_ _. None) ''c'' demo_event demo_triggers ''y'' run"
  using handleEvent_fires [OF demo_supply_fresh _ demo_sure, of "''c''" "\<lambda>_ _. None"] by (simp add: demo_subscribed)

section \<open>The tenant of an event\<close>

text \<open>An event starts the same runs whichever tenant it comes from.\<close>

lemma event_tenant_ignored:
  "fire_trigger jsonata su channel (event\<lparr>ev_tenantId := t\<rparr>) st k i db = fire_trigger jsonata su channel event st k i db"
proof -
  have "matches_event jsonata (event\<lparr>ev_tenantId := t\<rparr>) tr = matches_event jsonata event tr" for tr
    by (auto simp: matches_event_def split: option.split)
  moreover have "event_meta channel (event\<lparr>ev_tenantId := t\<rparr>) = event_meta channel event"
    by (simp add: event_meta_def)
  ultimately show ?thesis by (simp add: fire_trigger_def cong: option.case_cong if_cong)
qed

end
