(* ===== verification/ScheduleService.thy ===== *)
theory ScheduleService
  imports TriggerService
begin

text \<open>
  Cron schedules, \<^verbatim>\<open>services/pipeline/src/services/schedule-service.ts\<close> over \<^verbatim>\<open>schedule-repository.ts\<close>.  The cron parser
  and the time zone database are the record \<open>Cron\<close>: whether an expression parses, and the first
  time after a given one that it matches in a time zone.  Times are milliseconds.
\<close>

section \<open>Expressions\<close>

record Cron =
  cron_parses :: "string \<Rightarrow> bool"
  cron_next :: "string \<Rightarrow> string \<Rightarrow> nat \<Rightarrow> nat option"
  tz_supported :: "string \<Rightarrow> bool"

datatype schedule_error =
    ScheduleInvalidCronError string
  | ScheduleNotFoundError string
  | ScheduleNoFields string
  | CronParserError
  | NotAFunction

definition CRON_ALIAS_MAP :: "(string \<times> string) list" where
  "CRON_ALIAS_MAP =
     [(''@yearly'', ''0 0 1 1 *''), (''@annually'', ''0 0 1 1 *''), (''@monthly'', ''0 0 1 * *''), (''@weekly'', ''0 0 * * 0''),
      (''@daily'', ''0 0 * * *''), (''@midnight'', ''0 0 * * *''), (''@hourly'', ''0 * * * *'')]"

text \<open>
  \<^verbatim>\<open>CRON_ALIAS_MAP[cronExpr.trim()] ?? cronExpr\<close>: the name of a member of \<^verbatim>\<open>Object.prototype\<close> gives that member, which has
  no \<^verbatim>\<open>trim\<close>.
\<close>

definition expand_alias :: "string \<Rightarrow> schedule_error + string" where
  "expand_alias cronExpr =
     (case map_of CRON_ALIAS_MAP (js_trim cronExpr) of
        Some e \<Rightarrow> Inr e
      | None \<Rightarrow> if js_trim cronExpr \<in> set (''__proto__'' # object_prototype) then Inl NotAFunction else Inr cronExpr)"

text \<open>\<^verbatim>\<open>s.split(/\s+/)\<close>.\<close>

function split_spaces :: "string \<Rightarrow> string list" where
  "split_spaces s =
     (case dropWhile (\<lambda>c. \<not> is_space c) s of
        [] \<Rightarrow> [s]
      | c # cs \<Rightarrow> takeWhile (\<lambda>c. \<not> is_space c) s # split_spaces (dropWhile is_space cs))"
  by pat_completeness auto
termination
proof (relation "measure length")
  fix s cs :: string and c :: char
  assume "dropWhile (\<lambda>c. \<not> is_space c) s = c # cs"
  then have "length (c # cs) \<le> length s" by (metis length_dropWhile_le)
  then show "(dropWhile is_space cs, s) \<in> measure length"
    using length_dropWhile_le [of is_space cs] by simp
qed simp

definition validateCronExpression :: "Cron \<Rightarrow> string \<Rightarrow> schedule_error option" where
  "validateCronExpression cron cronExpr =
     (case expand_alias cronExpr of
        Inl e \<Rightarrow> Some e
      | Inr expanded \<Rightarrow>
          if length (split_spaces (js_trim expanded)) \<noteq> 5 then Some (ScheduleInvalidCronError cronExpr)
          else if \<not> cron_parses cron expanded then Some (ScheduleInvalidCronError cronExpr)
          else None)"

definition validateTimezone :: "Cron \<Rightarrow> string \<Rightarrow> schedule_error option" where
  "validateTimezone cron tz =
     (if tz \<noteq> ''UTC'' \<and> \<not> tz_supported cron tz then Some (ScheduleInvalidCronError tz) else None)"

text \<open>\<open>None\<close> when the parser throws.\<close>

definition computeNextRunAt :: "Cron \<Rightarrow> nat \<Rightarrow> string \<Rightarrow> string \<Rightarrow> nat option" where
  "computeNextRunAt cron now cronExpr tz =
     (case expand_alias cronExpr of Inl e \<Rightarrow> None | Inr expanded \<Rightarrow> cron_next cron expanded tz now)"

section \<open>Tables\<close>

record ScheduleRow =
  sc_id :: string
  sc_pipeline_id :: string
  sc_tenant_id :: string
  sc_cron_expr :: string
  sc_timezone :: string
  sc_enabled :: bool
  sc_input_template :: props
  sc_depends_on :: "string list"
  sc_last_run_at :: "nat option"
  sc_next_run_at :: "nat option"
  sc_created_at :: nat

record SchedDb =
  sd_schedules :: "ScheduleRow list"
  sd_db :: RunDb

record CreateScheduleInput =
  cs_pipelineId :: string
  cs_cronExpr :: string
  cs_timezone :: string
  cs_enabled :: bool
  cs_inputTemplate :: props
  cs_dependsOn :: "string list option"

record UpdateScheduleInput =
  us_cronExpr :: "string option"
  us_timezone :: "string option"
  us_enabled :: "bool option"
  us_inputTemplate :: "props option"
  us_dependsOn :: "string list option"

definition sched_find :: "SchedDb \<Rightarrow> string \<Rightarrow> string \<Rightarrow> ScheduleRow option" where
  "sched_find db tenantId i = find (\<lambda>r. sc_id r = i \<and> sc_tenant_id r = tenantId) (sd_schedules db)"

definition sched_list :: "SchedDb \<Rightarrow> string \<Rightarrow> string option \<Rightarrow> nat \<Rightarrow> ScheduleRow list" where
  "sched_list db tenantId cursor lmt =
     take lmt (sort_key (\<lambda>r. (sc_created_at r, sc_id r))
       (filter (\<lambda>r. sc_tenant_id r = tenantId \<and> (\<forall>c \<in> set_option cursor. c < sc_id r)) (sd_schedules db)))"

definition update_row :: "string \<Rightarrow> (ScheduleRow \<Rightarrow> ScheduleRow) \<Rightarrow> SchedDb \<Rightarrow> SchedDb" where
  "update_row i f db = db\<lparr>sd_schedules := map (\<lambda>r. if sc_id r = i then f r else r) (sd_schedules db)\<rparr>"

definition findDueSchedules :: "SchedDb \<Rightarrow> nat \<Rightarrow> ScheduleRow list" where
  "findDueSchedules db asOf =
     sort_key (\<lambda>r. the (sc_next_run_at r)) (filter (\<lambda>r. sc_enabled r \<and> (\<exists>n \<in> set_option (sc_next_run_at r). n \<le> asOf)) (sd_schedules db))"

text \<open>The guarded UPDATE: one row with the id, the expected time and enabled, or nothing.\<close>

definition claimable :: "nat \<Rightarrow> ScheduleRow \<Rightarrow> bool" where
  "claimable cur r \<longleftrightarrow> sc_next_run_at r = Some cur \<and> sc_enabled r"

definition updateNextRunAt :: "string \<Rightarrow> nat \<Rightarrow> nat \<Rightarrow> nat \<Rightarrow> SchedDb \<Rightarrow> bool \<times> SchedDb" where
  "updateNextRunAt i lastRunAt nextRunAt cur db =
     (list_ex (\<lambda>r. sc_id r = i \<and> claimable cur r) (sd_schedules db),
      update_row i (\<lambda>r. if claimable cur r then r\<lparr>sc_next_run_at := Some nextRunAt, sc_last_run_at := Some lastRunAt\<rparr> else r) db)"

text \<open>When a pipeline is set inactive.\<close>

definition disableByPipelineId :: "string \<Rightarrow> SchedDb \<Rightarrow> SchedDb" where
  "disableByPipelineId p db =
     db\<lparr>sd_schedules := map (\<lambda>r. if sc_pipeline_id r = p \<and> sc_enabled r then r\<lparr>sc_enabled := False\<rparr> else r) (sd_schedules db)\<rparr>"

section \<open>Operations\<close>

definition createSchedule ::
  "Cron \<Rightarrow> string \<Rightarrow> nat \<Rightarrow> string \<Rightarrow> CreateScheduleInput \<Rightarrow> SchedDb \<Rightarrow> (schedule_error + ScheduleRow) \<times> SchedDb" where
  "createSchedule cron newId now tenantId input db =
     (case validateCronExpression cron (cs_cronExpr input) of
        Some e \<Rightarrow> (Inl e, db)
      | None \<Rightarrow>
     (case validateTimezone cron (cs_timezone input) of
        Some e \<Rightarrow> (Inl e, db)
      | None \<Rightarrow>
     (case run_findPipeline (sd_db db) (cs_pipelineId input) of
        None \<Rightarrow> (Inl (ScheduleNotFoundError (cs_pipelineId input)), db)
      | Some p \<Rightarrow>
          if p_tenant p \<noteq> tenantId then (Inl (ScheduleNotFoundError (cs_pipelineId input)), db)
          else case computeNextRunAt cron now (cs_cronExpr input) (cs_timezone input) of
                 None \<Rightarrow> (Inl CronParserError, db)
               | Some next \<Rightarrow>
                   let r = \<lparr>sc_id = newId, sc_pipeline_id = cs_pipelineId input, sc_tenant_id = tenantId,
                            sc_cron_expr = cs_cronExpr input, sc_timezone = cs_timezone input, sc_enabled = cs_enabled input,
                            sc_input_template = cs_inputTemplate input,
                            sc_depends_on = (case cs_dependsOn input of Some d \<Rightarrow> d | None \<Rightarrow> []),
                            sc_last_run_at = None, sc_next_run_at = Some next, sc_created_at = now\<rparr>
                   in (Inr r, db\<lparr>sd_schedules := sd_schedules db @ [r]\<rparr>))))"

definition getSchedule :: "SchedDb \<Rightarrow> string \<Rightarrow> string \<Rightarrow> schedule_error + ScheduleRow" where
  "getSchedule db tenantId i =
     (case sched_find db tenantId i of Some r \<Rightarrow> Inr r | None \<Rightarrow> Inl (ScheduleNotFoundError i))"

definition listSchedules :: "SchedDb \<Rightarrow> string \<Rightarrow> string option \<Rightarrow> nat \<Rightarrow> ScheduleRow list \<times> string option" where
  "listSchedules db tenantId cursor lmt =
     (let rows = sched_list db tenantId cursor lmt
      in (rows, if length rows = lmt \<and> rows \<noteq> [] then Some (sc_id (last rows)) else None))"

definition check_opt :: "('a \<Rightarrow> schedule_error option) \<Rightarrow> 'a option \<Rightarrow> schedule_error option" where
  "check_opt f x = (case x of Some a \<Rightarrow> f a | None \<Rightarrow> None)"

definition apply_schedule_update :: "UpdateScheduleInput \<Rightarrow> nat option \<Rightarrow> ScheduleRow \<Rightarrow> ScheduleRow" where
  "apply_schedule_update input next r =
     r\<lparr>sc_cron_expr := keep_old (us_cronExpr input) (sc_cron_expr r),
       sc_timezone := keep_old (us_timezone input) (sc_timezone r),
       sc_enabled := keep_old (us_enabled input) (sc_enabled r),
       sc_input_template := keep_old (us_inputTemplate input) (sc_input_template r),
       sc_depends_on := keep_old (us_dependsOn input) (sc_depends_on r),
       sc_next_run_at := keep_old (map_option Some next) (sc_next_run_at r)\<rparr>"

definition no_schedule_update :: UpdateScheduleInput where
  "no_schedule_update = \<lparr>us_cronExpr = None, us_timezone = None, us_enabled = None, us_inputTemplate = None, us_dependsOn = None\<rparr>"

definition updateSchedule ::
  "Cron \<Rightarrow> nat \<Rightarrow> string \<Rightarrow> string \<Rightarrow> UpdateScheduleInput \<Rightarrow> SchedDb \<Rightarrow> (schedule_error + ScheduleRow) \<times> SchedDb" where
  "updateSchedule cron now tenantId i input db =
     (case getSchedule db tenantId i of
        Inl e \<Rightarrow> (Inl e, db)
      | Inr existing \<Rightarrow>
     (case check_opt (validateCronExpression cron) (us_cronExpr input) of
        Some e \<Rightarrow> (Inl e, db)
      | None \<Rightarrow>
     (case check_opt (validateTimezone cron) (us_timezone input) of
        Some e \<Rightarrow> (Inl e, db)
      | None \<Rightarrow>
          if input = no_schedule_update then (Inl (ScheduleNoFields i), db)
          else if us_cronExpr input = None \<and> us_timezone input = None
          then (Inr (apply_schedule_update input None existing), update_row i (apply_schedule_update input None) db)
          else case computeNextRunAt cron now (keep_old (us_cronExpr input) (sc_cron_expr existing))
                      (keep_old (us_timezone input) (sc_timezone existing)) of
                 None \<Rightarrow> (Inl CronParserError, db)
               | Some next \<Rightarrow>
                   (Inr (apply_schedule_update input (Some next) existing),
                    update_row i (apply_schedule_update input (Some next)) db))))"

definition deleteSchedule :: "string \<Rightarrow> string \<Rightarrow> SchedDb \<Rightarrow> (schedule_error + unit) \<times> SchedDb" where
  "deleteSchedule tenantId i db =
     (case getSchedule db tenantId i of
        Inl e \<Rightarrow> (Inl e, db)
      | Inr r \<Rightarrow> (Inr (), db\<lparr>sd_schedules := filter (\<lambda>r. sc_id r \<noteq> i) (sd_schedules db)\<rparr>))"

definition checkDependencies :: "RunDb \<Rightarrow> string \<Rightarrow> string list \<Rightarrow> bool \<times> string list" where
  "checkDependencies db tenantId dependsOn =
     (let blocking = filter (\<lambda>d. case run_findByTenantId db tenantId None None (Some d) 1 of
                                   [] \<Rightarrow> True
                                 | run # _ \<Rightarrow> pr_status run \<noteq> RunCompleted) dependsOn
      in (blocking = [], blocking))"

text \<open>
  One due schedule.  \<open>now\<close> is the time of the tick, \<open>now'\<close> the time when the next run is computed.
  A claim that is not won, a parser error and a refused trigger are logged and passed over.
\<close>

definition tick_one :: "Cron \<Rightarrow> Supply \<Rightarrow> nat \<Rightarrow> nat \<Rightarrow> nat \<Rightarrow> ScheduleRow \<Rightarrow> SchedDb \<Rightarrow> SchedDb" where
  "tick_one cron su k now now' schedule db =
     (case computeNextRunAt cron now' (sc_cron_expr schedule) (sc_timezone schedule) of
        None \<Rightarrow> db
      | Some next \<Rightarrow>
          if sc_depends_on schedule \<noteq> [] \<and> \<not> fst (checkDependencies (sd_db db) (sc_tenant_id schedule) (sc_depends_on schedule))
          then db
          else let (claimed, db1) =
                     updateNextRunAt (sc_id schedule) now next (case sc_next_run_at schedule of Some c \<Rightarrow> c | None \<Rightarrow> now) db
               in if \<not> claimed then db1
                  else db1\<lparr>sd_db := snd (triggerRun (su_id su k) (su_now su k) (su_answer su k) (sc_pipeline_id schedule)
                             (sc_tenant_id schedule) BySchedule (sc_input_template schedule)
                             [(''scheduleId'', VStr (sc_id schedule)), (''cronExpr'', VStr (sc_cron_expr schedule))]
                             (Some (sc_id schedule)) (sd_db db1))\<rparr>)"

text \<open>The loop over the due schedules; \<open>stopped\<close> and the clock are read at every turn.\<close>

fun tick_all :: "Cron \<Rightarrow> Supply \<Rightarrow> (nat \<Rightarrow> bool) \<Rightarrow> (nat \<Rightarrow> nat) \<Rightarrow> nat \<Rightarrow> nat \<Rightarrow> ScheduleRow list \<Rightarrow> SchedDb \<Rightarrow> SchedDb" where
  "tick_all cron su stopped clock now k [] db = db"
| "tick_all cron su stopped clock now k (s # ss) db =
     (if stopped k then db
      else tick_all cron su stopped clock now (Suc k) ss (tick_one cron su k now (clock k) s db))"

definition cronTick :: "Cron \<Rightarrow> Supply \<Rightarrow> (nat \<Rightarrow> bool) \<Rightarrow> (nat \<Rightarrow> nat) \<Rightarrow> SchedDb \<Rightarrow> SchedDb" where
  "cronTick cron su stopped clock db =
     (if stopped 0 then db
      else let now = clock 0 in tick_all cron su stopped clock now 1 (findDueSchedules db now) db)"

text \<open>
  The polling loop: the timer and the flag that ends it.  The flag is never cleared.  A call of
  \<open>startCronLoop\<close> without a timer runs a tick at once; \<open>loop_tick\<close> is one tick of the loop.
\<close>

record CronLoop =
  cl_timer :: bool
  cl_stopped :: bool

definition cron_loop_init :: CronLoop where
  "cron_loop_init = \<lparr>cl_timer = False, cl_stopped = False\<rparr>"

definition loop_tick :: "Cron \<Rightarrow> Supply \<Rightarrow> (nat \<Rightarrow> nat) \<Rightarrow> CronLoop \<Rightarrow> SchedDb \<Rightarrow> SchedDb" where
  "loop_tick cron su clock l db = cronTick cron su (\<lambda>k. cl_stopped l) clock db"

definition startCronLoop :: "Cron \<Rightarrow> Supply \<Rightarrow> (nat \<Rightarrow> nat) \<Rightarrow> CronLoop \<Rightarrow> SchedDb \<Rightarrow> CronLoop \<times> SchedDb" where
  "startCronLoop cron su clock l db =
     (if cl_timer l then (l, db) else (l\<lparr>cl_timer := True\<rparr>, loop_tick cron su clock l db))"

definition stopCronLoop :: "CronLoop \<Rightarrow> CronLoop" where
  "stopCronLoop l = l\<lparr>cl_stopped := True, cl_timer := False\<rparr>"

end
