(* ===== verification/ScheduleProperties.thy ===== *)
theory ScheduleProperties
  imports ScheduleService
begin

text \<open>
  Replicas of the scheduler work on the same table without a lock: each reads the due schedules and
  claims them one by one with a guarded update.  This theory shows that no due time of a schedule is
  claimed twice, whatever rows a replica still holds and whatever edits come in between, and that a
  schedule with an unfinished dependency keeps its place.
\<close>

section \<open>Ticks of several replicas\<close>

text \<open>The time a tick expects in the row, and whether it wins the claim and calls \<^verbatim>\<open>triggerRun\<close>.\<close>

definition wins :: "Cron \<Rightarrow> nat \<Rightarrow> nat \<Rightarrow> ScheduleRow \<Rightarrow> SchedDb \<Rightarrow> bool" where
  "wins cron now now' s db \<longleftrightarrow>
     (\<exists>nx c. computeNextRunAt cron now' (sc_cron_expr s) (sc_timezone s) = Some nx \<and> sc_next_run_at s = Some c \<and>
        (sc_depends_on s = [] \<or> fst (checkDependencies (sd_db db) (sc_tenant_id s) (sc_depends_on s))) \<and>
        fst (updateNextRunAt (sc_id s) now nx c db))"

definition schedule_ids :: "SchedDb \<Rightarrow> string list" where
  "schedule_ids db = map sc_id (sd_schedules db)"

text \<open>
  The states that are reached by time \<open>T\<close>, with the due times of schedule \<open>i\<close> that have been won.  A tick
  works on a row \<open>s\<close> that was due when its replica read it, at time \<open>now\<close>; the table may have changed since.
\<close>

inductive sched_run :: "Cron \<Rightarrow> string \<Rightarrow> nat \<Rightarrow> SchedDb \<Rightarrow> nat list \<Rightarrow> bool" for cron i where
  sch_init: "distinct (schedule_ids db) \<Longrightarrow> sched_run cron i T db []"
| sch_wait: "sched_run cron i T db cs \<Longrightarrow> T \<le> T' \<Longrightarrow> sched_run cron i T' db cs"
| sch_tick: "sched_run cron i T db cs \<Longrightarrow> sc_next_run_at s = Some c \<Longrightarrow> c \<le> now \<Longrightarrow> now \<le> now' \<Longrightarrow> now' \<le> T \<Longrightarrow>
    sched_run cron i T (tick_one cron su k now now' s db) (if sc_id s = i \<and> wins cron now now' s db then cs @ [c] else cs)"
| sch_create: "sched_run cron i T db cs \<Longrightarrow> newId \<notin> set (schedule_ids db) \<Longrightarrow>
    sched_run cron i T (snd (createSchedule cron newId T t input db)) cs"
| sch_update: "sched_run cron i T db cs \<Longrightarrow> sched_run cron i T (snd (updateSchedule cron T t j uinput db)) cs"
| sch_delete: "sched_run cron i T db cs \<Longrightarrow> sched_run cron i T (snd (deleteSchedule t j db)) cs"
| sch_disable: "sched_run cron i T db cs \<Longrightarrow> sched_run cron i T (disableByPipelineId p db) cs"

text \<open>What is won stays below the time in the row.\<close>

definition won_below :: "string \<Rightarrow> nat \<Rightarrow> SchedDb \<Rightarrow> nat list \<Rightarrow> bool" where
  "won_below i T db cs \<longleftrightarrow>
     distinct (schedule_ids db) \<and> sorted_wrt (<) cs \<and> (\<forall>c \<in> set cs. c \<le> T) \<and>
     (\<forall>r \<in> set (sd_schedules db). \<forall>n. sc_id r = i \<longrightarrow> sc_next_run_at r = Some n \<longrightarrow> (\<forall>c \<in> set cs. c < n))"

definition cron_forward :: "Cron \<Rightarrow> bool" where
  "cron_forward cron \<longleftrightarrow> (\<forall>e tz t n. cron_next cron e tz t = Some n \<longrightarrow> t < n)"

lemma compute_forward: "cron_forward cron \<Longrightarrow> computeNextRunAt cron now e tz = Some n \<Longrightarrow> now < n"
  by (auto simp: computeNextRunAt_def cron_forward_def split: sum.splits)

lemma tick_one_cases:
  assumes "sc_next_run_at s = Some c"
  obtains "\<not> wins cron now now' s db" "sd_schedules (tick_one cron su k now now' s db) = sd_schedules db"
  | nx where "wins cron now now' s db" "computeNextRunAt cron now' (sc_cron_expr s) (sc_timezone s) = Some nx"
      "\<exists>r \<in> set (sd_schedules db). sc_id r = sc_id s \<and> claimable c r"
      "sd_schedules (tick_one cron su k now now' s db) =
        map (\<lambda>r. if sc_id r = sc_id s \<and> claimable c r then r\<lparr>sc_next_run_at := Some nx, sc_last_run_at := Some now\<rparr> else r) (sd_schedules db)"
proof (cases "wins cron now now' s db")
  case True
  then obtain nx where n: "computeNextRunAt cron now' (sc_cron_expr s) (sc_timezone s) = Some nx"
    and d: "sc_depends_on s = [] \<or> fst (checkDependencies (sd_db db) (sc_tenant_id s) (sc_depends_on s))"
    and u: "fst (updateNextRunAt (sc_id s) now nx c db)"
    using assms by (auto simp: wins_def)
  have "sd_schedules (tick_one cron su k now now' s db) = sd_schedules (snd (updateNextRunAt (sc_id s) now nx c db))"
    using n d u assms by (auto simp: tick_one_def Let_def split: prod.split)
  also have "\<dots> = map (\<lambda>r. if sc_id r = sc_id s \<and> claimable c r then r\<lparr>sc_next_run_at := Some nx, sc_last_run_at := Some now\<rparr> else r)
      (sd_schedules db)"
    by (auto simp: updateNextRunAt_def update_row_def)
  finally show ?thesis using that(2) True n u by (auto simp: updateNextRunAt_def list_ex_iff)
next
  case False
  have none: "map (\<lambda>r. if sc_id r = sc_id s then if claimable c r then f r else r else r) rs = rs"
    if "\<not> list_ex (\<lambda>r. sc_id r = sc_id s \<and> claimable c r) rs" for f and rs :: "ScheduleRow list"
    using that by (intro map_idI) (auto simp: list_ex_iff)
  show ?thesis
    using that(1) False assms
    by (cases "computeNextRunAt cron now' (sc_cron_expr s) (sc_timezone s)")
      (auto simp: wins_def tick_one_def updateNextRunAt_def update_row_def Let_def none split: if_splits)
qed

section \<open>No due time is won twice\<close>

lemma won_below_change:
  assumes "won_below i T db cs" "distinct (schedule_ids db')"
    "\<And>r n. r \<in> set (sd_schedules db') \<Longrightarrow> sc_id r = i \<Longrightarrow> sc_next_run_at r = Some n \<Longrightarrow>
       T < n \<or> (\<exists>r0 \<in> set (sd_schedules db). sc_id r0 = i \<and> sc_next_run_at r0 = Some n)"
  shows "won_below i T db' cs"
  using assms unfolding won_below_def by (meson le_less_trans)

lemma update_row_ids:
  "(\<And>r. sc_id (f r) = sc_id r) \<Longrightarrow> schedule_ids (update_row j f db) = schedule_ids db"
  by (simp add: schedule_ids_def update_row_def)

lemma create_won_below:
  assumes "won_below i T db cs" "newId \<notin> set (schedule_ids db)" "cron_forward cron"
  shows "won_below i T (snd (createSchedule cron newId T t input db)) cs"
proof (cases "snd (createSchedule cron newId T t input db) = db")
  case False
  then have "\<exists>nx r. computeNextRunAt cron T (cs_cronExpr input) (cs_timezone input) = Some nx \<and> sc_id r = newId \<and>
      sc_next_run_at r = Some nx \<and> sd_schedules (snd (createSchedule cron newId T t input db)) = sd_schedules db @ [r]"
    by (auto simp: createSchedule_def Let_def split: option.splits if_splits)
  then obtain nx r where n: "computeNextRunAt cron T (cs_cronExpr input) (cs_timezone input) = Some nx"
    and r: "sc_id r = newId" "sc_next_run_at r = Some nx"
      "sd_schedules (snd (createSchedule cron newId T t input db)) = sd_schedules db @ [r]" by blast
  show ?thesis
  proof (rule won_below_change [OF assms(1)])
    show "distinct (schedule_ids (snd (createSchedule cron newId T t input db)))"
      using assms(1,2) r(1,3) by (auto simp: won_below_def schedule_ids_def)
  qed (use compute_forward [OF assms(3) n] r(2,3) in auto)
qed (use assms(1) in simp)

lemma updateSchedule_cases:
  "snd (updateSchedule cron T t j input db) = db \<or>
   snd (updateSchedule cron T t j input db) = update_row j (apply_schedule_update input None) db \<or>
   (\<exists>n e tz. computeNextRunAt cron T e tz = Some n \<and>
      snd (updateSchedule cron T t j input db) = update_row j (apply_schedule_update input (Some n)) db)"
  unfolding updateSchedule_def by (simp split: sum.split option.split) blast

lemma update_won_below:
  assumes "won_below i T db cs" "cron_forward cron"
  shows "won_below i T (snd (updateSchedule cron T t j input db)) cs"
proof (cases "snd (updateSchedule cron T t j input db) = db")
  case False
  then obtain nx where eq: "snd (updateSchedule cron T t j input db) = update_row j (apply_schedule_update input nx) db"
    and n: "\<And>n. nx = Some n \<Longrightarrow> \<exists>e tz. computeNextRunAt cron T e tz = Some n"
    using updateSchedule_cases [of cron T t j input db] by (metis option.distinct(1) option.inject)
  have "T < n" if "nx = Some n" for n
    using n [OF that] compute_forward [OF assms(2)] by blast
  moreover have "distinct (schedule_ids (update_row j (apply_schedule_update input nx) db))"
    using assms(1) by (simp add: update_row_ids apply_schedule_update_def won_below_def)
  ultimately show ?thesis
    unfolding eq
    by (intro won_below_change [OF assms(1)])
      (auto simp: update_row_def apply_schedule_update_def keep_old_def split: if_splits option.splits)
qed (use assms(1) in simp)

lemma tick_won_below:
  assumes "won_below i T db cs" "cron_forward cron" "sc_next_run_at s = Some c" "c \<le> now" "now \<le> now'" "now' \<le> T"
  shows "won_below i T (tick_one cron su k now now' s db) (if sc_id s = i \<and> wins cron now now' s db then cs @ [c] else cs)"
proof (rule tick_one_cases [OF assms(3), of cron now now' db su k])
  assume "\<not> wins cron now now' s db" "sd_schedules (tick_one cron su k now now' s db) = sd_schedules db"
  with assms(1) show ?thesis by (simp add: won_below_def schedule_ids_def)
next
  fix nx
  let ?f = "\<lambda>r. if sc_id r = sc_id s \<and> claimable c r then r\<lparr>sc_next_run_at := Some nx, sc_last_run_at := Some now\<rparr> else r"
  assume w: "wins cron now now' s db" and n: "computeNextRunAt cron now' (sc_cron_expr s) (sc_timezone s) = Some nx"
    and r: "\<exists>r \<in> set (sd_schedules db). sc_id r = sc_id s \<and> claimable c r"
    and rows: "sd_schedules (tick_one cron su k now now' s db) = map ?f (sd_schedules db)"
  have later: "c < nx" using compute_forward [OF assms(2) n] assms(4,5) by simp
  have ids: "schedule_ids (tick_one cron su k now now' s db) = schedule_ids db"
    by (simp add: schedule_ids_def rows)
  show ?thesis
  proof (cases "sc_id s = i")
    case True
    from r obtain r0 where r0: "r0 \<in> set (sd_schedules db)" "sc_id r0 = i" "claimable c r0" using True by auto
    have below: "\<forall>c' \<in> set cs. c' < c"
      using assms(1) r0 unfolding won_below_def claimable_def by blast
    have "inj_on sc_id (set (sd_schedules db))"
      using assms(1) by (simp add: won_below_def schedule_ids_def distinct_map)
    then have only: "r = r0" if "r \<in> set (sd_schedules db)" "sc_id r = i" for r
      using r0 that by (auto dest: inj_onD)
    have "c' < m" if "r \<in> set (map ?f (sd_schedules db))" "sc_id r = i" "sc_next_run_at r = Some m" "c' \<in> set (cs @ [c])" for r m c'
    proof -
      from that(1) obtain q where q: "q \<in> set (sd_schedules db)" "r = ?f q" by auto
      then have "q = r0" using that(2) only [of q] by (simp split: if_splits)
      with q(2) that(3) r0 True have "m = nx" by simp
      with below later that(4) show ?thesis by auto
    qed
    then have "\<forall>r \<in> set (sd_schedules (tick_one cron su k now now' s db)). \<forall>m. sc_id r = i \<longrightarrow> sc_next_run_at r = Some m \<longrightarrow>
        (\<forall>c' \<in> set (cs @ [c]). c' < m)"
      unfolding rows by blast
    moreover have "sorted_wrt (<) (cs @ [c])" "\<forall>c' \<in> set (cs @ [c]). c' \<le> T"
      using assms(1,4-6) below by (auto simp: won_below_def sorted_wrt_append)
    ultimately show ?thesis
      using assms(1) w True ids by (simp add: won_below_def)
  next
    case False
    then show ?thesis
      using ids assms(1)
      by (simp, intro won_below_change [OF assms(1)]) (auto simp: won_below_def rows split: if_splits)
  qed
qed

lemma sched_run_won_below:
  assumes "cron_forward cron"
  shows "sched_run cron i T db cs \<Longrightarrow> won_below i T db cs"
proof (induction rule: sched_run.induct)
  case (sch_init db T)
  then show ?case by (simp add: won_below_def)
next
  case (sch_wait T db cs T')
  then show ?case by (auto simp: won_below_def)
next
  case (sch_tick T db cs s c now now' su k)
  then show ?case using tick_won_below [OF _ assms] by blast
next
  case (sch_create T db cs newId t input)
  then show ?case using create_won_below [OF _ _ assms] by blast
next
  case (sch_update T db cs t j input)
  then show ?case using update_won_below [OF _ assms] by blast
next
  case (sch_delete T db cs t j)
  show ?case
    by (rule won_below_change [OF sch_delete.IH])
      (use sch_delete.IH in \<open>auto simp: won_below_def schedule_ids_def deleteSchedule_def distinct_map_filter split: sum.splits\<close>)
next
  case (sch_disable T db cs p)
  have "schedule_ids (disableByPipelineId p db) = schedule_ids db"
    by (simp add: schedule_ids_def disableByPipelineId_def)
  then show ?case
    using sch_disable.IH
    by (intro won_below_change [OF sch_disable.IH]) (auto simp: won_below_def disableByPipelineId_def split: if_splits)
qed


section \<open>A concrete schedule\<close>

definition minutely :: Cron where
  "minutely = \<lparr>cron_parses = (\<lambda>e. True), cron_next = (\<lambda>e tz t. Some (60 * (t div 60 + 1))), tz_supported = (\<lambda>tz. True)\<rparr>"

definition minutely_row :: ScheduleRow where
  "minutely_row = \<lparr>sc_id = ''s'', sc_pipeline_id = ''p'', sc_tenant_id = ''t'', sc_cron_expr = ''* * * * *'', sc_timezone = ''UTC'',
     sc_enabled = True, sc_input_template = [], sc_depends_on = [], sc_last_run_at = None, sc_next_run_at = Some 60, sc_created_at = 0\<rparr>"

definition minutely_db :: SchedDb where
  "minutely_db = \<lparr>sd_schedules = [minutely_row], sd_db = demo_runs\<rparr>"

lemma minutely_forward: "cron_forward minutely"
  by (auto simp: cron_forward_def minutely_def)

lemma minutely_wins: "wins minutely 61 61 minutely_row minutely_db"
  by (simp add: wins_def minutely_row_def minutely_db_def updateNextRunAt_def claimable_def)
    (simp add: computeNextRunAt_def expand_alias_def minutely_def CRON_ALIAS_MAP_def js_trim_def trim_left_def is_space_def object_prototype_def)


section \<open>Lost ticks and other surprises\<close>

text \<open>
  The tick is claimed before the run is triggered: when the trigger is refused, here because the pipeline
  is inactive, the due time is spent and no run exists.
\<close>

definition inactive_db :: SchedDb where
  "inactive_db = minutely_db\<lparr>sd_db := demo_runs\<lparr>rd_pipelines := [serial_row\<lparr>p_is_active := False\<rparr>]\<rparr>\<rparr>"

lemma refused_trigger_loses_tick:
  "rd_runs (sd_db (tick_one minutely demo_supply 0 61 61 minutely_row inactive_db)) = []"
  "map sc_next_run_at (sd_schedules (tick_one minutely demo_supply 0 61 61 minutely_row inactive_db)) = [Some 120]"
proof -
  have "computeNextRunAt minutely 61 ''* * * * *'' ''UTC'' = Some 120"
    by (simp add: computeNextRunAt_def expand_alias_def minutely_def CRON_ALIAS_MAP_def js_trim_def trim_left_def is_space_def
        object_prototype_def)
  then show "rd_runs (sd_db (tick_one minutely demo_supply 0 61 61 minutely_row inactive_db)) = []"
    "map sc_next_run_at (sd_schedules (tick_one minutely demo_supply 0 61 61 minutely_row inactive_db)) = [Some 120]"
    by (simp_all add: tick_one_def inactive_db_def minutely_db_def minutely_row_def updateNextRunAt_def update_row_def claimable_def
        triggerRun_def trigger_check_def run_findPipeline_def demo_runs_def serial_row_def)
qed

text \<open>An expression that is the name of an inherited member fails with a type error in place of the error for invalid expressions.\<close>

lemma inherited_cron_name: "validateCronExpression cron ''constructor'' = Some NotAFunction"
  by (simp add: validateCronExpression_def expand_alias_def CRON_ALIAS_MAP_def js_trim_def trim_left_def is_space_def object_prototype_def)

text \<open>An update without fields is refused by the repository.\<close>

lemma empty_update_refused:
  "sched_find db t i = Some r \<Longrightarrow> updateSchedule cron now t i no_schedule_update db = (Inl (ScheduleNoFields i), db)"
  by (simp add: updateSchedule_def getSchedule_def no_schedule_update_def check_opt_def)

text \<open>A loop started again after a stop has a timer and never does anything.\<close>

lemma restarted_loop_idle:
  "fst (startCronLoop cron su clock (stopCronLoop l) db) = \<lparr>cl_timer = True, cl_stopped = True\<rparr>"
  "loop_tick cron su' clock' (fst (startCronLoop cron su clock (stopCronLoop l) db)) db' = db'"
  by (simp_all add: startCronLoop_def stopCronLoop_def loop_tick_def cronTick_def)

end
