(* ===== verification/DiffService.thy ===== *)
theory DiffService
  imports StringOps "HOL-Library.List_Lexorder" "HOL-Library.Char_ord"
begin

text \<open>
  Line differences between versions of an app, \<^verbatim>\<open>services/app/src/services/diff-service.ts\<close>: the table of
  longest common subsequences, the edit script read off it, hunks with context, and the comparison of
  two file snapshots.  Lines are compared only for equality, so everything up to the hunks works on
  lines of any type.
\<close>

section \<open>Edit scripts\<close>

datatype DiffOperation = Equal | Insert | Delete

record 'l LineDiff =
  ld_operation :: DiffOperation
  ld_lineNumber :: nat
  ld_content :: 'l

record 'l DiffHunk =
  hk_oldStart :: nat
  hk_oldLines :: nat
  hk_newStart :: nat
  hk_newLines :: nat
  hk_lines :: "'l LineDiff list"

record FileDiff =
  fd_path :: string
  fd_hunks :: "string DiffHunk list"
  fd_additions :: nat
  fd_deletions :: nat

record SnapshotDiff =
  sn_added :: "string list"
  sn_removed :: "string list"
  sn_modified :: "FileDiff list"

definition line_diff :: "DiffOperation \<Rightarrow> nat \<Rightarrow> 'l \<Rightarrow> 'l LineDiff" where
  "line_diff op n c = \<lparr>ld_operation = op, ld_lineNumber = n, ld_content = c\<rparr>"

text \<open>\<^verbatim>\<open>dp[i][j]\<close>, one cell, one row and all rows.\<close>

definition dp_cell :: "'l list \<Rightarrow> 'l list \<Rightarrow> nat \<Rightarrow> nat \<Rightarrow> nat list list \<Rightarrow> nat" where
  "dp_cell oldLines newLines i j dp =
     (if oldLines ! (i - 1) = newLines ! (j - 1) then dp ! (i - 1) ! (j - 1) + 1
      else max (dp ! (i - 1) ! j) (dp ! i ! (j - 1)))"

definition dp_row :: "'l list \<Rightarrow> 'l list \<Rightarrow> nat \<Rightarrow> nat list list \<Rightarrow> nat list list" where
  "dp_row oldLines newLines i dp =
     fold (\<lambda>j dp. dp[i := (dp ! i)[j := dp_cell oldLines newLines i j dp]]) [1..<Suc (length newLines)] dp"

definition dp_table :: "'l list \<Rightarrow> 'l list \<Rightarrow> nat list list" where
  "dp_table oldLines newLines =
     fold (dp_row oldLines newLines) [1..<Suc (length oldLines)]
       (replicate (Suc (length oldLines)) (replicate (Suc (length newLines)) 0))"

text \<open>The walk back from the last cell; entries are pushed, the caller reverses them.\<close>

function trace_back :: "'l list \<Rightarrow> 'l list \<Rightarrow> nat list list \<Rightarrow> nat \<Rightarrow> nat \<Rightarrow> 'l LineDiff list \<Rightarrow> 'l LineDiff list" where
  "trace_back oldLines newLines dp i j script =
     (if i = 0 \<and> j = 0 then script
      else if 0 < i \<and> 0 < j \<and> oldLines ! (i - 1) = newLines ! (j - 1)
      then trace_back oldLines newLines dp (i - 1) (j - 1) (script @ [line_diff Equal j (newLines ! (j - 1))])
      else if 0 < j \<and> (i = 0 \<or> dp ! i ! (j - 1) \<ge> dp ! (i - 1) ! j)
      then trace_back oldLines newLines dp i (j - 1) (script @ [line_diff Insert j (newLines ! (j - 1))])
      else trace_back oldLines newLines dp (i - 1) j (script @ [line_diff Delete i (oldLines ! (i - 1))]))"
  by pat_completeness auto
termination by (relation "measure (\<lambda>(oldLines, newLines, dp, i, j, script). i + j)") auto

definition computeLineDiffs :: "'l list \<Rightarrow> 'l list \<Rightarrow> 'l LineDiff list" where
  "computeLineDiffs oldLines newLines =
     rev (trace_back oldLines newLines (dp_table oldLines newLines) (length oldLines) (length newLines) [])"

section \<open>Hunks\<close>

definition CONTEXT_LINES :: nat where
  "CONTEXT_LINES = 3"

definition changed_indices :: "'l LineDiff list \<Rightarrow> nat list" where
  "changed_indices script = filter (\<lambda>idx. ld_operation (script ! idx) \<noteq> Equal) [0..<length script]"

text \<open>The range that is open and the remaining indices.  \<open>n\<close> is the length of the script.\<close>

fun range_loop :: "nat \<Rightarrow> nat \<Rightarrow> nat \<Rightarrow> nat list \<Rightarrow> (nat \<times> nat) list" where
  "range_loop n rangeStart rangeEnd [] = [(rangeStart, rangeEnd)]"
| "range_loop n rangeStart rangeEnd (k # ks) =
     (let expandedStart = k - CONTEXT_LINES
      in if expandedStart \<le> rangeEnd + 1 then range_loop n rangeStart (min (n - 1) (k + CONTEXT_LINES)) ks
         else (rangeStart, rangeEnd) # range_loop n expandedStart (min (n - 1) (k + CONTEXT_LINES)) ks)"

definition hunk_ranges :: "'l LineDiff list \<Rightarrow> (nat \<times> nat) list" where
  "hunk_ranges script =
     (case changed_indices script of
        [] \<Rightarrow> []
      | k # ks \<Rightarrow> range_loop (length script) (k - CONTEXT_LINES) (min (length script - 1) (k + CONTEXT_LINES)) ks)"

definition count_ops :: "DiffOperation list \<Rightarrow> 'l LineDiff list \<Rightarrow> nat" where
  "count_ops ops script = length (filter (\<lambda>d. ld_operation d \<in> set ops) script)"

text \<open>The lines of a hunk, numbered anew.\<close>

fun hunk_lines :: "nat \<Rightarrow> nat \<Rightarrow> 'l LineDiff list \<Rightarrow> 'l LineDiff list" where
  "hunk_lines localOld localNew [] = []"
| "hunk_lines localOld localNew (d # ds) =
     (case ld_operation d of
        Equal \<Rightarrow> line_diff Equal localNew (ld_content d) # hunk_lines (localOld + 1) (localNew + 1) ds
      | Delete \<Rightarrow> line_diff Delete localOld (ld_content d) # hunk_lines (localOld + 1) localNew ds
      | Insert \<Rightarrow> line_diff Insert localNew (ld_content d) # hunk_lines localOld (localNew + 1) ds)"

definition hunk_of :: "'l LineDiff list \<Rightarrow> nat \<times> nat \<Rightarrow> 'l DiffHunk" where
  "hunk_of script r =
     (let before = take (fst r) script;
          covered = drop (fst r) (take (snd r + 1) script);
          oldLinesBefore = count_ops [Equal, Delete] before;
          newLinesBefore = count_ops [Equal, Insert] before
      in \<lparr>hk_oldStart = oldLinesBefore + 1, hk_oldLines = count_ops [Equal, Delete] covered,
          hk_newStart = newLinesBefore + 1, hk_newLines = count_ops [Equal, Insert] covered,
          hk_lines = hunk_lines (oldLinesBefore + 1) (newLinesBefore + 1) covered\<rparr>)"

definition groupIntoHunks :: "'l LineDiff list \<Rightarrow> 'l DiffHunk list" where
  "groupIntoHunks script = map (hunk_of script) (hunk_ranges script)"

section \<open>Files and snapshots\<close>

definition splitLines :: "string \<Rightarrow> string list" where
  "splitLines s =
     (let parts = js_split [CHR 0x0A] (js_replaceAll [CHR 0x0D, CHR 0x0A] [CHR 0x0A] s)
      in if parts = [[]] then [] else parts)"

definition diffFile :: "string \<Rightarrow> string \<Rightarrow> string \<Rightarrow> FileDiff option" where
  "diffFile path oldContent newContent =
     (if oldContent = newContent then None
      else let lineDiffs = computeLineDiffs (splitLines oldContent) (splitLines newContent)
           in Some \<lparr>fd_path = path, fd_hunks = groupIntoHunks lineDiffs,
                    fd_additions = count_ops [Insert] lineDiffs, fd_deletions = count_ops [Delete] lineDiffs\<rparr>)"

text \<open>
  Snapshots are plain objects.  \<open>collate\<close> gives the collation key by which \<^verbatim>\<open>localeCompare\<close> orders texts.
\<close>

definition computeDiff :: "(string \<Rightarrow> string) \<Rightarrow> (string, string) dict \<Rightarrow> (string, string) dict \<Rightarrow> SnapshotDiff" where
  "computeDiff collate oldFiles newFiles =
     \<lparr>sn_added = sort (filter (\<lambda>p. \<not> dict_has oldFiles p) (dict_keys newFiles)),
      sn_removed = sort (filter (\<lambda>p. \<not> dict_has newFiles p) (dict_keys oldFiles)),
      sn_modified = sort_key (\<lambda>d. collate (fd_path d))
        (concat (map (\<lambda>p. case (dict_get oldFiles p, dict_get newFiles p) of
                            (Some a, Some b) \<Rightarrow> (case diffFile p a b of Some d \<Rightarrow> [d] | None \<Rightarrow> [])
                          | _ \<Rightarrow> []) (dict_keys oldFiles)))\<rparr>"

end
