(* ===== verification/DiffProperties.thy ===== *)
theory DiffProperties
  imports DiffService
begin

text \<open>
  The edit script turns the old lines into the new ones with as few changes as possible, and the hunks
  are enough to do it: applying them to the old lines as a patch gives the new lines.
\<close>

section \<open>Scripts\<close>

definition old_side :: "'l LineDiff list \<Rightarrow> 'l list" where
  "old_side script = map ld_content (filter (\<lambda>d. ld_operation d \<noteq> Insert) script)"

definition new_side :: "'l LineDiff list \<Rightarrow> 'l list" where
  "new_side script = map ld_content (filter (\<lambda>d. ld_operation d \<noteq> Delete) script)"

lemma sides_simps [simp]:
  "old_side [] = []" "new_side [] = []"
  "old_side (d # script) = (if ld_operation d = Insert then [] else [ld_content d]) @ old_side script"
  "new_side (d # script) = (if ld_operation d = Delete then [] else [ld_content d]) @ new_side script"
  "old_side (script @ script') = old_side script @ old_side script'"
  "new_side (script @ script') = new_side script @ new_side script'"
  by (simp_all add: old_side_def new_side_def)

lemma line_diff_simps [simp]:
  "ld_operation (line_diff op n c) = op" "ld_lineNumber (line_diff op n c) = n" "ld_content (line_diff op n c) = c"
  by (simp_all add: line_diff_def)

lemma count_ops_simps [simp]:
  "count_ops ops [] = 0"
  "count_ops ops (d # script) = (if ld_operation d \<in> set ops then 1 else 0) + count_ops ops script"
  "count_ops ops (script @ script') = count_ops ops script + count_ops ops script'"
  by (simp_all add: count_ops_def)

lemma side_lengths:
  "length (old_side script) = count_ops [Equal, Delete] script"
  "length (new_side script) = count_ops [Equal, Insert] script"
  by (induction script) (use DiffOperation.exhaust in auto)

lemma changes_by_equal:
  "count_ops [Insert, Delete] script + 2 * count_ops [Equal] script = length (old_side script) + length (new_side script)"
  by (induction script) (use DiffOperation.exhaust in auto)

section \<open>The table\<close>

text \<open>Longest common subsequence of the first \<open>i\<close> old and the first \<open>j\<close> new lines.\<close>

fun lcs :: "'l list \<Rightarrow> 'l list \<Rightarrow> nat \<Rightarrow> nat \<Rightarrow> nat" where
  "lcs xs ys 0 j = 0"
| "lcs xs ys (Suc i) 0 = 0"
| "lcs xs ys (Suc i) (Suc j) =
     (if xs ! i = ys ! j then Suc (lcs xs ys i j) else max (lcs xs ys i (Suc j)) (lcs xs ys (Suc i) j))"

lemma lcs_zero [simp]: "lcs xs ys i 0 = 0"
  by (cases i) auto

lemma lcs_steps:
  "lcs xs ys i j \<le> lcs xs ys (Suc i) j \<and> lcs xs ys i j \<le> lcs xs ys i (Suc j) \<and>
   lcs xs ys (Suc i) j \<le> Suc (lcs xs ys i j) \<and> lcs xs ys i (Suc j) \<le> Suc (lcs xs ys i j)"
proof (induction "i + j" arbitrary: i j rule: less_induct)
  case less
  show ?case
  proof (cases i; cases j)
    fix j' assume "i = 0" "j = Suc j'"
    with less [of 0 j'] show ?thesis by auto
  next
    fix i' assume "i = Suc i'" "j = 0"
    with less [of i' 0] show ?thesis by auto
  next
    fix i' j' assume "i = Suc i'" "j = Suc j'"
    with less [of i' "Suc j'"] less [of "Suc i'" j'] show ?thesis by (auto simp: max_def)
  qed auto
qed

text \<open>The cells filled when row \<open>i\<close> is done up to column \<open>j\<close>.\<close>

definition filled :: "'l list \<Rightarrow> 'l list \<Rightarrow> nat \<Rightarrow> nat \<Rightarrow> nat list list \<Rightarrow> bool" where
  "filled xs ys i j dp \<longleftrightarrow>
     length dp = Suc (length xs) \<and> (\<forall>row \<in> set dp. length row = Suc (length ys)) \<and>
     (\<forall>i' j'. i' \<le> length xs \<and> j' \<le> length ys \<and> (i' < i \<or> i' = i \<and> j' \<le> j \<or> j' = 0) \<longrightarrow> dp ! i' ! j' = lcs xs ys i' j')"

lemma filled_cell:
  assumes "filled xs ys i j dp" "0 < i" "i \<le> length xs" "Suc j \<le> length ys"
  shows "filled xs ys i (Suc j) (dp[i := (dp ! i)[Suc j := dp_cell xs ys i (Suc j) dp]])"
proof -
  obtain k where k: "i = Suc k" using assms(2) by (cases i) auto
  have "length (dp ! i) = Suc (length ys)" using assms(1,3) by (auto simp: filled_def)
  moreover have "dp_cell xs ys i (Suc j) dp = lcs xs ys i (Suc j)"
    using assms by (auto simp: filled_def dp_cell_def k)
  ultimately show ?thesis
    using assms unfolding filled_def
    by (auto simp: nth_list_update dest!: set_update_subset_insert [THEN subsetD] intro: le_SucE)
qed

lemma filled_row:
  assumes "filled xs ys i 0 dp" "0 < i" "i \<le> length xs" "j \<le> length ys"
  shows "filled xs ys i j (fold (\<lambda>j dp. dp[i := (dp ! i)[j := dp_cell xs ys i j dp]]) [1..<Suc j] dp)"
  using assms(4)
proof (induction j)
  case (Suc j)
  then show ?case using filled_cell [OF _ assms(2,3), of ys j] by simp
qed (use assms(1) in simp)

lemma filled_next: "filled xs ys i (length ys) dp \<Longrightarrow> filled xs ys (Suc i) 0 dp"
  by (auto simp: filled_def less_Suc_eq)

lemma filled_rows:
  "i \<le> length xs \<Longrightarrow>
   filled xs ys (Suc i) 0 (fold (dp_row xs ys) [1..<Suc i] (replicate (Suc (length xs)) (replicate (Suc (length ys)) 0)))"
proof (induction i)
  case 0
  have "replicate (Suc (length xs)) (replicate (Suc (length ys)) (0 :: nat)) ! i' ! j' = 0"
    if "i' \<le> length xs" "j' \<le> length ys" for i' j'
    using that by (simp del: replicate.simps)
  then show ?case by (auto simp: filled_def simp del: replicate.simps)
next
  case (Suc i)
  let ?dp = "fold (dp_row xs ys) [1..<Suc i] (replicate (Suc (length xs)) (replicate (Suc (length ys)) 0))"
  have "filled xs ys (Suc i) (length ys) (dp_row xs ys (Suc i) ?dp)"
    unfolding dp_row_def [of xs ys "Suc i" ?dp]
    by (rule filled_row) (rule Suc.IH, use Suc.prems in simp_all)
  from filled_next [OF this] show ?case by (simp only: upt_Suc_append fold_append) simp
qed

lemma dp_table_lcs:
  "i \<le> length xs \<Longrightarrow> j \<le> length ys \<Longrightarrow> dp_table xs ys ! i ! j = lcs xs ys i j"
  using filled_rows [of "length xs" xs ys] by (simp add: dp_table_def filled_def del: replicate.simps)

section \<open>The script\<close>

text \<open>\<open>script_from i j\<close>: a script for the first \<open>i\<close> old and \<open>j\<close> new lines that keeps as many lines as \<open>lcs\<close> says.\<close>

definition best_script :: "'l list \<Rightarrow> 'l list \<Rightarrow> nat \<Rightarrow> nat \<Rightarrow> 'l LineDiff list \<Rightarrow> bool" where
  "best_script xs ys i j script \<longleftrightarrow>
     old_side script = take i xs \<and> new_side script = take j ys \<and> count_ops [Equal] script = lcs xs ys i j"

declare trace_back.simps [simp del]

lemma trace_back_steps:
  "trace_back xs ys dp 0 0 acc = acc"
  "xs ! i = ys ! j \<Longrightarrow>
   trace_back xs ys dp (Suc i) (Suc j) acc = trace_back xs ys dp i j (acc @ [line_diff Equal (Suc j) (ys ! j)])"
  "i = 0 \<or> xs ! (i - 1) \<noteq> ys ! j \<and> dp ! (i - 1) ! Suc j \<le> dp ! i ! j \<Longrightarrow>
   trace_back xs ys dp i (Suc j) acc = trace_back xs ys dp i j (acc @ [line_diff Insert (Suc j) (ys ! j)])"
  "j = 0 \<or> xs ! i \<noteq> ys ! (j - 1) \<and> dp ! Suc i ! (j - 1) < dp ! i ! j \<Longrightarrow>
   trace_back xs ys dp (Suc i) j acc = trace_back xs ys dp i j (acc @ [line_diff Delete (Suc i) (xs ! i)])"
  by (subst trace_back.simps, force)+

lemma trace_back_best:
  assumes dp: "\<And>i j. i \<le> length xs \<Longrightarrow> j \<le> length ys \<Longrightarrow> dp ! i ! j = lcs xs ys i j"
  shows "i \<le> length xs \<Longrightarrow> j \<le> length ys \<Longrightarrow>
    \<exists>script. trace_back xs ys dp i j acc = acc @ rev script \<and> best_script xs ys i j script"
proof (induction "i + j" arbitrary: i j acc rule: less_induct)
  case less
  have step: ?case
    if "i' + j' < i + j" "trace_back xs ys dp i j acc = trace_back xs ys dp i' j' (acc @ [d])" "i' \<le> length xs" "j' \<le> length ys"
      "\<And>script. best_script xs ys i' j' script \<Longrightarrow> best_script xs ys i j (script @ [d])" for i' j' d
  proof -
    from less.hyps [OF that(1,3,4)] obtain s where
      "trace_back xs ys dp i' j' (acc @ [d]) = (acc @ [d]) @ rev s" "best_script xs ys i' j' s" by blast
    with that(2,5) show ?thesis by (intro exI [of _ "s @ [d]"]) simp
  qed
  consider "i = 0" "j = 0" | i' j' where "i = Suc i'" "j = Suc j'" "xs ! i' = ys ! j'"
    | j' where "j = Suc j'" "i = 0 \<or> xs ! (i - 1) \<noteq> ys ! j' \<and> dp ! (i - 1) ! j \<le> dp ! i ! j'"
    | i' where "i = Suc i'" "j = 0 \<or> xs ! i' \<noteq> ys ! (j - 1) \<and> dp ! i ! (j - 1) < dp ! i' ! j"
    by (cases i; cases j) (simp, simp, simp, metis diff_Suc_1 not_le)
  then show ?case
  proof cases
    case 1
    then show ?thesis by (intro exI [of _ "[]"]) (simp add: trace_back_steps best_script_def)
  next
    case (2 i' j')
    then show ?thesis using less.prems
      by (intro step [of i' j' "line_diff Equal j (ys ! j')"])
        (auto simp: trace_back_steps best_script_def take_Suc_conv_app_nth)
  next
    case (3 j')
    then have "lcs xs ys i j' = lcs xs ys i j"
      using less.prems dp [of "i - 1" j] dp [of i j'] by (cases i) auto
    with 3 show ?thesis using less.prems
      by (intro step [of i j' "line_diff Insert j (ys ! j')"])
        (auto simp: trace_back_steps best_script_def take_Suc_conv_app_nth)
  next
    case (4 i')
    then have "lcs xs ys i' j = lcs xs ys i j"
      using less.prems dp [of i' j] dp [of i "j - 1"] by (cases j) auto
    with 4 show ?thesis using less.prems
      by (intro step [of i' j "line_diff Delete i (xs ! i')"])
        (auto simp: trace_back_steps best_script_def take_Suc_conv_app_nth)
  qed
qed

lemma computeLineDiffs_best: "best_script xs ys (length xs) (length ys) (computeLineDiffs xs ys)"
  using trace_back_best [of xs ys "dp_table xs ys" "length xs" "length ys" "[]"] dp_table_lcs [of _ xs _ ys]
  by (auto simp: computeLineDiffs_def)

lemma equal_lines_bounded:
  "old_side script = take i xs \<Longrightarrow> new_side script = take j ys \<Longrightarrow> i \<le> length xs \<Longrightarrow> j \<le> length ys \<Longrightarrow>
   count_ops [Equal] script \<le> lcs xs ys i j"
proof (induction script arbitrary: i j rule: rev_induct)
  case (snoc d script)
  have old: "\<exists>i'. i = Suc i' \<and> old_side script = take i' xs \<and> xs ! i' = ld_content d" if "ld_operation d \<noteq> Insert"
    using that snoc.prems by (cases i) (auto simp: take_Suc_conv_app_nth)
  have new: "\<exists>j'. j = Suc j' \<and> new_side script = take j' ys \<and> ys ! j' = ld_content d" if "ld_operation d \<noteq> Delete"
    using that snoc.prems by (cases j) (auto simp: take_Suc_conv_app_nth)
  show ?case
  proof (cases "ld_operation d")
    case Equal
    with old new obtain i' j' where "i = Suc i'" "j = Suc j'" "old_side script = take i' xs" "new_side script = take j' ys"
      "xs ! i' = ys ! j'" by auto
    then show ?thesis using snoc.IH [of i' j'] snoc.prems Equal by simp
  next
    case Insert
    with new obtain j' where "j = Suc j'" "new_side script = take j' ys" by auto
    then show ?thesis
      using snoc.IH [of i j'] snoc.prems Insert lcs_steps [of xs ys i j'] by simp
  next
    case Delete
    with old obtain i' where "i = Suc i'" "old_side script = take i' xs" by auto
    then show ?thesis
      using snoc.IH [of i' j] snoc.prems Delete lcs_steps [of xs ys i' j] by simp
  qed
qed simp

text \<open>
  Property C39: the computed script deletes and keeps exactly the old lines, inserts and keeps exactly the new
  ones, and no script that does so has fewer insertions and deletions.
\<close>

theorem computeLineDiffs_minimal:
  "old_side (computeLineDiffs xs ys) = xs \<and> new_side (computeLineDiffs xs ys) = ys \<and>
   (\<forall>script. old_side script = xs \<longrightarrow> new_side script = ys \<longrightarrow>
      count_ops [Insert, Delete] (computeLineDiffs xs ys) \<le> count_ops [Insert, Delete] script)"
proof (intro conjI allI impI)
  show "old_side (computeLineDiffs xs ys) = xs" "new_side (computeLineDiffs xs ys) = ys"
    using computeLineDiffs_best [of xs ys] by (simp_all add: best_script_def)
next
  fix script assume "old_side script = xs" "new_side script = ys"
  then show "count_ops [Insert, Delete] (computeLineDiffs xs ys) \<le> count_ops [Insert, Delete] script"
    using computeLineDiffs_best [of xs ys] equal_lines_bounded [of script "length xs" xs "length ys" ys]
      changes_by_equal [of script] changes_by_equal [of "computeLineDiffs xs ys"]
    by (simp add: best_script_def)
qed

theorem computeLineDiffs_minimal_witness:
  "count_ops [Insert, Delete] (computeLineDiffs [1, 2, 3 :: nat] [1, 3, 4]) \<le>
   count_ops [Insert, Delete] [line_diff Equal 1 1, line_diff Delete 2 2, line_diff Equal 2 3, line_diff Insert 3 (4 :: nat)]"
  by (rule computeLineDiffs_minimal [THEN conjunct2, THEN conjunct2, rule_format]) simp_all

section \<open>Hunks as a patch\<close>

text \<open>
  Strict application of hunks to the old lines from position \<open>p\<close> on, with \<open>q\<close> lines written so far: the lines
  between hunks are copied, a hunk must sit where it says and match the old lines there.
\<close>

fun patch :: "nat \<Rightarrow> nat \<Rightarrow> 'l DiffHunk list \<Rightarrow> 'l list \<Rightarrow> 'l list option" where
  "patch p q [] xs = Some xs"
| "patch p q (h # hs) xs =
     (let gap = hk_oldStart h - 1 - p in
      if p < hk_oldStart h \<and> hk_newStart h = Suc (q + gap) \<and> take (hk_oldLines h) (drop gap xs) = old_side (hk_lines h) \<and>
         hk_newLines h = length (new_side (hk_lines h))
      then map_option (\<lambda>rest. take gap xs @ new_side (hk_lines h) @ rest)
             (patch (p + gap + hk_oldLines h) (q + gap + hk_newLines h) hs (drop (gap + hk_oldLines h) xs))
      else None)"

lemma hunk_lines_sides [simp]:
  "old_side (hunk_lines a b script) = old_side script" "new_side (hunk_lines a b script) = new_side script"
  by (induction a b script rule: hunk_lines.induct) (auto split: DiffOperation.split)

lemma hunk_of_part:
  "C \<noteq> [] \<Longrightarrow> hunk_of (B @ C @ R) (length B, length B + length C - 1) =
     \<lparr>hk_oldStart = Suc (length (old_side B)), hk_oldLines = length (old_side C),
      hk_newStart = Suc (length (new_side B)), hk_newLines = length (new_side C),
      hk_lines = hunk_lines (Suc (length (old_side B))) (Suc (length (new_side B))) C\<rparr>"
  by (cases C) (use DiffOperation.exhaust in \<open>auto simp: hunk_of_def side_lengths Let_def\<close>)

lemma unchanged_sides:
  "(\<And>d. d \<in> set script \<Longrightarrow> ld_operation d = Equal) \<Longrightarrow>
   new_side script = old_side script \<and> length (old_side script) = length script"
  by (induction script) auto

text \<open>The ranges lie one after the other and cover every change from \<open>p\<close> on.\<close>

definition unchanged :: "'l LineDiff list \<Rightarrow> nat \<Rightarrow> nat \<Rightarrow> bool" where
  "unchanged script p s \<longleftrightarrow> (\<forall>x. p \<le> x \<and> x < s \<longrightarrow> ld_operation (script ! x) = Equal)"

fun ranges_ok :: "'l LineDiff list \<Rightarrow> nat \<Rightarrow> (nat \<times> nat) list \<Rightarrow> bool" where
  "ranges_ok script p [] \<longleftrightarrow> unchanged script p (length script)"
| "ranges_ok script p ((s, e) # rs) \<longleftrightarrow>
     p \<le> s \<and> s \<le> e \<and> e < length script \<and> unchanged script p s \<and> ranges_ok script (Suc e) rs"

lemma unchanged_part:
  "unchanged script p s \<Longrightarrow> s \<le> length script \<Longrightarrow>
   new_side (drop p (take s script)) = old_side (drop p (take s script)) \<and>
   length (old_side (drop p (take s script))) = length (drop p (take s script))"
  by (rule unchanged_sides) (auto simp: unchanged_def in_set_conv_nth)

lemma take_split: "p \<le> s \<Longrightarrow> take s xs = take p xs @ drop p (take s xs)"
  by (metis append_take_drop_id min.absorb1 take_take)

lemma patch_ranges:
  "ranges_ok script p rs \<Longrightarrow> p \<le> length script \<Longrightarrow>
   patch (length (old_side (take p script))) (length (new_side (take p script))) (map (hunk_of script) rs)
     (old_side (drop p script)) = Some (new_side (drop p script))"
proof (induction script p rs rule: ranges_ok.induct)
  case (1 script p)
  then show ?case using unchanged_part [of script p "length script"] by simp
next
  case (2 script p s e rs)
  define A G C R where "A = take p script" and "G = drop p (take s script)" and "C = drop s (take (Suc e) script)"
    and "R = drop (Suc e) script"
  have parts: "take s script = A @ G" "take (Suc e) script = A @ G @ C" "script = (A @ G) @ C @ R" "drop p script = G @ C @ R"
  proof -
    show AG: "take s script = A @ G"
      using "2.prems" take_split [of p s script] by (simp add: A_def G_def)
    show AGC: "take (Suc e) script = A @ G @ C"
      using "2.prems" take_split [of s "Suc e" script] AG by (simp add: C_def)
    show "script = (A @ G) @ C @ R"
      using append_take_drop_id [of "Suc e" script] AGC by (simp add: R_def)
    then have "A @ drop p script = A @ G @ C @ R"
      using append_take_drop_id [of p script] by (simp add: A_def)
    then show "drop p script = G @ C @ R" by simp
  qed
  have len: "s = length (A @ G)" "e = length (A @ G) + length C - 1" "C \<noteq> []"
    using "2.prems" by (auto simp: A_def G_def C_def min_def)
  have G: "new_side G = old_side G" "length (old_side G) = length G"
    using unchanged_part [of script p s] "2.prems" by (auto simp: G_def)
  have hunk: "hunk_of script (s, e) =
     \<lparr>hk_oldStart = Suc (length (old_side (A @ G))), hk_oldLines = length (old_side C),
      hk_newStart = Suc (length (new_side (A @ G))), hk_newLines = length (new_side C),
      hk_lines = hunk_lines (Suc (length (old_side (A @ G)))) (Suc (length (new_side (A @ G)))) C\<rparr>"
    unfolding len(1,2) by (subst parts(3), rule hunk_of_part, rule len(3))
  have rest: "patch (length (old_side (A @ G @ C))) (length (new_side (A @ G @ C))) (map (hunk_of script) rs) (old_side R) =
      Some (new_side R)"
    using "2.IH" "2.prems" by (simp add: parts(2) R_def)
  show ?case
    using rest by (simp add: hunk parts(4) A_def [symmetric] G Let_def add.assoc)
qed

lemma gap_unchanged:
  "(\<And>x. p \<le> x \<Longrightarrow> x < s \<Longrightarrow> ld_operation (script ! x) \<noteq> Equal \<Longrightarrow> False) \<Longrightarrow> unchanged script p s"
  by (auto simp: unchanged_def)

lemma range_loop_ok:
  assumes "p \<le> rs" "rs \<le> re" "re < length script" "sorted ks"
    "\<And>k. k \<in> set ks \<Longrightarrow> k < length script \<and> rs \<le> k \<and> re \<le> k + CONTEXT_LINES"
    "\<And>x. p \<le> x \<Longrightarrow> x < length script \<Longrightarrow> ld_operation (script ! x) \<noteq> Equal \<Longrightarrow> rs \<le> x \<and> x \<le> re \<or> x \<in> set ks"
  shows "ranges_ok script p (range_loop (length script) rs re ks)"
  using assms
proof (induction "length script" rs re ks arbitrary: p rule: range_loop.induct)
  case (1 rs re)
  have "unchanged script p rs"
    using "1.prems"(2,3,6) by (intro gap_unchanged) force
  moreover have "unchanged script (Suc re) (length script)"
  proof (rule gap_unchanged)
    fix x assume "Suc re \<le> x" "x < length script" "ld_operation (script ! x) \<noteq> Equal"
    with "1.prems"(6) [of x] "1.prems"(1,2) show False by simp
  qed
  ultimately show ?case using "1.prems"(1-3) by simp
next
  case (2 rs re k ks)
  have k: "k < length script" "rs \<le> k" "re \<le> k + CONTEXT_LINES" "\<And>k'. k' \<in> set ks \<Longrightarrow> k \<le> k'"
    using "2.prems"(4,5) by auto
  show ?case
  proof (cases "k - CONTEXT_LINES \<le> re + 1")
    case True
    have "ranges_ok script p (range_loop (length script) rs (min (length script - 1) (k + CONTEXT_LINES)) ks)"
    proof (rule "2.hyps"(1) [OF refl True])
      fix x assume "p \<le> x" "x < length script" "ld_operation (script ! x) \<noteq> Equal"
      with "2.prems"(6) [OF this] k show "rs \<le> x \<and> x \<le> min (length script - 1) (k + CONTEXT_LINES) \<or> x \<in> set ks" by auto
    qed (use "2.prems" k in \<open>force+\<close>)
    with True show ?thesis by (simp add: Let_def)
  next
    case False
    have "ranges_ok script (Suc re)
        (range_loop (length script) (k - CONTEXT_LINES) (min (length script - 1) (k + CONTEXT_LINES)) ks)"
    proof (rule "2.hyps"(2) [OF refl False])
      fix x assume "Suc re \<le> x" "x < length script" "ld_operation (script ! x) \<noteq> Equal"
      with "2.prems"(1,2) "2.prems"(6) [of x] k
      show "k - CONTEXT_LINES \<le> x \<and> x \<le> min (length script - 1) (k + CONTEXT_LINES) \<or> x \<in> set ks" by auto
    qed (use "2.prems" k False in \<open>force+\<close>)
    moreover have "unchanged script p rs"
      using "2.prems"(2,3,5,6) by (intro gap_unchanged; force)
    ultimately show ?thesis using False "2.prems"(1-3) by (simp add: Let_def)
  qed
qed

lemma hunk_ranges_ok: "ranges_ok script 0 (hunk_ranges script)"
proof (cases "changed_indices script")
  case Nil
  then show ?thesis by (simp add: hunk_ranges_def changed_indices_def filter_empty_conv unchanged_def)
next
  case (Cons k ks)
  then have "sorted (k # ks)"
    using sorted_wrt_filter [OF sorted_wrt_upt, of _ 0 "length script"] unfolding changed_indices_def
    by (metis strict_sorted_imp_sorted)
  then have ks: "sorted ks" "\<And>x. x \<in> set ks \<Longrightarrow> k \<le> x" by auto
  have mem: "x \<in> set (k # ks) \<longleftrightarrow> x < length script \<and> ld_operation (script ! x) \<noteq> Equal" for x
    unfolding Cons [symmetric] by (auto simp: changed_indices_def)
  have k: "k < length script" using mem [of k] by simp
  show ?thesis
    unfolding hunk_ranges_def Cons list.case
  proof (rule range_loop_ok)
    fix x assume "x \<in> set ks"
    with ks(2) mem [of x]
    show "x < length script \<and> k - CONTEXT_LINES \<le> x \<and> min (length script - 1) (k + CONTEXT_LINES) \<le> x + CONTEXT_LINES"
      by fastforce
  next
    fix x assume "x < length script" "ld_operation (script ! x) \<noteq> Equal"
    with mem [of x]
    show "k - CONTEXT_LINES \<le> x \<and> x \<le> min (length script - 1) (k + CONTEXT_LINES) \<or> x \<in> set ks"
      by auto
  qed (use k ks(1) in auto)
qed

lemma hunks_fit: "patch 0 0 (groupIntoHunks (computeLineDiffs xs ys)) xs = Some ys"
  using patch_ranges [OF hunk_ranges_ok, of "computeLineDiffs xs ys"] computeLineDiffs_best [of xs ys]
  by (simp add: groupIntoHunks_def best_script_def)

section \<open>Files and snapshots\<close>

lemma count_changes:
  "count_ops [Insert] script + length (old_side script) = count_ops [Delete] script + length (new_side script)"
  by (induction script) (use DiffOperation.exhaust in auto)

text \<open>
  Property C40: the hunks of a file difference, applied as a strict patch to the old lines, fit everywhere and
  give the new lines, and the counts of additions and deletions account for the change in length.
\<close>

theorem diffFile_patch:
  assumes "diffFile path a b = Some d"
  shows "patch 0 0 (fd_hunks d) (splitLines a) = Some (splitLines b) \<and>
    fd_additions d + length (splitLines a) = fd_deletions d + length (splitLines b)"
  using assms hunks_fit [of "splitLines a" "splitLines b"] computeLineDiffs_best [of "splitLines a" "splitLines b"]
    count_changes [of "computeLineDiffs (splitLines a) (splitLines b)"]
  by (auto simp: diffFile_def best_script_def Let_def split: if_splits)

theorem diffFile_patch_witness:
  "\<exists>d. diffFile ''f'' ''a'' ''b'' = Some d \<and> patch 0 0 (fd_hunks d) (splitLines ''a'') = Some (splitLines ''b'')"
  using diffFile_patch [of "''f''" "''a''" "''b''"] by (auto simp: diffFile_def Let_def)

text \<open>A snapshot difference names every path on one side only and every path whose content differs.\<close>

lemma modified_files:
  "d \<in> set (sn_modified (computeDiff collate old new)) \<longleftrightarrow>
     (\<exists>p a b. dict_get old p = Some a \<and> dict_get new p = Some b \<and> diffFile p a b = Some d)"
proof
  assume "d \<in> set (sn_modified (computeDiff collate old new))"
  then show "\<exists>p a b. dict_get old p = Some a \<and> dict_get new p = Some b \<and> diffFile p a b = Some d"
    by (auto simp: computeDiff_def split: option.splits) metis
next
  assume "\<exists>p a b. dict_get old p = Some a \<and> dict_get new p = Some b \<and> diffFile p a b = Some d"
  then obtain p a b where *: "dict_get old p = Some a" "dict_get new p = Some b" "diffFile p a b = Some d" by blast
  then have "p \<in> fst ` set old" by (force dest: map_of_SomeD)
  with * show "d \<in> set (sn_modified (computeDiff collate old new))"
    by (force simp: computeDiff_def)
qed

lemma computeDiff_paths:
  "p \<in> set (sn_added (computeDiff collate old new)) \<longleftrightarrow> dict_has new p \<and> \<not> dict_has old p"
  "p \<in> set (sn_removed (computeDiff collate old new)) \<longleftrightarrow> dict_has old p \<and> \<not> dict_has new p"
  "p \<in> fd_path ` set (sn_modified (computeDiff collate old new)) \<longleftrightarrow>
     (\<exists>a b. dict_get old p = Some a \<and> dict_get new p = Some b \<and> a \<noteq> b)"
proof -
  show "p \<in> set (sn_added (computeDiff collate old new)) \<longleftrightarrow> dict_has new p \<and> \<not> dict_has old p"
    "p \<in> set (sn_removed (computeDiff collate old new)) \<longleftrightarrow> dict_has old p \<and> \<not> dict_has new p"
    by (auto simp: computeDiff_def)
  have path: "fd_path d = q" if "diffFile q a b = Some d" for q a b d
    using that by (auto simp: diffFile_def Let_def split: if_splits)
  have some: "(\<exists>d. diffFile q a b = Some d) \<longleftrightarrow> a \<noteq> b" for q a b
    by (simp add: diffFile_def Let_def)
  show "p \<in> fd_path ` set (sn_modified (computeDiff collate old new)) \<longleftrightarrow>
      (\<exists>a b. dict_get old p = Some a \<and> dict_get new p = Some b \<and> a \<noteq> b)"
  proof
    assume "p \<in> fd_path ` set (sn_modified (computeDiff collate old new))"
    then show "\<exists>a b. dict_get old p = Some a \<and> dict_get new p = Some b \<and> a \<noteq> b"
      using path some by (auto simp: modified_files) blast
  next
    assume "\<exists>a b. dict_get old p = Some a \<and> dict_get new p = Some b \<and> a \<noteq> b"
    then obtain a b d where *: "dict_get old p = Some a" "dict_get new p = Some b" "diffFile p a b = Some d"
      using some by blast
    then have "d \<in> set (sn_modified (computeDiff collate old new))" by (auto simp: modified_files)
    with path [OF *(3)] show "p \<in> fd_path ` set (sn_modified (computeDiff collate old new))" by blast
  qed
qed

text \<open>A change of line endings only is a modification without hunks.\<close>

lemma line_endings_only:
  "diffFile ''f'' [CHR ''x'', CHR 0x0D, CHR 0x0A] [CHR ''x'', CHR 0x0A] =
     Some \<lparr>fd_path = ''f'', fd_hunks = [], fd_additions = 0, fd_deletions = 0\<rparr>"
  by code_simp

end
