(* ===== verification/JsBytes.thy ===== *)
theory JsBytes
  imports JsPrelude "HOL-Library.Word"
begin

text \<open>
  The parts of the language's buffers that the ingestion service uses: reads of big-endian integers, which
  throw outside the buffer, search, slices, and the conversions of bytes to text.  Text that comes out of a
  buffer is a list of Unicode scalar values; UTF-8 is decoded with replacement characters.
\<close>

type_synonym byte = "8 word"
type_synonym buffer = "byte list"
type_synonym utext = "nat list"

datatype buffer_error = RangeError

definition sbind :: "'e + 'a \<Rightarrow> ('a \<Rightarrow> 'e + 'b) \<Rightarrow> 'e + 'b" where
  "sbind r f = (case r of Inl e \<Rightarrow> Inl e | Inr x \<Rightarrow> f x)"

lemma sbind_simps [simp]: "sbind (Inl e) f = Inl e" "sbind (Inr x) f = f x"
  by (simp_all add: sbind_def)

section \<open>Integers\<close>

definition be_nat :: "byte list \<Rightarrow> nat" where
  "be_nat bs = foldl (\<lambda>a b. a * 256 + unat b) 0 bs"

fun be_bytes :: "nat \<Rightarrow> nat \<Rightarrow> byte list" where
  "be_bytes 0 n = []"
| "be_bytes (Suc k) n = be_bytes k (n div 256) @ [of_nat (n mod 256)]"

text \<open>\<open>k\<close> bytes from \<open>offset\<close> on, which must all be in the buffer.\<close>

definition read_bytes :: "nat \<Rightarrow> buffer \<Rightarrow> int \<Rightarrow> buffer_error + byte list" where
  "read_bytes k buf offset =
     (if offset < 0 \<or> int (length buf) < offset + int k then Inl RangeError else Inr (take k (drop (nat offset) buf)))"

definition readUInt :: "nat \<Rightarrow> buffer \<Rightarrow> int \<Rightarrow> buffer_error + nat" where
  "readUInt k buf offset = (case read_bytes k buf offset of Inl e \<Rightarrow> Inl e | Inr bs \<Rightarrow> Inr (be_nat bs))"

definition signed32 :: "nat \<Rightarrow> int" where
  "signed32 n = (if n < 2147483648 then int n else int n - 4294967296)"

definition readInt32BE :: "buffer \<Rightarrow> int \<Rightarrow> buffer_error + int" where
  "readInt32BE buf offset = (case readUInt 4 buf offset of Inl e \<Rightarrow> Inl e | Inr n \<Rightarrow> Inr (signed32 n))"

lemma length_be_bytes [simp]: "length (be_bytes k n) = k"
  by (induction k arbitrary: n) auto

lemma be_bytes_code:
  "be_bytes 2 n = [of_nat (n div 256 mod 256), of_nat (n mod 256)]"
  "be_bytes 4 n = [of_nat (n div 16777216 mod 256), of_nat (n div 65536 mod 256), of_nat (n div 256 mod 256), of_nat (n mod 256)]"
proof -
  have "be_bytes (Suc (Suc 0)) n = [of_nat (n div 256 mod 256), of_nat (n mod 256)]" by simp
  then show "be_bytes 2 n = [of_nat (n div 256 mod 256), of_nat (n mod 256)]" by (simp only: numeral_2_eq_2)
  have "be_bytes (Suc (Suc (Suc (Suc 0)))) n =
      [of_nat (n div 16777216 mod 256), of_nat (n div 65536 mod 256), of_nat (n div 256 mod 256), of_nat (n mod 256)]"
    by (simp flip: div_mult2_eq)
  moreover have "4 = Suc (Suc (Suc (Suc 0)))" by simp
  ultimately show "be_bytes 4 n =
      [of_nat (n div 16777216 mod 256), of_nat (n div 65536 mod 256), of_nat (n div 256 mod 256), of_nat (n mod 256)]" by presburger
qed

lemma be_nat_snoc [simp]: "be_nat (bs @ [b]) = be_nat bs * 256 + unat b"
  by (simp add: be_nat_def)

lemma unat_byte [simp]: "unat (of_nat n :: byte) = n mod 256"
  by (simp add: unat_of_nat)

lemma be_nat_be_bytes: "be_nat (be_bytes k n) = n mod 256 ^ k"
proof (induction k arbitrary: n)
  case (Suc k)
  then show ?case by (simp add: mod_mult2_eq [of n 256 "256 ^ k"])
qed (simp add: be_nat_def)

lemma be_nat_bytes [simp]: "n < 256 ^ k \<Longrightarrow> be_nat (be_bytes k n) = n"
  by (simp add: be_nat_be_bytes)

section \<open>Search and slices\<close>

text \<open>\<^verbatim>\<open>buf.indexOf(value, offset)\<close> for an offset that is not negative.\<close>

definition index_of :: "byte \<Rightarrow> buffer \<Rightarrow> int \<Rightarrow> int" where
  "index_of b buf offset =
     (case find_index (\<lambda>x. x = b) (drop (nat offset) buf) of Some i \<Rightarrow> offset + int i | None \<Rightarrow> -1)"

text \<open>The bytes that \<^verbatim>\<open>buf.toString(encoding, start, end)\<close> decodes: both positions are clamped to the buffer.\<close>

definition text_range :: "buffer \<Rightarrow> int \<Rightarrow> int \<Rightarrow> byte list" where
  "text_range buf start stop =
     (let s = nat (max start 0); e = nat (max (min stop (int (length buf))) 0) in drop s (take e buf))"

text \<open>\<^verbatim>\<open>buf.subarray(start, end)\<close>: a negative position counts from the end.\<close>

definition from_end :: "buffer \<Rightarrow> int \<Rightarrow> nat" where
  "from_end buf p = (if p < 0 then nat (int (length buf) + p) else min (nat p) (length buf))"

definition subarray :: "buffer \<Rightarrow> int \<Rightarrow> int \<Rightarrow> buffer" where
  "subarray buf start stop = drop (from_end buf start) (take (from_end buf stop) buf)"

section \<open>UTF-8\<close>

text \<open>A lead byte gives the number of bytes to follow, its bits and the range of the next byte.\<close>

definition utf8_lead :: "nat \<Rightarrow> (nat \<times> nat \<times> nat \<times> nat) option" where
  "utf8_lead b =
     (if 0xC2 \<le> b \<and> b \<le> 0xDF then Some (1, b - 0xC0, 0x80, 0xBF)
      else if 0xE0 \<le> b \<and> b \<le> 0xEF
      then Some (2, b - 0xE0, if b = 0xE0 then 0xA0 else 0x80, if b = 0xED then 0x9F else 0xBF)
      else if 0xF0 \<le> b \<and> b \<le> 0xF4
      then Some (3, b - 0xF0, if b = 0xF0 then 0x90 else 0x80, if b = 0xF4 then 0x8F else 0xBF)
      else None)"

fun utf8_more :: "nat \<Rightarrow> nat \<Rightarrow> nat \<Rightarrow> nat \<Rightarrow> byte list \<Rightarrow> nat \<times> byte list" where
  "utf8_more 0 acc lo hi bs = (acc, bs)"
| "utf8_more (Suc n) acc lo hi [] = (0xFFFD, [])"
| "utf8_more (Suc n) acc lo hi (b # bs) =
     (if lo \<le> unat b \<and> unat b \<le> hi then utf8_more n (acc * 64 + (unat b - 0x80)) 0x80 0xBF bs else (0xFFFD, b # bs))"

lemma utf8_more_le: "length (snd (utf8_more n acc lo hi bs)) \<le> length bs"
  by (induction n acc lo hi bs rule: utf8_more.induct) auto

function utf8_decode :: "byte list \<Rightarrow> utext" where
  "utf8_decode [] = []"
| "utf8_decode (b # bs) =
     (if unat b < 0x80 then unat b # utf8_decode bs
      else case utf8_lead (unat b) of
             None \<Rightarrow> 0xFFFD # utf8_decode bs
           | Some (n, acc, lo, hi) \<Rightarrow>
               fst (utf8_more n acc lo hi bs) # utf8_decode (snd (utf8_more n acc lo hi bs)))"
  by pat_completeness auto
termination
  by (relation "measure length") (auto simp: less_Suc_eq_le utf8_more_le)

text \<open>The encoding of a scalar value.\<close>

definition utf8_char :: "nat \<Rightarrow> byte list" where
  "utf8_char c =
     map of_nat
       (if c < 0x80 then [c]
        else if c < 0x800 then [0xC0 + c div 64, 0x80 + c mod 64]
        else if c < 0x10000 then [0xE0 + c div 4096, 0x80 + c div 64 mod 64, 0x80 + c mod 64]
        else [0xF0 + c div 262144, 0x80 + c div 4096 mod 64, 0x80 + c div 64 mod 64, 0x80 + c mod 64])"

definition utf8_encode :: "utext \<Rightarrow> byte list" where
  "utf8_encode cs = concat (map utf8_char cs)"

definition scalar :: "nat \<Rightarrow> bool" where
  "scalar c \<longleftrightarrow> c < 0xD800 \<or> 0xE000 \<le> c \<and> c < 0x110000"

lemma utf8_more_byte:
  "lo \<le> x \<Longrightarrow> x \<le> hi \<Longrightarrow> x < 256 \<Longrightarrow>
   utf8_more (Suc n) acc lo hi (of_nat x # bs) = utf8_more n (acc * 64 + (x - 0x80)) 0x80 0xBF bs"
  by simp

lemma utf8_decode_lead:
  "0x80 \<le> x \<Longrightarrow> x < 256 \<Longrightarrow> utf8_lead x = Some (n, acc, lo, hi) \<Longrightarrow>
   utf8_decode (of_nat x # bs) = fst (utf8_more n acc lo hi bs) # utf8_decode (snd (utf8_more n acc lo hi bs))"
  by simp

declare utf8_more.simps(3) [simp del] utf8_decode.simps(2) [simp del]

lemma utf8_decode_2:
  assumes "2 \<le> q" "q < 32" "r < 64"
  shows "utf8_decode (of_nat (0xC0 + q) # of_nat (0x80 + r) # bs) = (q * 64 + r) # utf8_decode bs"
proof -
  have lead: "utf8_lead (0xC0 + q) = Some (Suc 0, q, 0x80, 0xBF)" using assms by (simp add: utf8_lead_def)
  show ?thesis using assms by (subst utf8_decode_lead [OF _ _ lead]) (simp_all add: utf8_more_byte del: of_nat_add)
qed

lemma utf8_decode_3:
  assumes "q < 16" "r < 64" "t < 64" "q = 0 \<Longrightarrow> 32 \<le> r" "q = 13 \<Longrightarrow> r < 32"
  shows "utf8_decode (of_nat (0xE0 + q) # of_nat (0x80 + r) # of_nat (0x80 + t) # bs) = ((q * 64 + r) * 64 + t) # utf8_decode bs"
proof -
  have lead: "utf8_lead (0xE0 + q) = Some (Suc (Suc 0), q, if q = 0 then 0xA0 else 0x80, if q = 13 then 0x9F else 0xBF)"
    using assms(1) by (simp add: utf8_lead_def numeral_2_eq_2)
  show ?thesis using assms
    by (cases "q = 13"; subst utf8_decode_lead [OF _ _ lead]; simp add: utf8_more_byte del: of_nat_add)
qed

lemma utf8_decode_4:
  assumes "q < 5" "r < 64" "t < 64" "u < 64" "q = 0 \<Longrightarrow> 16 \<le> r" "q = 4 \<Longrightarrow> r < 16"
  shows "utf8_decode (of_nat (0xF0 + q) # of_nat (0x80 + r) # of_nat (0x80 + t) # of_nat (0x80 + u) # bs) =
    (((q * 64 + r) * 64 + t) * 64 + u) # utf8_decode bs"
proof -
  have lead: "utf8_lead (0xF0 + q) = Some (Suc (Suc (Suc 0)), q, if q = 0 then 0x90 else 0x80, if q = 4 then 0x8F else 0xBF)"
    using assms(1) by (simp add: utf8_lead_def numeral_3_eq_3)
  show ?thesis using assms
    by (cases "q = 4"; subst utf8_decode_lead [OF _ _ lead]; simp add: utf8_more_byte del: of_nat_add)
qed

lemma base64_split:
  "c = c div 64 * 64 + c mod 64" "c div 64 = c div 4096 * 64 + c div 64 mod 64"
  "c div 4096 = c div 262144 * 64 + c div 4096 mod 64" for c :: nat
  using div_mult_mod_eq [of c 64] div_mult_mod_eq [of "c div 64" 64] div_mult_mod_eq [of "c div 4096" 64]
  by (simp_all flip: div_mult2_eq)

lemma utf8_decode_char:
  assumes "scalar c"
  shows "utf8_decode (utf8_char c @ bs) = c # utf8_decode bs"
proof -
  note split = base64_split [of c]
  consider "c < 0x80" | "0x80 \<le> c" "c < 0x800" | "0x800 \<le> c" "c < 0x10000" | "0x10000 \<le> c" "c < 0x110000"
    using assms by (force simp: scalar_def)
  then show ?thesis
  proof cases
    case 1
    then show ?thesis by (simp add: utf8_char_def utf8_decode.simps(2))
  next
    case 2
    then have *: "2 \<le> c div 64" "c div 64 < 32" by auto
    have "utf8_char c = [of_nat (0xC0 + c div 64), of_nat (0x80 + c mod 64)]"
      using 2 by (simp add: utf8_char_def)
    with * utf8_decode_2 [of "c div 64" "c mod 64" bs] split(1) show ?thesis by (simp del: of_nat_add)
  next
    case 3
    have "c div 4096 < 16" "c div 4096 = 0 \<Longrightarrow> 32 \<le> c div 64 mod 64" "c div 4096 = 13 \<Longrightarrow> c div 64 mod 64 < 32"
      using 3 assms split by (simp_all add: scalar_def) linarith+
    with 3 utf8_decode_3 [of "c div 4096" "c div 64 mod 64" "c mod 64" bs] split show ?thesis
      by (simp add: utf8_char_def not_less del: of_nat_add)
  next
    case 4
    have "c div 262144 < 5" "c div 262144 = 0 \<Longrightarrow> 16 \<le> c div 4096 mod 64" "c div 262144 = 4 \<Longrightarrow> c div 4096 mod 64 < 16"
      using 4 split by (simp_all) linarith+
    with 4 utf8_decode_4 [of "c div 262144" "c div 4096 mod 64" "c div 64 mod 64" "c mod 64" bs] split show ?thesis
      by (simp add: utf8_char_def not_less del: of_nat_add)
  qed
qed

lemma utf8_decode_encode [simp]: "(\<And>c. c \<in> set cs \<Longrightarrow> scalar c) \<Longrightarrow> utf8_decode (utf8_encode cs) = cs"
  by (induction cs) (simp_all add: utf8_encode_def utf8_decode_char)

section \<open>Base 64\<close>

definition base64_char :: "nat \<Rightarrow> char" where
  "base64_char n = ''ABCDEFGHIJKLMNOPQRSTUVWXYZabcdefghijklmnopqrstuvwxyz0123456789+/'' ! n"

fun base64 :: "byte list \<Rightarrow> string" where
  "base64 [] = []"
| "base64 [a] = [base64_char (unat a div 4), base64_char (unat a mod 4 * 16), CHR ''='', CHR ''='']"
| "base64 [a, b] =
     [base64_char (unat a div 4), base64_char (unat a mod 4 * 16 + unat b div 16), base64_char (unat b mod 16 * 4), CHR ''='']"
| "base64 (a # b # c # bs) =
     [base64_char (unat a div 4), base64_char (unat a mod 4 * 16 + unat b div 16),
      base64_char (unat b mod 16 * 4 + unat c div 64), base64_char (unat c mod 64)] @ base64 bs"

lemma base64_char_inj: "m < 64 \<Longrightarrow> n < 64 \<Longrightarrow> base64_char m = base64_char n \<longleftrightarrow> m = n"
  unfolding base64_char_def by (rule nth_eq_iff_index_eq) simp_all

lemma base64_char_pad:
  assumes "n < 64"
  shows "base64_char n \<noteq> CHR ''=''" "CHR ''='' \<noteq> base64_char n"
proof -
  from assms have "base64_char n \<in> set ''ABCDEFGHIJKLMNOPQRSTUVWXYZabcdefghijklmnopqrstuvwxyz0123456789+/''"
    unfolding base64_char_def by (intro nth_mem) simp
  then show "base64_char n \<noteq> CHR ''=''" "CHR ''='' \<noteq> base64_char n" by auto
qed

lemma byte_less: "unat (b :: byte) < 256"
  using unsigned_less [of b] by simp

lemma sextets [simp]:
  "unat (a :: byte) div 4 < 64" "unat (a :: byte) mod 4 * 16 < 64" "unat (a :: byte) mod 4 * 16 + unat (b :: byte) div 16 < 64"
  "unat (a :: byte) mod 16 * 4 < 64" "unat (a :: byte) mod 16 * 4 + unat (b :: byte) div 64 < 64"
  using byte_less [of a] byte_less [of b] by simp_all

lemma byte_split:
  fixes a b :: byte
  shows "unat a div 4 = unat b div 4 \<Longrightarrow> unat a mod 4 = unat b mod 4 \<Longrightarrow> a = b"
    and "unat a div 16 = unat b div 16 \<Longrightarrow> unat a mod 16 = unat b mod 16 \<Longrightarrow> a = b"
    and "unat a div 64 = unat b div 64 \<Longrightarrow> unat a mod 64 = unat b mod 64 \<Longrightarrow> a = b"
  by (metis div_mult_mod_eq word_unat_eq_iff)+

lemma digits_eq:
  fixes p q k x y :: nat
  assumes "p < k" "q < k"
  shows "x * k + p = y * k + q \<longleftrightarrow> x = y \<and> p = q"
proof
  assume eq: "x * k + p = y * k + q"
  have "x = (x * k + p) div k" "y = (y * k + q) div k" "p = (x * k + p) mod k" "q = (y * k + q) mod k"
    using assms by simp_all
  with eq show "x = y \<and> p = q" by metis
qed simp

lemma sextet_split:
  "x * 16 + unat (a :: byte) div 16 = y * 16 + unat (b :: byte) div 16 \<longleftrightarrow> x = y \<and> unat a div 16 = unat b div 16"
  "x * 4 + unat (a :: byte) div 64 = y * 4 + unat (b :: byte) div 64 \<longleftrightarrow> x = y \<and> unat a div 64 = unat b div 64"
  by (rule digits_eq; use byte_less [of a] byte_less [of b] in simp)+

text \<open>Nothing is lost: different bytes have different texts.\<close>

lemma base64_inj: "base64 bs = base64 cs \<Longrightarrow> bs = cs"
proof (induction bs arbitrary: cs rule: base64.induct)
  case 1
  then show ?case by (cases cs rule: base64.cases) auto
next
  case (2 a)
  then show ?case
    by (cases cs rule: base64.cases) (auto simp: base64_char_inj base64_char_pad intro: byte_split)
next
  case (3 a b)
  then show ?case
    by (cases cs rule: base64.cases) (auto simp: base64_char_inj base64_char_pad sextet_split intro: byte_split)
next
  case (4 a b c bs)
  then show ?case
    by (cases cs rule: base64.cases) (auto simp: base64_char_inj base64_char_pad sextet_split intro: byte_split)
qed

section \<open>What a buffer holds at a position\<close>

definition bytes_at :: "buffer \<Rightarrow> int \<Rightarrow> byte list \<Rightarrow> bool" where
  "bytes_at buf p bs \<longleftrightarrow> 0 \<le> p \<and> p + int (length bs) \<le> int (length buf) \<and> take (length bs) (drop (nat p) buf) = bs"

lemma bytes_at_whole: "bytes_at buf 0 buf"
  by (simp add: bytes_at_def)

lemma bytes_at_append:
  "bytes_at buf p (xs @ ys) \<longleftrightarrow> bytes_at buf p xs \<and> bytes_at buf (p + int (length xs)) ys"
proof -
  have "take (length xs + length ys) (drop (nat p) buf) = xs @ ys \<longleftrightarrow>
      take (length xs) (drop (nat p) buf) = xs \<and> take (length ys) (drop (length xs + nat p) buf) = ys"
    if "nat p + (length xs + length ys) \<le> length buf"
    using that by (auto simp: take_add append_eq_append_conv)
  then show ?thesis
    by (auto simp: bytes_at_def nat_add_distrib add.commute)
qed

lemma bytes_at_Cons: "bytes_at buf p (x # xs) \<longleftrightarrow> bytes_at buf p [x] \<and> bytes_at buf (p + 1) xs"
  using bytes_at_append [of buf p "[x]" xs] by simp

lemma readUInt_at:
  "bytes_at buf p (be_bytes k n) \<Longrightarrow> n < 256 ^ k \<Longrightarrow> readUInt k buf p = Inr n"
  by (auto simp: bytes_at_def readUInt_def read_bytes_def)

lemma readUInt_byte: "bytes_at buf p [b] \<Longrightarrow> readUInt 1 buf p = Inr (unat b)"
  by (auto simp: bytes_at_def readUInt_def read_bytes_def be_nat_def)

lemma text_at: "bytes_at buf p bs \<Longrightarrow> q = p + int (length bs) \<Longrightarrow> text_range buf p q = bs"
  by (auto simp: bytes_at_def text_range_def Let_def nat_add_distrib drop_take)

lemma subarray_at: "bytes_at buf p bs \<Longrightarrow> q = p + int (length bs) \<Longrightarrow> subarray buf p q = bs"
  by (auto simp: bytes_at_def subarray_def from_end_def nat_add_distrib drop_take min_def)

lemma find_index_append:
  "\<forall>x \<in> set xs. \<not> P x \<Longrightarrow> P y \<Longrightarrow> find_index P (xs @ y # ys) = Some (length xs)"
  by (induction xs) auto

lemma index_of_at:
  assumes "bytes_at buf p (bs @ [b])" "b \<notin> set bs"
  shows "index_of b buf p = p + int (length bs)"
proof -
  have "take (Suc (length bs)) (drop (nat p) buf) = bs @ [b]" using assms(1) by (simp add: bytes_at_def)
  then obtain rest where "drop (nat p) buf = bs @ b # rest"
    by (metis append_Cons append_Nil append_assoc append_take_drop_id)
  moreover have "find_index (\<lambda>x. x = b) (bs @ b # rest) = Some (length bs)"
    using assms(2) by (intro find_index_append) auto
  ultimately show ?thesis by (simp add: index_of_def)
qed

lemma utf8_nonzero:
  assumes "scalar c" "c \<noteq> 0"
  shows "0 \<notin> set (utf8_char c)"
proof -
  have "(of_nat n :: byte) \<noteq> 0" if "0 < n" "n < 256" for n
    using that by (metis less_irrefl mod_less unat_0 unat_byte)
  then have nonzero: "0 \<notin> set (map of_nat ns :: byte list)" if "list_all (\<lambda>n. 0 < n \<and> n < 256) ns" for ns
    using that by (auto simp: list_all_iff)
  have "c div 64 < 32" if "c < 0x800" using that by simp
  moreover have "c div 4096 < 16" if "c < 0x10000" using that by simp
  moreover have "c div 262144 < 5" using assms(1) by (auto simp: scalar_def)
  moreover have "c div 64 mod 64 < 64" "c mod 64 < 64" "c div 4096 mod 64 < 64" by simp_all
  ultimately show ?thesis
    unfolding utf8_char_def using assms(2) by (intro nonzero) (simp; linarith)
qed

end
