(* ===== verification/PgOutputDecoder.thy ===== *)
theory PgOutputDecoder
  imports JsBytes JsValue
begin

text \<open>
  The decoder of logical replication messages,
  \<^verbatim>\<open>services/ingestion/src/connectors/postgres-cdc/pgoutput-decoder.ts\<close> and the message types of \<^verbatim>\<open>types.ts\<close>.
  Positions are integers, because a negative length in a message makes them negative.
\<close>

section \<open>Messages\<close>

datatype TupleColumn = ColNull | ColUnchanged | ColText utext | ColBinary string

type_synonym TupleData = "TupleColumn list"

datatype ReplicaIdentity = RiDefault | RiNothing | RiFull | RiIndex

record RelationColumn =
  rc_flags :: nat
  rc_name :: utext
  rc_typeId :: nat
  rc_typeMod :: int

record RelationMessage =
  rm_relationId :: nat
  rm_schema :: utext
  rm_name :: utext
  rm_replicaIdentity :: ReplicaIdentity
  rm_columns :: "RelationColumn list"

text \<open>Relation; begin with position, time and transaction; commit with flags, both positions and time; row changes.\<close>

datatype DecodedMessage =
    MRelation RelationMessage
  | MBegin string nat nat
  | MCommit nat string string nat
  | MInsert nat TupleData
  | MUpdate nat "TupleData option" TupleData
  | MDelete nat "TupleData option" "TupleData option"

section \<open>Text and positions\<close>

definition buf_text :: "buffer \<Rightarrow> int \<Rightarrow> int \<Rightarrow> utext" where
  "buf_text buf start stop = utf8_decode (text_range buf start stop)"

definition hex_upper :: "nat \<Rightarrow> char" where
  "hex_upper d = (if d < 10 then char_of (48 + d) else char_of (55 + d))"

text \<open>\<^verbatim>\<open>n.toString(16).toUpperCase()\<close> and \<^verbatim>\<open>padStart\<close>.\<close>

fun hex_text :: "nat \<Rightarrow> string" where
  "hex_text n = (if n < 16 then [hex_upper n] else hex_text (n div 16) @ [hex_upper (n mod 16)])"

declare hex_text.simps [simp del]

definition padStart :: "nat \<Rightarrow> char \<Rightarrow> string \<Rightarrow> string" where
  "padStart k c s = replicate (k - length s) c @ s"

definition lsn_text :: "nat \<Rightarrow> nat \<Rightarrow> string" where
  "lsn_text high low = padStart 8 (CHR ''0'') (hex_text high) @ ''/'' @ padStart 8 (CHR ''0'') (hex_text low)"

text \<open>
  A time in microseconds since 2000 as milliseconds since 1970, or the error of \<^verbatim>\<open>toISOString\<close> for a time that
  is no date; \<open>format\<close> is the formatting.
\<close>

definition PG_EPOCH_MS :: nat where
  "PG_EPOCH_MS = 946684800000"

definition pgTimestampToIso :: "(nat \<Rightarrow> string) \<Rightarrow> nat \<Rightarrow> buffer_error + string" where
  "pgTimestampToIso format pgMicros =
     (let ms = PG_EPOCH_MS + pgMicros div 1000 in if ms \<le> 8640000000000000 then Inr (format ms) else Inl RangeError)"

section \<open>Tuples\<close>

text \<open>Columns still to read, position, columns read.\<close>

fun decode_columns :: "buffer \<Rightarrow> nat \<Rightarrow> int \<Rightarrow> TupleColumn list \<Rightarrow> buffer_error + (TupleData \<times> int)" where
  "decode_columns buf 0 offset columns = Inr (columns, offset)"
| "decode_columns buf (Suc i) offset columns =
     (let kind = buf_text buf offset (offset + 1); offset = offset + 1
      in if kind = [0x6E] then decode_columns buf i offset (columns @ [ColNull])
         else if kind = [0x75] then decode_columns buf i offset (columns @ [ColUnchanged])
         else if kind = [0x74] then
           sbind (readInt32BE buf offset) (\<lambda>len.
             decode_columns buf i (offset + 4 + len) (columns @ [ColText (buf_text buf (offset + 4) (offset + 4 + len))]))
         else if kind = [0x62] then
           sbind (readInt32BE buf offset) (\<lambda>len.
             decode_columns buf i (offset + 4 + len) (columns @ [ColBinary (base64 (subarray buf (offset + 4) (offset + 4 + len)))]))
         else decode_columns buf i offset (columns @ [ColNull]))"

definition decodeTuple :: "buffer \<Rightarrow> int \<Rightarrow> buffer_error + (TupleData \<times> int)" where
  "decodeTuple buf offset = sbind (readUInt 2 buf offset) (\<lambda>columnCount. decode_columns buf columnCount (offset + 2) [])"

section \<open>Messages by type\<close>

text \<open>A name up to the next zero byte, and the position after it; without one \<^verbatim>\<open>indexOf\<close> gives -1.\<close>

definition read_name :: "buffer \<Rightarrow> int \<Rightarrow> utext \<times> int" where
  "read_name buf offset = (let e = index_of 0 buf offset in (buf_text buf offset e, e + 1))"

definition replicaIdentityMap :: "nat \<Rightarrow> ReplicaIdentity" where
  "replicaIdentityMap b = (if b = 110 then RiNothing else if b = 102 then RiFull else if b = 105 then RiIndex else RiDefault)"

fun relation_columns :: "buffer \<Rightarrow> nat \<Rightarrow> int \<Rightarrow> RelationColumn list \<Rightarrow> buffer_error + RelationColumn list" where
  "relation_columns buf 0 offset columns = Inr columns"
| "relation_columns buf (Suc i) offset columns =
     sbind (readUInt 1 buf offset) (\<lambda>flags.
       let (colName, offset) = read_name buf (offset + 1)
       in sbind (readUInt 4 buf offset) (\<lambda>typeId. sbind (readInt32BE buf (offset + 4)) (\<lambda>typeMod.
            relation_columns buf i (offset + 8)
              (columns @ [\<lparr>rc_flags = flags, rc_name = colName, rc_typeId = typeId, rc_typeMod = typeMod\<rparr>]))))"

definition decodeRelation :: "buffer \<Rightarrow> buffer_error + DecodedMessage" where
  "decodeRelation buf =
     sbind (readUInt 4 buf 1) (\<lambda>relationId.
       let (schema, offset) = read_name buf 5; (name, offset) = read_name buf offset
       in sbind (readUInt 1 buf offset) (\<lambda>replicaIdentityByte. sbind (readUInt 2 buf (offset + 1)) (\<lambda>columnCount.
          sbind (relation_columns buf columnCount (offset + 3) []) (\<lambda>columns.
            Inr (MRelation \<lparr>rm_relationId = relationId, rm_schema = schema, rm_name = name,
              rm_replicaIdentity = replicaIdentityMap replicaIdentityByte, rm_columns = columns\<rparr>)))))"

definition read_lsn :: "buffer \<Rightarrow> int \<Rightarrow> buffer_error + string" where
  "read_lsn buf offset =
     sbind (readUInt 4 buf offset) (\<lambda>high. sbind (readUInt 4 buf (offset + 4)) (\<lambda>low. Inr (lsn_text high low)))"

definition decodeBegin :: "buffer \<Rightarrow> buffer_error + DecodedMessage" where
  "decodeBegin buf =
     sbind (read_lsn buf 1) (\<lambda>lsn. sbind (readUInt 8 buf 9) (\<lambda>time. sbind (readUInt 4 buf 17) (\<lambda>xid. Inr (MBegin lsn time xid))))"

definition decodeCommit :: "buffer \<Rightarrow> buffer_error + DecodedMessage" where
  "decodeCommit buf =
     sbind (readUInt 1 buf 1) (\<lambda>flags. sbind (read_lsn buf 2) (\<lambda>lsn. sbind (read_lsn buf 10) (\<lambda>endLsn.
       sbind (readUInt 8 buf 18) (\<lambda>commitTime. Inr (MCommit flags lsn endLsn commitTime)))))"

definition decodeInsert :: "buffer \<Rightarrow> buffer_error + DecodedMessage" where
  "decodeInsert buf =
     sbind (readUInt 4 buf 1) (\<lambda>relationId. sbind (decodeTuple buf 6) (\<lambda>(newTuple, _). Inr (MInsert relationId newTuple)))"

definition decodeUpdate :: "buffer \<Rightarrow> buffer_error + DecodedMessage" where
  "decodeUpdate buf =
     sbind (readUInt 4 buf 1) (\<lambda>relationId.
       let markerByte = buf_text buf 5 6
       in if markerByte = [0x4F] \<or> markerByte = [0x4B]
          then sbind (decodeTuple buf 6) (\<lambda>(oldTuple, offset). sbind (decodeTuple buf (offset + 1)) (\<lambda>(newTuple, _).
                 Inr (MUpdate relationId (Some oldTuple) newTuple)))
          else sbind (decodeTuple buf 6) (\<lambda>(newTuple, _). Inr (MUpdate relationId None newTuple)))"

definition decodeDelete :: "buffer \<Rightarrow> buffer_error + DecodedMessage" where
  "decodeDelete buf =
     sbind (readUInt 4 buf 1) (\<lambda>relationId.
       let markerByte = buf_text buf 5 6
       in if markerByte = [0x4F] then sbind (decodeTuple buf 6) (\<lambda>(tuple, _). Inr (MDelete relationId (Some tuple) None))
          else if markerByte = [0x4B] then sbind (decodeTuple buf 6) (\<lambda>(tuple, _). Inr (MDelete relationId None (Some tuple)))
          else Inr (MDelete relationId None None))"

text \<open>\<open>Inr None\<close> is the null result for other message types.\<close>

definition decodePgOutputMessage :: "buffer \<Rightarrow> buffer_error + DecodedMessage option" where
  "decodePgOutputMessage buf =
     (let typeByte = buf_text buf 0 1; some = (\<lambda>r. sbind r (\<lambda>m. Inr (Some m)))
      in if buf = [] then Inr None
         else if typeByte = [0x52] then some (decodeRelation buf)
         else if typeByte = [0x42] then some (decodeBegin buf)
         else if typeByte = [0x43] then some (decodeCommit buf)
         else if typeByte = [0x49] then some (decodeInsert buf)
         else if typeByte = [0x55] then some (decodeUpdate buf)
         else if typeByte = [0x44] then some (decodeDelete buf)
         else Inr None)"

end
