(* ===== verification/PgOutputProperties.thy ===== *)
theory PgOutputProperties
  imports PgOutputDecoder
begin

text \<open>
  The messages as the protocol documentation lays them out, and the theorem that the decoder reads every
  one of them back.  At the end, what it makes of messages that are not laid out so.
\<close>

section \<open>Messages on the wire\<close>

datatype WireColumn = WNull | WUnchanged | WText utext | WBinary "byte list"

fun wire_column :: "WireColumn \<Rightarrow> byte list" where
  "wire_column WNull = [0x6E]"
| "wire_column WUnchanged = [0x75]"
| "wire_column (WText t) = 0x74 # be_bytes 4 (length (utf8_encode t)) @ utf8_encode t"
| "wire_column (WBinary bs) = 0x62 # be_bytes 4 (length bs) @ bs"

definition wire_tuple :: "WireColumn list \<Rightarrow> byte list" where
  "wire_tuple cols = be_bytes 2 (length cols) @ concat (map wire_column cols)"

definition wire_name :: "utext \<Rightarrow> byte list" where
  "wire_name t = utf8_encode t @ [0]"

record WireRelColumn =
  wc_flags :: nat
  wc_name :: utext
  wc_typeId :: nat
  wc_typeMod :: nat

definition wire_rel_column :: "WireRelColumn \<Rightarrow> byte list" where
  "wire_rel_column c = of_nat (wc_flags c) # wire_name (wc_name c) @ be_bytes 4 (wc_typeId c) @ be_bytes 4 (wc_typeMod c)"

text \<open>Positions are pairs of 32-bit numbers; old tuples are full rows or keys.\<close>

datatype WireMessage =
    WRelation nat utext utext ReplicaIdentity "WireRelColumn list"
  | WBegin "nat \<times> nat" nat nat
  | WCommit nat "nat \<times> nat" "nat \<times> nat" nat
  | WInsert nat "WireColumn list"
  | WUpdate nat "(bool \<times> WireColumn list) option" "WireColumn list"
  | WDelete nat bool "WireColumn list"
  | WOther byte "byte list"

definition identity_byte :: "ReplicaIdentity \<Rightarrow> byte" where
  "identity_byte r = (case r of RiDefault \<Rightarrow> 100 | RiNothing \<Rightarrow> 110 | RiFull \<Rightarrow> 102 | RiIndex \<Rightarrow> 105)"

definition wire_lsn :: "nat \<times> nat \<Rightarrow> byte list" where
  "wire_lsn l = be_bytes 4 (fst l) @ be_bytes 4 (snd l)"

definition old_marker :: "bool \<Rightarrow> byte" where
  "old_marker full = (if full then 0x4F else 0x4B)"

fun wire :: "WireMessage \<Rightarrow> byte list" where
  "wire (WRelation i schema name r cols) =
     0x52 # be_bytes 4 i @ wire_name schema @ wire_name name @ [identity_byte r] @ be_bytes 2 (length cols) @
     concat (map wire_rel_column cols)"
| "wire (WBegin l time xid) = 0x42 # wire_lsn l @ be_bytes 8 time @ be_bytes 4 xid"
| "wire (WCommit flags l e time) = 0x43 # [of_nat flags] @ wire_lsn l @ wire_lsn e @ be_bytes 8 time"
| "wire (WInsert i cols) = 0x49 # be_bytes 4 i @ [0x4E] @ wire_tuple cols"
| "wire (WUpdate i None cols) = 0x55 # be_bytes 4 i @ [0x4E] @ wire_tuple cols"
| "wire (WUpdate i (Some (full, old)) cols) =
     0x55 # be_bytes 4 i @ [old_marker full] @ wire_tuple old @ [0x4E] @ wire_tuple cols"
| "wire (WDelete i full old) = 0x44 # be_bytes 4 i @ [old_marker full] @ wire_tuple old"
| "wire (WOther b bs) = b # bs"

text \<open>Numbers fit their fields, names have no zero, counts and lengths fit.\<close>

definition text_ok :: "utext \<Rightarrow> bool" where
  "text_ok t \<longleftrightarrow> (\<forall>c \<in> set t. scalar c) \<and> length (utf8_encode t) < 2147483648"

definition name_ok :: "utext \<Rightarrow> bool" where
  "name_ok t \<longleftrightarrow> (\<forall>c \<in> set t. scalar c \<and> c \<noteq> 0)"

fun column_ok :: "WireColumn \<Rightarrow> bool" where
  "column_ok (WText t) \<longleftrightarrow> text_ok t"
| "column_ok (WBinary bs) \<longleftrightarrow> length bs < 2147483648"
| "column_ok c \<longleftrightarrow> True"

definition tuple_ok :: "WireColumn list \<Rightarrow> bool" where
  "tuple_ok cols \<longleftrightarrow> length cols < 65536 \<and> (\<forall>c \<in> set cols. column_ok c)"

definition rel_column_ok :: "WireRelColumn \<Rightarrow> bool" where
  "rel_column_ok c \<longleftrightarrow> wc_flags c < 256 \<and> name_ok (wc_name c) \<and> wc_typeId c < 2 ^ 32 \<and> wc_typeMod c < 2 ^ 32"

definition lsn_ok :: "nat \<times> nat \<Rightarrow> bool" where
  "lsn_ok l \<longleftrightarrow> fst l < 2 ^ 32 \<and> snd l < 2 ^ 32"

fun wire_ok :: "WireMessage \<Rightarrow> bool" where
  "wire_ok (WRelation i schema name r cols) \<longleftrightarrow>
     i < 2 ^ 32 \<and> name_ok schema \<and> name_ok name \<and> length cols < 65536 \<and> (\<forall>c \<in> set cols. rel_column_ok c)"
| "wire_ok (WBegin l time xid) \<longleftrightarrow> lsn_ok l \<and> time < 2 ^ 64 \<and> xid < 2 ^ 32"
| "wire_ok (WCommit flags l e time) \<longleftrightarrow> flags < 256 \<and> lsn_ok l \<and> lsn_ok e \<and> time < 2 ^ 64"
| "wire_ok (WInsert i cols) \<longleftrightarrow> i < 2 ^ 32 \<and> tuple_ok cols"
| "wire_ok (WUpdate i old cols) \<longleftrightarrow> i < 2 ^ 32 \<and> tuple_ok cols \<and> (\<forall>(full, t) \<in> set_option old. tuple_ok t)"
| "wire_ok (WDelete i full old) \<longleftrightarrow> i < 2 ^ 32 \<and> tuple_ok old"
| "wire_ok (WOther b bs) \<longleftrightarrow> b \<notin> {0x52, 0x42, 0x43, 0x49, 0x55, 0x44}"

section \<open>What a message says\<close>

fun column_view :: "WireColumn \<Rightarrow> TupleColumn" where
  "column_view WNull = ColNull"
| "column_view WUnchanged = ColUnchanged"
| "column_view (WText t) = ColText t"
| "column_view (WBinary bs) = ColBinary (base64 bs)"

definition rel_column_view :: "WireRelColumn \<Rightarrow> RelationColumn" where
  "rel_column_view c =
     \<lparr>rc_flags = wc_flags c, rc_name = wc_name c, rc_typeId = wc_typeId c, rc_typeMod = signed32 (wc_typeMod c)\<rparr>"

fun view :: "WireMessage \<Rightarrow> DecodedMessage option" where
  "view (WRelation i schema name r cols) =
     Some (MRelation \<lparr>rm_relationId = i, rm_schema = schema, rm_name = name, rm_replicaIdentity = r,
       rm_columns = map rel_column_view cols\<rparr>)"
| "view (WBegin l time xid) = Some (MBegin (lsn_text (fst l) (snd l)) time xid)"
| "view (WCommit flags l e time) = Some (MCommit flags (lsn_text (fst l) (snd l)) (lsn_text (fst e) (snd e)) time)"
| "view (WInsert i cols) = Some (MInsert i (map column_view cols))"
| "view (WUpdate i old cols) = Some (MUpdate i (map_option (\<lambda>(full, t). map column_view t) old) (map column_view cols))"
| "view (WDelete i full old) =
     Some (if full then MDelete i (Some (map column_view old)) None else MDelete i None (Some (map column_view old)))"
| "view (WOther b bs) = None"

section \<open>Reading back\<close>

lemma ascii_text:
  "bytes_at buf p [b] \<Longrightarrow> q = p + 1 \<Longrightarrow> unat b < 128 \<Longrightarrow> buf_text buf p q = [unat b]"
  using text_at [of buf p "[b]" q] by (simp add: buf_text_def utf8_decode.simps(2))

lemma buf_text_at:
  "bytes_at buf p (utf8_encode t) \<Longrightarrow> \<forall>c \<in> set t. scalar c \<Longrightarrow> q = p + int (length (utf8_encode t)) \<Longrightarrow> buf_text buf p q = t"
  using text_at [of buf p "utf8_encode t" q] by (simp add: buf_text_def)

lemma readInt32_at:
  "bytes_at buf p (be_bytes 4 n) \<Longrightarrow> n < 2 ^ 32 \<Longrightarrow> readInt32BE buf p = Inr (signed32 n)"
  by (simp add: readInt32BE_def readUInt_at)

lemma signed32_small: "n < 2147483648 \<Longrightarrow> signed32 n = int n"
  by (simp add: signed32_def)

lemma decode_column_at:
  assumes "bytes_at buf p (wire_column c)" "column_ok c"
  shows "decode_columns buf (Suc i) p acc =
    decode_columns buf i (p + int (length (wire_column c))) (acc @ [column_view c])"
proof (cases c)
  case (WText t)
  have "bytes_at buf p ([0x74] @ be_bytes 4 (length (utf8_encode t)) @ utf8_encode t)" using assms(1) WText by simp
  then have at: "bytes_at buf p [0x74]" "bytes_at buf (p + 1) (be_bytes 4 (length (utf8_encode t)))"
      "bytes_at buf (p + 5) (utf8_encode t)"
    unfolding bytes_at_append by (simp_all add: add.assoc)
  show ?thesis
    using WText assms(2) ascii_text [OF at(1)] readInt32_at [OF at(2)] buf_text_at [OF at(3)]
    by (simp add: text_ok_def signed32_small add.assoc)
next
  case (WBinary bs)
  have "bytes_at buf p ([0x62] @ be_bytes 4 (length bs) @ bs)" using assms(1) WBinary by simp
  then have at: "bytes_at buf p [0x62]" "bytes_at buf (p + 1) (be_bytes 4 (length bs))" "bytes_at buf (p + 5) bs"
    unfolding bytes_at_append by (simp_all add: add.assoc)
  show ?thesis
    using WBinary assms(2) ascii_text [OF at(1)] readInt32_at [OF at(2)] subarray_at [OF at(3)]
    by (simp add: signed32_small add.assoc)
qed (use assms in \<open>simp_all add: ascii_text\<close>)

lemma decode_columns_at:
  "bytes_at buf p (concat (map wire_column cols)) \<Longrightarrow> \<forall>c \<in> set cols. column_ok c \<Longrightarrow>
   decode_columns buf (length cols) p acc =
     Inr (acc @ map column_view cols, p + int (length (concat (map wire_column cols))))"
proof (induction cols arbitrary: p acc)
  case (Cons c cols)
  then have "bytes_at buf p (wire_column c)"
    "bytes_at buf (p + int (length (wire_column c))) (concat (map wire_column cols))"
    by (simp_all add: bytes_at_append)
  with Cons show ?case
    using decode_column_at [of buf p c "length cols" acc] by (simp add: add.assoc del: decode_columns.simps)
qed simp

lemma decodeTuple_at:
  assumes "bytes_at buf p (wire_tuple cols)" "tuple_ok cols"
  shows "decodeTuple buf p = Inr (map column_view cols, p + int (length (wire_tuple cols)))"
proof -
  have at: "bytes_at buf p (be_bytes 2 (length cols))" "bytes_at buf (p + 2) (concat (map wire_column cols))"
    using assms(1) by (simp_all add: wire_tuple_def bytes_at_append)
  show ?thesis
    using assms(2) readUInt_at [OF at(1)] decode_columns_at [OF at(2)]
    by (simp add: decodeTuple_def tuple_ok_def wire_tuple_def add.assoc)
qed

lemma read_name_at:
  assumes "bytes_at buf p (wire_name t)" "name_ok t"
  shows "read_name buf p = (t, p + int (length (wire_name t)))"
proof -
  have nonzero: "0 \<notin> set (utf8_encode t)"
    using assms(2) utf8_nonzero by (auto simp: name_ok_def utf8_encode_def)
  have "bytes_at buf p (utf8_encode t)" using assms(1) by (simp add: wire_name_def bytes_at_append)
  with assms index_of_at [OF _ nonzero, of buf p] buf_text_at [of buf p t] show ?thesis
    by (simp add: read_name_def wire_name_def name_ok_def)
qed

lemma relation_column_at:
  assumes "bytes_at buf p (wire_rel_column c)" "rel_column_ok c"
  shows "relation_columns buf (Suc i) p acc =
    relation_columns buf i (p + int (length (wire_rel_column c))) (acc @ [rel_column_view c])"
proof -
  let ?q = "p + 1 + int (length (wire_name (wc_name c)))"
  have "bytes_at buf p ([of_nat (wc_flags c)] @ wire_name (wc_name c) @ be_bytes 4 (wc_typeId c) @ be_bytes 4 (wc_typeMod c))"
    using assms(1) by (simp add: wire_rel_column_def)
  then have at: "bytes_at buf p [of_nat (wc_flags c)]" "bytes_at buf (p + 1) (wire_name (wc_name c))"
    "bytes_at buf ?q (be_bytes 4 (wc_typeId c))" "bytes_at buf (?q + 4) (be_bytes 4 (wc_typeMod c))"
    unfolding bytes_at_append by (simp_all add: add.assoc)
  show ?thesis
    using assms(2) readUInt_byte [OF at(1)] read_name_at [OF at(2)] readUInt_at [OF at(3)] readInt32_at [OF at(4)]
    by (simp add: rel_column_ok_def rel_column_view_def wire_rel_column_def add.assoc)
qed

lemma relation_columns_at:
  "bytes_at buf p (concat (map wire_rel_column cols)) \<Longrightarrow> \<forall>c \<in> set cols. rel_column_ok c \<Longrightarrow>
   relation_columns buf (length cols) p acc = Inr (acc @ map rel_column_view cols)"
proof (induction cols arbitrary: p acc)
  case (Cons c cols)
  then have "bytes_at buf p (wire_rel_column c)"
    "bytes_at buf (p + int (length (wire_rel_column c))) (concat (map wire_rel_column cols))"
    by (simp_all add: bytes_at_append)
  with Cons show ?case
    using relation_column_at [of buf p c "length cols" acc] by (simp del: relation_columns.simps)
qed simp

lemma read_lsn_at:
  assumes "bytes_at buf p (wire_lsn l)" "lsn_ok l"
  shows "read_lsn buf p = Inr (lsn_text (fst l) (snd l))"
  using assms readUInt_at [of buf p 4 "fst l"] readUInt_at [of buf "p + 4" 4 "snd l"]
  by (simp add: read_lsn_def wire_lsn_def lsn_ok_def bytes_at_append)

lemma decodeRelation_at:
  assumes "bytes_at buf 0 (wire (WRelation i schema name r cols))" "wire_ok (WRelation i schema name r cols)"
  shows "decodeRelation buf = Inr (the (view (WRelation i schema name r cols)))"
proof -
  let ?p = "5 + int (length (wire_name schema))" and ?q = "5 + int (length (wire_name schema)) + int (length (wire_name name))"
  have "bytes_at buf 0 ([0x52] @ be_bytes 4 i @ wire_name schema @ wire_name name @ [identity_byte r] @ be_bytes 2 (length cols) @
      concat (map wire_rel_column cols))"
    using assms(1) by simp
  then have at: "bytes_at buf 1 (be_bytes 4 i)" "bytes_at buf 5 (wire_name schema)" "bytes_at buf ?p (wire_name name)"
    "bytes_at buf ?q [identity_byte r]" "bytes_at buf (?q + 1) (be_bytes 2 (length cols))"
    "bytes_at buf (?q + 3) (concat (map wire_rel_column cols))"
    unfolding bytes_at_append by (simp_all add: add.assoc)
  have "replicaIdentityMap (unat (identity_byte r)) = r"
    by (cases r) (simp_all add: replicaIdentityMap_def identity_byte_def)
  then show ?thesis
    using assms(2) readUInt_at [OF at(1)] read_name_at [OF at(2)] read_name_at [OF at(3)] readUInt_byte [OF at(4)]
      readUInt_at [OF at(5)] relation_columns_at [OF at(6)]
    by (simp add: decodeRelation_def)
qed

lemma decodeBegin_at:
  assumes "bytes_at buf 0 (wire (WBegin l time xid))" "wire_ok (WBegin l time xid)"
  shows "decodeBegin buf = Inr (the (view (WBegin l time xid)))"
proof -
  have "bytes_at buf 0 ([0x42] @ wire_lsn l @ be_bytes 8 time @ be_bytes 4 xid)" using assms(1) by simp
  then have at: "bytes_at buf 1 (wire_lsn l)" "bytes_at buf 9 (be_bytes 8 time)" "bytes_at buf 17 (be_bytes 4 xid)"
    unfolding bytes_at_append by (simp_all add: wire_lsn_def)
  show ?thesis
    using assms(2) read_lsn_at [OF at(1)] readUInt_at [OF at(2)] readUInt_at [OF at(3)] by (simp add: decodeBegin_def)
qed

lemma decodeCommit_at:
  assumes "bytes_at buf 0 (wire (WCommit flags l e time))" "wire_ok (WCommit flags l e time)"
  shows "decodeCommit buf = Inr (the (view (WCommit flags l e time)))"
proof -
  have "bytes_at buf 0 ([0x43] @ [of_nat flags] @ wire_lsn l @ wire_lsn e @ be_bytes 8 time)" using assms(1) by simp
  then have at: "bytes_at buf 1 [of_nat flags]" "bytes_at buf 2 (wire_lsn l)" "bytes_at buf 10 (wire_lsn e)"
    "bytes_at buf 18 (be_bytes 8 time)"
    unfolding bytes_at_append by (simp_all add: wire_lsn_def)
  show ?thesis
    using assms(2) readUInt_byte [OF at(1)] read_lsn_at [OF at(2)] read_lsn_at [OF at(3)] readUInt_at [OF at(4)]
    by (simp add: decodeCommit_def)
qed

text \<open>A change message starts with its type, the relation and a marker.\<close>

lemma change_head:
  assumes "bytes_at buf 0 ([k] @ be_bytes 4 i @ [marker] @ rest)" "i < 2 ^ 32" "unat marker < 128"
  shows "readUInt 4 buf 1 = Inr i" "buf_text buf 5 6 = [unat marker]" "bytes_at buf 6 rest"
proof -
  from assms(1) have at: "bytes_at buf 1 (be_bytes 4 i)" "bytes_at buf 5 [marker]" "bytes_at buf 6 rest"
    unfolding bytes_at_append by simp_all
  show "readUInt 4 buf 1 = Inr i" "buf_text buf 5 6 = [unat marker]" "bytes_at buf 6 rest"
    using assms readUInt_at [OF at(1)] ascii_text [OF at(2)] at(3) by simp_all
qed

lemma old_marker_simps [simp]: "unat (old_marker full) = (if full then 0x4F else 0x4B)"
  by (simp add: old_marker_def)

lemma decodeInsert_at:
  assumes "bytes_at buf 0 (wire (WInsert i cols))" "wire_ok (WInsert i cols)"
  shows "decodeInsert buf = Inr (the (view (WInsert i cols)))"
  using assms change_head [of buf "0x49" i "0x4E" "wire_tuple cols"] decodeTuple_at [of buf 6 cols]
  by (simp add: decodeInsert_def)

lemma decodeDelete_at:
  assumes "bytes_at buf 0 (wire (WDelete i full old))" "wire_ok (WDelete i full old)"
  shows "decodeDelete buf = Inr (the (view (WDelete i full old)))"
  using assms change_head [of buf "0x44" i "old_marker full" "wire_tuple old"] decodeTuple_at [of buf 6 old]
  by (simp add: decodeDelete_def)

lemma decodeUpdate_at:
  assumes "bytes_at buf 0 (wire (WUpdate i old cols))" "wire_ok (WUpdate i old cols)"
  shows "decodeUpdate buf = Inr (the (view (WUpdate i old cols)))"
proof (cases old)
  case None
  then show ?thesis
    using assms change_head [of buf "0x55" i "0x4E" "wire_tuple cols"] decodeTuple_at [of buf 6 cols]
    by (simp add: decodeUpdate_def)
next
  case (Some ft)
  obtain full t where ft: "ft = (full, t)" by (cases ft)
  have head: "readUInt 4 buf 1 = Inr i" "buf_text buf 5 6 = [unat (old_marker full)]" "bytes_at buf 6 (wire_tuple t @ [0x4E] @ wire_tuple cols)"
    using assms change_head [of buf "0x55" i "old_marker full" "wire_tuple t @ [0x4E] @ wire_tuple cols"] by (simp_all add: Some ft)
  from head(3) have at: "bytes_at buf 6 (wire_tuple t)" "bytes_at buf (6 + int (length (wire_tuple t)) + 1) (wire_tuple cols)"
    unfolding bytes_at_append by simp_all
  show ?thesis
    using assms(2) head(1,2) decodeTuple_at [OF at(1)] decodeTuple_at [OF at(2)]
    by (simp add: decodeUpdate_def Some ft)
qed

lemma utf8_decode_byte: "utf8_decode [b] = [if unat b < 128 then unat b else 0xFFFD]"
proof -
  have "utf8_more n acc lo hi [] = (0xFFFD, [])" if "utf8_lead k = Some (n, acc, lo, hi)" for k n acc lo hi
    using that by (cases n) (auto simp: utf8_lead_def split: if_splits)
  then show ?thesis by (auto simp: utf8_decode.simps(2) split: option.split)
qed

lemma type_text: "buf_text (b # rest) 0 1 = utf8_decode [b]"
  by (simp add: buf_text_def text_range_def)

lemma decodes_wire:
  assumes "wire_ok m"
  shows "decodePgOutputMessage (wire m) = Inr (view m)"
proof -
  note whole = bytes_at_whole [of "wire m"]
  show ?thesis
  proof (cases m)
    case (WRelation i schema name r cols)
    with decodeRelation_at [OF whole [unfolded WRelation] assms [unfolded WRelation]] show ?thesis
      by (simp add: decodePgOutputMessage_def type_text utf8_decode_byte)
  next
    case (WBegin l time xid)
    with decodeBegin_at [OF whole [unfolded WBegin] assms [unfolded WBegin]] show ?thesis
      by (simp add: decodePgOutputMessage_def type_text utf8_decode_byte)
  next
    case (WCommit flags l e time)
    with decodeCommit_at [OF whole [unfolded WCommit] assms [unfolded WCommit]] show ?thesis
      by (simp add: decodePgOutputMessage_def type_text utf8_decode_byte)
  next
    case (WInsert i cols)
    with decodeInsert_at [OF whole [unfolded WInsert] assms [unfolded WInsert]] show ?thesis
      by (simp add: decodePgOutputMessage_def type_text utf8_decode_byte)
  next
    case (WUpdate i old cols)
    with decodeUpdate_at [OF whole [unfolded WUpdate] assms [unfolded WUpdate]] show ?thesis
      by (cases old) (auto simp: decodePgOutputMessage_def type_text utf8_decode_byte)
  next
    case (WDelete i full old)
    with decodeDelete_at [OF whole [unfolded WDelete] assms [unfolded WDelete]] show ?thesis
      by (simp add: decodePgOutputMessage_def type_text utf8_decode_byte)
  next
    case (WOther b bs)
    then have "unat b \<noteq> k" if "k \<in> {0x52, 0x42, 0x43, 0x49, 0x55, 0x44}" for k
      using that assms by (auto simp: word_unat_eq_iff)
    with WOther show ?thesis
      by (simp add: decodePgOutputMessage_def type_text utf8_decode_byte)
  qed
qed

text \<open>
  Property C35: every message laid out as the protocol says is decoded to what it says: relations with their
  columns, positions and times of transactions, and the rows of insert, update and delete with nulls,
  unchanged values, text and binary data; other messages give null.
\<close>

theorem decode_wire: "wire_ok m \<Longrightarrow> decodePgOutputMessage (wire m) = Inr (view m)"
  by (rule decodes_wire)

theorem decode_wire_witness:
  "decodePgOutputMessage [0x49, 0, 0, 0, 1, 0x4E, 0, 2, 0x74, 0, 0, 0, 2, 0xC3, 0xA9, 0x6E] =
     Inr (Some (MInsert 1 [ColText [0xE9], ColNull]))"
  using decode_wire [of "WInsert 1 [WText [0xE9], WNull]"]
  by (simp add: tuple_ok_def text_ok_def scalar_def wire_tuple_def utf8_encode_def utf8_char_def be_bytes_code)

section \<open>Other messages\<close>

lemma decode_two: "decode_columns buf 2 = decode_columns buf (Suc (Suc 0))"
  by (simp add: numeral_2_eq_2)

lemmas decode_code = decodePgOutputMessage_def decodeInsert_def decodeTuple_def readInt32BE_def readUInt_def read_bytes_def be_nat_def
  buf_text_def text_range_def utf8_decode_byte utf8_decode.simps signed32_def decode_two

text \<open>A text whose length runs past the end of the message is cut off without an error.\<close>

lemma truncated_text_accepted:
  "decodePgOutputMessage [0x49, 0, 0, 0, 1, 0x4E, 0, 1, 0x74, 0, 0, 0, 9, 0x41] = Inr (Some (MInsert 1 [ColText [0x41]]))"
  by (simp add: decode_code)

text \<open>A name without its final zero is read as empty, and reading goes on at the start of the message.\<close>

lemma unterminated_name:
  assumes "0 \<notin> set (drop (nat p) buf)" "0 \<le> p"
  shows "read_name buf p = ([], 0)"
proof -
  have "find_index (\<lambda>x. x = 0) (drop (nat p) buf) = None" using assms(1) by (auto simp: find_index_None)
  then show ?thesis using assms(2) by (simp add: read_name_def index_of_def buf_text_def text_range_def)
qed

text \<open>
  An unknown kind is skipped without its data: the length that follows is taken for further columns.
\<close>

lemma unknown_kind_misread:
  "decodePgOutputMessage [0x49, 0, 0, 0, 1, 0x4E, 0, 2, 0x78, 0, 0, 0, 1, 0x41, 0x74, 0, 0, 0, 1, 0x42] =
     Inr (Some (MInsert 1 [ColNull, ColNull]))"
  by (simp add: decode_code)

text \<open>A time before the year 2000, negative on the wire, has no text and throws.\<close>

lemma negative_time_throws:
  assumes "2 ^ 63 \<le> t" "t < 2 ^ 64"
  shows "pgTimestampToIso format t = Inl RangeError"
proof -
  have "2 ^ 63 div 1000 \<le> t div 1000" using assms(1) by (rule div_le_mono)
  then show ?thesis by (simp add: pgTimestampToIso_def PG_EPOCH_MS_def)
qed

end
