(* ===== verification/CdcStream.thy ===== *)
theory CdcStream
  imports PgOutputProperties
begin

text \<open>
  Change data capture, \<^verbatim>\<open>services/ingestion\<close>: log positions (\<^verbatim>\<open>postgres-cdc/lsn.ts\<close>), the stream generator of
  \<^verbatim>\<open>postgres-cdc-connector.ts\<close> that turns replication messages into events and sends positions back, and the
  batches of \<^verbatim>\<open>cdc-ingestion-service.ts\<close> that write events to the raw table of the connector.  Records of rows are
  dictionaries from column names; the order of their keys is that of the columns.
\<close>

section \<open>Log positions\<close>

datatype cdc_error = InvalidLsn string | BufferError | AffectsRowTwice | InsertFailed

definition hex_nibble :: "char \<Rightarrow> nat option" where
  "hex_nibble c =
     (let n = of_char c in if 48 \<le> n \<and> n \<le> 57 then Some (n - 48) else if 65 \<le> n \<and> n \<le> 70 then Some (n - 55)
        else if 97 \<le> n \<and> n \<le> 102 then Some (n - 87) else None)"

definition hex_part :: "string \<Rightarrow> bool" where
  "hex_part s \<longleftrightarrow> 1 \<le> length s \<and> length s \<le> 8 \<and> (\<forall>c \<in> set s. hex_nibble c \<noteq> None)"

definition hex_nat :: "string \<Rightarrow> nat" where
  "hex_nat s = foldl (\<lambda>a c. a * 16 + (case hex_nibble c of Some d \<Rightarrow> d | None \<Rightarrow> 0)) 0 s"

definition parseLsn :: "string \<Rightarrow> cdc_error + nat" where
  "parseLsn lsn =
     (case split_char (CHR ''/'') lsn of
        [high, low] \<Rightarrow>
          if hex_part high \<and> hex_part low then Inr (hex_nat high * 4294967296 + hex_nat low) else Inl (InvalidLsn lsn)
      | _ \<Rightarrow> Inl (InvalidLsn lsn))"

definition formatLsn :: "nat \<Rightarrow> string" where
  "formatLsn value = lsn_text (value div 4294967296 mod 4294967296) (value mod 4294967296)"

definition lsnLessThan :: "string \<Rightarrow> string \<Rightarrow> cdc_error + bool" where
  "lsnLessThan a b = sbind (parseLsn a) (\<lambda>m. sbind (parseLsn b) (\<lambda>n. Inr (m < n)))"

definition maxLsn :: "string \<Rightarrow> string \<Rightarrow> cdc_error + string" where
  "maxLsn a b = sbind (parseLsn a) (\<lambda>m. sbind (parseLsn b) (\<lambda>n. Inr (if n \<le> m then a else b)))"

section \<open>The stream\<close>

datatype CdcType = CdcInsert | CdcUpdate | CdcDelete

type_synonym RowRecord = "(utext, TupleColumn) dict"

record CdcEvent =
  ev_type :: CdcType
  ev_table :: utext
  ev_timestamp :: string
  ev_lsn :: string
  ev_before :: "RowRecord option"
  ev_after :: "RowRecord option"

record CachedRelation =
  cr_qualifiedName :: utext
  cr_columns :: "RelationColumn list"

record StreamState =
  ss_relations :: "(nat, CachedRelation) dict"
  ss_confirmedLsn :: string
  ss_commitTime :: "string option"
  ss_lsn :: "string option"

text \<open>What the generator does: it yields an event or sends a status update with the confirmed position.\<close>

datatype StreamOut = Yield CdcEvent | Feedback string

definition ascii :: "string \<Rightarrow> utext" where
  "ascii s = map of_char s"

text \<open>Assignment to \<^verbatim>\<open>__proto__\<close> makes no property.\<close>

definition record_set :: "RowRecord \<Rightarrow> utext \<Rightarrow> TupleColumn \<Rightarrow> RowRecord" where
  "record_set r n v = (if n = ascii ''__proto__'' then r else map_set r n v)"

definition tupleToRecord :: "TupleData \<Rightarrow> CachedRelation \<Rightarrow> RowRecord" where
  "tupleToRecord tuple relation =
     foldl (\<lambda>r (col, relCol). if col = ColUnchanged then r else record_set r (rc_name relCol) col) []
       (zip tuple (cr_columns relation))"

definition KEEPALIVE_BYTE :: byte where "KEEPALIVE_BYTE = 107"
definition XLOG_DATA_BYTE :: byte where "XLOG_DATA_BYTE = 119"

definition sendStandbyStatusUpdate :: "string \<Rightarrow> cdc_error + StreamOut list" where
  "sendStandbyStatusUpdate lsn =
     sbind (parseLsn (if lsn = ''0/0'' then ''00000000/00000000'' else lsn)) (\<lambda>_. Inr [Feedback lsn])"

text \<open>A row change of a relation that is known and passes the filter.\<close>

definition row_event ::
  "utext list \<Rightarrow> string \<Rightarrow> string \<Rightarrow> StreamState \<Rightarrow> nat \<Rightarrow> CdcType \<Rightarrow> TupleData option \<Rightarrow> TupleData option \<Rightarrow> StreamOut list" where
  "row_event tables now msgLsn st relationId kind before after =
     (case dict_get (ss_relations st) relationId of
        None \<Rightarrow> []
      | Some relation \<Rightarrow>
          if tables \<noteq> [] \<and> cr_qualifiedName relation \<notin> set tables then []
          else [Yield \<lparr>ev_type = kind, ev_table = cr_qualifiedName relation,
                  ev_timestamp = (case ss_commitTime st of Some t \<Rightarrow> t | None \<Rightarrow> now),
                  ev_lsn = (case ss_lsn st of Some l \<Rightarrow> l | None \<Rightarrow> msgLsn),
                  ev_before = map_option (\<lambda>t. tupleToRecord t relation) before,
                  ev_after = map_option (\<lambda>t. tupleToRecord t relation) after\<rparr>])"

definition stream_message ::
  "(nat \<Rightarrow> string) \<Rightarrow> utext list \<Rightarrow> string \<Rightarrow> string \<Rightarrow> DecodedMessage \<Rightarrow> StreamState \<Rightarrow> cdc_error + (StreamOut list \<times> StreamState)" where
  "stream_message format tables now msgLsn m st =
     (case m of
        MRelation r \<Rightarrow>
          Inr ([], st\<lparr>ss_relations := map_set (ss_relations st) (rm_relationId r)
                        \<lparr>cr_qualifiedName = rm_schema r @ ascii ''.'' @ rm_name r, cr_columns = rm_columns r\<rparr>\<rparr>)
      | MBegin lsn time xid \<Rightarrow>
          (case pgTimestampToIso format time of
             Inl e \<Rightarrow> Inl BufferError
           | Inr t \<Rightarrow> Inr ([], st\<lparr>ss_lsn := Some msgLsn, ss_commitTime := Some t\<rparr>))
      | MCommit flags lsn endLsn time \<Rightarrow>
          sbind (maxLsn (ss_confirmedLsn st) endLsn) (\<lambda>confirmed.
          sbind (sendStandbyStatusUpdate confirmed) (\<lambda>out.
            Inr (out, st\<lparr>ss_confirmedLsn := confirmed, ss_commitTime := None, ss_lsn := None\<rparr>)))
      | MInsert i new \<Rightarrow> Inr (row_event tables now msgLsn st i CdcInsert None (Some new), st)
      | MUpdate i old new \<Rightarrow> Inr (row_event tables now msgLsn st i CdcUpdate old (Some new), st)
      | MDelete i old key \<Rightarrow>
          Inr (row_event tables now msgLsn st i CdcDelete (case old of Some t \<Rightarrow> Some t | None \<Rightarrow> key) None, st))"

definition buffer_result :: "buffer_error + 'a \<Rightarrow> cdc_error + 'a" where
  "buffer_result r = (case r of Inl e \<Rightarrow> Inl BufferError | Inr x \<Rightarrow> Inr x)"

text \<open>One chunk from the server: a keepalive, a message with its position, or something else.\<close>

definition stream_chunk ::
  "(nat \<Rightarrow> string) \<Rightarrow> utext list \<Rightarrow> string \<Rightarrow> buffer \<Rightarrow> StreamState \<Rightarrow> cdc_error + (StreamOut list \<times> StreamState)" where
  "stream_chunk format tables now buf st =
     (if buf \<noteq> [] \<and> hd buf = KEEPALIVE_BYTE then
        (if 17 < length buf \<and> buf ! 17 = 1
         then sbind (sendStandbyStatusUpdate (ss_confirmedLsn st)) (\<lambda>out. Inr (out, st)) else Inr ([], st))
      else if buf = [] \<or> hd buf \<noteq> XLOG_DATA_BYTE then Inr ([], st)
      else sbind (buffer_result (read_lsn buf 1)) (\<lambda>msgLsn.
           sbind (buffer_result (decodePgOutputMessage (subarray buf 25 (int (length buf))))) (\<lambda>decoded.
             case decoded of None \<Rightarrow> Inr ([], st) | Some m \<Rightarrow> stream_message format tables now msgLsn m st)))"

text \<open>
  The queue of the generator; a stop is the abort signal or the end of the connection, a failure its error.  The
  feedback timer fires between two entries and repeats the confirmed position.  The outputs, and whether the generator waits, has returned or has thrown.
\<close>

datatype QueueEntry = Chunk buffer | ConnectionError | StreamEnd | FeedbackTimer

datatype StreamResult = Waiting StreamState | Returned | Threw cdc_error | ThrewConnection

fun stream_loop ::
  "(nat \<Rightarrow> string) \<Rightarrow> utext list \<Rightarrow> string \<Rightarrow> QueueEntry list \<Rightarrow> StreamState \<Rightarrow> StreamOut list \<times> StreamResult" where
  "stream_loop format tables now [] st = ([], Waiting st)"
| "stream_loop format tables now (StreamEnd # es) st = ([], Returned)"
| "stream_loop format tables now (ConnectionError # es) st = ([], ThrewConnection)"
| "stream_loop format tables now (FeedbackTimer # es) st =
     (let (out, r) = stream_loop format tables now es st
      in ((case sendStandbyStatusUpdate (ss_confirmedLsn st) of Inl e \<Rightarrow> [] | Inr fb \<Rightarrow> fb) @ out, r))"
| "stream_loop format tables now (Chunk buf # es) st =
     (case stream_chunk format tables now buf st of
        Inl e \<Rightarrow> ([], Threw e)
      | Inr (out, st') \<Rightarrow> (let (out', r) = stream_loop format tables now es st' in (out @ out', r)))"

definition stream_init :: "string option \<Rightarrow> StreamState" where
  "stream_init startPosition =
     \<lparr>ss_relations = [], ss_confirmedLsn = (case startPosition of Some p \<Rightarrow> p | None \<Rightarrow> ''0/0''), ss_commitTime = None, ss_lsn = None\<rparr>"

definition startCdcStream ::
  "(nat \<Rightarrow> string) \<Rightarrow> utext list \<Rightarrow> string \<Rightarrow> string option \<Rightarrow> QueueEntry list \<Rightarrow> StreamOut list \<times> StreamResult" where
  "startCdcStream format tables now startPosition entries = stream_loop format tables now entries (stream_init startPosition)"

end
