(* ===== verification/CdcIngestion.thy ===== *)
theory CdcIngestion
  imports CdcStream
begin

text \<open>
  Batches of change events, \<^verbatim>\<open>services/ingestion/src/services/cdc-ingestion-service.ts\<close> with the insert of
  \<^verbatim>\<open>raw-table-repository.ts\<close> and the envelope ids of \<^verbatim>\<open>data-envelope.ts\<close>.  The id of an envelope is a name-based
  UUID of a third-party library, the function \<open>uuid\<close>.
\<close>

section \<open>Envelopes and the raw table\<close>

record Envelope =
  en_id :: string
  en_batch_id :: string
  en_cursor :: string
  en_source_id :: utext
  en_event :: CdcEvent

definition type_text :: "CdcType \<Rightarrow> string" where
  "type_text k = (case k of CdcInsert \<Rightarrow> ''insert'' | CdcUpdate \<Rightarrow> ''update'' | CdcDelete \<Rightarrow> ''delete'')"

definition source_id :: "CdcEvent \<Rightarrow> utext" where
  "source_id e = ev_table e @ ascii '':'' @ ascii (type_text (ev_type e)) @ ascii '':'' @ ascii (ev_lsn e)"

definition normalizeToEnvelope :: "(utext \<Rightarrow> string) \<Rightarrow> string \<Rightarrow> CdcEvent \<Rightarrow> Envelope" where
  "normalizeToEnvelope uuid batchId e =
     \<lparr>en_id = uuid (source_id e), en_batch_id = batchId, en_cursor = ev_lsn e, en_source_id = source_id e, en_event = e\<rparr>"

text \<open>
  The upsert is one statement: a row that it would insert or update twice makes it fail as a whole.
\<close>

type_synonym RawTable = "(string, Envelope) dict"

definition insertBatch :: "Envelope list \<Rightarrow> RawTable \<Rightarrow> cdc_error + RawTable" where
  "insertBatch envelopes rows =
     (if envelopes = [] then Inr rows
      else if distinct (map en_id envelopes) then Inr (foldl (\<lambda>t e. map_set t (en_id e) e) rows envelopes)
      else Inl AffectsRowTwice)"

section \<open>The batch buffer\<close>

datatype CdcStreamStatus = Running | Stopped | CdcErrorStatus | Reconnecting

record IngestState =
  in_buffer :: "CdcEvent list"
  in_batchId :: nat
  in_rows :: RawTable
  in_position :: "string option"
  in_cursor :: "string option"
  in_eventsProcessed :: nat

text \<open>
  \<open>db\<close> says whether the database takes the write; batch ids are generated, the \<open>n\<close>-th by \<open>batch_id n\<close>.
  The buffer is emptied before the write, and stays so when the write fails.
\<close>

definition flushBatch :: "bool \<Rightarrow> (utext \<Rightarrow> string) \<Rightarrow> string \<Rightarrow> CdcEvent list \<Rightarrow> RawTable \<Rightarrow> cdc_error + RawTable" where
  "flushBatch db uuid batchId events rows =
     (if events = [] then Inr rows
      else if \<not> db then Inl InsertFailed else insertBatch (map (normalizeToEnvelope uuid batchId) events) rows)"

definition flushNow ::
  "bool \<Rightarrow> (utext \<Rightarrow> string) \<Rightarrow> (nat \<Rightarrow> string) \<Rightarrow> IngestState \<Rightarrow> (cdc_error option) \<times> IngestState" where
  "flushNow db uuid batch_id s =
     (if in_buffer s = [] then (None, s)
      else let toFlush = in_buffer s; s = s\<lparr>in_buffer := []\<rparr>
           in case flushBatch db uuid (batch_id (in_batchId s)) toFlush (in_rows s) of
                Inl e \<Rightarrow> (Some e, s)
              | Inr rows \<Rightarrow>
                  let s = s\<lparr>in_rows := rows\<rparr>
                  in case maxLsn (case in_position s of Some p \<Rightarrow> p | None \<Rightarrow> ''0/0'') (ev_lsn (last toFlush)) of
                       Inl e \<Rightarrow> (Some e, s)
                     | Inr advanced \<Rightarrow>
                         (None, s\<lparr>in_position := Some advanced, in_cursor := Some advanced,
                            in_eventsProcessed := in_eventsProcessed s + length toFlush, in_batchId := in_batchId s + 1\<rparr>))"

text \<open>An event from the stream: buffered, and the buffer written when it is full.\<close>

definition receive_event ::
  "nat \<Rightarrow> bool \<Rightarrow> (utext \<Rightarrow> string) \<Rightarrow> (nat \<Rightarrow> string) \<Rightarrow> CdcEvent \<Rightarrow> IngestState \<Rightarrow> (cdc_error option) \<times> IngestState" where
  "receive_event batchSize db uuid batch_id e s =
     (let s = s\<lparr>in_buffer := in_buffer s @ [e]\<rparr>
      in if batchSize \<le> length (in_buffer s) then flushNow db uuid batch_id s else (None, s))"

text \<open>The batch timer: a failure is logged only.\<close>

definition timer_flush :: "bool \<Rightarrow> (utext \<Rightarrow> string) \<Rightarrow> (nat \<Rightarrow> string) \<Rightarrow> IngestState \<Rightarrow> IngestState" where
  "timer_flush db uuid batch_id s = snd (flushNow db uuid batch_id s)"

section \<open>Reconnection\<close>

definition MAX_RECONNECT_ATTEMPTS :: nat where "MAX_RECONNECT_ATTEMPTS = 5"
definition RECONNECT_BASE_DELAY_MS :: nat where "RECONNECT_BASE_DELAY_MS = 2000"

text \<open>How an attempt ends: the generator returned and the rest was written, an error, or the connector is gone.\<close>

datatype AttemptEnd = CleanEnd | AttemptError | ConnectorGone

text \<open>
  The loop from an attempt on, with how the coming attempts end; \<open>aborted k later\<close> says whether a stop was requested
  before attempt \<open>k\<close>, or by the end of the delay before it.  The delays waited, and the final status.
\<close>

fun runStreamLoop ::
  "(nat \<Rightarrow> bool \<Rightarrow> bool) \<Rightarrow> (nat \<Rightarrow> AttemptEnd) \<Rightarrow> nat \<Rightarrow> nat \<Rightarrow> nat list \<Rightarrow> (nat list \<times> CdcStreamStatus) option" where
  "runStreamLoop aborted ends 0 attempt delays = None"
| "runStreamLoop aborted ends (Suc fuel) attempt delays =
     (if MAX_RECONNECT_ATTEMPTS < attempt then Some (delays, CdcErrorStatus)
      else if aborted attempt False then Some (delays, Stopped)
      else let delays = (if 0 < attempt then delays @ [RECONNECT_BASE_DELAY_MS * 2 ^ (attempt - 1)] else delays)
           in if 0 < attempt \<and> aborted attempt True then Some (delays, Stopped)
              else case ends attempt of
                     CleanEnd \<Rightarrow> Some (delays, Stopped)
                   | AttemptError \<Rightarrow> runStreamLoop aborted ends fuel (attempt + 1) delays
                   | ConnectorGone \<Rightarrow> Some (delays, if MAX_RECONNECT_ATTEMPTS < attempt + 1 then CdcErrorStatus else Stopped))"

section \<open>Starting, stopping, status\<close>

record CdcStatus =
  ct_status :: CdcStreamStatus
  ct_currentPosition :: "string option"
  ct_eventsProcessed :: nat
  ct_startedAt :: "string option"
  ct_lastError :: "string option"

text \<open>Active streams with their abort flag, and the published statuses with their time to live.\<close>

record CdcService =
  cv_active :: "(string, CdcStatus \<times> bool) dict"
  cv_published :: "(string, CdcStatus \<times> nat option) dict"

definition CDC_STATUS_TERMINAL_TTL_SECONDS :: nat where "CDC_STATUS_TERMINAL_TTL_SECONDS = 86400"

definition writeStatus :: "string \<Rightarrow> CdcStatus \<Rightarrow> CdcService \<Rightarrow> CdcService" where
  "writeStatus connectorId status v =
     v\<lparr>cv_published := map_set (cv_published v) connectorId
         (status, if ct_status status \<in> {Stopped, CdcErrorStatus} then Some CDC_STATUS_TERMINAL_TTL_SECONDS else None)\<rparr>"

text \<open>
  \<open>tenant_of\<close> gives the tenant of a connector, \<open>last_cursor\<close> its persisted cursor.  The result is the start position of the
  stream that is started, or nothing when one is active; \<open>Inl\<close> is the error for an unknown connector.
\<close>

definition startCdcIngestion ::
  "(string \<Rightarrow> string option) \<Rightarrow> (string \<Rightarrow> string option) \<Rightarrow> string \<Rightarrow> string \<Rightarrow> string \<Rightarrow> string option \<Rightarrow> CdcService \<Rightarrow>
   (string + string option option) \<times> CdcService" where
  "startCdcIngestion tenant_of last_cursor now connectorId tenantId option_start v =
     (if dict_has (cv_active v) connectorId then (Inr None, v)
      else if tenant_of connectorId \<noteq> Some tenantId then (Inl connectorId, v)
      else let startPosition = (case option_start of Some p \<Rightarrow> Some p | None \<Rightarrow> last_cursor connectorId);
               status = \<lparr>ct_status = Running, ct_currentPosition = startPosition, ct_eventsProcessed = 0,
                         ct_startedAt = Some now, ct_lastError = None\<rparr>
           in (Inr (Some startPosition),
               writeStatus connectorId status (v\<lparr>cv_active := map_set (cv_active v) connectorId (status, False)\<rparr>)))"

definition stopCdcIngestion :: "string \<Rightarrow> CdcService \<Rightarrow> CdcService" where
  "stopCdcIngestion connectorId v =
     (case dict_get (cv_active v) connectorId of
        None \<Rightarrow> v
      | Some (status, _) \<Rightarrow> v\<lparr>cv_active := map_set (cv_active v) connectorId (status, True)\<rparr>)"

definition stream_terminated :: "string \<Rightarrow> CdcStatus \<Rightarrow> CdcService \<Rightarrow> CdcService" where
  "stream_terminated connectorId status v =
     (let v = writeStatus connectorId status v in v\<lparr>cv_active := map_delete (cv_active v) connectorId\<rparr>)"

definition getCdcStatus :: "string \<Rightarrow> CdcService \<Rightarrow> CdcStatus option" where
  "getCdcStatus connectorId v =
     (case dict_get (cv_active v) connectorId of
        Some (status, _) \<Rightarrow> Some status
      | None \<Rightarrow> map_option fst (dict_get (cv_published v) connectorId))"

end
