(* ===== verification/CdcProperties.thy ===== *)
theory CdcProperties
  imports CdcIngestion
begin

text \<open>
  The stream reads messages as they are on the wire and confirms positions that never go back.  The batches
  keep the persisted cursor behind what is stored.  Together they lose data: the rows of one transaction get one
  id, and positions are confirmed to the server before their events are stored.
\<close>

section \<open>Positions\<close>

lemma hex_nat_snoc [simp]: "hex_nat (s @ [c]) = hex_nat s * 16 + (case hex_nibble c of Some d \<Rightarrow> d | None \<Rightarrow> 0)"
  by (simp add: hex_nat_def)

lemma hex_nibble_upper: "d < 16 \<Longrightarrow> hex_nibble (hex_upper d) = Some d"
  by (auto simp: hex_nibble_def hex_upper_def Let_def)

lemma hex_text_value: "hex_nat (hex_text n) = n \<and> (\<forall>c \<in> set (hex_text n). hex_nibble c \<noteq> None)"
proof (induction n rule: hex_text.induct)
  case (1 n)
  show ?case
  proof (cases "n < 16")
    case True
    then show ?thesis using hex_nat_snoc [of "[]" "hex_upper n"] by (simp add: hex_text.simps [of n] hex_nibble_upper hex_nat_def)
  next
    case False
    with "1.IH" show ?thesis by (simp add: hex_text.simps [of n] hex_nibble_upper)
  qed
qed

lemma hex_text_length: "n < 16 ^ Suc k \<Longrightarrow> 1 \<le> length (hex_text n) \<and> length (hex_text n) \<le> Suc k"
proof (induction k arbitrary: n)
  case 0
  then show ?case by (simp add: hex_text.simps)
next
  case (Suc k)
  from Suc.prems have "n div 16 < 16 ^ Suc k" by (simp add: less_mult_imp_div_less mult.commute)
  with Suc.IH [of "n div 16"] show ?case by (simp add: hex_text.simps [of n])
qed

lemma hex_nat_zeros: "hex_nat (replicate k (CHR ''0'') @ s) = hex_nat s"
proof (induction s rule: rev_induct)
  case Nil
  show ?case by (induction k) (simp_all add: hex_nat_def hex_nibble_def foldl_conv_fold)
next
  case (snoc c s)
  then show ?case by (simp flip: append_assoc)
qed

lemma padded_hex:
  assumes "n < 4294967296"
  shows "hex_part (padStart 8 (CHR ''0'') (hex_text n))" "hex_nat (padStart 8 (CHR ''0'') (hex_text n)) = n"
    "CHR ''/'' \<notin> set (padStart 8 (CHR ''0'') (hex_text n))"
proof -
  have "length (hex_text n) \<le> 8" using hex_text_length [of n 7] assms by simp
  then show "hex_part (padStart 8 (CHR ''0'') (hex_text n))" "hex_nat (padStart 8 (CHR ''0'') (hex_text n)) = n"
    using hex_text_value [of n] by (auto simp: hex_part_def padStart_def hex_nat_zeros) (simp add: hex_nibble_def)
  have "hex_nibble (CHR ''/'') = None" by (simp add: hex_nibble_def)
  then show "CHR ''/'' \<notin> set (padStart 8 (CHR ''0'') (hex_text n))"
    using hex_text_value [of n] by (auto simp: padStart_def)
qed

lemma split_char_join: "c \<notin> set a \<Longrightarrow> c \<notin> set b \<Longrightarrow> split_char c (a @ c # b) = [a, b]"
proof (induction a)
  case Nil
  have "c \<notin> set b \<Longrightarrow> split_char c b = [b]" by (induction b) auto
  with Nil show ?case by simp
qed auto

lemma parse_lsn_text:
  "high < 4294967296 \<Longrightarrow> low < 4294967296 \<Longrightarrow> parseLsn (lsn_text high low) = Inr (high * 4294967296 + low)"
  using padded_hex [of high] padded_hex [of low] by (simp add: parseLsn_def lsn_text_def split_char_join)

text \<open>A 64-bit position survives formatting and parsing, so positions compare as numbers.\<close>

lemma parse_format_lsn: "v < 2 ^ 64 \<Longrightarrow> parseLsn (formatLsn v) = Inr v"
  by (simp add: formatLsn_def parse_lsn_text div_mult_mod_eq)

lemma maxLsn_value: "maxLsn a b = Inr c \<Longrightarrow> parseLsn a = Inr m \<Longrightarrow> \<exists>n \<ge> m. parseLsn c = Inr n"
  by (cases "parseLsn b") (auto simp: maxLsn_def split: if_splits)

section \<open>Feedback\<close>

definition feedbacks :: "StreamOut list \<Rightarrow> string list" where
  "feedbacks out = concat (map (\<lambda>x. case x of Feedback l \<Rightarrow> [l] | Yield e \<Rightarrow> []) out)"

lemma feedbacks_simps [simp]:
  "feedbacks [] = []" "feedbacks (Yield e # out) = feedbacks out" "feedbacks (Feedback l # out) = l # feedbacks out"
  "feedbacks (out @ out') = feedbacks out @ feedbacks out'"
  by (simp_all add: feedbacks_def)

lemma feedbacks_row_event [simp]: "feedbacks (row_event tables now l st i k b a) = []"
  by (simp add: row_event_def split: option.split)

lemma status_update_out: "sendStandbyStatusUpdate l = Inr out \<Longrightarrow> out = [Feedback l]"
  by (auto simp: sendStandbyStatusUpdate_def sbind_def split: sum.splits)

lemma sbind_Inr_iff: "sbind r f = Inr y \<longleftrightarrow> (\<exists>x. r = Inr x \<and> f x = Inr y)"
  by (cases r) auto

lemma stream_message_confirmed:
  assumes "stream_message format tables now l m st = Inr (out, st')" "parseLsn (ss_confirmedLsn st) = Inr n"
  shows "\<exists>n' \<ge> n. parseLsn (ss_confirmedLsn st') = Inr n' \<and> set (feedbacks out) \<subseteq> {ss_confirmedLsn st'} \<and> length (feedbacks out) \<le> 1"
proof (cases m)
  case (MCommit flags lsn e time)
  with assms(1) obtain c where "maxLsn (ss_confirmedLsn st) e = Inr c" "out = [Feedback c]" "ss_confirmedLsn st' = c"
    by (auto simp: stream_message_def sbind_Inr_iff dest: status_update_out)
  with maxLsn_value [OF _ assms(2)] show ?thesis by auto
qed (use assms in \<open>auto simp: stream_message_def split: sum.splits\<close>)

lemma stream_chunk_confirmed:
  assumes "stream_chunk format tables now buf st = Inr (out, st')" "parseLsn (ss_confirmedLsn st) = Inr n"
  shows "\<exists>n' \<ge> n. parseLsn (ss_confirmedLsn st') = Inr n' \<and> set (feedbacks out) \<subseteq> {ss_confirmedLsn st'} \<and> length (feedbacks out) \<le> 1"
proof -
  have quiet: ?thesis if "feedbacks out = []" "st' = st" using that assms(2) by auto
  have fed: ?thesis if "out = [Feedback (ss_confirmedLsn st)]" "st' = st" using that assms(2) by auto
  show ?thesis
    using assms stream_message_confirmed quiet fed
    by (auto simp: stream_chunk_def sbind_Inr_iff split: if_splits option.splits dest: status_update_out)
qed

lemma stream_loop_feedback:
  "stream_loop format tables now es st = (out, r) \<Longrightarrow> parseLsn (ss_confirmedLsn st) = Inr n \<Longrightarrow>
   \<exists>ns. map parseLsn (feedbacks out) = map Inr ns \<and> sorted (n # ns)"
proof (induction format tables now es st arbitrary: out n r rule: stream_loop.induct)
  case (4 format tables now es st)
  obtain o2 r2 where rest: "stream_loop format tables now es st = (o2, r2)" by fastforce
  from "4.IH" [OF rest "4.prems"(2)] obtain ns where ns: "map parseLsn (feedbacks o2) = map Inr ns" "sorted (n # ns)" by blast
  show ?case
  proof (cases "sendStandbyStatusUpdate (ss_confirmedLsn st)")
    case (Inl e)
    with ns rest "4.prems"(1) show ?thesis by auto
  next
    case (Inr fb)
    with ns rest "4.prems" show ?thesis by (auto dest!: status_update_out intro!: exI [of _ "n # ns"])
  qed
next
  case (5 format tables now buf es st)
  show ?case
  proof (cases "stream_chunk format tables now buf st")
    case (Inl e)
    with "5.prems" show ?thesis by auto
  next
    case (Inr a)
    obtain o1 st' where a: "a = (o1, st')" by (cases a)
    obtain o2 r2 where rest: "stream_loop format tables now es st' = (o2, r2)" by fastforce
    from stream_chunk_confirmed [OF Inr [unfolded a] "5.prems"(2)]
    obtain n' where n': "n \<le> n'" "parseLsn (ss_confirmedLsn st') = Inr n'" "set (feedbacks o1) \<subseteq> {ss_confirmedLsn st'}"
      "length (feedbacks o1) \<le> 1" by blast
    from "5.IH" [OF Inr a [symmetric] rest n'(2)] obtain ns where
      ns: "map parseLsn (feedbacks o2) = map Inr ns" "sorted (n' # ns)" by blast
    have "out = o1 @ o2" using "5.prems"(1) Inr a rest by simp
    moreover have "feedbacks o1 = [] \<or> feedbacks o1 = [ss_confirmedLsn st']"
      using n'(3,4) by (cases "feedbacks o1") auto
    ultimately show ?thesis
      using ns n'(1,2) by (elim disjE) (auto intro!: exI [of _ ns] exI [of _ "n' # ns"] intro: order_trans)
  qed
qed auto

text \<open>
  Property C37: whatever bytes the server sends, the positions that the stream confirms are valid, start at or
  after the start position and never go back.
\<close>

theorem feedback_monotone:
  assumes "parseLsn (case start of Some p \<Rightarrow> p | None \<Rightarrow> ''0/0'') = Inr n"
  shows "\<exists>ns. map parseLsn (feedbacks (fst (startCdcStream format tables now start entries))) = map Inr ns \<and> sorted (n # ns)"
proof -
  obtain out r where "stream_loop format tables now entries (stream_init start) = (out, r)" by fastforce
  with stream_loop_feedback [OF this, of n] assms show ?thesis by (simp add: startCdcStream_def stream_init_def)
qed

theorem feedback_monotone_witness:
  "\<exists>ns. map parseLsn (feedbacks (fst (startCdcStream (\<lambda>n. []) [] [] None [Chunk (KEEPALIVE_BYTE # replicate 16 0 @ [1])]))) = map Inr ns \<and>
     sorted (0 # ns)"
  by (rule feedback_monotone) (simp add: parseLsn_def hex_part_def hex_nat_def hex_nibble_def)

section \<open>From bytes to events\<close>

text \<open>A message with its position as a chunk of the copy stream; \<open>stamps\<close> stands for the end position and the send time.\<close>

definition wire_chunk :: "nat \<times> nat \<Rightarrow> byte list \<Rightarrow> WireMessage \<Rightarrow> buffer" where
  "wire_chunk l stamps m = [XLOG_DATA_BYTE] @ wire_lsn l @ stamps @ wire m"

lemma stream_wire_chunk:
  assumes "lsn_ok l" "length stamps = 16" "wire_ok m"
  shows "stream_chunk format tables now (wire_chunk l stamps m) st =
    (case view m of None \<Rightarrow> Inr ([], st) | Some d \<Rightarrow> stream_message format tables now (lsn_text (fst l) (snd l)) d st)"
proof -
  let ?buf = "wire_chunk l stamps m"
  have "bytes_at ?buf 0 ([XLOG_DATA_BYTE] @ wire_lsn l @ stamps @ wire m)"
    using bytes_at_whole [of ?buf] by (simp add: wire_chunk_def)
  then have at: "bytes_at ?buf 1 (wire_lsn l)" "bytes_at ?buf 25 (wire m)"
    using assms(2) unfolding bytes_at_append by (simp_all add: wire_lsn_def)
  have "int (length ?buf) = 25 + int (length (wire m))" using assms(2) by (simp add: wire_chunk_def wire_lsn_def)
  then have "subarray ?buf 25 (int (length ?buf)) = wire m" using subarray_at [OF at(2)] by simp
  moreover have "?buf \<noteq> []" "hd ?buf = XLOG_DATA_BYTE" by (simp_all add: wire_chunk_def)
  ultimately show ?thesis
    using read_lsn_at [OF at(1) assms(1)] decodes_wire [OF assms(3)]
    by (simp add: stream_chunk_def buffer_result_def) (simp add: XLOG_DATA_BYTE_def KEEPALIVE_BYTE_def)
qed

text \<open>A row inserted by a transaction: the position of its message, the times of its chunk, the columns.\<close>

record WireRow =
  wr_lsn :: "nat \<times> nat"
  wr_stamps :: "byte list"
  wr_columns :: "WireColumn list"

definition row_ok :: "WireRow \<Rightarrow> bool" where
  "row_ok r \<longleftrightarrow> lsn_ok (wr_lsn r) \<and> length (wr_stamps r) = 16 \<and> tuple_ok (wr_columns r)"

definition row_chunk :: "nat \<Rightarrow> WireRow \<Rightarrow> QueueEntry" where
  "row_chunk i r = Chunk (wire_chunk (wr_lsn r) (wr_stamps r) (WInsert i (wr_columns r)))"

text \<open>The event of a row, in a transaction that began at position \<open>l\<close>.\<close>

definition insert_event :: "CachedRelation \<Rightarrow> string \<Rightarrow> string \<Rightarrow> WireRow \<Rightarrow> CdcEvent" where
  "insert_event rel t l r =
     \<lparr>ev_type = CdcInsert, ev_table = cr_qualifiedName rel, ev_timestamp = t, ev_lsn = l, ev_before = None,
      ev_after = Some (tupleToRecord (map column_view (wr_columns r)) rel)\<rparr>"

lemma rows_stream:
  assumes "dict_get (ss_relations st) i = Some rel" "tables = [] \<or> cr_qualifiedName rel \<in> set tables" "i < 2 ^ 32"
    "ss_commitTime st = Some t" "ss_lsn st = Some l"
  shows "\<forall>r \<in> set rows. row_ok r \<Longrightarrow>
    stream_loop format tables now (map (row_chunk i) rows @ es) st =
      (let (out, r) = stream_loop format tables now es st in (map (Yield \<circ> insert_event rel t l) rows @ out, r))"
proof (induction rows)
  case (Cons r rows)
  have "stream_chunk format tables now (wire_chunk (wr_lsn r) (wr_stamps r) (WInsert i (wr_columns r))) st =
      Inr ([Yield (insert_event rel t l r)], st)"
    using assms Cons.prems
    by (subst stream_wire_chunk) (auto simp: row_ok_def stream_message_def row_event_def insert_event_def)
  then show ?case using Cons by (simp add: row_chunk_def split: prod.split)
qed simp


section \<open>Batches\<close>

text \<open>
  What happens to the batches of a stream: events arrive, the timer fires, and the database takes a write or
  not.  The log holds the events of the writes it took, in order.
\<close>

inductive ingest_run :: "nat \<Rightarrow> (utext \<Rightarrow> string) \<Rightarrow> (nat \<Rightarrow> string) \<Rightarrow> string option \<Rightarrow> IngestState \<Rightarrow> CdcEvent list \<Rightarrow> bool"
  for batchSize uuid batch_id start where
  ig_start: "in_buffer s = [] \<Longrightarrow> in_position s = start \<Longrightarrow> in_cursor s = start \<Longrightarrow> in_eventsProcessed s = 0 \<Longrightarrow>
    ingest_run batchSize uuid batch_id start s []"
| ig_event: "ingest_run batchSize uuid batch_id start s wlog \<Longrightarrow>
    ingest_run batchSize uuid batch_id start (snd (receive_event batchSize db uuid batch_id e s))
      (if batchSize \<le> length (in_buffer s @ [e]) \<and> db \<and> distinct (map (uuid \<circ> source_id) (in_buffer s @ [e]))
       then wlog @ in_buffer s @ [e] else wlog)"
| ig_timer: "ingest_run batchSize uuid batch_id start s wlog \<Longrightarrow>
    ingest_run batchSize uuid batch_id start (timer_flush db uuid batch_id s)
      (if db \<and> distinct (map (uuid \<circ> source_id) (in_buffer s)) then wlog @ in_buffer s else wlog)"

text \<open>The cursor is a position that was started from or stored; every event of the log has its row.\<close>

definition cursor_ok :: "string option \<Rightarrow> string option \<Rightarrow> CdcEvent list \<Rightarrow> bool" where
  "cursor_ok start cur wlog \<longleftrightarrow> cur = start \<or> cur \<in> Some ` insert ''0/0'' (ev_lsn ` set wlog)"

definition stored :: "(utext \<Rightarrow> string) \<Rightarrow> string option \<Rightarrow> IngestState \<Rightarrow> CdcEvent list \<Rightarrow> bool" where
  "stored uuid start s wlog \<longleftrightarrow>
     (\<forall>e \<in> set wlog. dict_has (in_rows s) (uuid (source_id e))) \<and> in_cursor s = in_position s \<and>
     cursor_ok start (in_cursor s) wlog \<and> in_eventsProcessed s \<le> length wlog"

lemma cursor_ok_append: "cursor_ok start cur wlog \<Longrightarrow> cursor_ok start cur (wlog @ es)"
  by (auto simp: cursor_ok_def)

lemma insert_rows_keys:
  "fst ` set (foldl (\<lambda>t e. map_set t (en_id e) e) rows es) = fst ` set rows \<union> en_id ` set es"
  by (induction es arbitrary: rows) auto

lemma envelope_simps [simp]:
  "en_id (normalizeToEnvelope uuid b e) = uuid (source_id e)" "en_source_id (normalizeToEnvelope uuid b e) = source_id e"
  by (simp_all add: normalizeToEnvelope_def)

text \<open>A flush either writes the whole buffer or loses it.\<close>

lemma flushBatch_cases:
  "flushBatch db uuid b es rows =
     (if es = [] then Inr rows
      else if \<not> db then Inl InsertFailed
      else if distinct (map (uuid \<circ> source_id) es)
      then Inr (foldl (\<lambda>t e. map_set t (en_id e) e) rows (map (normalizeToEnvelope uuid b) es))
      else Inl AffectsRowTwice)"
  by (simp add: flushBatch_def insertBatch_def comp_def)

lemma flush_stored:
  assumes "stored uuid start s wlog"
  shows "stored uuid start (snd (flushNow db uuid batch_id s))
    (if db \<and> distinct (map (uuid \<circ> source_id) (in_buffer s)) then wlog @ in_buffer s else wlog)"
proof (cases "in_buffer s = [] \<or> \<not> db \<or> \<not> distinct (map (uuid \<circ> source_id) (in_buffer s))")
  case True
  with assms show ?thesis
    by (auto simp: flushNow_def flushBatch_cases Let_def stored_def)
next
  case False
  let ?es = "in_buffer s"
  let ?rows = "foldl (\<lambda>t e. map_set t (en_id e) e) (in_rows s) (map (normalizeToEnvelope uuid (batch_id (in_batchId s))) ?es)"
  have st: "\<forall>e \<in> set wlog. dict_has (in_rows s) (uuid (source_id e))" "in_cursor s = in_position s"
    "cursor_ok start (in_cursor s) (wlog @ ?es)" "in_eventsProcessed s \<le> length wlog"
    using assms by (auto simp: stored_def cursor_ok_append)
  have "fst ` set ?rows = fst ` set (in_rows s) \<union> en_id ` set (map (normalizeToEnvelope uuid (batch_id (in_batchId s))) ?es)"
    by (rule insert_rows_keys)
  then have rows: "\<forall>e \<in> set (wlog @ ?es). dict_has ?rows (uuid (source_id e))"
    using st(1) by (simp add: image_image ball_Un)
  have flush: "flushBatch db uuid (batch_id (in_batchId s)) ?es (in_rows s) = Inr ?rows"
    using False by (simp add: flushBatch_cases)
  show ?thesis
  proof (cases "maxLsn (case in_position s of Some p \<Rightarrow> p | None \<Rightarrow> ''0/0'') (ev_lsn (last ?es))")
    case (Inl e)
    with False rows st flush show ?thesis by (simp add: flushNow_def Let_def stored_def)
  next
    case (Inr adv)
    then have "adv = (case in_position s of Some p \<Rightarrow> p | None \<Rightarrow> ''0/0'') \<or> adv = ev_lsn (last ?es)"
      by (auto simp: maxLsn_def sbind_Inr_iff)
    moreover have "last ?es \<in> set ?es" using False by auto
    ultimately have "cursor_ok start (Some adv) (wlog @ ?es)"
      using st(2,3) by (auto simp: cursor_ok_def split: option.splits)
    with Inr False rows st(4) flush show ?thesis by (simp add: flushNow_def Let_def stored_def)
  qed
qed

lemma ingest_run_stored: "ingest_run batchSize uuid batch_id start s wlog \<Longrightarrow> stored uuid start s wlog"
proof (induction rule: ingest_run.induct)
  case (ig_start s)
  then show ?case by (simp add: stored_def cursor_ok_def)
next
  case (ig_event s wlog db e)
  let ?s = "s\<lparr>in_buffer := in_buffer s @ [e]\<rparr>"
  have "stored uuid start ?s wlog" using ig_event.IH by (auto simp: stored_def)
  from flush_stored [OF this, of db batch_id] this show ?case by (auto simp: receive_event_def Let_def)
next
  case (ig_timer s wlog db)
  from flush_stored [OF ig_timer.IH, of db batch_id] show ?case by (simp add: timer_flush_def)
qed


section \<open>Reconnection\<close>

definition backoff :: "nat \<Rightarrow> nat list" where
  "backoff k = map (\<lambda>i. 2000 * 2 ^ i) [0..<k]"

lemma reconnect_from:
  "attempt \<le> 6 \<Longrightarrow> attempt + fuel = 7 \<Longrightarrow>
   \<exists>k status. k \<le> 5 \<and> runStreamLoop aborted ends fuel attempt (backoff (attempt - 1)) = Some (backoff k, status)"
proof (induction fuel arbitrary: attempt)
  case (Suc fuel)
  have next_delays: "0 < attempt \<Longrightarrow> backoff (attempt - Suc 0) @ [RECONNECT_BASE_DELAY_MS * 2 ^ (attempt - Suc 0)] = backoff attempt"
    by (cases attempt) (simp_all add: backoff_def RECONNECT_BASE_DELAY_MS_def)
  show ?case
  proof (cases "attempt \<le> 5")
    case True
    with Suc.IH [of "attempt + 1"] Suc.prems
    obtain k status where "k \<le> 5" "runStreamLoop aborted ends fuel (attempt + 1) (backoff attempt) = Some (backoff k, status)"
      by auto
    with True show ?thesis
      by (cases "ends attempt")
        (auto simp: next_delays MAX_RECONNECT_ATTEMPTS_def Let_def intro: exI [of _ attempt] exI [of _ "attempt - 1"])
  next
    case False
    with Suc.prems show ?thesis by (auto simp: MAX_RECONNECT_ATTEMPTS_def intro: exI [of _ "attempt - 1"])
  qed
qed simp

text \<open>The reconnection loop ends: after at most five delays, which double from two seconds.\<close>

lemma reconnect_returns: "\<exists>k status. k \<le> 5 \<and> runStreamLoop aborted ends 7 0 [] = Some (backoff k, status)"
  using reconnect_from [of 0 7 aborted ends] by (simp add: backoff_def)

section \<open>Lost events\<close>

text \<open>
  The events of one transaction carry the position of its begin message, so two inserts into one table have the
  same id.  In one batch they make the upsert fail, after the buffer has been emptied.
\<close>

lemma transaction_rows_lost:
  assumes "in_buffer s = map (insert_event rel t l) rows" "2 \<le> length rows"
  shows "flushNow True uuid batch_id s = (Some AffectsRowTwice, s\<lparr>in_buffer := []\<rparr>)"
proof -
  obtain r r' rest where rows: "rows = r # r' # rest" using assms(2) by (cases rows; cases "tl rows") auto
  have "source_id (insert_event rel t l r) = source_id (insert_event rel t l r')"
    by (simp add: source_id_def insert_event_def)
  then show ?thesis using assms(1) by (simp add: flushNow_def flushBatch_cases rows Let_def)
qed

text \<open>In separate batches the second row replaces the first.\<close>

lemma transaction_row_replaced:
  "source_id (insert_event rel t l r) = source_id (insert_event rel t l r')"
  by (simp add: source_id_def insert_event_def)

text \<open>A batch that the database refuses is dropped.\<close>

lemma failed_write_loses_batch:
  "in_buffer s \<noteq> [] \<Longrightarrow> timer_flush False uuid batch_id s = s\<lparr>in_buffer := []\<rparr>"
  by (simp add: timer_flush_def flushNow_def flushBatch_cases Let_def)

text \<open>
  The end of a transaction is confirmed to the server as soon as its commit is read, while its event is only
  in the buffer: nothing has been written.
\<close>

lemma confirmed_before_stored:
  "stream_message format tables now l (MCommit flags c e time) st = Inr (out, st') \<Longrightarrow> out = [Feedback (ss_confirmedLsn st')]"
  "in_buffer s = [] \<Longrightarrow> 1 < batchSize \<Longrightarrow> receive_event batchSize db uuid batch_id ev s = (None, s\<lparr>in_buffer := [ev]\<rparr>)"
  by (auto simp: stream_message_def sbind_Inr_iff receive_event_def dest: status_update_out)

text \<open>A connection that the server closes ends the stream like a stop: there is no reconnection.\<close>

lemma closed_connection_not_retried:
  "stream_loop format tables now [StreamEnd] st = ([], Returned)"
  "ends 0 = CleanEnd \<Longrightarrow> \<not> aborted 0 False \<Longrightarrow> runStreamLoop aborted ends (Suc fuel) 0 [] = Some ([], Stopped)"
  by (simp_all add: MAX_RECONNECT_ATTEMPTS_def)

section \<open>Concrete streams\<close>

definition cdc_relation :: CachedRelation where
  "cdc_relation = \<lparr>cr_qualifiedName = ascii ''public.t'', cr_columns = [\<lparr>rc_flags = 1, rc_name = ascii ''id'', rc_typeId = 23, rc_typeMod = -1\<rparr>]\<rparr>"

definition cdc_state :: StreamState where
  "cdc_state = (stream_init None)\<lparr>ss_relations := [(7, cdc_relation)]\<rparr>"

definition cdc_row :: "nat \<Rightarrow> WireRow" where
  "cdc_row n = \<lparr>wr_lsn = (0, 40 + n), wr_stamps = replicate 16 0, wr_columns = [WText [48 + n]]\<rparr>"


definition cdc_event :: CdcEvent where
  "cdc_event = insert_event cdc_relation ''t'' ''0/28'' (cdc_row 1)"

definition cdc_start :: IngestState where
  "cdc_start = \<lparr>in_buffer = [], in_batchId = 0, in_rows = [], in_position = None, in_cursor = None, in_eventsProcessed = 0\<rparr>"


end
