(* ===== verification/RedisStore.thy ===== *)
theory RedisStore
  imports JsPrelude
begin

text \<open>
  Redis as the services use it: keys with a value and an optional expiry time in milliseconds, one store per key prefix,
  and sets that vanish with their last member.  An expired key is absent for every command.  The contract that
  single-use gates and block lists rest on is the locale \<open>expiring_store\<close>.
\<close>

named_theorems store_simps \<open>read-after-write laws of the expiring store\<close>

type_synonym 'v store = "(string, 'v \<times> nat option) dict"

definition live_at :: "nat \<Rightarrow> nat option \<Rightarrow> bool" where
  "live_at now expiry \<longleftrightarrow> (case expiry of None \<Rightarrow> True | Some t \<Rightarrow> now < t)"

definition store_get :: "nat \<Rightarrow> 'v store \<Rightarrow> string \<Rightarrow> 'v option" where
  "store_get now s k = (case dict_get s k of None \<Rightarrow> None | Some (v, e) \<Rightarrow> if live_at now e then Some v else None)"

text \<open>\<^verbatim>\<open>SET key value EX seconds\<close>: an expiry of zero seconds is an error and sets nothing.\<close>

definition store_set_ex :: "nat \<Rightarrow> 'v store \<Rightarrow> string \<Rightarrow> 'v \<Rightarrow> nat \<Rightarrow> 'v store" where
  "store_set_ex now s k v secs = (if secs = 0 then s else map_set s k (v, Some (now + secs * 1000)))"

text \<open>The script \<^verbatim>\<open>GET\<close> then \<^verbatim>\<open>DEL\<close>, atomic in Redis.\<close>

definition store_getdel :: "nat \<Rightarrow> 'v store \<Rightarrow> string \<Rightarrow> 'v option \<times> 'v store" where
  "store_getdel now s k = (store_get now s k, if store_get now s k = None then s else map_delete s k)"

definition store_members :: "nat \<Rightarrow> 'a list store \<Rightarrow> string \<Rightarrow> 'a list" where
  "store_members now s k = (case store_get now s k of None \<Rightarrow> [] | Some xs \<Rightarrow> xs)"

definition store_expiry :: "'v store \<Rightarrow> string \<Rightarrow> nat option" where
  "store_expiry s k = (case dict_get s k of None \<Rightarrow> None | Some (v, e) \<Rightarrow> e)"

definition store_sadd :: "nat \<Rightarrow> 'a list store \<Rightarrow> string \<Rightarrow> 'a \<Rightarrow> 'a list store" where
  "store_sadd now s k x =
     (case store_get now s k of
        None \<Rightarrow> map_set s k ([x], None)
      | Some xs \<Rightarrow> map_set s k (List.insert x xs, store_expiry s k))"

definition store_srem :: "nat \<Rightarrow> 'a list store \<Rightarrow> string \<Rightarrow> 'a \<Rightarrow> 'a list store" where
  "store_srem now s k x =
     (case store_get now s k of
        None \<Rightarrow> s
      | Some xs \<Rightarrow> if removeAll x xs = [] then map_delete s k else map_set s k (removeAll x xs, store_expiry s k))"

definition store_expire :: "nat \<Rightarrow> 'v store \<Rightarrow> string \<Rightarrow> nat \<Rightarrow> 'v store" where
  "store_expire now s k secs =
     (case store_get now s k of None \<Rightarrow> s | Some v \<Rightarrow> map_set s k (v, Some (now + secs * 1000)))"

definition store_del_all :: "'v store \<Rightarrow> string list \<Rightarrow> 'v store" where
  "store_del_all s ks = foldl map_delete s ks"

section \<open>Laws\<close>

lemma live_at_simps [simp]: "live_at now None" "live_at now (Some t) \<longleftrightarrow> now < t"
  by (simp_all add: live_at_def)

lemma live_at_mono: "live_at later e \<Longrightarrow> now \<le> later \<Longrightarrow> live_at now e"
  by (cases e) auto

lemma store_get_set [store_simps]:
  "store_get now (map_set s k (v, e)) j = (if j = k then if live_at now e then Some v else None else store_get now s j)"
  by (simp add: store_get_def)

lemma store_get_delete [store_simps]: "store_get now (map_delete s k) j = (if j = k then None else store_get now s j)"
  by (simp add: store_get_def)

lemma store_get_set_ex [store_simps]:
  "store_get now (store_set_ex at s k v secs) j =
     (if j = k \<and> 0 < secs then if now < at + secs * 1000 then Some v else None else store_get now s j)"
  by (auto simp: store_set_ex_def store_simps)

lemma store_get_earlier: "store_get later s k = Some v \<Longrightarrow> now \<le> later \<Longrightarrow> store_get now s k = Some v"
  by (auto simp: store_get_def intro: live_at_mono split: option.splits if_splits)

lemma store_get_Some: "store_get now s k = Some v \<longleftrightarrow> (\<exists>e. dict_get s k = Some (v, e) \<and> live_at now e)"
  by (auto simp: store_get_def split: option.splits if_splits)

lemma getdel_simps [store_simps]:
  "fst (store_getdel now s k) = store_get now s k"
  "store_get now' (snd (store_getdel now s k)) j =
     (if j = k \<and> store_get now s k \<noteq> None then None else store_get now' s j)"
  by (auto simp: store_getdel_def store_simps)

lemma store_get_del_all [store_simps]:
  "store_get now (store_del_all s ks) j = (if j \<in> set ks then None else store_get now s j)"
  unfolding store_del_all_def by (induction ks arbitrary: s) (auto simp: store_simps)

lemma dict_get_del_all: "dict_get (store_del_all s ks) j = (if j \<in> set ks then None else dict_get s j)"
  unfolding store_del_all_def by (induction ks arbitrary: s) auto

lemma expiry_live: "store_get now s k = Some v \<Longrightarrow> live_at now (store_expiry s k)"
  by (auto simp: store_get_Some store_expiry_def)

lemma members_live [store_simps]:
  "store_get now s k = None \<Longrightarrow> store_members now s k = []"
  "store_get now s k = Some xs \<Longrightarrow> store_members now s k = xs"
  by (simp_all add: store_members_def)

lemma store_members_cong: "store_get now s j = store_get now t j \<Longrightarrow> store_members now s j = store_members now t j"
  by (simp add: store_members_def)

lemma members_sadd [store_simps]:
  "set (store_members now (store_sadd now s k x) j) = (if j = k then insert x (set (store_members now s k)) else set (store_members now s j))"
proof (cases "store_get now s k = None")
  case False
  then obtain xs where xs: "store_get now s k = Some xs" by blast
  then have "store_get now (store_sadd now s k x) j = (if j = k then Some (List.insert x xs) else store_get now s j)"
    using expiry_live [OF xs] by (simp add: store_sadd_def store_simps)
  then show ?thesis
    using xs store_members_cong [of now "store_sadd now s k x" j s] by (cases "j = k") (simp_all add: members_live)
next
  case True
  then have "store_get now (store_sadd now s k x) j = (if j = k then Some [x] else store_get now s j)"
    by (simp add: store_sadd_def store_simps)
  then show ?thesis
    using True store_members_cong [of now "store_sadd now s k x" j s] by (cases "j = k") (simp_all add: members_live)
qed

lemma members_srem [store_simps]:
  "set (store_members now (store_srem now s k x) j) = (if j = k then set (store_members now s k) - {x} else set (store_members now s j))"
proof (cases "store_get now s k = None")
  case False
  then obtain xs where xs: "store_get now s k = Some xs" by blast
  then have "store_get now (store_srem now s k x) j =
      (if j = k then if removeAll x xs = [] then None else Some (removeAll x xs) else store_get now s j)"
    using expiry_live [OF xs] by (simp add: store_srem_def store_simps)
  moreover have "removeAll x xs = [] \<Longrightarrow> set xs \<subseteq> {x}" using set_removeAll [of x xs] by auto
  ultimately show ?thesis
    using xs store_members_cong [of now "store_srem now s k x" j s] by (cases "j = k") (auto simp: members_live split: if_splits)
qed (simp add: store_srem_def members_live)

lemma members_expire [store_simps]:
  "store_members now (store_expire now s k secs) j = (if j = k \<and> secs = 0 then [] else store_members now s j)"
  by (auto simp: store_members_def store_expire_def store_simps split: option.splits)

section \<open>The contract\<close>

text \<open>
  What the services rely on: a read sees the last write until the key expires, and what is live later was live before.
\<close>

text \<open>A sequence of single-use attempts, each with its time and key: the keys that were let through.\<close>

primrec attempts :: "(nat \<Rightarrow> 's \<Rightarrow> string \<Rightarrow> 'v option \<times> 's) \<Rightarrow> 's \<Rightarrow> (nat \<times> string) list \<Rightarrow> string list" where
  "attempts take_out s [] = []"
| "attempts take_out s (a # as) =
     (case take_out (fst a) s (snd a) of
        (r, s') \<Rightarrow> (if r = None then [] else [snd a]) @ attempts take_out s' as)"

locale expiring_store =
  fixes get :: "nat \<Rightarrow> 's \<Rightarrow> string \<Rightarrow> 'v option"
    and put :: "nat \<Rightarrow> 's \<Rightarrow> string \<Rightarrow> 'v \<Rightarrow> nat \<Rightarrow> 's"
    and take_out :: "nat \<Rightarrow> 's \<Rightarrow> string \<Rightarrow> 'v option \<times> 's"
  assumes get_put: "get now (put at s k v secs) j =
      (if j = k \<and> 0 < secs then if now < at + secs * 1000 then Some v else None else get now s j)"
    and taken: "fst (take_out at s k) = get at s k"
    and get_taken: "get now (snd (take_out at s k)) j = (if j = k \<and> get at s k \<noteq> None then None else get now s j)"
    and get_earlier: "get later s k = Some v \<Longrightarrow> now \<le> later \<Longrightarrow> get now s k = Some v"
begin

lemma attempts_absent: "(\<And>now. get now s k = None) \<Longrightarrow> k \<notin> set (attempts take_out s as)"
proof (induction as arbitrary: s)
  case (Cons a as)
  obtain r s' where t: "take_out (fst a) s (snd a) = (r, s')" by fastforce
  have "r = get (fst a) s (snd a)" "\<And>now j. get now s' j = (if j = snd a \<and> get (fst a) s (snd a) \<noteq> None then None else get now s j)"
    using taken [of "fst a" s "snd a"] get_taken [of _ "fst a" s "snd a"] t by auto
  then show ?case using Cons t by auto
qed simp

text \<open>A gate lets at most one of any sequence of attempts through.\<close>

lemma gate_once: "count_list (attempts take_out s as) k \<le> 1"
proof (induction as arbitrary: s)
  case (Cons a as)
  obtain r s' where t: "take_out (fst a) s (snd a) = (r, s')" by fastforce
  have r: "r = get (fst a) s (snd a)" and s': "\<And>now j. get now s' j = (if j = snd a \<and> get (fst a) s (snd a) \<noteq> None then None else get now s j)"
    using taken [of "fst a" s "snd a"] get_taken [of _ "fst a" s "snd a"] t by auto
  show ?case
  proof (cases "snd a = k \<and> r \<noteq> None")
    case True
    then have "k \<notin> set (attempts take_out s' as)" using r s' by (intro attempts_absent) auto
    then show ?thesis using t True by (simp add: count_list_0_iff)
  next
    case False
    then show ?thesis using Cons t by auto
  qed
qed simp

text \<open>An entry blocks from its writing to its expiry, as long as it is not written or taken again.\<close>

lemma blocked_until: "0 < secs \<Longrightarrow> now < at + secs * 1000 \<Longrightarrow> get now (put at s k v secs) k = Some v"
  by (simp add: get_put)

end

interpretation redis: expiring_store store_get store_set_ex store_getdel
  by unfold_locales (auto simp: store_simps intro: store_get_earlier)

end
