(* ===== verification/TokenService.thy ===== *)
theory TokenService
  imports RedisStore JsValue
begin

text \<open>
  Access tokens and refresh tokens, \<^verbatim>\<open>services/auth/src/services/token-service.ts\<close>: scopes of roles, issuing, verifying
  and revoking access tokens, and the rotation of refresh tokens with replay detection.  The state is the tables of
  the auth schema and one Redis store per key prefix.  Signing and verifying (the library jose) are the parameter
  \<open>Jwt\<close>; random values are arguments.  Times are milliseconds; the rotation is split at its round trips to Redis and
  the database, so that other requests can come between them.
\<close>

section \<open>Errors and configuration\<close>

datatype auth_error =
    UnauthorizedError
  | SessionRevokedError
  | TokenReplayDetectedError nat
  | TenantNotFoundError
  | ConflictError
  | ResetTokenInvalidError
  | ResetTokenExpiredError
  | ResetTokenUsedError
  | VerifyTokenInvalidError
  | VerifyTokenExpiredError
  | VerifyTokenUsedError
  | EmailAlreadyVerifiedError
  | PasswordReuseError
  | ConfigError
  | NotIterable
  | CryptoError
  | RedisError
  | EmptyPassword
  | SmtpMissing

datatype JwtAlgorithm = HS256 | EdDSA

text \<open>The environment variables that the services read.\<close>

record AuthEnv =
  OP_JWT_ALGORITHM :: "string option"
  OP_JWT_SECRET :: "string option"
  OP_JWT_PRIVATE_KEY :: "string option"
  OP_JWT_PUBLIC_KEY :: "string option"
  OP_JWT_EXPIRY_SECONDS :: "string option"
  OP_REFRESH_TOKEN_TTL_SECONDS :: "string option"
  OP_LOCKOUT_MAX_ATTEMPTS :: "string option"
  OP_LOCKOUT_DURATION_MINUTES :: "string option"
  OP_PURPOSE_TOKEN_SECRET :: "string option"
  OP_REQUIRE_EMAIL_VERIFICATION :: "string option"
  OP_SMTP_HOST :: "string option"
  NODE_ENV :: "string option"

definition positive_setting :: "nat \<Rightarrow> string option \<Rightarrow> auth_error + nat" where
  "positive_setting fallback raw =
     (case raw of
        None \<Rightarrow> Inr fallback
      | Some s \<Rightarrow> (case parse_int10 s of
                    None \<Rightarrow> Inl ConfigError
                  | Some n \<Rightarrow> if n \<le> 0 then Inl ConfigError else Inr (nat n)))"

definition getJwtExpirySeconds :: "AuthEnv \<Rightarrow> auth_error + nat" where
  "getJwtExpirySeconds cfg = positive_setting 900 (OP_JWT_EXPIRY_SECONDS cfg)"

definition getRefreshTokenTtlSeconds :: "AuthEnv \<Rightarrow> auth_error + nat" where
  "getRefreshTokenTtlSeconds cfg = positive_setting 604800 (OP_REFRESH_TOKEN_TTL_SECONDS cfg)"

definition getJwtAlgorithm :: "AuthEnv \<Rightarrow> auth_error + JwtAlgorithm" where
  "getJwtAlgorithm cfg =
     (case OP_JWT_ALGORITHM cfg of
        None \<Rightarrow> Inr HS256
      | Some a \<Rightarrow> if a = ''HS256'' then Inr HS256 else if a = ''EdDSA'' then Inr EdDSA else Inl ConfigError)"

text \<open>A variable that is unset or empty is missing.\<close>

definition required :: "string option \<Rightarrow> auth_error + string" where
  "required raw = (case raw of None \<Rightarrow> Inl ConfigError | Some s \<Rightarrow> if s = [] then Inl ConfigError else Inr s)"

definition signing_key :: "AuthEnv \<Rightarrow> JwtAlgorithm \<Rightarrow> auth_error + string" where
  "signing_key cfg alg = required (case alg of HS256 \<Rightarrow> OP_JWT_SECRET cfg | EdDSA \<Rightarrow> OP_JWT_PRIVATE_KEY cfg)"

definition verifying_key :: "AuthEnv \<Rightarrow> JwtAlgorithm \<Rightarrow> auth_error + string" where
  "verifying_key cfg alg = required (case alg of HS256 \<Rightarrow> OP_JWT_SECRET cfg | EdDSA \<Rightarrow> OP_JWT_PUBLIC_KEY cfg)"

section \<open>Scopes\<close>

definition ALL_SCOPES :: "string list" where
  "ALL_SCOPES =
     [''data:read'', ''data:write'', ''ontology:read'', ''ontology:write'', ''pipelines:read'', ''pipelines:trigger'',
      ''pipelines:manage'', ''apps:read'', ''apps:deploy'', ''apps:manage'', ''plugins:read'', ''plugins:manage'',
      ''users:read'', ''users:manage'', ''logs:read'', ''logs:export'', ''audit:read'', ''webhooks:manage'',
      ''execution:read'', ''execution:run'', ''lineage:read'', ''admin'']"

definition PREDEFINED_ROLE_SCOPES :: "(string \<times> string list) list" where
  "PREDEFINED_ROLE_SCOPES =
     [(''platform-admin'', [''admin'']),
      (''tenant-admin'',
        [''data:read'', ''data:write'', ''ontology:read'', ''ontology:write'', ''pipelines:manage'', ''apps:manage'',
         ''apps:deploy'', ''apps:read'', ''execution:read'', ''execution:run'', ''plugins:read'', ''plugins:manage'',
         ''users:read'', ''users:manage'', ''logs:read'', ''logs:export'', ''audit:read'', ''webhooks:manage'', ''lineage:read'']),
      (''developer'',
        [''data:read'', ''data:write'', ''ontology:read'', ''pipelines:manage'', ''apps:manage'', ''apps:deploy'', ''apps:read'',
         ''execution:read'', ''execution:run'', ''plugins:read'', ''logs:read'', ''audit:read'', ''lineage:read'']),
      (''editor'',
        [''data:read'', ''data:write'', ''ontology:read'', ''pipelines:manage'', ''apps:manage'', ''apps:read'',
         ''execution:read'', ''logs:read'', ''audit:read'', ''lineage:read'']),
      (''viewer'', [''data:read'', ''ontology:read'', ''pipelines:read'', ''apps:read'', ''logs:read'', ''lineage:read''])]"

text \<open>
  The union of the scopes of the roles, in insertion order.  \<^verbatim>\<open>PREDEFINED_ROLE_SCOPES[role]\<close> also finds the members of
  \<^verbatim>\<open>Object.prototype\<close>, which cannot be iterated.
\<close>

fun union_scopes :: "string list \<Rightarrow> string list \<Rightarrow> auth_error + string list" where
  "union_scopes acc [] = Inr acc"
| "union_scopes acc (role # roles) =
     (case dict_get PREDEFINED_ROLE_SCOPES role of
        Some scopes \<Rightarrow> union_scopes (foldl (\<lambda>u s. if s \<in> set u then u else u @ [s]) acc scopes) roles
      | None \<Rightarrow> if role \<in> set (''__proto__'' # object_prototype) then Inl NotIterable else union_scopes acc roles)"

definition resolveScopes :: "string list \<Rightarrow> auth_error + string list" where
  "resolveScopes roles =
     (case union_scopes [] roles of
        Inl e \<Rightarrow> Inl e
      | Inr acc \<Rightarrow> if ''admin'' \<in> set acc then Inr ALL_SCOPES else Inr acc)"

section \<open>State\<close>

record RefreshTokenPayload =
  rp_userId :: string
  rp_tenantId :: string
  rp_sessionId :: string
  rp_jti :: string
  rp_familyId :: string

record SessionRow =
  sn_id :: string
  sn_user_id :: string
  sn_tenant_id :: string
  sn_refresh_token_jti :: string
  sn_family_id :: string
  sn_expires_at :: nat
  sn_last_used_at :: nat
  sn_revoked_at :: "nat option"
  sn_revoked_reason :: "string option"

record UserRow =
  us_id :: string
  us_tenant_id :: string
  us_email :: string
  us_password_hash :: "string option"
  us_email_verified :: bool
  us_is_active :: bool
  us_display_name :: "string option"
  us_roles :: "string list"
  us_failed_login_count :: nat
  us_locked_until :: "nat option"
  us_password_history :: "string list"

record ResetTokenRow =
  rt_jti :: string
  rt_user_id :: string
  rt_expires_at :: nat
  rt_used_at :: "nat option"

text \<open>The tables, and the stores with the prefixes \<^verbatim>\<open>auth:refresh:\<close>, \<^verbatim>\<open>auth:token-family:\<close>, \<^verbatim>\<open>auth:refresh-family:\<close>,
  \<^verbatim>\<open>auth:user-sessions:\<close>, \<^verbatim>\<open>revocation:\<close>, \<^verbatim>\<open>reset:\<close> and \<^verbatim>\<open>auth:verify:\<close>.\<close>

record AuthState =
  as_tenants :: "string list"
  as_users :: "UserRow list"
  as_sessions :: "SessionRow list"
  as_resetTokens :: "ResetTokenRow list"
  as_refresh :: "RefreshTokenPayload store"
  as_tokenFamily :: "string store"
  as_refreshFamily :: "string list store"
  as_userSessions :: "string list store"
  as_revocation :: "string store"
  as_resetGate :: "string store"
  as_verifyGate :: "string store"
  as_events :: "(string \<times> string) list"

record UserForToken =
  ut_id :: string
  ut_tenantId :: string
  ut_roles :: "string list"
  ut_emailVerified :: bool
  ut_email :: "string option"
  ut_displayName :: "string option"

section \<open>Access tokens\<close>

text \<open>
  jose: signing with a key (\<open>None\<close> when it fails), the \<^verbatim>\<open>alg\<close> of a token's header (\<open>None\<close> when it cannot be read), and the
  payload of a token whose signature, issuer, audience and expiry are in order at a time.
\<close>

record Jwt =
  jwt_sign :: "JwtAlgorithm \<Rightarrow> string \<Rightarrow> props \<Rightarrow> string option"
  jwt_header_alg :: "string \<Rightarrow> string option"
  jwt_verify :: "JwtAlgorithm \<Rightarrow> string \<Rightarrow> string \<Rightarrow> nat \<Rightarrow> props option"

definition optional_claim :: "string \<Rightarrow> string option \<Rightarrow> props" where
  "optional_claim k v = (case v of Some s \<Rightarrow> if s = [] then [] else [(k, VStr s)] | None \<Rightarrow> [])"

definition access_claims :: "nat \<Rightarrow> nat \<Rightarrow> string \<Rightarrow> string list \<Rightarrow> UserForToken \<Rightarrow> props" where
  "access_claims now expirySeconds jti scopes user =
     [(''sub'', VStr (ut_id user)), (''tid'', VStr (ut_tenantId user)), (''roles'', VArr 0 (map VStr (ut_roles user))),
      (''scopes'', VArr 1 (map VStr scopes)), (''ev'', VBool (ut_emailVerified user)),
      (''unverified'', VBool (\<not> ut_emailVerified user)), (''jti'', VStr jti)] @
     optional_claim ''email'' (ut_email user) @ optional_claim ''displayName'' (ut_displayName user) @
     [(''iat'', VNum (jint (int (now div 1000)))), (''exp'', VNum (jint (int (now div 1000 + expirySeconds)))),
      (''iss'', VStr ''oneplatform''), (''aud'', VStr ''oneplatform'')]"

definition issueAccessToken :: "AuthEnv \<Rightarrow> Jwt \<Rightarrow> nat \<Rightarrow> string \<Rightarrow> UserForToken \<Rightarrow> auth_error + string" where
  "issueAccessToken cfg jwt now jti user =
     (case getJwtExpirySeconds cfg of
        Inl e \<Rightarrow> Inl e
      | Inr expirySeconds \<Rightarrow>
     (case getJwtAlgorithm cfg of
        Inl e \<Rightarrow> Inl e
      | Inr alg \<Rightarrow>
     (case resolveScopes (ut_roles user) of
        Inl e \<Rightarrow> Inl e
      | Inr scopes \<Rightarrow>
     (case signing_key cfg alg of
        Inl e \<Rightarrow> Inl e
      | Inr key \<Rightarrow>
     (case jwt_sign jwt alg key (access_claims now expirySeconds jti scopes user) of
        None \<Rightarrow> Inl CryptoError
      | Some token \<Rightarrow> Inr token)))))"

record JwtClaims =
  jc_sub :: string
  jc_iat :: jsnum
  jc_exp :: jsnum
  jc_jti :: string
  jc_tid :: string
  jc_roles :: "jsval list"
  jc_scopes :: "jsval list"
  jc_ev :: bool
  jc_unverified :: bool

text \<open>\<open>JwtClaims\<close> of a payload whose required claims have the right types; arrays are not looked into.\<close>

definition typed_claims :: "props \<Rightarrow> JwtClaims option" where
  "typed_claims ps =
     (case (prop_get ps ''sub'', prop_get ps ''tid'', prop_get ps ''roles'', prop_get ps ''scopes'', prop_get ps ''ev'',
            prop_get ps ''unverified'', prop_get ps ''jti'', prop_get ps ''iat'', prop_get ps ''exp'') of
        (VStr sub, VStr tid, VArr _ roles, VArr _ scopes, VBool ev, VBool unverified, VStr jti, VNum iat, VNum ex) \<Rightarrow>
          Some \<lparr>jc_sub = sub, jc_iat = iat, jc_exp = ex, jc_jti = jti, jc_tid = tid, jc_roles = roles, jc_scopes = scopes,
                jc_ev = ev, jc_unverified = unverified\<rparr>
      | _ \<Rightarrow> None)"

text \<open>The block list lookup; a claim that is not text is refused by the type test that follows.\<close>

definition blocklisted :: "nat \<Rightarrow> AuthState \<Rightarrow> props \<Rightarrow> bool" where
  "blocklisted now st ps \<longleftrightarrow>
     (case prop_get ps ''jti'' of VStr jti \<Rightarrow> store_get now (as_revocation st) jti \<noteq> None | _ \<Rightarrow> False) \<or>
     (case prop_get ps ''sub'' of VStr sub \<Rightarrow> store_get now (as_revocation st) (''user:'' @ sub) \<noteq> None | _ \<Rightarrow> False)"

definition token_algorithm :: "Jwt \<Rightarrow> string \<Rightarrow> JwtAlgorithm option" where
  "token_algorithm jwt token =
     (case jwt_header_alg jwt token of
        None \<Rightarrow> None
      | Some a \<Rightarrow> if a = ''EdDSA'' then Some EdDSA else if a = ''HS256'' then Some HS256 else None)"

definition verifyAccessToken :: "AuthEnv \<Rightarrow> Jwt \<Rightarrow> nat \<Rightarrow> AuthState \<Rightarrow> string \<Rightarrow> JwtClaims option" where
  "verifyAccessToken cfg jwt now st token =
     (case token_algorithm jwt token of
        None \<Rightarrow> None
      | Some alg \<Rightarrow>
     (case verifying_key cfg alg of
        Inl e \<Rightarrow> None
      | Inr key \<Rightarrow>
     (case jwt_verify jwt alg key token now of
        None \<Rightarrow> None
      | Some ps \<Rightarrow> if blocklisted now st ps then None else typed_claims ps)))"

text \<open>\<open>exp\<close> is in seconds.\<close>

definition revokeAccessToken :: "AuthEnv \<Rightarrow> nat \<Rightarrow> string \<Rightarrow> nat \<Rightarrow> AuthState \<Rightarrow> (auth_error + unit) \<times> AuthState" where
  "revokeAccessToken cfg now jti expUnixSeconds st =
     (let remainingSeconds = int expUnixSeconds - int (now div 1000)
      in if remainingSeconds \<le> 0 then (Inr (), st)
         else (case getJwtExpirySeconds cfg of
                 Inl e \<Rightarrow> (Inl e, st)
               | Inr expirySeconds \<Rightarrow>
                   (Inr (), st\<lparr>as_revocation := store_set_ex now (as_revocation st) jti ''1'' (min (nat remainingSeconds) expirySeconds)\<rparr>)))"

section \<open>Refresh tokens\<close>

definition FAMILY_TTL_SECONDS :: nat where
  "FAMILY_TTL_SECONDS = 30 * 24 * 60 * 60"

definition issueRefreshToken ::
  "AuthEnv \<Rightarrow> nat \<Rightarrow> string \<Rightarrow> string \<Rightarrow> string \<Rightarrow> string \<Rightarrow> string \<Rightarrow> string \<Rightarrow> AuthState \<Rightarrow> (auth_error + string \<times> string) \<times> AuthState" where
  "issueRefreshToken cfg now token jti userId tenantId sessionId familyId st =
     (case getRefreshTokenTtlSeconds cfg of
        Inl e \<Rightarrow> (Inl e, st)
      | Inr ttl \<Rightarrow>
          let payload = \<lparr>rp_userId = userId, rp_tenantId = tenantId, rp_sessionId = sessionId, rp_jti = jti, rp_familyId = familyId\<rparr>
          in (Inr (token, jti),
              st\<lparr>as_refresh := store_set_ex now (as_refresh st) token payload ttl,
                 as_tokenFamily := store_set_ex now (as_tokenFamily st) token familyId ttl,
                 as_refreshFamily := store_expire now (store_sadd now (as_refreshFamily st) familyId token) familyId FAMILY_TTL_SECONDS,
                 as_userSessions := store_expire now (store_sadd now (as_userSessions st) userId token) userId FAMILY_TTL_SECONDS\<rparr>))"

text \<open>Step 1: read and delete the token.\<close>

definition rotate_consume :: "nat \<Rightarrow> string \<Rightarrow> AuthState \<Rightarrow> RefreshTokenPayload option \<times> AuthState" where
  "rotate_consume now oldToken st =
     (let (p, refresh) = store_getdel now (as_refresh st) oldToken in (p, st\<lparr>as_refresh := refresh\<rparr>))"

text \<open>Step 2: the session must exist, not be revoked and not have ended; the result is the whole seconds that remain.\<close>

definition rotate_check :: "nat \<Rightarrow> string \<Rightarrow> AuthState \<Rightarrow> auth_error + nat" where
  "rotate_check now sessionId st =
     (case find (\<lambda>s. sn_id s = sessionId) (as_sessions st) of
        None \<Rightarrow> Inl UnauthorizedError
      | Some s \<Rightarrow>
          if sn_revoked_at s \<noteq> None then Inl SessionRevokedError
          else if int (sn_expires_at s) - int now \<le> 0 then Inl UnauthorizedError
          else Inr ((sn_expires_at s - now) div 1000))"

text \<open>Steps 3 and 4: record the new token id in the session.\<close>

definition rotate_commit :: "nat \<Rightarrow> string \<Rightarrow> string \<Rightarrow> AuthState \<Rightarrow> AuthState" where
  "rotate_commit now sessionId newJti st =
     st\<lparr>as_sessions := map (\<lambda>s. if sn_id s = sessionId then s\<lparr>sn_refresh_token_jti := newJti, sn_last_used_at := now\<rparr> else s) (as_sessions st)\<rparr>"

text \<open>The Redis pipeline: an error of one command does not stop the others.\<close>

definition rotate_write :: "nat \<Rightarrow> RefreshTokenPayload \<Rightarrow> string \<Rightarrow> string \<Rightarrow> string \<Rightarrow> nat \<Rightarrow> AuthState \<Rightarrow> (auth_error + unit) \<times> AuthState" where
  "rotate_write now payload newJti newToken oldToken remainingSeconds st =
     (let f = rp_familyId payload; u = rp_userId payload
      in (if remainingSeconds = 0 then Inl RedisError else Inr (),
          st\<lparr>as_refresh := store_set_ex now (as_refresh st) newToken (payload\<lparr>rp_jti := newJti\<rparr>) remainingSeconds,
             as_tokenFamily := store_set_ex now (as_tokenFamily st) newToken f remainingSeconds,
             as_refreshFamily :=
               store_expire now (store_sadd now (store_srem now (as_refreshFamily st) f oldToken) f newToken) f FAMILY_TTL_SECONDS,
             as_userSessions := store_sadd now (store_srem now (as_userSessions st) u oldToken) u newToken\<rparr>))"

record TokenPair =
  tp_accessToken :: string
  tp_refreshToken :: string
  tp_expiresIn :: nat

text \<open>Step 5: the access token of the user.\<close>

definition user_for_token :: "UserRow \<Rightarrow> UserForToken" where
  "user_for_token u =
     \<lparr>ut_id = us_id u, ut_tenantId = us_tenant_id u, ut_roles = us_roles u, ut_emailVerified = us_email_verified u,
      ut_email = Some (us_email u), ut_displayName = us_display_name u\<rparr>"

definition rotate_issue :: "AuthEnv \<Rightarrow> Jwt \<Rightarrow> nat \<Rightarrow> string \<Rightarrow> string \<Rightarrow> string \<Rightarrow> AuthState \<Rightarrow> auth_error + TokenPair" where
  "rotate_issue cfg jwt now userId accessJti newToken st =
     (case find (\<lambda>u. us_id u = userId) (as_users st) of
        None \<Rightarrow> Inl UnauthorizedError
      | Some u \<Rightarrow>
     (case issueAccessToken cfg jwt now accessJti (user_for_token u) of
        Inl e \<Rightarrow> Inl e
      | Inr access \<Rightarrow>
     (case getJwtExpirySeconds cfg of
        Inl e \<Rightarrow> Inl e
      | Inr expirySeconds \<Rightarrow> Inr \<lparr>tp_accessToken = access, tp_refreshToken = newToken, tp_expiresIn = expirySeconds\<rparr>)))"

text \<open>Replay detection: the family of the token, its sessions in the database, its tokens in Redis.\<close>

definition revoke_sessions :: "(SessionRow \<Rightarrow> bool) \<Rightarrow> nat \<Rightarrow> string \<Rightarrow> AuthState \<Rightarrow> AuthState" where
  "revoke_sessions P now reason st =
     st\<lparr>as_sessions := map (\<lambda>s. if P s then s\<lparr>sn_revoked_at := Some now, sn_revoked_reason := Some reason\<rparr> else s) (as_sessions st)\<rparr>"

definition replay_revoke :: "nat \<Rightarrow> string \<Rightarrow> AuthState \<Rightarrow> nat \<times> AuthState" where
  "replay_revoke now familyId st =
     (let hit = (\<lambda>s. sn_family_id s = familyId \<and> sn_revoked_at s = None)
      in (length (filter hit (as_sessions st)), revoke_sessions hit now ''token_replay_detected'' st))"

definition replay_clean :: "nat \<Rightarrow> string \<Rightarrow> AuthState \<Rightarrow> AuthState" where
  "replay_clean now familyId st =
     (let tokens = store_members now (as_refreshFamily st) familyId
      in st\<lparr>as_refresh := store_del_all (as_refresh st) tokens, as_tokenFamily := store_del_all (as_tokenFamily st) tokens,
            as_refreshFamily := map_delete (as_refreshFamily st) familyId\<rparr>)"

definition detectAndHandleReplay :: "nat \<Rightarrow> string \<Rightarrow> AuthState \<Rightarrow> (auth_error + unit) \<times> AuthState" where
  "detectAndHandleReplay now oldToken st =
     (case store_get now (as_tokenFamily st) oldToken of
        None \<Rightarrow> (Inr (), st)
      | Some familyId \<Rightarrow>
          if familyId = [] then (Inr (), st)
          else let (n, st1) = replay_revoke now familyId st; st2 = replay_clean now familyId st1
               in (if 0 < n then Inl (TokenReplayDetectedError n) else Inr (), st2))"

text \<open>The whole rotation without interference; the random values are the new token id, the new token and the id of the
  access token.\<close>

definition rotateRefreshToken ::
  "AuthEnv \<Rightarrow> Jwt \<Rightarrow> nat \<Rightarrow> string \<times> string \<times> string \<Rightarrow> string \<Rightarrow> AuthState \<Rightarrow> (auth_error + TokenPair) \<times> AuthState" where
  "rotateRefreshToken cfg jwt now fresh oldToken st =
     (case fresh of (newJti, newToken, accessJti) \<Rightarrow>
     (case rotate_consume now oldToken st of
        (None, st1) \<Rightarrow>
          (case detectAndHandleReplay now oldToken st1 of
             (Inl e, st2) \<Rightarrow> (Inl e, st2)
           | (Inr _, st2) \<Rightarrow> (Inl UnauthorizedError, st2))
      | (Some payload, st1) \<Rightarrow>
          (case rotate_check now (rp_sessionId payload) st1 of
             Inl e \<Rightarrow> (Inl e, st1)
           | Inr remainingSeconds \<Rightarrow>
               let st2 = rotate_commit now (rp_sessionId payload) newJti st1
               in (case rotate_write now payload newJti newToken oldToken remainingSeconds st2 of
                     (Inl e, st3) \<Rightarrow> (Inl e, st3)
                   | (Inr _, st3) \<Rightarrow> (rotate_issue cfg jwt now (rp_userId payload) accessJti newToken st3, st3)))))"

end
