(* ===== verification/TokenRotation.thy ===== *)
theory TokenRotation
  imports TokenService
begin

text \<open>
  Refresh token rotation with overlapping requests: every round trip of a rotation or a replay detection is a step of
  its own, and between two of them anything else may happen: logins, log-outs, password changes, expiry.  Times are
  arbitrary at each step, so nothing rests on clocks that agree.  \<open>w_used\<close> are the token values drawn so far:
  \<^verbatim>\<open>randomBytes(32)\<close> never repeats, nor does \<^verbatim>\<open>randomUUID()\<close>.
\<close>

section \<open>Requests in flight\<close>

datatype Flight =
    Consumed string RefreshTokenPayload
  | Checked string RefreshTokenPayload nat
  | Committed string RefreshTokenPayload nat string
  | Written RefreshTokenPayload string
  | Missed string
  | ReplayFound string
  | ReplayRevoked string nat

text \<open>What has been observed: a token was taken by step 1, a pair with a new token was answered, a replay was reported.\<close>

datatype Observed = Took string | Paired RefreshTokenPayload string | ReplayReported string nat

record World =
  w_state :: AuthState
  w_flights :: "Flight list"
  w_used :: "string set"
  w_seen :: "Observed list"

definition empty_state :: AuthState where
  "empty_state = \<lparr>as_tenants = [], as_users = [], as_sessions = [], as_resetTokens = [], as_refresh = [], as_tokenFamily = [],
     as_refreshFamily = [], as_userSessions = [], as_revocation = [], as_resetGate = [], as_verifyGate = [], as_events = []\<rparr>"

definition world_init :: World where
  "world_init = \<lparr>w_state = empty_state, w_flights = [], w_used = {}, w_seen = []\<rparr>"

text \<open>Other requests: what they do to the stores of the token service, one statement at a time.\<close>

inductive other_step :: "AuthEnv \<Rightarrow> AuthState \<Rightarrow> AuthState \<Rightarrow> bool" for cfg where
  open_session: "sn_id s \<notin> sn_id ` set (as_sessions st) \<Longrightarrow> sn_family_id s \<notin> sn_family_id ` set (as_sessions st) \<Longrightarrow>
     other_step cfg st (st\<lparr>as_sessions := as_sessions st @ [s]\<rparr>)"
| set_jti: "other_step cfg st (rotate_commit now sessionId jti st)"
| revoke: "other_step cfg st (revoke_sessions P now reason st)"
| drop_token: "other_step cfg st (st\<lparr>as_refresh := map_delete (as_refresh st) t, as_tokenFamily := map_delete (as_tokenFamily st) t\<rparr>)"
| drop_set: "other_step cfg st (st\<lparr>as_userSessions := map_delete (as_userSessions st) u\<rparr>)"
| blocklist: "other_step cfg st (st\<lparr>as_revocation := store_set_ex now (as_revocation st) k v secs\<rparr>)"
| edit_users: "other_step cfg st (st\<lparr>as_users := us\<rparr>)"

inductive rot_step :: "AuthEnv \<Rightarrow> Jwt \<Rightarrow> World \<Rightarrow> World \<Rightarrow> bool" for cfg jwt where
  other: "other_step cfg (w_state w) st \<Longrightarrow> rot_step cfg jwt w (w\<lparr>w_state := st\<rparr>)"
| issue: "s \<in> set (as_sessions (w_state w)) \<Longrightarrow> t \<notin> w_used w \<Longrightarrow>
     issueRefreshToken cfg now t jti (sn_user_id s) (sn_tenant_id s) (sn_id s) (sn_family_id s) (w_state w) = (Inr r, st) \<Longrightarrow>
     rot_step cfg jwt w (w\<lparr>w_state := st, w_used := insert t (w_used w)\<rparr>)"
| take_hit: "rotate_consume now t (w_state w) = (Some p, st) \<Longrightarrow>
     rot_step cfg jwt w (w\<lparr>w_state := st, w_flights := Consumed t p # w_flights w, w_seen := Took t # w_seen w\<rparr>)"
| take_miss: "rotate_consume now t (w_state w) = (None, st) \<Longrightarrow>
     rot_step cfg jwt w (w\<lparr>w_state := st, w_flights := Missed t # w_flights w\<rparr>)"
| check_ok: "w_flights w = fs @ Consumed t p # gs \<Longrightarrow> rotate_check now (rp_sessionId p) (w_state w) = Inr n \<Longrightarrow>
     rot_step cfg jwt w (w\<lparr>w_flights := fs @ Checked t p n # gs\<rparr>)"
| check_fails: "w_flights w = fs @ Consumed t p # gs \<Longrightarrow> rotate_check now (rp_sessionId p) (w_state w) = Inl e \<Longrightarrow>
     rot_step cfg jwt w (w\<lparr>w_flights := fs @ gs\<rparr>)"
| commit: "w_flights w = fs @ Checked t p n # gs \<Longrightarrow>
     rot_step cfg jwt w (w\<lparr>w_state := rotate_commit now (rp_sessionId p) jti (w_state w), w_flights := fs @ Committed t p n jti # gs\<rparr>)"
| write_ok: "w_flights w = fs @ Committed t p n jti # gs \<Longrightarrow> t' \<notin> w_used w \<Longrightarrow>
     rotate_write now p jti t' t n (w_state w) = (Inr (), st) \<Longrightarrow>
     rot_step cfg jwt w (w\<lparr>w_state := st, w_flights := fs @ Written p t' # gs, w_used := insert t' (w_used w)\<rparr>)"
| write_fails: "w_flights w = fs @ Committed t p n jti # gs \<Longrightarrow> t' \<notin> w_used w \<Longrightarrow>
     rotate_write now p jti t' t n (w_state w) = (Inl e, st) \<Longrightarrow>
     rot_step cfg jwt w (w\<lparr>w_state := st, w_flights := fs @ gs, w_used := insert t' (w_used w)\<rparr>)"
| pair: "w_flights w = fs @ Written p t' # gs \<Longrightarrow> rotate_issue cfg jwt now (rp_userId p) aj t' (w_state w) = Inr r \<Longrightarrow>
     rot_step cfg jwt w (w\<lparr>w_flights := fs @ gs, w_seen := Paired p t' # w_seen w\<rparr>)"
| gone: "w_flights w = fs @ f # gs \<Longrightarrow> rot_step cfg jwt w (w\<lparr>w_flights := fs @ gs\<rparr>)"
| replay_lookup: "w_flights w = fs @ Missed t # gs \<Longrightarrow> store_get now (as_tokenFamily (w_state w)) t = Some f \<Longrightarrow> f \<noteq> [] \<Longrightarrow>
     rot_step cfg jwt w (w\<lparr>w_flights := fs @ ReplayFound f # gs\<rparr>)"
| replay_db: "w_flights w = fs @ ReplayFound f # gs \<Longrightarrow> replay_revoke now f (w_state w) = (n, st) \<Longrightarrow>
     rot_step cfg jwt w (w\<lparr>w_state := st, w_flights := fs @ ReplayRevoked f n # gs\<rparr>)"
| replay_redis: "w_flights w = fs @ ReplayRevoked f n # gs \<Longrightarrow>
     rot_step cfg jwt w (w\<lparr>w_state := replay_clean now f (w_state w), w_flights := fs @ gs,
       w_seen := (if 0 < n then [ReplayReported f n] else []) @ w_seen w\<rparr>)"

text \<open>\<open>gone\<close>: a request ends early, because a statement failed or the process stopped.\<close>

abbreviation rot_steps :: "AuthEnv \<Rightarrow> Jwt \<Rightarrow> World \<Rightarrow> World \<Rightarrow> bool" where
  "rot_steps cfg jwt \<equiv> (rot_step cfg jwt)\<^sup>*\<^sup>*"

section \<open>The invariant\<close>

definition took :: "World \<Rightarrow> string list" where
  "took w = concat (map (\<lambda>x. case x of Took t \<Rightarrow> [t] | _ \<Rightarrow> []) (w_seen w))"

primrec flight_payload :: "Flight \<Rightarrow> RefreshTokenPayload option" where
  "flight_payload (Consumed t p) = Some p"
| "flight_payload (Checked t p n) = Some p"
| "flight_payload (Committed t p n jti) = Some p"
| "flight_payload (Written p t) = Some p"
| "flight_payload (Missed t) = None"
| "flight_payload (ReplayFound f) = None"
| "flight_payload (ReplayRevoked f n) = None"

text \<open>A payload belongs to a session that exists and has its family.\<close>

definition payload_ok :: "SessionRow list \<Rightarrow> RefreshTokenPayload \<Rightarrow> bool" where
  "payload_ok ss p \<longleftrightarrow> rp_sessionId p \<in> sn_id ` set ss \<and> (\<forall>s \<in> set ss. sn_id s = rp_sessionId p \<longrightarrow> sn_family_id s = rp_familyId p)"

definition live_ok :: "string set \<Rightarrow> string list \<Rightarrow> SessionRow list \<Rightarrow> RefreshTokenPayload store \<Rightarrow> bool" where
  "live_ok used taken ss live \<longleftrightarrow>
     fst ` set live \<subseteq> used \<and> (\<forall>t \<in> set taken. t \<notin> fst ` set live) \<and> (\<forall>x \<in> set live. payload_ok ss (fst (snd x)))"

definition flights_ok :: "SessionRow list \<Rightarrow> Flight list \<Rightarrow> bool" where
  "flights_ok ss flights \<longleftrightarrow> (\<forall>f \<in> set flights. \<forall>p. flight_payload f = Some p \<longrightarrow> payload_ok ss p)"

definition world_ok :: "World \<Rightarrow> bool" where
  "world_ok w \<longleftrightarrow>
     distinct (took w) \<and> set (took w) \<subseteq> w_used w \<and>
     live_ok (w_used w) (took w) (as_sessions (w_state w)) (as_refresh (w_state w)) \<and>
     flights_ok (as_sessions (w_state w)) (w_flights w)"

lemma took_simps [simp]:
  "took (w\<lparr>w_state := st\<rparr>) = took w" "took (w\<lparr>w_flights := flights\<rparr>) = took w" "took (w\<lparr>w_used := u\<rparr>) = took w"
  "took (w\<lparr>w_seen := Took t # w_seen w\<rparr>) = t # took w"
  "took (w\<lparr>w_seen := Paired p t # w_seen w\<rparr>) = took w"
  "took (w\<lparr>w_seen := ReplayReported f n # w_seen w\<rparr>) = took w"
  by (simp_all add: took_def)

lemma map_set_subset: "set (map_set d k v) \<subseteq> insert (k, v) (set d)"
  by (induction d k v rule: map_set.induct) auto

lemma map_delete_subset: "set (map_delete d k) \<subseteq> set d"
  by (auto simp: map_delete_def)

lemma del_all_subset: "set (store_del_all d ks) \<subseteq> set d"
  unfolding store_del_all_def by (induction ks arbitrary: d) (use map_delete_subset in force)+

text \<open>What a statement may do: sessions keep id and family and only new ones are added; refresh tokens only go away.\<close>

definition sessions_grow :: "SessionRow list \<Rightarrow> SessionRow list \<Rightarrow> bool" where
  "sessions_grow ss ss' \<longleftrightarrow> (\<forall>p. payload_ok ss p \<longrightarrow> payload_ok ss' p)"

definition tame :: "AuthState \<Rightarrow> AuthState \<Rightarrow> bool" where
  "tame st st' \<longleftrightarrow> sessions_grow (as_sessions st) (as_sessions st') \<and> set (as_refresh st') \<subseteq> set (as_refresh st)"

lemma payload_ok_map:
  assumes "\<And>s. sn_id (f s) = sn_id s" "\<And>s. sn_family_id (f s) = sn_family_id s"
  shows "payload_ok (map f ss) p = payload_ok ss p"
  using assms by (auto simp: payload_ok_def image_image)

lemma sessions_grow_refl [simp]: "sessions_grow ss ss"
  by (simp add: sessions_grow_def)

lemma sessions_grow_map:
  "(\<And>s. sn_id (f s) = sn_id s) \<Longrightarrow> (\<And>s. sn_family_id (f s) = sn_family_id s) \<Longrightarrow> sessions_grow ss (map f ss)"
  by (simp add: sessions_grow_def payload_ok_map)

lemma commit_grows [simp]: "sessions_grow (as_sessions st) (as_sessions (rotate_commit now i j st))"
  by (simp add: rotate_commit_def sessions_grow_map)

lemma revoke_grows [simp]: "sessions_grow (as_sessions st) (as_sessions (revoke_sessions P now r st))"
  by (simp add: revoke_sessions_def sessions_grow_map)

lemma state_refresh [simp]:
  "as_refresh (rotate_commit now i j st) = as_refresh st" "as_refresh (revoke_sessions P now r st) = as_refresh st"
  by (simp_all add: rotate_commit_def revoke_sessions_def)

lemma other_step_tame: "other_step cfg st st' \<Longrightarrow> tame st st'"
proof (induction rule: other_step.induct)
  case (open_session s st)
  then show ?case by (auto simp: tame_def sessions_grow_def payload_ok_def)
qed (simp_all add: tame_def map_delete_subset)

lemma consume_tame: "rotate_consume now t st = (r, st') \<Longrightarrow> tame st st'"
  using map_delete_subset [of "as_refresh st" t] by (auto simp: rotate_consume_def store_getdel_def tame_def split: if_splits)

lemma replay_tame: "tame st (replay_clean now f st)" "replay_revoke now f st = (n, st') \<Longrightarrow> tame st st'"
  by (auto simp: replay_clean_def replay_revoke_def tame_def Let_def del_all_subset)

lemma live_ok_tame:
  "live_ok used taken ss live \<Longrightarrow> set live' \<subseteq> set live \<Longrightarrow> sessions_grow ss ss' \<Longrightarrow> live_ok used taken ss' live'"
  unfolding live_ok_def sessions_grow_def by blast

lemma live_ok_fresh:
  assumes "live_ok used taken ss live" "t \<notin> used" "set taken \<subseteq> used" "set live' \<subseteq> insert (t, p, e) (set live)" "payload_ok ss p"
  shows "live_ok (insert t used) taken ss live'"
proof -
  have keys: "fst ` set live' \<subseteq> insert t (fst ` set live)" using assms(4) by force
  have "fst ` set live \<subseteq> used" and apart: "\<forall>x \<in> set taken. x \<notin> fst ` set live" using assms(1) unfolding live_ok_def by blast+
  with keys have "fst ` set live' \<subseteq> insert t used" by blast
  moreover have "\<forall>x \<in> set taken. x \<notin> fst ` set live'" using keys apart assms(2,3) by blast
  moreover have "\<forall>x \<in> set live'. payload_ok ss (fst (snd x))" using assms(1,4,5) by (auto simp: live_ok_def)
  ultimately show ?thesis unfolding live_ok_def by blast
qed

lemma flights_ok_tame:
  "flights_ok ss flights \<Longrightarrow> sessions_grow ss ss' \<Longrightarrow> flight_payload ` set flights' \<subseteq> insert None (flight_payload ` set flights) \<Longrightarrow>
   flights_ok ss' flights'"
  unfolding flights_ok_def sessions_grow_def by (metis (no_types, lifting) image_eqI imageE insertE option.distinct(1) subsetD)

lemma flights_ok_Cons: "flights_ok ss (f # flights) \<longleftrightarrow> (\<forall>p. flight_payload f = Some p \<longrightarrow> payload_ok ss p) \<and> flights_ok ss flights"
  by (auto simp: flights_ok_def)

lemma world_ok_tame:
  assumes "world_ok w" "tame (w_state w) st" "flight_payload ` set flights \<subseteq> insert None (flight_payload ` set (w_flights w))"
  shows "world_ok (w\<lparr>w_state := st, w_flights := flights\<rparr>)"
  using assms unfolding world_ok_def tame_def by (auto intro: live_ok_tame flights_ok_tame)

lemma world_ok_fresh:
  assumes "world_ok w" "t \<notin> w_used w" "as_sessions st = as_sessions (w_state w)"
    and "set (as_refresh st) \<subseteq> insert (t, p, e) (set (as_refresh (w_state w)))" "payload_ok (as_sessions (w_state w)) p"
    and "flight_payload ` set flights \<subseteq> insert None (flight_payload ` set (w_flights w))"
  shows "world_ok (w\<lparr>w_state := st, w_flights := flights, w_used := insert t (w_used w)\<rparr>)"
  using assms unfolding world_ok_def by (auto intro: live_ok_fresh flights_ok_tame)

lemma took_Cons [simp]:
  "took (w\<lparr>w_state := st, w_flights := flights, w_seen := Took t # w_seen w\<rparr>) = t # took w"
  by (simp add: took_def)

lemma issue_refresh:
  assumes "issueRefreshToken cfg now t jti u tid i f st = (Inr r, st')"
  shows "as_sessions st' = as_sessions st"
    and "\<exists>p e. set (as_refresh st') \<subseteq> insert (t, p, e) (set (as_refresh st)) \<and> rp_sessionId p = i \<and> rp_familyId p = f"
proof -
  define p where "p = \<lparr>rp_userId = u, rp_tenantId = tid, rp_sessionId = i, rp_jti = jti, rp_familyId = f\<rparr>"
  from assms obtain n where "as_refresh st' = store_set_ex now (as_refresh st) t p n" and same: "as_sessions st' = as_sessions st"
    by (auto simp: issueRefreshToken_def Let_def p_def split: sum.splits)
  then have "set (as_refresh st') \<subseteq> insert (t, p, Some (now + n * 1000)) (set (as_refresh st))"
    using map_set_subset [of "as_refresh st" t "(p, Some (now + n * 1000))"] by (auto simp: store_set_ex_def)
  moreover have "rp_sessionId p = i" "rp_familyId p = f" by (simp_all add: p_def)
  ultimately show "\<exists>p e. set (as_refresh st') \<subseteq> insert (t, p, e) (set (as_refresh st)) \<and> rp_sessionId p = i \<and> rp_familyId p = f" by blast
  show "as_sessions st' = as_sessions st" by (rule same)
qed

lemma write_refresh:
  assumes "rotate_write now p jti t' t n st = (r, st')"
  shows "as_sessions st' = as_sessions st"
    and "\<exists>e. set (as_refresh st') \<subseteq> insert (t', p\<lparr>rp_jti := jti\<rparr>, e) (set (as_refresh st))"
proof -
  from assms have "as_refresh st' = store_set_ex now (as_refresh st) t' (p\<lparr>rp_jti := jti\<rparr>) n" "as_sessions st' = as_sessions st"
    by (auto simp: rotate_write_def Let_def)
  then show "as_sessions st' = as_sessions st" "\<exists>e. set (as_refresh st') \<subseteq> insert (t', p\<lparr>rp_jti := jti\<rparr>, e) (set (as_refresh st))"
    using map_set_subset [of "as_refresh st" t'] by (auto simp: store_set_ex_def)
qed

lemma payload_ok_jti [simp]: "payload_ok ss (p\<lparr>rp_jti := j\<rparr>) = payload_ok ss p"
  by (simp add: payload_ok_def)

lemma flight_payload_in: "flights_ok ss flights \<Longrightarrow> f \<in> set flights \<Longrightarrow> flight_payload f = Some p \<Longrightarrow> payload_ok ss p"
  by (auto simp: flights_ok_def)

text \<open>The steps of the rotation keep the sessions apart, provided ids and families of sessions are distinct.\<close>

definition ids_ok :: "SessionRow list \<Rightarrow> bool" where
  "ids_ok ss \<longleftrightarrow> distinct (map sn_id ss)"

lemma distinct_payload: "s \<in> set ss \<Longrightarrow> ids_ok ss \<Longrightarrow> rp_sessionId p = sn_id s \<Longrightarrow> rp_familyId p = sn_family_id s \<Longrightarrow> payload_ok ss p"
  by (auto simp: payload_ok_def ids_ok_def) (metis distinct_map inj_onD)

lemma ids_ok_map: "(\<And>s. sn_id (f s) = sn_id s) \<Longrightarrow> ids_ok (map f ss) = ids_ok ss"
  by (simp add: ids_ok_def comp_def)

lemma ids_ok_kept [simp]:
  "ids_ok (as_sessions (rotate_commit now i j st)) = ids_ok (as_sessions st)"
  "ids_ok (as_sessions (revoke_sessions P now r st)) = ids_ok (as_sessions st)"
  "ids_ok (as_sessions (snd (replay_revoke now f st))) = ids_ok (as_sessions st)"
  "as_sessions (replay_clean now f st) = as_sessions st"
  by (simp_all add: rotate_commit_def revoke_sessions_def replay_revoke_def replay_clean_def ids_ok_map Let_def)

lemma other_step_ids: "other_step cfg st st' \<Longrightarrow> ids_ok (as_sessions st) \<Longrightarrow> ids_ok (as_sessions st')"
proof (induction rule: other_step.induct)
  case (open_session s st)
  then show ?case by (simp add: ids_ok_def)
qed simp_all

lemma consume_sessions: "rotate_consume now t st = (r, st') \<Longrightarrow> as_sessions st' = as_sessions st"
  by (auto simp: rotate_consume_def store_getdel_def)

lemma rot_step_ids: "rot_step cfg jwt w w' \<Longrightarrow> ids_ok (as_sessions (w_state w)) \<Longrightarrow> ids_ok (as_sessions (w_state w'))"
proof (induction rule: rot_step.induct)
  case (replay_db w fs f gs now n st)
  then show ?case using ids_ok_kept(3) [of now f "w_state w"] by simp
qed (simp_all add: other_step_ids issue_refresh(1) consume_sessions write_refresh(1))

lemma take_hit_ok:
  assumes "world_ok w" and take: "rotate_consume now t (w_state w) = (Some p, st)"
  shows "world_ok (w\<lparr>w_state := st, w_flights := Consumed t p # w_flights w, w_seen := Took t # w_seen w\<rparr>)"
proof -
  let ?r = "as_refresh (w_state w)" and ?ss = "as_sessions (w_state w)"
  from take have st: "st = (w_state w)\<lparr>as_refresh := map_delete ?r t\<rparr>" and "store_get now ?r t = Some p"
    by (auto simp: rotate_consume_def store_getdel_def split: if_splits)
  then obtain e where "map_of ?r t = Some (p, e)" by (auto simp: store_get_Some)
  then have mem: "(t, p, e) \<in> set ?r" by (rule map_of_SomeD)
  with assms(1) have "t \<in> w_used w" "t \<notin> set (took w)" "payload_ok ?ss p"
    by (force simp: world_ok_def live_ok_def)+
  moreover have "live_ok (w_used w) (t # took w) ?ss (map_delete ?r t)"
    using assms(1) map_delete_subset [of ?r t] by (auto simp: world_ok_def live_ok_def map_delete_def)
  ultimately show ?thesis using assms(1) by (simp add: world_ok_def st flights_ok_Cons)
qed

lemma issue_ok:
  assumes "world_ok w" "ids_ok (as_sessions (w_state w))" "s \<in> set (as_sessions (w_state w))" "t \<notin> w_used w"
    and "issueRefreshToken cfg now t jti (sn_user_id s) (sn_tenant_id s) (sn_id s) (sn_family_id s) (w_state w) = (Inr r, st)"
  shows "world_ok (w\<lparr>w_state := st, w_used := insert t (w_used w)\<rparr>)"
proof -
  obtain p e where p: "set (as_refresh st) \<subseteq> insert (t, p, e) (set (as_refresh (w_state w)))" "rp_sessionId p = sn_id s"
    "rp_familyId p = sn_family_id s" using issue_refresh(2) [OF assms(5)] by blast
  then have "payload_ok (as_sessions (w_state w)) p" using assms(2,3) by (intro distinct_payload)
  from world_ok_fresh [OF assms(1,4) issue_refresh(1) [OF assms(5)] p(1) this, of "w_flights w"] show ?thesis by (simp add: subset_insertI)
qed

lemma write_ok_world:
  assumes "world_ok w" "w_flights w = fs @ Committed t p n jti # gs" "t' \<notin> w_used w"
    and wr: "rotate_write now p jti t' t n (w_state w) = (r, st)"
    and "flight_payload ` set flights \<subseteq> insert None (flight_payload ` set (w_flights w))"
  shows "world_ok (w\<lparr>w_state := st, w_flights := flights, w_used := insert t' (w_used w)\<rparr>)"
proof -
  have "payload_ok (as_sessions (w_state w)) p"
    using assms(1,2) by (intro flight_payload_in [of _ "w_flights w" "Committed t p n jti"]) (auto simp: world_ok_def)
  then have "payload_ok (as_sessions (w_state w)) (p\<lparr>rp_jti := jti\<rparr>)" by simp
  moreover obtain e where "set (as_refresh st) \<subseteq> insert (t', p\<lparr>rp_jti := jti\<rparr>, e) (set (as_refresh (w_state w)))"
    using write_refresh(2) [OF wr] by blast
  ultimately show ?thesis using assms write_refresh(1) [OF wr] by (intro world_ok_fresh)
qed

lemma world_ok_seen [simp]:
  "world_ok (w\<lparr>w_seen := Paired p t # w_seen w\<rparr>) = world_ok w" "world_ok (w\<lparr>w_seen := ReplayReported f n # w_seen w\<rparr>) = world_ok w"
  by (simp_all add: world_ok_def)

lemma tame_refl [simp]: "tame st st"
  by (simp add: tame_def)

lemma commit_tame [simp]: "tame st (rotate_commit now i j st)"
  by (simp add: tame_def)

lemma world_ok_flights: "world_ok w \<Longrightarrow> flight_payload ` set flights \<subseteq> insert None (flight_payload ` set (w_flights w)) \<Longrightarrow> world_ok (w\<lparr>w_flights := flights\<rparr>)"
  using world_ok_tame [of w "w_state w" flights] by simp

lemma world_ok_state: "world_ok w \<Longrightarrow> tame (w_state w) st \<Longrightarrow> world_ok (w\<lparr>w_state := st\<rparr>)"
  using world_ok_tame [of w st "w_flights w"] by (simp add: subset_insertI)

lemma rot_step_ok: "rot_step cfg jwt w w' \<Longrightarrow> ids_ok (as_sessions (w_state w)) \<Longrightarrow> world_ok w \<Longrightarrow> world_ok w'"
proof (induction rule: rot_step.induct)
  case (other w st)
  then show ?case by (intro world_ok_state other_step_tame)
next
  case (issue s w t now jti r st)
  then show ?case by (intro issue_ok)
next
  case (take_hit now t w p st)
  then show ?case by (intro take_hit_ok)
next
  case (take_miss now t w st)
  then show ?case by (intro world_ok_tame) (auto intro: consume_tame)
next
  case (commit w fs t p n gs now jti)
  then show ?case by (intro world_ok_tame) auto
next
  case (write_ok w fs t p n jti gs t' now st)
  then show ?case by (intro write_ok_world [of w fs t p n jti gs]) auto
next
  case (write_fails w fs t p n jti gs t' now e st)
  then show ?case by (intro write_ok_world [of w fs t p n jti gs]) auto
next
  case (pair w fs p t' gs now aj r)
  then have "world_ok (w\<lparr>w_flights := fs @ gs\<rparr>)" by (intro world_ok_flights) auto
  then show ?case by (simp add: world_ok_def took_def)
next
  case (replay_db w fs f gs now n st)
  then show ?case by (intro world_ok_tame) (auto intro: replay_tame(2))
next
  case (replay_redis w fs f n gs now)
  then have "world_ok (w\<lparr>w_state := replay_clean now f (w_state w), w_flights := fs @ gs\<rparr>)"
    by (intro world_ok_tame replay_tame(1)) auto
  then show ?case by (simp add: world_ok_def took_def)
qed (auto intro!: world_ok_flights)

lemma rot_steps_ok:
  "rot_steps cfg jwt w w' \<Longrightarrow> ids_ok (as_sessions (w_state w)) \<Longrightarrow> world_ok w \<Longrightarrow> ids_ok (as_sessions (w_state w')) \<and> world_ok w'"
  by (induction rule: rtranclp_induct) (auto intro: rot_step_ok rot_step_ids)

lemma init_ok: "ids_ok (as_sessions (w_state world_init))" "world_ok world_init"
  by (simp_all add: world_init_def empty_state_def ids_ok_def world_ok_def took_def live_ok_def flights_ok_def)

text \<open>
  However rotations, logins, log-outs, replay detections and failures interleave, every refresh token is taken
  at most once, so two requests never both rotate it.
\<close>

theorem token_taken_once:
  assumes "rot_steps cfg jwt world_init w"
  shows "distinct (took w)"
  using rot_steps_ok [OF assms init_ok] by (simp add: world_ok_def)

section \<open>A revoked family\<close>

definition revoked_family :: "string \<Rightarrow> AuthState \<Rightarrow> bool" where
  "revoked_family f st \<longleftrightarrow>
     f \<in> sn_family_id ` set (as_sessions st) \<and> (\<forall>s \<in> set (as_sessions st). sn_family_id s = f \<longrightarrow> sn_revoked_at s \<noteq> None)"

text \<open>Rotations of the family that have passed the session check, and pairs of tokens answered for the family.\<close>

primrec past_check :: "string \<Rightarrow> Flight \<Rightarrow> bool" where
  "past_check f (Consumed t p) = False"
| "past_check f (Checked t p n) = (rp_familyId p = f)"
| "past_check f (Committed t p n jti) = (rp_familyId p = f)"
| "past_check f (Written p t) = (rp_familyId p = f)"
| "past_check f (Missed t) = False"
| "past_check f (ReplayFound g) = False"
| "past_check f (ReplayRevoked g n) = False"

definition pairs_of :: "string \<Rightarrow> World \<Rightarrow> nat" where
  "pairs_of f w = length (filter (\<lambda>x. case x of Paired p t \<Rightarrow> rp_familyId p = f | _ \<Rightarrow> False) (w_seen w))"

definition past_of :: "string \<Rightarrow> World \<Rightarrow> nat" where
  "past_of f w = length (filter (past_check f) (w_flights w))"

lemma revoked_family_same: "revoked_family f st \<Longrightarrow> as_sessions st' = as_sessions st \<Longrightarrow> revoked_family f st'"
  by (simp add: revoked_family_def)

lemma revoked_family_map:
  assumes "\<And>s. sn_family_id (g s) = sn_family_id s" "\<And>s. sn_revoked_at s \<noteq> None \<Longrightarrow> sn_revoked_at (g s) \<noteq> None" "revoked_family f st"
  shows "revoked_family f (st\<lparr>as_sessions := map g (as_sessions st)\<rparr>)"
  using assms by (auto simp: revoked_family_def image_image)

lemma revoked_family_kept:
  "revoked_family f st \<Longrightarrow> revoked_family f (rotate_commit now i j st)"
  "revoked_family f st \<Longrightarrow> revoked_family f (revoke_sessions P now r st)"
  "revoked_family f st \<Longrightarrow> revoked_family f (replay_clean now g st)"
  unfolding rotate_commit_def revoke_sessions_def
  by (auto intro!: revoked_family_map intro: revoked_family_same)

lemma replay_revoked: "revoked_family f st \<Longrightarrow> replay_revoke now g st = (n, st') \<Longrightarrow> revoked_family f st'"
  by (auto simp: replay_revoke_def Let_def revoked_family_kept)

lemma other_step_revoked: "other_step cfg st st' \<Longrightarrow> revoked_family f st \<Longrightarrow> revoked_family f st'"
proof (induction rule: other_step.induct)
  case (open_session s st)
  then show ?case by (auto simp: revoked_family_def)
qed (auto intro: revoked_family_kept revoked_family_same)

lemma check_revoked:
  assumes "payload_ok (as_sessions st) p" "revoked_family f st" "rp_familyId p = f"
  shows "rotate_check now (rp_sessionId p) st = Inl SessionRevokedError"
proof -
  have "find (\<lambda>s. sn_id s = rp_sessionId p) (as_sessions st) \<noteq> None"
    using assms(1) by (auto simp: payload_ok_def find_None_iff)
  then obtain s where s: "find (\<lambda>s. sn_id s = rp_sessionId p) (as_sessions st) = Some s" by blast
  then have "s \<in> set (as_sessions st)" "sn_id s = rp_sessionId p" by (auto simp: find_Some_iff)
  with assms have "sn_revoked_at s \<noteq> None" by (auto simp: payload_ok_def revoked_family_def)
  then show ?thesis by (simp add: rotate_check_def s)
qed

lemma rot_step_contained:
  "rot_step cfg jwt w w' \<Longrightarrow> world_ok w \<Longrightarrow> revoked_family f (w_state w) \<Longrightarrow>
   revoked_family f (w_state w') \<and> pairs_of f w' + past_of f w' \<le> pairs_of f w + past_of f w"
proof (induction rule: rot_step.induct)
  case (check_ok w fs t p gs now n)
  then have "payload_ok (as_sessions (w_state w)) p"
    by (intro flight_payload_in [of _ "w_flights w" "Consumed t p"]) (auto simp: world_ok_def)
  with check_revoked [of "w_state w" p f now] check_ok have "rp_familyId p \<noteq> f" by auto
  with check_ok show ?case by (simp add: past_of_def pairs_of_def)
next
  case (issue s w t now jti r st)
  then show ?case by (simp add: past_of_def pairs_of_def revoked_family_same issue_refresh(1))
next
  case (write_ok w fs t p n jti gs t' now st)
  then show ?case by (simp add: past_of_def pairs_of_def revoked_family_same write_refresh(1))
next
  case (write_fails w fs t p n jti gs t' now e st)
  then show ?case by (simp add: past_of_def pairs_of_def revoked_family_same write_refresh(1))
next
  case (take_hit now t w p st)
  then show ?case by (simp add: past_of_def pairs_of_def revoked_family_same consume_sessions)
next
  case (take_miss now t w st)
  then show ?case by (simp add: past_of_def pairs_of_def revoked_family_same consume_sessions)
next
  case (replay_db w fs g gs now n st)
  then show ?case using replay_revoked [of f "w_state w" now g n st] by (simp add: past_of_def pairs_of_def)
qed (simp_all add: past_of_def pairs_of_def revoked_family_kept other_step_revoked)

lemma rot_steps_contained:
  assumes "rot_steps cfg jwt w w'" "ids_ok (as_sessions (w_state w))" "world_ok w" "revoked_family f (w_state w)"
  shows "revoked_family f (w_state w') \<and> pairs_of f w' + past_of f w' \<le> pairs_of f w + past_of f w"
  using assms
proof (induction rule: rtranclp_induct)
  case (step v v')
  then have "ids_ok (as_sessions (w_state v)) \<and> world_ok v" using rot_steps_ok by blast
  with step rot_step_contained [of cfg jwt v v' f] show ?case by (auto intro: order_trans)
qed simp

text \<open>
  Property C11: once the sessions of a family are revoked (by replay detection, log-out or a password change), the family
  stays revoked and is answered at most as many further token pairs as it had rotations past the session check at that
  moment, however the other requests interleave.
\<close>

theorem revoked_family_contained:
  assumes "rot_steps cfg jwt world_init w" "revoked_family f (w_state w)" "rot_steps cfg jwt w w'"
  shows "revoked_family f (w_state w') \<and> pairs_of f w' \<le> pairs_of f w + past_of f w"
  using rot_steps_contained [OF assms(3)] rot_steps_ok [OF assms(1) init_ok] assms(2) by fastforce

section \<open>A concrete history\<close>

definition demo_env :: AuthEnv where
  "demo_env = \<lparr>OP_JWT_ALGORITHM = None, OP_JWT_SECRET = Some ''s'', OP_JWT_PRIVATE_KEY = None, OP_JWT_PUBLIC_KEY = None,
     OP_JWT_EXPIRY_SECONDS = None, OP_REFRESH_TOKEN_TTL_SECONDS = None, OP_LOCKOUT_MAX_ATTEMPTS = None,
     OP_LOCKOUT_DURATION_MINUTES = None, OP_PURPOSE_TOKEN_SECRET = None, OP_REQUIRE_EMAIL_VERIFICATION = None,
     OP_SMTP_HOST = None, NODE_ENV = None\<rparr>"

definition demo_jwt :: Jwt where
  "demo_jwt = \<lparr>jwt_sign = (\<lambda>alg key ps. Some ''jwt''), jwt_header_alg = (\<lambda>t. None), jwt_verify = (\<lambda>alg key t now. None)\<rparr>"

definition demo_user :: UserRow where
  "demo_user = \<lparr>us_id = ''u'', us_tenant_id = ''t'', us_email = ''e'', us_password_hash = None, us_email_verified = True,
     us_is_active = True, us_display_name = None, us_roles = [''viewer''], us_failed_login_count = 0, us_locked_until = None,
     us_password_history = []\<rparr>"

definition demo_session :: SessionRow where
  "demo_session = \<lparr>sn_id = ''s'', sn_user_id = ''u'', sn_tenant_id = ''t'', sn_refresh_token_jti = ''j'', sn_family_id = ''f'',
     sn_expires_at = 100000, sn_last_used_at = 0, sn_revoked_at = None, sn_revoked_reason = None\<rparr>"

definition demo_payload :: RefreshTokenPayload where
  "demo_payload = \<lparr>rp_userId = ''u'', rp_tenantId = ''t'', rp_sessionId = ''s'', rp_jti = ''j'', rp_familyId = ''f''\<rparr>"

text \<open>A user with a session and a token that was just issued.\<close>

definition demo_state :: AuthState where
  "demo_state = snd (issueRefreshToken demo_env 0 ''a'' ''j'' ''u'' ''t'' ''s'' ''f''
     (empty_state\<lparr>as_users := [demo_user], as_sessions := [demo_session]\<rparr>))"

lemmas demo_defs = demo_env_def demo_jwt_def demo_user_def demo_session_def demo_payload_def empty_state_def world_init_def
  getRefreshTokenTtlSeconds_def getJwtExpirySeconds_def positive_setting_def FAMILY_TTL_SECONDS_def
  store_set_ex_def store_sadd_def store_srem_def store_expire_def store_get_def store_expiry_def store_getdel_def map_delete_def

lemma demo_state_eq:
  "demo_state = empty_state\<lparr>as_users := [demo_user], as_sessions := [demo_session],
     as_refresh := [(''a'', demo_payload, Some 604800000)], as_tokenFamily := [(''a'', ''f'', Some 604800000)],
     as_refreshFamily := [(''f'', [''a''], Some 2592000000)], as_userSessions := [(''u'', [''a''], Some 2592000000)]\<rparr>"
  by (simp add: demo_state_def issueRefreshToken_def demo_defs)

definition demo_world :: World where
  "demo_world = world_init\<lparr>w_state := demo_state, w_used := {''a''}\<rparr>"

lemma demo_reached: "rot_steps demo_env demo_jwt world_init demo_world"
proof -
  let ?u = "empty_state\<lparr>as_users := [demo_user]\<rparr>" and ?s = "empty_state\<lparr>as_users := [demo_user], as_sessions := [demo_session]\<rparr>"
  have "other_step demo_env (w_state world_init) ?u"
    using other_step.edit_users [of demo_env empty_state "[demo_user]"] by (simp add: world_init_def)
  then have a: "rot_step demo_env demo_jwt world_init (world_init\<lparr>w_state := ?u\<rparr>)" by (rule rot_step.other)
  have b: "rot_step demo_env demo_jwt (world_init\<lparr>w_state := ?u\<rparr>) (world_init\<lparr>w_state := ?s\<rparr>)"
  proof -
    have "other_step demo_env ?u (?u\<lparr>as_sessions := as_sessions ?u @ [demo_session]\<rparr>)"
      by (rule other_step.open_session) (simp_all add: empty_state_def)
    then have "other_step demo_env (w_state (world_init\<lparr>w_state := ?u\<rparr>)) ?s" by (simp add: empty_state_def)
    from rot_step.other [OF this, of demo_jwt] show ?thesis by simp
  qed
  have c: "rot_step demo_env demo_jwt (world_init\<lparr>w_state := ?s\<rparr>) demo_world"
  proof -
    have "issueRefreshToken demo_env 0 ''a'' ''j'' ''u'' ''t'' ''s'' ''f'' ?s = (Inr (''a'', ''j''), demo_state)"
      by (simp add: demo_state_def issueRefreshToken_def getRefreshTokenTtlSeconds_def positive_setting_def demo_env_def Let_def)
    then show ?thesis
      using rot_step.issue [where s = demo_session and w = "world_init\<lparr>w_state := ?s\<rparr>" and t = "''a''" and now = 0 and jti = "''j''" and st = demo_state]
      by (simp add: demo_session_def world_init_def demo_world_def)
  qed
  show ?thesis by (rule rtranclp.rtrancl_into_rtrancl [OF rtranclp.rtrancl_into_rtrancl [OF r_into_rtranclp [of "rot_step demo_env demo_jwt", OF a] b] c])
qed

definition consumed_world :: World where
  "consumed_world = demo_world\<lparr>w_state := demo_state\<lparr>as_refresh := []\<rparr>, w_flights := [Consumed ''a'' demo_payload], w_seen := [Took ''a'']\<rparr>"

definition checked_world :: World where
  "checked_world = consumed_world\<lparr>w_flights := [Checked ''a'' demo_payload 99]\<rparr>"

text \<open>The session is revoked while the rotation is between the check and the commit.\<close>

definition revoked_world :: World where
  "revoked_world = checked_world\<lparr>w_state := revoke_sessions (\<lambda>s. True) 2000 ''logout'' (w_state checked_world)\<rparr>"

definition committed_world :: World where
  "committed_world = revoked_world\<lparr>w_state := rotate_commit 3000 ''s'' ''j2'' (w_state revoked_world),
     w_flights := [Committed ''a'' demo_payload 99 ''j2'']\<rparr>"

definition written_world :: World where
  "written_world = committed_world\<lparr>w_state := snd (rotate_write 3000 demo_payload ''j2'' ''b'' ''a'' 99 (w_state committed_world)),
     w_flights := [Written demo_payload ''b''], w_used := insert ''b'' (w_used committed_world)\<rparr>"

definition paired_world :: World where
  "paired_world = written_world\<lparr>w_flights := [], w_seen := Paired demo_payload ''b'' # w_seen written_world\<rparr>"

lemma checked_reached: "rot_steps demo_env demo_jwt world_init checked_world"
proof -
  have "rotate_consume 1000 ''a'' (w_state demo_world) = (Some demo_payload, demo_state\<lparr>as_refresh := []\<rparr>)"
    by (simp add: rotate_consume_def demo_state_eq demo_defs demo_world_def)
  from rot_step.take_hit [OF this, of demo_env demo_jwt] have a: "rot_step demo_env demo_jwt demo_world consumed_world"
    by (simp add: consumed_world_def demo_world_def world_init_def)
  have "w_flights consumed_world = [] @ Consumed ''a'' demo_payload # []" "rotate_check 1000 (rp_sessionId demo_payload) (w_state consumed_world) = Inr 99"
    by (simp_all add: rotate_check_def demo_state_eq demo_session_def demo_payload_def consumed_world_def)
  from rot_step.check_ok [OF this, of demo_env demo_jwt] have b: "rot_step demo_env demo_jwt consumed_world checked_world"
    by (simp add: checked_world_def)
  show ?thesis by (rule rtranclp.rtrancl_into_rtrancl [OF rtranclp.rtrancl_into_rtrancl [OF demo_reached a] b])
qed

theorem token_taken_once_witness: "took checked_world = [''a''] \<and> distinct (took checked_world)"
  using token_taken_once [OF checked_reached] by (simp add: took_def checked_world_def consumed_world_def)

lemma written_users: "as_users (w_state written_world) = [demo_user]"
  by (simp add: written_world_def rotate_write_def rotate_commit_def committed_world_def revoked_world_def revoke_sessions_def
      checked_world_def consumed_world_def demo_state_eq Let_def)

lemma paired_reached: "rot_steps demo_env demo_jwt revoked_world paired_world"
proof -
  have "w_flights revoked_world = [] @ Checked ''a'' demo_payload 99 # []"
    by (simp add: revoked_world_def checked_world_def)
  from rot_step.commit [OF this, of demo_env demo_jwt "''j2''" 3000] have a: "rot_step demo_env demo_jwt revoked_world committed_world"
    by (simp add: committed_world_def demo_payload_def)
  have "w_flights committed_world = [] @ Committed ''a'' demo_payload 99 ''j2'' # []" "''b'' \<notin> w_used committed_world"
    "rotate_write 3000 demo_payload ''j2'' ''b'' ''a'' 99 (w_state committed_world) =
       (Inr (), snd (rotate_write 3000 demo_payload ''j2'' ''b'' ''a'' 99 (w_state committed_world)))"
    by (simp_all add: committed_world_def revoked_world_def checked_world_def consumed_world_def demo_world_def rotate_write_def Let_def)
  from rot_step.write_ok [OF this, of demo_env demo_jwt] have b: "rot_step demo_env demo_jwt committed_world written_world"
    by (simp add: written_world_def)
  have "w_flights written_world = [] @ Written demo_payload ''b'' # []"
    "rotate_issue demo_env demo_jwt 3000 (rp_userId demo_payload) ''x'' ''b'' (w_state written_world) =
       Inr \<lparr>tp_accessToken = ''jwt'', tp_refreshToken = ''b'', tp_expiresIn = 900\<rparr>"
    by (simp_all add: written_world_def [THEN arg_cong, of w_flights] rotate_issue_def written_users issueAccessToken_def demo_defs
        user_for_token_def getJwtAlgorithm_def resolveScopes_def PREDEFINED_ROLE_SCOPES_def signing_key_def required_def)
  from rot_step.pair [OF this] have c: "rot_step demo_env demo_jwt written_world paired_world"
    by (simp add: paired_world_def)
  show ?thesis by (rule rtranclp.rtrancl_into_rtrancl [OF rtranclp.rtrancl_into_rtrancl [OF r_into_rtranclp [of "rot_step demo_env demo_jwt", OF a] b] c])
qed

theorem revoked_family_contained_witness:
  "revoked_family ''f'' (w_state paired_world) \<and> pairs_of ''f'' paired_world = 1 \<and>
   pairs_of ''f'' paired_world \<le> pairs_of ''f'' revoked_world + past_of ''f'' revoked_world"
proof -
  have "other_step demo_env (w_state checked_world) (revoke_sessions (\<lambda>s. True) 2000 ''logout'' (w_state checked_world))"
    by (rule other_step.revoke)
  from rot_step.other [OF this, of demo_jwt] have reached: "rot_steps demo_env demo_jwt world_init revoked_world"
    using checked_reached by (simp add: revoked_world_def)
  have "revoked_family ''f'' (w_state revoked_world)"
    by (simp add: revoked_family_def revoked_world_def checked_world_def consumed_world_def demo_state_eq revoke_sessions_def
        demo_session_def)
  moreover have "pairs_of ''f'' paired_world = 1"
    by (simp add: pairs_of_def paired_world_def written_world_def committed_world_def revoked_world_def checked_world_def
        consumed_world_def demo_payload_def)
  ultimately show ?thesis using revoked_family_contained [OF reached _ paired_reached] by blast
qed

end
