(* ===== verification/TokenProperties.thy ===== *)
theory TokenProperties
  imports TokenRotation
begin

text \<open>
  Properties of the access tokens: what scopes a role list can give, verifying inverts issuing, and a revoked access token
  stays revoked.
\<close>

section \<open>Scopes\<close>

lemma predefined_scopes_known:
  "dict_get PREDEFINED_ROLE_SCOPES role = Some scopes \<Longrightarrow> set scopes \<subseteq> set ALL_SCOPES"
  unfolding PREDEFINED_ROLE_SCOPES_def ALL_SCOPES_def by (auto split: if_splits)

lemma predefined_admin:
  "dict_get PREDEFINED_ROLE_SCOPES role = Some scopes \<Longrightarrow> ''admin'' \<in> set scopes \<longleftrightarrow> role = ''platform-admin''"
  unfolding PREDEFINED_ROLE_SCOPES_def by (auto split: if_splits)

lemma platform_admin_scopes: "dict_get PREDEFINED_ROLE_SCOPES ''platform-admin'' = Some [''admin'']"
  by (simp add: PREDEFINED_ROLE_SCOPES_def)

lemma insert_scopes: "set (foldl (\<lambda>u s. if s \<in> set u then u else u @ [s]) acc scopes) = set acc \<union> set scopes"
  by (induction scopes arbitrary: acc) auto

lemma union_scopes_set:
  "union_scopes acc roles = Inr u \<Longrightarrow>
   set u = set acc \<union> (\<Union>role \<in> set roles. case dict_get PREDEFINED_ROLE_SCOPES role of Some scopes \<Rightarrow> set scopes | None \<Rightarrow> {})"
  by (induction acc roles rule: union_scopes.induct) (auto simp: insert_scopes split: option.splits if_splits)

text \<open>
  The scopes of a list of roles are known scopes, and include \<^verbatim>\<open>admin\<close>, which stands for all scopes, only for
  the role \<^verbatim>\<open>platform-admin\<close>; otherwise they are exactly the union of the scopes of the predefined roles.
\<close>

theorem resolveScopes_spec:
  assumes "resolveScopes roles = Inr scopes"
  shows "set scopes \<subseteq> set ALL_SCOPES \<and> (''admin'' \<in> set scopes \<longleftrightarrow> ''platform-admin'' \<in> set roles) \<and>
    (''platform-admin'' \<notin> set roles \<longrightarrow>
       set scopes = (\<Union>role \<in> set roles. case dict_get PREDEFINED_ROLE_SCOPES role of Some ss \<Rightarrow> set ss | None \<Rightarrow> {}))"
proof -
  from assms obtain u where u: "union_scopes [] roles = Inr u" and
    scopes: "scopes = (if ''admin'' \<in> set u then ALL_SCOPES else u)"
    by (auto simp: resolveScopes_def split: sum.splits if_splits)
  have set_u: "set u = (\<Union>role \<in> set roles. case dict_get PREDEFINED_ROLE_SCOPES role of Some ss \<Rightarrow> set ss | None \<Rightarrow> {})"
    using union_scopes_set [OF u] by simp
  have admin: "''admin'' \<in> set u \<longleftrightarrow> ''platform-admin'' \<in> set roles"
    unfolding set_u using predefined_admin platform_admin_scopes by (fastforce split: option.splits)
  have "''admin'' \<in> set ALL_SCOPES" by (simp add: ALL_SCOPES_def)
  moreover have "set u \<subseteq> set ALL_SCOPES" unfolding set_u using predefined_scopes_known by (fastforce split: option.splits)
  ultimately show ?thesis using scopes admin set_u by auto
qed

text \<open>A role named like a member of \<^verbatim>\<open>Object.prototype\<close> makes issuing fail with a \<^verbatim>\<open>TypeError\<close>.\<close>

lemma inherited_role_fails: "resolveScopes [''viewer'', ''constructor''] = Inl NotIterable"
  by code_simp

section \<open>Access tokens\<close>

definition signs_soundly :: "Jwt \<Rightarrow> (JwtAlgorithm \<Rightarrow> string) \<Rightarrow> (JwtAlgorithm \<Rightarrow> string) \<Rightarrow> bool" where
  "signs_soundly jwt skey vkey \<longleftrightarrow>
     (\<forall>alg ps token. jwt_sign jwt alg (skey alg) ps = Some token \<longrightarrow>
        jwt_header_alg jwt token = Some (case alg of HS256 \<Rightarrow> ''HS256'' | EdDSA \<Rightarrow> ''EdDSA'') \<and>
        (\<forall>now e. prop_get ps ''exp'' = VNum (jint (int e)) \<longrightarrow>
           jwt_verify jwt alg (vkey alg) token now = (if now div 1000 < e then Some ps else None)))"

lemma access_claims_get [simp]:
  "prop_get (access_claims now n jti scopes user) ''sub'' = VStr (ut_id user)"
  "prop_get (access_claims now n jti scopes user) ''tid'' = VStr (ut_tenantId user)"
  "prop_get (access_claims now n jti scopes user) ''roles'' = VArr 0 (map VStr (ut_roles user))"
  "prop_get (access_claims now n jti scopes user) ''scopes'' = VArr 1 (map VStr scopes)"
  "prop_get (access_claims now n jti scopes user) ''ev'' = VBool (ut_emailVerified user)"
  "prop_get (access_claims now n jti scopes user) ''unverified'' = VBool (\<not> ut_emailVerified user)"
  "prop_get (access_claims now n jti scopes user) ''jti'' = VStr jti"
  "prop_get (access_claims now n jti scopes user) ''iat'' = VNum (jint (int (now div 1000)))"
  "prop_get (access_claims now n jti scopes user) ''exp'' = VNum (jint (int (now div 1000 + n)))"
  by (simp_all add: access_claims_def prop_get_def optional_claim_def split: option.split)

definition issued_claims :: "nat \<Rightarrow> nat \<Rightarrow> string \<Rightarrow> string list \<Rightarrow> UserForToken \<Rightarrow> JwtClaims" where
  "issued_claims now n jti scopes user =
     \<lparr>jc_sub = ut_id user, jc_iat = jint (int (now div 1000)), jc_exp = jint (int (now div 1000 + n)), jc_jti = jti,
      jc_tid = ut_tenantId user, jc_roles = map VStr (ut_roles user), jc_scopes = map VStr scopes,
      jc_ev = ut_emailVerified user, jc_unverified = (\<not> ut_emailVerified user)\<rparr>"

lemma issued_typed: "typed_claims (access_claims now n jti scopes user) = Some (issued_claims now n jti scopes user)"
  by (simp add: typed_claims_def issued_claims_def)

lemma issueAccessToken_Inr:
  assumes "issueAccessToken cfg jwt now jti user = Inr token"
  obtains n alg scopes key where "getJwtExpirySeconds cfg = Inr n" "getJwtAlgorithm cfg = Inr alg"
    "resolveScopes (ut_roles user) = Inr scopes" "signing_key cfg alg = Inr key"
    "jwt_sign jwt alg key (access_claims now n jti scopes user) = Some token"
  using assms by (auto simp: issueAccessToken_def split: sum.splits option.splits)

lemma verify_access_token:
  assumes "issueAccessToken cfg jwt now jti user = Inr token"
    and keys: "\<And>alg key. signing_key cfg alg = Inr key \<Longrightarrow> key = skey alg \<and> verifying_key cfg alg = Inr (vkey alg)"
    and jose: "signs_soundly jwt skey vkey"
    and n: "getJwtExpirySeconds cfg = Inr n" and scopes: "resolveScopes (ut_roles user) = Inr scopes"
  shows "verifyAccessToken cfg jwt later st token =
     (if now div 1000 + n \<le> later div 1000 \<or> store_get later (as_revocation st) jti \<noteq> None \<or>
         store_get later (as_revocation st) (''user:'' @ ut_id user) \<noteq> None
      then None else Some (issued_claims now n jti scopes user))"
proof -
  from assms(1) n scopes obtain alg key where *: "signing_key cfg alg = Inr key"
    "jwt_sign jwt alg key (access_claims now n jti scopes user) = Some token"
    by (elim issueAccessToken_Inr) auto
  with keys have key: "key = skey alg" "verifying_key cfg alg = Inr (vkey alg)" by auto
  have "jwt_header_alg jwt token = Some (case alg of HS256 \<Rightarrow> ''HS256'' | EdDSA \<Rightarrow> ''EdDSA'')"
    and "jwt_verify jwt alg (vkey alg) token later =
       (if later div 1000 < now div 1000 + n then Some (access_claims now n jti scopes user) else None)"
    using jose *(2) unfolding key signs_soundly_def by (metis access_claims_get(9))+
  then show ?thesis
    using key(2) by (cases alg) (auto simp: verifyAccessToken_def token_algorithm_def blocklisted_def issued_typed)
qed

text \<open>
  A token that was issued is accepted, with the claims it was issued with, until its expiry second, unless
  its id or its user is on the block list; from then on it is refused.
\<close>

theorem verify_issued:
  assumes "issueAccessToken cfg jwt now jti user = Inr token"
    and "\<And>alg key. signing_key cfg alg = Inr key \<Longrightarrow> key = skey alg \<and> verifying_key cfg alg = Inr (vkey alg)"
    and "signs_soundly jwt skey vkey"
    and "getJwtExpirySeconds cfg = Inr n" "resolveScopes (ut_roles user) = Inr scopes"
  shows "verifyAccessToken cfg jwt later st token =
     (if now div 1000 + n \<le> later div 1000 \<or> store_get later (as_revocation st) jti \<noteq> None \<or>
         store_get later (as_revocation st) (''user:'' @ ut_id user) \<noteq> None
      then None else Some (issued_claims now n jti scopes user))"
  using assms by (rule verify_access_token)

text \<open>
  Once an access token is revoked it is never accepted again: the block list entry lasts until the token has
  expired, although its time to live is capped and counted in whole seconds.
\<close>

theorem revoked_token_rejected:
  assumes "issueAccessToken cfg jwt now jti user = Inr token"
    and "\<And>alg key. signing_key cfg alg = Inr key \<Longrightarrow> key = skey alg \<and> verifying_key cfg alg = Inr (vkey alg)"
    and "signs_soundly jwt skey vkey"
    and n: "getJwtExpirySeconds cfg = Inr n"
    and "revokeAccessToken cfg stop jti (now div 1000 + n) st = (Inr (), st')" "now \<le> stop" "stop \<le> later"
    and kept: "store_get later (as_revocation st'') jti = store_get later (as_revocation st') jti"
  shows "verifyAccessToken cfg jwt later st'' token = None"
proof -
  from assms(1) obtain scopes where scopes: "resolveScopes (ut_roles user) = Inr scopes" by (elim issueAccessToken_Inr)
  note verify = verify_access_token [OF assms(1-3) n scopes, of later st'']
  show ?thesis
  proof (cases "now div 1000 + n \<le> later div 1000")
    case False
    have "stop div 1000 \<le> later div 1000" "now div 1000 \<le> stop div 1000" using assms(6,7) by (simp_all add: div_le_mono)
    then have left: "0 < int (now div 1000 + n) - int (stop div 1000)" using False by linarith
    define ttl where "ttl = min (nat (int (now div 1000 + n) - int (stop div 1000))) n"
    have ttl: "ttl = now div 1000 + n - stop div 1000"
      using \<open>now div 1000 \<le> stop div 1000\<close> unfolding ttl_def nat_minus_as_int [symmetric] by simp
    have "st' = st\<lparr>as_revocation := store_set_ex stop (as_revocation st) jti ''1'' ttl\<rparr>"
      using assms(5) left n by (simp add: revokeAccessToken_def ttl_def)
    moreover have "0 < ttl" "later < stop + ttl * 1000"
      using left False ttl mult_div_mod_eq [of 1000 stop] mult_div_mod_eq [of 1000 later] mod_less_divisor [of 1000 later]
      by linarith+
    ultimately have "store_get later (as_revocation st'') jti = Some ''1''"
      using kept by (simp add: redis.blocked_until)
    with verify show ?thesis by simp
  qed (simp add: verify)
qed

section \<open>Concrete tokens\<close>

definition demo_for_token :: UserForToken where
  "demo_for_token = user_for_token demo_user"

definition demo_claims :: props where
  "demo_claims = access_claims 1000 900 ''j'' [''data:read'', ''ontology:read'', ''pipelines:read'', ''apps:read'', ''logs:read'', ''lineage:read''] demo_for_token"

definition sound_jwt :: Jwt where
  "sound_jwt = \<lparr>jwt_sign = (\<lambda>alg key ps. if alg = HS256 \<and> key = ''s'' \<and> ps = demo_claims then Some ''token'' else None),
     jwt_header_alg = (\<lambda>t. Some ''HS256''), jwt_verify = (\<lambda>alg key t now. if now div 1000 < 901 then Some demo_claims else None)\<rparr>"

lemma sound_jwt: "signs_soundly sound_jwt (\<lambda>alg. ''s'') (\<lambda>alg. ''s'')"
  by (simp add: signs_soundly_def sound_jwt_def demo_claims_def jint_def)

lemma demo_issued:
  "resolveScopes (ut_roles demo_for_token) =
     Inr [''data:read'', ''ontology:read'', ''pipelines:read'', ''apps:read'', ''logs:read'', ''lineage:read'']"
  "getJwtExpirySeconds demo_env = Inr 900" "getJwtAlgorithm demo_env = Inr HS256"
  by (simp_all add: demo_for_token_def demo_user_def user_for_token_def resolveScopes_def PREDEFINED_ROLE_SCOPES_def
      getJwtExpirySeconds_def getJwtAlgorithm_def positive_setting_def demo_env_def)

lemma demo_token: "issueAccessToken demo_env sound_jwt 1000 ''j'' demo_for_token = Inr ''token''"
  by (simp add: issueAccessToken_def demo_issued signing_key_def required_def demo_env_def [THEN arg_cong, of OP_JWT_SECRET]
      sound_jwt_def demo_claims_def)

lemma demo_keys: "signing_key demo_env alg = Inr key \<Longrightarrow> key = ''s'' \<and> verifying_key demo_env alg = Inr ''s''"
  by (cases alg) (auto simp: signing_key_def verifying_key_def required_def demo_env_def)

theorem resolveScopes_spec_witness:
  "set [''data:read'', ''ontology:read'', ''pipelines:read'', ''apps:read'', ''logs:read'', ''lineage:read''] \<subseteq> set ALL_SCOPES"
  using resolveScopes_spec [OF demo_issued(1)] by (rule conjunct1)

theorem verify_issued_witness:
  "verifyAccessToken demo_env sound_jwt 900999 empty_state ''token'' =
     Some (issued_claims 1000 900 ''j'' [''data:read'', ''ontology:read'', ''pipelines:read'', ''apps:read'', ''logs:read'', ''lineage:read''] demo_for_token)"
  "verifyAccessToken demo_env sound_jwt 901000 empty_state ''token'' = None"
  using verify_issued [OF demo_token demo_keys sound_jwt demo_issued(2,1), of 900999 empty_state]
    verify_issued [OF demo_token demo_keys sound_jwt demo_issued(2,1), of 901000 empty_state]
  by (simp_all add: empty_state_def store_get_def)

theorem revoked_token_rejected_witness:
  "verifyAccessToken demo_env sound_jwt 900999 (snd (revokeAccessToken demo_env 5500 ''j'' 901 empty_state)) ''token'' = None"
proof -
  have "revokeAccessToken demo_env 5500 ''j'' (1000 div 1000 + 900) empty_state =
      (Inr (), snd (revokeAccessToken demo_env 5500 ''j'' 901 empty_state))"
    by (simp add: revokeAccessToken_def demo_issued Let_def)
  from revoked_token_rejected [OF demo_token demo_keys sound_jwt demo_issued(2) this, of 900999] show ?thesis by simp
qed

end
