(* ===== verification/TokenRefinement.thy ===== *)
theory TokenRefinement
  imports TokenRotation
begin

text \<open>
  What refresh token rotation promises, as an abstract machine: every token belongs to a family, every family has one
  current token or has ended.  Using the current token makes a new one current; using any other token of a family
  that has not ended ends it; everything else is refused.  The token service on its stores and tables, with expiry
  times, family sets and the index for replay detection, refines this machine.
\<close>

section \<open>The abstract machine\<close>

record TokenSpec =
  sp_owner :: "string \<rightharpoonup> string"
  sp_current :: "string \<rightharpoonup> string"

datatype outcome = Rotated string | ReplayDetected | Refused

definition spec_use :: "string \<Rightarrow> string \<Rightarrow> TokenSpec \<Rightarrow> outcome \<times> TokenSpec" where
  "spec_use t new sp =
     (case sp_owner sp t of
        None \<Rightarrow> (Refused, sp)
      | Some f \<Rightarrow>
     (case sp_current sp f of
        None \<Rightarrow> (Refused, sp)
      | Some c \<Rightarrow>
          if c = t then (Rotated new, sp\<lparr>sp_owner := (sp_owner sp)(new \<mapsto> f), sp_current := (sp_current sp)(f \<mapsto> new)\<rparr>)
          else (ReplayDetected, sp\<lparr>sp_current := (sp_current sp)(f := None)\<rparr>)))"

definition outcome_of :: "auth_error + TokenPair \<Rightarrow> outcome" where
  "outcome_of r =
     (case r of
        Inr pair \<Rightarrow> Rotated (tp_refreshToken pair)
      | Inl e \<Rightarrow> (case e of TokenReplayDetectedError n \<Rightarrow> ReplayDetected | _ \<Rightarrow> Refused))"

section \<open>The representation\<close>

text \<open>
  \<open>represents cfg jwt H sp st\<close>: the state \<open>st\<close> stands for \<open>sp\<close> up to the time \<open>H\<close>, when all sessions that have not ended
  still have a second to live.
\<close>

definition current_ok :: "nat \<Rightarrow> AuthState \<Rightarrow> string \<Rightarrow> string \<Rightarrow> bool" where
  "current_ok H st f c \<longleftrightarrow>
     (\<exists>p e s u xs e'. dict_get (as_refresh st) c = Some (p, e) \<and> live_at H e \<and> rp_familyId p = f \<and>
        find (\<lambda>s. sn_id s = rp_sessionId p) (as_sessions st) = Some s \<and> sn_family_id s = f \<and> sn_revoked_at s = None \<and>
        H + 1000 \<le> sn_expires_at s \<and> find (\<lambda>u. us_id u = rp_userId p) (as_users st) = Some u \<and>
        dict_get (as_refreshFamily st) f = Some (xs, e') \<and> live_at H e' \<and> c \<in> set xs)"

definition indexed :: "nat \<Rightarrow> AuthState \<Rightarrow> string \<Rightarrow> string \<Rightarrow> bool" where
  "indexed H st t f \<longleftrightarrow> (\<exists>e. dict_get (as_tokenFamily st) t = Some (f, e) \<and> live_at H e)"

definition represents :: "nat \<Rightarrow> TokenSpec \<Rightarrow> AuthState \<Rightarrow> bool" where
  "represents H sp st \<longleftrightarrow>
     (\<forall>f c. sp_current sp f = Some c \<longrightarrow> sp_owner sp c = Some f \<and> current_ok H st f c) \<and>
     (\<forall>t f. sp_owner sp t = Some f \<longrightarrow> f \<noteq> [] \<and> (if sp_current sp f = None
        then (\<forall>s \<in> set (as_sessions st). sn_family_id s = f \<longrightarrow> sn_revoked_at s \<noteq> None) else indexed H st t f)) \<and>
     (\<forall>t p e. dict_get (as_refresh st) t = Some (p, e) \<longrightarrow> sp_current sp (rp_familyId p) = Some t) \<and>
     (\<forall>t f e. dict_get (as_tokenFamily st) t = Some (f, e) \<longrightarrow> sp_owner sp t = Some f) \<and>
     (\<forall>f xs e. dict_get (as_refreshFamily st) f = Some (xs, e) \<longrightarrow> (\<forall>x \<in> set xs. sp_owner sp x = Some f))"

definition issuing_works :: "AuthEnv \<Rightarrow> Jwt \<Rightarrow> AuthState \<Rightarrow> bool" where
  "issuing_works cfg jwt st \<longleftrightarrow>
     (\<forall>u \<in> set (as_users st). \<forall>now jti. \<exists>token. issueAccessToken cfg jwt now jti (user_for_token u) = Inr token)"

section \<open>Sets and sessions\<close>

lemma dict_sadd_after_srem:
  assumes "dict_get s f = Some (xs, e)" "live_at now e" "0 < secs"
  shows "\<exists>ys. dict_get (store_expire now (store_sadd now (store_srem now s f t) f new) f secs) f = Some (ys, Some (now + secs * 1000)) \<and>
           set ys = insert new (set xs - {t})"
proof -
  have get: "store_get now s f = Some xs" using assms by (simp add: store_get_def)
  show ?thesis
  proof (cases "removeAll t xs = []")
    case True
    moreover have "set xs - {t} = {}" using True set_removeAll [of t xs] by simp
    ultimately show ?thesis using get by (auto simp: store_srem_def store_sadd_def store_expire_def store_simps)
  next
    case False
    moreover have "store_expiry s f = e" using assms(1) by (simp add: store_expiry_def)
    ultimately show ?thesis
      using get assms(2) by (simp add: store_srem_def store_sadd_def store_expire_def store_simps store_expiry_def)
  qed
qed

lemma dict_family_other:
  "g \<noteq> f \<Longrightarrow> dict_get (store_expire now (store_sadd now (store_srem now s f t) f new) f secs) g = dict_get s g"
  by (simp add: store_srem_def store_sadd_def store_expire_def split: option.split)

lemma find_same_id:
  "(\<And>s. sn_id (g s) = sn_id s) \<Longrightarrow> find (\<lambda>s. sn_id s = i) (map g ss) = map_option g (find (\<lambda>s. sn_id s = i) ss)"
  by (induction ss) auto

lemma represents_current: "represents H sp st \<Longrightarrow> sp_current sp f = Some c \<Longrightarrow> sp_owner sp c = Some f \<and> current_ok H st f c"
  by (simp add: represents_def)

lemma represents_stores:
  assumes "represents H sp st"
  shows "dict_get (as_refresh st) t = Some (p, e) \<Longrightarrow> sp_current sp (rp_familyId p) = Some t"
    and "dict_get (as_tokenFamily st) t = Some (f, e2) \<Longrightarrow> sp_owner sp t = Some f"
    and "dict_get (as_refreshFamily st) f = Some (xs, e3) \<Longrightarrow> x \<in> set xs \<Longrightarrow> sp_owner sp x = Some f"
  using assms unfolding represents_def by blast+

lemma represents_owner:
  assumes "represents H sp st" "sp_owner sp t = Some f"
  shows "f \<noteq> []" "sp_current sp f = None \<Longrightarrow> s \<in> set (as_sessions st) \<Longrightarrow> sn_family_id s = f \<Longrightarrow> sn_revoked_at s \<noteq> None"
    "sp_current sp f \<noteq> None \<Longrightarrow> indexed H st t f"
proof -
  have "f \<noteq> [] \<and> (if sp_current sp f = None
        then (\<forall>s \<in> set (as_sessions st). sn_family_id s = f \<longrightarrow> sn_revoked_at s \<noteq> None) else indexed H st t f)"
    using assms unfolding represents_def by blast
  then show "f \<noteq> []" "sp_current sp f = None \<Longrightarrow> s \<in> set (as_sessions st) \<Longrightarrow> sn_family_id s = f \<Longrightarrow> sn_revoked_at s \<noteq> None"
    "sp_current sp f \<noteq> None \<Longrightarrow> indexed H st t f"
    by (auto split: if_splits)
qed

text \<open>A token that is not current is not in the store.\<close>

lemma represents_absent:
  assumes "represents H sp st" "\<And>f. sp_owner sp t = Some f \<Longrightarrow> sp_current sp f \<noteq> Some t"
  shows "dict_get (as_refresh st) t = None"
proof (rule ccontr)
  assume "dict_get (as_refresh st) t \<noteq> None"
  then obtain p e where "dict_get (as_refresh st) t = Some (p, e)" by (cases "dict_get (as_refresh st) t") auto
  then have "sp_current sp (rp_familyId p) = Some t" by (rule represents_stores(1) [OF assms(1)])
  with assms represents_current show False by blast
qed

section \<open>Rotation\<close>

text \<open>What the store looks like after the token of a session was rotated.\<close>

lemma rotate_current:
  assumes "represents H sp st" "sp_current sp f = Some t" "now \<le> H" "H < now + FAMILY_TTL_SECONDS * 1000" "issuing_works cfg jwt st"
    and expiry: "getJwtExpirySeconds cfg = Inr secs"
  obtains p e s pair where
    "dict_get (as_refresh st) t = Some (p, e)" "rp_familyId p = f"
    "find (\<lambda>s. sn_id s = rp_sessionId p) (as_sessions st) = Some s"
    "rotateRefreshToken cfg jwt now (jti, new, aj) t st =
       (Inr pair, snd (rotate_write now p jti new t ((sn_expires_at s - now) div 1000)
          (rotate_commit now (rp_sessionId p) jti (st\<lparr>as_refresh := map_delete (as_refresh st) t\<rparr>))))"
    "tp_refreshToken pair = new" "H < now + (sn_expires_at s - now) div 1000 * 1000" "0 < (sn_expires_at s - now) div 1000"
proof -
  from represents_current [OF assms(1,2)] obtain p e s u where
    p: "dict_get (as_refresh st) t = Some (p, e)" "live_at H e" "rp_familyId p = f" and
    s: "find (\<lambda>s. sn_id s = rp_sessionId p) (as_sessions st) = Some s" "sn_revoked_at s = None" "H + 1000 \<le> sn_expires_at s" and
    u: "find (\<lambda>u. us_id u = rp_userId p) (as_users st) = Some u"
    unfolding current_ok_def by blast
  let ?n = "(sn_expires_at s - now) div 1000" and ?st1 = "st\<lparr>as_refresh := map_delete (as_refresh st) t\<rparr>"
  have n: "0 < ?n" "H < now + ?n * 1000"
    using assms(3) s(3) mult_div_mod_eq [of 1000 "sn_expires_at s - now"] mod_less_divisor [of 1000 "sn_expires_at s - now"] by linarith+
  have "u \<in> set (as_users st)" using u by (auto simp: find_Some_iff)
  with assms(5) obtain access where access: "issueAccessToken cfg jwt now aj (user_for_token u) = Inr access"
    unfolding issuing_works_def by blast
  have taken: "rotate_consume now t st = (Some p, ?st1)"
    using p assms(3) by (auto simp: rotate_consume_def store_getdel_def store_get_def intro: live_at_mono)
  have checked: "rotate_check now (rp_sessionId p) ?st1 = Inr ?n"
    using s assms(3) by (simp add: rotate_check_def)
  let ?st2 = "rotate_commit now (rp_sessionId p) jti ?st1"
  have written: "rotate_write now p jti new t ?n ?st2 = (Inr (), snd (rotate_write now p jti new t ?n ?st2))"
    using n by (simp add: rotate_write_def Let_def)
  have "as_users (snd (rotate_write now p jti new t ?n ?st2)) = as_users st"
    by (simp add: rotate_write_def Let_def rotate_commit_def)
  then have issued: "rotate_issue cfg jwt now (rp_userId p) aj new (snd (rotate_write now p jti new t ?n ?st2)) =
      Inr \<lparr>tp_accessToken = access, tp_refreshToken = new, tp_expiresIn = secs\<rparr>"
    using u access expiry by (simp add: rotate_issue_def)
  have "rotateRefreshToken cfg jwt now (jti, new, aj) t st =
      (Inr \<lparr>tp_accessToken = access, tp_refreshToken = new, tp_expiresIn = secs\<rparr>, snd (rotate_write now p jti new t ?n ?st2))"
    unfolding rotateRefreshToken_def
    by (simp only: prod.case taken checked option.case sum.case Let_def) (subst written, simp only: prod.case sum.case issued)
  moreover have "tp_refreshToken \<lparr>tp_accessToken = access, tp_refreshToken = new, tp_expiresIn = secs\<rparr> = new" by simp
  ultimately show thesis using p s n by (intro that [of p e s]) assumption+
qed

text \<open>What a change of the sessions keeps for a family.\<close>

definition keeps_family :: "string \<Rightarrow> (SessionRow \<Rightarrow> SessionRow) \<Rightarrow> bool" where
  "keeps_family f h \<longleftrightarrow>
     (\<forall>s. sn_id (h s) = sn_id s \<and> sn_family_id (h s) = sn_family_id s \<and> sn_expires_at (h s) = sn_expires_at s \<and>
          (sn_family_id s = f \<longrightarrow> sn_revoked_at (h s) = sn_revoked_at s))"

lemma current_ok_kept:
  assumes "current_ok H st f c" "as_sessions st' = map h (as_sessions st)" "keeps_family f h" "as_users st' = as_users st"
    and "dict_get (as_refresh st') c = dict_get (as_refresh st) c" "dict_get (as_refreshFamily st') f = dict_get (as_refreshFamily st) f"
  shows "current_ok H st' f c"
proof -
  from assms(1) obtain p e s u xs e' where
    *: "dict_get (as_refresh st) c = Some (p, e)" "live_at H e" "rp_familyId p = f"
    "find (\<lambda>s. sn_id s = rp_sessionId p) (as_sessions st) = Some s" "sn_family_id s = f" "sn_revoked_at s = None"
    "H + 1000 \<le> sn_expires_at s" "find (\<lambda>u. us_id u = rp_userId p) (as_users st) = Some u"
    "dict_get (as_refreshFamily st) f = Some (xs, e')" "live_at H e'" "c \<in> set xs"
    unfolding current_ok_def by blast
  have "find (\<lambda>s. sn_id s = rp_sessionId p) (as_sessions st') = Some (h s)"
    using * assms(2,3) by (simp add: keeps_family_def find_same_id)
  then show ?thesis
    using * assms(3-6) unfolding current_ok_def keeps_family_def
    by (intro exI [of _ p] exI [of _ e] exI [of _ "h s"] exI [of _ u] exI [of _ xs] exI [of _ e']) simp
qed

lemma commit_map: "as_sessions (rotate_commit now i j st) = map (\<lambda>s. if sn_id s = i then s\<lparr>sn_refresh_token_jti := j, sn_last_used_at := now\<rparr> else s) (as_sessions st)"
  by (simp add: rotate_commit_def)

lemma commit_keeps: "keeps_family f (\<lambda>s. if sn_id s = i then s\<lparr>sn_refresh_token_jti := j, sn_last_used_at := now\<rparr> else s)"
  by (simp add: keeps_family_def)

lemma represents_rotated:
  assumes rep: "represents H sp st" and cur: "sp_current sp f = Some t" and fresh: "sp_owner sp new = None"
    and p: "dict_get (as_refresh st) t = Some (p, e)" "rp_familyId p = f"
    and refresh: "\<And>x. dict_get (as_refresh st') x = (if x = new then Some (p\<lparr>rp_jti := jti\<rparr>, Some until) else if x = t then None else dict_get (as_refresh st) x)"
    and index: "\<And>x. dict_get (as_tokenFamily st') x = (if x = new then Some (f, Some until) else dict_get (as_tokenFamily st) x)"
    and sessions: "as_sessions st' = map h (as_sessions st)" "\<And>g. keeps_family g h" and users: "as_users st' = as_users st"
    and family: "\<And>xs e. dict_get (as_refreshFamily st) f = Some (xs, e) \<Longrightarrow> live_at H e \<Longrightarrow>
        \<exists>ys. dict_get (as_refreshFamily st') f = Some (ys, Some ends) \<and> set ys = insert new (set xs - {t})"
      "\<And>g. g \<noteq> f \<Longrightarrow> dict_get (as_refreshFamily st') g = dict_get (as_refreshFamily st) g"
    and until: "H < until" "H < ends"
  shows "represents H (sp\<lparr>sp_owner := (sp_owner sp)(new \<mapsto> f), sp_current := (sp_current sp)(f \<mapsto> new)\<rparr>) st'"
proof -
  have owner: "sp_owner sp t = Some f" and ok: "current_ok H st f t" using represents_current [OF rep cur] by auto
  then have new: "new \<noteq> t" using fresh by auto
  have named: "x \<noteq> []" if "sp_owner sp y = Some x" for x y using represents_owner(1) [OF rep that] .
  from ok p obtain s u xs e' where
    s: "find (\<lambda>s. sn_id s = rp_sessionId p) (as_sessions st) = Some s" "sn_family_id s = f" "sn_revoked_at s = None"
      "H + 1000 \<le> sn_expires_at s" and u: "find (\<lambda>u. us_id u = rp_userId p) (as_users st) = Some u" and
    xs: "dict_get (as_refreshFamily st) f = Some (xs, e')" "live_at H e'" "t \<in> set xs"
    unfolding current_ok_def by auto
  from family(1) [OF xs(1,2)] obtain ys where ys: "dict_get (as_refreshFamily st') f = Some (ys, Some ends)" "set ys = insert new (set xs - {t})"
    by blast
  have "find (\<lambda>s. sn_id s = rp_sessionId p) (as_sessions st') = Some (h s)"
    using s(1) sessions by (simp add: keeps_family_def find_same_id)
  then have new_ok: "current_ok H st' f new"
    unfolding current_ok_def using s u ys until sessions(2) users p(2)
    by (intro exI [of _ "p\<lparr>rp_jti := jti\<rparr>"] exI [of _ "Some until"] exI [of _ "h s"] exI [of _ u] exI [of _ ys] exI [of _ "Some ends"])
      (simp add: refresh keeps_family_def)
  have other_ok: "sp_owner sp c = Some g \<and> c \<noteq> new \<and> current_ok H st' g c" if "sp_current sp g = Some c" "g \<noteq> f" for g c
  proof -
    from represents_current [OF rep that(1)] have c: "sp_owner sp c = Some g" "current_ok H st g c" by auto
    with fresh owner that(2) have "c \<noteq> new" "c \<noteq> t" by auto
    with c show ?thesis using current_ok_kept [OF c(2) sessions(1) sessions(2) users] refresh family(2) [OF that(2)] by auto
  qed
  have revoked: "(\<forall>s \<in> set (as_sessions st'). sn_family_id s = g \<longrightarrow> sn_revoked_at s \<noteq> None) \<longleftrightarrow>
      (\<forall>s \<in> set (as_sessions st). sn_family_id s = g \<longrightarrow> sn_revoked_at s \<noteq> None)" for g
    using sessions by (auto simp: keeps_family_def)
  have indexed': "indexed H st' x g" if "indexed H st x g" "x \<noteq> new" for x g
    using that by (auto simp: indexed_def index)
  have indexed_new: "indexed H st' new f" using until by (auto simp: indexed_def index)
  have members: "\<forall>x \<in> set zs. ((sp_owner sp)(new \<mapsto> f)) x = Some g" if "dict_get (as_refreshFamily st') g = Some (zs, e2)" for g zs e2
  proof (cases "g = f")
    case True
    then have "\<forall>x \<in> set xs. sp_owner sp x = Some f" using represents_stores(3) [OF rep xs(1)] by blast
    then show ?thesis using that True ys by auto
  next
    case False
    then have "\<forall>x \<in> set zs. sp_owner sp x = Some g" using that family(2) [OF False] represents_stores(3) [OF rep, of g zs e2] by auto
    then show ?thesis using fresh by auto
  qed
  show ?thesis
    unfolding represents_def
  proof (intro conjI allI impI, goal_cases)
    case (1 g c) then show ?case using other_ok new_ok by (auto split: if_splits)
  next
    case (2 g c) then show ?case using other_ok new_ok by (auto split: if_splits)
  next
    case (3 x g) then show ?case using named owner by (auto split: if_splits)
  next
    case (4 x g)
    show ?case
    proof (cases "x = new")
      case True
      with 4 indexed_new show ?thesis by simp
    next
      case False
      with 4 have "sp_owner sp x = Some g" by simp
      from represents_owner(2,3) [OF rep this] False cur indexed' revoked show ?thesis by (cases "sp_current sp g") auto
    qed
  next
    case (5 x q e2)
    show ?case
    proof (cases "x = new")
      case True
      with 5 p(2) show ?thesis by (auto simp: refresh)
    next
      case False
      with 5 have x: "dict_get (as_refresh st) x = Some (q, e2)" "x \<noteq> t" by (auto simp: refresh split: if_splits)
      with represents_stores(1) [OF rep x(1)] cur show ?thesis by auto
    qed
  next
    case (6 x g e2)
    then show ?case using represents_stores(2) [OF rep, of x g e2] by (auto simp: index split: if_splits)
  next
    case (7 g zs e2)
    then show ?case using members by simp
  qed
qed


section \<open>Replay\<close>

text \<open>A token that is not current: nothing is taken; a known family is revoked in the database and cleaned in Redis.\<close>

lemma replay_represents:
  fixes f :: string
  assumes rep: "represents H sp st" and now: "now \<le> H"
  defines "st2 \<equiv> replay_clean now f (snd (replay_revoke now f st))"
  shows "represents H (sp\<lparr>sp_current := (sp_current sp)(f := None)\<rparr>) st2"
proof -
  define h :: "SessionRow \<Rightarrow> SessionRow" where "h = (\<lambda>s. if sn_family_id s = f \<and> sn_revoked_at s = None
      then s\<lparr>sn_revoked_at := Some now, sn_revoked_reason := Some ''token_replay_detected''\<rparr> else s)"
  define xs where "xs = store_members now (as_refreshFamily st) f"
  have st2: "as_sessions st2 = map h (as_sessions st)" "as_users st2 = as_users st"
    "\<And>x. dict_get (as_refresh st2) x = (if x \<in> set xs then None else dict_get (as_refresh st) x)"
    "\<And>x. dict_get (as_tokenFamily st2) x = (if x \<in> set xs then None else dict_get (as_tokenFamily st) x)"
    "\<And>g. dict_get (as_refreshFamily st2) g = (if g = f then None else dict_get (as_refreshFamily st) g)"
    by (simp_all add: st2_def replay_clean_def replay_revoke_def revoke_sessions_def Let_def dict_get_del_all xs_def h_def)
  have xs: "\<forall>x \<in> set xs. sp_owner sp x = Some f"
    using represents_stores(3) [OF rep, of f] by (auto simp: xs_def store_members_def store_get_def split: option.splits if_splits)
  have named: "x \<noteq> []" if "sp_owner sp y = Some x" for x y using represents_owner(1) [OF rep that] .
  have keeps: "keeps_family g h" if "g \<noteq> f" for g using that by (auto simp: keeps_family_def h_def)
  have other_ok: "sp_owner sp c = Some g \<and> current_ok H st2 g c" if "sp_current sp g = Some c" "g \<noteq> f" for g c
  proof -
    from represents_current [OF rep that(1)] have c: "sp_owner sp c = Some g" "current_ok H st g c" by auto
    with xs that(2) have "c \<notin> set xs" by auto
    with c show ?thesis using current_ok_kept [OF c(2) st2(1) keeps [OF that(2)] st2(2)] st2(3,5) that(2) by simp
  qed
  have gone: "\<forall>s \<in> set (as_sessions st2). sn_family_id s = g \<longrightarrow> sn_revoked_at s \<noteq> None"
    if "g = f \<or> (\<forall>s \<in> set (as_sessions st). sn_family_id s = g \<longrightarrow> sn_revoked_at s \<noteq> None)" for g
    using that by (auto simp: st2 h_def)
  have indexed: "indexed H st2 x g" if "indexed H st x g" "g \<noteq> f" "sp_owner sp x = Some g" for x g
    using that xs by (auto simp: indexed_def st2)
  have current_in: "c \<in> set xs" if "sp_current sp f = Some c" for c
  proof -
    from represents_current [OF rep that(1)] obtain ys e' where "dict_get (as_refreshFamily st) f = Some (ys, e')" "live_at H e'" "c \<in> set ys"
      unfolding current_ok_def by blast
    with now show ?thesis by (auto simp: xs_def store_members_def store_get_def intro: live_at_mono)
  qed
  show ?thesis
    unfolding represents_def
  proof (intro conjI allI impI, goal_cases)
    case (1 g c) then show ?case using other_ok by (auto split: if_splits)
  next
    case (2 g c) then show ?case using other_ok by (auto split: if_splits)
  next
    case (3 x g) then show ?case using named by simp
  next
    case (4 x g)
    then have owner: "sp_owner sp x = Some g" by simp
    from represents_owner(2,3) [OF rep this] gone [of g] indexed [of x g] owner show ?case
      by (cases "sp_current sp g") auto
  next
    case (5 x q e2)
    then have x: "x \<notin> set xs" "dict_get (as_refresh st) x = Some (q, e2)" by (auto simp: st2(3) split: if_splits)
    from represents_stores(1) [OF rep x(2)] have "sp_current sp (rp_familyId q) = Some x" .
    then show ?case using current_in x(1) by auto
  next
    case (6 x g e2)
    then show ?case using represents_stores(2) [OF rep, of x g e2] by (auto simp: st2(4) split: if_splits)
  next
    case (7 g zs e2)
    then show ?case using represents_stores(3) [OF rep, of g zs e2] by (auto simp: st2(5) split: if_splits)
  qed
qed

lemma replay_count:
  assumes "represents H sp st" "sp_owner sp t = Some f"
  shows "0 < fst (replay_revoke now f st) \<longleftrightarrow> sp_current sp f \<noteq> None"
proof (cases "sp_current sp f")
  case None
  from represents_owner(2) [OF assms None] have "filter (\<lambda>s. sn_family_id s = f \<and> sn_revoked_at s = None) (as_sessions st) = []"
    by (simp add: filter_empty_conv)
  with None show ?thesis by (simp add: replay_revoke_def Let_def)
next
  case (Some c)
  from represents_current [OF assms(1) this] have "\<exists>s \<in> set (as_sessions st). sn_family_id s = f \<and> sn_revoked_at s = None"
    unfolding current_ok_def find_Some_iff by (metis nth_mem)
  then obtain s where "s \<in> set (filter (\<lambda>s. sn_family_id s = f \<and> sn_revoked_at s = None) (as_sessions st))" by auto
  then have "0 < length (filter (\<lambda>s. sn_family_id s = f \<and> sn_revoked_at s = None) (as_sessions st))" by (metis length_pos_if_in_set)
  then show ?thesis using Some by (simp add: replay_revoke_def Let_def)
qed

section \<open>The refinement\<close>

lemma use_refines:
  assumes rep: "represents H sp st" and now: "now \<le> H" "H < now + FAMILY_TTL_SECONDS * 1000" and works: "issuing_works cfg jwt st"
    and expiry: "getJwtExpirySeconds cfg = Inr secs" and fresh: "sp_owner sp new = None"
    and conc: "rotateRefreshToken cfg jwt now (jti, new, aj) t st = (r, st')" and abst: "spec_use t new sp = (out, sp')"
  shows "outcome_of r = out \<and> represents H sp' st' \<and> issuing_works cfg jwt st'"
proof (cases "\<exists>f. sp_owner sp t = Some f \<and> sp_current sp f = Some t")
  case True
  then obtain f where f: "sp_owner sp t = Some f" "sp_current sp f = Some t" by blast
  obtain p e s pair where
    p: "dict_get (as_refresh st) t = Some (p, e)" "rp_familyId p = f" and
    s: "find (\<lambda>s. sn_id s = rp_sessionId p) (as_sessions st) = Some s" and
    rot: "rotateRefreshToken cfg jwt now (jti, new, aj) t st =
       (Inr pair, snd (rotate_write now p jti new t ((sn_expires_at s - now) div 1000)
          (rotate_commit now (rp_sessionId p) jti (st\<lparr>as_refresh := map_delete (as_refresh st) t\<rparr>))))"
    "tp_refreshToken pair = new" "H < now + (sn_expires_at s - now) div 1000 * 1000" "0 < (sn_expires_at s - now) div 1000"
    by (rule rotate_current [OF rep f(2) now works expiry, of jti new aj])
  define n where "n = (sn_expires_at s - now) div 1000"
  from rot(1) conc have r: "r = Inr pair" and st': "st' = snd (rotate_write now p jti new t n
          (rotate_commit now (rp_sessionId p) jti (st\<lparr>as_refresh := map_delete (as_refresh st) t\<rparr>)))"
    by (simp_all add: n_def)
  have users: "as_users st' = as_users st" by (simp add: st' rotate_write_def rotate_commit_def Let_def)
  have "represents H (sp\<lparr>sp_owner := (sp_owner sp)(new \<mapsto> f), sp_current := (sp_current sp)(f \<mapsto> new)\<rparr>) st'"
  proof (rule represents_rotated [OF rep f(2) fresh p, where jti = jti and until = "now + n * 1000" and ends = "now + FAMILY_TTL_SECONDS * 1000"])
    show "dict_get (as_refresh st') x = (if x = new then Some (p\<lparr>rp_jti := jti\<rparr>, Some (now + n * 1000)) else if x = t then None
        else dict_get (as_refresh st) x)" for x
      using rot(4) by (simp add: st' rotate_write_def rotate_commit_def store_set_ex_def Let_def n_def)
    show "dict_get (as_tokenFamily st') x = (if x = new then Some (f, Some (now + n * 1000)) else dict_get (as_tokenFamily st) x)" for x
      using rot(4) p(2) by (simp add: st' rotate_write_def rotate_commit_def store_set_ex_def Let_def n_def)
    show "as_sessions st' = map (\<lambda>s. if sn_id s = rp_sessionId p then s\<lparr>sn_refresh_token_jti := jti, sn_last_used_at := now\<rparr> else s) (as_sessions st)"
      by (simp add: st' rotate_write_def rotate_commit_def Let_def)
    show "\<exists>ys. dict_get (as_refreshFamily st') f = Some (ys, Some (now + FAMILY_TTL_SECONDS * 1000)) \<and> set ys = insert new (set xs - {t})"
      if "dict_get (as_refreshFamily st) f = Some (xs, e)" "live_at H e" for xs e
      using dict_sadd_after_srem [OF that(1) live_at_mono [OF that(2) now(1)], of FAMILY_TTL_SECONDS t new] p(2)
      by (simp add: st' rotate_write_def rotate_commit_def Let_def FAMILY_TTL_SECONDS_def)
    show "dict_get (as_refreshFamily st') g = dict_get (as_refreshFamily st) g" if "g \<noteq> f" for g
      using dict_family_other [OF that] p(2) by (simp add: st' rotate_write_def rotate_commit_def Let_def)
  qed (use commit_keeps rot(3) now(2) users in \<open>auto simp: n_def\<close>)
  with abst f r rot(2) works users show ?thesis by (auto simp: spec_use_def outcome_of_def issuing_works_def)
next
  case False
  then have "dict_get (as_refresh st) t = None" by (intro represents_absent [OF rep]) auto
  then have taken: "rotate_consume now t st = (None, st)"
    by (simp add: rotate_consume_def store_getdel_def store_get_def)
  show ?thesis
  proof (cases "store_get now (as_tokenFamily st) t")
    case None
    have "sp_current sp g = None" if "sp_owner sp t = Some g" for g
    proof (rule ccontr)
      assume "sp_current sp g \<noteq> None"
      with represents_owner(3) [OF rep that] obtain e where "dict_get (as_tokenFamily st) t = Some (g, e)" "live_at H e"
        by (auto simp: indexed_def)
      with None live_at_mono [OF _ now(1), of e] show False by (simp add: store_get_def)
    qed
    then have "out = Refused" "sp' = sp" using abst by (auto simp: spec_use_def split: option.splits if_splits)
    moreover have "r = Inl UnauthorizedError" "st' = st"
      using conc taken None by (simp_all add: rotateRefreshToken_def detectAndHandleReplay_def)
    ultimately show ?thesis using rep works by (simp add: outcome_of_def)
  next
    case (Some f)
    then obtain e where "dict_get (as_tokenFamily st) t = Some (f, e)" by (auto simp: store_get_Some)
    then have owner: "sp_owner sp t = Some f" by (rule represents_stores(2) [OF rep])
    have "f \<noteq> []" by (rule represents_owner(1) [OF rep owner])
    obtain n st1 where rv: "replay_revoke now f st = (n, st1)" by fastforce
    have n: "0 < n \<longleftrightarrow> sp_current sp f \<noteq> None" using replay_count [OF rep owner, of now] rv by simp
    have conc': "r = (if 0 < n then Inl (TokenReplayDetectedError n) else Inl UnauthorizedError)" "st' = replay_clean now f st1"
      using conc taken Some \<open>f \<noteq> []\<close> rv by (auto simp: rotateRefreshToken_def detectAndHandleReplay_def split: if_splits)
    have rep': "represents H (sp\<lparr>sp_current := (sp_current sp)(f := None)\<rparr>) st'"
      using replay_represents [OF rep now(1), of f] rv conc'(2) by simp
    have "as_users st' = as_users st" using rv conc'(2) by (auto simp: replay_clean_def replay_revoke_def revoke_sessions_def Let_def)
    then have works': "issuing_works cfg jwt st'" using works by (simp add: issuing_works_def)
    show ?thesis
    proof (cases "sp_current sp f")
      case None
      then have "sp\<lparr>sp_current := (sp_current sp)(f := None)\<rparr> = sp" by (simp add: fun_upd_idem)
      with None abst owner rep' works' n conc'(1) show ?thesis by (auto simp: spec_use_def outcome_of_def)
    next
      case (Some c)
      with False owner have "c \<noteq> t" by auto
      with Some abst owner rep' works' n conc'(1) show ?thesis by (auto simp: spec_use_def outcome_of_def)
    qed
  qed
qed

text \<open>A request: its time, its random values and the token that is presented.\<close>

type_synonym Request = "nat \<times> (string \<times> string \<times> string) \<times> string"

primrec serve :: "AuthEnv \<Rightarrow> Jwt \<Rightarrow> AuthState \<Rightarrow> Request list \<Rightarrow> outcome list" where
  "serve cfg jwt st [] = []"
| "serve cfg jwt st (q # qs) =
     (case q of (now, rnd, t) \<Rightarrow> case rotateRefreshToken cfg jwt now rnd t st of (r, st') \<Rightarrow> outcome_of r # serve cfg jwt st' qs)"

primrec spec_serve :: "TokenSpec \<Rightarrow> Request list \<Rightarrow> outcome list" where
  "spec_serve sp [] = []"
| "spec_serve sp (q # qs) =
     (case q of (now, rnd, t) \<Rightarrow> case spec_use t (fst (snd rnd)) sp of (out, sp') \<Rightarrow> out # spec_serve sp' qs)"

definition new_tokens :: "Request list \<Rightarrow> string list" where
  "new_tokens qs = map (\<lambda>q. fst (snd (fst (snd q)))) qs"

lemma spec_use_owner: "spec_use t new sp = (out, sp') \<Longrightarrow> x \<noteq> new \<Longrightarrow> sp_owner sp x = None \<Longrightarrow> sp_owner sp' x = None"
  by (auto simp: spec_use_def split: option.splits if_splits)

text \<open>
  Property C10: a sequence of rotation requests is answered as by the abstract machine, each with its current token and
  nothing else: the current token of a family rotates it, any older one ends it with a replay report, and afterwards
  every token of the family is refused.  This holds for all requests up to a time at which the sessions still have a
  second to live and the family sets have not expired.
\<close>

theorem rotation_refines:
  assumes "represents H sp st" "issuing_works cfg jwt st" "getJwtExpirySeconds cfg = Inr secs"
    and "\<forall>(now, rnd, t) \<in> set qs. now \<le> H \<and> H < now + FAMILY_TTL_SECONDS * 1000"
    and "distinct (new_tokens qs)" "\<forall>x \<in> set (new_tokens qs). sp_owner sp x = None"
  shows "serve cfg jwt st qs = spec_serve sp qs"
  using assms
proof (induction qs arbitrary: sp st)
  case (Cons q qs)
  obtain now jti new aj t where q: "q = (now, (jti, new, aj), t)" by (metis prod.exhaust)
  obtain r st' where conc: "rotateRefreshToken cfg jwt now (jti, new, aj) t st = (r, st')" by fastforce
  obtain out sp' where abst: "spec_use t new sp = (out, sp')" by fastforce
  have fresh: "sp_owner sp new = None" "new \<notin> set (new_tokens qs)" "\<forall>x \<in> set (new_tokens qs). sp_owner sp x = None"
    using Cons.prems(5,6) by (auto simp: new_tokens_def q)
  have now: "now \<le> H" "H < now + FAMILY_TTL_SECONDS * 1000" using Cons.prems(4) by (simp_all add: q)
  have step: "outcome_of r = out \<and> represents H sp' st' \<and> issuing_works cfg jwt st'"
    by (rule use_refines [OF Cons.prems(1) now Cons.prems(2,3) fresh(1) conc abst])
  have times: "\<forall>(now, rnd, t) \<in> set qs. now \<le> H \<and> H < now + FAMILY_TTL_SECONDS * 1000"
    using Cons.prems(4) by simp
  have dist: "distinct (new_tokens qs)" using Cons.prems(5) by (simp add: new_tokens_def)
  have unowned: "\<forall>x \<in> set (new_tokens qs). sp_owner sp' x = None"
  proof
    fix x assume "x \<in> set (new_tokens qs)"
    then show "sp_owner sp' x = None" using fresh(2,3) by (intro spec_use_owner [OF abst]) auto
  qed
  from step have "represents H sp' st'" "issuing_works cfg jwt st'" by simp_all
  from Cons.IH [OF this Cons.prems(3) times dist unowned] have "serve cfg jwt st' qs = spec_serve sp' qs" .
  then show ?case using step by (simp add: q conc abst)
qed simp

section \<open>A concrete family\<close>

definition demo_spec :: TokenSpec where
  "demo_spec = \<lparr>sp_owner = [''a'' \<mapsto> ''f''], sp_current = [''f'' \<mapsto> ''a'']\<rparr>"

definition demo_requests :: "Request list" where
  "demo_requests = [(1000, (''j1'', ''b'', ''x1''), ''a''), (2000, (''j2'', ''c'', ''x2''), ''a''), (3000, (''j3'', ''d'', ''x3''), ''b'')]"

lemma demo_represents: "represents 50000 demo_spec demo_state"
  by (auto simp: represents_def demo_spec_def current_ok_def indexed_def demo_state_eq demo_session_def demo_user_def demo_payload_def
      empty_state_def split: if_splits)

lemma demo_issuing: "issuing_works demo_env demo_jwt demo_state"
  by (simp add: issuing_works_def demo_state_eq issueAccessToken_def demo_defs user_for_token_def getJwtAlgorithm_def resolveScopes_def
      PREDEFINED_ROLE_SCOPES_def signing_key_def required_def)

theorem rotation_refines_witness:
  "serve demo_env demo_jwt demo_state demo_requests = [Rotated ''b'', ReplayDetected, Refused]"
proof -
  have "getJwtExpirySeconds demo_env = Inr 900" by (simp add: getJwtExpirySeconds_def positive_setting_def demo_env_def)
  from rotation_refines [OF demo_represents demo_issuing this, of demo_requests]
  have "serve demo_env demo_jwt demo_state demo_requests = spec_serve demo_spec demo_requests"
    by (simp add: demo_requests_def new_tokens_def FAMILY_TTL_SECONDS_def demo_spec_def)
  then show ?thesis by (simp add: demo_requests_def spec_use_def demo_spec_def)
qed

section \<open>Where rotation goes wrong\<close>

text \<open>In the last second of a session the time to live rounds to zero: Redis refuses the new token, and the old one is gone.\<close>

lemma last_second_fails:
  "fst (rotateRefreshToken demo_env demo_jwt 99500 (''j1'', ''b'', ''x1'') ''a'' demo_state) = Inl RedisError"
  "dict_get (as_refresh (snd (rotateRefreshToken demo_env demo_jwt 99500 (''j1'', ''b'', ''x1'') ''a'' demo_state))) ''a'' = None"
  by (simp_all add: rotateRefreshToken_def rotate_consume_def rotate_check_def rotate_commit_def rotate_write_def demo_state_eq demo_defs Let_def)

text \<open>When a request fails after the token was consumed, its retry is taken for a replay and the family is revoked.\<close>

lemma retry_revokes:
  "fst (rotateRefreshToken demo_env demo_jwt 2000 (''j1'', ''b'', ''x1'') ''a'' (snd (rotate_consume 1000 ''a'' demo_state))) =
     Inl (TokenReplayDetectedError 1)"
  by (simp add: rotateRefreshToken_def rotate_consume_def detectAndHandleReplay_def replay_revoke_def replay_clean_def
      demo_state_eq demo_defs Let_def)

text \<open>
  Removing the only member deletes the user's set with its expiry, and adding the new token makes a set without
  one: after the first rotation the set of a user with one session never expires.
\<close>

lemma user_set_never_expires:
  "dict_get (as_userSessions (snd (rotateRefreshToken demo_env demo_jwt 1000 (''j1'', ''b'', ''x1'') ''a'' demo_state))) ''u'' = Some ([''b''], None)"
  by (simp add: rotateRefreshToken_def rotate_consume_def rotate_check_def rotate_commit_def rotate_write_def demo_state_eq demo_defs Let_def)

end
