(* ===== verification/AuthService.thy ===== *)
theory AuthService
  imports TokenService
begin

text \<open>
  Accounts, \<^verbatim>\<open>services/auth/src/services/auth-service.ts\<close> and \<^verbatim>\<open>password-service.ts\<close>: registration, login with lockout, log-out,
  password reset and change with a history, e-mail verification.  bcrypt and the signing of purpose tokens are the
  parameters \<open>Bcrypt\<close> and \<open>PurposeJwt\<close>; random values are arguments, collected in records.  The login is split where
  the code waits between reading the user row and writing it back.
\<close>

section \<open>Passwords\<close>

text \<open>bcrypt: the hash made by a call, and the comparison of a password with a hash.\<close>

record Bcrypt =
  bc_hash :: "string \<Rightarrow> string"
  bc_compare :: "string \<Rightarrow> string \<Rightarrow> bool"

definition MIN_BCRYPT_ROUNDS :: int where "MIN_BCRYPT_ROUNDS = 10"
definition DEFAULT_BCRYPT_ROUNDS :: int where "DEFAULT_BCRYPT_ROUNDS = 12"

definition resolveRounds :: "string option \<Rightarrow> auth_error + int" where
  "resolveRounds raw =
     (case raw of
        None \<Rightarrow> Inr DEFAULT_BCRYPT_ROUNDS
      | Some s \<Rightarrow> (case parse_int10 s of
                    None \<Rightarrow> Inl ConfigError
                  | Some n \<Rightarrow> if n < MIN_BCRYPT_ROUNDS then Inl ConfigError else Inr n))"

definition hash_password :: "Bcrypt \<Rightarrow> string \<Rightarrow> auth_error + string" where
  "hash_password bc password = (if password = [] then Inl EmptyPassword else Inr (bc_hash bc password))"

definition compare_password :: "Bcrypt \<Rightarrow> string \<Rightarrow> string \<Rightarrow> bool" where
  "compare_password bc password storedHash \<longleftrightarrow> password \<noteq> [] \<and> storedHash \<noteq> [] \<and> bc_compare bc password storedHash"

definition PASSWORD_HISTORY_DEPTH :: nat where "PASSWORD_HISTORY_DEPTH = 5"

section \<open>Configuration\<close>

definition at_least_one :: "int \<Rightarrow> string option \<Rightarrow> nat" where
  "at_least_one fallback raw =
     nat (case raw of None \<Rightarrow> fallback | Some s \<Rightarrow> (case parse_int10 s of None \<Rightarrow> fallback | Some n \<Rightarrow> if n \<ge> 1 then n else fallback))"

definition readLockoutMaxAttempts :: "AuthEnv \<Rightarrow> nat" where
  "readLockoutMaxAttempts cfg = at_least_one 5 (OP_LOCKOUT_MAX_ATTEMPTS cfg)"

definition readLockoutDurationMs :: "AuthEnv \<Rightarrow> nat" where
  "readLockoutDurationMs cfg = at_least_one 30 (OP_LOCKOUT_DURATION_MINUTES cfg) * 60 * 1000"

definition getPurposeTokenSecret :: "AuthEnv \<Rightarrow> auth_error + string" where
  "getPurposeTokenSecret cfg =
     (case required (OP_PURPOSE_TOKEN_SECRET cfg) of Inr s \<Rightarrow> Inr s | Inl e \<Rightarrow> required (OP_JWT_SECRET cfg))"

definition requireEmailVerification :: "AuthEnv \<Rightarrow> bool" where
  "requireEmailVerification cfg \<longleftrightarrow> OP_REQUIRE_EMAIL_VERIFICATION cfg = Some ''true''"

definition hasSmtp :: "AuthEnv \<Rightarrow> bool" where
  "hasSmtp cfg \<longleftrightarrow> OP_SMTP_HOST cfg \<noteq> None \<and> OP_SMTP_HOST cfg \<noteq> Some []"

definition is_dev :: "AuthEnv \<Rightarrow> bool" where
  "is_dev cfg \<longleftrightarrow> NODE_ENV cfg = Some ''development'' \<or> NODE_ENV cfg = Some ''test''"

section \<open>Purpose tokens\<close>

datatype PurposeResult = PurposeExpired | PurposeInvalid | PurposeClaims props

record PurposeJwt =
  pj_sign :: "string \<Rightarrow> props \<Rightarrow> string option"
  pj_verify :: "string \<Rightarrow> string \<Rightarrow> nat \<Rightarrow> PurposeResult"

definition purpose_claims :: "nat \<Rightarrow> nat \<Rightarrow> string \<Rightarrow> string \<Rightarrow> string \<Rightarrow> props" where
  "purpose_claims now lifetime userId purpose jti =
     [(''sub'', VStr userId), (''purpose'', VStr purpose), (''jti'', VStr jti),
      (''iat'', VNum (jint (int (now div 1000)))), (''exp'', VNum (jint (int (now div 1000 + lifetime))))]"

definition sign_purpose :: "AuthEnv \<Rightarrow> PurposeJwt \<Rightarrow> props \<Rightarrow> auth_error + string" where
  "sign_purpose cfg pj ps =
     (case getPurposeTokenSecret cfg of
        Inl e \<Rightarrow> Inl e
      | Inr key \<Rightarrow> (case pj_sign pj key ps of None \<Rightarrow> Inl CryptoError | Some t \<Rightarrow> Inr t))"

text \<open>
  The user and the token id of a purpose token.  A missing secret makes the verification throw, which counts as invalid; an
  empty claim, or one that is not text, counts as missing.
\<close>

definition verify_purpose :: "AuthEnv \<Rightarrow> PurposeJwt \<Rightarrow> nat \<Rightarrow> string \<Rightarrow> string \<Rightarrow> auth_error \<Rightarrow> auth_error \<Rightarrow> auth_error + string \<times> string" where
  "verify_purpose cfg pj now purpose token invalid expired =
     (case getPurposeTokenSecret cfg of
        Inl e \<Rightarrow> Inl invalid
      | Inr key \<Rightarrow>
     (case pj_verify pj key token now of
        PurposeExpired \<Rightarrow> Inl expired
      | PurposeInvalid \<Rightarrow> Inl invalid
      | PurposeClaims ps \<Rightarrow>
          if prop_get ps ''purpose'' \<noteq> VStr purpose then Inl invalid
          else (case (prop_get ps ''sub'', prop_get ps ''jti'') of
                  (VStr userId, VStr jti) \<Rightarrow> if userId = [] \<or> jti = [] then Inl invalid else Inr (userId, jti)
                | _ \<Rightarrow> Inl invalid)))"

section \<open>Shared statements\<close>

definition publish :: "string \<Rightarrow> string \<Rightarrow> AuthState \<Rightarrow> AuthState" where
  "publish eventType userId st = st\<lparr>as_events := as_events st @ [(eventType, userId)]\<rparr>"

definition find_user :: "string \<Rightarrow> string \<Rightarrow> AuthState \<Rightarrow> UserRow option" where
  "find_user tenantId email st =
     find (\<lambda>u. us_tenant_id u = tenantId \<and> js_toLowerCase (us_email u) = js_toLowerCase email) (as_users st)"

definition user_by_id :: "string \<Rightarrow> AuthState \<Rightarrow> UserRow option" where
  "user_by_id userId st = find (\<lambda>u. us_id u = userId) (as_users st)"

definition update_user :: "string \<Rightarrow> (UserRow \<Rightarrow> UserRow) \<Rightarrow> AuthState \<Rightarrow> AuthState" where
  "update_user userId f st = st\<lparr>as_users := map (\<lambda>u. if us_id u = userId then f u else u) (as_users st)\<rparr>"

definition revoke_user_sessions :: "nat \<Rightarrow> string \<Rightarrow> string \<Rightarrow> AuthState \<Rightarrow> AuthState" where
  "revoke_user_sessions now userId reason st =
     revoke_sessions (\<lambda>s. sn_user_id s = userId \<and> sn_revoked_at s = None) now reason st"

text \<open>All refresh tokens in the set of the user.\<close>

definition delete_user_tokens :: "nat \<Rightarrow> string \<Rightarrow> AuthState \<Rightarrow> AuthState" where
  "delete_user_tokens now userId st =
     (let tokenKeys = store_members now (as_userSessions st) userId
      in st\<lparr>as_refresh := store_del_all (as_refresh st) tokenKeys, as_tokenFamily := store_del_all (as_tokenFamily st) tokenKeys,
            as_userSessions := map_delete (as_userSessions st) userId\<rparr>)"

definition revoke_user_access :: "AuthEnv \<Rightarrow> nat \<Rightarrow> string \<Rightarrow> AuthState \<Rightarrow> (auth_error + unit) \<times> AuthState" where
  "revoke_user_access cfg now userId st =
     (case getJwtExpirySeconds cfg of
        Inl e \<Rightarrow> (Inl e, st)
      | Inr n \<Rightarrow> (Inr (), st\<lparr>as_revocation := store_set_ex now (as_revocation st) (''user:'' @ userId) ''1'' n\<rparr>))"

section \<open>Sessions\<close>

text \<open>Random values of a login: session, family, placeholder token id, access token id, refresh token and its id.\<close>

record Draw =
  dr_sessionId :: string
  dr_familyId :: string
  dr_placeholderJti :: string
  dr_accessJti :: string
  dr_token :: string
  dr_jti :: string

definition insert_session :: "nat \<Rightarrow> nat \<Rightarrow> Draw \<Rightarrow> string \<Rightarrow> string \<Rightarrow> AuthState \<Rightarrow> AuthState" where
  "insert_session now ttl d userId tenantId st =
     st\<lparr>as_sessions := as_sessions st @
         [\<lparr>sn_id = dr_sessionId d, sn_user_id = userId, sn_tenant_id = tenantId, sn_refresh_token_jti = dr_placeholderJti d,
           sn_family_id = dr_familyId d, sn_expires_at = now + ttl * 1000, sn_last_used_at = now, sn_revoked_at = None,
           sn_revoked_reason = None\<rparr>]\<rparr>"

definition set_session_jti :: "string \<Rightarrow> string \<Rightarrow> AuthState \<Rightarrow> AuthState" where
  "set_session_jti sessionId jti st =
     st\<lparr>as_sessions := map (\<lambda>s. if sn_id s = sessionId then s\<lparr>sn_refresh_token_jti := jti\<rparr> else s) (as_sessions st)\<rparr>"

text \<open>The session row, both tokens, and the real token id in the row; the part that registration and login share.\<close>

definition open_session ::
  "AuthEnv \<Rightarrow> Jwt \<Rightarrow> nat \<Rightarrow> Draw \<Rightarrow> string \<Rightarrow> string \<Rightarrow> UserForToken \<Rightarrow> AuthState \<Rightarrow> (auth_error + TokenPair) \<times> AuthState" where
  "open_session cfg jwt now d rowTenant tokenTenant user st =
     (case getRefreshTokenTtlSeconds cfg of
        Inl e \<Rightarrow> (Inl e, st)
      | Inr ttl \<Rightarrow>
          let st1 = insert_session now ttl d (ut_id user) rowTenant st
          in (case issueAccessToken cfg jwt now (dr_accessJti d) user of
                Inl e \<Rightarrow> (Inl e, st1)
              | Inr access \<Rightarrow>
             (case issueRefreshToken cfg now (dr_token d) (dr_jti d) (ut_id user) tokenTenant (dr_sessionId d) (dr_familyId d) st1 of
                (Inl e, st2) \<Rightarrow> (Inl e, st2)
              | (Inr _, st2) \<Rightarrow>
                  let st3 = set_session_jti (dr_sessionId d) (dr_jti d) st2
                  in (case getJwtExpirySeconds cfg of
                        Inl e \<Rightarrow> (Inl e, st3)
                      | Inr n \<Rightarrow> (Inr \<lparr>tp_accessToken = access, tp_refreshToken = dr_token d, tp_expiresIn = n\<rparr>, st3)))))"

section \<open>Registration\<close>

record RegisterInput =
  ri_email :: string
  ri_password :: string
  ri_displayName :: "string option"
  ri_tenantId :: string

datatype RegisterResult = NeedsVerification string "string option" | Registered string TokenPair

definition new_user :: "string \<Rightarrow> RegisterInput \<Rightarrow> string \<Rightarrow> bool \<Rightarrow> UserRow" where
  "new_user userId data passwordHash verifyRequired =
     \<lparr>us_id = userId, us_tenant_id = ri_tenantId data, us_email = js_toLowerCase (ri_email data),
      us_password_hash = Some passwordHash, us_email_verified = (\<not> verifyRequired), us_is_active = True,
      us_display_name = ri_displayName data, us_roles = [''viewer''], us_failed_login_count = 0, us_locked_until = None,
      us_password_history = []\<rparr>"

definition register ::
  "AuthEnv \<Rightarrow> Jwt \<Rightarrow> PurposeJwt \<Rightarrow> Bcrypt \<Rightarrow> nat \<Rightarrow> string \<Rightarrow> string \<Rightarrow> Draw \<Rightarrow> RegisterInput \<Rightarrow> AuthState \<Rightarrow> (auth_error + RegisterResult) \<times> AuthState" where
  "register cfg jwt pj bc now userId verifyJti d data st =
     (if ri_tenantId data \<notin> set (as_tenants st) then (Inl TenantNotFoundError, st)
      else if find_user (ri_tenantId data) (ri_email data) st \<noteq> None then (Inl ConflictError, st)
      else case hash_password bc (ri_password data) of
             Inl e \<Rightarrow> (Inl e, st)
           | Inr passwordHash \<Rightarrow>
               let verifyRequired = requireEmailVerification cfg;
                   st1 = publish ''auth.user.created'' userId
                           (st\<lparr>as_users := as_users st @ [new_user userId data passwordHash verifyRequired]\<rparr>)
               in if verifyRequired
                  then (case sign_purpose cfg pj (purpose_claims now 86400 userId ''email-verify'' verifyJti) of
                          Inl e \<Rightarrow> (Inl e, st1)
                        | Inr verifyToken \<Rightarrow>
                            let st2 = st1\<lparr>as_verifyGate := store_set_ex now (as_verifyGate st1) verifyJti ''1'' 86400\<rparr>
                            in if \<not> hasSmtp cfg \<and> \<not> is_dev cfg then (Inl SmtpMissing, st2)
                               else (Inr (NeedsVerification userId (if hasSmtp cfg then None else Some verifyToken)), st2))
                  else (case open_session cfg jwt now d (ri_tenantId data) (ri_tenantId data)
                               \<lparr>ut_id = userId, ut_tenantId = ri_tenantId data, ut_roles = [''viewer''], ut_emailVerified = True,
                                ut_email = Some (ri_email data), ut_displayName = ri_displayName data\<rparr> st1 of
                          (Inl e, st2) \<Rightarrow> (Inl e, st2)
                        | (Inr pair, st2) \<Rightarrow> (Inr (Registered userId pair), st2)))"

section \<open>Login\<close>

record LoginInput =
  li_email :: string
  li_password :: string
  li_tenantId :: string

text \<open>What the row says: no comparison with the account's hash, a wrong password, or the right one.\<close>

datatype LoginDecision = NotCompared | WrongPassword UserRow | RightPassword UserRow

definition login_decide :: "Bcrypt \<Rightarrow> nat \<Rightarrow> LoginInput \<Rightarrow> AuthState \<Rightarrow> LoginDecision" where
  "login_decide bc now data st =
     (case find_user (li_tenantId data) (li_email data) st of
        None \<Rightarrow> NotCompared
      | Some user \<Rightarrow>
          if (case us_locked_until user of None \<Rightarrow> False | Some t \<Rightarrow> now < t) then NotCompared
          else if \<not> us_is_active user then NotCompared
          else (case us_password_hash user of
                  None \<Rightarrow> NotCompared
                | Some h \<Rightarrow> if compare_password bc (li_password data) h then RightPassword user else WrongPassword user))"

definition login_failed :: "AuthEnv \<Rightarrow> nat \<Rightarrow> UserRow \<Rightarrow> AuthState \<Rightarrow> AuthState" where
  "login_failed cfg now user st =
     (let newFailCount = us_failed_login_count user + 1;
          shouldLock = newFailCount \<ge> readLockoutMaxAttempts cfg;
          st1 = update_user (us_id user)
                  (\<lambda>u. u\<lparr>us_failed_login_count := newFailCount,
                         us_locked_until := (if shouldLock then Some (now + readLockoutDurationMs cfg) else None)\<rparr>) st;
          st2 = publish ''auth.user.login_failed'' (us_id user) st1
      in if shouldLock then publish ''auth.user.locked'' (us_id user) st2 else st2)"

definition login_succeeded :: "AuthEnv \<Rightarrow> Jwt \<Rightarrow> nat \<Rightarrow> Draw \<Rightarrow> LoginInput \<Rightarrow> UserRow \<Rightarrow> AuthState \<Rightarrow> (auth_error + TokenPair) \<times> AuthState" where
  "login_succeeded cfg jwt now d data user st =
     (let st1 = update_user (us_id user) (\<lambda>u. u\<lparr>us_failed_login_count := 0, us_locked_until := None\<rparr>) st
      in case open_session cfg jwt now d (li_tenantId data) (us_tenant_id user) (user_for_token user) st1 of
           (Inl e, st2) \<Rightarrow> (Inl e, st2)
         | (Inr pair, st2) \<Rightarrow> (Inr pair, publish ''auth.session.created'' (us_id user) st2))"

definition login :: "AuthEnv \<Rightarrow> Jwt \<Rightarrow> Bcrypt \<Rightarrow> nat \<Rightarrow> Draw \<Rightarrow> LoginInput \<Rightarrow> AuthState \<Rightarrow> (auth_error + TokenPair) \<times> AuthState" where
  "login cfg jwt bc now d data st =
     (case login_decide bc now data st of
        NotCompared \<Rightarrow> (Inl UnauthorizedError, st)
      | WrongPassword user \<Rightarrow> (Inl UnauthorizedError, login_failed cfg now user st)
      | RightPassword user \<Rightarrow> login_succeeded cfg jwt now d data user st)"

section \<open>Log-out\<close>

definition logout ::
  "AuthEnv \<Rightarrow> nat \<Rightarrow> string option \<Rightarrow> string \<Rightarrow> nat \<Rightarrow> string \<Rightarrow> bool \<Rightarrow> AuthState \<Rightarrow> (auth_error + unit) \<times> AuthState" where
  "logout cfg now refreshToken accessTokenJti accessTokenExp userId all st =
     (case revokeAccessToken cfg now accessTokenJti accessTokenExp st of
        (Inl e, st1) \<Rightarrow> (Inl e, st1)
      | (Inr _, st1) \<Rightarrow>
          let st2 =
            (if all then revoke_user_sessions now userId ''logout'' (delete_user_tokens now userId st1)
             else case refreshToken of
                    None \<Rightarrow> st1
                  | Some token \<Rightarrow>
                      (case store_get now (as_refresh st1) token of
                         None \<Rightarrow> st1
                       | Some payload \<Rightarrow>
                           revoke_sessions (\<lambda>s. sn_id s = rp_sessionId payload) now ''logout''
                             (st1\<lparr>as_refresh := map_delete (as_refresh st1) token,
                                  as_tokenFamily := map_delete (as_tokenFamily st1) token,
                                  as_userSessions := store_srem now (as_userSessions st1) (rp_userId payload) token\<rparr>)))
          in (Inr (), publish ''auth.session.revoked'' userId st2))"

section \<open>Password reset and change\<close>

text \<open>The result is the link, when it is returned.\<close>

definition forgotPassword ::
  "AuthEnv \<Rightarrow> PurposeJwt \<Rightarrow> nat \<Rightarrow> string \<Rightarrow> string \<Rightarrow> string \<Rightarrow> AuthState \<Rightarrow> (auth_error + string option) \<times> AuthState" where
  "forgotPassword cfg pj now jti email tenantId st =
     (case find_user tenantId email st of
        None \<Rightarrow> (Inr None, st)
      | Some user \<Rightarrow>
          if \<not> us_is_active user then (Inr None, st)
          else (case sign_purpose cfg pj (purpose_claims now 3600 (us_id user) ''password-reset'' jti) of
                  Inl e \<Rightarrow> (Inl e, st)
                | Inr resetToken \<Rightarrow>
                    let st1 = st\<lparr>as_resetGate := store_set_ex now (as_resetGate st) jti ''1'' 3600,
                                 as_resetTokens := as_resetTokens st @
                                   [\<lparr>rt_jti = jti, rt_user_id = us_id user, rt_expires_at = now + 3600000, rt_used_at = None\<rparr>]\<rparr>;
                        st2 = publish ''auth.password.reset_requested'' (us_id user) st1
                    in if hasSmtp cfg then (Inr None, st2)
                       else if \<not> is_dev cfg then (Inl SmtpMissing, st2)
                       else (Inr (Some resetToken), st2)))"

text \<open>The hashes that a new password must not match, and the history that is kept.\<close>

definition history_to_check :: "string \<Rightarrow> string list \<Rightarrow> string list" where
  "history_to_check current history = current # take (PASSWORD_HISTORY_DEPTH - 1) history"

definition updated_history :: "string option \<Rightarrow> string list \<Rightarrow> string list" where
  "updated_history current history =
     (case current of Some h \<Rightarrow> take PASSWORD_HISTORY_DEPTH (h # history) | None \<Rightarrow> take PASSWORD_HISTORY_DEPTH history)"

definition reused :: "Bcrypt \<Rightarrow> string \<Rightarrow> string option \<Rightarrow> string list \<Rightarrow> bool" where
  "reused bc newPassword current history \<longleftrightarrow>
     (case current of None \<Rightarrow> False | Some h \<Rightarrow> \<exists>x \<in> set (history_to_check h history). compare_password bc newPassword x)"

text \<open>The transaction that stores the new hash, then the stores.\<close>

definition store_password :: "AuthEnv \<Rightarrow> nat \<Rightarrow> string \<Rightarrow> string \<Rightarrow> string list \<Rightarrow> string \<Rightarrow> AuthState \<Rightarrow> (auth_error + unit) \<times> AuthState" where
  "store_password cfg now userId newHash history reason st =
     revoke_user_access cfg now userId (delete_user_tokens now userId (revoke_user_sessions now userId reason
       (update_user userId (\<lambda>u. u\<lparr>us_password_hash := Some newHash, us_password_history := history\<rparr>) st)))"

definition resetPassword ::
  "AuthEnv \<Rightarrow> PurposeJwt \<Rightarrow> Bcrypt \<Rightarrow> nat \<Rightarrow> string \<Rightarrow> string \<Rightarrow> AuthState \<Rightarrow> (auth_error + unit) \<times> AuthState" where
  "resetPassword cfg pj bc now token newPassword st =
     (case verify_purpose cfg pj now ''password-reset'' token ResetTokenInvalidError ResetTokenExpiredError of
        Inl e \<Rightarrow> (Inl e, st)
      | Inr (userId, jti) \<Rightarrow>
     (case store_getdel now (as_resetGate st) jti of
        (None, g) \<Rightarrow> (Inl ResetTokenUsedError, st)
      | (Some _, g) \<Rightarrow>
          let st1 = st\<lparr>as_resetGate := g\<rparr>
          in (case user_by_id userId st1 of
                None \<Rightarrow> (Inl ResetTokenInvalidError, st1)
              | Some user \<Rightarrow>
             (case hash_password bc newPassword of
                Inl e \<Rightarrow> (Inl e, st1)
              | Inr newHash \<Rightarrow>
                  if reused bc newPassword (us_password_hash user) (us_password_history user) then (Inl PasswordReuseError, st1)
                  else let st2 = st1\<lparr>as_resetTokens := map (\<lambda>r. if rt_jti r = jti then r\<lparr>rt_used_at := Some now\<rparr> else r) (as_resetTokens st1)\<rparr>
                       in (case store_password cfg now userId newHash (updated_history (us_password_hash user) (us_password_history user))
                                  ''password_reset'' st2 of
                             (Inl e, st3) \<Rightarrow> (Inl e, st3)
                           | (Inr _, st3) \<Rightarrow> (Inr (), publish ''auth.password.reset_completed'' userId st3))))))"

definition changePassword ::
  "AuthEnv \<Rightarrow> Bcrypt \<Rightarrow> nat \<Rightarrow> string \<Rightarrow> string \<Rightarrow> string \<Rightarrow> AuthState \<Rightarrow> (auth_error + unit) \<times> AuthState" where
  "changePassword cfg bc now userId currentPassword newPassword st =
     (case user_by_id userId st of
        None \<Rightarrow> (Inl UnauthorizedError, st)
      | Some user \<Rightarrow>
     (case us_password_hash user of
        None \<Rightarrow> (Inl UnauthorizedError, st)
      | Some h \<Rightarrow>
          if \<not> compare_password bc currentPassword h then (Inl UnauthorizedError, st)
          else (case hash_password bc newPassword of
                  Inl e \<Rightarrow> (Inl e, st)
                | Inr newHash \<Rightarrow>
                    if reused bc newPassword (Some h) (us_password_history user) then (Inl PasswordReuseError, st)
                    else (case store_password cfg now userId newHash (updated_history (Some h) (us_password_history user))
                                 ''password_changed'' st of
                            (Inl e, st1) \<Rightarrow> (Inl e, st1)
                          | (Inr _, st1) \<Rightarrow> (Inr (), publish ''auth.password.changed'' userId st1)))))"

section \<open>E-mail verification\<close>

definition verifyEmail :: "AuthEnv \<Rightarrow> PurposeJwt \<Rightarrow> nat \<Rightarrow> string \<Rightarrow> AuthState \<Rightarrow> (auth_error + string) \<times> AuthState" where
  "verifyEmail cfg pj now token st =
     (case verify_purpose cfg pj now ''email-verify'' token VerifyTokenInvalidError VerifyTokenExpiredError of
        Inl e \<Rightarrow> (Inl e, st)
      | Inr (userId, jti) \<Rightarrow>
     (case store_getdel now (as_verifyGate st) jti of
        (None, g) \<Rightarrow> (Inl VerifyTokenUsedError, st)
      | (Some _, g) \<Rightarrow>
          let st1 = st\<lparr>as_verifyGate := g\<rparr>
          in (case user_by_id userId st1 of
                None \<Rightarrow> (Inl VerifyTokenInvalidError, st1)
              | Some user \<Rightarrow>
                  if us_email_verified user then (Inl EmailAlreadyVerifiedError, st1)
                  else (Inr userId, update_user userId (\<lambda>u. u\<lparr>us_email_verified := True\<rparr>) st1))))"

end
