(* ===== verification/AuthProperties.thy ===== *)
theory AuthProperties
  imports AuthService TokenRotation
begin

text \<open>
  Properties of the accounts: how many passwords can be tried against an account, that a password does not come back
  among the next five, what a new password does to sessions and tokens, single use of reset tokens; and where the
  service falls short of its comments.
\<close>

section \<open>Guessing passwords\<close>

type_synonym Attempt = "nat \<times> Draw \<times> LoginInput"

text \<open>How many of a sequence of logins compare a wrong password with the hash of the account, and how many are right.\<close>

primrec guesses :: "AuthEnv \<Rightarrow> Jwt \<Rightarrow> Bcrypt \<Rightarrow> string \<Rightarrow> AuthState \<Rightarrow> Attempt list \<Rightarrow> nat" where
  "guesses cfg jwt bc uid st [] = 0"
| "guesses cfg jwt bc uid st (a # as) =
     (case a of (now, d, data) \<Rightarrow>
       (case login_decide bc now data st of WrongPassword u \<Rightarrow> if us_id u = uid then 1 else 0 | _ \<Rightarrow> 0) +
       guesses cfg jwt bc uid (snd (login cfg jwt bc now d data st)) as)"

primrec hits :: "AuthEnv \<Rightarrow> Jwt \<Rightarrow> Bcrypt \<Rightarrow> string \<Rightarrow> AuthState \<Rightarrow> Attempt list \<Rightarrow> nat" where
  "hits cfg jwt bc uid st [] = 0"
| "hits cfg jwt bc uid st (a # as) =
     (case a of (now, d, data) \<Rightarrow>
       (case login_decide bc now data st of RightPassword u \<Rightarrow> if us_id u = uid then 1 else 0 | _ \<Rightarrow> 0) +
       hits cfg jwt bc uid (snd (login cfg jwt bc now d data st)) as)"

definition users_ok :: "AuthState \<Rightarrow> bool" where
  "users_ok st \<longleftrightarrow> distinct (map us_id (as_users st))"

lemma lockout_settings: "1 \<le> readLockoutMaxAttempts cfg" "0 < readLockoutDurationMs cfg"
  by (auto simp: readLockoutMaxAttempts_def readLockoutDurationMs_def at_least_one_def split: option.splits)

lemma publish_users [simp]: "as_users (publish e u st) = as_users st"
  by (simp add: publish_def)

lemma update_user_users: "as_users (update_user i f st) = map (\<lambda>u. if us_id u = i then f u else u) (as_users st)"
  by (simp add: update_user_def)

lemma user_by_id_update:
  assumes "\<And>u. us_id (f u) = us_id u"
  shows "user_by_id j (update_user i f st) = map_option (\<lambda>u. if us_id u = i then f u else u) (user_by_id j st)"
proof -
  have "find (\<lambda>u. us_id u = j) (map (\<lambda>u. if us_id u = i then f u else u) us) =
      map_option (\<lambda>u. if us_id u = i then f u else u) (find (\<lambda>u. us_id u = j) us)" for us
    by (induction us) (auto simp: assms)
  then show ?thesis by (simp add: user_by_id_def update_user_def)
qed

lemma user_by_id_users: "as_users st' = as_users st \<Longrightarrow> user_by_id i st' = user_by_id i st"
  by (simp add: user_by_id_def)

lemma user_by_id_id: "user_by_id i st = Some u \<Longrightarrow> us_id u = i"
  by (auto simp: user_by_id_def find_Some_iff)

lemma find_user_row:
  assumes "users_ok st" "find_user t e st = Some u"
  shows "user_by_id (us_id u) st = Some u"
proof -
  have "u \<in> set (as_users st)" using assms(2) by (auto simp: find_user_def find_Some_iff)
  then have "distinct (map us_id us) \<Longrightarrow> u \<in> set us \<Longrightarrow> find (\<lambda>v. us_id v = us_id u) us = Some u" for us
    by (induction us) (auto simp: image_iff)
  then show ?thesis using assms(1) \<open>u \<in> set (as_users st)\<close> by (simp add: user_by_id_def users_ok_def)
qed

lemma login_decide_user:
  "login_decide bc now data st = WrongPassword u \<Longrightarrow> find_user (li_tenantId data) (li_email data) st = Some u \<and>
     (\<forall>l. us_locked_until u = Some l \<longrightarrow> l \<le> now)"
  "login_decide bc now data st = RightPassword u \<Longrightarrow> find_user (li_tenantId data) (li_email data) st = Some u"
  by (auto simp: login_decide_def split: option.splits if_splits)

lemma open_session_users: "as_users (snd (open_session cfg jwt now d rt tt u st)) = as_users st"
  by (auto simp: open_session_def insert_session_def issueRefreshToken_def set_session_jti_def Let_def split: sum.split prod.split)

lemma login_failed_users:
  "as_users (login_failed cfg now u st) =
     as_users (update_user (us_id u) (\<lambda>v. v\<lparr>us_failed_login_count := us_failed_login_count u + 1,
        us_locked_until := (if us_failed_login_count u + 1 \<ge> readLockoutMaxAttempts cfg then Some (now + readLockoutDurationMs cfg) else None)\<rparr>) st)"
  by (simp add: login_failed_def Let_def)

lemma login_succeeded_users:
  "as_users (snd (login_succeeded cfg jwt now d data u st)) =
     as_users (update_user (us_id u) (\<lambda>v. v\<lparr>us_failed_login_count := 0, us_locked_until := None\<rparr>) st)"
  using open_session_users by (auto simp: login_succeeded_def Let_def split: sum.split prod.split) (metis snd_conv)+

lemma users_ok_update:
  assumes "users_ok st" "as_users st' = as_users (update_user i f st)" "\<And>u. us_id (f u) = us_id u"
  shows "users_ok st'"
proof -
  have "us_id (if us_id u = i then f u else u) = us_id u" for u using assms(3) by simp
  then show ?thesis using assms(1,2) by (simp add: users_ok_def update_user_users comp_def)
qed

text \<open>What one login does to the row of an account.\<close>

definition counted :: "AuthEnv \<Rightarrow> nat \<Rightarrow> UserRow \<Rightarrow> UserRow \<Rightarrow> UserRow" where
  "counted cfg now u v = v\<lparr>us_failed_login_count := us_failed_login_count u + 1,
     us_locked_until := (if us_failed_login_count u + 1 \<ge> readLockoutMaxAttempts cfg then Some (now + readLockoutDurationMs cfg) else None)\<rparr>"

lemma counted_simps [simp]:
  "us_id (counted cfg now u v) = us_id v" "us_failed_login_count (counted cfg now u v) = us_failed_login_count u + 1"
  "us_locked_until (counted cfg now u v) =
     (if us_failed_login_count u + 1 \<ge> readLockoutMaxAttempts cfg then Some (now + readLockoutDurationMs cfg) else None)"
  by (simp_all add: counted_def)

lemma login_users:
  "as_users (snd (login cfg jwt bc now d data st)) =
     (case login_decide bc now data st of
        NotCompared \<Rightarrow> as_users st
      | WrongPassword u \<Rightarrow> as_users (update_user (us_id u) (counted cfg now u) st)
      | RightPassword u \<Rightarrow> as_users (update_user (us_id u) (\<lambda>v. v\<lparr>us_failed_login_count := 0, us_locked_until := None\<rparr>) st))"
  by (simp add: login_def login_failed_users login_succeeded_users update_user_users counted_def split: LoginDecision.split)

lemma login_users_ok:
  assumes "users_ok st"
  shows "users_ok (snd (login cfg jwt bc now d data st))"
proof (cases "login_decide bc now data st")
  case NotCompared
  then show ?thesis using assms login_users [of cfg jwt bc now d data st] by (simp add: users_ok_def)
next
  case (WrongPassword u)
  show ?thesis by (rule users_ok_update [OF assms, where i = "us_id u" and f = "counted cfg now u"])
      (simp_all add: login_users WrongPassword)
next
  case (RightPassword u)
  show ?thesis
    by (rule users_ok_update [OF assms, where i = "us_id u" and f = "\<lambda>v. v\<lparr>us_failed_login_count := 0, us_locked_until := None\<rparr>"])
      (simp_all add: login_users RightPassword)
qed

lemma login_row:
  assumes "user_by_id uid st = Some r" "\<And>u. login_decide bc now data st = RightPassword u \<Longrightarrow> us_id u \<noteq> uid"
  shows "user_by_id uid (snd (login cfg jwt bc now d data st)) =
     Some (case login_decide bc now data st of WrongPassword u \<Rightarrow> if us_id u = uid then counted cfg now u r else r | _ \<Rightarrow> r)"
proof -
  have r: "us_id r = uid" using assms(1) by (rule user_by_id_id)
  show ?thesis
  proof (cases "login_decide bc now data st")
    case NotCompared
    then show ?thesis using assms(1) by (simp add: user_by_id_def login_users)
  next
    case (WrongPassword u)
    have "user_by_id uid (snd (login cfg jwt bc now d data st)) = user_by_id uid (update_user (us_id u) (counted cfg now u) st)"
      by (rule user_by_id_users) (simp add: login_users WrongPassword)
    then show ?thesis using assms(1) r by (simp add: user_by_id_update WrongPassword)
  next
    case (RightPassword u)
    have "user_by_id uid (snd (login cfg jwt bc now d data st)) =
        user_by_id uid (update_user (us_id u) (\<lambda>v. v\<lparr>us_failed_login_count := 0, us_locked_until := None\<rparr>) st)"
      by (rule user_by_id_users) (simp add: login_users RightPassword)
    then show ?thesis using assms r RightPassword by (simp add: user_by_id_update)
  qed
qed

lemma guesses_bounded:
  assumes "users_ok st" "user_by_id uid st = Some r" "hits cfg jwt bc uid st as = 0"
    and "\<forall>(now, d, data) \<in> set as. start \<le> now \<and> now < start + readLockoutDurationMs cfg"
  shows "guesses cfg jwt bc uid st as \<le>
     (case us_locked_until r of
        Some l \<Rightarrow> if start + readLockoutDurationMs cfg \<le> l then 0 else max 1 (readLockoutMaxAttempts cfg - us_failed_login_count r)
      | None \<Rightarrow> max 1 (readLockoutMaxAttempts cfg - us_failed_login_count r))"
  using assms
proof (induction as arbitrary: st r)
  case (Cons a as)
  obtain now d data where a: "a = (now, d, data)" by (cases a)
  have now: "start \<le> now" "now < start + readLockoutDurationMs cfg" using Cons.prems(4) by (simp_all add: a)
  have right: "us_id u \<noteq> uid" if "login_decide bc now data st = RightPassword u" for u
    using Cons.prems(3) that by (auto simp: a)
  let ?st = "snd (login cfg jwt bc now d data st)" and ?M = "readLockoutMaxAttempts cfg" and ?n = "us_failed_login_count r"
  note ok = login_users_ok [OF Cons.prems(1), of cfg jwt bc now d data]
  have row: "user_by_id uid ?st =
      Some (case login_decide bc now data st of WrongPassword u \<Rightarrow> if us_id u = uid then counted cfg now u r else r | _ \<Rightarrow> r)"
    by (rule login_row [OF Cons.prems(2) right])
  have rest: "hits cfg jwt bc uid ?st as = 0" "\<forall>(now, d, data) \<in> set as. start \<le> now \<and> now < start + readLockoutDurationMs cfg"
    using Cons.prems(3,4) by (auto simp: a split: LoginDecision.splits)
  show ?case
  proof (cases "\<exists>u. login_decide bc now data st = WrongPassword u \<and> us_id u = uid")
    case False
    then have "user_by_id uid ?st = Some r" using row by (auto split: LoginDecision.splits)
    moreover have "guesses cfg jwt bc uid st (a # as) = guesses cfg jwt bc uid ?st as"
      using False by (auto simp: a split: LoginDecision.split)
    ultimately show ?thesis using Cons.IH [OF ok _ rest] by simp
  next
    case True
    then obtain u where u: "login_decide bc now data st = WrongPassword u" "us_id u = uid" by blast
    then have "user_by_id uid st = Some u" using find_user_row [OF Cons.prems(1)] login_decide_user(1) by blast
    with Cons.prems(2) have ur: "u = r" by simp
    have unlocked: "l \<le> now" if "us_locked_until r = Some l" for l
      using login_decide_user(1) [OF u(1)] ur that by blast
    have g: "guesses cfg jwt bc uid st (a # as) = 1 + guesses cfg jwt bc uid ?st as" using u by (simp add: a)
    have "user_by_id uid ?st = Some (counted cfg now r r)" using row u ur by simp
    from Cons.IH [OF ok this rest] have "1 + guesses cfg jwt bc uid ?st as \<le> max 1 (?M - ?n)"
      using now(1) by (simp split: if_splits)
    with g unlocked now show ?thesis by (fastforce split: option.split)
  qed
qed (simp split: option.split)

text \<open>
  Property C12: as long as logins do not overlap and none of them is right, any stretch of time as long as the lock
  duration sees at most as many passwords compared with the hash of an account as the limit of attempts, whatever other
  accounts do in between and whatever state the account starts in.
\<close>

theorem guess_bound:
  assumes "users_ok st" "user_by_id uid st = Some r" "hits cfg jwt bc uid st as = 0"
    and "\<forall>(now, d, data) \<in> set as. start \<le> now \<and> now < start + readLockoutDurationMs cfg"
  shows "guesses cfg jwt bc uid st as \<le> readLockoutMaxAttempts cfg"
  using guesses_bounded [OF assms] lockout_settings(1) [of cfg] by (auto split: option.splits if_splits)

text \<open>A bcrypt whose hash is a salt followed by the password, and an account with it.\<close>

definition salted :: "char \<Rightarrow> Bcrypt" where
  "salted c = \<lparr>bc_hash = (\<lambda>p. c # p), bc_compare = (\<lambda>p h. tl h = p)\<rparr>"

definition demo_account :: AuthState where
  "demo_account = empty_state\<lparr>as_users := [demo_user\<lparr>us_password_hash := Some ''0pw''\<rparr>]\<rparr>"

definition demo_draw :: Draw where
  "demo_draw = \<lparr>dr_sessionId = ''s'', dr_familyId = ''f'', dr_placeholderJti = ''p'', dr_accessJti = ''a'', dr_token = ''t'', dr_jti = ''j''\<rparr>"

definition demo_guess :: "nat \<Rightarrow> Attempt" where
  "demo_guess now = (now, demo_draw, \<lparr>li_email = ''e'', li_password = ''x'', li_tenantId = ''t''\<rparr>)"

lemmas demo_account_defs = demo_account_def demo_guess_def demo_user_def empty_state_def salted_def

theorem guess_bound_witness:
  "guesses demo_env demo_jwt (salted CHR ''1'') ''u'' demo_account [demo_guess 0, demo_guess 1, demo_guess 1700000] = 3 \<and>
   guesses demo_env demo_jwt (salted CHR ''1'') ''u'' demo_account [demo_guess 0, demo_guess 1, demo_guess 1700000]
     \<le> readLockoutMaxAttempts demo_env"
proof -
  have lock: "readLockoutMaxAttempts demo_env = 5" "readLockoutDurationMs demo_env = 1800000"
    by (simp_all add: readLockoutMaxAttempts_def readLockoutDurationMs_def at_least_one_def demo_env_def)
  note steps = demo_account_defs login_decide_def find_user_def login_def login_failed_def lock Let_def publish_def
    update_user_def compare_password_def
  have "guesses demo_env demo_jwt (salted CHR ''1'') ''u'' demo_account [demo_guess 0, demo_guess 1, demo_guess 1700000] = 3"
    by (simp add: steps)
  moreover have "guesses demo_env demo_jwt (salted CHR ''1'') ''u'' demo_account [demo_guess 0, demo_guess 1, demo_guess 1700000]
     \<le> readLockoutMaxAttempts demo_env"
    by (rule guess_bound [where r = "demo_user\<lparr>us_password_hash := Some ''0pw''\<rparr>" and start = 0])
      (simp_all add: steps users_ok_def user_by_id_def)
  ultimately show ?thesis by blast
qed

text \<open>A purpose token service whose one token resets the password of that account.\<close>

definition demo_purpose :: PurposeJwt where
  "demo_purpose = \<lparr>pj_sign = (\<lambda>key ps. Some ''token''),
     pj_verify = (\<lambda>key token now. PurposeClaims (purpose_claims 0 3600 ''u'' ''password-reset'' ''k''))\<rparr>"

lemma demo_verified: "verify_purpose demo_env demo_purpose now ''password-reset'' token invalid expired = Inr (''u'', ''k'')"
  by (simp add: verify_purpose_def getPurposeTokenSecret_def required_def demo_env_def demo_purpose_def purpose_claims_def prop_get_def)

section \<open>Old passwords\<close>

text \<open>A change or a reset, with its own salt.\<close>

datatype PasswordCall =
    Change Bcrypt nat string string string
  | Reset Bcrypt nat string string

definition run_call :: "AuthEnv \<Rightarrow> PurposeJwt \<Rightarrow> PasswordCall \<Rightarrow> AuthState \<Rightarrow> (auth_error + unit) \<times> AuthState" where
  "run_call cfg pj c st =
     (case c of
        Change bc now userId currentPassword newPassword \<Rightarrow> changePassword cfg bc now userId currentPassword newPassword st
      | Reset bc now token newPassword \<Rightarrow> resetPassword cfg pj bc now token newPassword st)"

definition call_user :: "AuthEnv \<Rightarrow> PurposeJwt \<Rightarrow> PasswordCall \<Rightarrow> string option" where
  "call_user cfg pj c =
     (case c of
        Change bc now userId currentPassword newPassword \<Rightarrow> Some userId
      | Reset bc now token newPassword \<Rightarrow>
          (case verify_purpose cfg pj now ''password-reset'' token ResetTokenInvalidError ResetTokenExpiredError of
             Inl e \<Rightarrow> None
           | Inr (userId, jti) \<Rightarrow> Some userId))"

definition call_password :: "PasswordCall \<Rightarrow> string" where
  "call_password c = (case c of Change bc now userId currentPassword newPassword \<Rightarrow> newPassword | Reset bc now token newPassword \<Rightarrow> newPassword)"

definition call_bcrypt :: "PasswordCall \<Rightarrow> Bcrypt" where
  "call_bcrypt c = (case c of Change bc now userId currentPassword newPassword \<Rightarrow> bc | Reset bc now token newPassword \<Rightarrow> bc)"

text \<open>The passwords that calls gave an account, in their order.\<close>

primrec accepted :: "AuthEnv \<Rightarrow> PurposeJwt \<Rightarrow> string \<Rightarrow> AuthState \<Rightarrow> PasswordCall list \<Rightarrow> string list" where
  "accepted cfg pj uid st [] = []"
| "accepted cfg pj uid st (c # cs) =
     (case run_call cfg pj c st of
        (r, st') \<Rightarrow> (if r = Inr () \<and> call_user cfg pj c = Some uid then [call_password c] else []) @ accepted cfg pj uid st' cs)"

lemma store_password_users:
  "as_users (snd (store_password cfg now i h hist reason st)) =
     as_users (update_user i (\<lambda>u. u\<lparr>us_password_hash := Some h, us_password_history := hist\<rparr>) st)"
  by (simp add: store_password_def revoke_user_access_def delete_user_tokens_def revoke_user_sessions_def revoke_sessions_def Let_def
      split: sum.split)

lemma store_password_result:
  "fst (store_password cfg now i h hist reason st) = Inr () \<longleftrightarrow> (\<exists>n. getJwtExpirySeconds cfg = Inr n)"
  by (auto simp: store_password_def revoke_user_access_def split: sum.split)

lemma take_nth_bex: "(\<exists>x \<in> set (take n ys). P x) \<longleftrightarrow> (\<exists>i < n. i < length ys \<and> P (ys ! i))"
proof
  assume "\<exists>x \<in> set (take n ys). P x"
  then obtain i where "i < length (take n ys)" "P (take n ys ! i)" by (auto simp: in_set_conv_nth)
  then show "\<exists>i < n. i < length ys \<and> P (ys ! i)" by auto
next
  assume "\<exists>i < n. i < length ys \<and> P (ys ! i)"
  then obtain i where "i < n" "i < length ys" "P (ys ! i)" by blast
  then show "\<exists>x \<in> set (take n ys). P x" by (intro bexI [of _ "take n ys ! i"]) (simp_all add: in_set_conv_nth, force)
qed

lemma reused_history:
  "reused bc p (Some h) hist \<longleftrightarrow> (\<exists>i < 5. i < length (h # hist) \<and> compare_password bc p ((h # hist) ! i))"
proof -
  have "history_to_check h hist = take 5 (h # hist)" by (simp add: history_to_check_def PASSWORD_HISTORY_DEPTH_def)
  then show ?thesis unfolding reused_def by (simp only: option.case take_nth_bex)
qed

text \<open>What a call does to the rows of users: nothing, or the new hash in the row of its user.\<close>

definition renewed :: "Bcrypt \<Rightarrow> string \<Rightarrow> UserRow \<Rightarrow> UserRow \<Rightarrow> UserRow" where
  "renewed bc newPassword u v =
     v\<lparr>us_password_hash := Some (bc_hash bc newPassword),
       us_password_history := updated_history (us_password_hash u) (us_password_history u)\<rparr>"

lemma hash_password_Inr: "hash_password bc p = Inr h \<longleftrightarrow> p \<noteq> [] \<and> h = bc_hash bc p"
  by (auto simp: hash_password_def)

lemma store_password_Inr:
  "getJwtExpirySeconds cfg = Inr n \<Longrightarrow> \<exists>st'. store_password cfg now i h hist reason st = (Inr (), st')"
  by (simp add: store_password_def revoke_user_access_def)

lemma store_renewed:
  "as_users (snd (store_password cfg now uid (bc_hash bc p) (updated_history (us_password_hash u) (us_password_history u)) reason st)) =
   as_users (update_user uid (renewed bc p u) st)"
  by (simp add: store_password_users update_user_users renewed_def)

lemma changePassword_cases:
  assumes "changePassword cfg bc now uid cur new st = (r, st')" "getJwtExpirySeconds cfg = Inr n"
  obtains (refused) "r \<noteq> Inr ()" "st' = st"
  | (stored) u h where "user_by_id uid st = Some u" "us_password_hash u = Some h" "compare_password bc cur h" "new \<noteq> []"
      "\<not> reused bc new (us_password_hash u) (us_password_history u)" "r = Inr ()"
      "st' = publish ''auth.password.changed'' uid (snd (store_password cfg now uid (bc_hash bc new)
         (updated_history (us_password_hash u) (us_password_history u)) ''password_changed'' st))"
proof (cases "user_by_id uid st")
  case None
  then show ?thesis using assms(1) by (intro refused) (auto simp: changePassword_def)
next
  case u: (Some u)
  show ?thesis
  proof (cases "us_password_hash u")
    case None
    then show ?thesis using assms(1) u by (intro refused) (auto simp: changePassword_def)
  next
    case h: (Some h)
    obtain s2 where s2: "store_password cfg now uid (bc_hash bc new) (updated_history (Some h) (us_password_history u)) ''password_changed'' st = (Inr (), s2)"
      using store_password_Inr [OF assms(2)] by blast
    show ?thesis
    proof (cases "compare_password bc cur h \<and> new \<noteq> [] \<and> \<not> reused bc new (Some h) (us_password_history u)")
      case True
      then show ?thesis using assms(1) u h s2 by (intro stored) (auto simp: changePassword_def hash_password_def)
    next
      case False
      then show ?thesis using assms(1) u h by (intro refused) (auto simp: changePassword_def hash_password_def split: if_splits)
    qed
  qed
qed

lemma resetPassword_cases:
  assumes "resetPassword cfg pj bc now token new st = (r, st')" "getJwtExpirySeconds cfg = Inr n"
  obtains (refused) "r \<noteq> Inr ()" "as_users st' = as_users st"
  | (stored) uid jti u v g st2 where
      "verify_purpose cfg pj now ''password-reset'' token ResetTokenInvalidError ResetTokenExpiredError = Inr (uid, jti)"
      "store_getdel now (as_resetGate st) jti = (Some v, g)" "user_by_id uid st = Some u" "new \<noteq> []"
      "\<not> reused bc new (us_password_hash u) (us_password_history u)" "r = Inr ()"
      "st2 = st\<lparr>as_resetGate := g,
         as_resetTokens := map (\<lambda>r. if rt_jti r = jti then r\<lparr>rt_used_at := Some now\<rparr> else r) (as_resetTokens st)\<rparr>"
      "st' = publish ''auth.password.reset_completed'' uid (snd (store_password cfg now uid (bc_hash bc new)
         (updated_history (us_password_hash u) (us_password_history u)) ''password_reset'' st2))"
proof (cases "verify_purpose cfg pj now ''password-reset'' token ResetTokenInvalidError ResetTokenExpiredError")
  case (Inl e)
  then show ?thesis using assms(1) by (intro refused) (auto simp: resetPassword_def)
next
  case (Inr q)
  then obtain uid jti where v: "verify_purpose cfg pj now ''password-reset'' token ResetTokenInvalidError ResetTokenExpiredError = Inr (uid, jti)"
    by (cases q) auto
  obtain w g where g: "store_getdel now (as_resetGate st) jti = (w, g)" by fastforce
  show ?thesis
  proof (cases w)
    case None
    then show ?thesis using assms(1) v g by (intro refused) (auto simp: resetPassword_def)
  next
    case w: (Some w')
    show ?thesis
    proof (cases "user_by_id uid st")
      case None
      then have "user_by_id uid (st\<lparr>as_resetGate := g\<rparr>) = None" by (simp add: user_by_id_def)
      then show ?thesis using assms(1) v g w by (intro refused) (auto simp: resetPassword_def)
    next
      case u: (Some u)
      then have u': "user_by_id uid (st\<lparr>as_resetGate := g\<rparr>) = Some u" by (simp add: user_by_id_def)
      define st2 where "st2 = st\<lparr>as_resetGate := g,
         as_resetTokens := map (\<lambda>r. if rt_jti r = jti then r\<lparr>rt_used_at := Some now\<rparr> else r) (as_resetTokens st)\<rparr>"
      obtain s3 where s3: "store_password cfg now uid (bc_hash bc new) (updated_history (us_password_hash u) (us_password_history u)) ''password_reset'' st2 = (Inr (), s3)"
        using store_password_Inr [OF assms(2)] by blast
      show ?thesis
      proof (cases "new \<noteq> [] \<and> \<not> reused bc new (us_password_hash u) (us_password_history u)")
        case True
        then have "(r, st') = (Inr (), publish ''auth.password.reset_completed'' uid s3)"
          using assms(1) v g w u' s3 by (simp add: resetPassword_def hash_password_def st2_def)
        with True show ?thesis using v g w u s3 by (intro stored [of uid jti w' g u st2]) (simp_all add: st2_def)
      next
        case False
        then show ?thesis using assms(1) v g w u' by (intro refused) (auto simp: resetPassword_def hash_password_def split: if_splits)
      qed
    qed
  qed
qed

lemma run_call_users:
  assumes "run_call cfg pj c st = (r, st')" "getJwtExpirySeconds cfg = Inr n"
  obtains (refused) "r \<noteq> Inr ()" "as_users st' = as_users st"
  | (stored) uid u where "r = Inr ()" "call_user cfg pj c = Some uid" "user_by_id uid st = Some u"
      "\<not> reused (call_bcrypt c) (call_password c) (us_password_hash u) (us_password_history u)"
      "as_users st' = as_users (update_user uid (renewed (call_bcrypt c) (call_password c) u) st)" "call_password c \<noteq> []"
proof (cases c)
  case (Change bc now i cur new)
  then have "changePassword cfg bc now i cur new st = (r, st')" using assms(1) by (simp add: run_call_def)
  then show ?thesis
  proof (cases rule: changePassword_cases [OF _ assms(2), consumes 1, case_names refused stored])
    case (stored u h)
    have "as_users st' = as_users (update_user i (renewed bc new u) st)" using stored(7) by (simp only: store_renewed publish_users)
    then show ?thesis
      by (intro that(2) [of i u]) (use stored(1,4-6) in \<open>simp_all add: Change call_user_def call_bcrypt_def call_password_def\<close>)
  qed (simp add: that(1))
next
  case (Reset bc now token new)
  then have "resetPassword cfg pj bc now token new st = (r, st')" using assms(1) by (simp add: run_call_def)
  then show ?thesis
  proof (cases rule: resetPassword_cases [OF _ assms(2), consumes 1, case_names refused stored])
    case (stored uid jti u v g st2)
    have "as_users (update_user uid (renewed bc new u) st2) = as_users (update_user uid (renewed bc new u) st)"
      using stored(7) by (simp add: update_user_users)
    then show ?thesis
      using stored by (intro that(2) [of uid u]) (simp_all add: Reset call_user_def call_bcrypt_def call_password_def store_renewed)
  qed (rule that(1))
qed

text \<open>Entries at most \<open>n\<close> apart differ.\<close>

definition spaced :: "nat \<Rightarrow> 'a list \<Rightarrow> bool" where
  "spaced n xs \<longleftrightarrow> (\<forall>j < length xs. \<forall>i < j. j \<le> i + n \<longrightarrow> xs ! i \<noteq> xs ! j)"

lemma spaced_snoc:
  assumes "spaced n (rev ps)" "\<And>i. i < n \<Longrightarrow> i < length ps \<Longrightarrow> p \<noteq> ps ! i"
  shows "spaced n (rev ps @ [p])"
  unfolding spaced_def
proof (intro allI impI)
  fix i j assume j: "j < length (rev ps @ [p])" "i < j" "j \<le> i + n"
  show "(rev ps @ [p]) ! i \<noteq> (rev ps @ [p]) ! j"
  proof (cases "j = length ps")
    case True
    then have "(rev ps @ [p]) ! i = ps ! (length ps - Suc i)" using j by (simp add: nth_append rev_nth)
    moreover have "p \<noteq> ps ! (length ps - Suc i)" using j True by (intro assms(2)) auto
    ultimately show ?thesis using True by (simp add: nth_append)
  next
    case False
    then show ?thesis using j assms(1) by (simp add: nth_append spaced_def)
  qed
qed

text \<open>The hashes of an account, newest first, and the passwords they come from: the newest six at most.\<close>

definition remembers :: "(string \<Rightarrow> string \<Rightarrow> bool) \<Rightarrow> UserRow \<Rightarrow> string list \<Rightarrow> bool" where
  "remembers cmp r ps \<longleftrightarrow>
     (\<exists>h. us_password_hash r = Some h \<and>
        (\<forall>i < 6. i < length ps \<longrightarrow> i < length (h # us_password_history r) \<and> ps ! i \<noteq> [] \<and>
           (h # us_password_history r) ! i \<noteq> [] \<and> cmp (ps ! i) ((h # us_password_history r) ! i)))"

lemma remembers_fresh:
  assumes "remembers cmp r ps" "\<not> reused bc p (us_password_hash r) (us_password_history r)" "bc_compare bc = cmp"
    and "i < 5" "i < length ps"
  shows "p \<noteq> ps ! i"
proof
  assume p: "p = ps ! i"
  obtain h where "us_password_hash r = Some h" "\<And>i. i < 6 \<Longrightarrow> i < length ps \<Longrightarrow> i < length (h # us_password_history r) \<and>
      ps ! i \<noteq> [] \<and> (h # us_password_history r) ! i \<noteq> [] \<and> cmp (ps ! i) ((h # us_password_history r) ! i)"
    using assms(1) unfolding remembers_def by blast
  with assms(4,5) have h: "us_password_hash r = Some h" "i < length (h # us_password_history r)" "ps ! i \<noteq> []"
    "(h # us_password_history r) ! i \<noteq> []" "cmp (ps ! i) ((h # us_password_history r) ! i)" by auto
  then have "compare_password bc p ((h # us_password_history r) ! i)" using p assms(3) by (simp add: compare_password_def)
  then show False using assms(2,4) h(1,2) by (auto simp: reused_history)
qed

lemma remembers_renewed:
  assumes "remembers cmp u ps" "p \<noteq> []" "bc_hash bc p \<noteq> []" "cmp p (bc_hash bc p)"
  shows "remembers cmp (renewed bc p u v) (p # ps)"
proof -
  obtain h where h: "us_password_hash u = Some h" and old: "\<And>i. i < 6 \<Longrightarrow> i < length ps \<Longrightarrow> i < length (h # us_password_history u) \<and>
      ps ! i \<noteq> [] \<and> (h # us_password_history u) ! i \<noteq> [] \<and> cmp (ps ! i) ((h # us_password_history u) ! i)"
    using assms(1) unfolding remembers_def by blast
  have hist: "us_password_history (renewed bc p u v) = take 5 (h # us_password_history u)"
    by (simp add: renewed_def updated_history_def h PASSWORD_HISTORY_DEPTH_def)
  have "i < length (bc_hash bc p # take 5 (h # us_password_history u)) \<and> (p # ps) ! i \<noteq> [] \<and>
      (bc_hash bc p # take 5 (h # us_password_history u)) ! i \<noteq> [] \<and> cmp ((p # ps) ! i) ((bc_hash bc p # take 5 (h # us_password_history u)) ! i)"
    if "i < 6" "i < length (p # ps)" for i
  proof (cases i)
    case (Suc k)
    then show ?thesis using old [of k] that by (simp del: take_Cons_numeral, linarith)
  qed (use assms in simp)
  then show ?thesis unfolding remembers_def hist by (simp add: renewed_def del: take_Cons_numeral)
qed

lemma accepted_spaced:
  assumes "getJwtExpirySeconds cfg = Inr n" "user_by_id uid st = Some r" "remembers cmp r ps" "spaced 5 (rev ps)"
    and "\<And>c p. c \<in> set cs \<Longrightarrow> bc_compare (call_bcrypt c) = cmp \<and> bc_hash (call_bcrypt c) p \<noteq> [] \<and> cmp p (bc_hash (call_bcrypt c) p)"
  shows "spaced 5 (rev ps @ accepted cfg pj uid st cs)"
  using assms(2-)
proof (induction cs arbitrary: st r ps)
  case (Cons c cs)
  obtain q st' where run: "run_call cfg pj c st = (q, st')" by fastforce
  have bc: "bc_compare (call_bcrypt c) = cmp" "bc_hash (call_bcrypt c) p \<noteq> []" "cmp p (bc_hash (call_bcrypt c) p)" for p
    using Cons.prems(4) [of c p] by simp_all
  note rest = Cons.prems(4) [OF list.set_intros(2)]
  from run assms(1) show ?case
  proof (cases rule: run_call_users [consumes 2, case_names refused stored])
    case refused
    then have "user_by_id uid st' = Some r" using Cons.prems(1) by (simp add: user_by_id_def)
    then show ?thesis using Cons.IH [OF _ Cons.prems(2,3) rest] refused run by simp
  next
    case (stored i u)
    have "us_id (renewed (call_bcrypt c) (call_password c) u v) = us_id v" for v by (simp add: renewed_def)
    note row = user_by_id_users [OF stored(5)] user_by_id_update [of "renewed (call_bcrypt c) (call_password c) u", OF this]
    show ?thesis
    proof (cases "i = uid")
      case True
      then have "u = r" using stored(3) Cons.prems(1) by simp
      have id: "us_id r = uid" using Cons.prems(1) by (rule user_by_id_id)
      let ?p = "call_password c"
      have "user_by_id uid st' = Some (renewed (call_bcrypt c) ?p r r)" using row True \<open>u = r\<close> id Cons.prems(1) by simp
      moreover have "remembers cmp (renewed (call_bcrypt c) ?p r r) (?p # ps)"
        by (rule remembers_renewed [OF Cons.prems(2) stored(6) bc(2,3)])
      moreover have "spaced 5 (rev (?p # ps))"
        using spaced_snoc [OF Cons.prems(3)] remembers_fresh [OF Cons.prems(2) _ bc(1)] stored(4) \<open>u = r\<close> by simp
      ultimately have "spaced 5 (rev (?p # ps) @ accepted cfg pj uid st' cs)" by (rule Cons.IH) (rule rest)
      then show ?thesis using True stored run by simp
    next
      case False
      then have "user_by_id uid st' = Some r" using row Cons.prems(1) user_by_id_id [OF Cons.prems(1)] by simp
      then show ?thesis using Cons.IH [OF _ Cons.prems(2,3) rest] False stored(2) run by simp
    qed
  qed
qed simp

text \<open>
  Property C13: whatever changes and resets run for whatever accounts, a password given to an account differs from the five
  passwords the account had before it, the first one included.  bcrypt needs to recognise a password in its own hash.
\<close>

theorem passwords_not_reused:
  assumes "getJwtExpirySeconds cfg = Inr n" "user_by_id uid st = Some r" "us_password_hash r = Some h" "h \<noteq> []" "p \<noteq> []" "cmp p h"
    and "\<And>c p. c \<in> set cs \<Longrightarrow> bc_compare (call_bcrypt c) = cmp \<and> bc_hash (call_bcrypt c) p \<noteq> [] \<and> cmp p (bc_hash (call_bcrypt c) p)"
  shows "spaced 5 (p # accepted cfg pj uid st cs)"
  using accepted_spaced [OF assms(1,2), of cmp "[p]" cs pj] assms(3-) by (simp add: remembers_def spaced_def)

theorem passwords_not_reused_witness:
  "accepted demo_env demo_purpose ''u'' demo_account
     [Change (salted CHR ''1'') 0 ''u'' ''pw'' ''aa'', Change (salted CHR ''2'') 1 ''u'' ''aa'' ''pw'', Reset (salted CHR ''3'') 2 ''token'' ''bb''] = [''aa''] \<and>
   spaced 5 (''pw'' # accepted demo_env demo_purpose ''u'' demo_account
     [Change (salted CHR ''1'') 0 ''u'' ''pw'' ''aa'', Change (salted CHR ''2'') 1 ''u'' ''aa'' ''pw'', Reset (salted CHR ''3'') 2 ''token'' ''bb''])"
proof -
  let ?cs = "[Change (salted CHR ''1'') 0 ''u'' ''pw'' ''aa'', Change (salted CHR ''2'') 1 ''u'' ''aa'' ''pw'', Reset (salted CHR ''3'') 2 ''token'' ''bb'']"
  have "accepted demo_env demo_purpose ''u'' demo_account ?cs = [''aa'']"
    by (simp add: run_call_def call_user_def call_password_def changePassword_def resetPassword_def demo_account_defs user_by_id_def
        compare_password_def hash_password_def reused_def history_to_check_def store_password_def revoke_user_access_def
        demo_env_def getJwtExpirySeconds_def positive_setting_def publish_def delete_user_tokens_def revoke_user_sessions_def
        revoke_sessions_def update_user_def Let_def updated_history_def PASSWORD_HISTORY_DEPTH_def demo_verified [unfolded demo_env_def] store_getdel_def store_get_def)
  moreover have "bc_compare (call_bcrypt c) = (\<lambda>p h. tl h = p)" "bc_hash (call_bcrypt c) p \<noteq> []" "tl (bc_hash (call_bcrypt c) p) = p"
    if "c \<in> set ?cs" for c p
    using that by (auto simp: call_bcrypt_def salted_def)
  then have "spaced 5 (''pw'' # accepted demo_env demo_purpose ''u'' demo_account ?cs)"
    by (intro passwords_not_reused [where n = 900 and r = "demo_user\<lparr>us_password_hash := Some ''0pw''\<rparr>" and h = "''0pw''" and
          cmp = "\<lambda>p h. tl h = p"])
      (simp_all add: demo_account_def user_by_id_def demo_user_def getJwtExpirySeconds_def positive_setting_def demo_env_def)
  ultimately show ?thesis by blast
qed

section \<open>What a new password ends\<close>

lemma jwt_expiry_positive: "getJwtExpirySeconds cfg = Inr n \<Longrightarrow> 0 < n"
  by (auto simp: getJwtExpirySeconds_def positive_setting_def split: option.splits if_splits)

definition call_time :: "PasswordCall \<Rightarrow> nat" where
  "call_time c = (case c of Change bc now userId currentPassword newPassword \<Rightarrow> now | Reset bc now token newPassword \<Rightarrow> now)"

lemma typed_claims_sub:
  assumes "typed_claims ps = Some claims"
  shows "prop_get ps ''sub'' = VStr (jc_sub claims)"
proof (cases "prop_get ps ''sub''")
  case (VStr sub)
  with assms show ?thesis by (auto simp: typed_claims_def split: jsval.split_asm)
qed (use assms in \<open>simp_all add: typed_claims_def\<close>)

lemma find_distinct: "x \<in> set xs \<Longrightarrow> f x = k \<Longrightarrow> distinct (map f xs) \<Longrightarrow> find (\<lambda>x. f x = k) xs = Some x"
  by (induction xs) (auto simp: image_iff)

lemma store_password_ends:
  assumes "getJwtExpirySeconds cfg = Inr n" "st' = snd (store_password cfg now uid h hist reason st)"
  shows "s \<in> set (as_sessions st') \<Longrightarrow> sn_user_id s = uid \<Longrightarrow> sn_revoked_at s \<noteq> None"
    and "t \<in> set (store_members now (as_userSessions st) uid) \<Longrightarrow> store_get later (as_refresh st') t = None"
    and "later < now + n * 1000 \<Longrightarrow> store_get later (as_revocation st') (''user:'' @ uid) = Some ''1''"
proof -
  have st': "as_sessions st' = as_sessions (revoke_user_sessions now uid reason st)"
    "as_refresh st' = store_del_all (as_refresh st) (store_members now (as_userSessions st) uid)"
    "as_revocation st' = store_set_ex now (as_revocation st) (''user:'' @ uid) ''1'' n"
    using assms by (simp_all add: store_password_def revoke_user_access_def delete_user_tokens_def update_user_def
        revoke_user_sessions_def revoke_sessions_def Let_def)
  show "sn_revoked_at s \<noteq> None" if "s \<in> set (as_sessions st')" "sn_user_id s = uid"
  proof -
    from that have "s \<in> (\<lambda>x. if sn_user_id x = uid \<and> sn_revoked_at x = None
        then x\<lparr>sn_revoked_at := Some now, sn_revoked_reason := Some reason\<rparr> else x) ` set (as_sessions st)"
      by (simp add: st'(1) revoke_user_sessions_def revoke_sessions_def)
    then show ?thesis
    proof (rule imageE)
      fix x assume "s = (if sn_user_id x = uid \<and> sn_revoked_at x = None
          then x\<lparr>sn_revoked_at := Some now, sn_revoked_reason := Some reason\<rparr> else x)"
      with that(2) show ?thesis by (cases "sn_user_id x = uid \<and> sn_revoked_at x = None") simp_all
    qed
  qed
  show "t \<in> set (store_members now (as_userSessions st) uid) \<Longrightarrow> store_get later (as_refresh st') t = None"
    by (simp add: st' store_simps)
  show "later < now + n * 1000 \<Longrightarrow> store_get later (as_revocation st') (''user:'' @ uid) = Some ''1''"
    unfolding st' by (rule redis.blocked_until [OF jwt_expiry_positive [OF assms(1)]])
qed

text \<open>A call that succeeds ends in \<open>store_password\<close>, from a state with the same sessions and tokens.\<close>

lemma run_call_stores:
  assumes "run_call cfg pj c st = (Inr (), st')" "call_user cfg pj c = Some uid" "getJwtExpirySeconds cfg = Inr n"
  obtains ev h hist reason st2 where "st' = publish ev uid (snd (store_password cfg (call_time c) uid h hist reason st2))"
    "as_userSessions st2 = as_userSessions st"
proof (cases c)
  case (Change bc now i cur new)
  then have "changePassword cfg bc now i cur new st = (Inr (), st')" "i = uid" using assms(1,2) by (simp_all add: run_call_def call_user_def)
  then show ?thesis
  proof (cases rule: changePassword_cases [OF _ assms(3), consumes 1, case_names refused stored])
    case (stored u h)
    have "st' = publish ''auth.password.changed'' uid (snd (store_password cfg (call_time c) uid (bc_hash bc new)
         (updated_history (us_password_hash u) (us_password_history u)) ''password_changed'' st))"
      using stored(7) \<open>i = uid\<close> by (simp add: Change call_time_def)
    then show ?thesis by (rule that) (rule refl)
  qed simp
next
  case (Reset bc now token new)
  then have "resetPassword cfg pj bc now token new st = (Inr (), st')" using assms(1) by (simp add: run_call_def)
  then show ?thesis
  proof (cases rule: resetPassword_cases [OF _ assms(3), consumes 1, case_names refused stored])
    case (stored i jti u v g st2)
    have "i = uid" using stored(1) assms(2) by (simp add: Reset call_user_def)
    have "st' = publish ''auth.password.reset_completed'' uid (snd (store_password cfg (call_time c) uid (bc_hash bc new)
         (updated_history (us_password_hash u) (us_password_history u)) ''password_reset'' st2))"
      using stored(8) \<open>i = uid\<close> by (simp add: Reset call_time_def)
    moreover have "as_userSessions st2 = as_userSessions st" using stored(7) by simp
    ultimately show ?thesis by (rule that)
  qed simp
qed

lemma password_change_ends:
  assumes "run_call cfg pj c st = (Inr (), st')" "call_user cfg pj c = Some uid" "getJwtExpirySeconds cfg = Inr n"
  shows "s \<in> set (as_sessions st') \<Longrightarrow> sn_user_id s = uid \<Longrightarrow> sn_revoked_at s \<noteq> None"
    and "t \<in> set (store_members (call_time c) (as_userSessions st) uid) \<Longrightarrow> store_get later (as_refresh st') t = None"
    and "store_get later (as_refresh st') t = Some payload \<Longrightarrow> s \<in> set (as_sessions st') \<Longrightarrow> sn_id s = rp_sessionId payload \<Longrightarrow>
      sn_user_id s = uid \<Longrightarrow> distinct (map sn_id (as_sessions st')) \<Longrightarrow>
      fst (rotateRefreshToken cfg jwt later fresh t st') = Inl SessionRevokedError"
    and "verifyAccessToken cfg jwt later st'' token = Some claims \<Longrightarrow> jc_sub claims = uid \<Longrightarrow>
      store_get later (as_revocation st'') (''user:'' @ uid) = store_get later (as_revocation st') (''user:'' @ uid) \<Longrightarrow>
      call_time c + n * 1000 \<le> later"
proof -
  obtain ev h hist reason st2 where st': "st' = publish ev uid (snd (store_password cfg (call_time c) uid h hist reason st2))"
    and same: "as_userSessions st2 = as_userSessions st"
    using run_call_stores [OF assms] .
  note ends = store_password_ends [OF assms(3) refl, where now = "call_time c" and uid = uid and h = h and hist = hist and reason = reason and st = st2]
  show revoked: "s \<in> set (as_sessions st') \<Longrightarrow> sn_user_id s = uid \<Longrightarrow> sn_revoked_at s \<noteq> None" for s
    using ends(1) by (simp add: st' publish_def)
  show "t \<in> set (store_members (call_time c) (as_userSessions st) uid) \<Longrightarrow> store_get later (as_refresh st') t = None"
    using ends(2) by (simp add: st' publish_def same)
  show "fst (rotateRefreshToken cfg jwt later fresh t st') = Inl SessionRevokedError"
    if "store_get later (as_refresh st') t = Some payload" "s \<in> set (as_sessions st')" "sn_id s = rp_sessionId payload"
      "sn_user_id s = uid" "distinct (map sn_id (as_sessions st'))"
  proof -
    have "find (\<lambda>x. sn_id x = rp_sessionId payload) (as_sessions st') = Some s"
      using that(2,3,5) by (intro find_distinct)
    then show ?thesis
      using revoked [OF that(2,4)] that(1)
      by (simp add: rotateRefreshToken_def rotate_consume_def rotate_check_def store_getdel_def split: prod.split)
  qed
  show "call_time c + n * 1000 \<le> later"
    if "verifyAccessToken cfg jwt later st'' token = Some claims" "jc_sub claims = uid"
      "store_get later (as_revocation st'') (''user:'' @ uid) = store_get later (as_revocation st') (''user:'' @ uid)"
  proof (rule ccontr)
    note verified = that(1)
    assume "\<not> call_time c + n * 1000 \<le> later"
    then have "store_get later (as_revocation st'') (''user:'' @ uid) = Some ''1''"
      using ends(3) that(3) by (simp add: st' publish_def)
    moreover obtain ps where "\<not> blocklisted later st'' ps" "typed_claims ps = Some claims"
      using verified by (auto simp: verifyAccessToken_def split: option.splits sum.splits if_splits)
    moreover have "prop_get ps ''sub'' = VStr uid"
      using typed_claims_sub [OF \<open>typed_claims ps = Some claims\<close>] that(2) by simp
    ultimately show False by (simp add: blocklisted_def)
  qed
qed

text \<open>
  After a password was changed or reset, every session of the user is revoked, the refresh tokens known for the
  user are gone, no refresh token of a session of the user can be exchanged, and access tokens of the user are refused
  for as long as they are valid, as long as the block list keeps its entry.
\<close>

theorem password_change_ends_sessions:
  assumes "run_call cfg pj c st = (Inr (), st')" "call_user cfg pj c = Some uid" "getJwtExpirySeconds cfg = Inr n"
  shows "(\<forall>s \<in> set (as_sessions st'). sn_user_id s = uid \<longrightarrow> sn_revoked_at s \<noteq> None) \<and>
    (\<forall>t \<in> set (store_members (call_time c) (as_userSessions st) uid). \<forall>later. store_get later (as_refresh st') t = None) \<and>
    (distinct (map sn_id (as_sessions st')) \<longrightarrow> (\<forall>s \<in> set (as_sessions st'). \<forall>later t payload jwt fresh.
       store_get later (as_refresh st') t = Some payload \<and> sn_id s = rp_sessionId payload \<and> sn_user_id s = uid \<longrightarrow>
       fst (rotateRefreshToken cfg jwt later fresh t st') = Inl SessionRevokedError)) \<and>
    (\<forall>jwt later st'' token claims. verifyAccessToken cfg jwt later st'' token = Some claims \<and> jc_sub claims = uid \<and>
       store_get later (as_revocation st'') (''user:'' @ uid) = store_get later (as_revocation st') (''user:'' @ uid) \<longrightarrow>
       call_time c + n * 1000 \<le> later)"
  using password_change_ends [OF assms] by (intro conjI) blast+

definition demo_signed_in :: AuthState where
  "demo_signed_in = demo_account\<lparr>as_sessions := [demo_session], as_refresh := [(''a'', demo_payload, Some 604800000)],
     as_userSessions := [(''u'', [''a''], Some 2592000000)]\<rparr>"

lemma demo_expiry: "getJwtExpirySeconds demo_env = Inr 900"
  by (simp add: getJwtExpirySeconds_def positive_setting_def demo_env_def)

definition demo_changed :: AuthState where
  "demo_changed = snd (run_call demo_env demo_purpose (Change (salted CHR ''1'') 0 ''u'' ''pw'' ''aa'') demo_signed_in)"

lemma demo_change: "run_call demo_env demo_purpose (Change (salted CHR ''1'') 0 ''u'' ''pw'' ''aa'') demo_signed_in = (Inr (), demo_changed)"
  by (simp add: demo_changed_def run_call_def changePassword_def demo_signed_in_def demo_account_def user_by_id_def demo_user_def salted_def
      compare_password_def hash_password_def reused_def history_to_check_def store_password_def revoke_user_access_def demo_expiry)

lemma demo_changed_users: "map sn_user_id (as_sessions demo_changed) = [''u'']"
  by (simp add: demo_changed_def run_call_def changePassword_def demo_signed_in_def demo_account_def user_by_id_def demo_user_def salted_def
      compare_password_def hash_password_def reused_def history_to_check_def store_password_def revoke_user_access_def demo_expiry
      publish_def delete_user_tokens_def revoke_user_sessions_def revoke_sessions_def update_user_def Let_def empty_state_def demo_session_def)

theorem password_change_ends_sessions_witness:
  "map sn_user_id (as_sessions demo_changed) = [''u''] \<and> list_all (\<lambda>s. sn_revoked_at s \<noteq> None) (as_sessions demo_changed) \<and>
   store_get 5 (as_refresh demo_changed) ''a'' = None"
proof -
  have ends: "(\<forall>s \<in> set (as_sessions demo_changed). sn_user_id s = ''u'' \<longrightarrow> sn_revoked_at s \<noteq> None) \<and>
      (\<forall>t \<in> set (store_members 0 (as_userSessions demo_signed_in) ''u''). \<forall>later. store_get later (as_refresh demo_changed) t = None)"
    using password_change_ends_sessions [OF demo_change _ demo_expiry, of "''u''"] by (simp add: call_user_def call_time_def)
  moreover have "sn_user_id s = ''u''" if "s \<in> set (as_sessions demo_changed)" for s
  proof -
    from that have "sn_user_id s \<in> set (map sn_user_id (as_sessions demo_changed))" by simp
    then show ?thesis by (simp only: demo_changed_users) simp
  qed
  moreover have "''a'' \<in> set (store_members 0 (as_userSessions demo_signed_in) ''u'')"
    by (simp add: demo_signed_in_def store_members_def store_get_def)
  ultimately show ?thesis using demo_changed_users by (auto simp: list_all_iff)
qed

section \<open>Reset tokens\<close>

text \<open>The token ids of the resets that got past the single-use gate, and the accesses to the gate.\<close>

definition reset_id :: "AuthEnv \<Rightarrow> PurposeJwt \<Rightarrow> PasswordCall \<Rightarrow> (nat \<times> string) list" where
  "reset_id cfg pj c =
     (case c of
        Change bc now userId currentPassword newPassword \<Rightarrow> []
      | Reset bc now token newPassword \<Rightarrow>
          (case verify_purpose cfg pj now ''password-reset'' token ResetTokenInvalidError ResetTokenExpiredError of
             Inl e \<Rightarrow> []
           | Inr (userId, jti) \<Rightarrow> [(now, jti)]))"

primrec past_gate :: "AuthEnv \<Rightarrow> PurposeJwt \<Rightarrow> AuthState \<Rightarrow> PasswordCall list \<Rightarrow> string list" where
  "past_gate cfg pj st [] = []"
| "past_gate cfg pj st (c # cs) =
     (case run_call cfg pj c st of
        (r, st') \<Rightarrow> (if r = Inl ResetTokenUsedError then [] else map snd (reset_id cfg pj c)) @ past_gate cfg pj st' cs)"

lemma store_password_gate: "as_resetGate (snd (store_password cfg now i h hist reason st)) = as_resetGate st"
  by (simp add: store_password_def revoke_user_access_def delete_user_tokens_def revoke_user_sessions_def revoke_sessions_def
      update_user_def Let_def split: sum.split)

lemma store_password_errors: "store_password cfg now i h hist reason st = (Inl e, st') \<Longrightarrow> e = ConfigError"
  by (auto simp: store_password_def revoke_user_access_def getJwtExpirySeconds_def positive_setting_def
      split: sum.splits option.splits if_splits)

lemma publish_gate [simp]: "as_resetGate (publish e u st) = as_resetGate st"
  by (simp add: publish_def)

lemma change_gate: "changePassword cfg bc now i cur new st = (r, st') \<Longrightarrow> as_resetGate st' = as_resetGate st"
  using store_password_gate [of cfg now i _ _ "''password_changed''" st]
  by (auto simp: changePassword_def split: option.splits if_splits sum.splits prod.splits) (metis snd_conv)+

lemma reset_gate:
  assumes "resetPassword cfg pj bc now token new st = (r, st')"
    and v: "verify_purpose cfg pj now ''password-reset'' token ResetTokenInvalidError ResetTokenExpiredError = Inr (i, jti)"
  shows "store_getdel now (as_resetGate st) jti = (w, g) \<Longrightarrow> as_resetGate st' = g \<and> (r = Inl ResetTokenUsedError \<longleftrightarrow> w = None)"
proof -
  assume g: "store_getdel now (as_resetGate st) jti = (w, g)"
  show ?thesis
  proof (cases w)
    case None
    then have "g = as_resetGate st" using g by (auto simp: store_getdel_def split: if_splits)
    then show ?thesis using assms g None by (auto simp: resetPassword_def)
  next
    case (Some x)
    show ?thesis
    proof (cases "user_by_id i (st\<lparr>as_resetGate := g\<rparr>)")
      case None
      then show ?thesis using assms g Some by (auto simp: resetPassword_def)
    next
      case u: (Some u)
      define st2 where "st2 = st\<lparr>as_resetGate := g,
         as_resetTokens := map (\<lambda>r. if rt_jti r = jti then r\<lparr>rt_used_at := Some now\<rparr> else r) (as_resetTokens st)\<rparr>"
      obtain q s3 where s3: "store_password cfg now i (bc_hash bc new) (updated_history (us_password_hash u) (us_password_history u)) ''password_reset'' st2 = (q, s3)"
        by fastforce
      then have "as_resetGate s3 = as_resetGate st2"
        using store_password_gate [where st = st2 and i = i and h = "bc_hash bc new"] by (metis snd_conv)
      then have "as_resetGate s3 = g" by (simp add: st2_def)
      moreover have "q \<noteq> Inl ResetTokenUsedError" using store_password_errors s3 by fastforce
      moreover have "(r, st') = (if new = [] then (Inl EmptyPassword, st\<lparr>as_resetGate := g\<rparr>)
          else if reused bc new (us_password_hash u) (us_password_history u) then (Inl PasswordReuseError, st\<lparr>as_resetGate := g\<rparr>)
          else (case q of Inl e \<Rightarrow> (Inl e, s3) | Inr _ \<Rightarrow> (Inr (), publish ''auth.password.reset_completed'' i s3)))"
        unfolding assms(1) [symmetric] using v g Some u s3 by (simp add: resetPassword_def hash_password_def st2_def)
      ultimately show ?thesis using Some by (cases q) (simp_all split: if_splits)
    qed
  qed
qed

lemma past_gate_attempts:
  "past_gate cfg pj st cs = attempts store_getdel (as_resetGate st) (concat (map (reset_id cfg pj) cs))"
proof (induction cs arbitrary: st)
  case (Cons c cs)
  obtain r st' where run: "run_call cfg pj c st = (r, st')" by fastforce
  show ?case
  proof (cases c)
    case (Change bc now i cur new)
    then have "as_resetGate st' = as_resetGate st" using change_gate run by (simp add: run_call_def)
    then show ?thesis using Cons run Change by (simp add: reset_id_def)
  next
    case (Reset bc now token new)
    then have reset: "resetPassword cfg pj bc now token new st = (r, st')" using run by (simp add: run_call_def)
    show ?thesis
    proof (cases "verify_purpose cfg pj now ''password-reset'' token ResetTokenInvalidError ResetTokenExpiredError")
      case (Inl e)
      then have "st' = st" using reset by (auto simp: resetPassword_def)
      then show ?thesis using Cons run Reset Inl by (simp add: reset_id_def)
    next
      case (Inr q)
      then obtain i jti where v: "verify_purpose cfg pj now ''password-reset'' token ResetTokenInvalidError ResetTokenExpiredError = Inr (i, jti)"
        by (cases q) auto
      obtain w g where g: "store_getdel now (as_resetGate st) jti = (w, g)" by fastforce
      show ?thesis using reset_gate [OF reset v g] Cons run Reset v g by (simp add: reset_id_def)
    qed
  qed
qed simp

text \<open>
  Among any changes and resets, at whatever times and for whatever accounts, at most one reset with the same
  token id gets past the single-use gate.
\<close>

theorem reset_token_once: "count_list (past_gate cfg pj st cs) jti \<le> 1"
  unfolding past_gate_attempts by (rule redis.gate_once)

section \<open>Where the service falls short of its comments\<close>

text \<open>
  A failed login writes one more than the count it read before comparing, so however many wrong passwords are
  compared at the same time count as one.
\<close>

lemma overlapping_guesses_count_once:
  assumes "user_by_id uid st = Some r" "us_id u = uid"
  shows "map_option us_failed_login_count (user_by_id uid (foldl (\<lambda>s now. login_failed cfg now u s) st (t # ts))) =
     Some (us_failed_login_count u + 1)"
proof -
  have id: "us_id r = uid" using assms(1) by (rule user_by_id_id)
  have step: "user_by_id uid (login_failed cfg now u s) = map_option (\<lambda>v. if us_id v = us_id u then counted cfg now u v else v) (user_by_id uid s)" for now s
    using user_by_id_users [of "login_failed cfg now u s" "update_user (us_id u) (counted cfg now u) s" uid]
    by (simp add: login_failed_users user_by_id_update update_user_users counted_def)
  have kept: "\<exists>v. user_by_id uid (foldl (\<lambda>s now. login_failed cfg now u s) s ts) = Some v \<and> us_id v = uid \<and>
      us_failed_login_count v = us_failed_login_count u + 1"
    if "user_by_id uid s = Some w" "us_id w = uid" "us_failed_login_count w = us_failed_login_count u + 1" for s w
    using that by (induction ts arbitrary: s w) (auto simp: step assms(2))
  have "user_by_id uid (login_failed cfg t u st) = Some (counted cfg t u r)" by (simp add: step assms id)
  from kept [OF this] show ?thesis by (auto simp: id)
qed

text \<open>A failure that was read before the account was locked removes the lock when it is written afterwards.\<close>

lemma stale_failure_unlocks:
  assumes "user_by_id uid st = Some r" "us_id u = uid" "us_failed_login_count u + 1 < readLockoutMaxAttempts cfg"
  shows "map_option us_locked_until (user_by_id uid (login_failed cfg now u st)) = Some None"
  using user_by_id_users [of "login_failed cfg now u st" "update_user (us_id u) (counted cfg now u) st" uid] assms
    user_by_id_id [OF assms(1)]
  by (simp add: login_failed_users user_by_id_update update_user_users counted_def)

text \<open>A reset link is spent by a new password that is refused, so the user has to ask for another.\<close>

lemma reset_reuse_burns_token:
  defines "st' \<equiv> snd (resetPassword demo_env demo_purpose (salted CHR ''1'') 1 ''token'' ''pw''
     (demo_account\<lparr>as_resetGate := [(''k'', ''1'', Some 3600000)]\<rparr>))"
  shows "fst (resetPassword demo_env demo_purpose (salted CHR ''1'') 1 ''token'' ''pw''
      (demo_account\<lparr>as_resetGate := [(''k'', ''1'', Some 3600000)]\<rparr>)) = Inl PasswordReuseError"
    and "fst (resetPassword demo_env demo_purpose (salted CHR ''1'') 2 ''token'' ''new'' st') = Inl ResetTokenUsedError"
  by (simp_all add: st'_def resetPassword_def demo_verified store_getdel_def store_get_def map_delete_def user_by_id_def demo_account_defs
      hash_password_def reused_def history_to_check_def compare_password_def)

text \<open>The fifth hash of the history is stored and never compared.\<close>

lemma fifth_hash_unchecked: "history_to_check h hist = history_to_check h (take 4 hist)"
  by (simp add: history_to_check_def PASSWORD_HISTORY_DEPTH_def)

text \<open>Without SMTP, a registration that has to verify its address fails after it created the account.\<close>

lemma register_without_smtp:
  assumes "requireEmailVerification cfg" "\<not> hasSmtp cfg" "\<not> is_dev cfg" "register cfg jwt pj bc now uid vj d data st = (r, st')"
  shows "\<nexists>x. r = Inr x"
  using assms by (auto simp: register_def Let_def split: if_splits sum.splits)

lemma register_without_smtp_creates:
  assumes "requireEmailVerification cfg" "\<not> hasSmtp cfg" "\<not> is_dev cfg" "ri_tenantId data \<in> set (as_tenants st)"
    and "find_user (ri_tenantId data) (ri_email data) st = None" "hash_password bc (ri_password data) = Inr h"
  shows "as_users (snd (register cfg jwt pj bc now uid vj d data st)) = as_users st @ [new_user uid data h True]"
  using assms by (simp add: register_def Let_def split: sum.split)

text \<open>
  A request for a reset link answers unknown addresses and, outside development and without SMTP, fails for the address of
  an account: the answers tell the accounts apart.
\<close>

lemma forgot_tells_accounts_apart:
  assumes "\<not> hasSmtp cfg" "\<not> is_dev cfg"
  shows "(\<exists>e. fst (forgotPassword cfg pj now jti email tenant st) = Inl e) \<longleftrightarrow>
     (\<exists>u. find_user tenant email st = Some u \<and> us_is_active u)"
  using assms by (auto simp: forgotPassword_def Let_def split: option.splits sum.splits)

end
