(* ===== verification/RbacService.thy ===== *)
theory RbacService
  imports JsValue
begin

text \<open>
  Entity permissions, \<^verbatim>\<open>services/auth/src/services/rbac-service.ts\<close>: scope and role checks, and what the roles of a user may do
  with the entities of an ontology, which fields they may not see or write and which rows they may see.  The query has
  no \<^verbatim>\<open>ORDER BY\<close>, so the order of its rows is the database's: the argument \<open>plan\<close>, about which nothing is known but that it
  neither adds nor drops rows.
\<close>

section \<open>Data\<close>

record UserContext =
  uc_userId :: string
  uc_tenantId :: string
  uc_roles :: "string list"
  uc_scopes :: "string list"
  uc_isGuest :: bool
  uc_isService :: bool
  uc_emailVerified :: bool

record EntityPermissionRow =
  ep_tenant_id :: string
  ep_entity_type :: string
  ep_role :: string
  ep_actions :: "string list"
  ep_deny_read :: "string list option"
  ep_deny_write :: "string list option"
  ep_row_filter :: "(string, string) dict"

record FieldRestrictions =
  fr_denyRead :: "string list"
  fr_denyWrite :: "string list"

type_synonym Plan = "EntityPermissionRow list \<Rightarrow> EntityPermissionRow list"

definition PRIVILEGED_ROLES :: "string list" where
  "PRIVILEGED_ROLES = [''platform-admin'', ''tenant-admin'']"

section \<open>Operations\<close>

definition hasScope :: "UserContext \<Rightarrow> string \<Rightarrow> bool" where
  "hasScope user scope \<longleftrightarrow> ''admin'' \<in> set (uc_scopes user) \<or> scope \<in> set (uc_scopes user)"

definition hasRole :: "UserContext \<Rightarrow> string \<Rightarrow> bool" where
  "hasRole user role \<longleftrightarrow> role \<in> set (uc_roles user)"

definition fetchEntityPermissions :: "Plan \<Rightarrow> EntityPermissionRow list \<Rightarrow> string \<Rightarrow> string \<Rightarrow> string list \<Rightarrow> EntityPermissionRow list" where
  "fetchEntityPermissions plan table tenantId entityType roles =
     (if roles = [] then []
      else plan (filter (\<lambda>r. ep_tenant_id r = tenantId \<and> (ep_entity_type r = entityType \<or> ep_entity_type r = ''*'') \<and>
                              ep_role r \<in> set roles) table))"

definition privileged :: "UserContext \<Rightarrow> bool" where
  "privileged user \<longleftrightarrow> (\<exists>r \<in> set (uc_roles user). r \<in> set PRIVILEGED_ROLES)"

definition canAccessEntity :: "Plan \<Rightarrow> EntityPermissionRow list \<Rightarrow> UserContext \<Rightarrow> string \<Rightarrow> string \<Rightarrow> bool" where
  "canAccessEntity plan table user entityType action =
     (if privileged user then True
      else let rows = fetchEntityPermissions plan table (uc_tenantId user) entityType (uc_roles user)
           in if rows = [] then False
              else (\<exists>row \<in> set rows. action \<in> set (ep_actions row) \<or> ''admin'' \<in> set (ep_actions row)))"

text \<open>A \<^verbatim>\<open>Set\<close> made from an array keeps the first occurrences; \<open>intersectSets\<close> deletes from a copy of the first set.\<close>

definition set_from :: "string list \<Rightarrow> string list" where
  "set_from xs = foldl (\<lambda>s x. if x \<in> set s then s else s @ [x]) [] xs"

definition intersectSets :: "string list list \<Rightarrow> string list" where
  "intersectSets sets =
     (case sets of
        [] \<Rightarrow> []
      | first # rest \<Rightarrow> foldl (\<lambda>intersection s. filter (\<lambda>item. item \<in> set s) intersection) first rest)"

definition denied :: "string list option \<Rightarrow> string list" where
  "denied xs = set_from (case xs of None \<Rightarrow> [] | Some fs \<Rightarrow> fs)"

definition getFieldRestrictions :: "Plan \<Rightarrow> EntityPermissionRow list \<Rightarrow> UserContext \<Rightarrow> string \<Rightarrow> FieldRestrictions" where
  "getFieldRestrictions plan table user entityType =
     (if privileged user then \<lparr>fr_denyRead = [], fr_denyWrite = []\<rparr>
      else let rows = fetchEntityPermissions plan table (uc_tenantId user) entityType (uc_roles user)
           in if rows = [] then \<lparr>fr_denyRead = [], fr_denyWrite = []\<rparr>
              else \<lparr>fr_denyRead = intersectSets (map (denied \<circ> ep_deny_read) rows),
                    fr_denyWrite = intersectSets (map (denied \<circ> ep_deny_write) rows)\<rparr>)"

text \<open>\<^verbatim>\<open>field in merged\<close> also finds the members of \<^verbatim>\<open>Object.prototype\<close>.\<close>

definition merge_filter :: "(string, string) dict \<Rightarrow> (string, string) dict \<Rightarrow> (string, string) dict" where
  "merge_filter merged row_filter =
     foldl (\<lambda>m (field, v). if dict_has m field \<or> field \<in> set (''__proto__'' # object_prototype) then m else obj_set m field v)
       merged row_filter"

definition getRowFilter :: "Plan \<Rightarrow> EntityPermissionRow list \<Rightarrow> UserContext \<Rightarrow> string \<Rightarrow> (string, string) dict" where
  "getRowFilter plan table user entityType =
     (if privileged user then []
      else let rows = fetchEntityPermissions plan table (uc_tenantId user) entityType (uc_roles user)
           in if rows = [] then [] else foldl (\<lambda>m row. merge_filter m (ep_row_filter row)) [] rows)"

end
