(* ===== verification/ApiKeyService.thy ===== *)
theory ApiKeyService
  imports AuthService RbacService "HOL-Library.Product_Lexorder" "HOL-Library.List_Lexorder" "HOL-Library.Char_ord"
begin

text \<open>
  API keys, \<^verbatim>\<open>services/auth/src/services/api-key-service.ts\<close>: creation within the scopes of the caller, validation by a stored
  prefix and bcrypt, listing by pages, revocation and rotation, over the table \<^verbatim>\<open>auth.api_keys\<close> with its constraints and the
  Redis block list.  Random values and the time of the database, in microseconds, are arguments; the order in which the
  database answers the lookup by prefix is the argument \<open>plan\<close>.
\<close>

section \<open>Data\<close>

definition KEY_PREFIX_TEXT :: string where "KEY_PREFIX_TEXT = ''op_live_''"
definition PREFIX_CHARS :: nat where "PREFIX_CHARS = 8"
definition REVOCATION_TTL_SECONDS :: nat where "REVOCATION_TTL_SECONDS = 2592000"

record ApiKeyRow =
  ak_id :: string
  ak_user_id :: string
  ak_tenant_id :: string
  ak_name :: string
  ak_key_hash :: string
  ak_key_prefix :: string
  ak_scopes :: "string list"
  ak_expires_at :: "nat option"
  ak_last_used_at :: "nat option"
  ak_created_at :: nat
  ak_revoked_at :: "nat option"
  ak_revoked_by :: "string option"

record KeyState =
  ks_users :: "UserRow list"
  ks_tenants :: "string list"
  ks_keys :: "ApiKeyRow list"
  ks_revocation :: "string store"
  ks_events :: "(string \<times> string) list"

datatype key_error = KeyForbidden | KeyNotFound | KeyDatabaseError string | InvalidCursor

record CreateApiKeyInput =
  ci_name :: string
  ci_scopes :: "string list"
  ci_expiresAt :: "nat option"

text \<open>Unlike \<^verbatim>\<open>resolveRounds\<close> a bad setting falls back to the default.\<close>

definition getBcryptRounds :: "string option \<Rightarrow> int" where
  "getBcryptRounds raw =
     (case raw of
        None \<Rightarrow> DEFAULT_BCRYPT_ROUNDS
      | Some s \<Rightarrow> (case parse_int10 s of
                    None \<Rightarrow> DEFAULT_BCRYPT_ROUNDS
                  | Some n \<Rightarrow> if n < MIN_BCRYPT_ROUNDS then DEFAULT_BCRYPT_ROUNDS else n))"

text \<open>The full key and its prefix for the random part.\<close>

definition generateRawKey :: "string \<Rightarrow> string \<times> string" where
  "generateRawKey randomPart = (KEY_PREFIX_TEXT @ randomPart, take PREFIX_CHARS randomPart)"

text \<open>\<^verbatim>\<open>INSERT\<close> with the constraints of the table.\<close>

definition insert_key :: "ApiKeyRow \<Rightarrow> KeyState \<Rightarrow> (key_error + unit) \<times> KeyState" where
  "insert_key row st =
     (if list_all (\<lambda>c. c = CHR '' '') (ak_name row) then (Inl (KeyDatabaseError ''api_keys_name_not_empty''), st)
      else if length (ak_key_prefix row) \<noteq> 8 then (Inl (KeyDatabaseError ''api_keys_prefix_length''), st)
      else if \<exists>r \<in> set (ks_keys st). ak_id r = ak_id row then (Inl (KeyDatabaseError ''api_keys_pkey''), st)
      else if \<exists>r \<in> set (ks_keys st). ak_user_id r = ak_user_id row \<and> ak_name r = ak_name row
      then (Inl (KeyDatabaseError ''api_keys_name_per_user''), st)
      else if ak_user_id row \<notin> us_id ` set (ks_users st) \<or> ak_tenant_id row \<notin> set (ks_tenants st)
      then (Inl (KeyDatabaseError ''api_keys_fkey''), st)
      else (Inr (), st\<lparr>ks_keys := ks_keys st @ [row]\<rparr>))"

definition key_event :: "string \<Rightarrow> string \<Rightarrow> KeyState \<Rightarrow> KeyState" where
  "key_event eventType keyId st = st\<lparr>ks_events := ks_events st @ [(eventType, keyId)]\<rparr>"

section \<open>Create and validate\<close>

definition create_key ::
  "Bcrypt \<Rightarrow> nat \<Rightarrow> string \<Rightarrow> string \<Rightarrow> string \<Rightarrow> string \<Rightarrow> CreateApiKeyInput \<Rightarrow> string list \<Rightarrow> KeyState \<Rightarrow>
     (key_error + string \<times> ApiKeyRow) \<times> KeyState" where
  "create_key bc now keyId randomPart userId tenantId data callerScopes st =
     (if \<exists>s \<in> set (ci_scopes data). s \<notin> set callerScopes then (Inl KeyForbidden, st)
      else let (fullKey, keyPrefix) = generateRawKey randomPart;
               row = \<lparr>ak_id = keyId, ak_user_id = userId, ak_tenant_id = tenantId, ak_name = ci_name data,
                      ak_key_hash = bc_hash bc fullKey, ak_key_prefix = keyPrefix, ak_scopes = ci_scopes data,
                      ak_expires_at = ci_expiresAt data, ak_last_used_at = None, ak_created_at = now,
                      ak_revoked_at = None, ak_revoked_by = None\<rparr>
           in (case insert_key row st of
                 (Inl e, st1) \<Rightarrow> (Inl e, st1)
               | (Inr _, st1) \<Rightarrow> (Inr (fullKey, row), key_event ''auth.key.created'' keyId st1)))"

text \<open>The rows that the lookup by prefix is answered from.\<close>

definition live_keys :: "nat \<Rightarrow> string \<Rightarrow> KeyState \<Rightarrow> ApiKeyRow list" where
  "live_keys now keyPrefix st =
     filter (\<lambda>r. ak_key_prefix r = keyPrefix \<and> ak_revoked_at r = None \<and> (case ak_expires_at r of None \<Rightarrow> True | Some t \<Rightarrow> now < t))
       (ks_keys st)"

definition update_key :: "string \<Rightarrow> (ApiKeyRow \<Rightarrow> ApiKeyRow) \<Rightarrow> KeyState \<Rightarrow> KeyState" where
  "update_key keyId f st = st\<lparr>ks_keys := map (\<lambda>r. if ak_id r = keyId then f r else r) (ks_keys st)\<rparr>"

definition key_context :: "ApiKeyRow \<Rightarrow> KeyState \<Rightarrow> UserContext" where
  "key_context row st =
     (let user = find (\<lambda>u. us_id u = ak_user_id row) (ks_users st)
      in \<lparr>uc_userId = ak_user_id row, uc_tenantId = ak_tenant_id row,
          uc_roles = (case user of None \<Rightarrow> [] | Some u \<Rightarrow> us_roles u), uc_scopes = ak_scopes row, uc_isGuest = False, uc_isService = False,
          uc_emailVerified = (case user of None \<Rightarrow> True | Some u \<Rightarrow> us_email_verified u)\<rparr>)"

text \<open>The row that a key belongs to; at most five rows are compared.\<close>

definition match_key :: "Bcrypt \<Rightarrow> (ApiKeyRow list \<Rightarrow> ApiKeyRow list) \<Rightarrow> nat \<Rightarrow> string \<Rightarrow> KeyState \<Rightarrow> ApiKeyRow option" where
  "match_key bc plan now key st =
     (if \<not> starts_with key KEY_PREFIX_TEXT then None
      else let keyPrefix = take PREFIX_CHARS (drop (length KEY_PREFIX_TEXT) key)
           in if length keyPrefix < PREFIX_CHARS then None
              else find (\<lambda>r. bc_compare bc key (ak_key_hash r)) (take 5 (plan (live_keys now keyPrefix st))))"

definition validate_key ::
  "Bcrypt \<Rightarrow> (ApiKeyRow list \<Rightarrow> ApiKeyRow list) \<Rightarrow> nat \<Rightarrow> string \<Rightarrow> KeyState \<Rightarrow> UserContext option \<times> KeyState" where
  "validate_key bc plan now key st =
     (case match_key bc plan now key st of
        None \<Rightarrow> (None, st)
      | Some row \<Rightarrow>
          if store_get (now div 1000) (ks_revocation st) (ak_id row) \<noteq> None then (None, st)
          else (Some (key_context row st), update_key (ak_id row) (\<lambda>r. r\<lparr>ak_last_used_at := Some now\<rparr>) st))"

section \<open>Lists\<close>

datatype KeyStatus = KeysActive | KeysRevoked | KeysAll

text \<open>A cursor is base64url text with the time and id of the last key; the time is an ISO text, in milliseconds.\<close>

datatype KeyCursor = NoCursor | BadCursor | Before nat string

definition status_clause :: "KeyStatus \<Rightarrow> ApiKeyRow \<Rightarrow> bool" where
  "status_clause status r \<longleftrightarrow>
     (case status of KeysActive \<Rightarrow> ak_revoked_at r = None | KeysRevoked \<Rightarrow> ak_revoked_at r \<noteq> None | KeysAll \<Rightarrow> True)"

definition key_limit :: "int option \<Rightarrow> nat" where
  "key_limit l = nat (min (max (case l of None \<Rightarrow> 50 | Some n \<Rightarrow> n) 1) 200)"

definition key_page :: "(ApiKeyRow \<Rightarrow> bool) \<Rightarrow> KeyCursor \<Rightarrow> nat \<Rightarrow> KeyState \<Rightarrow> ApiKeyRow list" where
  "key_page P cursor limit st =
     take limit (rev (sort_key (\<lambda>r. (ak_created_at r, ak_id r))
       (filter (\<lambda>r. P r \<and> (case cursor of Before ms i \<Rightarrow> (ak_created_at r, ak_id r) < (1000 * ms, i) | _ \<Rightarrow> True)) (ks_keys st))))"

definition key_next :: "nat \<Rightarrow> ApiKeyRow list \<Rightarrow> KeyCursor" where
  "key_next limit keys =
     (if length keys = limit \<and> keys \<noteq> [] then Before (ak_created_at (last keys) div 1000) (ak_id (last keys)) else NoCursor)"

definition list_keys ::
  "string \<Rightarrow> KeyStatus option \<Rightarrow> int option \<Rightarrow> KeyCursor \<Rightarrow> KeyState \<Rightarrow> key_error + ApiKeyRow list \<times> KeyCursor \<times> nat" where
  "list_keys userId status limit cursor st =
     (if cursor = BadCursor then Inl InvalidCursor
      else let P = (\<lambda>r. ak_user_id r = userId \<and> status_clause (case status of None \<Rightarrow> KeysActive | Some s \<Rightarrow> s) r);
               keys = key_page P cursor (key_limit limit) st
           in Inr (keys, key_next (key_limit limit) keys, length (filter P (ks_keys st))))"

text \<open>The list for administrators joins the owner's name and address.\<close>

definition listAllKeys ::
  "KeyStatus option \<Rightarrow> int option \<Rightarrow> KeyCursor \<Rightarrow> KeyState \<Rightarrow>
     key_error + (ApiKeyRow \<times> string option \<times> string) list \<times> KeyCursor \<times> nat" where
  "listAllKeys status limit cursor st =
     (if cursor = BadCursor then Inl InvalidCursor
      else let P = status_clause (case status of None \<Rightarrow> KeysActive | Some s \<Rightarrow> s);
               owned = (\<lambda>r. ak_user_id r \<in> us_id ` set (ks_users st));
               keys = key_page (\<lambda>r. P r \<and> owned r) cursor (key_limit limit) st
           in Inr (map (\<lambda>r. case find (\<lambda>u. us_id u = ak_user_id r) (ks_users st) of
                              None \<Rightarrow> (r, None, [])
                            | Some u \<Rightarrow> (r, us_display_name u, us_email u)) keys,
                   key_next (key_limit limit) keys, length (filter P (ks_keys st))))"

section \<open>Revoke and rotate\<close>

definition block_key :: "nat \<Rightarrow> string \<Rightarrow> KeyState \<Rightarrow> KeyState" where
  "block_key now keyId st = st\<lparr>ks_revocation := store_set_ex (now div 1000) (ks_revocation st) keyId ''1'' REVOCATION_TTL_SECONDS\<rparr>"

text \<open>\<open>revoke_where\<close> is the common part of \<^verbatim>\<open>revoke\<close> and \<^verbatim>\<open>revokeAsAdmin\<close>.\<close>

definition revoke_where :: "(ApiKeyRow \<Rightarrow> bool) \<Rightarrow> nat \<Rightarrow> string \<Rightarrow> string \<Rightarrow> KeyState \<Rightarrow> (key_error + unit) \<times> KeyState" where
  "revoke_where P now keyId revokedBy st =
     (if \<not> (\<exists>r \<in> set (ks_keys st). ak_id r = keyId \<and> P r \<and> ak_revoked_at r = None) then (Inl KeyNotFound, st)
      else let st1 = update_key keyId
                       (\<lambda>r. if P r \<and> ak_revoked_at r = None then r\<lparr>ak_revoked_at := Some now, ak_revoked_by := Some revokedBy\<rparr> else r) st
           in (Inr (), key_event ''auth.key.revoked'' keyId (block_key now keyId st1)))"

definition revoke_key :: "nat \<Rightarrow> string \<Rightarrow> string \<Rightarrow> string \<Rightarrow> KeyState \<Rightarrow> (key_error + unit) \<times> KeyState" where
  "revoke_key now keyId revokedBy tenantId st = revoke_where (\<lambda>r. ak_tenant_id r = tenantId) now keyId revokedBy st"

definition revokeAsAdmin :: "nat \<Rightarrow> string \<Rightarrow> string \<Rightarrow> KeyState \<Rightarrow> (key_error + unit) \<times> KeyState" where
  "revokeAsAdmin now keyId revokedBy st = revoke_where (\<lambda>r. True) now keyId revokedBy st"

text \<open>An error inside the transaction rolls it back.\<close>

definition rotate_key ::
  "Bcrypt \<Rightarrow> nat \<Rightarrow> string \<Rightarrow> string \<Rightarrow> string \<Rightarrow> string \<Rightarrow> string \<Rightarrow> KeyState \<Rightarrow> (key_error + string \<times> ApiKeyRow) \<times> KeyState" where
  "rotate_key bc now newId randomPart keyId userId tenantId st =
     (case find (\<lambda>r. ak_id r = keyId \<and> ak_tenant_id r = tenantId \<and> ak_revoked_at r = None) (ks_keys st) of
        None \<Rightarrow> (Inl KeyNotFound, st)
      | Some existing \<Rightarrow>
          if ak_user_id existing \<noteq> userId then (Inl KeyForbidden, st)
          else let (fullKey, keyPrefix) = generateRawKey randomPart;
                   st1 = update_key keyId (\<lambda>r. r\<lparr>ak_revoked_at := Some now, ak_revoked_by := Some userId\<rparr>) st;
                   row = \<lparr>ak_id = newId, ak_user_id = ak_user_id existing, ak_tenant_id = ak_tenant_id existing, ak_name = ak_name existing,
                          ak_key_hash = bc_hash bc fullKey, ak_key_prefix = keyPrefix, ak_scopes = ak_scopes existing,
                          ak_expires_at = ak_expires_at existing, ak_last_used_at = None, ak_created_at = now,
                          ak_revoked_at = None, ak_revoked_by = None\<rparr>
               in (case insert_key row st1 of
                     (Inl e, _) \<Rightarrow> (Inl e, st)
                   | (Inr _, st2) \<Rightarrow> (Inr (fullKey, row), key_event ''auth.key.created'' newId (block_key now keyId st2))))"

end
