(* ===== verification/RbacProperties.thy ===== *)
theory RbacProperties
  imports RbacService
begin

text \<open>
  Entity permissions against a reference policy on the set of matching rows, which does not know the order of rows: what
  is granted, which fields are hidden, how more roles change both; and what becomes of row filters.
\<close>

section \<open>The reference policy\<close>

definition grants :: "EntityPermissionRow list \<Rightarrow> UserContext \<Rightarrow> string \<Rightarrow> EntityPermissionRow set" where
  "grants table user entityType =
     {r \<in> set table. ep_tenant_id r = uc_tenantId user \<and> ep_entity_type r \<in> {entityType, ''*''} \<and> ep_role r \<in> set (uc_roles user)}"

definition policy_allows :: "EntityPermissionRow list \<Rightarrow> UserContext \<Rightarrow> string \<Rightarrow> string \<Rightarrow> bool" where
  "policy_allows table user entityType action \<longleftrightarrow>
     privileged user \<or> (\<exists>r \<in> grants table user entityType. {action, ''admin''} \<inter> set (ep_actions r) \<noteq> {})"

definition policy_hidden :: "(EntityPermissionRow \<Rightarrow> string list option) \<Rightarrow> EntityPermissionRow list \<Rightarrow> UserContext \<Rightarrow> string \<Rightarrow> string set" where
  "policy_hidden f table user entityType =
     (if privileged user \<or> grants table user entityType = {} then {}
      else {field. \<forall>r \<in> grants table user entityType. \<exists>fs. f r = Some fs \<and> field \<in> set fs})"

definition keeps_rows :: "Plan \<Rightarrow> bool" where
  "keeps_rows plan \<longleftrightarrow> (\<forall>rows. mset (plan rows) = mset rows)"

lemma keeps_rows_set: "keeps_rows plan \<Longrightarrow> set (plan rows) = set rows"
  unfolding keeps_rows_def by (metis set_mset_mset)

lemma fetched:
  assumes "keeps_rows plan"
  shows "set (fetchEntityPermissions plan table (uc_tenantId user) entityType (uc_roles user)) = grants table user entityType"
  by (auto simp: fetchEntityPermissions_def grants_def keeps_rows_set [OF assms])

lemma fetched_none:
  "keeps_rows plan \<Longrightarrow>
     fetchEntityPermissions plan table (uc_tenantId user) entityType (uc_roles user) = [] \<longleftrightarrow> grants table user entityType = {}"
  using fetched [of plan table user entityType] by (metis set_empty)

section \<open>Sets made from arrays\<close>

lemma set_from_set [simp]: "set (set_from xs) = set xs"
proof -
  have "set (foldl (\<lambda>s x. if x \<in> set s then s else s @ [x]) acc xs) = set acc \<union> set xs" for acc
    by (induction xs arbitrary: acc) auto
  then show ?thesis by (simp add: set_from_def)
qed

lemma denied_set: "x \<in> set (denied fs) \<longleftrightarrow> (\<exists>xs. fs = Some xs \<and> x \<in> set xs)"
  by (auto simp: denied_def split: option.split)

lemma foldl_filter_set: "set (foldl (\<lambda>i s. filter (\<lambda>x. x \<in> set s) i) first rest) = {x \<in> set first. \<forall>s \<in> set rest. x \<in> set s}"
  by (induction rest arbitrary: first) auto

lemma intersectSets_set: "sets \<noteq> [] \<Longrightarrow> x \<in> set (intersectSets sets) \<longleftrightarrow> (\<forall>s \<in> set sets. x \<in> set s)"
  by (cases sets) (auto simp: intersectSets_def foldl_filter_set)

lemma hidden_by_all:
  "rows \<noteq> [] \<Longrightarrow> set (intersectSets (map (denied \<circ> f) rows)) = {field. \<forall>r \<in> set rows. \<exists>fs. f r = Some fs \<and> field \<in> set fs}"
  by (auto simp: intersectSets_set denied_set)

lemma restrictions_hidden:
  assumes "keeps_rows plan"
  shows "set (fr_denyRead (getFieldRestrictions plan table user entityType)) = policy_hidden ep_deny_read table user entityType"
    and "set (fr_denyWrite (getFieldRestrictions plan table user entityType)) = policy_hidden ep_deny_write table user entityType"
proof -
  let ?rows = "fetchEntityPermissions plan table (uc_tenantId user) entityType (uc_roles user)"
  have "set (fr_denyRead (getFieldRestrictions plan table user entityType)) = policy_hidden ep_deny_read table user entityType \<and>
      set (fr_denyWrite (getFieldRestrictions plan table user entityType)) = policy_hidden ep_deny_write table user entityType"
  proof (cases "privileged user \<or> ?rows = []")
    case True
    then show ?thesis using fetched_none [OF assms, of table user entityType] by (auto simp: getFieldRestrictions_def policy_hidden_def)
  next
    case False
    then show ?thesis
      using hidden_by_all [of ?rows] fetched [OF assms, of table user entityType] fetched_none [OF assms, of table user entityType]
      by (simp add: getFieldRestrictions_def policy_hidden_def Let_def)
  qed
  then show "set (fr_denyRead (getFieldRestrictions plan table user entityType)) = policy_hidden ep_deny_read table user entityType"
    "set (fr_denyWrite (getFieldRestrictions plan table user entityType)) = policy_hidden ep_deny_write table user entityType"
    by simp_all
qed

lemma access_allowed:
  assumes "keeps_rows plan"
  shows "canAccessEntity plan table user entityType action \<longleftrightarrow> policy_allows table user entityType action"
  by (auto simp: canAccessEntity_def policy_allows_def Let_def fetched [OF assms] fetched_none [OF assms])

text \<open>
  Property C21: in whatever order the database answers, access, hidden and read-only fields are those of the reference
  policy: access needs one role that grants the action (or \<^verbatim>\<open>admin\<close>), a field is hidden when every role with permissions
  on the entity hides it.
\<close>

theorem rbac_is_policy:
  assumes "keeps_rows plan"
  shows "canAccessEntity plan table user entityType action = policy_allows table user entityType action \<and>
    set (fr_denyRead (getFieldRestrictions plan table user entityType)) = policy_hidden ep_deny_read table user entityType \<and>
    set (fr_denyWrite (getFieldRestrictions plan table user entityType)) = policy_hidden ep_deny_write table user entityType"
  using access_allowed [OF assms] restrictions_hidden [OF assms] by simp

lemma grants_mono:
  "set (uc_roles user) \<subseteq> set (uc_roles wider) \<Longrightarrow> uc_tenantId user = uc_tenantId wider \<Longrightarrow>
     grants table user entityType \<subseteq> grants table wider entityType"
  by (auto simp: grants_def)

lemma privileged_mono: "set (uc_roles user) \<subseteq> set (uc_roles wider) \<Longrightarrow> privileged user \<Longrightarrow> privileged wider"
  by (auto simp: privileged_def)

text \<open>
  More roles never take away: what a user may do to an entity, and every field the user may see once there is
  an action the user may do, stays so with further roles of the tenant.
\<close>

theorem more_roles_allow_more:
  assumes "keeps_rows plan" "set (uc_roles user) \<subseteq> set (uc_roles wider)" "uc_tenantId user = uc_tenantId wider"
    and "canAccessEntity plan table user entityType action"
  shows "canAccessEntity plan table wider entityType action \<and>
    set (fr_denyRead (getFieldRestrictions plan table wider entityType)) \<subseteq> set (fr_denyRead (getFieldRestrictions plan table user entityType)) \<and>
    set (fr_denyWrite (getFieldRestrictions plan table wider entityType)) \<subseteq> set (fr_denyWrite (getFieldRestrictions plan table user entityType))"
proof -
  note mono = grants_mono [OF assms(2,3), of table entityType] privileged_mono [OF assms(2)]
  have "policy_allows table user entityType action" using assms(4) access_allowed [OF assms(1)] by blast
  then have some: "privileged user \<or> grants table user entityType \<noteq> {}" by (auto simp: policy_allows_def)
  have "policy_hidden f table wider entityType \<subseteq> policy_hidden f table user entityType" for f
    using some mono by (auto simp: policy_hidden_def split: if_splits)
  moreover have "policy_allows table wider entityType action"
    using \<open>policy_allows table user entityType action\<close> mono by (auto simp: policy_allows_def)
  ultimately show ?thesis using access_allowed [OF assms(1)] restrictions_hidden [OF assms(1)] by simp
qed

section \<open>Row filters\<close>

definition filterable :: "string \<Rightarrow> bool" where
  "filterable field \<longleftrightarrow> field \<notin> set (''__proto__'' # object_prototype)"

lemma merge_filter_simps [simp]:
  "merge_filter m [] = m"
  "merge_filter m ((g, w) # ps) = merge_filter (if dict_has m g \<or> \<not> filterable g then m else obj_set m g w) ps"
  by (simp_all only: merge_filter_def filterable_def foldl_Nil foldl_Cons prod.case not_not)

lemma merge_filter_keys:
  "fst ` set (merge_filter m ps) = fst ` set m \<union> {f \<in> fst ` set ps. filterable f}"
proof (induction ps arbitrary: m)
  case (Cons p ps)
  obtain g w where "p = (g, w)" by (cases p)
  then show ?case using Cons [of "if dict_has m g \<or> \<not> filterable g then m else obj_set m g w"] by auto
qed simp

lemma merge_filter_values:
  "map_of (merge_filter m ps) f = Some v \<Longrightarrow> map_of m f = Some v \<or> (f, v) \<in> set ps"
proof (induction ps arbitrary: m)
  case (Cons p ps)
  obtain g w where p: "p = (g, w)" by (cases p)
  then show ?case using Cons.IH [of "if dict_has m g \<or> \<not> filterable g then m else obj_set m g w"] Cons.prems
    by (auto split: if_splits)
qed simp

lemma merged_keys:
  "fst ` set (foldl (\<lambda>m row. merge_filter m (ep_row_filter row)) m rows) =
     fst ` set m \<union> {f. filterable f \<and> (\<exists>r \<in> set rows. f \<in> fst ` set (ep_row_filter r))}"
  by (induction rows arbitrary: m) (auto simp: merge_filter_keys)

lemma merged_values:
  "map_of (foldl (\<lambda>m row. merge_filter m (ep_row_filter row)) m rows) f = Some v \<Longrightarrow>
     map_of m f = Some v \<or> (\<exists>r \<in> set rows. (f, v) \<in> set (ep_row_filter r))"
proof (induction rows arbitrary: m)
  case (Cons r rows)
  then have "map_of (merge_filter m (ep_row_filter r)) f = Some v \<or> (\<exists>r \<in> set rows. (f, v) \<in> set (ep_row_filter r))" by simp
  then show ?case using merge_filter_values [of m "ep_row_filter r" f v] by auto
qed simp

text \<open>
  The row filter of a user without a privileged role has a condition for exactly the fields that a filter of
  a matching row names, each with a value that such a row gives; members of \<^verbatim>\<open>Object.prototype\<close> are left out.
\<close>

theorem row_filter_spec:
  assumes "keeps_rows plan" "\<not> privileged user"
  shows "fst ` set (getRowFilter plan table user entityType) =
      {f. filterable f \<and> (\<exists>r \<in> grants table user entityType. f \<in> fst ` set (ep_row_filter r))} \<and>
    (\<forall>f v. map_of (getRowFilter plan table user entityType) f = Some v \<longrightarrow>
      (\<exists>r \<in> grants table user entityType. (f, v) \<in> set (ep_row_filter r)))"
proof -
  let ?rows = "fetchEntityPermissions plan table (uc_tenantId user) entityType (uc_roles user)"
  have "getRowFilter plan table user entityType = foldl (\<lambda>m row. merge_filter m (ep_row_filter row)) [] ?rows"
    using assms(2) by (simp add: getRowFilter_def Let_def)
  then show ?thesis
    using merged_keys [of "[]" ?rows] merged_values [of "[]" ?rows] by (auto simp: fetched [OF assms(1)])
qed

section \<open>A concrete tenant\<close>

definition demo_rule :: "string \<Rightarrow> string list option \<Rightarrow> (string \<times> string) list \<Rightarrow> EntityPermissionRow" where
  "demo_rule role hidden rows =
     \<lparr>ep_tenant_id = ''t'', ep_entity_type = ''order'', ep_role = role, ep_actions = [''read''], ep_deny_read = hidden,
      ep_deny_write = None, ep_row_filter = rows\<rparr>"

definition demo_rules :: "EntityPermissionRow list" where
  "demo_rules =
     [demo_rule ''sales'' (Some [''ssn'', ''cost'']) [(''region'', ''north''), (''constructor'', ''$userId'')],
      demo_rule ''audit'' (Some [''ssn'']) [(''region'', ''south'')]]"

definition demo_person :: "string list \<Rightarrow> UserContext" where
  "demo_person roles = \<lparr>uc_userId = ''u'', uc_tenantId = ''t'', uc_roles = roles, uc_scopes = [], uc_isGuest = False, uc_isService = False,
     uc_emailVerified = True\<rparr>"

lemmas demo_rbac_defs = demo_rules_def demo_rule_def demo_person_def

lemma order_kept: "keeps_rows (\<lambda>rows. rows)" "keeps_rows rev"
  by (simp_all add: keeps_rows_def)

theorem rbac_is_policy_witness:
  "policy_hidden ep_deny_read demo_rules (demo_person [''sales'', ''audit'']) ''order'' = {''ssn''} \<and>
   policy_allows demo_rules (demo_person [''sales'', ''audit'']) ''order'' ''read''"
proof -
  note eq = rbac_is_policy [OF order_kept(1), of demo_rules "demo_person [''sales'', ''audit'']" "''order''" "''read''"]
  have "canAccessEntity (\<lambda>rows. rows) demo_rules (demo_person [''sales'', ''audit'']) ''order'' ''read''"
    by (simp add: canAccessEntity_def fetchEntityPermissions_def demo_rbac_defs Let_def)
  moreover have "set (fr_denyRead (getFieldRestrictions (\<lambda>rows. rows) demo_rules (demo_person [''sales'', ''audit'']) ''order'')) = {''ssn''}"
    by (simp add: getFieldRestrictions_def fetchEntityPermissions_def demo_rbac_defs Let_def privileged_def PRIVILEGED_ROLES_def
        intersectSets_def denied_def set_from_def)
  ultimately show ?thesis using eq by simp
qed

theorem more_roles_allow_more_witness:
  "canAccessEntity rev demo_rules (demo_person [''sales'', ''audit'']) ''order'' ''read''"
proof -
  have "canAccessEntity rev demo_rules (demo_person [''audit'']) ''order'' ''read''"
    by (simp add: canAccessEntity_def fetchEntityPermissions_def demo_rbac_defs Let_def)
  from more_roles_allow_more [OF order_kept(2) _ _ this, of "demo_person [''sales'', ''audit'']"] show ?thesis
    by (simp add: demo_person_def)
qed

theorem row_filter_spec_witness:
  "fst ` set (getRowFilter (\<lambda>rows. rows) demo_rules (demo_person [''sales'']) ''order'') = {''region''}"
proof -
  have "\<not> privileged (demo_person [''sales''])" by (simp add: privileged_def demo_person_def PRIVILEGED_ROLES_def)
  moreover have "{f. filterable f \<and> (\<exists>r \<in> grants demo_rules (demo_person [''sales'']) ''order''. f \<in> fst ` set (ep_row_filter r))} = {''region''}"
  proof -
    have "grants demo_rules (demo_person [''sales'']) ''order'' = {demo_rule ''sales'' (Some [''ssn'', ''cost'']) [(''region'', ''north''), (''constructor'', ''$userId'')]}"
      by (auto simp: grants_def demo_rbac_defs)
    moreover have "filterable ''region''" "\<not> filterable ''constructor''" by (simp_all add: filterable_def object_prototype_def)
    ultimately show ?thesis by (auto simp: demo_rule_def)
  qed
  ultimately show ?thesis using row_filter_spec [OF order_kept(1), of "demo_person [''sales'']" demo_rules "''order''"] by simp
qed

section \<open>Where the service falls short of its comments\<close>

text \<open>A filter on a field named like a member of \<^verbatim>\<open>Object.prototype\<close> is lost: the rows are not restricted.\<close>

lemma inherited_filter_lost:
  "getRowFilter (\<lambda>rows. rows) [demo_rule ''sales'' None [(''constructor'', ''$userId'')]] (demo_person [''sales'']) ''order'' = []"
  by (simp add: getRowFilter_def fetchEntityPermissions_def demo_rbac_defs Let_def privileged_def PRIVILEGED_ROLES_def merge_filter_def
      object_prototype_def)

text \<open>Of two filters on one field only one applies, and which one is up to the database.\<close>

lemma conflicting_filters:
  "map_of (getRowFilter (\<lambda>rows. rows) demo_rules (demo_person [''sales'', ''audit'']) ''order'') ''region'' = Some ''north''"
  "map_of (getRowFilter rev demo_rules (demo_person [''sales'', ''audit'']) ''order'') ''region'' = Some ''south''"
  by (simp_all add: getRowFilter_def fetchEntityPermissions_def demo_rbac_defs Let_def privileged_def PRIVILEGED_ROLES_def merge_filter_def
      object_prototype_def)

text \<open>Without a matching rule nothing may be done, but no field and no row is restricted.\<close>

lemma no_rule_no_restriction:
  "\<not> canAccessEntity rev [] (demo_person [''sales'']) ''order'' ''read''"
  "getFieldRestrictions rev [] (demo_person [''sales'']) ''order'' = \<lparr>fr_denyRead = [], fr_denyWrite = []\<rparr>"
  by (simp_all add: canAccessEntity_def getFieldRestrictions_def fetchEntityPermissions_def demo_person_def privileged_def
      PRIVILEGED_ROLES_def)

end
