(* ===== verification/ApiKeyProperties.thy ===== *)
theory ApiKeyProperties
  imports ApiKeyService RbacProperties TokenRotation
begin

text \<open>
  Histories of API keys: a key carries no scope that its creator lacked, a revoked key never validates again, a new key
  validates, and rotation never succeeds on the schema; then where the service falls short of its comments.
\<close>

section \<open>Histories\<close>

datatype KeyOp =
    CreateKey Bcrypt nat string string string string CreateApiKeyInput "string list"
  | ValidateKey Bcrypt "ApiKeyRow list \<Rightarrow> ApiKeyRow list" nat string
  | RevokeKey nat string string string
  | RevokeAsAdmin nat string string
  | RotateKey Bcrypt nat string string string string string

definition run_key_op :: "KeyOp \<Rightarrow> KeyState \<Rightarrow> KeyState" where
  "run_key_op op st =
     (case op of
        CreateKey bc now keyId rnd userId tenantId data scopes \<Rightarrow> snd (create_key bc now keyId rnd userId tenantId data scopes st)
      | ValidateKey bc plan now key \<Rightarrow> snd (validate_key bc plan now key st)
      | RevokeKey now keyId revokedBy tenantId \<Rightarrow> snd (revoke_key now keyId revokedBy tenantId st)
      | RevokeAsAdmin now keyId revokedBy \<Rightarrow> snd (revokeAsAdmin now keyId revokedBy st)
      | RotateKey bc now newId rnd keyId userId tenantId \<Rightarrow> snd (rotate_key bc now newId rnd keyId userId tenantId st))"

definition run_keys :: "KeyOp list \<Rightarrow> KeyState \<Rightarrow> KeyState" where
  "run_keys ops st = foldl (\<lambda>s op. run_key_op op s) st ops"

lemma run_keys_simps [simp]:
  "run_keys [] st = st" "run_keys (op # ops) st = run_keys ops (run_key_op op st)" "run_keys (ops @ ops') st = run_keys ops' (run_keys ops st)"
  by (simp_all add: run_keys_def)

section \<open>Rotation\<close>

lemma insert_same_name:
  assumes "r \<in> set (ks_keys st)" "ak_user_id r = ak_user_id row" "ak_name r = ak_name row"
  shows "\<exists>e. insert_key row st = (Inl e, st)"
  using assms by (auto simp: insert_key_def)

lemma rotate_fails: "\<exists>e. rotate_key bc now newId randomPart keyId userId tenantId st = (Inl e, st)"
proof (cases "find (\<lambda>r. ak_id r = keyId \<and> ak_tenant_id r = tenantId \<and> ak_revoked_at r = None) (ks_keys st)")
  case None
  then show ?thesis by (simp add: rotate_key_def)
next
  case (Some old)
  show ?thesis
  proof (cases "ak_user_id old = userId")
    case True
    define st1 where "st1 = update_key keyId (\<lambda>r. r\<lparr>ak_revoked_at := Some now, ak_revoked_by := Some userId\<rparr>) st"
    have old: "old \<in> set (ks_keys st)" "ak_id old = keyId" using Some by (auto simp: find_Some_iff)
    then have kept: "old\<lparr>ak_revoked_at := Some now, ak_revoked_by := Some userId\<rparr> \<in> set (ks_keys st1)"
      by (force simp: st1_def update_key_def)
    define row where "row = \<lparr>ak_id = newId, ak_user_id = ak_user_id old, ak_tenant_id = ak_tenant_id old, ak_name = ak_name old,
        ak_key_hash = bc_hash bc (KEY_PREFIX_TEXT @ randomPart), ak_key_prefix = take PREFIX_CHARS randomPart, ak_scopes = ak_scopes old,
        ak_expires_at = ak_expires_at old, ak_last_used_at = None, ak_created_at = now, ak_revoked_at = None, ak_revoked_by = None\<rparr>"
    have "\<exists>e. insert_key row st1 = (Inl e, st1)" by (rule insert_same_name [OF kept]) (simp_all add: row_def)
    then show ?thesis
      using Some True by (auto simp: rotate_key_def generateRawKey_def Let_def row_def st1_def)
  qed (use Some in \<open>simp add: rotate_key_def\<close>)
qed

lemma rotate_state: "snd (rotate_key bc now newId rnd keyId userId tenantId st) = st"
  using rotate_fails [of bc now newId rnd keyId userId tenantId st] by auto

text \<open>
  Property C24: rotation never succeeds and changes nothing: the new row has the owner and the name of the old one, which
  the unique constraint on the two columns refuses, because the revoked row stays in the table.
\<close>

theorem rotation_refused: "\<exists>e. rotate_key bc now newId randomPart keyId userId tenantId st = (Inl e, st)"
  by (rule rotate_fails)

section \<open>What operations do to the rows\<close>

text \<open>
  A row stays what it is but for its last use and its revocation, which is final; new rows come from \<open>create_key\<close> with scopes
  of the caller.
\<close>

definition same_key :: "ApiKeyRow \<Rightarrow> ApiKeyRow \<Rightarrow> bool" where
  "same_key r r' \<longleftrightarrow>
     (\<exists>used gone who. r' = r\<lparr>ak_last_used_at := used, ak_revoked_at := gone, ak_revoked_by := who\<rparr> \<and> (ak_revoked_at r \<noteq> None \<longrightarrow> gone \<noteq> None))"

lemma same_key_refl [simp]: "same_key r r"
  unfolding same_key_def by (intro exI [of _ "ak_last_used_at r"] exI [of _ "ak_revoked_at r"] exI [of _ "ak_revoked_by r"]) simp

lemma same_key_fields:
  "same_key r r' \<Longrightarrow> ak_id r' = ak_id r \<and> ak_user_id r' = ak_user_id r \<and> ak_tenant_id r' = ak_tenant_id r \<and>
     ak_scopes r' = ak_scopes r \<and> ak_key_hash r' = ak_key_hash r \<and> (ak_revoked_at r \<noteq> None \<longrightarrow> ak_revoked_at r' \<noteq> None)"
  by (auto simp: same_key_def)

definition created_by :: "KeyOp \<Rightarrow> ApiKeyRow \<Rightarrow> bool" where
  "created_by op r \<longleftrightarrow>
     (case op of
        CreateKey bc now keyId rnd userId tenantId data scopes \<Rightarrow>
          ak_id r = keyId \<and> ak_user_id r = userId \<and> ak_tenant_id r = tenantId \<and> ak_scopes r = ci_scopes data \<and>
          set (ci_scopes data) \<subseteq> set scopes \<and> ak_key_hash r = bc_hash bc (KEY_PREFIX_TEXT @ rnd)
      | _ \<Rightarrow> False)"

definition extends :: "KeyOp \<Rightarrow> ApiKeyRow list \<Rightarrow> ApiKeyRow list \<Rightarrow> bool" where
  "extends op rs rs' \<longleftrightarrow>
     (\<exists>f. (\<forall>r. same_key r (f r)) \<and> (rs' = map f rs \<or> (\<exists>r. rs' = map f rs @ [r] \<and> created_by op r \<and> ak_id r \<notin> ak_id ` set rs)))"

lemma extends_refl: "extends op rs rs"
  unfolding extends_def by (intro exI [of _ "\<lambda>r. r"]) simp

lemma extends_map: "(\<And>r. same_key r (f r)) \<Longrightarrow> extends op rs (map f rs)"
  unfolding extends_def by blast

lemma revoke_where_extends: "extends op (ks_keys st) (ks_keys (snd (revoke_where P now keyId who st)))"
proof -
  let ?f = "\<lambda>r. if ak_id r = keyId then if P r \<and> ak_revoked_at r = None then r\<lparr>ak_revoked_at := Some now, ak_revoked_by := Some who\<rparr> else r else r"
  have "same_key r (?f r)" for r
    unfolding same_key_def
    by (intro exI [of _ "ak_last_used_at r"] exI [of _ "ak_revoked_at (?f r)"] exI [of _ "ak_revoked_by (?f r)"]) simp
  then have "extends op (ks_keys st) (map ?f (ks_keys st))" by (rule extends_map)
  then show ?thesis by (simp add: revoke_where_def block_key_def key_event_def update_key_def Let_def extends_refl)
qed

lemma run_key_op_extends: "extends op (ks_keys st) (ks_keys (run_key_op op st))"
proof (cases op)
  case (CreateKey bc now keyId rnd userId tenantId data scopes)
  show ?thesis
  proof (cases "\<exists>e. fst (create_key bc now keyId rnd userId tenantId data scopes st) = Inl e")
    case True
    then have "snd (create_key bc now keyId rnd userId tenantId data scopes st) = st"
      by (auto simp: create_key_def insert_key_def generateRawKey_def Let_def split: if_splits)
    then show ?thesis by (simp add: run_key_op_def CreateKey extends_refl)
  next
    case False
    then have "\<exists>r. ks_keys (snd (create_key bc now keyId rnd userId tenantId data scopes st)) = ks_keys st @ [r] \<and>
        created_by op r \<and> ak_id r \<notin> ak_id ` set (ks_keys st)"
      by (auto simp: create_key_def insert_key_def generateRawKey_def Let_def key_event_def created_by_def CreateKey split: if_splits)
    then show ?thesis unfolding extends_def by (intro exI [of _ "\<lambda>r. r"]) (simp add: run_key_op_def CreateKey)
  qed
next
  case (ValidateKey bc plan now key)
  have "same_key r (if ak_id r = i then r\<lparr>ak_last_used_at := Some now\<rparr> else r)" for r i
    unfolding same_key_def
    by (intro exI [of _ "if ak_id r = i then Some now else ak_last_used_at r"] exI [of _ "ak_revoked_at r"] exI [of _ "ak_revoked_by r"]) simp
  note used = extends_map [OF this]
  show ?thesis
    by (auto simp: run_key_op_def ValidateKey validate_key_def update_key_def extends_refl intro: used split: option.split)
qed (simp_all add: run_key_op_def rotate_state extends_refl revoke_key_def revokeAsAdmin_def revoke_where_extends)

lemma created_by_same: "created_by op r \<Longrightarrow> same_key r r' \<Longrightarrow> created_by op r'"
  by (auto simp: created_by_def same_key_def split: KeyOp.splits)

lemma extends_rows:
  assumes "extends op rs rs'" "r' \<in> set rs'"
  shows "created_by op r' \<and> ak_id r' \<notin> ak_id ` set rs \<or> (\<exists>r \<in> set rs. same_key r r')"
  using assms unfolding extends_def by (auto; blast)

lemma extends_distinct:
  assumes "extends op rs rs'" "distinct (map ak_id rs)"
  shows "distinct (map ak_id rs')"
proof -
  obtain f where f: "\<And>r. same_key r (f r)" "rs' = map f rs \<or> (\<exists>r. rs' = map f rs @ [r] \<and> created_by op r \<and> ak_id r \<notin> ak_id ` set rs)"
    using assms(1) unfolding extends_def by blast
  have "ak_id (f r) = ak_id r" for r using same_key_fields [OF f(1)] by blast
  then have same: "map ak_id (map f rs) = map ak_id rs" by simp
  from f(2) show ?thesis
  proof
    assume "rs' = map f rs"
    then show ?thesis using assms(2) same by (simp only:)
  next
    assume "\<exists>r. rs' = map f rs @ [r] \<and> created_by op r \<and> ak_id r \<notin> ak_id ` set rs"
    then obtain r where "rs' = map f rs @ [r]" "ak_id r \<notin> set (map ak_id rs)" by auto
    then show ?thesis using assms(2) same by (simp only: map_append distinct_append) simp
  qed
qed

lemma history:
  assumes "ks_keys st = []"
  shows "(\<forall>r \<in> set (ks_keys (run_keys ops st)). \<exists>op \<in> set ops. created_by op r) \<and> distinct (map ak_id (ks_keys (run_keys ops st)))"
proof (induction ops rule: rev_induct)
  case (snoc op ops)
  let ?rs = "ks_keys (run_keys ops st)" and ?rs' = "ks_keys (run_key_op op (run_keys ops st))"
  note ext = run_key_op_extends [of op "run_keys ops st"]
  have "\<exists>op' \<in> set (ops @ [op]). created_by op' r'" if "r' \<in> set ?rs'" for r'
    using extends_rows [OF ext that]
  proof
    assume "\<exists>r \<in> set ?rs. same_key r r'"
    then obtain r op' where "same_key r r'" "op' \<in> set ops" "created_by op' r" using snoc by blast
    then show ?thesis using created_by_same [of op' r r'] by auto
  qed auto
  then show ?case using extends_distinct [OF ext] snoc by simp
qed (simp add: assms)

text \<open>A revoked row stays revoked.\<close>

definition gone :: "string \<Rightarrow> KeyState \<Rightarrow> bool" where
  "gone keyId st \<longleftrightarrow> keyId \<in> ak_id ` set (ks_keys st) \<and> (\<forall>r \<in> set (ks_keys st). ak_id r = keyId \<longrightarrow> ak_revoked_at r \<noteq> None)"

lemma extends_ids: "extends op rs rs' \<Longrightarrow> ak_id ` set rs \<subseteq> ak_id ` set rs'"
  using same_key_fields unfolding extends_def by (auto simp: image_iff) metis+

lemma gone_step: "gone keyId st \<Longrightarrow> gone keyId (run_key_op op st)"
  using extends_rows [OF run_key_op_extends [of op st]] extends_ids [OF run_key_op_extends [of op st]] same_key_fields
  unfolding gone_def by (metis imageI subsetD)

lemma gone_stays: "gone keyId st \<Longrightarrow> gone keyId (run_keys ops st)"
  by (induction ops arbitrary: st) (simp_all add: gone_step)

lemma revoked_gone:
  assumes "revoke_where P now keyId who st = (Inr (), st')" "distinct (map ak_id (ks_keys st))"
  shows "gone keyId st'"
proof -
  from assms(1) obtain r where r: "r \<in> set (ks_keys st)" "ak_id r = keyId" "P r" "ak_revoked_at r = None"
    and st': "ks_keys st' = map (\<lambda>r. if ak_id r = keyId then if P r \<and> ak_revoked_at r = None
        then r\<lparr>ak_revoked_at := Some now, ak_revoked_by := Some who\<rparr> else r else r) (ks_keys st)"
    by (auto simp: revoke_where_def block_key_def key_event_def update_key_def Let_def split: if_splits)
  have only: "x = r" if "x \<in> set (ks_keys st)" "ak_id x = keyId" for x
    using that r(1,2) assms(2) by (auto simp: distinct_map inj_on_def)
  have "ak_revoked_at y \<noteq> None" if y: "y \<in> set (ks_keys st')" "ak_id y = keyId" for y
  proof -
    from y(1) obtain x where x: "x \<in> set (ks_keys st)" "y = (if ak_id x = keyId then if P x \<and> ak_revoked_at x = None
        then x\<lparr>ak_revoked_at := Some now, ak_revoked_by := Some who\<rparr> else x else x)"
      by (auto simp only: st' list.set_map image_iff)
    show ?thesis
    proof (cases "ak_id x = keyId")
      case True
      then have "x = r" by (rule only [OF x(1)])
      then show ?thesis using x(2) r by simp
    qed (use x y(2) in simp)
  qed
  moreover have "keyId \<in> ak_id ` set (ks_keys st')"
    using extends_ids [OF revoke_where_extends [of "RevokeAsAdmin now keyId who" st P now keyId who]] assms(1) r(1,2) by auto
  ultimately show ?thesis by (simp add: gone_def)
qed

section \<open>Validation\<close>

lemma find_in: "find P xs = Some r \<Longrightarrow> r \<in> set xs \<and> P r"
  by (induction xs) (auto split: if_splits)

lemma match_key_live:
  assumes "match_key bc plan now key st = Some r" "\<And>rs. set (plan rs) \<subseteq> set rs"
  shows "r \<in> set (ks_keys st) \<and> ak_revoked_at r = None \<and> bc_compare bc key (ak_key_hash r)"
proof -
  from assms(1) have "r \<in> set (take 5 (plan (live_keys now (take PREFIX_CHARS (drop (length KEY_PREFIX_TEXT) key)) st)))" "bc_compare bc key (ak_key_hash r)"
    by (auto simp: match_key_def Let_def dest!: find_in split: if_splits)
  moreover from this have "r \<in> set (live_keys now (take PREFIX_CHARS (drop (length KEY_PREFIX_TEXT) key)) st)"
    using assms(2) by (meson in_set_takeD subsetD)
  ultimately show ?thesis by (simp add: live_keys_def)
qed

lemma validate_match:
  "validate_key bc plan now key st = (Some ctx, st') \<Longrightarrow> \<exists>r. match_key bc plan now key st = Some r \<and> ctx = key_context r st"
  by (auto simp: validate_key_def split: option.splits if_splits)


text \<open>The random parts of the keys of a history, with the ids of their rows.\<close>

fun created_keys :: "KeyOp list \<Rightarrow> (string \<times> string) list" where
  "created_keys [] = []"
| "created_keys (CreateKey bc now keyId rnd userId tenantId data scopes # ops) = (keyId, rnd) # created_keys ops"
| "created_keys (op # ops) = created_keys ops"

lemma created_keys_append [simp]: "created_keys (ops @ ops') = created_keys ops @ created_keys ops'"
  by (induction ops rule: created_keys.induct) simp_all

lemma created_in: "CreateKey bc now keyId rnd userId tenantId data scopes \<in> set ops \<Longrightarrow> (keyId, rnd) \<in> set (created_keys ops)"
  by (induction ops rule: created_keys.induct) auto

lemma distinct_second: "distinct (map snd xs) \<Longrightarrow> (a, k) \<in> set xs \<Longrightarrow> (b, k) \<in> set xs \<Longrightarrow> a = b"
  by (induction xs) (force simp: image_iff)+

definition hashes_like :: "(string \<Rightarrow> string \<Rightarrow> bool) \<Rightarrow> KeyOp \<Rightarrow> bool" where
  "hashes_like cmp op \<longleftrightarrow>
     (case op of
        CreateKey bc now keyId rnd userId tenantId data scopes \<Rightarrow> \<forall>k k'. cmp k (bc_hash bc k') \<longleftrightarrow> k = k'
      | _ \<Rightarrow> True)"

text \<open>
  Property C23: once a key was revoked, by anyone of its tenant or an administrator, it is refused for ever, whatever
  happens to other keys and however long ago the block list entry expired: given that bcrypt tells keys apart and that no
  random part was drawn twice.
\<close>

theorem revoked_key_refused:
  assumes "ks_keys st = []" "revoke_where P t keyId who (run_keys ops st) = (Inr (), st')"
    and "(keyId, rnd) \<in> set (created_keys ops)" "distinct (map snd (created_keys (ops @ ops')))"
    and "list_all (hashes_like (bc_compare bc)) (ops @ ops')" "\<And>rs. set (plan rs) \<subseteq> set rs"
  shows "validate_key bc plan now (KEY_PREFIX_TEXT @ rnd) (run_keys ops' st') = (None, run_keys ops' st')"
proof (cases "match_key bc plan now (KEY_PREFIX_TEXT @ rnd) (run_keys ops' st')")
  case None
  then show ?thesis by (simp add: validate_key_def)
next
  case (Some r)
  note live = match_key_live [OF Some assms(6)]
  have "gone keyId (run_keys ops' st')" using revoked_gone [OF assms(2)] history [OF assms(1)] gone_stays by blast
  then have other: "ak_id r \<noteq> keyId" using live by (auto simp: gone_def)
  have rows: "\<forall>r \<in> set (ks_keys (run_keys xs st')). \<exists>op \<in> set (ops @ xs). created_by op r" for xs
  proof (induction xs rule: rev_induct)
    case Nil
    have "\<exists>op \<in> set ops. created_by op r'" if "r' \<in> set (ks_keys st')" for r'
    proof -
      have "extends (RevokeAsAdmin t keyId who) (ks_keys (run_keys ops st)) (ks_keys st')"
        using revoke_where_extends [of _ "run_keys ops st" P t keyId who] assms(2) by simp
      from extends_rows [OF this that] obtain r0 where "r0 \<in> set (ks_keys (run_keys ops st))" "same_key r0 r'"
        by (auto simp: created_by_def)
      then show ?thesis using history [OF assms(1), of ops] created_by_same by blast
    qed
    then show ?case by simp
  next
    case (snoc op xs)
    have "\<exists>op' \<in> set (ops @ xs @ [op]). created_by op' r'" if "r' \<in> set (ks_keys (run_key_op op (run_keys xs st')))" for r'
      using extends_rows [OF run_key_op_extends that]
    proof
      assume "\<exists>r \<in> set (ks_keys (run_keys xs st')). same_key r r'"
      then obtain r op' where "same_key r r'" "op' \<in> set (ops @ xs)" "created_by op' r" using snoc by blast
      then show ?thesis using created_by_same [of op' r r'] by auto
    qed auto
    then show ?case by simp
  qed
  then obtain op where op: "op \<in> set (ops @ ops')" "created_by op r" using live by blast
  obtain b t' i rnd' u tn data sc where create: "op = CreateKey b t' i rnd' u tn data sc" using op(2) by (cases op) (auto simp: created_by_def)
  have "hashes_like (bc_compare bc) op" using assms(5) op(1) by (simp add: list_all_iff)
  then have "KEY_PREFIX_TEXT @ rnd = KEY_PREFIX_TEXT @ rnd'"
    using live op(2) by (simp add: create created_by_def hashes_like_def)
  moreover have "(i, rnd') \<in> set (created_keys (ops @ ops'))" using op(1) unfolding create by (rule created_in)
  ultimately have "(i, rnd) \<in> set (created_keys (ops @ ops'))" by simp
  moreover have "(keyId, rnd) \<in> set (created_keys (ops @ ops'))" using assms(3) by simp
  ultimately have "i = keyId" using distinct_second [OF assms(4)] by blast
  then show ?thesis using other op(2) by (simp add: create created_by_def)
qed

lemma find_only:
  assumes "x \<in> set xs" "P x" "\<forall>y \<in> set xs. P y \<longrightarrow> y = x"
  shows "find P xs = Some x"
proof (cases "find P xs")
  case None
  then show ?thesis using assms(1,2) by (simp add: find_None_iff)
next
  case (Some y)
  with find_in [OF Some] assms(3) show ?thesis by blast
qed

text \<open>
  A key that was just created validates at once, with the owner, the tenant and the scopes asked for, in
  whatever order the database answers, as long as at most four other live keys share its prefix.
\<close>

theorem created_key_validates:
  assumes "create_key bc now keyId randomPart userId tenantId data callerScopes st = (Inr (fullKey, row), st')"
    and "\<forall>r \<in> set (ks_keys st). \<not> bc_compare bc fullKey (ak_key_hash r)" "bc_compare bc fullKey (bc_hash bc fullKey)"
    and "length (live_keys now (take PREFIX_CHARS randomPart) st) \<le> 4" "\<And>rs. mset (plan rs) = mset rs"
    and "now < (case ci_expiresAt data of None \<Rightarrow> now + 1 | Some t \<Rightarrow> t)"
    and "store_get (now div 1000) (ks_revocation st) keyId = None"
  shows "\<exists>ctx. fst (validate_key bc plan now fullKey st') = Some ctx \<and> uc_userId ctx = userId \<and> uc_tenantId ctx = tenantId \<and>
     uc_scopes ctx = ci_scopes data \<and> set (uc_scopes ctx) \<subseteq> set callerScopes"
proof -
  from assms(1) have created: "fullKey = KEY_PREFIX_TEXT @ randomPart" "length (take PREFIX_CHARS randomPart) = 8"
    "st' = key_event ''auth.key.created'' keyId (st\<lparr>ks_keys := ks_keys st @ [row]\<rparr>)" "set (ci_scopes data) \<subseteq> set callerScopes"
    "ak_id row = keyId" "ak_user_id row = userId" "ak_tenant_id row = tenantId" "ak_scopes row = ci_scopes data"
    "ak_key_hash row = bc_hash bc fullKey" "ak_key_prefix row = take PREFIX_CHARS randomPart" "ak_revoked_at row = None"
    "ak_expires_at row = ci_expiresAt data"
    by (auto simp: create_key_def insert_key_def generateRawKey_def Let_def split: if_splits)
  let ?live = "live_keys now (take PREFIX_CHARS randomPart) st"
  have live: "live_keys now (take PREFIX_CHARS randomPart) st' = ?live @ [row]"
    using assms(6) created by (auto simp: live_keys_def key_event_def split: option.splits)
  have rows: "set (plan (?live @ [row])) = insert row (set ?live)" "length (plan (?live @ [row])) \<le> 5"
    using assms(4) mset_eq_setD [OF assms(5), of "?live @ [row]"] mset_eq_length [OF assms(5), of "?live @ [row]"] by simp_all
  have "find (\<lambda>r. bc_compare bc fullKey (ak_key_hash r)) (plan (?live @ [row])) = Some row"
    using rows(1) assms(2,3) created(9) by (intro find_only) (auto simp: live_keys_def)
  then have "match_key bc plan now fullKey st' = Some row"
    using live rows(2) created(1,2) by (simp add: match_key_def Let_def starts_with_def KEY_PREFIX_TEXT_def PREFIX_CHARS_def)
  moreover have "store_get (now div 1000) (ks_revocation st') (ak_id row) = None" using assms(7) created by (simp add: key_event_def)
  ultimately show ?thesis using created by (simp add: validate_key_def key_context_def Let_def)
qed

section \<open>A concrete history\<close>

text \<open>A bcrypt that keeps the text.\<close>

definition plain :: Bcrypt where
  "plain = \<lparr>bc_hash = (\<lambda>p. p), bc_compare = (\<lambda>p h. p = h)\<rparr>"

definition no_keys :: KeyState where
  "no_keys = \<lparr>ks_users = [demo_user], ks_tenants = [''t''], ks_keys = [], ks_revocation = [], ks_events = []\<rparr>"

definition demo_key_input :: "string \<Rightarrow> CreateApiKeyInput" where
  "demo_key_input name = \<lparr>ci_name = name, ci_scopes = [''data:read''], ci_expiresAt = None\<rparr>"

definition demo_create :: "string \<Rightarrow> string \<Rightarrow> KeyOp" where
  "demo_create keyId rnd = CreateKey plain 7 keyId rnd ''u'' ''t'' (demo_key_input keyId) [''data:read'', ''data:write'']"

definition demo_row :: "string \<Rightarrow> string \<Rightarrow> ApiKeyRow" where
  "demo_row keyId rnd =
     \<lparr>ak_id = keyId, ak_user_id = ''u'', ak_tenant_id = ''t'', ak_name = keyId, ak_key_hash = ''op_live_'' @ rnd,
      ak_key_prefix = take 8 rnd, ak_scopes = [''data:read''], ak_expires_at = None, ak_last_used_at = None, ak_created_at = 7,
      ak_revoked_at = None, ak_revoked_by = None\<rparr>"

definition one_key :: KeyState where
  "one_key = no_keys\<lparr>ks_keys := [demo_row ''k'' ''abcdefgh1''], ks_events := [(''auth.key.created'', ''k'')]\<rparr>"

lemmas demo_key_defs = no_keys_def demo_key_input_def demo_create_def demo_row_def one_key_def plain_def

lemma demo_created:
  "create_key plain 7 ''k'' ''abcdefgh1'' ''u'' ''t'' (demo_key_input ''k'') [''data:read'', ''data:write''] no_keys =
     (Inr (''op_live_abcdefgh1'', demo_row ''k'' ''abcdefgh1''), one_key)"
  by (simp add: create_key_def generateRawKey_def insert_key_def key_event_def demo_key_defs KEY_PREFIX_TEXT_def PREFIX_CHARS_def
      demo_user_def Let_def)

lemma one_key_reached: "run_keys [demo_create ''k'' ''abcdefgh1''] no_keys = one_key"
  by (simp add: run_key_op_def demo_create_def demo_created)

lemma one_key_match: "match_key plain (\<lambda>rs. rs) 9 ''op_live_abcdefgh1'' one_key = Some (demo_row ''k'' ''abcdefgh1'')"
  by (simp add: match_key_def live_keys_def demo_key_defs KEY_PREFIX_TEXT_def PREFIX_CHARS_def starts_with_def Let_def)


theorem revoked_key_refused_witness:
  "fst (validate_key plain (\<lambda>rs. rs) 9 ''op_live_abcdefgh1''
     (run_keys [demo_create ''m'' ''abcdefgh2''] (snd (revokeAsAdmin 5 ''k'' ''admin'' one_key)))) = None"
proof -
  have revoked: "revoke_where (\<lambda>r. True) 5 ''k'' ''admin'' (run_keys [demo_create ''k'' ''abcdefgh1''] no_keys) =
      (Inr (), snd (revokeAsAdmin 5 ''k'' ''admin'' one_key))"
    unfolding one_key_reached by (simp add: revokeAsAdmin_def revoke_where_def one_key_def demo_row_def Let_def)
  have "list_all (hashes_like (bc_compare plain)) ([demo_create ''k'' ''abcdefgh1''] @ [demo_create ''m'' ''abcdefgh2''])"
    by (simp add: hashes_like_def demo_create_def plain_def)
  from revoked_key_refused [OF _ revoked _ _ this, of "''abcdefgh1''" "\<lambda>rs. rs" 9] show ?thesis
    by (simp add: no_keys_def demo_create_def KEY_PREFIX_TEXT_def)
qed

theorem created_key_validates_witness:
  "\<exists>ctx. fst (validate_key plain rev 7 ''op_live_abcdefgh1'' one_key) = Some ctx \<and> uc_userId ctx = ''u'' \<and> uc_tenantId ctx = ''t'' \<and>
     uc_scopes ctx = ci_scopes (demo_key_input ''k'') \<and> set (uc_scopes ctx) \<subseteq> set [''data:read'', ''data:write'']"
  by (rule created_key_validates [OF demo_created])
    (simp_all add: no_keys_def plain_def demo_key_input_def live_keys_def store_get_def)

section \<open>Where the service falls short\<close>

text \<open>The owner is not looked at: anyone of the tenant revokes the key, although the route relies on the service for it.\<close>

lemma stranger_revokes: "fst (revoke_key 5 ''k'' ''stranger'' ''t'' one_key) = Inr ()"
  by (simp add: revoke_key_def revoke_where_def one_key_def demo_row_def Let_def)

text \<open>The owner's account may be deactivated: its keys stay valid.\<close>

lemma deactivated_owner_validates:
  "fst (validate_key bc plan now key (st\<lparr>ks_users := map (\<lambda>u. u\<lparr>us_is_active := False\<rparr>) (ks_users st)\<rparr>)) = fst (validate_key bc plan now key st)"
proof -
  have "find (\<lambda>u. us_id u = i) (map (\<lambda>u. u\<lparr>us_is_active := False\<rparr>) us) = map_option (\<lambda>u. u\<lparr>us_is_active := False\<rparr>) (find (\<lambda>u. us_id u = i) us)"
    for i and us :: "UserRow list" by (induction us) auto
  then have "key_context r (st\<lparr>ks_users := map (\<lambda>u. u\<lparr>us_is_active := False\<rparr>) (ks_users st)\<rparr>) = key_context r st" for r
    by (auto simp: key_context_def split: option.split)
  then show ?thesis by (simp add: validate_key_def match_key_def live_keys_def split: option.split)
qed

text \<open>Of more than five live keys with one prefix some are never compared.\<close>

lemma sixth_key_unreachable:
  "match_key plain (\<lambda>rs. rs) 2 ''op_live_abcdefgh6''
     (no_keys\<lparr>ks_keys := map (\<lambda>n. demo_row [n] (''abcdefgh'' @ [n])) ''123456''\<rparr>) = None"
  by (simp add: match_key_def live_keys_def demo_key_defs KEY_PREFIX_TEXT_def PREFIX_CHARS_def starts_with_def Let_def)

text \<open>A cursor has milliseconds, the rows have microseconds: a page drops the older keys of the millisecond it resumes in.\<close>

lemma page_skips:
  fixes st :: KeyState
  defines "st \<equiv> no_keys\<lparr>ks_keys := [(demo_row ''a'' ''abcdefgh1'')\<lparr>ak_created_at := 5001\<rparr>, (demo_row ''b'' ''abcdefgh2'')\<lparr>ak_created_at := 5002\<rparr>]\<rparr>"
  shows "list_keys ''u'' None (Some 1) NoCursor st = Inr ([(demo_row ''b'' ''abcdefgh2'')\<lparr>ak_created_at := 5002\<rparr>], Before 5 ''b'', 2)"
    and "list_keys ''u'' None (Some 1) (Before 5 ''b'') st = Inr ([], NoCursor, 2)"
  by (simp_all add: st_def list_keys_def key_page_def key_next_def key_limit_def status_clause_def demo_key_defs)

end
