(* ===== verification/PgIdentifier.thy ===== *)
theory PgIdentifier
  imports JsValue
begin

text \<open>
  Names of schemas, tables and columns, \<^verbatim>\<open>services/ontology/src/utils/pg-identifier.ts\<close>: quoting, the schema of a tenant,
  reserved slugs and the slug of a name.
\<close>

section \<open>Quoting\<close>

definition slug_char :: "char \<Rightarrow> bool" where
  "slug_char c \<longleftrightarrow> c \<in> set ''abcdefghijklmnopqrstuvwxyz0123456789_''"

text \<open>\<^verbatim>\<open>/^[a-z][a-z0-9_]*$/\<close>.\<close>

definition PG_IDENTIFIER :: "string \<Rightarrow> bool" where
  "PG_IDENTIFIER s \<longleftrightarrow>
     (case s of [] \<Rightarrow> False | c # cs \<Rightarrow> slug_char c \<and> \<not> is_digit c \<and> c \<noteq> CHR ''_'' \<and> list_all slug_char cs)"

definition quotePgIdentifier :: "string \<Rightarrow> string res" where
  "quotePgIdentifier slug =
     (if \<not> PG_IDENTIFIER slug then Inl (PlainError ''Invalid PostgreSQL identifier'')
      else Inr (CHR 0x22 # concat (map (\<lambda>c. if c = CHR 0x22 then [c, c] else [c]) slug) @ [CHR 0x22]))"

definition tenantSchemaName :: "string \<Rightarrow> string" where
  "tenantSchemaName tenantId = ''tenant_'' @ filter (\<lambda>c. c \<noteq> CHR ''-'') tenantId"

text \<open>A table with its schema.\<close>

definition qualify :: "string \<Rightarrow> string \<Rightarrow> string res" where
  "qualify schemaName tableSlug =
     rbind (quotePgIdentifier schemaName) (\<lambda>s. rbind (quotePgIdentifier tableSlug) (\<lambda>t. Inr (s @ ''.'' @ t)))"

section \<open>Slugs\<close>

definition RESERVED_SLUGS :: "string list" where
  "RESERVED_SLUGS = [''bulk'', ''id'', ''migrations'', ''validate'', ''drafts'', ''mappings'']"

definition isReservedSlug :: "string \<Rightarrow> bool" where
  "isReservedSlug slug \<longleftrightarrow> starts_with slug ''_'' \<or> slug \<in> set RESERVED_SLUGS"

text \<open>\<^verbatim>\<open>replace(/\s+/g, "_")\<close>.\<close>

function spaces_to_underscore :: "string \<Rightarrow> string" where
  "spaces_to_underscore [] = []"
| "spaces_to_underscore (c # cs) =
     (if is_space c then CHR ''_'' # spaces_to_underscore (dropWhile is_space cs) else c # spaces_to_underscore cs)"
  by pat_completeness auto
termination
  by (relation "measure length") (auto simp: length_dropWhile_le less_Suc_eq_le)

definition strip_underscores :: "string \<Rightarrow> string" where
  "strip_underscores s = rev (dropWhile (\<lambda>c. c = CHR ''_'') (rev (dropWhile (\<lambda>c. c = CHR ''_'') s)))"

definition deriveSlug :: "string \<Rightarrow> string" where
  "deriveSlug name = strip_underscores (filter slug_char (spaces_to_underscore (js_toLowerCase name)))"

section \<open>Facts\<close>

definition quoted :: "string \<Rightarrow> string" where
  "quoted s = CHR 0x22 # s @ [CHR 0x22]"

lemma slug_no_quote: "PG_IDENTIFIER s \<Longrightarrow> CHR 0x22 \<notin> set s"
proof
  assume s: "PG_IDENTIFIER s" and q: "CHR 0x22 \<in> set s"
  have n: "\<not> slug_char (CHR 0x22)" by (simp add: slug_char_def)
  from s have "list_all slug_char s" by (cases s) (simp_all add: PG_IDENTIFIER_def)
  with q n show False by (metis list_all_iff)
qed

lemma quotePgIdentifier_Inr: "quotePgIdentifier s = Inr q \<Longrightarrow> q = quoted s \<and> CHR 0x22 \<notin> set s"
proof -
  assume q: "quotePgIdentifier s = Inr q"
  then have s: "CHR 0x22 \<notin> set s" using slug_no_quote by (auto simp: quotePgIdentifier_def split: if_splits)
  then have "concat (map (\<lambda>c. if c = CHR 0x22 then [c, c] else [c]) s) = s" by (induction s) auto
  with q s show ?thesis by (auto simp: quotePgIdentifier_def quoted_def split: if_splits)
qed

end
