(* ===== verification/QueryService.thy ===== *)
theory QueryService
  imports PgIdentifier
begin

text \<open>
  Structured queries on the entity tables of a tenant, \<^verbatim>\<open>services/ontology/src/services/query-service.ts\<close>:
  validation, and the builder that turns a query into one SQL text with numbered parameters.  SQL is
  text, as in the code; what the server answers to a text with parameters is an argument of \<open>executeQuery\<close>.
\<close>

section \<open>Queries\<close>

datatype WhereOperator =
    OpEq | OpNeq | OpGt | OpGte | OpLt | OpLte | OpLike | OpIn | OpNotIn | OpIsNull | OpIsNotNull

text \<open>A missing value is \<open>VUndef\<close>.\<close>

record WhereClause =
  wc_field :: string
  wc_operator :: WhereOperator
  wc_value :: jsval

record StructuredQuery =
  sq_entityType :: string
  sq_select :: "string list"
  sq_where :: "WhereClause list option"
  sq_orderBy :: "(string \<times> bool) list option"
  sq_limit :: "int option"
  sq_offset :: "int option"
  sq_groupBy :: "string list option"
  sq_having :: "WhereClause list option"

definition MAX_LIMIT :: int where "MAX_LIMIT = 1000"
definition DEFAULT_LIMIT :: int where "DEFAULT_LIMIT = 100"

definition SYSTEM_COLUMNS :: "string list" where
  "SYSTEM_COLUMNS = [''_id'', ''_created_at'', ''_updated_at'', ''_version'', ''_source_id'']"

definition quoteColumnIdentifier :: "string \<Rightarrow> string res" where
  "quoteColumnIdentifier col = (if col \<in> set SYSTEM_COLUMNS then Inr (CHR 0x22 # col @ [CHR 0x22]) else quotePgIdentifier col)"

abbreviation or_empty :: "'a list option \<Rightarrow> 'a list" where
  "or_empty xs \<equiv> (case xs of None \<Rightarrow> [] | Some ys \<Rightarrow> ys)"

datatype query_problem =
    UnknownSelect string | UnknownWhere string | UnknownOrderBy string | UnknownGroupBy string | UnknownHaving string
  | LimitRange | OffsetNegative | SelectEmpty | NoValueAllowed WhereOperator | ArrayRequired WhereOperator | ValueRequired WhereOperator

definition validateFieldReferences :: "StructuredQuery \<Rightarrow> string list \<Rightarrow> query_problem list" where
  "validateFieldReferences query fieldSlugs =
     (let unknown = (\<lambda>f. f \<notin> set fieldSlugs)
      in (if ''*'' \<in> set (sq_select query) then [] else map UnknownSelect (filter unknown (sq_select query)))
         @ map UnknownWhere (filter unknown (map wc_field (or_empty (sq_where query))))
         @ map UnknownOrderBy (filter unknown (map fst (or_empty (sq_orderBy query))))
         @ map UnknownGroupBy (filter unknown (or_empty (sq_groupBy query)))
         @ map UnknownHaving (filter unknown (map wc_field (or_empty (sq_having query)))))"

definition clause_problems :: "WhereClause \<Rightarrow> query_problem list" where
  "clause_problems clause =
     (if wc_operator clause \<in> {OpIsNull, OpIsNotNull}
      then (if wc_value clause \<noteq> VUndef then [NoValueAllowed (wc_operator clause)] else [])
      else if wc_operator clause \<in> {OpIn, OpNotIn}
      then (case wc_value clause of VArr i vs \<Rightarrow> [] | _ \<Rightarrow> [ArrayRequired (wc_operator clause)])
      else (if wc_value clause = VUndef then [ValueRequired (wc_operator clause)] else []))"

definition validateStructure :: "StructuredQuery \<Rightarrow> query_problem list" where
  "validateStructure query =
     (case sq_limit query of None \<Rightarrow> [] | Some l \<Rightarrow> if l < 1 \<or> l > MAX_LIMIT then [LimitRange] else [])
     @ (case sq_offset query of None \<Rightarrow> [] | Some n \<Rightarrow> if n < 0 then [OffsetNegative] else [])
     @ (if sq_select query = [] then [SelectEmpty] else [])
     @ concat (map clause_problems (or_empty (sq_where query) @ or_empty (sq_having query)))"

section \<open>The builder\<close>

definition pgArrayType :: "string option \<Rightarrow> string" where
  "pgArrayType fieldType =
     (if fieldType = Some ''number'' then ''numeric[]''
      else if fieldType = Some ''boolean'' then ''boolean[]''
      else if fieldType = Some ''date'' then ''timestamptz[]'' else ''text[]'')"

definition qualify_column :: "string \<Rightarrow> string \<Rightarrow> string res" where
  "qualify_column qTable col = rbind (quoteColumnIdentifier col) (\<lambda>c. Inr (qTable @ ''.'' @ c))"

definition compare_op :: "WhereOperator \<Rightarrow> string" where
  "compare_op p =
     (case p of OpEq \<Rightarrow> '' = '' | OpNeq \<Rightarrow> '' != '' | OpGt \<Rightarrow> '' > '' | OpGte \<Rightarrow> '' >= '' | OpLt \<Rightarrow> '' < '' | _ \<Rightarrow> '' <= '')"

text \<open>The text of one condition and the parameters after it; \<open>n\<close> parameters are there already.\<close>

definition where_part :: "string \<Rightarrow> (string, string) dict \<Rightarrow> WhereClause \<Rightarrow> jsval list \<Rightarrow> (string \<times> jsval list) res" where
  "where_part qTable fieldTypes clause params =
     rbind (qualify_column qTable (wc_field clause)) (\<lambda>qField.
       let place = ''$'' @ nat_digits (Suc (length params)); cast = ''::'' @ pgArrayType (dict_get fieldTypes (wc_field clause))
       in case wc_operator clause of
            OpLike \<Rightarrow>
              rbind (to_str (wc_value clause)) (\<lambda>raw.
                Inr (qField @ '' LIKE '' @ place @ '' ESCAPE '' @ [CHR 0x27, CHR 0x5C, CHR 0x27],
                     params @ [VStr (concat (map (\<lambda>c. if c = CHR 0x5C then [c, c] else [c]) raw))]))
          | OpIn \<Rightarrow> Inr (qField @ '' = ANY('' @ place @ cast @ '')'', params @ [wc_value clause])
          | OpNotIn \<Rightarrow> Inr (''NOT ('' @ qField @ '' = ANY('' @ place @ cast @ ''))'', params @ [wc_value clause])
          | OpIsNull \<Rightarrow> Inr (qField @ '' IS NULL'', params)
          | OpIsNotNull \<Rightarrow> Inr (qField @ '' IS NOT NULL'', params)
          | p \<Rightarrow> Inr (qField @ compare_op p @ place, params @ [wc_value clause]))"

fun where_parts :: "string \<Rightarrow> (string, string) dict \<Rightarrow> WhereClause list \<Rightarrow> jsval list \<Rightarrow> (string list \<times> jsval list) res" where
  "where_parts qTable fieldTypes [] params = Inr ([], params)"
| "where_parts qTable fieldTypes (clause # clauses) params =
     rbind (where_part qTable fieldTypes clause params) (\<lambda>(part, params1).
       rbind (where_parts qTable fieldTypes clauses params1) (\<lambda>(parts, params2). Inr (part # parts, params2)))"

definition buildWhereFragment ::
  "string \<Rightarrow> string \<Rightarrow> WhereClause list \<Rightarrow> jsval list \<Rightarrow> (string, string) dict \<Rightarrow> (string \<times> jsval list) res" where
  "buildWhereFragment schemaName tableSlug clauses params fieldTypes =
     (if clauses = [] then Inr ([], params)
      else rbind (qualify schemaName tableSlug) (\<lambda>qTable.
             rbind (where_parts qTable fieldTypes clauses params) (\<lambda>(parts, params1). Inr (join_with '' AND '' parts, params1))))"

definition with_keyword :: "string \<Rightarrow> string \<Rightarrow> string" where
  "with_keyword keyword fragment = (if fragment = [] then [] else keyword @ fragment)"

definition select_clause :: "string \<Rightarrow> StructuredQuery \<Rightarrow> string res" where
  "select_clause qTable query =
     (if ''*'' \<in> set (sq_select query) then Inr (qTable @ ''.*'')
      else rbind (rmap (qualify_column qTable) (sq_select query)) (\<lambda>cols. Inr (join_with '', '' cols)))"

definition group_clause ::
  "string \<Rightarrow> string \<Rightarrow> string \<Rightarrow> StructuredQuery \<Rightarrow> jsval list \<Rightarrow> (string, string) dict \<Rightarrow> (string \<times> jsval list) res" where
  "group_clause schemaName tableSlug qTable query params fieldTypes =
     (if or_empty (sq_groupBy query) = [] then Inr ([], params)
      else rbind (rmap (qualify_column qTable) (or_empty (sq_groupBy query))) (\<lambda>cols.
             rbind (buildWhereFragment schemaName tableSlug (or_empty (sq_having query)) params fieldTypes) (\<lambda>(having, params1).
               Inr ('' GROUP BY '' @ join_with '', '' cols @ with_keyword '' HAVING '' having, params1))))"

text \<open>The flag of an order field is true for descending order.\<close>

definition order_part :: "string \<Rightarrow> string \<times> bool \<Rightarrow> string res" where
  "order_part qTable ob = rbind (qualify_column qTable (fst ob)) (\<lambda>col. Inr (col @ (if snd ob then '' DESC'' else '' ASC'')))"

definition order_clause :: "string \<Rightarrow> StructuredQuery \<Rightarrow> string res" where
  "order_clause qTable query =
     (if or_empty (sq_orderBy query) = [] then Inr []
      else rbind (rmap (order_part qTable) (or_empty (sq_orderBy query))) (\<lambda>parts. Inr ('' ORDER BY '' @ join_with '', '' parts)))"

definition limit_clause :: "StructuredQuery \<Rightarrow> jsval list \<Rightarrow> string \<times> jsval list" where
  "limit_clause query params =
     (let limit = min (case sq_limit query of None \<Rightarrow> DEFAULT_LIMIT | Some l \<Rightarrow> l) MAX_LIMIT;
          params1 = params @ [VNum (jint limit)];
          sql = '' LIMIT $'' @ nat_digits (length params1)
      in case sq_offset query of
           Some offs \<Rightarrow>
             if offs > 0 then (sql @ '' OFFSET $'' @ nat_digits (Suc (length params1)), params1 @ [VNum (jint offs)]) else (sql, params1)
         | None \<Rightarrow> (sql, params1))"

definition buildSelectSql :: "string \<Rightarrow> string \<Rightarrow> StructuredQuery \<Rightarrow> (string, string) dict \<Rightarrow> (string \<times> jsval list) res" where
  "buildSelectSql schemaName tableSlug query fieldTypes =
     rbind (qualify schemaName tableSlug) (\<lambda>qTable.
     rbind (select_clause qTable query) (\<lambda>selectClause.
     rbind (buildWhereFragment schemaName tableSlug (or_empty (sq_where query)) [] fieldTypes) (\<lambda>(whereFragment, params1).
     rbind (group_clause schemaName tableSlug qTable query params1 fieldTypes) (\<lambda>(groupSql, params2).
     rbind (order_clause qTable query) (\<lambda>orderSql.
       case limit_clause query params2 of
         (limitSql, params3) \<Rightarrow>
           Inr (''SELECT '' @ selectClause @ '' FROM '' @ qTable @ with_keyword '' WHERE '' whereFragment @ groupSql @ orderSql @ limitSql,
                params3))))))"

definition buildCountSql :: "string \<Rightarrow> string \<Rightarrow> StructuredQuery \<Rightarrow> (string, string) dict \<Rightarrow> (string \<times> jsval list) res" where
  "buildCountSql schemaName tableSlug query fieldTypes =
     rbind (qualify schemaName tableSlug) (\<lambda>qTable.
     rbind (buildWhereFragment schemaName tableSlug (or_empty (sq_where query)) [] fieldTypes) (\<lambda>(whereFragment, params).
       Inr (''SELECT COUNT(*) AS total FROM '' @ qTable @ with_keyword '' WHERE '' whereFragment, params)))"

section \<open>The service\<close>

record EntityRow =
  en_id :: string
  en_tenant_id :: string
  en_name :: string
  en_slug :: string
  en_version :: int
  en_description :: "string option"
  en_is_public :: bool
  en_created_at :: nat
  en_updated_at :: nat
  en_created_by :: string
  en_deleted_at :: "nat option"

datatype rule_type = RuleMin | RuleMax | RuleMinLength | RuleMaxLength | RulePattern | RuleEmail | RuleUrl

record ValidationRule =
  vr_type :: rule_type
  vr_value :: jsval
  vr_message :: "string option"

record FieldRow =
  fd_id :: string
  fd_entity_id :: string
  fd_tenant_id :: string
  fd_name :: string
  fd_slug :: string
  fd_field_type :: string
  fd_required :: bool
  fd_nullable :: bool
  fd_default_value :: jsval
  fd_validation_rules :: "ValidationRule list"
  fd_enum_values :: "string list option"
  fd_array_item_type :: "string option"
  fd_ref_entity_id :: "string option"
  fd_is_indexed :: bool
  fd_is_unique :: bool
  fd_sort_order :: int
  fd_system_generated :: bool
  fd_created_at :: nat
  fd_updated_at :: nat
  fd_deleted_at :: "nat option"

record OntologyDb =
  od_entities :: "EntityRow list"
  od_fields :: "FieldRow list"

definition findBySlug :: "OntologyDb \<Rightarrow> string \<Rightarrow> string \<Rightarrow> EntityRow option" where
  "findBySlug db tenantId slug = find (\<lambda>e. en_tenant_id e = tenantId \<and> en_slug e = slug \<and> en_deleted_at e = None) (od_entities db)"

definition findByEntityId :: "OntologyDb \<Rightarrow> string \<Rightarrow> FieldRow list" where
  "findByEntityId db entityId =
     sort_key fd_sort_order (sort_key fd_created_at (filter (\<lambda>f. fd_entity_id f = entityId \<and> fd_deleted_at f = None) (od_fields db)))"

record ResolvedEntity =
  re_schemaName :: string
  re_tableSlug :: string
  re_fieldSlugs :: "string list"
  re_fieldTypes :: "(string, string) dict"

definition resolveEntityFields :: "OntologyDb \<Rightarrow> string \<Rightarrow> string \<Rightarrow> ResolvedEntity option" where
  "resolveEntityFields db tenantId entityType =
     (case findBySlug db tenantId entityType of
        None \<Rightarrow> None
      | Some entity \<Rightarrow>
          let fields = findByEntityId db (en_id entity);
              types = foldl (\<lambda>d f. map_set d (fd_slug f) (fd_field_type f)) [] fields
          in Some \<lparr>re_schemaName = tenantSchemaName tenantId, re_tableSlug = en_slug entity,
                   re_fieldSlugs = SYSTEM_COLUMNS @ map fd_slug fields,
                   re_fieldTypes = foldl (\<lambda>d (c, t). map_set d c t) types
                     [(''_id'', ''string''), (''_created_at'', ''date''), (''_updated_at'', ''date''), (''_version'', ''number''), (''_source_id'', ''string'')]\<rparr>)"

datatype query_error =
    EntityNotFoundError
  | QueryValidationError "query_problem list"
  | QueryTimeoutError
  | BuildError js_error
  | ConnectError
  | PgError string

definition validateQuery :: "OntologyDb \<Rightarrow> string \<Rightarrow> StructuredQuery \<Rightarrow> query_error + bool \<times> query_problem list" where
  "validateQuery db tenantId query =
     (if validateStructure query \<noteq> [] then Inr (False, validateStructure query)
      else case resolveEntityFields db tenantId (sq_entityType query) of
             None \<Rightarrow> Inl EntityNotFoundError
           | Some e \<Rightarrow> let errors = validateFieldReferences query (re_fieldSlugs e) in Inr (errors = [], errors))"

text \<open>What the server answers to a statement: the names and rows of the result, or an error code.\<close>

datatype pg_reply = PgRows "string list" "props list" | PgFail string

type_synonym Server = "string \<Rightarrow> jsval list \<Rightarrow> pg_reply"

text \<open>What happens on the pool: a client is taken, statements are sent, the client goes back.\<close>

datatype pool_event = TakeClient | Statement string "jsval list" | ReleaseClient

record QueryResult =
  qr_columns :: "(string \<times> string) list"
  qr_rows :: "props list"
  qr_totalCount :: "int option"

definition extractColumns :: "string list \<Rightarrow> (string, string) dict \<Rightarrow> (string \<times> string) list" where
  "extractColumns names fieldTypes =
     map (\<lambda>n. (n, case dict_get fieldTypes n of None \<Rightarrow> ''unknown'' | Some t \<Rightarrow> t)) names"

text \<open>The total is text; without a row it is \<^verbatim>\<open>"0"\<close>.\<close>

definition total_of :: "props list \<Rightarrow> int option" where
  "total_of rows = (case rows of [] \<Rightarrow> Some 0 | r # _ \<Rightarrow> (case prop_get r ''total'' of VStr s \<Rightarrow> parse_int10 s | _ \<Rightarrow> Some 0))"

text \<open>The answer to the two queries, which are sent together; the first failure counts.\<close>

definition query_outcome :: "pg_reply \<Rightarrow> pg_reply \<Rightarrow> (string, string) dict \<Rightarrow> query_error + QueryResult" where
  "query_outcome rows cnt fieldTypes =
     (case (rows, cnt) of
        (PgRows names rs, PgRows _ cs) \<Rightarrow>
          Inr \<lparr>qr_columns = extractColumns names fieldTypes, qr_rows = rs, qr_totalCount = total_of cs\<rparr>
      | (PgFail code, _) \<Rightarrow> Inl (if code = ''57014'' then QueryTimeoutError else PgError code)
      | (_, PgFail code) \<Rightarrow> Inl (if code = ''57014'' then QueryTimeoutError else PgError code))"

definition run_queries ::
  "Server \<Rightarrow> string \<times> jsval list \<Rightarrow> string \<times> jsval list \<Rightarrow> (string, string) dict \<Rightarrow> (query_error + QueryResult) \<times> pool_event list" where
  "run_queries server sel cnt fieldTypes =
     (case server ''BEGIN'' [] of
        PgFail code \<Rightarrow> (Inl (PgError code), [Statement ''BEGIN'' []])
      | PgRows _ _ \<Rightarrow>
     (case server ''SET LOCAL statement_timeout = 30000'' [] of
        PgFail code \<Rightarrow> (Inl (PgError code), [Statement ''BEGIN'' [], Statement ''SET LOCAL statement_timeout = 30000'' []])
      | PgRows _ _ \<Rightarrow>
          let events = [Statement ''BEGIN'' [], Statement ''SET LOCAL statement_timeout = 30000'' [],
                        Statement (fst sel) (snd sel), Statement (fst cnt) (snd cnt), Statement ''COMMIT'' []];
              outcome = query_outcome (server (fst sel) (snd sel)) (server (fst cnt) (snd cnt)) fieldTypes
          in (case server ''COMMIT'' [] of PgFail code \<Rightarrow> (Inl (PgError code), events) | PgRows _ _ \<Rightarrow> (outcome, events))))"

definition executeQuery ::
  "Server \<Rightarrow> bool \<Rightarrow> OntologyDb \<Rightarrow> string \<Rightarrow> StructuredQuery \<Rightarrow> (query_error + QueryResult) \<times> pool_event list" where
  "executeQuery server connects db tenantId query =
     (if validateStructure query \<noteq> [] then (Inl (QueryValidationError (validateStructure query)), [])
      else case resolveEntityFields db tenantId (sq_entityType query) of
             None \<Rightarrow> (Inl EntityNotFoundError, [])
           | Some e \<Rightarrow>
               let errors = validateFieldReferences query (re_fieldSlugs e)
               in if errors \<noteq> [] then (Inl (QueryValidationError errors), [])
                  else (case buildSelectSql (re_schemaName e) (re_tableSlug e) query (re_fieldTypes e) of
                          Inl x \<Rightarrow> (Inl (BuildError x), [])
                        | Inr sel \<Rightarrow>
                       (case buildCountSql (re_schemaName e) (re_tableSlug e) query (re_fieldTypes e) of
                          Inl x \<Rightarrow> (Inl (BuildError x), [])
                        | Inr cnt \<Rightarrow>
                            if \<not> connects then (Inl ConnectError, [])
                            else case run_queries server sel cnt (re_fieldTypes e) of
                                   (r, events) \<Rightarrow> (r, TakeClient # events @ [ReleaseClient]))))"

end
