(* ===== verification/SqlLexer.thy ===== *)
theory SqlLexer
  imports PgIdentifier
begin

text \<open>
  How the server reads the text of a statement: quoted names, text in single quotes, numbered parameters, words and symbols.
  \<open>lexes\<close> says what a part of a text reads as, whatever follows, and composes over the parts the builders write.
\<close>

section \<open>The lexer of the server\<close>

datatype sql_token = QIdent string | QParam nat | QWord string | QSym char | QText string

definition word_char :: "char \<Rightarrow> bool" where
  "word_char c \<longleftrightarrow> c \<in> set ''abcdefghijklmnopqrstuvwxyzABCDEFGHIJKLMNOPQRSTUVWXYZ_'' \<or> is_digit c"

text \<open>The rest of a quoted part, in which a doubled quote stands for one.\<close>

fun read_quoted :: "char \<Rightarrow> string \<Rightarrow> string \<Rightarrow> (string \<times> string) option" where
  "read_quoted q acc [] = None"
| "read_quoted q acc (c # cs) =
     (if c \<noteq> q then read_quoted q (acc @ [c]) cs
      else (case cs of
              [] \<Rightarrow> Some (acc, [])
            | d # ds \<Rightarrow> if d = q then read_quoted q (acc @ [q]) ds else Some (acc, cs)))"

lemma read_quoted_length: "read_quoted q acc cs = Some (s, rest) \<Longrightarrow> length rest < length cs"
  by (induction q acc cs rule: read_quoted.induct) (fastforce split: if_splits list.splits)+

text \<open>
  A word directly before a quote (\<^verbatim>\<open>E'...'\<close> and the like), a comment and a dollar quote do not occur in the texts of the
  builders; the lexer refuses them.
\<close>

definition starts_quoted :: "string \<Rightarrow> bool" where
  "starts_quoted s \<longleftrightarrow> s \<noteq> [] \<and> (hd s = CHR 0x22 \<or> hd s = CHR 0x27)"

definition starts_comment :: "string \<Rightarrow> bool" where
  "starts_comment s \<longleftrightarrow> take 2 s = ''--'' \<or> take 2 s = ''/*''"

function (sequential) sql_lex :: "string \<Rightarrow> sql_token list option" where
  "sql_lex [] = Some []"
| "sql_lex (c # cs) =
     (if c = CHR '' '' \<or> c = CHR 0x0A then sql_lex cs
      else if c = CHR 0x22
      then (case read_quoted (CHR 0x22) [] cs of None \<Rightarrow> None | Some (s, rest) \<Rightarrow> map_option (Cons (QIdent s)) (sql_lex rest))
      else if c = CHR 0x27
      then (case read_quoted (CHR 0x27) [] cs of None \<Rightarrow> None | Some (s, rest) \<Rightarrow> map_option (Cons (QText s)) (sql_lex rest))
      else if c = CHR ''$''
      then (if takeWhile is_digit cs = [] then None
            else map_option (Cons (QParam (digits_val (takeWhile is_digit cs)))) (sql_lex (dropWhile is_digit cs)))
      else if word_char c
      then (if starts_quoted (dropWhile word_char cs) then None
            else map_option (Cons (QWord (c # takeWhile word_char cs))) (sql_lex (dropWhile word_char cs)))
      else if starts_comment (c # cs) then None
      else map_option (Cons (QSym c)) (sql_lex cs))"
  by pat_completeness auto
termination
  by (relation "measure length") (auto dest: read_quoted_length simp: length_dropWhile_le less_Suc_eq_le)

declare sql_lex.simps [simp del]

text \<open>A part of a text is read alike in front of every rest that begins a new token.\<close>

definition boundary :: "string \<Rightarrow> bool" where
  "boundary rest \<longleftrightarrow> rest = [] \<or> (\<not> word_char (hd rest) \<and> hd rest \<noteq> CHR 0x22 \<and> hd rest \<noteq> CHR 0x27)"

definition lexes :: "string \<Rightarrow> sql_token list \<Rightarrow> bool" where
  "lexes s ts \<longleftrightarrow> (\<forall>rest. boundary rest \<longrightarrow> sql_lex (s @ rest) = map_option (\<lambda>us. ts @ us) (sql_lex rest))"

lemma lexes_all: "lexes s ts \<Longrightarrow> sql_lex s = Some ts"
  unfolding lexes_def boundary_def by (metis append_Nil2 option.simps(9) sql_lex.simps(1))

lemma lexes_nil [simp]: "lexes [] []"
  by (simp add: lexes_def option.map_ident)

lemma lexes_append:
  assumes "lexes s ts" "lexes s' ts'" "s' \<noteq> []" "boundary s'"
  shows "lexes (s @ s') (ts @ ts')"
proof -
  have "boundary (s' @ rest)" for rest using assms(3,4) by (cases s') (simp_all add: boundary_def)
  then show ?thesis using assms(1,2) by (auto simp: lexes_def option.map_comp comp_def)
qed

lemma lexes_space: "lexes s ts \<Longrightarrow> lexes (CHR '' '' # s) ts"
  by (simp add: lexes_def sql_lex.simps)

lemma lexes_sym:
  "lexes s ts \<Longrightarrow> \<not> word_char c \<Longrightarrow> c \<notin> {CHR '' '', CHR 0x0A, CHR 0x22, CHR 0x27, CHR ''$'', CHR ''-'', CHR ''/''} \<Longrightarrow>
   lexes (c # s) (QSym c # ts)"
  by (auto simp: starts_comment_def lexes_def sql_lex.simps option.map_comp comp_def)

lemma lexes_word:
  assumes "lexes s ts" "boundary s" "list_all word_char w" "w \<noteq> []"
  shows "lexes (w @ s) (QWord w # ts)"
  unfolding lexes_def
proof (intro allI impI)
  fix rest assume rest: "boundary rest"
  obtain c cs where w: "w = c # cs" using assms(4) by (cases w) auto
  have c: "word_char c" "list_all word_char cs" using assms(3) w by auto
  have sr: "boundary (s @ rest)" using assms(2) rest by (cases s) (auto simp: boundary_def)
  have "takeWhile word_char (cs @ s @ rest) = cs \<and> dropWhile word_char (cs @ s @ rest) = s @ rest"
  proof -
    have "takeWhile word_char (s @ rest) = []" "dropWhile word_char (s @ rest) = s @ rest"
      using sr by (cases "s @ rest"; simp add: boundary_def)+
    then show ?thesis using c(2) by (simp add: list_all_iff takeWhile_append2 dropWhile_append2)
  qed
  moreover have "\<not> starts_quoted (s @ rest)" using sr by (auto simp: starts_quoted_def boundary_def)
  moreover have "c \<noteq> CHR '' ''" "c \<noteq> CHR 0x0A" "c \<noteq> CHR 0x22" "c \<noteq> CHR 0x27" "c \<noteq> CHR ''$''"
    using c(1) by (auto simp: word_char_def is_digit_def)
  ultimately show "sql_lex ((w @ s) @ rest) = map_option (\<lambda>us. (QWord w # ts) @ us) (sql_lex rest)"
    using c(1) assms(1) rest by (simp add: w sql_lex.simps lexes_def option.map_comp comp_def)
qed

text \<open>Parts that end in a blank or a symbol may be followed by anything.\<close>

definition opens :: "string \<Rightarrow> sql_token list \<Rightarrow> bool" where
  "opens s ts \<longleftrightarrow> (\<forall>rest. sql_lex (s @ rest) = map_option (\<lambda>us. ts @ us) (sql_lex rest))"

lemma opens_lexes: "opens s ts \<Longrightarrow> lexes s' ts' \<Longrightarrow> lexes (s @ s') (ts @ ts')"
  by (auto simp: opens_def lexes_def option.map_comp comp_def)

lemma boundary_word [simp]:
  "boundary rest \<Longrightarrow> takeWhile word_char rest = []" "boundary rest \<Longrightarrow> dropWhile word_char rest = rest"
  "boundary rest \<Longrightarrow> takeWhile is_digit rest = []" "boundary rest \<Longrightarrow> dropWhile is_digit rest = rest"
  by (cases rest; simp add: boundary_def word_char_def)+

lemma not_quoted [simp]:
  "boundary rest \<Longrightarrow> \<not> starts_quoted rest" "starts_quoted (c # cs) \<longleftrightarrow> c = CHR 0x22 \<or> c = CHR 0x27" "\<not> starts_quoted []"
  by (auto simp: boundary_def starts_quoted_def)

lemmas lex_eval = starts_comment_def opens_def lexes_def sql_lex.simps word_char_def is_digit_def option.map_comp comp_def

lemma read_quoted_plain:
  "CHR 0x22 \<notin> set s \<Longrightarrow> rest = [] \<or> hd rest \<noteq> CHR 0x22 \<Longrightarrow> read_quoted (CHR 0x22) acc (s @ CHR 0x22 # rest) = Some (acc @ s, rest)"
  by (induction s arbitrary: acc) (cases rest, auto)

lemma quoted_lexes: "CHR 0x22 \<notin> set s \<Longrightarrow> lexes (quoted s) [QIdent s]"
  unfolding lexes_def
proof (intro allI impI)
  fix rest assume q: "CHR 0x22 \<notin> set s" and rest: "boundary rest"
  have "read_quoted (CHR 0x22) [] (s @ CHR 0x22 # rest) = Some ([] @ s, rest)"
    by (rule read_quoted_plain [OF q]) (use rest in \<open>auto simp: boundary_def\<close>)
  then show "sql_lex (quoted s @ rest) = map_option (\<lambda>us. [QIdent s] @ us) (sql_lex rest)"
    by (simp add: quoted_def sql_lex.simps)
qed

lemma param_lexes: "lexes (''$'' @ nat_digits n) [QParam n]"
  unfolding lexes_def
proof (intro allI impI)
  fix rest assume rest: "boundary rest"
  have "takeWhile is_digit (nat_digits n @ rest) = nat_digits n \<and> dropWhile is_digit (nat_digits n @ rest) = rest"
    using nat_digits_props(1) [of n] rest by (simp add: list_all_iff takeWhile_append2 dropWhile_append2)
  then show "sql_lex ((''$'' @ nat_digits n) @ rest) = map_option (\<lambda>us. [QParam n] @ us) (sql_lex rest)"
    by (simp add: sql_lex.simps nat_digits_props)
qed

lemma lexes_no_tokens: "lexes [] ts \<Longrightarrow> ts = []"
  using lexes_all [of "[]" ts] by (simp add: sql_lex.simps)

lemma lexes_app: "lexes s ts \<Longrightarrow> lexes s' ts' \<Longrightarrow> boundary s' \<Longrightarrow> lexes (s @ s') (ts @ ts')"
  by (cases "s' = []") (auto dest: lexes_no_tokens intro: lexes_append)

lemma boundary_app: "boundary s \<Longrightarrow> boundary s' \<Longrightarrow> boundary (s @ s')"
  by (cases s) (simp_all add: boundary_def)

fun join_tokens :: "sql_token list \<Rightarrow> sql_token list list \<Rightarrow> sql_token list" where
  "join_tokens sep [] = []"
| "join_tokens sep [t] = t"
| "join_tokens sep (t # ts) = t @ sep @ join_tokens sep ts"

lemma join_lexes:
  assumes "list_all2 lexes parts tss" "opens sep st" "\<And>s. boundary (sep @ s)"
  shows "lexes (join_with sep parts) (join_tokens st tss)"
  using assms(1)
proof (induction parts tss rule: list_all2_induct)
  case Nil then show ?case by simp
next
  case (Cons w ws t ts)
  show ?case
  proof (cases ws)
    case Nil
    with Cons have "ts = []" by simp
    with Nil Cons(1) show ?thesis by simp
  next
    case (Cons v vs)
    with Cons.hyps(2) obtain u us where ts: "ts = u # us" by (cases ts) auto
    have "lexes (w @ sep @ join_with sep ws) (t @ st @ join_tokens st ts)"
      by (rule lexes_app [OF Cons.hyps(1) opens_lexes [OF assms(2) Cons.IH] assms(3)])
    with Cons ts show ?thesis by simp
  qed
qed

lemma place_lexes: "lexes s ts \<Longrightarrow> boundary s \<Longrightarrow> lexes (''$'' @ nat_digits n @ s) (QParam n # ts)"
  using lexes_app [OF param_lexes] by fastforce

lemma dot_boundary [simp]: "boundary (CHR ''.'' # s)" "boundary (CHR '' '' # s)" "boundary (CHR ''$'' # s)" "boundary (CHR '':'' # s)"
    "boundary (CHR '')'' # s)" "boundary (CHR '','' # s)"
  by (simp_all add: boundary_def word_char_def is_digit_def)

definition idents :: "sql_token list \<Rightarrow> string list" where
  "idents ts = concat (map (\<lambda>t. case t of QIdent i \<Rightarrow> [i] | _ \<Rightarrow> []) ts)"

lemma idents_simps [simp]:
  "idents [] = []" "idents (QIdent i # ts) = i # idents ts" "idents (QParam n # ts) = idents ts" "idents (QWord w # ts) = idents ts"
  "idents (QSym c # ts) = idents ts" "idents (QText s # ts) = idents ts" "idents (ts @ us) = idents ts @ idents us"
  by (simp_all add: idents_def)

end
