(* ===== verification/QueryProperties.thy ===== *)
theory QueryProperties
  imports QueryService SqlLexer
begin

text \<open>
  What the server reads of a query: the SQL text is cut into the tokens of the query, in which values occur as numbered
  parameters only; every validated query builds; and where the builder does not do what a query says.
\<close>

lemma opens_parts:
  "opens '', '' [QSym CHR '','']" "opens '' AND '' [QWord ''AND'']" "opens ''SELECT '' [QWord ''SELECT'']" "opens '' FROM '' [QWord ''FROM'']"
  "opens '' WHERE '' [QWord ''WHERE'']" "opens '' GROUP BY '' [QWord ''GROUP'', QWord ''BY'']" "opens '' HAVING '' [QWord ''HAVING'']"
  "opens '' ORDER BY '' [QWord ''ORDER'', QWord ''BY'']" "opens ''NOT ('' [QWord ''NOT'', QSym CHR ''(''  ]"
  "opens '' = ANY('' [QSym CHR ''='', QWord ''ANY'', QSym CHR ''('']" "opens '' LIKE '' [QWord ''LIKE'']" "opens '' LIMIT '' [QWord ''LIMIT'']"
  "opens '' OFFSET '' [QWord ''OFFSET'']" "opens ''.'' [QSym CHR ''.'']"
  "opens ''SELECT COUNT(*) AS total FROM ''
     [QWord ''SELECT'', QWord ''COUNT'', QSym CHR ''('', QSym CHR ''*'', QSym CHR '')'', QWord ''AS'', QWord ''total'', QWord ''FROM'']"
  by (simp_all add: lex_eval)

definition cast_tokens :: "string option \<Rightarrow> sql_token list" where
  "cast_tokens fieldType =
     [QSym CHR '':'', QSym CHR '':'',
      QWord (if fieldType = Some ''number'' then ''numeric'' else if fieldType = Some ''boolean'' then ''boolean''
             else if fieldType = Some ''date'' then ''timestamptz'' else ''text''), QSym CHR ''['', QSym CHR '']'']"

definition compare_tokens :: "WhereOperator \<Rightarrow> sql_token list" where
  "compare_tokens p =
     (case p of OpEq \<Rightarrow> [QSym CHR ''=''] | OpNeq \<Rightarrow> [QSym CHR ''!'', QSym CHR ''='']
        | OpGt \<Rightarrow> [QSym CHR ''>''] | OpGte \<Rightarrow> [QSym CHR ''>'', QSym CHR ''='']
        | OpLt \<Rightarrow> [QSym CHR ''<''] | _ \<Rightarrow> [QSym CHR ''<'', QSym CHR ''=''])"

lemma closing_parts:
  "lexes '' IS NULL'' [QWord ''IS'', QWord ''NULL'']" "lexes '' IS NOT NULL'' [QWord ''IS'', QWord ''NOT'', QWord ''NULL'']"
  "lexes '' ASC'' [QWord ''ASC'']" "lexes '' DESC'' [QWord ''DESC'']" "lexes '')'' [QSym CHR '')'']" "lexes ''))'' [QSym CHR '')'', QSym CHR '')'']"
  "lexes ''.*'' [QSym CHR ''.'', QSym CHR ''*'']"
  by (simp_all add: lex_eval)

lemma cast_lexes: "lexes (''::'' @ pgArrayType t) (cast_tokens t)"
  by (simp add: pgArrayType_def cast_tokens_def) (simp add: lex_eval)

lemma compare_opens: "opens (compare_op p) (compare_tokens p)"
  by (cases p) (simp_all add: compare_op_def compare_tokens_def lex_eval)

lemma escape_lexes: "lexes ('' ESCAPE '' @ [CHR 0x27, CHR 0x5C, CHR 0x27]) [QWord ''ESCAPE'', QText [CHR 0x5C]]"
proof -
  have "read_quoted (CHR 0x27) [] (CHR 0x5C # CHR 0x27 # rest) = Some ([CHR 0x5C], rest)" if "boundary rest" for rest
    using that by (cases rest) (simp_all add: boundary_def)
  then show ?thesis by (simp add: lex_eval)
qed

section \<open>Identifiers and parameters\<close>

lemma quoteColumn_Inr: "quoteColumnIdentifier s = Inr q \<Longrightarrow> q = quoted s \<and> CHR 0x22 \<notin> set s"
proof -
  have "list_all (\<lambda>c. CHR 0x22 \<notin> set c) SYSTEM_COLUMNS" by (simp add: SYSTEM_COLUMNS_def)
  then have "CHR 0x22 \<notin> set s" if "s \<in> set SYSTEM_COLUMNS" using that by (simp add: list_all_iff)
  moreover assume "quoteColumnIdentifier s = Inr q"
  ultimately show ?thesis
    using quotePgIdentifier_Inr [of s q] by (cases "s \<in> set SYSTEM_COLUMNS") (simp_all add: quoteColumnIdentifier_def quoted_def)
qed

definition table_tokens :: "string \<Rightarrow> string \<Rightarrow> sql_token list" where
  "table_tokens schemaName tableSlug = [QIdent schemaName, QSym CHR ''.'', QIdent tableSlug]"

definition column_tokens :: "string \<Rightarrow> string \<Rightarrow> string \<Rightarrow> sql_token list" where
  "column_tokens schemaName tableSlug col = table_tokens schemaName tableSlug @ [QSym CHR ''.'', QIdent col]"

lemma qualify_lexes: "qualify schemaName tableSlug = Inr q \<Longrightarrow> lexes q (table_tokens schemaName tableSlug)"
proof -
  assume "qualify schemaName tableSlug = Inr q"
  then have q: "q = quoted schemaName @ ''.'' @ quoted tableSlug" "CHR 0x22 \<notin> set schemaName" "CHR 0x22 \<notin> set tableSlug"
    by (auto simp: qualify_def rbind_Inr_iff dest!: quotePgIdentifier_Inr)
  have "lexes (''.'' @ quoted tableSlug) ([QSym CHR ''.''] @ [QIdent tableSlug])"
    by (rule opens_lexes [OF opens_parts(14) quoted_lexes [OF q(3)]])
  from lexes_append [OF quoted_lexes [OF q(2)] this] show ?thesis by (simp add: q(1) table_tokens_def)
qed

lemma column_lexes:
  "qualify schemaName tableSlug = Inr q \<Longrightarrow> qualify_column q col = Inr c \<Longrightarrow> lexes c (column_tokens schemaName tableSlug col)"
proof -
  assume q: "qualify schemaName tableSlug = Inr q" and "qualify_column q col = Inr c"
  then have c: "c = q @ ''.'' @ quoted col" "CHR 0x22 \<notin> set col"
    by (auto simp: qualify_column_def rbind_Inr_iff dest!: quoteColumn_Inr)
  have "lexes (''.'' @ quoted col) ([QSym CHR ''.''] @ [QIdent col])"
    by (rule opens_lexes [OF opens_parts(14) quoted_lexes [OF c(2)]])
  from lexes_append [OF qualify_lexes [OF q] this] show ?thesis by (simp add: c(1) column_tokens_def)
qed

section \<open>The tokens of a query\<close>

definition clause_values :: "WhereClause \<Rightarrow> jsval list" where
  "clause_values clause =
     (case wc_operator clause of
        OpLike \<Rightarrow> (case to_str (wc_value clause) of
                     Inl e \<Rightarrow> [] | Inr raw \<Rightarrow> [VStr (concat (map (\<lambda>c. if c = CHR 0x5C then [c, c] else [c]) raw))])
      | OpIsNull \<Rightarrow> [] | OpIsNotNull \<Rightarrow> [] | _ \<Rightarrow> [wc_value clause])"

definition clause_tokens :: "string \<Rightarrow> string \<Rightarrow> (string, string) dict \<Rightarrow> nat \<Rightarrow> WhereClause \<Rightarrow> sql_token list" where
  "clause_tokens schemaName tableSlug types n clause =
     (let col = column_tokens schemaName tableSlug (wc_field clause); cast = cast_tokens (dict_get types (wc_field clause))
      in case wc_operator clause of
           OpLike \<Rightarrow> col @ [QWord ''LIKE'', QParam (Suc n), QWord ''ESCAPE'', QText [CHR 0x5C]]
         | OpIn \<Rightarrow> col @ [QSym CHR ''='', QWord ''ANY'', QSym CHR ''('', QParam (Suc n)] @ cast @ [QSym CHR '')'']
         | OpNotIn \<Rightarrow> [QWord ''NOT'', QSym CHR ''(''] @ col @ [QSym CHR ''='', QWord ''ANY'', QSym CHR ''('', QParam (Suc n)] @ cast
                       @ [QSym CHR '')'', QSym CHR '')'']
         | OpIsNull \<Rightarrow> col @ [QWord ''IS'', QWord ''NULL'']
         | OpIsNotNull \<Rightarrow> col @ [QWord ''IS'', QWord ''NOT'', QWord ''NULL'']
         | p \<Rightarrow> col @ compare_tokens p @ [QParam (Suc n)])"

fun clauses_tokens :: "string \<Rightarrow> string \<Rightarrow> (string, string) dict \<Rightarrow> nat \<Rightarrow> WhereClause list \<Rightarrow> sql_token list list" where
  "clauses_tokens schemaName tableSlug types n [] = []"
| "clauses_tokens schemaName tableSlug types n (c # cs) =
     clause_tokens schemaName tableSlug types n c # clauses_tokens schemaName tableSlug types (n + length (clause_values c)) cs"

definition where_tokens :: "string \<Rightarrow> string \<Rightarrow> (string, string) dict \<Rightarrow> nat \<Rightarrow> WhereClause list \<Rightarrow> sql_token list" where
  "where_tokens schemaName tableSlug types n clauses = join_tokens [QWord ''AND''] (clauses_tokens schemaName tableSlug types n clauses)"

definition clauses_values :: "WhereClause list \<Rightarrow> jsval list" where
  "clauses_values clauses = concat (map clause_values clauses)"

definition headed :: "sql_token list \<Rightarrow> sql_token list \<Rightarrow> sql_token list" where
  "headed keyword ts = (if ts = [] then [] else keyword @ ts)"

lemma cast_boundary [simp]: "boundary (''::'' @ s)"
  by simp

lemma compare_boundary [simp]: "boundary (compare_op p @ s)"
  by (simp add: compare_op_def split: WhereOperator.splits)

lemma where_part_tokens:
  assumes q: "qualify schemaName tableSlug = Inr q" and part: "where_part q types clause params = Inr (part, params1)"
  shows "lexes part (clause_tokens schemaName tableSlug types (length params) clause) \<and> params1 = params @ clause_values clause"
proof -
  obtain c where qc: "qualify_column q (wc_field clause) = Inr c" using part by (auto simp: where_part_def rbind_Inr_iff)
  let ?col = "column_tokens schemaName tableSlug (wc_field clause)" and ?n = "Suc (length params)"
  let ?cast = "''::'' @ pgArrayType (dict_get types (wc_field clause))" and ?ct = "cast_tokens (dict_get types (wc_field clause))"
  have col: "lexes c ?col" by (rule column_lexes [OF q qc])
  have tail: "lexes (''$'' @ nat_digits ?n @ ?cast @ s) (QParam ?n # ?ct @ ts)" if "lexes s ts" "boundary s" for s ts
    by (rule place_lexes [OF lexes_app [OF cast_lexes that]]) simp
  have cmp: "lexes (c @ compare_op p @ ''$'' @ nat_digits ?n) (?col @ compare_tokens p @ [QParam ?n])" for p
    by (rule lexes_app [OF col opens_lexes [OF compare_opens param_lexes]]) simp
  have any: "lexes (c @ '' = ANY('' @ ''$'' @ nat_digits ?n @ ?cast @ s)
      (?col @ [QSym CHR ''='', QWord ''ANY'', QSym CHR ''(''] @ QParam ?n # ?ct @ ts)" if "lexes s ts" "boundary s" for s ts
    by (rule lexes_app [OF col opens_lexes [OF opens_parts(10) tail [OF that]]]) simp
  have not_any: "lexes (''NOT ('' @ c @ '' = ANY('' @ ''$'' @ nat_digits ?n @ ?cast @ ''))'')
      ([QWord ''NOT'', QSym CHR ''(''] @ ?col @ [QSym CHR ''='', QWord ''ANY'', QSym CHR ''(''] @ QParam ?n # ?ct @ [QSym CHR '')'', QSym CHR '')''])"
    by (rule opens_lexes [OF opens_parts(9) any [OF closing_parts(6)]]) simp
  have lk: "lexes (c @ '' LIKE '' @ ''$'' @ nat_digits ?n @ '' ESCAPE '' @ [CHR 0x27, CHR 0x5C, CHR 0x27])
      (?col @ [QWord ''LIKE''] @ QParam ?n # [QWord ''ESCAPE'', QText [CHR 0x5C]])"
    by (rule lexes_app [OF col opens_lexes [OF opens_parts(11) place_lexes [OF escape_lexes]]]) simp_all
  have nul: "lexes (c @ '' IS NULL'') (?col @ [QWord ''IS'', QWord ''NULL''])"
    "lexes (c @ '' IS NOT NULL'') (?col @ [QWord ''IS'', QWord ''NOT'', QWord ''NULL''])"
    by (rule lexes_app [OF col closing_parts(1)] lexes_app [OF col closing_parts(2)]; simp)+
  have any_close: "lexes (c @ '' = ANY('' @ ''$'' @ nat_digits ?n @ ?cast @ '')'')
      (?col @ [QSym CHR ''='', QWord ''ANY'', QSym CHR ''(''] @ QParam ?n # ?ct @ [QSym CHR '')''])"
    by (rule any [OF closing_parts(5)]) simp
  show ?thesis
    using part qc cmp not_any lk nul any_close
    by (cases "wc_operator clause")
       (auto simp: where_part_def clause_tokens_def clause_values_def rbind_Inr_iff Let_def)
qed

lemma clause_tokens_not_Nil: "clause_tokens schemaName tableSlug types n clause \<noteq> []"
  by (simp add: clause_tokens_def column_tokens_def table_tokens_def Let_def split: WhereOperator.splits)

lemma where_parts_tokens:
  assumes q: "qualify schemaName tableSlug = Inr q"
  shows "where_parts q types clauses params = Inr (parts, params1) \<Longrightarrow>
    list_all2 lexes parts (clauses_tokens schemaName tableSlug types (length params) clauses) \<and> params1 = params @ clauses_values clauses"
proof (induction clauses arbitrary: params parts params1)
  case Nil then show ?case by (simp add: clauses_values_def)
next
  case (Cons c cs)
  from Cons.prems obtain p params' ps where
    p: "where_part q types c params = Inr (p, params')" and ps: "where_parts q types cs params' = Inr (ps, params1)" and parts: "parts = p # ps"
    by (auto simp: rbind_Inr_iff)
  from where_part_tokens [OF q p] Cons.IH [OF ps] show ?case by (simp add: parts clauses_values_def)
qed

lemma join_tokens_not_Nil: "tss \<noteq> [] \<Longrightarrow> list_all (\<lambda>t. t \<noteq> []) tss \<Longrightarrow> join_tokens st tss \<noteq> []"
  by (induction tss rule: induct_list012) auto

lemma clauses_tokens_not_Nil:
  "list_all (\<lambda>t. t \<noteq> []) (clauses_tokens schemaName tableSlug types n clauses)"
  by (induction clauses arbitrary: n) (auto simp: clause_tokens_not_Nil)

lemma with_keyword_lexes:
  "lexes fragment ts \<Longrightarrow> opens keyword kt \<Longrightarrow> fragment = [] \<longleftrightarrow> ts = [] \<Longrightarrow> lexes (with_keyword keyword fragment) (headed kt ts)"
  by (simp add: with_keyword_def headed_def opens_lexes)

lemma fragment_tokens:
  assumes b: "buildWhereFragment schemaName tableSlug clauses params types = Inr (fragment, params1)"
  shows "lexes fragment (where_tokens schemaName tableSlug types (length params) clauses) \<and> params1 = params @ clauses_values clauses"
    and "fragment = [] \<longleftrightarrow> where_tokens schemaName tableSlug types (length params) clauses = []"
proof -
  let ?ts = "clauses_tokens schemaName tableSlug types (length params) clauses"
  have *: "(lexes fragment (where_tokens schemaName tableSlug types (length params) clauses) \<and> params1 = params @ clauses_values clauses)
      \<and> (fragment = [] \<longleftrightarrow> where_tokens schemaName tableSlug types (length params) clauses = [])"
  proof (cases clauses)
    case Nil
    with b show ?thesis by (simp add: buildWhereFragment_def where_tokens_def clauses_values_def)
  next
    case (Cons c cs)
    with b obtain q parts where q: "qualify schemaName tableSlug = Inr q"
      and p: "where_parts q types clauses params = Inr (parts, params1)" and f: "fragment = join_with '' AND '' parts"
      by (auto simp: buildWhereFragment_def rbind_Inr_iff simp del: where_parts.simps)
    note wp = where_parts_tokens [OF q p]
    have lx: "lexes fragment (where_tokens schemaName tableSlug types (length params) clauses)"
      unfolding f where_tokens_def by (rule join_lexes [OF conjunct1 [OF wp] opens_parts(2)]) simp
    have "where_tokens schemaName tableSlug types (length params) clauses \<noteq> []"
      unfolding where_tokens_def by (rule join_tokens_not_Nil [OF _ clauses_tokens_not_Nil]) (simp add: Cons)
    with lx wp lexes_no_tokens show ?thesis by metis
  qed
  then show "lexes fragment (where_tokens schemaName tableSlug types (length params) clauses) \<and> params1 = params @ clauses_values clauses"
    and "fragment = [] \<longleftrightarrow> where_tokens schemaName tableSlug types (length params) clauses = []" by auto
qed

definition column_list :: "string \<Rightarrow> string \<Rightarrow> string list \<Rightarrow> sql_token list" where
  "column_list schemaName tableSlug cols = join_tokens [QSym CHR '',''] (map (column_tokens schemaName tableSlug) cols)"

definition select_list :: "string \<Rightarrow> string \<Rightarrow> StructuredQuery \<Rightarrow> sql_token list" where
  "select_list schemaName tableSlug query =
     (if ''*'' \<in> set (sq_select query) then table_tokens schemaName tableSlug @ [QSym CHR ''.'', QSym CHR ''*'']
      else column_list schemaName tableSlug (sq_select query))"

definition group_tokens :: "string \<Rightarrow> string \<Rightarrow> (string, string) dict \<Rightarrow> nat \<Rightarrow> StructuredQuery \<Rightarrow> sql_token list" where
  "group_tokens schemaName tableSlug types n query =
     (if or_empty (sq_groupBy query) = [] then []
      else [QWord ''GROUP'', QWord ''BY''] @ column_list schemaName tableSlug (or_empty (sq_groupBy query))
           @ headed [QWord ''HAVING''] (where_tokens schemaName tableSlug types n (or_empty (sq_having query))))"

definition group_values :: "StructuredQuery \<Rightarrow> jsval list" where
  "group_values query = (if or_empty (sq_groupBy query) = [] then [] else clauses_values (or_empty (sq_having query)))"

definition order_tokens :: "string \<Rightarrow> string \<Rightarrow> StructuredQuery \<Rightarrow> sql_token list" where
  "order_tokens schemaName tableSlug query =
     headed [QWord ''ORDER'', QWord ''BY''] (join_tokens [QSym CHR '','']
       (map (\<lambda>(col, desc). column_tokens schemaName tableSlug col @ [QWord (if desc then ''DESC'' else ''ASC'')]) (or_empty (sq_orderBy query))))"

definition limit_tokens :: "StructuredQuery \<Rightarrow> nat \<Rightarrow> sql_token list" where
  "limit_tokens query n =
     [QWord ''LIMIT'', QParam (Suc n)]
     @ (case sq_offset query of Some k \<Rightarrow> if k > 0 then [QWord ''OFFSET'', QParam (Suc (Suc n))] else [] | None \<Rightarrow> [])"

definition limit_values :: "StructuredQuery \<Rightarrow> jsval list" where
  "limit_values query =
     VNum (jint (min (case sq_limit query of None \<Rightarrow> 100 | Some l \<Rightarrow> l) 1000))
     # (case sq_offset query of Some k \<Rightarrow> if k > 0 then [VNum (jint k)] else [] | None \<Rightarrow> [])"

definition select_tokens :: "string \<Rightarrow> string \<Rightarrow> (string, string) dict \<Rightarrow> StructuredQuery \<Rightarrow> sql_token list" where
  "select_tokens schemaName tableSlug types query =
     (let n = length (clauses_values (or_empty (sq_where query))); k = length (group_values query)
      in QWord ''SELECT'' # select_list schemaName tableSlug query @ QWord ''FROM'' # table_tokens schemaName tableSlug
         @ headed [QWord ''WHERE''] (where_tokens schemaName tableSlug types 0 (or_empty (sq_where query)))
         @ group_tokens schemaName tableSlug types n query
         @ order_tokens schemaName tableSlug query
         @ limit_tokens query (n + k))"

definition select_values :: "StructuredQuery \<Rightarrow> jsval list" where
  "select_values query = clauses_values (or_empty (sq_where query)) @ group_values query @ limit_values query"

definition count_tokens :: "string \<Rightarrow> string \<Rightarrow> (string, string) dict \<Rightarrow> StructuredQuery \<Rightarrow> sql_token list" where
  "count_tokens schemaName tableSlug types query =
     [QWord ''SELECT'', QWord ''COUNT'', QSym CHR ''('', QSym CHR ''*'', QSym CHR '')'', QWord ''AS'', QWord ''total'', QWord ''FROM'']
     @ table_tokens schemaName tableSlug
     @ headed [QWord ''WHERE''] (where_tokens schemaName tableSlug types 0 (or_empty (sq_where query)))"

section \<open>The builder writes these tokens\<close>

lemma rmap_lexes:
  assumes "\<And>x y. x \<in> set xs \<Longrightarrow> f x = Inr y \<Longrightarrow> lexes y (g x)"
  shows "rmap f xs = Inr ys \<Longrightarrow> list_all2 lexes ys (map g xs)"
  using assms by (induction xs arbitrary: ys) (auto simp: rbind_Inr_iff)

lemma columns_lexes:
  assumes q: "qualify schemaName tableSlug = Inr q" and cols: "rmap (qualify_column q) cs = Inr cols"
  shows "lexes (join_with '', '' cols) (column_list schemaName tableSlug cs)"
  unfolding column_list_def
  by (rule join_lexes [OF rmap_lexes [OF _ cols] opens_parts(1)]) (use column_lexes [OF q] in auto)

lemma select_lexes:
  assumes q: "qualify schemaName tableSlug = Inr q" and s: "select_clause q query = Inr sel"
  shows "lexes sel (select_list schemaName tableSlug query)"
proof (cases "''*'' \<in> set (sq_select query)")
  case True
  with s have "sel = q @ ''.*''" by (simp add: select_clause_def)
  moreover have "lexes (q @ ''.*'') (table_tokens schemaName tableSlug @ [QSym CHR ''.'', QSym CHR ''*''])"
    by (rule lexes_app [OF qualify_lexes [OF q] closing_parts(7)]) simp
  ultimately show ?thesis using True by (simp add: select_list_def)
next
  case False
  with s show ?thesis by (auto simp: select_clause_def select_list_def rbind_Inr_iff columns_lexes [OF q])
qed

lemma headed_boundary: "boundary (keyword @ s) \<Longrightarrow> boundary (with_keyword keyword s)"
  by (auto simp: with_keyword_def boundary_def)

lemma group_lexes:
  assumes q: "qualify schemaName tableSlug = Inr q" and g: "group_clause schemaName tableSlug q query params types = Inr (sql, params1)"
  shows "lexes sql (group_tokens schemaName tableSlug types (length params) query) \<and> boundary sql \<and> params1 = params @ group_values query"
proof (cases "or_empty (sq_groupBy query) = []")
  case True with g show ?thesis by (simp add: group_clause_def group_tokens_def group_values_def boundary_def)
next
  case False
  with g obtain cols having where c: "rmap (qualify_column q) (or_empty (sq_groupBy query)) = Inr cols"
    and h: "buildWhereFragment schemaName tableSlug (or_empty (sq_having query)) params types = Inr (having, params1)"
    and sql: "sql = '' GROUP BY '' @ join_with '', '' cols @ with_keyword '' HAVING '' having"
    by (auto simp: group_clause_def rbind_Inr_iff)
  note f = fragment_tokens [OF h]
  have "lexes (with_keyword '' HAVING '' having)
      (headed [QWord ''HAVING''] (where_tokens schemaName tableSlug types (length params) (or_empty (sq_having query))))"
    by (rule with_keyword_lexes [OF conjunct1 [OF f(1)] opens_parts(7) f(2)])
  from opens_lexes [OF opens_parts(6) lexes_app [OF columns_lexes [OF q c] this headed_boundary]]
  show ?thesis using f(1) False by (simp add: sql group_tokens_def group_values_def)
qed

lemma order_lexes:
  assumes q: "qualify schemaName tableSlug = Inr q" and o: "order_clause q query = Inr sql"
  shows "lexes sql (order_tokens schemaName tableSlug query) \<and> boundary sql"
proof (cases "or_empty (sq_orderBy query) = []")
  case True with o show ?thesis by (simp add: order_clause_def order_tokens_def headed_def boundary_def)
next
  case False
  let ?g = "\<lambda>(col, desc). column_tokens schemaName tableSlug col @ [QWord (if desc then ''DESC'' else ''ASC'')]"
  from o False obtain parts where p: "rmap (order_part q) (or_empty (sq_orderBy query)) = Inr parts"
    and sql: "sql = '' ORDER BY '' @ join_with '', '' parts"
    by (auto simp: order_clause_def rbind_Inr_iff)
  have "lexes y (?g x)" if "order_part q x = Inr y" for x y
  proof -
    from that obtain c where c: "qualify_column q (fst x) = Inr c" and y: "y = c @ (if snd x then '' DESC'' else '' ASC'')"
      by (auto simp: order_part_def rbind_Inr_iff)
    have "lexes (if snd x then '' DESC'' else '' ASC'') [QWord (if snd x then ''DESC'' else ''ASC'')]"
      using closing_parts(3,4) by simp
    from lexes_app [OF column_lexes [OF q c] this] show ?thesis by (simp add: y case_prod_beta)
  qed
  then have "list_all2 lexes parts (map ?g (or_empty (sq_orderBy query)))" by (intro rmap_lexes [OF _ p])
  from opens_lexes [OF opens_parts(8) join_lexes [OF this opens_parts(1)]]
  have "lexes sql ([QWord ''ORDER'', QWord ''BY''] @ join_tokens [QSym CHR '',''] (map ?g (or_empty (sq_orderBy query))))" by (simp add: sql)
  moreover have "join_tokens [QSym CHR '',''] (map ?g (or_empty (sq_orderBy query))) \<noteq> []"
    by (rule join_tokens_not_Nil) (use False in \<open>auto simp: list_all_iff\<close>)
  ultimately show ?thesis by (simp add: order_tokens_def headed_def sql)
qed

lemma limit_lexes:
  assumes l: "limit_clause query params = (sql, params1)"
  shows "lexes sql (limit_tokens query (length params)) \<and> boundary sql \<and> params1 = params @ limit_values query"
proof -
  have off: "lexes ('' OFFSET '' @ ''$'' @ nat_digits n) [QWord ''OFFSET'', QParam n]" for n
    using opens_lexes [OF opens_parts(13) param_lexes] by simp
  have lim: "lexes ('' LIMIT '' @ ''$'' @ nat_digits n @ s) (QWord ''LIMIT'' # QParam n # ts)" if "lexes s ts" "boundary s" for n s ts
    using opens_lexes [OF opens_parts(12) place_lexes [OF that]] by simp
  show ?thesis
    using l lim [OF lexes_nil] lim [OF off] 
    by (auto simp: limit_clause_def limit_tokens_def limit_values_def MAX_LIMIT_def DEFAULT_LIMIT_def Let_def boundary_def [of "[]"]
             split: option.splits if_splits)
qed

lemma where_lexes:
  assumes w: "buildWhereFragment schemaName tableSlug clauses [] types = Inr (fragment, params)"
  shows "lexes (with_keyword '' WHERE '' fragment) (headed [QWord ''WHERE''] (where_tokens schemaName tableSlug types 0 clauses))
         \<and> boundary (with_keyword '' WHERE '' fragment) \<and> params = clauses_values clauses"
proof -
  note f = fragment_tokens [OF w]
  have "lexes (with_keyword '' WHERE '' fragment) (headed [QWord ''WHERE''] (where_tokens schemaName tableSlug types (length ([] :: jsval list)) clauses))"
    by (rule with_keyword_lexes [OF conjunct1 [OF f(1)] opens_parts(5) f(2)])
  with f(1) show ?thesis by (simp add: headed_boundary)
qed

lemma select_tokens_read:
  assumes b: "buildSelectSql schemaName tableSlug query types = Inr (sql, params)"
  shows "sql_lex sql = Some (select_tokens schemaName tableSlug types query) \<and> params = select_values query"
proof -
  from b obtain q sel fragment params1 grp params2 ordSql where
    q: "qualify schemaName tableSlug = Inr q" and sel: "select_clause q query = Inr sel"
    and w: "buildWhereFragment schemaName tableSlug (or_empty (sq_where query)) [] types = Inr (fragment, params1)"
    and g: "group_clause schemaName tableSlug q query params1 types = Inr (grp, params2)"
    and o: "order_clause q query = Inr ordSql"
    and fin: "(case limit_clause query params2 of (limSql, params3) \<Rightarrow>
           Inr (''SELECT '' @ sel @ '' FROM '' @ q @ with_keyword '' WHERE '' fragment @ grp @ ordSql @ limSql, params3)) = (Inr (sql, params) :: _ res)"
    unfolding buildSelectSql_def rbind_Inr_iff split_paired_Ex case_prod_conv by blast
  obtain limSql where l: "limit_clause query params2 = (limSql, params)"
    and sql: "sql = ''SELECT '' @ sel @ '' FROM '' @ q @ with_keyword '' WHERE '' fragment @ grp @ ordSql @ limSql"
    using fin by (cases "limit_clause query params2") simp
  note W = where_lexes [OF w] and G = group_lexes [OF q g] and O = order_lexes [OF q o] and L = limit_lexes [OF l]
  have 1: "lexes (ordSql @ limSql) (order_tokens schemaName tableSlug query @ limit_tokens query (length params2))" "boundary (ordSql @ limSql)"
    using O L by (auto intro: lexes_app boundary_app)
  have 2: "lexes (grp @ ordSql @ limSql) (group_tokens schemaName tableSlug types (length params1) query @ order_tokens schemaName tableSlug query
             @ limit_tokens query (length params2))" "boundary (grp @ ordSql @ limSql)"
    using G 1 by (auto intro: lexes_app boundary_app)
  from W 2 have 3: "lexes (with_keyword '' WHERE '' fragment @ grp @ ordSql @ limSql)
      (headed [QWord ''WHERE''] (where_tokens schemaName tableSlug types 0 (or_empty (sq_where query)))
       @ group_tokens schemaName tableSlug types (length params1) query @ order_tokens schemaName tableSlug query
       @ limit_tokens query (length params2))" "boundary (with_keyword '' WHERE '' fragment @ grp @ ordSql @ limSql)"
    by (auto intro: lexes_app boundary_app)
  note from_clause = opens_lexes [OF opens_parts(4) lexes_app [OF qualify_lexes [OF q] 3]]
  from lexes_all [OF opens_lexes [OF opens_parts(3) lexes_app [OF select_lexes [OF q sel] from_clause]]]
  show ?thesis using W G L by (simp add: sql select_tokens_def select_values_def Let_def)
qed

lemma count_tokens_read:
  assumes b: "buildCountSql schemaName tableSlug query types = Inr (sql, params)"
  shows "sql_lex sql = Some (count_tokens schemaName tableSlug types query) \<and> params = clauses_values (or_empty (sq_where query))"
proof -
  from b obtain q fragment where q: "qualify schemaName tableSlug = Inr q"
    and w: "buildWhereFragment schemaName tableSlug (or_empty (sq_where query)) [] types = Inr (fragment, params)"
    and sql: "sql = ''SELECT COUNT(*) AS total FROM '' @ q @ with_keyword '' WHERE '' fragment"
    by (auto simp: buildCountSql_def rbind_Inr_iff)
  note W = where_lexes [OF w]
  from lexes_all [OF opens_lexes [OF opens_parts(15) lexes_app [OF qualify_lexes [OF q]]]] W
  show ?thesis by (simp add: sql count_tokens_def)
qed

definition demo_query :: StructuredQuery where
  "demo_query =
     \<lparr>sq_entityType = ''person'', sq_select = [''name''],
      sq_where = Some [\<lparr>wc_field = ''name'', wc_operator = OpEq, wc_value = VStr [CHR 0x27, CHR '';'']\<rparr>],
      sq_orderBy = None, sq_limit = None, sq_offset = None, sq_groupBy = None, sq_having = None\<rparr>"

lemmas query_eval = buildSelectSql_def buildCountSql_def qualify_def quotePgIdentifier_def PG_IDENTIFIER_def slug_char_def is_digit_def
  rbind_def select_clause_def qualify_column_def quoteColumnIdentifier_def SYSTEM_COLUMNS_def buildWhereFragment_def where_part_def
  compare_op_def group_clause_def order_clause_def limit_clause_def with_keyword_def nat_digits.simps MAX_LIMIT_def DEFAULT_LIMIT_def Let_def

text \<open>
  Property C14: the server reads the tokens of the query in the text of the SELECT statement, and nothing else: names are quoted
  identifiers, every value of a condition, the limit and the offset stand as numbered parameters, and the values sent beside the
  text are those of the query in the order of their numbers.
\<close>

theorem select_text_is_query:
  assumes "buildSelectSql schemaName tableSlug query types = Inr (sql, params)"
  shows "sql_lex sql = Some (select_tokens schemaName tableSlug types query) \<and> params = select_values query"
  using assms by (rule select_tokens_read)

theorem select_text_is_query_witness:
  "case buildSelectSql ''tenant_1'' ''person'' demo_query [] of
     Inr (sql, params) \<Rightarrow>
       sql_lex sql = Some (select_tokens ''tenant_1'' ''person'' [] demo_query) \<and> params = select_values demo_query
       \<and> params = [VStr [CHR 0x27, CHR '';''], VNum (jint 100)]
   | Inl e \<Rightarrow> False"
proof -
  obtain sql params where b: "buildSelectSql ''tenant_1'' ''person'' demo_query [] = Inr (sql, params)"
    and "params = [VStr [CHR 0x27, CHR '';''], VNum (jint 100)]"
    by (simp add: query_eval demo_query_def)
  with select_text_is_query [OF b] show ?thesis by simp
qed

section \<open>What reaches the server\<close>

lemma idents_small [simp]:
  "idents (table_tokens schemaName tableSlug) = [schemaName, tableSlug]"
  "idents (column_tokens schemaName tableSlug col) = [schemaName, tableSlug, col]"
  "idents (cast_tokens t) = []" "idents (compare_tokens p) = []" "idents (limit_tokens query n) = []"
  by (simp_all add: table_tokens_def column_tokens_def cast_tokens_def compare_tokens_def limit_tokens_def
      split: WhereOperator.splits option.splits)

lemma idents_headed: "idents keyword = [] \<Longrightarrow> idents (headed keyword ts) = idents ts"
  by (simp add: headed_def)

lemma idents_join: "idents sep = [] \<Longrightarrow> set (idents (join_tokens sep tss)) = (\<Union>ts \<in> set tss. set (idents ts))"
  by (induction sep tss rule: join_tokens.induct) auto

lemma idents_clause: "set (idents (clause_tokens schemaName tableSlug types n clause)) = {schemaName, tableSlug, wc_field clause}"
  by (auto simp: clause_tokens_def Let_def split: WhereOperator.splits)

lemma idents_clauses:
  "(\<Union>ts \<in> set (clauses_tokens schemaName tableSlug types n clauses). set (idents ts)) \<subseteq> {schemaName, tableSlug} \<union> wc_field ` set clauses"
  by (induction clauses arbitrary: n) (auto simp: idents_clause)

lemma idents_where:
  "set (idents (where_tokens schemaName tableSlug types n clauses)) \<subseteq> {schemaName, tableSlug} \<union> wc_field ` set clauses"
  using idents_clauses unfolding where_tokens_def by (subst idents_join) simp_all

lemma idents_columns: "set (idents (column_list schemaName tableSlug cols)) \<subseteq> {schemaName, tableSlug} \<union> set cols"
  by (auto simp: column_list_def idents_join)

lemma no_unknown: "filter (\<lambda>f. f \<notin> set slugs) xs = [] \<longleftrightarrow> set xs \<subseteq> set slugs"
  by (auto simp: filter_empty_conv)

lemma idents_select:
  assumes ok: "validateFieldReferences query slugs = []"
  shows "set (idents (select_tokens schemaName tableSlug types query)) \<subseteq> {schemaName, tableSlug} \<union> set slugs"
    and "set (idents (count_tokens schemaName tableSlug types query)) \<subseteq> {schemaName, tableSlug} \<union> set slugs"
proof -
  have cols: "\<not> ''*'' \<in> set (sq_select query) \<Longrightarrow> set (sq_select query) \<subseteq> set slugs"
    and wh: "wc_field ` set (or_empty (sq_where query)) \<subseteq> set slugs" and ob: "fst ` set (or_empty (sq_orderBy query)) \<subseteq> set slugs"
    and gb: "set (or_empty (sq_groupBy query)) \<subseteq> set slugs" and hv: "wc_field ` set (or_empty (sq_having query)) \<subseteq> set slugs"
    using ok by (simp_all add: validateFieldReferences_def Let_def no_unknown split: if_splits)
  let ?B = "{schemaName, tableSlug} \<union> set slugs"
  have sel: "set (idents (select_list schemaName tableSlug query)) \<subseteq> ?B"
    using cols idents_columns [of schemaName tableSlug "sq_select query"] by (auto simp: select_list_def)
  have whr: "set (idents (headed [QWord ''WHERE''] (where_tokens schemaName tableSlug types n (or_empty (sq_where query))))) \<subseteq> ?B" for n
  proof -
    have "set (idents (where_tokens schemaName tableSlug types n (or_empty (sq_where query)))) \<subseteq> {schemaName, tableSlug} \<union> wc_field ` set (or_empty (sq_where query))"
      by (rule idents_where)
    with wh show ?thesis by (simp add: idents_headed) blast
  qed
  have grp: "set (idents (group_tokens schemaName tableSlug types n query)) \<subseteq> ?B" for n
  proof -
    have "set (idents (column_list schemaName tableSlug (or_empty (sq_groupBy query)))) \<subseteq> ?B"
      by (rule order_trans [OF idents_columns]) (use gb in blast)
    moreover have "set (idents (where_tokens schemaName tableSlug types n (or_empty (sq_having query)))) \<subseteq> ?B"
      by (rule order_trans [OF idents_where]) (use hv in blast)
    ultimately show ?thesis by (simp add: group_tokens_def idents_headed)
  qed
  have ord: "set (idents (order_tokens schemaName tableSlug query)) \<subseteq> ?B"
  proof -
    have "set (idents (order_tokens schemaName tableSlug query)) \<subseteq> {schemaName, tableSlug} \<union> fst ` set (or_empty (sq_orderBy query))"
      by (simp add: order_tokens_def idents_headed idents_join case_prod_beta) blast
    with ob show ?thesis by blast
  qed
  show "set (idents (select_tokens schemaName tableSlug types query)) \<subseteq> ?B"
    using sel whr [of 0] grp ord by (simp add: select_tokens_def Let_def)
  show "set (idents (count_tokens schemaName tableSlug types query)) \<subseteq> ?B"
    using whr [of 0] by (simp add: count_tokens_def)
qed

text \<open>The names a tenant may use in a query on an entity: the system columns and the slugs of its live fields.\<close>

definition known_names :: "OntologyDb \<Rightarrow> string \<Rightarrow> string \<Rightarrow> string list" where
  "known_names db tenantId entityType =
     SYSTEM_COLUMNS @ (case findBySlug db tenantId entityType of
                         None \<Rightarrow> [] | Some entity \<Rightarrow> map fd_slug (findByEntityId db (en_id entity)))"

lemma resolve_Some:
  assumes "resolveEntityFields db tenantId entityType = Some e"
  shows "re_schemaName e = tenantSchemaName tenantId \<and> re_tableSlug e = entityType \<and> re_fieldSlugs e = known_names db tenantId entityType"
proof -
  obtain en where f: "findBySlug db tenantId entityType = Some en"
    using assms by (cases "findBySlug db tenantId entityType") (simp_all add: resolveEntityFields_def)
  then have "en_slug en = entityType" by (auto simp: findBySlug_def find_Some_iff)
  with f assms show ?thesis by (auto simp: resolveEntityFields_def known_names_def Let_def)
qed

lemma run_queries_statements:
  "run_queries server sel cnt types = (r, events) \<Longrightarrow> Statement sql params \<in> set events \<Longrightarrow>
     sql \<in> {''BEGIN'', ''SET LOCAL statement_timeout = 30000'', ''COMMIT''} \<or> (sql, params) \<in> {sel, cnt}"
  by (auto simp: run_queries_def Let_def split: pg_reply.splits)

lemma executeQuery_runs:
  assumes "executeQuery server connects db tenantId query = (r, events)" "events \<noteq> []"
  obtains e sel cnt events' where "resolveEntityFields db tenantId (sq_entityType query) = Some e"
    and "validateFieldReferences query (re_fieldSlugs e) = []"
    and "buildSelectSql (re_schemaName e) (re_tableSlug e) query (re_fieldTypes e) = Inr sel"
    and "buildCountSql (re_schemaName e) (re_tableSlug e) query (re_fieldTypes e) = Inr cnt"
    and "run_queries server sel cnt (re_fieldTypes e) = (r, events')" and "events = TakeClient # events' @ [ReleaseClient]"
  using assms that by (auto simp: executeQuery_def Let_def split: option.splits if_splits sum.splits prod.splits)

lemma control_statements:
  "sql_lex ''BEGIN'' = Some [QWord ''BEGIN'']" "sql_lex ''COMMIT'' = Some [QWord ''COMMIT'']"
  "map_option idents (sql_lex ''SET LOCAL statement_timeout = 30000'') = Some []"
  by (simp_all add: sql_lex.simps word_char_def is_digit_def starts_quoted_def starts_comment_def)

text \<open>
  Property C15: every statement a query sends, whatever the query asks for, can be read by the server, and the identifiers in it are the
  schema of the tenant, the table of the entity, the system columns and the live fields of that entity of the tenant.
\<close>

theorem statements_confined:
  assumes x: "executeQuery server connects db tenantId query = (r, events)" and st: "Statement sql params \<in> set events"
  shows "\<exists>ts. sql_lex sql = Some ts
           \<and> set (idents ts) \<subseteq> {tenantSchemaName tenantId, sq_entityType query} \<union> set (known_names db tenantId (sq_entityType query))"
proof -
  from st have "events \<noteq> []" by auto
  with x obtain e sel cnt events' where e: "resolveEntityFields db tenantId (sq_entityType query) = Some e"
    and v: "validateFieldReferences query (re_fieldSlugs e) = []"
    and sel: "buildSelectSql (re_schemaName e) (re_tableSlug e) query (re_fieldTypes e) = Inr sel"
    and cnt: "buildCountSql (re_schemaName e) (re_tableSlug e) query (re_fieldTypes e) = Inr cnt"
    and run: "run_queries server sel cnt (re_fieldTypes e) = (r, events')" and ev: "events = TakeClient # events' @ [ReleaseClient]"
    by (rule executeQuery_runs)
  note R = resolve_Some [OF e]
  from st ev have "Statement sql params \<in> set events'" by simp
  from run_queries_statements [OF run this] show ?thesis
  proof (elim disjE)
    assume "sql \<in> {''BEGIN'', ''SET LOCAL statement_timeout = 30000'', ''COMMIT''}"
    then have "map_option idents (sql_lex sql) = Some []" using control_statements by auto
    then show ?thesis by auto
  next
    assume "(sql, params) \<in> {sel, cnt}"
    then consider "sel = (sql, params)" | "cnt = (sql, params)" by auto
    then show ?thesis
    proof cases
      case 1
      from select_tokens_read [OF sel [unfolded 1]] idents_select(1) [OF v] R show ?thesis by simp
    next
      case 2
      from count_tokens_read [OF cnt [unfolded 2]] idents_select(2) [OF v] R show ?thesis by simp
    qed
  qed
qed

definition demo_ontology :: OntologyDb where
  "demo_ontology =
     \<lparr>od_entities = [\<lparr>en_id = ''e1'', en_tenant_id = ''7'', en_name = ''Person'', en_slug = ''person'', en_version = 1, en_description = None,
                      en_is_public = False, en_created_at = 9, en_updated_at = 9, en_created_by = ''u'', en_deleted_at = None\<rparr>],
      od_fields = [\<lparr>fd_id = ''f1'', fd_entity_id = ''e1'', fd_tenant_id = ''7'', fd_name = ''Name'', fd_slug = ''name'', fd_field_type = ''string'',
                    fd_required = True, fd_nullable = False, fd_default_value = VNull, fd_validation_rules = [], fd_enum_values = None,
                    fd_array_item_type = None, fd_ref_entity_id = None, fd_is_indexed = False, fd_is_unique = False, fd_sort_order = 0,
                    fd_system_generated = False, fd_created_at = 9, fd_updated_at = 9, fd_deleted_at = None\<rparr>]\<rparr>"

lemmas service_eval = executeQuery_def validateStructure_def clause_problems_def resolveEntityFields_def findBySlug_def findByEntityId_def
  validateFieldReferences_def tenantSchemaName_def run_queries_def known_names_def query_outcome_def extractColumns_def total_of_def

theorem statements_confined_witness:
  "list_all (\<lambda>ev. case ev of
       Statement sql params \<Rightarrow>
         (case sql_lex sql of
            None \<Rightarrow> False
          | Some ts \<Rightarrow> list_all (\<lambda>i. i \<in> set ([''tenant_7'', ''person''] @ SYSTEM_COLUMNS @ [''name''])) (idents ts))
     | _ \<Rightarrow> True) (snd (executeQuery (\<lambda>sql params. PgRows [] []) True demo_ontology ''7'' demo_query))
   \<and> length (snd (executeQuery (\<lambda>sql params. PgRows [] []) True demo_ontology ''7'' demo_query)) = 7"
proof -
  let ?x = "executeQuery (\<lambda>sql params. PgRows [] []) True demo_ontology ''7'' demo_query"
  have k: "{tenantSchemaName ''7'', sq_entityType demo_query} \<union> set (known_names demo_ontology ''7'' (sq_entityType demo_query))
      = set ([''tenant_7'', ''person''] @ SYSTEM_COLUMNS @ [''name''])"
    by (auto simp add: service_eval demo_ontology_def demo_query_def)
  have "length (snd ?x) = 7"
    by (simp add: service_eval query_eval demo_ontology_def demo_query_def)
  moreover have "case sql_lex sql of None \<Rightarrow> False
      | Some ts \<Rightarrow> list_all (\<lambda>i. i \<in> set ([''tenant_7'', ''person''] @ SYSTEM_COLUMNS @ [''name''])) (idents ts)"
    if "Statement sql params \<in> set (snd ?x)" for sql params
  proof -
    obtain r events where x: "?x = (r, events)" by fastforce
    with that have "Statement sql params \<in> set events" by simp
    from statements_confined [OF x this] k show ?thesis by (auto simp only: list_all_iff option.case)
  qed
  ultimately show ?thesis by (simp only: list_all_iff) (auto split: pool_event.split)
qed

definition rejected :: "query_error + QueryResult \<Rightarrow> bool" where
  "rejected r \<longleftrightarrow>
     (case r of Inl EntityNotFoundError \<Rightarrow> True | Inl (QueryValidationError errors) \<Rightarrow> True | _ \<Rightarrow> False)"

lemma run_not_rejected: "run_queries server sel cnt types = (r, events) \<Longrightarrow> \<not> rejected r"
  by (auto simp: run_queries_def query_outcome_def rejected_def Let_def split: pg_reply.splits if_splits)

text \<open>
  The two entry points agree.  A query is rejected by \<open>executeQuery\<close>, as unknown or as invalid, exactly if
  \<open>validateQuery\<close> does not call it valid, and what is rejected sends no statement and takes no client from the pool.
\<close>

theorem validation_agrees:
  "case executeQuery server connects db tenantId query of
     (r, events) \<Rightarrow> (rejected r \<longleftrightarrow> validateQuery db tenantId query \<noteq> Inr (True, [])) \<and> (rejected r \<and> events = [] \<or> \<not> rejected r)"
proof (cases "validateStructure query = [] \<and> resolveEntityFields db tenantId (sq_entityType query) \<noteq> None")
  case False
  then show ?thesis by (auto simp: validateQuery_def executeQuery_def rejected_def)
next
  case True
  then obtain e where e: "resolveEntityFields db tenantId (sq_entityType query) = Some e" by auto
  show ?thesis
    using True e run_not_rejected
    by (auto simp: validateQuery_def executeQuery_def Let_def rejected_def [of "Inl _"] split: sum.splits prod.splits)
qed

section \<open>Every well-formed query builds\<close>

lemma names_quoted: "PG_IDENTIFIER s \<or> s \<in> set SYSTEM_COLUMNS \<Longrightarrow> \<exists>c. quoteColumnIdentifier s = Inr c"
  by (auto simp: quoteColumnIdentifier_def quotePgIdentifier_def)

lemma rmap_ok: "(\<And>x. x \<in> set xs \<Longrightarrow> \<exists>y. f x = Inr y) \<Longrightarrow> \<exists>ys. rmap f xs = Inr ys"
  by (induction xs) (fastforce simp: rbind_Inr_iff)+

definition name_ok :: "string \<Rightarrow> bool" where
  "name_ok s \<longleftrightarrow> PG_IDENTIFIER s \<or> s \<in> set SYSTEM_COLUMNS"

text \<open>The values of \<open>like\<close> conditions have a text.\<close>

definition like_ok :: "WhereClause \<Rightarrow> bool" where
  "like_ok clause \<longleftrightarrow> (wc_operator clause = OpLike \<longrightarrow> (case to_str (wc_value clause) of Inr raw \<Rightarrow> True | Inl e \<Rightarrow> False))"

lemma column_ok: "name_ok col \<Longrightarrow> \<exists>c. qualify_column q col = Inr c"
  using names_quoted by (force simp: name_ok_def qualify_column_def rbind_Inr_iff)

lemma where_part_ok: "name_ok (wc_field clause) \<Longrightarrow> like_ok clause \<Longrightarrow> \<exists>p. where_part q types clause params = Inr p"
  using column_ok [of "wc_field clause" q]
  by (auto simp: where_part_def like_ok_def rbind_def Let_def split: WhereOperator.splits sum.splits)

lemma where_parts_ok:
  "list_all (\<lambda>c. name_ok (wc_field c) \<and> like_ok c) clauses \<Longrightarrow> \<exists>p. where_parts q types clauses params = Inr p"
proof (induction clauses arbitrary: params)
  case (Cons c cs)
  then obtain part params1 where p: "where_part q types c params = Inr (part, params1)"
    using where_part_ok [of c q types params] by auto
  with Cons.IH [of params1] Cons.prems show ?case by (auto simp: rbind_def)
qed simp

lemma fragment_ok:
  "qualify schemaName tableSlug = Inr q \<Longrightarrow> list_all (\<lambda>c. name_ok (wc_field c) \<and> like_ok c) clauses \<Longrightarrow>
   \<exists>fragment params1. buildWhereFragment schemaName tableSlug clauses params types = Inr (fragment, params1)"
  using where_parts_ok [of clauses q types params] by (auto simp: buildWhereFragment_def rbind_def)

lemma builds:
  assumes q: "qualify schemaName tableSlug = Inr q" and ok: "validateFieldReferences query slugs = []" and names: "list_all name_ok slugs"
    and likes: "list_all like_ok (or_empty (sq_where query) @ or_empty (sq_having query))"
  shows "\<exists>sql params. buildSelectSql schemaName tableSlug query types = Inr (sql, params)"
    and "\<exists>sql params. buildCountSql schemaName tableSlug query types = Inr (sql, params)"
proof -
  have known: "name_ok x" if "x \<in> set slugs" for x using names that by (simp add: list_all_iff)
  have wh: "list_all (\<lambda>c. name_ok (wc_field c) \<and> like_ok c) (or_empty (sq_where query))"
    and hv: "list_all (\<lambda>c. name_ok (wc_field c) \<and> like_ok c) (or_empty (sq_having query))"
    using ok likes known by (auto simp: validateFieldReferences_def Let_def no_unknown list_all_iff image_subset_iff split: if_splits)
  have cols: "\<exists>cs. rmap (qualify_column q) xs = Inr cs" if "set xs \<subseteq> set slugs" for xs
    by (rule rmap_ok) (use that known column_ok in blast)
  have sel: "\<exists>s. select_clause q query = Inr s"
    using ok cols by (auto simp: select_clause_def validateFieldReferences_def Let_def no_unknown rbind_Inr_iff split: if_splits)
  have grp: "\<exists>s params1. group_clause schemaName tableSlug q query params types = Inr (s, params1)" for params
  proof -
    have "set (or_empty (sq_groupBy query)) \<subseteq> set slugs" using ok by (simp add: validateFieldReferences_def Let_def no_unknown split: if_splits)
    from cols [OF this] fragment_ok [OF q hv, of params types] show ?thesis by (auto simp: group_clause_def rbind_Inr_iff)
  qed
  have "\<exists>s. order_part q ob = Inr s" if "ob \<in> set (or_empty (sq_orderBy query))" for ob
  proof -
    have "fst ` set (or_empty (sq_orderBy query)) \<subseteq> set slugs" using ok by (simp add: validateFieldReferences_def Let_def no_unknown split: if_splits)
    with that have "fst ob \<in> set slugs" by blast
    from column_ok [OF known [OF this], of q] show ?thesis by (auto simp: order_part_def rbind_Inr_iff)
  qed
  then obtain parts where "rmap (order_part q) (or_empty (sq_orderBy query)) = Inr parts" using rmap_ok by meson
  then have ord: "\<exists>s. order_clause q query = Inr s" by (auto simp: order_clause_def rbind_Inr_iff)
  obtain fragment params1 where w: "buildWhereFragment schemaName tableSlug (or_empty (sq_where query)) [] types = Inr (fragment, params1)"
    using fragment_ok [OF q wh] by blast
  show "\<exists>sql params. buildCountSql schemaName tableSlug query types = Inr (sql, params)"
    by (simp add: buildCountSql_def q w rbind_def)
  from sel grp [of params1] ord show "\<exists>sql params. buildSelectSql schemaName tableSlug query types = Inr (sql, params)"
    by (auto simp: buildSelectSql_def q w rbind_def split: prod.split)
qed



section \<open>Where the builder does not do what a query says\<close>

text \<open>\<^verbatim>\<open>totalCount\<close> is the number of rows before grouping: the count does not look at the groups.\<close>

lemma count_ignores_groups:
  "buildCountSql schemaName tableSlug (query\<lparr>sq_groupBy := g, sq_having := h\<rparr>) types = buildCountSql schemaName tableSlug query types"
  by (simp add: buildCountSql_def)

text \<open>Conditions of \<^verbatim>\<open>having\<close> are validated but dropped without \<^verbatim>\<open>groupBy\<close>.\<close>

lemma having_dropped:
  "or_empty (sq_groupBy query) = [] \<Longrightarrow>
   buildSelectSql schemaName tableSlug (query\<lparr>sq_having := h\<rparr>) types = buildSelectSql schemaName tableSlug query types"
  by (simp add: buildSelectSql_def select_clause_def group_clause_def order_clause_def limit_clause_def cong: if_cong)

text \<open>With a wildcard among them the other names of \<^verbatim>\<open>select\<close> are neither checked nor selected.\<close>

lemma wildcard_hides_names:
  "''*'' \<in> set names \<Longrightarrow>
   validateFieldReferences (query\<lparr>sq_select := names\<rparr>) slugs = validateFieldReferences (query\<lparr>sq_select := [''*'']\<rparr>) slugs
   \<and> buildSelectSql schemaName tableSlug (query\<lparr>sq_select := names\<rparr>) types
     = buildSelectSql schemaName tableSlug (query\<lparr>sq_select := [''*'']\<rparr>) types"
  by (simp add: validateFieldReferences_def buildSelectSql_def select_clause_def group_clause_def order_clause_def limit_clause_def
      cong: if_cong)

text \<open>Equality with null is accepted, though \<^verbatim>\<open>= NULL\<close> holds of no row.\<close>

lemma equals_null_accepted:
  "clause_problems \<lparr>wc_field = f, wc_operator = OpEq, wc_value = VNull\<rparr> = []
   \<and> clause_values \<lparr>wc_field = f, wc_operator = OpEq, wc_value = VNull\<rparr> = [VNull]"
  by (simp add: clause_problems_def clause_values_def)

end
