(* ===== verification/DdlBuilder.thy ===== *)
theory DdlBuilder
  imports PgIdentifier StringOps "HOL-Library.List_Lexorder"
begin

text \<open>
  The builders of data definition statements, \<^verbatim>\<open>services/ontology/src/utils/ddl-builder.ts\<close> and \<^verbatim>\<open>field-type-to-pg.ts\<close>: tables
  with their system columns, added and dropped columns, indexes, join tables, row level security, and the view that
  shows an entity during a migration.  Statements are text.
\<close>

section \<open>Field types\<close>

datatype FieldType = FtString | FtNumber | FtBoolean | FtDate | FtJson | FtReference | FtEnum | FtArray

definition fieldTypeToPostgres :: "FieldType \<Rightarrow> string" where
  "fieldTypeToPostgres t =
     (case t of FtString \<Rightarrow> ''TEXT'' | FtNumber \<Rightarrow> ''NUMERIC(19, 4)'' | FtBoolean \<Rightarrow> ''BOOLEAN'' | FtDate \<Rightarrow> ''TIMESTAMPTZ''
        | FtJson \<Rightarrow> ''JSONB'' | FtReference \<Rightarrow> ''UUID'' | FtEnum \<Rightarrow> ''TEXT'' | FtArray \<Rightarrow> ''JSONB'')"

record FieldDDLSpec =
  fs_slug :: string
  fs_fieldType :: FieldType
  fs_required :: bool
  fs_nullable :: bool
  fs_defaultValue :: jsval
  fs_isUnique :: bool
  fs_enumValues :: "string list option"
  fs_refEntitySlug :: "string option"

section \<open>Literals\<close>

abbreviation NL :: char where "NL \<equiv> CHR 0x0A"
abbreviation QUOTE :: char where "QUOTE \<equiv> CHR 0x27"

definition double_quotes :: "string \<Rightarrow> string" where
  "double_quotes s = concat (map (\<lambda>c. if c = QUOTE then [c, c] else [c]) s)"

definition escapeSqlString :: "string \<Rightarrow> string" where
  "escapeSqlString val = QUOTE # double_quotes val @ [QUOTE]"

text \<open>\<^verbatim>\<open>Number(value)\<close> and truth of JSON values.\<close>

definition value_number :: "jsval \<Rightarrow> jsnum res" where
  "value_number v =
     (case v of
        VUndef \<Rightarrow> Inr NaN | VNull \<Rightarrow> Inr (Fin 0) | VBool b \<Rightarrow> Inr (Fin (if b then 1 else 0)) | VNum n \<Rightarrow> Inr n
      | VStr s \<Rightarrow> Inr (js_Number s) | _ \<Rightarrow> rbind (to_str v) (\<lambda>s. Inr (js_Number s)))"

definition value_truthy :: "jsval \<Rightarrow> bool" where
  "value_truthy v =
     (case v of VUndef \<Rightarrow> False | VNull \<Rightarrow> False | VBool b \<Rightarrow> b | VNum n \<Rightarrow> n \<noteq> Fin 0 \<and> n \<noteq> NaN | VStr s \<Rightarrow> s \<noteq> [] | _ \<Rightarrow> True)"

definition formatDefaultValue :: "jsval \<Rightarrow> FieldType \<Rightarrow> string res" where
  "formatDefaultValue v fieldType =
     (if fieldType = FtJson \<or> fieldType = FtArray
      then (case json v of None \<Rightarrow> Inl TypeError | Some s \<Rightarrow> Inr (QUOTE # double_quotes s @ [QUOTE] @ ''::jsonb''))
      else if fieldType = FtBoolean then Inr (if value_truthy v then ''true'' else ''false'')
      else if fieldType = FtNumber
      then rbind (value_number v) (\<lambda>num.
             if \<not> is_finite num then Inl (PlainError ''Invalid number default value'') else Inr (num_to_string num))
      else rbind (to_str v) (\<lambda>s. Inr (escapeSqlString s)))"

definition enum_list :: "string list \<Rightarrow> string" where
  "enum_list vs = join_with '', '' (map escapeSqlString vs)"

section \<open>Tables and columns\<close>

abbreviation has_default :: "FieldDDLSpec \<Rightarrow> bool" where
  "has_default f \<equiv> \<not> is_nullish (fs_defaultValue f)"

definition enum_values :: "FieldDDLSpec \<Rightarrow> string list" where
  "enum_values f = (if fs_fieldType f = FtEnum then (case fs_enumValues f of None \<Rightarrow> [] | Some vs \<Rightarrow> vs) else [])"

definition default_part :: "FieldDDLSpec \<Rightarrow> string list res" where
  "default_part f =
     (if has_default f then rbind (formatDefaultValue (fs_defaultValue f) (fs_fieldType f)) (\<lambda>d. Inr [''DEFAULT '' @ d]) else Inr [])"

definition reference_part :: "string \<Rightarrow> FieldDDLSpec \<Rightarrow> string list res" where
  "reference_part schemaName f =
     (case fs_refEntitySlug f of
        None \<Rightarrow> Inr []
      | Some slug \<Rightarrow>
          if fs_fieldType f = FtReference \<and> slug \<noteq> []
          then rbind (qualify schemaName slug) (\<lambda>refTable. Inr [''REFERENCES '' @ refTable @ ''('' @ quoted ''_id'' @ '')''])
          else Inr [])"

definition buildColumnDef :: "FieldDDLSpec \<Rightarrow> string \<Rightarrow> string res" where
  "buildColumnDef f schemaName =
     rbind (quotePgIdentifier (fs_slug f)) (\<lambda>col.
     rbind (reference_part schemaName f) (\<lambda>refs.
     rbind (default_part f) (\<lambda>dflt.
       Inr (join_with '' ''
         ([''  '' @ col, fieldTypeToPostgres (fs_fieldType f)] @ refs
          @ (if fs_nullable f then [] else [''NOT NULL'']) @ (if fs_isUnique f then [''UNIQUE''] else []) @ dflt
          @ (if enum_values f = [] then [] else [''CHECK ('' @ col @ '' IN ('' @ enum_list (enum_values f) @ ''))'']))))))"

definition table_system_columns :: "string list" where
  "table_system_columns =
     [''  '' @ quoted ''_id'' @ ''           UUID        PRIMARY KEY DEFAULT gen_random_uuid()'',
      ''  '' @ quoted ''_ingested_by'' @ ''  UUID'',
      ''  '' @ quoted ''_created_at'' @ ''   TIMESTAMPTZ NOT NULL DEFAULT now()'',
      ''  '' @ quoted ''_updated_at'' @ ''   TIMESTAMPTZ NOT NULL DEFAULT now()'',
      ''  '' @ quoted ''_version'' @ ''      INTEGER     NOT NULL DEFAULT 1'',
      ''  '' @ quoted ''_source_id'' @ ''    TEXT'']"

definition buildCreateTableDDL :: "string \<Rightarrow> string \<Rightarrow> FieldDDLSpec list \<Rightarrow> string res" where
  "buildCreateTableDDL schemaName entitySlug specs =
     rbind (qualify schemaName entitySlug) (\<lambda>table.
     rbind (rmap (\<lambda>f. buildColumnDef f schemaName) specs) (\<lambda>userColumns.
       Inr (''CREATE TABLE '' @ table @ '' ('' @ [NL] @ join_with ('','' @ [NL]) (table_system_columns @ userColumns) @ [NL] @ '')'')))"

text \<open>Several statements are joined to one text, and the caller splits it again.\<close>

definition SEMI :: string where "SEMI = [CHR '';'', NL]"

definition hex_id :: "string \<Rightarrow> bool" where
  "hex_id s \<longleftrightarrow> s \<noteq> [] \<and> list_all (\<lambda>c. c \<in> set ''abcdef0123456789'') s"

definition buildRlsDDL :: "string \<Rightarrow> string \<Rightarrow> string \<Rightarrow> string res" where
  "buildRlsDDL schemaName entitySlug tenantId =
     rbind (qualify schemaName entitySlug) (\<lambda>table.
     rbind (quotePgIdentifier (''tenant_isolation_'' @ entitySlug)) (\<lambda>policyName.
       let tenantSafe = filter (\<lambda>c. c \<noteq> CHR ''-'') tenantId
       in if \<not> hex_id tenantSafe then Inl (PlainError ''Invalid tenant ID for RLS policy'')
          else Inr (join_with SEMI [''ALTER TABLE '' @ table @ '' ENABLE ROW LEVEL SECURITY'',
                    ''CREATE POLICY '' @ policyName @ '' ON '' @ table @ '' USING (current_setting('' @ escapeSqlString ''app.tenant_id''
                      @ '') = '' @ escapeSqlString tenantSafe @ '')''])))"

definition buildAddColumnDDL :: "string \<Rightarrow> string \<Rightarrow> FieldDDLSpec \<Rightarrow> string res" where
  "buildAddColumnDDL schemaName entitySlug f =
     rbind (qualify schemaName entitySlug) (\<lambda>table.
     rbind (quotePgIdentifier (fs_slug f)) (\<lambda>col.
     rbind (default_part f) (\<lambda>dflt.
     rbind (if fs_isUnique f then rbind (quotePgIdentifier (''uq_'' @ entitySlug @ ''_'' @ fs_slug f)) (\<lambda>c.
              Inr [''ALTER TABLE '' @ table @ '' ADD CONSTRAINT '' @ c @ '' UNIQUE ('' @ col @ '')'']) else Inr []) (\<lambda>uniq.
     rbind (if enum_values f = [] then Inr []
            else rbind (quotePgIdentifier (''chk_'' @ entitySlug @ ''_'' @ fs_slug f @ ''_enum'')) (\<lambda>c.
              Inr [''ALTER TABLE '' @ table @ '' ADD CONSTRAINT '' @ c @ '' CHECK ('' @ col @ '' IN ('' @ enum_list (enum_values f) @ ''))''])) (\<lambda>chk.
       Inr (join_with SEMI ((''ALTER TABLE '' @ table @ '' ADD COLUMN '' @ col @ '' '' @ fieldTypeToPostgres (fs_fieldType f)
             @ (if fs_nullable f then [] else '' NOT NULL'') @ (case dflt of [] \<Rightarrow> [] | d # _ \<Rightarrow> '' '' @ d)) # uniq @ chk)))))))"

definition buildDropColumnDDL :: "string \<Rightarrow> string \<Rightarrow> string \<Rightarrow> string res" where
  "buildDropColumnDDL schemaName entitySlug fieldSlug =
     rbind (qualify schemaName entitySlug) (\<lambda>table.
     rbind (quotePgIdentifier fieldSlug) (\<lambda>col. Inr (''ALTER TABLE '' @ table @ '' DROP COLUMN IF EXISTS '' @ col)))"

definition buildCreateIndexDDL :: "string \<Rightarrow> string \<Rightarrow> string \<Rightarrow> bool \<Rightarrow> bool \<Rightarrow> string res" where
  "buildCreateIndexDDL schemaName entitySlug fieldSlug concurrent gin =
     rbind (qualify schemaName entitySlug) (\<lambda>table.
     rbind (quotePgIdentifier (''idx_'' @ entitySlug @ ''_'' @ fieldSlug)) (\<lambda>indexName.
     rbind (quotePgIdentifier fieldSlug) (\<lambda>col.
       Inr (''CREATE INDEX'' @ (if concurrent then '' CONCURRENTLY'' else []) @ '' IF NOT EXISTS '' @ indexName @ '' ON '' @ table
            @ (if gin then '' USING GIN ('' @ col @ '' jsonb_path_ops)'' else '' ('' @ col @ '')'')))))"

definition buildJoinTableDDL :: "string \<Rightarrow> string \<Rightarrow> string \<Rightarrow> string \<Rightarrow> bool \<Rightarrow> string res" where
  "buildJoinTableDDL schemaName fromSlug toSlug joinTableName cascadeDelete =
     rbind (qualify schemaName joinTableName) (\<lambda>table.
     rbind (qualify schemaName fromSlug) (\<lambda>fromTable.
     rbind (qualify schemaName toSlug) (\<lambda>toTable.
     rbind (quotePgIdentifier (fromSlug @ ''_id'')) (\<lambda>fromCol.
     rbind (quotePgIdentifier (toSlug @ ''_id'')) (\<lambda>toCol.
       let action = (if cascadeDelete then ''ON DELETE CASCADE'' else ''ON DELETE RESTRICT'')
       in Inr (''CREATE TABLE '' @ table @ '' ('' @ [NL]
               @ ''  '' @ fromCol @ '' UUID NOT NULL REFERENCES '' @ fromTable @ ''('' @ quoted ''_id'' @ '') '' @ action @ '','' @ [NL]
               @ ''  '' @ toCol @ ''   UUID NOT NULL REFERENCES '' @ toTable @ ''('' @ quoted ''_id'' @ '')   '' @ action @ '','' @ [NL]
               @ ''  '' @ quoted ''created_at'' @ '' TIMESTAMPTZ NOT NULL DEFAULT now(),'' @ [NL]
               @ ''  PRIMARY KEY ('' @ fromCol @ '', '' @ toCol @ '')'' @ [NL] @ '')''))))))"

text \<open>\<^verbatim>\<open>sort()\<close> compares code units.\<close>

definition deriveJoinTableName :: "string \<Rightarrow> string \<Rightarrow> string" where
  "deriveJoinTableName fromSlug toSlug =
     (if map of_char toSlug < (map of_char fromSlug :: nat list) then toSlug @ ''_'' @ fromSlug else fromSlug @ ''_'' @ toSlug)"

section \<open>The view of a migration\<close>

record UnionViewFieldSpec =
  uv_slug :: string
  uv_isNew :: bool
  uv_defaultExpression :: "string option"
  uv_isRemoved :: bool

text \<open>\<^verbatim>\<open>/^'[^']*(?:''[^']*)*'$/\<close>: inside, quotes come in pairs.\<close>

fun doubled :: "string \<Rightarrow> bool" where
  "doubled [] = True"
| "doubled (c # cs) = (if c \<noteq> QUOTE then doubled cs else (case cs of [] \<Rightarrow> False | d # ds \<Rightarrow> d = QUOTE \<and> doubled ds))"

definition text_literal :: "string \<Rightarrow> bool" where
  "text_literal s \<longleftrightarrow> 2 \<le> length s \<and> hd s = QUOTE \<and> last s = QUOTE \<and> doubled (butlast (tl s))"

text \<open>\<^verbatim>\<open>/^-?(?:0|[1-9]\d*)(?:\.\d+)?$/\<close>.\<close>

definition number_literal :: "string \<Rightarrow> bool" where
  "number_literal s =
     (let t = (if s \<noteq> [] \<and> hd s = CHR ''-'' then tl s else s); i = takeWhile is_digit t; r = dropWhile is_digit t
      in i \<noteq> [] \<and> (i = ''0'' \<or> hd i \<noteq> CHR ''0'') \<and>
         (r = [] \<or> (hd r = CHR ''.'' \<and> tl r \<noteq> [] \<and> list_all is_digit (tl r))))"

definition validateDefaultExpression :: "string \<Rightarrow> bool" where
  "validateDefaultExpression expr \<longleftrightarrow>
     expr = ''NULL'' \<or> expr = ''TRUE'' \<or> expr = ''FALSE'' \<or> text_literal expr \<or> number_literal expr"

definition buildUnionViewName :: "string \<Rightarrow> string \<Rightarrow> string" where
  "buildUnionViewName entitySlug migrationId =
     ''v_'' @ entitySlug @ ''_migration_'' @ take 12 (filter (\<lambda>c. c \<noteq> CHR ''-'') migrationId)"

definition view_system_columns :: "string list" where
  "view_system_columns = [''_id'', ''_created_at'', ''_updated_at'', ''_version'', ''_source_id'', ''_ingested_by'']"

definition systemSelect :: string where
  "systemSelect = join_with '', '' (map quoted view_system_columns)"

abbreviation real_default :: "UnionViewFieldSpec \<Rightarrow> bool" where
  "real_default f \<equiv> uv_defaultExpression f \<noteq> None \<and> uv_defaultExpression f \<noteq> Some ''NULL''"

definition discriminantField :: "UnionViewFieldSpec list \<Rightarrow> UnionViewFieldSpec option" where
  "discriminantField specs = find (\<lambda>f. uv_isNew f \<and> real_default f) specs"

text \<open>The expression of a field where no discriminant exists, in a migrated row and in a row not yet migrated.\<close>

definition coalesced_item :: "UnionViewFieldSpec \<Rightarrow> string res" where
  "coalesced_item f =
     rbind (quotePgIdentifier (uv_slug f)) (\<lambda>col.
       Inr (case uv_defaultExpression f of
              Some d \<Rightarrow> if uv_isNew f \<and> d \<noteq> [] \<and> d \<noteq> ''NULL'' then ''COALESCE('' @ col @ '', '' @ d @ '') AS '' @ col else col
            | None \<Rightarrow> col))"

definition migrated_item :: "UnionViewFieldSpec \<Rightarrow> string res" where
  "migrated_item f = quotePgIdentifier (uv_slug f)"

definition unmigrated_item :: "UnionViewFieldSpec \<Rightarrow> string res" where
  "unmigrated_item f =
     rbind (quotePgIdentifier (uv_slug f)) (\<lambda>col.
       Inr (if uv_isNew f then (case uv_defaultExpression f of None \<Rightarrow> ''NULL'' | Some d \<Rightarrow> d) @ '' AS '' @ col else col))"

definition select_from :: "string \<Rightarrow> string list \<Rightarrow> string" where
  "select_from table items = ''  SELECT '' @ systemSelect @ '', '' @ join_with '', '' items @ [NL] @ ''  FROM '' @ table"

definition buildUnionViewDDL :: "string \<Rightarrow> string \<Rightarrow> string \<Rightarrow> UnionViewFieldSpec list \<Rightarrow> string res" where
  "buildUnionViewDDL schemaName entitySlug migrationId specs =
     rbind (qualify schemaName entitySlug) (\<lambda>table.
     rbind (qualify schemaName (buildUnionViewName entitySlug migrationId)) (\<lambda>view.
       if \<exists>f \<in> set specs. \<exists>d. uv_defaultExpression f = Some d \<and> \<not> validateDefaultExpression d
       then Inl (PlainError ''Invalid defaultExpression in change_plan'')
       else let activeFields = filter (\<lambda>f. \<not> uv_isRemoved f) specs; head = ''CREATE VIEW '' @ view @ '' AS'' @ [NL]
            in (case discriminantField specs of
                  None \<Rightarrow> rbind (rmap coalesced_item activeFields) (\<lambda>items. Inr (head @ select_from table items))
                | Some f \<Rightarrow>
                    rbind (rmap migrated_item activeFields) (\<lambda>items.
                    rbind (rmap unmigrated_item activeFields) (\<lambda>olds.
                    rbind (quotePgIdentifier (uv_slug f)) (\<lambda>col.
                      Inr (head @ select_from table items @ [NL] @ ''  WHERE '' @ col @ '' IS NOT NULL'' @ [NL] @ ''UNION ALL'' @ [NL]
                           @ select_from table olds @ [NL] @ ''  WHERE '' @ col @ '' IS NULL'')))))))"

definition buildDropViewDDL :: "string \<Rightarrow> string \<Rightarrow> string res" where
  "buildDropViewDDL schemaName viewName = rbind (qualify schemaName viewName) (\<lambda>v. Inr (''DROP VIEW IF EXISTS '' @ v))"

end
