(* ===== verification/MigrationService.thy ===== *)
theory MigrationService
  imports DdlBuilder QueryService
begin

text \<open>
  Changes of an entity and their migrations, \<^verbatim>\<open>services/ontology/src/services/migration-service.ts\<close> with the planning part of
  \<^verbatim>\<open>entity-service.ts\<close> and \<^verbatim>\<open>migration-repository.ts\<close>: classification of a change, the plan of a breaking one, its confirmation
  with the view, completion, failure and rollback from shadow tables.  Whether the server accepts the text of a data
  definition statement is the argument \<open>server\<close>; whether the advisory lock is free is the argument \<open>lockFree\<close>.
\<close>

section \<open>Classification of changes\<close>

record AddField =
  af_slug :: string
  af_fieldType :: string
  af_required :: bool
  af_nullable :: bool
  af_defaultValue :: jsval

record UpdateField =
  uf_slug :: string
  uf_name :: "string option"
  uf_validationRules :: "ValidationRule list option"
  uf_isIndexed :: "bool option"
  uf_isUnique :: "bool option"
  uf_defaultValue :: jsval

record EntityDiff =
  df_addFields :: "AddField list option"
  df_removeFieldSlugs :: "string list option"
  df_renameFields :: "(string \<times> string) list option"
  df_updateFields :: "UpdateField list option"
  df_metadataOnly :: bool
  df_nameChanged :: bool
  df_descriptionChanged :: bool
  df_isPublicChanged :: bool

record ChangeDescription =
  cd_type :: string
  cd_fieldSlug :: "string option"
  cd_details :: "string option"

abbreviation field_change :: "string \<Rightarrow> string \<Rightarrow> ChangeDescription" where
  "field_change t slug \<equiv> \<lparr>cd_type = t, cd_fieldSlug = Some slug, cd_details = None\<rparr>"

text \<open>\<^verbatim>\<open>a > b\<close> on numbers and texts.\<close>

definition js_gt :: "jsval \<Rightarrow> jsval \<Rightarrow> bool" where
  "js_gt a b =
     (case (a, b) of
        (VStr s, VStr t) \<Rightarrow> (map of_char t :: nat list) < map of_char s
      | _ \<Rightarrow> (case (value_number a, value_number b) of (Inr x, Inr y) \<Rightarrow> jlt y x | _ \<Rightarrow> False))"

definition existingMap :: "ValidationRule list \<Rightarrow> (rule_type, ValidationRule) dict" where
  "existingMap rules = foldl (\<lambda>m r. map_set m (vr_type r) r) [] rules"

definition rule_tightens :: "(rule_type, ValidationRule) dict \<Rightarrow> ValidationRule \<Rightarrow> bool" where
  "rule_tightens old rule =
     (case dict_get old (vr_type rule) of
        None \<Rightarrow> True
      | Some prev \<Rightarrow>
          if vr_type rule = RuleMinLength \<or> vr_type rule = RuleMin then js_gt (vr_value rule) (vr_value prev)
          else if vr_type rule = RuleMaxLength \<or> vr_type rule = RuleMax then js_gt (vr_value prev) (vr_value rule)
          else False)"

definition isValidationMoreRestrictive :: "ValidationRule list \<Rightarrow> ValidationRule list \<Rightarrow> bool" where
  "isValidationMoreRestrictive existing updated \<longleftrightarrow> (\<exists>rule \<in> set updated. rule_tightens (existingMap existing) rule)"

definition add_change :: "bool \<Rightarrow> AddField \<Rightarrow> bool \<times> ChangeDescription" where
  "add_change hasData f =
     (if af_required f \<and> \<not> af_nullable f \<and> af_defaultValue f = VUndef \<and> hasData
      then (True, field_change ''add_required_field_no_default'' (af_slug f))
      else (False, field_change ''add_field'' (af_slug f)))"

definition update_changes :: "bool \<Rightarrow> FieldRow list \<Rightarrow> UpdateField \<Rightarrow> (bool \<times> ChangeDescription) list" where
  "update_changes hasData existingFields u =
     (case find (\<lambda>f. fd_slug f = uf_slug u) existingFields of
        None \<Rightarrow> []
      | Some existing \<Rightarrow>
          (case uf_validationRules u of
             None \<Rightarrow> []
           | Some rules \<Rightarrow>
               if isValidationMoreRestrictive (fd_validation_rules existing) rules \<and> hasData
               then [(True, field_change ''tighten_validation'' (uf_slug u))]
               else [(False, field_change ''relax_validation'' (uf_slug u))])
          @ (if uf_name u \<noteq> None \<or> uf_isIndexed u \<noteq> None \<or> uf_isUnique u \<noteq> None
             then [(False, field_change ''update_field_metadata'' (uf_slug u))] else []))"

text \<open>Each change with whether it is breaking, in the order of the code.\<close>

definition marked_changes :: "EntityDiff \<Rightarrow> FieldRow list \<Rightarrow> bool \<Rightarrow> (bool \<times> ChangeDescription) list" where
  "marked_changes diff existingFields hasData =
     (let meta = (\<lambda>b d. if b then [(False, \<lparr>cd_type = ''update_metadata'', cd_fieldSlug = None, cd_details = Some d\<rparr>)] else [])
      in meta (df_nameChanged diff) ''name changed'' @ meta (df_descriptionChanged diff) ''description changed''
         @ meta (df_isPublicChanged diff) ''isPublic changed''
         @ map (add_change hasData) (or_empty (df_addFields diff))
         @ map (\<lambda>(a, b). (True, \<lparr>cd_type = ''rename_field'', cd_fieldSlug = Some a, cd_details = Some (''renamed to '' @ b)\<rparr>))
             (or_empty (df_renameFields diff))
         @ map (\<lambda>slug. (True, field_change ''remove_field'' slug)) (or_empty (df_removeFieldSlugs diff))
         @ concat (map (update_changes hasData existingFields) (or_empty (df_updateFields diff))))"

text \<open>True is \<^verbatim>\<open>breaking\<close>.\<close>

definition classifyChange :: "EntityDiff \<Rightarrow> FieldRow list \<Rightarrow> bool \<Rightarrow> bool \<times> ChangeDescription list" where
  "classifyChange diff existingFields hasData =
     (let marked = marked_changes diff existingFields hasData; changes = map snd marked
      in if changes = [] \<and> df_metadataOnly diff then (False, changes) else (list_ex fst marked, changes))"

text \<open>\<^verbatim>\<open>isTypeWiden\<close>, with the table of types that widen to text.\<close>

definition WIDEN_MAP :: "(string, string list) dict" where
  "WIDEN_MAP = [(''number'', [''string'']), (''boolean'', [''string'']), (''date'', [''string'']), (''enum'', [''string''])]"

definition isTypeWiden :: "string \<Rightarrow> string \<Rightarrow> bool" where
  "isTypeWiden fromType toType = (case dict_get WIDEN_MAP fromType of None \<Rightarrow> False | Some ts \<Rightarrow> toType \<in> set ts)"

section \<open>The plan of a breaking change\<close>

definition default_expression :: "jsval \<Rightarrow> string res" where
  "default_expression v =
     (case v of
        VUndef \<Rightarrow> Inr ''NULL''
      | VStr s \<Rightarrow> Inr (escapeSqlString s)
      | VNum n \<Rightarrow> if is_finite n then Inr (num_to_string n) else Inl (PlainError ''ValidationError'')
      | VBool b \<Rightarrow> Inr (if b then ''TRUE'' else ''FALSE'')
      | _ \<Rightarrow> Inl (PlainError ''ValidationError''))"

definition buildMigrationFieldSpec :: "FieldRow list \<Rightarrow> EntityDiff \<Rightarrow> UnionViewFieldSpec list res" where
  "buildMigrationFieldSpec existingFields diff =
     (let olds = map (\<lambda>f. \<lparr>uv_slug = fd_slug f, uv_isNew = False, uv_defaultExpression = None,
                           uv_isRemoved = fd_slug f \<in> set (or_empty (df_removeFieldSlugs diff))\<rparr>) existingFields
      in rbind (rmap (\<lambda>f. rbind (default_expression (af_defaultValue f)) (\<lambda>d.
                  Inr \<lparr>uv_slug = af_slug f, uv_isNew = True, uv_defaultExpression = Some d, uv_isRemoved = False\<rparr>))
                 (or_empty (df_addFields diff)))
           (\<lambda>news. Inr (olds @ news)))"

section \<open>Migrations\<close>

datatype MigrationStatus = MgPending | MgConfirmed | MgRunning | MgComplete | MgFailed | MgRolledBack

record MigrationRow =
  mg_id :: string
  mg_tenant_id :: string
  mg_entity_id :: string
  mg_from_version :: int
  mg_to_version :: int
  mg_change_type :: string
  mg_is_breaking :: bool
  mg_plan_changes :: "ChangeDescription list"
  mg_plan_fields :: "UnionViewFieldSpec list option"
  mg_status :: MigrationStatus
  mg_union_view_name :: "string option"
  mg_confirmed_by :: "string option"
  mg_confirmed_at :: "nat option"
  mg_started_at :: "nat option"
  mg_completed_at :: "nat option"
  mg_error_details :: jsval
  mg_created_at :: nat

datatype ShadowStatus = ShActive | ShDropped | ShCorrupt | ShUnavailable

record ShadowRow =
  sh_id :: string
  sh_migration_id :: string
  sh_schema_name :: string
  sh_table_name :: string
  sh_batch_index :: nat
  sh_status :: ShadowStatus

text \<open>A table with its columns and rows.\<close>

record DataTable =
  dt_columns :: "string list"
  dt_rows :: "props list"

record OntologyState =
  on_db :: OntologyDb
  on_migrations :: "MigrationRow list"
  on_shadows :: "ShadowRow list"
  on_tables :: "(string \<times> string, DataTable) dict"
  on_published :: "(string \<times> props) list"

datatype mig_error = MigrationNotFound | MigrationWrongState | MigrationPlanExpired | MigrationInProgress | MigrationThrow js_error | MigrationDb

definition PLAN_EXPIRY_MS :: nat where "PLAN_EXPIRY_MS = 3600000"

definition CHANGE_TYPES :: "string list" where
  "CHANGE_TYPES = [''add_field'', ''remove_field'', ''rename_field'', ''change_field_type'', ''add_entity'', ''remove_entity'',
                   ''add_relationship'', ''remove_relationship'', ''change_validation'', ''compound'']"

definition findById :: "OntologyDb \<Rightarrow> string \<Rightarrow> string \<Rightarrow> EntityRow option" where
  "findById db tenantId entityId = find (\<lambda>e. en_tenant_id e = tenantId \<and> en_id e = entityId \<and> en_deleted_at e = None) (od_entities db)"

definition mig_findById :: "OntologyState \<Rightarrow> string \<Rightarrow> MigrationRow option" where
  "mig_findById st migrationId = find (\<lambda>m. mg_id m = migrationId) (on_migrations st)"

definition findActiveByEntityId :: "OntologyState \<Rightarrow> string \<Rightarrow> MigrationRow option" where
  "findActiveByEntityId st entityId =
     (case rev (sort_key mg_created_at
        (filter (\<lambda>m. mg_entity_id m = entityId \<and> mg_status m \<in> {MgPending, MgConfirmed, MgRunning}) (on_migrations st))) of
        [] \<Rightarrow> None | m # _ \<Rightarrow> Some m)"

text \<open>\<^verbatim>\<open>UPDATE ... WHERE id = $1\<close>, with a condition on the row.\<close>

definition mig_update :: "string \<Rightarrow> (MigrationRow \<Rightarrow> bool) \<Rightarrow> (MigrationRow \<Rightarrow> MigrationRow) \<Rightarrow> OntologyState \<Rightarrow> OntologyState" where
  "mig_update migrationId P f st = st\<lparr>on_migrations := map (\<lambda>m. if mg_id m = migrationId \<and> P m then f m else m) (on_migrations st)\<rparr>"

definition setConfirmed :: "nat \<Rightarrow> string \<Rightarrow> MigrationRow \<Rightarrow> MigrationRow" where
  "setConfirmed now userId m = m\<lparr>mg_status := MgConfirmed, mg_confirmed_by := Some userId, mg_confirmed_at := Some now\<rparr>"

definition setRunning :: "nat \<Rightarrow> string \<Rightarrow> MigrationRow \<Rightarrow> MigrationRow" where
  "setRunning now viewName m = m\<lparr>mg_status := MgRunning, mg_started_at := Some now, mg_union_view_name := Some viewName\<rparr>"

definition setComplete :: "nat \<Rightarrow> MigrationRow \<Rightarrow> MigrationRow" where
  "setComplete now m = m\<lparr>mg_status := MgComplete, mg_completed_at := Some now\<rparr>"

definition setFailed :: "nat \<Rightarrow> jsval \<Rightarrow> MigrationRow \<Rightarrow> MigrationRow" where
  "setFailed now error m = m\<lparr>mg_status := MgFailed, mg_error_details := error, mg_completed_at := Some now\<rparr>"

definition setRolledBack :: "nat \<Rightarrow> MigrationRow \<Rightarrow> MigrationRow" where
  "setRolledBack now m = m\<lparr>mg_status := MgRolledBack, mg_completed_at := Some now\<rparr>"

text \<open>Messages, as the properties of the object that is published.\<close>

definition announce :: "string \<Rightarrow> props \<Rightarrow> OntologyState \<Rightarrow> OntologyState" where
  "announce channel msg st = st\<lparr>on_published := on_published st @ [(channel, msg)]\<rparr>"

abbreviation VInt :: "int \<Rightarrow> jsval" where "VInt i \<equiv> VNum (Fin (rat_of_int i))"

definition started_message :: "MigrationRow \<Rightarrow> EntityRow \<Rightarrow> props" where
  "started_message m e =
     [(''tenantId'', VStr (mg_tenant_id m)), (''entityType'', VStr (en_slug e)), (''fromVersion'', VInt (mg_from_version m)),
      (''toVersion'', VInt (mg_to_version m)), (''migrationId'', VStr (mg_id m))]"

definition changed_message :: "MigrationRow \<Rightarrow> EntityRow \<Rightarrow> props" where
  "changed_message m e =
     [(''tenantId'', VStr (mg_tenant_id m)), (''newVersion'', VInt (en_version e + 1)),
      (''diff'', VObj 0 [(''modifiedEntities'', VArr 0 [VStr (en_slug e)]), (''changeType'', VStr ''migration_complete'')])]"

definition completed_message :: "MigrationRow \<Rightarrow> EntityRow \<Rightarrow> props" where
  "completed_message m e = [(''tenantId'', VStr (mg_tenant_id m)), (''entityType'', VStr (en_slug e)), (''migrationId'', VStr (mg_id m))]"

definition failed_message :: "MigrationRow \<Rightarrow> EntityRow option \<Rightarrow> jsval \<Rightarrow> props" where
  "failed_message m e error =
     [(''tenantId'', VStr (mg_tenant_id m)), (''entityType'', VStr (case e of None \<Rightarrow> ''unknown'' | Some x \<Rightarrow> en_slug x)),
      (''migrationId'', VStr (mg_id m)), (''error'', error)]"

text \<open>The insert of a plan, with the check and the key of the table.\<close>

definition create_migration :: "MigrationRow \<Rightarrow> OntologyState \<Rightarrow> (mig_error + MigrationRow) \<times> OntologyState" where
  "create_migration m st =
     (if mg_change_type m \<notin> set CHANGE_TYPES \<or> mg_id m \<in> mg_id ` set (on_migrations st) then (Inl MigrationDb, st)
      else (Inr m, st\<lparr>on_migrations := on_migrations st @ [m]\<rparr>))"

text \<open>The breaking branch of \<^verbatim>\<open>patchEntity\<close>.\<close>

definition plan_breaking ::
  "nat \<Rightarrow> string \<Rightarrow> string \<Rightarrow> EntityRow \<Rightarrow> FieldRow list \<Rightarrow> EntityDiff \<Rightarrow> ChangeDescription list \<Rightarrow> OntologyState \<Rightarrow>
     (mig_error + MigrationRow) \<times> OntologyState" where
  "plan_breaking now newId tenantId entity existingFields diff changes st =
     (case buildMigrationFieldSpec existingFields diff of
        Inl e \<Rightarrow> (Inl (MigrationThrow e), st)
      | Inr specs \<Rightarrow>
          create_migration
            \<lparr>mg_id = newId, mg_tenant_id = tenantId, mg_entity_id = en_id entity, mg_from_version = en_version entity,
             mg_to_version = en_version entity + 1,
             mg_change_type = (case changes of [c] \<Rightarrow> cd_type c | _ \<Rightarrow> ''compound''), mg_is_breaking = True, mg_plan_changes = changes,
             mg_plan_fields = Some specs, mg_status = MgPending, mg_union_view_name = None, mg_confirmed_by = None,
             mg_confirmed_at = None, mg_started_at = None, mg_completed_at = None,
             mg_error_details = VNull, mg_created_at = now\<rparr> st)"

section \<open>Confirmation\<close>

text \<open>What is read before the transaction, and the transaction.  Other requests may come between.\<close>

definition confirm_read :: "nat \<Rightarrow> string \<Rightarrow> OntologyState \<Rightarrow> mig_error + MigrationRow \<times> EntityRow" where
  "confirm_read now migrationId st =
     (case mig_findById st migrationId of
        None \<Rightarrow> Inl MigrationNotFound
      | Some m \<Rightarrow>
          if mg_status m \<noteq> MgPending then Inl MigrationWrongState
          else if int now - int (mg_created_at m) > int PLAN_EXPIRY_MS then Inl MigrationPlanExpired
          else (case findById (on_db st) (mg_tenant_id m) (mg_entity_id m) of
                  None \<Rightarrow> Inl MigrationNotFound | Some e \<Rightarrow> Inr (m, e)))"

definition confirm_view :: "(string \<Rightarrow> bool) \<Rightarrow> MigrationRow \<Rightarrow> EntityRow \<Rightarrow> mig_error option" where
  "confirm_view server m e =
     (case mg_plan_fields m of
        None \<Rightarrow> None
      | Some specs \<Rightarrow>
          (case buildUnionViewDDL (tenantSchemaName (mg_tenant_id m)) (en_slug e) (mg_id m) specs of
             Inl x \<Rightarrow> Some (MigrationThrow x)
           | Inr sql \<Rightarrow> if server sql then None else Some MigrationDb))"

definition confirm_commit ::
  "(string \<Rightarrow> bool) \<Rightarrow> bool \<Rightarrow> nat \<Rightarrow> string \<Rightarrow> MigrationRow \<times> EntityRow \<Rightarrow> OntologyState \<Rightarrow> (mig_error + MigrationRow) \<times> OntologyState" where
  "confirm_commit server lockFree now userId me st =
     (case me of (m, e) \<Rightarrow>
        if \<not> lockFree then (Inl MigrationInProgress, st)
        else (case find (\<lambda>r. mg_id r = mg_id m \<and> mg_status r = MgPending) (on_migrations st) of
                None \<Rightarrow> (Inl MigrationWrongState, st)
              | Some row \<Rightarrow>
                  let st1 = mig_update (mg_id m) (\<lambda>r. mg_status r = MgPending) (setConfirmed now userId) st
                  in (case confirm_view server m e of
                        Some x \<Rightarrow> (Inl x, st)
                      | None \<Rightarrow>
                          (Inr (setConfirmed now userId row),
                           announce ''ontology:migration:started'' (started_message m e)
                             (mig_update (mg_id m) (\<lambda>r. mg_status r = MgConfirmed)
                               (setRunning now (buildUnionViewName (en_slug e) (mg_id m))) st1)))))"

definition confirmMigration ::
  "(string \<Rightarrow> bool) \<Rightarrow> bool \<Rightarrow> nat \<Rightarrow> string \<Rightarrow> string \<Rightarrow> OntologyState \<Rightarrow> (mig_error + MigrationRow) \<times> OntologyState" where
  "confirmMigration server lockFree now migrationId userId st =
     (case confirm_read now migrationId st of
        Inl e \<Rightarrow> (Inl e, st)
      | Inr me \<Rightarrow> confirm_commit server lockFree now userId me st)"

section \<open>Completion, failure and rollback\<close>

definition bumpVersion :: "nat \<Rightarrow> string \<Rightarrow> OntologyState \<Rightarrow> OntologyState" where
  "bumpVersion now entityId st =
     st\<lparr>on_db := (on_db st)\<lparr>od_entities := map (\<lambda>e. if en_id e = entityId \<and> en_deleted_at e = None
                                                  then e\<lparr>en_version := en_version e + 1, en_updated_at := now\<rparr> else e)
                                            (od_entities (on_db st))\<rparr>\<rparr>"

definition drop_view :: "(string \<Rightarrow> bool) \<Rightarrow> MigrationRow \<Rightarrow> mig_error option" where
  "drop_view server m =
     (case mg_union_view_name m of
        None \<Rightarrow> None
      | Some v \<Rightarrow>
          (case buildDropViewDDL (tenantSchemaName (mg_tenant_id m)) v of
             Inl x \<Rightarrow> Some (MigrationThrow x) | Inr sql \<Rightarrow> if server sql then None else Some MigrationDb))"

definition completeMigration :: "(string \<Rightarrow> bool) \<Rightarrow> nat \<Rightarrow> string \<Rightarrow> OntologyState \<Rightarrow> (mig_error + unit) \<times> OntologyState" where
  "completeMigration server now migrationId st =
     (case mig_findById st migrationId of
        None \<Rightarrow> (Inr (), st)
      | Some m \<Rightarrow>
          (case findById (on_db st) (mg_tenant_id m) (mg_entity_id m) of
             None \<Rightarrow> (Inr (), st)
           | Some e \<Rightarrow>
               (case drop_view server m of
                  Some x \<Rightarrow> (Inl x, st)
                | None \<Rightarrow>
                    (Inr (), announce ''ontology:migration:completed'' (completed_message m e) (announce ''ontology:changed'' (changed_message m e)
                       (bumpVersion now (mg_entity_id m)
                         (mig_update migrationId (\<lambda>r. mg_status r = MgRunning) (setComplete now) st)))))))"

text \<open>Failing to quote the view's name is not caught; the server refusing to drop the view is.\<close>

definition quoting_fails :: "MigrationRow \<Rightarrow> js_error option" where
  "quoting_fails m =
     (case mg_union_view_name m of
        None \<Rightarrow> None
      | Some v \<Rightarrow> (case buildDropViewDDL (tenantSchemaName (mg_tenant_id m)) v of Inl x \<Rightarrow> Some x | Inr sql \<Rightarrow> None))"

definition failMigration :: "nat \<Rightarrow> string \<Rightarrow> jsval \<Rightarrow> OntologyState \<Rightarrow> (mig_error + unit) \<times> OntologyState" where
  "failMigration now migrationId error st =
     (case mig_findById st migrationId of
        None \<Rightarrow> (Inr (), st)
      | Some m \<Rightarrow>
          (case quoting_fails m of
             Some x \<Rightarrow> (Inl (MigrationThrow x), st)
           | None \<Rightarrow>
                 (Inr (), announce ''ontology:migration:failed'' (failed_message m (findById (on_db st) (mg_tenant_id m) (mg_entity_id m)) error)
                            (mig_update migrationId (\<lambda>r. True) (setFailed now error) st))))"

definition shadow_status :: "string \<Rightarrow> ShadowStatus \<Rightarrow> OntologyState \<Rightarrow> OntologyState" where
  "shadow_status shadowId s st = st\<lparr>on_shadows := map (\<lambda>b. if sh_id b = shadowId then b\<lparr>sh_status := s\<rparr> else b) (on_shadows st)\<rparr>"

definition columns_of :: "OntologyState \<Rightarrow> string \<times> string \<Rightarrow> string list" where
  "columns_of st t = (case dict_get (on_tables st) t of None \<Rightarrow> [] | Some d \<Rightarrow> dt_columns d)"

text \<open>
  The rows of the target after those with an id in the shadow table are replaced by the shadow's common columns.  Both tables
  have the column \<^verbatim>\<open>_id\<close>.
\<close>

definition restored_rows :: "string list \<Rightarrow> DataTable \<Rightarrow> DataTable \<Rightarrow> props list" where
  "restored_rows cols target shadow =
     filter (\<lambda>r. \<not> (\<exists>s \<in> set (dt_rows shadow). strict_eq (prop_get s ''_id'') (prop_get r ''_id''))) (dt_rows target)
     @ map (\<lambda>s. map (\<lambda>c. (c, prop_get s c)) cols) (dt_rows shadow)"

text \<open>The body of the loop over the batches that is inside the \<^verbatim>\<open>try\<close>: the new state if nothing throws.\<close>

definition restore_batch :: "string \<times> string \<Rightarrow> string \<times> string \<Rightarrow> OntologyState \<Rightarrow> OntologyState option" where
  "restore_batch target shadow st =
     (case (dict_get (on_tables st) target, dict_get (on_tables st) shadow) of
        (Some t, Some s) \<Rightarrow>
          let commonCols = filter (\<lambda>c. c \<in> set (columns_of st shadow)) (columns_of st target)
          in if commonCols = [] then None
             else (case rmap quotePgIdentifier commonCols of
                     Inl x \<Rightarrow> None
                   | Inr cols \<Rightarrow>
                       Some (st\<lparr>on_tables := map_delete (map_set (on_tables st) target (t\<lparr>dt_rows := restored_rows commonCols t s\<rparr>)) shadow\<rparr>))
      | _ \<Rightarrow> None)"

fun rollback_batches :: "string \<Rightarrow> string \<Rightarrow> ShadowRow list \<Rightarrow> OntologyState \<Rightarrow> (mig_error + unit) \<times> OntologyState" where
  "rollback_batches schemaName slug [] st = (Inr (), st)"
| "rollback_batches schemaName slug (b # bs) st =
     (if sh_status b = ShCorrupt \<or> sh_status b = ShUnavailable then rollback_batches schemaName slug bs st
      else (case rbind (qualify (sh_schema_name b) (sh_table_name b)) (\<lambda>s. qualify schemaName slug) of
              Inl x \<Rightarrow> (Inl (MigrationThrow x), st)
            | Inr t \<Rightarrow>
                (case restore_batch (schemaName, slug) (sh_schema_name b, sh_table_name b) st of
                   None \<Rightarrow> rollback_batches schemaName slug bs (shadow_status (sh_id b) ShUnavailable st)
                 | Some st1 \<Rightarrow> rollback_batches schemaName slug bs (shadow_status (sh_id b) ShDropped st1))))"

definition rollbackMigration :: "nat \<Rightarrow> string \<Rightarrow> OntologyState \<Rightarrow> (mig_error + unit) \<times> OntologyState" where
  "rollbackMigration now migrationId st =
     (case mig_findById st migrationId of
        None \<Rightarrow> (Inr (), st)
      | Some m \<Rightarrow>
          (case findById (on_db st) (mg_tenant_id m) (mg_entity_id m) of
             None \<Rightarrow> (Inr (), st)
           | Some e \<Rightarrow>
               let batches = rev (sort_key sh_batch_index (filter (\<lambda>b. sh_migration_id b = migrationId) (on_shadows st)))
               in (case rollback_batches (tenantSchemaName (mg_tenant_id m)) (en_slug e) batches st of
                     (Inl x, st1) \<Rightarrow> (Inl x, st1)
                   | (Inr _, st1) \<Rightarrow>
                       (case quoting_fails m of
                          Some x \<Rightarrow> (Inl (MigrationThrow x), st1)
                        | None \<Rightarrow> (Inr (), mig_update migrationId (\<lambda>r. True) (setRolledBack now) st1)))))"

end
