(* ===== verification/DdlProperties.thy ===== *)
theory DdlProperties
  imports DdlBuilder SqlLexer
begin

text \<open>
  What the server reads of the statements that \<open>DdlBuilder\<close> writes.  A text is \<open>confined\<close> to a set of names if it reads as
  tokens whose identifiers are among them; confined texts compose, literals are confined to no names at all.
\<close>

section \<open>Confined texts\<close>

definition confined :: "string set \<Rightarrow> string \<Rightarrow> bool" where
  "confined names s \<longleftrightarrow> (\<exists>ts. lexes s ts \<and> set (idents ts) \<subseteq> names)"

definition leads :: "string \<Rightarrow> bool" where
  "leads s \<longleftrightarrow> (\<exists>ts. opens s ts \<and> idents ts = [])"

lemma confined_mono: "confined A s \<Longrightarrow> A \<subseteq> B \<Longrightarrow> confined B s"
  by (auto simp: confined_def)

lemma confined_app: "confined A s \<Longrightarrow> confined A s' \<Longrightarrow> boundary s' \<Longrightarrow> confined A (s @ s')"
  unfolding confined_def by (elim exE conjE, rule exI, rule conjI, erule (2) lexes_app) auto

lemma confined_open: "leads s \<Longrightarrow> confined A s' \<Longrightarrow> confined A (s @ s')"
  unfolding confined_def leads_def by (elim exE conjE, rule exI, rule conjI, erule (1) opens_lexes) auto

lemma confined_nil [simp]: "confined A []"
  unfolding confined_def by (rule exI [of _ "[]"]) simp

lemma confined_join:
  "list_all (confined A) parts \<Longrightarrow> leads sep \<Longrightarrow> (\<And>s. boundary (sep @ s)) \<Longrightarrow> confined A (join_with sep parts)"
proof (induction parts rule: induct_list012)
  case (3 w v ws)
  have "confined A (w @ sep @ join_with sep (v # ws))"
    using 3 by (intro confined_app confined_open) auto
  then show ?case by simp
qed auto

lemma confined_quoted: "CHR 0x22 \<notin> set s \<Longrightarrow> s \<in> A \<Longrightarrow> confined A (quoted s)"
  unfolding confined_def by (rule exI [of _ "[QIdent s]"]) (simp add: quoted_lexes)

lemma confined_identifier: "quotePgIdentifier s = Inr q \<Longrightarrow> s \<in> A \<Longrightarrow> confined A q"
  using quotePgIdentifier_Inr confined_quoted by blast

lemma confined_table: "qualify s t = Inr q \<Longrightarrow> s \<in> A \<Longrightarrow> t \<in> A \<Longrightarrow> confined A q"
proof -
  assume q: "qualify s t = Inr q" and A: "s \<in> A" "t \<in> A"
  then obtain a b where "quotePgIdentifier s = Inr a" "quotePgIdentifier t = Inr b" "q = a @ ''.'' @ b"
    by (auto simp: qualify_def rbind_Inr_iff)
  moreover have "leads ''.''" unfolding leads_def by (rule exI [of _ "[QSym CHR ''.'']"]) (simp add: lex_eval)
  ultimately show ?thesis using A confined_app [OF _ confined_open] confined_identifier by (metis dot_boundary(1) append_Cons)
qed

section \<open>Literals\<close>

lemma read_doubled:
  "rest = [] \<or> hd rest \<noteq> QUOTE \<Longrightarrow> read_quoted QUOTE acc (double_quotes s @ QUOTE # rest) = Some (acc @ s, rest)"
proof (induction s arbitrary: acc)
  case Nil then show ?case by (cases rest) (auto simp: double_quotes_def)
next
  case (Cons c s)
  then show ?case by (auto simp: double_quotes_def)
qed

lemma ddl_escape_lexes: "lexes (escapeSqlString s) [QText s]"
  unfolding lexes_def
proof (intro allI impI)
  fix rest assume "boundary rest"
  then have "read_quoted QUOTE [] (double_quotes s @ QUOTE # rest) = Some ([] @ s, rest)"
    by (intro read_doubled) (auto simp: boundary_def)
  then show "sql_lex (escapeSqlString s @ rest) = map_option (\<lambda>us. [QText s] @ us) (sql_lex rest)"
    by (simp add: escapeSqlString_def sql_lex.simps)
qed

lemma confined_text: "confined A (escapeSqlString s)"
  unfolding confined_def by (rule exI [of _ "[QText s]"]) (simp add: ddl_escape_lexes)

lemma doubled_source: "doubled b \<Longrightarrow> \<exists>s. b = double_quotes s"
proof (induction b rule: doubled.induct)
  case 1 then show ?case by (intro exI [of _ "[]"]) (simp add: double_quotes_def)
next
  case (2 c cs)
  show ?case
  proof (cases "c = QUOTE")
    case True
    with "2.prems" obtain ds where cs: "cs = QUOTE # ds" "doubled ds" by (auto split: list.splits)
    with True "2.IH"(2) [of QUOTE ds] obtain s where "ds = double_quotes s" by auto
    with True cs show ?thesis by (intro exI [of _ "QUOTE # s"]) (simp add: double_quotes_def)
  next
    case False
    with "2.prems" "2.IH"(1) obtain s where "cs = double_quotes s" by auto
    with False show ?thesis by (intro exI [of _ "c # s"]) (simp add: double_quotes_def)
  qed
qed

lemma text_literal_source: "text_literal e \<Longrightarrow> \<exists>s. e = escapeSqlString s"
proof -
  assume e: "text_literal e"
  then obtain c m where "e = c # m @ [last e]" "c = QUOTE" "last e = QUOTE"
    by (cases e; cases "tl e" rule: rev_cases) (auto simp: text_literal_def)
  with e doubled_source show ?thesis by (force simp: text_literal_def escapeSqlString_def)
qed

text \<open>Text without quotes, parameters and comments: a minus only in front of a digit.\<close>

definition sym_char :: "char \<Rightarrow> bool" where
  "sym_char c \<longleftrightarrow> c \<in> set ''.,():*=;+''"

definition white :: "char \<Rightarrow> bool" where
  "white c \<longleftrightarrow> c = CHR '' '' \<or> c = NL"

fun calm :: "string \<Rightarrow> bool" where
  "calm [] = True"
| "calm (c # cs) = ((word_char c \<or> sym_char c \<or> white c \<or> (c = CHR ''-'' \<and> cs \<noteq> [] \<and> is_digit (hd cs))) \<and> calm cs)"

lemma point_sym [simp]: "sym_char (CHR ''.'')" "sym_char (CHR ''+'')"
  by (simp_all add: sym_char_def)

lemma sym_char_props:
  "sym_char c \<Longrightarrow> \<not> word_char c \<and> c \<notin> {CHR '' '', NL, CHR 0x22, QUOTE, CHR ''$'', CHR ''-'', CHR ''/''}"
  "white c \<Longrightarrow> \<not> word_char c \<and> c \<noteq> CHR 0x22 \<and> c \<noteq> QUOTE"
  by (auto simp: sym_char_def white_def word_char_def is_digit_def)

lemma lexes_blank: "white c \<Longrightarrow> lexes s ts \<Longrightarrow> lexes (c # s) ts"
  by (auto simp: white_def lexes_def sql_lex.simps)

lemma calm_app: "calm a \<Longrightarrow> calm b \<Longrightarrow> calm (a @ b)"
  by (induction a) (auto simp: hd_append)

lemma calm_digits: "list_all is_digit ds \<Longrightarrow> calm ds"
  by (induction ds) (auto simp: word_char_def)

lemma calm_drop: "calm s \<Longrightarrow> calm (dropWhile word_char s)"
  by (induction s) auto

lemma calm_lexes: "calm s \<Longrightarrow> \<exists>ts. lexes s ts \<and> idents ts = []"
proof (induction s rule: length_induct)
  case (1 s)
  show ?case
  proof (cases s)
    case Nil then show ?thesis by (intro exI [of _ "[]"]) simp
  next
    case (Cons c cs)
    consider "word_char c" | "\<not> word_char c" by blast
    then show ?thesis
    proof cases
      case 1
      let ?w = "takeWhile word_char s" and ?r = "dropWhile word_char s"
      have cr: "calm ?r" using "1.prems" by (rule calm_drop)
      then have b: "boundary ?r"
        using hd_dropWhile [of word_char s] sym_char_props by (cases "?r") (auto simp: boundary_def)
      have "length ?r < length s" using 1 Cons by (simp add: length_dropWhile_le less_Suc_eq_le)
      with "1.IH" cr obtain ts where ts: "lexes ?r ts" "idents ts = []" by blast
      have "list_all word_char ?w" "?w \<noteq> []" using 1 Cons by (auto simp: list_all_iff dest: set_takeWhileD)
      from lexes_word [OF ts(1) b this] ts(2) show ?thesis by (metis idents_simps(4) takeWhile_dropWhile_id)
    next
      case 2
      with "1.prems" Cons have c: "sym_char c \<or> white c \<or> (c = CHR ''-'' \<and> cs \<noteq> [] \<and> is_digit (hd cs))" and cs: "calm cs" by auto
      from "1.IH" cs Cons obtain ts where ts: "lexes cs ts" "idents ts = []" by auto
      have "\<exists>us. lexes (c # cs) us \<and> idents us = []"
      proof (cases "white c")
        case True with ts show ?thesis by (intro exI [of _ ts]) (simp add: lexes_blank)
      next
        case nb: False
      have "lexes (c # cs) (QSym c # ts)"
      proof (cases "c = CHR ''-''")
        case False with nb c ts(1) show ?thesis using sym_char_props(1) [of c] by (intro lexes_sym) auto
      next
        case True
        have "\<not> is_digit (CHR ''-'')" by (simp add: is_digit_def)
        with True c nb sym_char_props(1) [of c] obtain d ds where "cs = d # ds" "d \<noteq> CHR ''-''" by (cases cs) fastforce+
        then have nc: "\<not> starts_comment (CHR ''-'' # cs @ rest)" for rest by (simp add: starts_comment_def)
        have w: "\<not> word_char (CHR ''-'')" using True 2 by simp
        from ts(1) show ?thesis
          unfolding True lexes_def
          by (auto simp: sql_lex.simps(2) [of "CHR ''-''"] nc w option.map_comp comp_def intro!: option.map_cong)
      qed
      with ts(2) show ?thesis by (intro exI [of _ "QSym c # ts"]) simp
      qed
      with Cons show ?thesis by simp
    qed
  qed
qed

lemma confined_calm: "calm s \<Longrightarrow> confined A s"
  using calm_lexes unfolding confined_def by fastforce

lemma calm_format: "x > 0 \<Longrightarrow> calm (format_pos x) \<and> (\<exists>d ds. format_pos x = d # ds \<and> is_digit d)"
proof -
  obtain c k n where short: "short_digits x (rexp 10 x + 1) [1..<18] = (c, k, n)" by (metis prod_cases3)
  let ?ds = "nat_digits c" and ?e = "n - 1"
  let ?exps = "(if ?e < 0 then ''e-'' else ''e+'') @ nat_digits (nat \<bar>?e\<bar>)"
  have ds: "list_all is_digit ?ds" "?ds \<noteq> []" by (rule nat_digits_props)+
  then obtain d ds' where d: "?ds = d # ds'" "is_digit d" by (cases ?ds) auto
  obtain m ms where m: "nat_digits (nat \<bar>?e\<bar>) = m # ms" "is_digit m" "list_all is_digit ms"
    using nat_digits_props(1,2) [of "nat \<bar>?e\<bar>"] by (cases "nat_digits (nat \<bar>?e\<bar>)") auto
  have e: "calm ?exps" using m by (auto simp: word_char_def intro: calm_digits)
  have z: "calm (replicate j (CHR ''0''))" for j by (rule calm_digits) (simp add: list_all_iff is_digit_def)
  have t: "calm (take j ?ds)" "calm (drop j ?ds)" for j
    using ds(1) unfolding list_all_iff
    by (rule_tac calm_digits, unfold list_all_iff, meson in_set_takeD in_set_dropD)+
  have all: "calm ?ds" by (rule calm_digits [OF ds(1)])
  have tk: "0 < j \<Longrightarrow> \<exists>y ys. take j ?ds @ w = y # ys \<and> is_digit y" for j w using d by (cases j) auto
  have z0: "is_digit (CHR ''0'')" by (simp add: is_digit_def)
  have pt: "calm (CHR ''.'' # s) = calm s" for s by simp
  show "calm (format_pos x) \<and> (\<exists>d ds. format_pos x = d # ds \<and> is_digit d)"
    unfolding format_pos_def short Let_def case_prod_conv
    using tk [of "nat n"] tk [of 1] d z0 e z t all
    by (auto intro!: calm_app simp: word_char_def)
qed

lemma confined_number: "is_finite n \<Longrightarrow> confined A (num_to_string n)"
proof -
  assume "is_finite n"
  then obtain x where n: "n = Fin x" by (cases n) (auto simp: is_finite_def)
  have "calm (num_to_string (Fin x))"
    using calm_format [of x] calm_format [of "- x"] by (auto simp: word_char_def is_digit_def calm_digits)
  then show ?thesis by (simp add: n confined_calm)
qed

lemma number_literal_calm: "number_literal e \<Longrightarrow> calm e"
proof -
  assume e: "number_literal e"
  define t where "t = (if e \<noteq> [] \<and> hd e = CHR ''-'' then tl e else e)"
  let ?i = "takeWhile is_digit t" and ?r = "dropWhile is_digit t"
  have i: "?i \<noteq> []" and r: "?r = [] \<or> (hd ?r = CHR ''.'' \<and> list_all is_digit (tl ?r))"
    using e by (auto simp: number_literal_def t_def [symmetric] Let_def)
  have "calm ?i" by (rule calm_digits) (auto simp: list_all_iff dest: set_takeWhileD)
  moreover have "calm ?r"
  proof (cases "?r")
    case (Cons a r')
    with r show ?thesis by (simp add: calm_digits)
  next
    case Nil show ?thesis unfolding Nil by simp
  qed
  ultimately have t: "calm t" using calm_app by (metis takeWhile_dropWhile_id)
  have "t \<noteq> [] \<and> is_digit (hd t)" using i by (cases t) (auto split: if_splits)
  with t show ?thesis by (cases e) (auto simp: t_def split: if_splits)
qed

lemma confined_default: "validateDefaultExpression e \<Longrightarrow> confined A e"
proof -
  assume e: "validateDefaultExpression e"
  then consider "e \<in> {''NULL'', ''TRUE'', ''FALSE''}" | "text_literal e" | "number_literal e"
    by (auto simp: validateDefaultExpression_def)
  then show ?thesis
  proof cases
    case 1 then have "calm e" by (auto simp: word_char_def)
    then show ?thesis by (rule confined_calm)
  next
    case 2 then show ?thesis using text_literal_source confined_text by blast
  next
    case 3 then show ?thesis by (intro confined_calm number_literal_calm)
  qed
qed

lemma leads_calm: "calm s \<Longrightarrow> sym_char c \<or> white c \<Longrightarrow> leads (s @ [c])"
proof -
  assume s: "calm s" and c: "sym_char c \<or> white c"
  then obtain ts where ts: "lexes s ts" "idents ts = []" using calm_lexes by blast
  have b: "boundary (c # rest)" for rest using c sym_char_props by (auto simp: boundary_def)
  have "\<exists>us. opens [c] us \<and> idents us = []"
  proof (cases "white c")
    case True
    then have "opens [c] []" by (simp add: opens_def white_def sql_lex.simps(2) option.map_ident)
    then show ?thesis by (intro exI [of _ "[]"]) simp
  next
    case False
    with c have "sym_char c" by simp
    note p = sym_char_props(1) [OF this]
    then have "opens [c] [QSym c]" unfolding opens_def
      by (intro allI) (auto simp: sql_lex.simps(2) starts_comment_def intro!: option.map_cong)
    then show ?thesis by (intro exI [of _ "[QSym c]"]) simp
  qed
  then obtain us where us: "opens [c] us" "idents us = []" by blast
  have "opens (s @ [c]) (ts @ us)" unfolding opens_def
  proof
    fix rest
    have "sql_lex (s @ c # rest) = map_option (\<lambda>vs. ts @ vs) (sql_lex (c # rest))" using ts(1) b by (simp add: lexes_def)
    also have "sql_lex (c # rest) = map_option (\<lambda>vs. us @ vs) (sql_lex rest)" using us(1) by (simp add: opens_def)
    finally show "sql_lex ((s @ [c]) @ rest) = map_option (\<lambda>vs. (ts @ us) @ vs) (sql_lex rest)" by (simp add: option.map_comp comp_def)
  qed
  with us(2) ts(2) show ?thesis unfolding leads_def by (intro exI [of _ "ts @ us"]) simp
qed

lemma leads_text: "s \<noteq> [] \<Longrightarrow> calm (butlast s) \<Longrightarrow> sym_char (last s) \<or> white (last s) \<Longrightarrow> leads s"
  using leads_calm [of "butlast s" "last s"] by simp

lemmas calm_eval = word_char_def sym_char_def white_def is_digit_def

section \<open>The statements\<close>

lemma confined_enum: "confined A (enum_list vs)"
  unfolding enum_list_def
  by (rule confined_join, simp add: list_all_iff confined_text, rule leads_text) (simp_all add: calm_eval)

lemma confined_format: "formatDefaultValue v t = Inr d \<Longrightarrow> confined A d"
proof -
  assume d: "formatDefaultValue v t = Inr d"
  have j: "confined A (escapeSqlString s @ ''::jsonb'')" for s
    by (rule confined_app [OF confined_text]) (auto intro: confined_calm simp: calm_eval)
  have tf: "confined A ''true''" "confined A ''false''" by (rule confined_calm, simp add: calm_eval)+
  consider "t = FtJson \<or> t = FtArray" | "t = FtBoolean" | "t = FtNumber" | "t \<notin> {FtJson, FtArray, FtBoolean, FtNumber}" by blast
  then show ?thesis
  proof cases
    case 1
    with d obtain s where "d = escapeSqlString s @ ''::jsonb''"
      by (cases "json v") (auto simp: formatDefaultValue_def escapeSqlString_def)
    with j show ?thesis by simp
  next
    case 2 with d tf show ?thesis by (simp add: formatDefaultValue_def split: if_splits)
  next
    case 3 with d show ?thesis by (auto simp: formatDefaultValue_def rbind_Inr_iff confined_number split: if_splits)
  next
    case 4 with d show ?thesis by (auto simp: formatDefaultValue_def rbind_Inr_iff confined_text)
  qed
qed

lemma confined_type: "confined A (fieldTypeToPostgres t)"
  by (rule confined_calm) (simp add: fieldTypeToPostgres_def calm_eval split: FieldType.splits)

lemma boundary_calm [simp]: "sym_char c \<or> white c \<Longrightarrow> boundary (c # s)"
  using sym_char_props by (auto simp: boundary_def)

lemma boundaries [simp]: "boundary (CHR '' '' # s)" "boundary (NL # s)" "boundary (CHR '','' # s)" "boundary (CHR '')'' # s)" "boundary (CHR ''('' # s)"
  by (simp_all add: calm_eval)

lemma comma_leads: "leads '', ''"
  by (rule leads_text) (simp_all add: calm_eval)

lemma view_names_confined: "set view_system_columns \<subseteq> A \<Longrightarrow> confined A systemSelect"
  unfolding systemSelect_def
proof (rule confined_join [OF _ comma_leads])
  assume A: "set view_system_columns \<subseteq> A"
  have "list_all (\<lambda>c. CHR 0x22 \<notin> set c) view_system_columns" by (simp add: view_system_columns_def)
  with A show "list_all (confined A) (map quoted view_system_columns)" by (auto simp: list_all_iff intro!: confined_quoted)
qed simp

lemma select_from_confined:
  assumes "confined A table" "list_all (confined A) items" "set view_system_columns \<subseteq> A"
  shows "confined A (select_from table items)"
proof -
  have 1: "leads ''  SELECT ''" "leads ([NL] @ ''  FROM '')" by (rule leads_text; simp add: calm_eval)+
  have "confined A (join_with '', '' items)" by (rule confined_join [OF assms(2) comma_leads]) simp
  then have "confined A (join_with '', '' items @ ([NL] @ ''  FROM '') @ table)"
    by (rule confined_app [OF _ confined_open [OF 1(2) assms(1)]]) simp
  then have "confined A (systemSelect @ '', '' @ join_with '', '' items @ ([NL] @ ''  FROM '') @ table)"
    by (intro confined_app [OF view_names_confined [OF assms(3)] confined_open [OF comma_leads]]) simp_all
  from confined_open [OF 1(1) this] show ?thesis by (simp add: select_from_def)
qed

lemma as_leads: "leads '' AS ''"
  by (rule leads_text) (simp_all add: calm_eval)

lemma item_confined:
  assumes "\<And>d. uv_defaultExpression f = Some d \<Longrightarrow> validateDefaultExpression d" "uv_slug f \<in> A"
  shows "coalesced_item f = Inr i \<Longrightarrow> confined A i" "migrated_item f = Inr i \<Longrightarrow> confined A i" "unmigrated_item f = Inr i \<Longrightarrow> confined A i"
proof -
  have col: "confined A c" if "quotePgIdentifier (uv_slug f) = Inr c" for c by (rule confined_identifier [OF that assms(2)])
  have nul: "confined A ''NULL''" by (rule confined_calm) (simp add: calm_eval)
  have co: "leads ''COALESCE(''" by (rule leads_text) (simp_all add: calm_eval)
  have cl: "leads '') AS ''" by (rule leads_text) (simp_all add: calm_eval)
  { assume "coalesced_item f = Inr i"
    then obtain c where c: "quotePgIdentifier (uv_slug f) = Inr c"
      and i: "i = c \<or> (\<exists>d. uv_defaultExpression f = Some d \<and> i = ''COALESCE('' @ c @ '', '' @ d @ '') AS '' @ c)"
      by (auto simp: coalesced_item_def rbind_Inr_iff split: option.splits if_splits)
    have "confined A (''COALESCE('' @ c @ '', '' @ d @ '') AS '' @ c)" if "uv_defaultExpression f = Some d" for d
      by (intro confined_open [OF co] confined_app [OF col [OF c]] confined_open [OF comma_leads] confined_app [OF confined_default [OF assms(1) [OF that]]]
          confined_open [OF cl col [OF c]]) simp_all
    with i col [OF c] show "confined A i" by auto }
  { assume "migrated_item f = Inr i" then show "confined A i" using col by (simp add: migrated_item_def) }
  { assume "unmigrated_item f = Inr i"
    then obtain c where c: "quotePgIdentifier (uv_slug f) = Inr c"
      and i: "i = c \<or> (\<exists>d. (d = ''NULL'' \<or> uv_defaultExpression f = Some d) \<and> i = d @ '' AS '' @ c)"
      by (auto simp: unmigrated_item_def rbind_Inr_iff split: option.splits if_splits)
    have "confined A (d @ '' AS '' @ c)" if "d = ''NULL'' \<or> uv_defaultExpression f = Some d" for d
      by (rule confined_app [OF _ confined_open [OF as_leads col [OF c]]]) (use that nul confined_default assms(1) in auto)
    with i col [OF c] show "confined A i" by auto }
qed

lemma rmap_all: "(\<And>x y. x \<in> set xs \<Longrightarrow> f x = Inr y \<Longrightarrow> P y) \<Longrightarrow> rmap f xs = Inr ys \<Longrightarrow> list_all P ys"
proof (induction xs arbitrary: ys)
  case (Cons x xs)
  from Cons.prems(2) obtain y zs where y: "f x = Inr y" "rmap f xs = Inr zs" "ys = y # zs" by (auto simp: rbind_Inr_iff)
  have "P y" by (rule Cons.prems(1) [OF _ y(1)]) simp
  moreover have "list_all P zs" by (rule Cons.IH [OF _ y(2)]) (rule Cons.prems(1), auto)
  ultimately show ?case by (simp add: y(3))
qed simp

lemma items_confined:
  assumes "\<And>f d. f \<in> set fs \<Longrightarrow> uv_defaultExpression f = Some d \<Longrightarrow> validateDefaultExpression d" "uv_slug ` set fs \<subseteq> A"
  shows "rmap coalesced_item fs = Inr is \<Longrightarrow> list_all (confined A) is"
    "rmap migrated_item fs = Inr is \<Longrightarrow> list_all (confined A) is" "rmap unmigrated_item fs = Inr is \<Longrightarrow> list_all (confined A) is"
proof -
  have slug: "uv_slug f \<in> A" if "f \<in> set fs" for f using assms(2) that by blast
  show "rmap coalesced_item fs = Inr is \<Longrightarrow> list_all (confined A) is"
    by (rule rmap_all) (rule item_confined(1) [OF assms(1) slug])
  show "rmap migrated_item fs = Inr is \<Longrightarrow> list_all (confined A) is"
    by (rule rmap_all) (rule item_confined(2) [OF assms(1) slug])
  show "rmap unmigrated_item fs = Inr is \<Longrightarrow> list_all (confined A) is"
    by (rule rmap_all) (rule item_confined(3) [OF assms(1) slug])
qed

lemma find_member: "find P xs = Some x \<Longrightarrow> x \<in> set xs"
  by (induction xs) (auto split: if_splits)


definition demo_specs :: "UnionViewFieldSpec list" where
  "demo_specs =
     [\<lparr>uv_slug = ''name'', uv_isNew = False, uv_defaultExpression = None, uv_isRemoved = False\<rparr>,
      \<lparr>uv_slug = ''age'', uv_isNew = True, uv_defaultExpression = Some ''-1'', uv_isRemoved = False\<rparr>]"

lemma member_lists: "I \<subseteq> {a, b, c} \<union> set vs \<union> T \<Longrightarrow> T = {d, e} \<Longrightarrow> list_all (\<lambda>i. i \<in> set ([a, b, c, d, e] @ vs)) xs \<or> \<not> set xs \<subseteq> I"
  by (auto simp: list_all_iff)


section \<open>Tables\<close>

lemma space_leads: "leads '' ''" "leads ''  ''"
  by (rule leads_text; simp add: calm_eval)+

definition referred :: "FieldDDLSpec \<Rightarrow> string set" where
  "referred f = set_option (fs_refEntitySlug f)"

lemma column_confined:
  assumes c: "buildColumnDef f schemaName = Inr def" and A: "schemaName \<in> A" "fs_slug f \<in> A" "referred f \<subseteq> A" "''_id'' \<in> A"
  shows "confined A def"
proof -
  from c obtain col refs dflt where q: "quotePgIdentifier (fs_slug f) = Inr col" and r: "reference_part schemaName f = Inr refs"
    and d: "default_part f = Inr dflt"
    and def: "def = join_with '' '' ([''  '' @ col, fieldTypeToPostgres (fs_fieldType f)] @ refs
          @ (if fs_nullable f then [] else [''NOT NULL'']) @ (if fs_isUnique f then [''UNIQUE''] else []) @ dflt
          @ (if enum_values f = [] then [] else [''CHECK ('' @ col @ '' IN ('' @ enum_list (enum_values f) @ ''))'']))"
    by (auto simp: buildColumnDef_def rbind_Inr_iff)
  have cc: "confined A col" by (rule confined_identifier [OF q A(2)])
  have id: "confined A (quoted ''_id'')" by (rule confined_quoted [OF _ A(4)]) simp
  have words: "confined A ''NOT NULL''" "confined A ''UNIQUE''" "confined A '')''" "confined A ''))''" by (rule confined_calm; simp add: calm_eval)+
  have leads: "leads ''REFERENCES ''" "leads ''(''" "leads ''DEFAULT ''" "leads ''CHECK (''" "leads '' IN (''" by (rule leads_text; simp add: calm_eval)+
  have refs: "list_all (confined A) refs"
  proof (cases "\<exists>slug t. fs_refEntitySlug f = Some slug \<and> qualify schemaName slug = Inr t \<and> refs = [''REFERENCES '' @ t @ ''('' @ quoted ''_id'' @ '')'']")
    case True
    then obtain slug t where t: "fs_refEntitySlug f = Some slug" "qualify schemaName slug = Inr t" "refs = [''REFERENCES '' @ t @ ''('' @ quoted ''_id'' @ '')'']"
      by blast
    have tc: "confined A t" by (rule confined_table [OF t(2) A(1)]) (use A(3) t(1) in \<open>simp add: referred_def\<close>)
    have "confined A (''REFERENCES '' @ t @ ''('' @ quoted ''_id'' @ '')'')"
      by (rule confined_open [OF leads(1) confined_app [OF tc confined_open [OF leads(2) confined_app [OF id words(3)]]]]) simp_all
    with t(3) show ?thesis by simp
  next
    case False
    with r have "refs = []" by (auto simp: reference_part_def rbind_Inr_iff split: option.splits if_splits)
    then show ?thesis by simp
  qed
  have dflt: "list_all (confined A) dflt"
    using d confined_open [OF leads(3) confined_format] by (auto simp: default_part_def rbind_Inr_iff split: if_splits)
  have chk: "confined A (''CHECK ('' @ col @ '' IN ('' @ enum_list vs @ ''))'')" for vs
    by (rule confined_open [OF leads(4) confined_app [OF cc confined_open [OF leads(5) confined_app [OF confined_enum words(4)]]]]) simp_all
  show ?thesis unfolding def
    by (rule confined_join [OF _ space_leads(1)]) (use confined_open [OF space_leads(2) cc] confined_type refs dflt words chk in auto)
qed

lemma system_column:
  assumes "CHR 0x22 \<notin> set c" "c \<in> A" "calm w" "boundary w"
  shows "confined A (''  '' @ quoted c @ w)"
  by (rule confined_open [OF space_leads(2) confined_app [OF confined_quoted [OF assms(1,2)] confined_calm [OF assms(3)] assms(4)]])

lemma system_confined:
  assumes "set view_system_columns \<subseteq> A"
  shows "list_all (confined A) table_system_columns"
proof -
  have m: "c \<in> A" if "c \<in> set view_system_columns" for c using assms that by (rule subsetD)
  have c_id: "confined A (''  '' @ quoted ''_id'' @ ''           UUID        PRIMARY KEY DEFAULT gen_random_uuid()'')" by (rule system_column [OF _ m]) (simp_all add: calm_eval view_system_columns_def)
  have c_ingested_by: "confined A (''  '' @ quoted ''_ingested_by'' @ ''  UUID'')" by (rule system_column [OF _ m]) (simp_all add: calm_eval view_system_columns_def)
  have c_created_at: "confined A (''  '' @ quoted ''_created_at'' @ ''   TIMESTAMPTZ NOT NULL DEFAULT now()'')" by (rule system_column [OF _ m]) (simp_all add: calm_eval view_system_columns_def)
  have c_updated_at: "confined A (''  '' @ quoted ''_updated_at'' @ ''   TIMESTAMPTZ NOT NULL DEFAULT now()'')" by (rule system_column [OF _ m]) (simp_all add: calm_eval view_system_columns_def)
  have c_version: "confined A (''  '' @ quoted ''_version'' @ ''      INTEGER     NOT NULL DEFAULT 1'')" by (rule system_column [OF _ m]) (simp_all add: calm_eval view_system_columns_def)
  have c_source_id: "confined A (''  '' @ quoted ''_source_id'' @ ''    TEXT'')" by (rule system_column [OF _ m]) (simp_all add: calm_eval view_system_columns_def)
  show ?thesis unfolding table_system_columns_def list.pred_inject
    by (intro conjI TrueI c_id c_ingested_by c_created_at c_updated_at c_version c_source_id) simp
qed

text \<open>
  The text that creates a table can be read by the server, and the names in it are the schema, the table, the slugs of the
  fields, the entities they refer to and the system columns: default values and enumerated values get into the statement as
  literals only.
\<close>

theorem table_confined:
  assumes "buildCreateTableDDL schemaName entitySlug specs = Inr sql"
  shows "\<exists>ts. sql_lex sql = Some ts
           \<and> set (idents ts) \<subseteq> {schemaName, entitySlug} \<union> fs_slug ` set specs \<union> (\<Union>f \<in> set specs. set_option (fs_refEntitySlug f))
                             \<union> set view_system_columns"
proof -
  let ?A = "{schemaName, entitySlug} \<union> fs_slug ` set specs \<union> (\<Union>f \<in> set specs. set_option (fs_refEntitySlug f)) \<union> set view_system_columns"
  from assms obtain table cols where t: "qualify schemaName entitySlug = Inr table" and c: "rmap (\<lambda>f. buildColumnDef f schemaName) specs = Inr cols"
    and sql: "sql = ''CREATE TABLE '' @ table @ ('' ('' @ [NL]) @ join_with ('','' @ [NL]) (table_system_columns @ cols) @ ([NL] @ '')'')"
    by (auto simp: buildCreateTableDDL_def rbind_Inr_iff)
  have id: "''_id'' \<in> ?A" by (simp add: view_system_columns_def)
  have tc: "confined ?A table" by (rule confined_table [OF t]) simp_all
  have "list_all (confined ?A) cols"
    by (rule rmap_all [OF _ c]) (rule column_confined, assumption, simp, simp, force simp: referred_def, rule id)
  moreover have "list_all (confined ?A) table_system_columns" by (rule system_confined) (rule Un_upper2)
  ultimately have all: "list_all (confined ?A) (table_system_columns @ cols)" by simp
  have leads: "leads ('','' @ [NL])" "leads ''CREATE TABLE ''" "leads ('' ('' @ [NL])" by (rule leads_text; simp add: calm_eval)+
  have e: "confined ?A ([NL] @ '')'')" by (rule confined_calm) (simp add: calm_eval)
  have j: "confined ?A (join_with ('','' @ [NL]) (table_system_columns @ cols))" by (rule confined_join [OF all leads(1)]) simp
  have "confined ?A sql" unfolding sql
    by (rule confined_open [OF leads(2) confined_app [OF tc confined_open [OF leads(3) confined_app [OF j e]]]]) simp_all
  then show ?thesis unfolding confined_def using lexes_all by blast
qed

end
