(* ===== verification/MigrationProperties.thy ===== *)
theory MigrationProperties
  imports MigrationService DdlProperties
begin

text \<open>
  What changes of entities and their migrations guarantee: which changes are breaking, when a change of validation rules is a
  relaxation, that a confirmation happens as a whole and once, and where migrations do not do what they are for.
\<close>

section \<open>Classification\<close>

lemma update_breaking:
  "list_ex fst (update_changes hasData existingFields u) \<longleftrightarrow>
     hasData \<and> (\<exists>f rules. find (\<lambda>f. fd_slug f = uf_slug u) existingFields = Some f \<and> uf_validationRules u = Some rules
                          \<and> isValidationMoreRestrictive (fd_validation_rules f) rules)"
  by (auto simp: update_changes_def split: option.splits)

text \<open>
  A change is breaking exactly if it renames or removes a field, or, on an entity with data, adds a required field that
  can be neither null nor defaulted or tightens the validation rules of an existing field.
\<close>

theorem classify_breaking_iff:
  "fst (classifyChange diff existingFields hasData) =
     (or_empty (df_renameFields diff) \<noteq> [] \<or> or_empty (df_removeFieldSlugs diff) \<noteq> []
      \<or> (hasData \<and> list_ex (\<lambda>f. af_required f \<and> \<not> af_nullable f \<and> af_defaultValue f = VUndef) (or_empty (df_addFields diff)))
      \<or> (hasData \<and> list_ex (\<lambda>u. \<exists>f rules. find (\<lambda>f. fd_slug f = uf_slug u) existingFields = Some f \<and> uf_validationRules u = Some rules
                                 \<and> isValidationMoreRestrictive (fd_validation_rules f) rules) (or_empty (df_updateFields diff))))"
proof -
  let ?m = "marked_changes diff existingFields hasData"
  have add: "list_ex fst (map (add_change hasData) fs) =
      (hasData \<and> list_ex (\<lambda>f. af_required f \<and> \<not> af_nullable f \<and> af_defaultValue f = VUndef) fs)" for fs
    by (induction fs) (auto simp: add_change_def)
  have upd: "list_ex fst (concat (map (update_changes hasData existingFields) us)) =
      (hasData \<and> list_ex (\<lambda>u. \<exists>f rules. find (\<lambda>f. fd_slug f = uf_slug u) existingFields = Some f \<and> uf_validationRules u = Some rules
                                 \<and> isValidationMoreRestrictive (fd_validation_rules f) rules) us)" for us
    by (induction us) (auto simp: update_breaking)
  have ren: "list_ex fst (map (\<lambda>(a, b). (True, c a b)) xs) = (xs \<noteq> [])" for xs :: "(string \<times> string) list" and c :: "string \<Rightarrow> string \<Rightarrow> ChangeDescription"
    by (cases xs) auto
  have rem: "list_ex fst (map (\<lambda>a. (True, c a)) xs) = (xs \<noteq> [])" for xs :: "string list" and c :: "string \<Rightarrow> ChangeDescription"
    by (cases xs) auto
  have meta: "list_ex fst (if b then [(False, d)] else []) = False" for b and d :: ChangeDescription by simp
  have "fst (classifyChange diff existingFields hasData) = list_ex fst ?m"
    by (cases "?m") (simp_all add: classifyChange_def Let_def)
  then show ?thesis by (auto simp only: marked_changes_def Let_def list_ex_append add upd ren rem meta)
qed

section \<open>Relaxed rules\<close>

text \<open>What a rule asks of a value; \<open>email\<close>, \<open>url\<close> and \<open>pattern\<close> are those of the validation library.\<close>

definition rule_admits :: "(string \<Rightarrow> bool) \<Rightarrow> (string \<Rightarrow> bool) \<Rightarrow> (jsval \<Rightarrow> string \<Rightarrow> bool) \<Rightarrow> ValidationRule \<Rightarrow> jsval \<Rightarrow> bool" where
  "rule_admits email url pattern r v =
     (case (vr_type r, vr_value r, v) of
        (RuleMin, VNum b, VNum x) \<Rightarrow> \<not> jlt x b
      | (RuleMax, VNum b, VNum x) \<Rightarrow> \<not> jlt b x
      | (RuleMinLength, VNum b, VStr s) \<Rightarrow> \<not> jlt (jint (int (length s))) b
      | (RuleMaxLength, VNum b, VStr s) \<Rightarrow> \<not> jlt b (jint (int (length s)))
      | (RuleEmail, _, VStr s) \<Rightarrow> email s
      | (RuleUrl, _, VStr s) \<Rightarrow> url s
      | (RulePattern, p, VStr s) \<Rightarrow> pattern p s
      | _ \<Rightarrow> True)"

definition plain_rule :: "ValidationRule \<Rightarrow> bool" where
  "plain_rule r \<longleftrightarrow>
     vr_type r \<noteq> RulePattern
     \<and> (vr_type r \<in> {RuleMin, RuleMax, RuleMinLength, RuleMaxLength} \<longrightarrow> (case vr_value r of VNum n \<Rightarrow> is_finite n | _ \<Rightarrow> False))"

lemma existingMap_in:
  "dict_get (existingMap rules) t = Some r \<Longrightarrow> r \<in> set rules \<and> vr_type r = t"
proof -
  have "dict_get (foldl (\<lambda>m r. map_set m (vr_type r) r) m rules) t = Some r \<Longrightarrow>
      (r \<in> set rules \<and> vr_type r = t) \<or> dict_get m t = Some r" for m
    by (induction rules arbitrary: m) (fastforce split: if_splits)+
  from this [of "[]"] show "dict_get (existingMap rules) t = Some r \<Longrightarrow> r \<in> set rules \<and> vr_type r = t"
    by (simp add: existingMap_def)
qed

lemma not_jlt_trans: "\<not> jlt x (Fin b) \<Longrightarrow> \<not> jlt (Fin b) (Fin c) \<Longrightarrow> \<not> jlt x (Fin c)"
    "\<not> jlt (Fin b) x \<Longrightarrow> \<not> jlt (Fin c) (Fin b) \<Longrightarrow> \<not> jlt (Fin c) x"
  by (cases x; simp)+

lemma relaxed_rule:
  assumes old: "plain_rule p" "vr_type p = vr_type r" and new: "plain_rule r"
    and t: "\<not> (if vr_type r = RuleMinLength \<or> vr_type r = RuleMin then js_gt (vr_value r) (vr_value p)
               else if vr_type r = RuleMaxLength \<or> vr_type r = RuleMax then js_gt (vr_value p) (vr_value r) else False)"
    and ok: "rule_admits email url pattern p v"
  shows "rule_admits email url pattern r v"
proof (cases "vr_type r \<in> {RuleMin, RuleMax, RuleMinLength, RuleMaxLength}")
  case True
  with old new obtain b c where v: "vr_value p = VNum b" "vr_value r = VNum c" "is_finite b" "is_finite c"
    by (auto simp: plain_rule_def split: jsval.splits)
  then obtain b' c' where f: "b = Fin b'" "c = Fin c'" by (cases b; cases c) (auto simp: is_finite_def)
  show ?thesis
    using True old(2) t ok v f not_jlt_trans
    by (cases v) (auto simp: rule_admits_def js_gt_def value_number_def)
next
  case False
  with new old ok show ?thesis by (cases "vr_type r") (auto simp: rule_admits_def plain_rule_def)
qed

text \<open>
  Property C19: a change of validation rules that is classified as a relaxation, with rules on numbers, lengths, addresses and links,
  is one: every value that the rules admitted before is admitted by the new ones.
\<close>

theorem relaxation_admits:
  assumes "\<not> isValidationMoreRestrictive existing updated"
    and "list_all plain_rule existing" and "list_all plain_rule updated"
    and "list_all (\<lambda>r. rule_admits email url pattern r v) existing"
  shows "list_all (\<lambda>r. rule_admits email url pattern r v) updated"
  unfolding list_all_iff
proof
  fix r assume r: "r \<in> set updated"
  with assms(1) have t: "\<not> rule_tightens (existingMap existing) r" by (auto simp: isValidationMoreRestrictive_def)
  then obtain p where p: "dict_get (existingMap existing) (vr_type r) = Some p" by (cases "dict_get (existingMap existing) (vr_type r)") (simp_all add: rule_tightens_def)
  note q = existingMap_in [OF p]
  show "rule_admits email url pattern r v"
    by (rule relaxed_rule [of p]) (use q assms(2-4) r t p in \<open>auto simp: list_all_iff rule_tightens_def\<close>)
qed

definition min_rule :: "int \<Rightarrow> ValidationRule" where
  "min_rule n = \<lparr>vr_type = RuleMin, vr_value = VNum (jint n), vr_message = None\<rparr>"

theorem relaxation_admits_witness:
  "\<not> isValidationMoreRestrictive [min_rule 5] [min_rule 3]
   \<and> list_all (\<lambda>r. rule_admits (\<lambda>s. True) (\<lambda>s. True) (\<lambda>p s. True) r (VNum (jint 7))) [min_rule 3]"
proof -
  have j: "jint 5 = Fin 5" "jint 3 = Fin 3" "jint 7 = Fin 7" by (simp_all add: jint_def)
  have 1: "\<not> isValidationMoreRestrictive [min_rule 5] [min_rule 3]"
    by (simp add: isValidationMoreRestrictive_def rule_tightens_def existingMap_def min_rule_def js_gt_def value_number_def j)
  have 2: "list_all plain_rule [min_rule 5]" "list_all plain_rule [min_rule 3]"
    by (simp_all add: plain_rule_def min_rule_def j is_finite_def)
  have 3: "list_all (\<lambda>r. rule_admits (\<lambda>s. True) (\<lambda>s. True) (\<lambda>p s. True) r (VNum (jint 7))) [min_rule 5]"
    by (simp add: rule_admits_def min_rule_def j)
  from relaxation_admits [OF 1 2 3] 1 show ?thesis by simp
qed

section \<open>Confirmation\<close>

lemma mig_update_fields [simp]:
  "on_tables (mig_update i P f st) = on_tables st" "on_db (mig_update i P f st) = on_db st" "on_shadows (mig_update i P f st) = on_shadows st"
  by (simp_all add: mig_update_def)

lemma announce_fields [simp]:
  "on_tables (announce c i st) = on_tables st" "on_db (announce c i st) = on_db st" "on_migrations (announce c i st) = on_migrations st"
  "on_shadows (announce c i st) = on_shadows st"
  by (simp_all add: announce_def)

text \<open>
  A confirmation takes effect as a whole or not at all.  When it fails, for whatever reason, nothing has changed; when it
  succeeds, the migration was waiting, is now running with its view, nothing else has changed and the start is announced.
\<close>

theorem confirm_all_or_nothing:
  "case confirmMigration server lockFree now migrationId userId st of
     (Inl e, st') \<Rightarrow> st' = st
   | (Inr r, st') \<Rightarrow>
       (\<exists>m e. m \<in> set (on_migrations st) \<and> mg_id m = migrationId \<and> mg_status m = MgPending
          \<and> findById (on_db st) (mg_tenant_id m) (mg_entity_id m) = Some e
          \<and> on_migrations st' = map (\<lambda>x. if mg_id x = migrationId \<and> mg_status x = MgPending
                                        then setRunning now (buildUnionViewName (en_slug e) migrationId) (setConfirmed now userId x)
                                        else if mg_id x = migrationId \<and> mg_status x = MgConfirmed
                                        then setRunning now (buildUnionViewName (en_slug e) migrationId) x else x) (on_migrations st)
          \<and> on_published st' = on_published st @ [(''ontology:migration:started'', started_message m e)]
          \<and> on_tables st' = on_tables st \<and> on_db st' = on_db st \<and> on_shadows st' = on_shadows st)"
proof (cases "confirm_read now migrationId st")
  case (Inl e) then show ?thesis by (simp add: confirmMigration_def)
next
  case (Inr me)
  then obtain m e where me: "me = (m, e)" and m: "mig_findById st migrationId = Some m" "mg_status m = MgPending"
    and e: "findById (on_db st) (mg_tenant_id m) (mg_entity_id m) = Some e"
    by (auto simp: confirm_read_def split: option.splits if_splits)
  have i: "m \<in> set (on_migrations st)" "mg_id m = migrationId"
    using m(1) find_member find_Some_iff by (auto simp: mig_findById_def find_Some_iff)
  show ?thesis
  proof (cases "fst (confirm_commit server lockFree now userId me st)")
    case (Inl x)
    then have "snd (confirm_commit server lockFree now userId me st) = st"
      by (auto simp: confirm_commit_def me Let_def split: option.splits if_splits)
    with Inl Inr show ?thesis by (cases "confirm_commit server lockFree now userId me st") (simp add: confirmMigration_def)
  next
    case (Inr r)
    then have c: "confirm_commit server lockFree now userId me st =
        (Inr r, announce ''ontology:migration:started'' (started_message m e)
           (mig_update migrationId (\<lambda>r. mg_status r = MgConfirmed) (setRunning now (buildUnionViewName (en_slug e) migrationId))
             (mig_update migrationId (\<lambda>r. mg_status r = MgPending) (setConfirmed now userId) st)))"
      by (auto simp: confirm_commit_def me i Let_def split: option.splits if_splits)
    have rows: "on_migrations (mig_update migrationId (\<lambda>r. mg_status r = MgConfirmed) f (mig_update migrationId (\<lambda>r. mg_status r = MgPending) g st))
        = map (\<lambda>x. if mg_id x = migrationId \<and> mg_status x = MgPending then f (g x)
                   else if mg_id x = migrationId \<and> mg_status x = MgConfirmed then f x else x) (on_migrations st)"
      if "\<And>x. mg_id (g x) = mg_id x \<and> mg_status (g x) = MgConfirmed" for f g
      using that by (auto simp: mig_update_def)
    have "on_published (mig_update a P f (mig_update b Q g st)) = on_published st" for a b P Q f g by (simp add: mig_update_def)
    with Inr c m i e rows [of "setConfirmed now userId"] \<open>confirm_read now migrationId st = Inr me\<close> show ?thesis
      by (simp add: confirmMigration_def setConfirmed_def announce_def) blast
  qed
qed

datatype mig_op =
    PlanMigration MigrationRow
  | Confirm "string \<Rightarrow> bool" bool nat string "MigrationRow \<times> EntityRow"
  | Complete "string \<Rightarrow> bool" nat string
  | Failing nat string jsval
  | Rollback nat string

fun run_mig :: "mig_op \<Rightarrow> OntologyState \<Rightarrow> OntologyState" where
  "run_mig (PlanMigration m) st = snd (create_migration m st)"
| "run_mig (Confirm server lockFree now userId me) st = snd (confirm_commit server lockFree now userId me st)"
| "run_mig (Complete server now migrationId) st = snd (completeMigration server now migrationId st)"
| "run_mig (Failing now migrationId error) st = snd (failMigration now migrationId error st)"
| "run_mig (Rollback now migrationId) st = snd (rollbackMigration now migrationId st)"

definition run_migs :: "mig_op list \<Rightarrow> OntologyState \<Rightarrow> OntologyState" where
  "run_migs ops st = foldl (\<lambda>s op. run_mig op s) st ops"

text \<open>A migration that has left the waiting state.\<close>

definition no_longer_waiting :: "string \<Rightarrow> OntologyState \<Rightarrow> bool" where
  "no_longer_waiting i st \<longleftrightarrow> i \<in> mg_id ` set (on_migrations st) \<and> (\<forall>m \<in> set (on_migrations st). mg_id m = i \<longrightarrow> mg_status m \<noteq> MgPending)"

lemma mig_update_ids: "(\<And>m. mg_id (f m) = mg_id m) \<Longrightarrow> map mg_id (on_migrations (mig_update i P f st)) = map mg_id (on_migrations st)"
  by (simp add: mig_update_def)

lemma waited_update:
  assumes s: "no_longer_waiting i st" and f: "\<And>m. mg_id (f m) = mg_id m \<and> mg_status (f m) \<noteq> MgPending"
  shows "no_longer_waiting i (mig_update j P f st)"
proof -
  have "i \<in> set (map mg_id (on_migrations (mig_update j P f st)))"
    using s f by (subst mig_update_ids) (simp_all add: no_longer_waiting_def)
  moreover have "mg_status m \<noteq> MgPending" if "m \<in> set (on_migrations (mig_update j P f st))" "mg_id m = i" for m
  proof -
    from that(1) obtain x where x: "x \<in> set (on_migrations st)" "m = (if mg_id x = j \<and> P x then f x else x)"
      unfolding mig_update_def by fastforce
    with that(2) s f show ?thesis by (auto simp: no_longer_waiting_def split: if_splits)
  qed
  ultimately show ?thesis by (simp add: no_longer_waiting_def)
qed

lemma waited_cong: "on_migrations st' = on_migrations st \<Longrightarrow> no_longer_waiting i st' = no_longer_waiting i st"
  by (simp add: no_longer_waiting_def)

lemma set_status_end_waiting:
  "mg_id (setConfirmed now u m) = mg_id m \<and> mg_status (setConfirmed now u m) \<noteq> MgPending"
  "mg_id (setRunning now v m) = mg_id m \<and> mg_status (setRunning now v m) \<noteq> MgPending"
  "mg_id (setComplete now m) = mg_id m \<and> mg_status (setComplete now m) \<noteq> MgPending"
  "mg_id (setFailed now x m) = mg_id m \<and> mg_status (setFailed now x m) \<noteq> MgPending"
  "mg_id (setRolledBack now m) = mg_id m \<and> mg_status (setRolledBack now m) \<noteq> MgPending"
  by (simp_all add: setConfirmed_def setRunning_def setComplete_def setFailed_def setRolledBack_def)

lemma restore_batch_keeps: "restore_batch t s st = Some st1 \<Longrightarrow> on_migrations st1 = on_migrations st"
proof -
  assume r: "restore_batch t s st = Some st1"
  let ?cols = "filter (\<lambda>c. c \<in> set (columns_of st s)) (columns_of st t)"
  from r obtain a b where ab: "dict_get (on_tables st) t = Some a" "dict_get (on_tables st) s = Some b"
    by (cases "dict_get (on_tables st) t"; cases "dict_get (on_tables st) s") (simp_all add: restore_batch_def)
  with r show ?thesis
    by (cases "?cols = []"; cases "rmap quotePgIdentifier ?cols") (simp_all only: restore_batch_def prod.case option.case Let_def if_True if_False sum.case, auto)
qed

lemma rollback_batches_keeps: "on_migrations (snd (rollback_batches schemaName slug bs st)) = on_migrations st"
proof (induction bs arbitrary: st)
  case (Cons b bs)
  have s: "on_migrations (shadow_status i x st) = on_migrations st" for i x st by (simp add: shadow_status_def)
  show ?case
  proof (cases "rbind (qualify (sh_schema_name b) (sh_table_name b)) (\<lambda>s. qualify schemaName slug)")
    case (Inl x) then show ?thesis by (simp add: Cons.IH)
  next
    case (Inr t)
    then show ?thesis
      by (cases "restore_batch (schemaName, slug) (sh_schema_name b, sh_table_name b) st")
        (simp_all add: Cons.IH s restore_batch_keeps)
  qed
qed simp

lemma waited_publish [simp]: "no_longer_waiting i (announce c j st) = no_longer_waiting i st"
  by (simp add: no_longer_waiting_def)

lemma waited_run: "no_longer_waiting i st \<Longrightarrow> no_longer_waiting i (run_mig op st)"
proof (cases op)
  case (PlanMigration m)
  assume "no_longer_waiting i st"
  with PlanMigration show ?thesis by (auto simp: create_migration_def no_longer_waiting_def)
next
  case (Confirm server lockFree now userId me)
  assume "no_longer_waiting i st"
  with Confirm set_status_end_waiting show ?thesis
    by (auto simp: confirm_commit_def Let_def waited_update split: prod.splits option.splits)
next
  case (Complete server now j)
  assume s: "no_longer_waiting i st"
  have "no_longer_waiting i (bumpVersion now k (mig_update j P (setComplete now) st))" for k P
    using waited_update [OF s set_status_end_waiting(3)] by (simp add: bumpVersion_def no_longer_waiting_def)
  with Complete s show ?thesis by (auto simp: completeMigration_def split: option.splits)
next
  case (Failing now j x)
  assume "no_longer_waiting i st"
  with Failing waited_update set_status_end_waiting(4) show ?thesis by (auto simp: failMigration_def split: option.splits)
next
  case (Rollback now j)
  assume s: "no_longer_waiting i st"
  have "no_longer_waiting i st1" if "rollback_batches a b c st = (r, st1)" for a b c r st1
    using that s rollback_batches_keeps [of a b c st] by (simp add: no_longer_waiting_def)
  with Rollback s waited_update set_status_end_waiting(5) show ?thesis
    by (auto simp: rollbackMigration_def Let_def split: option.splits prod.splits sum.splits)
qed

lemma waited_run_all: "no_longer_waiting i st \<Longrightarrow> no_longer_waiting i (run_migs ops st)"
  unfolding run_migs_def by (induction ops arbitrary: st) (simp_all add: waited_run)

lemma confirmed_end_waiting: "confirm_commit server lockFree now userId me st = (Inr r, st') \<Longrightarrow> no_longer_waiting (mg_id (fst me)) st'"
proof -
  assume c: "confirm_commit server lockFree now userId me st = (Inr r, st')"
  obtain m e where me: "me = (m, e)" by fastforce
  let ?f = "setRunning now (buildUnionViewName (en_slug e) (mg_id m))" and ?i = "mg_id m"
  from c me obtain row where f: "find (\<lambda>r. mg_id r = ?i \<and> mg_status r = MgPending) (on_migrations st) = Some row"
    and st': "st' = announce ''ontology:migration:started'' (started_message m e) (mig_update ?i (\<lambda>r. mg_status r = MgConfirmed) ?f
                (mig_update ?i (\<lambda>r. mg_status r = MgPending) (setConfirmed now userId) st))"
    by (auto simp: confirm_commit_def Let_def split: option.splits if_splits)
  have "row \<in> set (on_migrations st)" "mg_id row = ?i" using f find_member by (auto simp: find_Some_iff)
  then have "?i \<in> set (map mg_id (on_migrations st))" by (metis image_eqI list.set_map)
  then have "?i \<in> set (map mg_id (on_migrations (mig_update ?i (\<lambda>r. mg_status r = MgPending) (setConfirmed now userId) st)))"
    by (simp only: mig_update_ids set_status_end_waiting)
  then have "no_longer_waiting ?i (mig_update ?i (\<lambda>r. mg_status r = MgPending) (setConfirmed now userId) st)"
    unfolding no_longer_waiting_def list.set_map [symmetric] by (rule conjI) (auto simp: mig_update_def setConfirmed_def)
  then show ?thesis unfolding st' me by (simp add: waited_update set_status_end_waiting)
qed

text \<open>
  Property C18: a migration is confirmed once.  After a confirmation succeeded, whatever plans, confirmations, completions, failures and
  rollbacks follow, no confirmation of the same migration succeeds, even one whose checks were made before.
\<close>

theorem confirmed_once:
  assumes first: "confirm_commit server lockFree now userId (m, e) st = (Inr r, st')"
    and again: "confirm_commit server' lockFree' now' userId' (m', e') (run_migs ops st') = (Inr r', st'')"
  shows "mg_id m' \<noteq> mg_id m"
proof
  assume eq: "mg_id m' = mg_id m"
  have "no_longer_waiting (mg_id m') (run_migs ops st')" using waited_run_all [OF confirmed_end_waiting [OF first]] eq by simp
  then have "find (\<lambda>r. mg_id r = mg_id m' \<and> mg_status r = MgPending) (on_migrations (run_migs ops st')) = None"
    by (auto simp: no_longer_waiting_def find_None_iff)
  with again show False by (simp add: confirm_commit_def split: if_splits)
qed

section \<open>Rollback\<close>

lemma id_not_quoted: "quotePgIdentifier ''_id'' = Inl (PlainError ''Invalid PostgreSQL identifier'')"
  by (simp add: quotePgIdentifier_def PG_IDENTIFIER_def)

definition has_id_columns :: "OntologyState \<Rightarrow> bool" where
  "has_id_columns st \<longleftrightarrow> list_all (\<lambda>(k, t). ''_id'' \<in> set (dt_columns t)) (on_tables st)"

lemma restore_fails: "has_id_columns st \<Longrightarrow> restore_batch t s st = None"
proof -
  assume ids: "has_id_columns st"
  have id: "''_id'' \<in> set (columns_of st k)" if "dict_get (on_tables st) k = Some d" for k d
    using map_of_SomeD [OF that] ids that by (fastforce simp: has_id_columns_def list_all_iff columns_of_def)
  show ?thesis
  proof (cases "dict_get (on_tables st) t = None \<or> dict_get (on_tables st) s = None")
    case True then show ?thesis by (auto simp: restore_batch_def split: option.splits)
  next
    case False
    let ?cols = "filter (\<lambda>c. c \<in> set (columns_of st s)) (columns_of st t)"
    from False obtain a b where ab: "dict_get (on_tables st) t = Some a" "dict_get (on_tables st) s = Some b" by auto
    have "''_id'' \<in> set (columns_of st t)" by (rule id [OF ab(1)])
    moreover have "''_id'' \<in> set (columns_of st s)" by (rule id [OF ab(2)])
    ultimately have "''_id'' \<in> set ?cols" by simp
    then obtain x where "rmap quotePgIdentifier ?cols = Inl x" using rmap_Inl_iff [of quotePgIdentifier ?cols] id_not_quoted by blast
    with False show ?thesis by (auto simp: restore_batch_def Let_def)
  qed
qed

lemma rollback_batches_tables: "has_id_columns st \<Longrightarrow> on_tables (snd (rollback_batches schemaName slug bs st)) = on_tables st"
proof (induction bs arbitrary: st)
  case (Cons b bs)
  have s: "has_id_columns (shadow_status i x st)" "on_tables (shadow_status i x st) = on_tables st" for i x
    using Cons.prems by (simp_all add: shadow_status_def has_id_columns_def)
  show ?case
    by (cases "rbind (qualify (sh_schema_name b) (sh_table_name b)) (\<lambda>s. qualify schemaName slug)")
      (simp_all add: Cons.IH Cons.prems s restore_fails)
qed simp

text \<open>
  Property C20: rolling back a migration brings no row back.  Every entity table and every shadow copy of one has the column
  \<^verbatim>\<open>_id\<close>, which the quoting of the restored columns refuses; the error is caught batch by batch, and at the end the migration is
  marked as rolled back with all tables as they were.
\<close>

theorem rollback_restores_nothing:
  assumes "has_id_columns st" and "rollbackMigration now migrationId st = (Inr (), st')"
    and "mig_findById st migrationId = Some m" and "findById (on_db st) (mg_tenant_id m) (mg_entity_id m) = Some e"
  shows "on_tables st' = on_tables st \<and> list_all (\<lambda>r. mg_id r \<noteq> migrationId \<or> mg_status r = MgRolledBack) (on_migrations st')"
proof -
  define bs where "bs = rev (sort_key sh_batch_index (filter (\<lambda>b. sh_migration_id b = migrationId) (on_shadows st)))"
  obtain r st1 where b: "rollback_batches (tenantSchemaName (mg_tenant_id m)) (en_slug e) bs st = (r, st1)" by fastforce
  from assms(2-4) b have st': "st' = mig_update migrationId (\<lambda>r. True) (setRolledBack now) st1"
    by (cases r; cases "quoting_fails m") (simp_all add: rollbackMigration_def Let_def bs_def [symmetric])
  have "on_tables st1 = on_tables st" using rollback_batches_tables [OF assms(1), of "tenantSchemaName (mg_tenant_id m)" "en_slug e" bs] b by simp
  moreover have "list_all (\<lambda>r. mg_id r \<noteq> migrationId \<or> mg_status r = MgRolledBack) (map (\<lambda>r. if mg_id r = migrationId then setRolledBack now r else r) ms)" for ms
    by (induction ms) (simp_all add: setRolledBack_def)
  ultimately show ?thesis by (simp add: st' mig_update_def)
qed

section \<open>Examples\<close>

definition demo_entity :: EntityRow where
  "demo_entity = \<lparr>en_id = ''e1'', en_tenant_id = ''7'', en_name = ''Person'', en_slug = ''person'', en_version = 1, en_description = None,
                  en_is_public = False, en_created_at = 9, en_updated_at = 9, en_created_by = ''u'', en_deleted_at = None\<rparr>"

definition demo_migration :: MigrationRow where
  "demo_migration =
     \<lparr>mg_id = ''m1'', mg_tenant_id = ''7'', mg_entity_id = ''e1'', mg_from_version = 1, mg_to_version = 2, mg_change_type = ''remove_field'',
      mg_is_breaking = True, mg_plan_changes = [field_change ''remove_field'' ''age''],
      mg_plan_fields = Some [\<lparr>uv_slug = ''name'', uv_isNew = False, uv_defaultExpression = None, uv_isRemoved = False\<rparr>,
                             \<lparr>uv_slug = ''age'', uv_isNew = False, uv_defaultExpression = None, uv_isRemoved = True\<rparr>],
      mg_status = MgPending, mg_union_view_name = None, mg_confirmed_by = None, mg_confirmed_at = None, mg_started_at = None,
      mg_completed_at = None, mg_error_details = VNull, mg_created_at = 9\<rparr>"

definition demo_ontology :: OntologyState where
  "demo_ontology =
     \<lparr>on_db = \<lparr>od_entities = [demo_entity], od_fields = []\<rparr>, on_migrations = [demo_migration],
      on_shadows = [\<lparr>sh_id = ''s1'', sh_migration_id = ''m1'', sh_schema_name = ''tenant_7'', sh_table_name = ''shadow_person_1'',
                     sh_batch_index = 0, sh_status = ShActive\<rparr>],
      on_tables = [((''tenant_7'', ''person''), \<lparr>dt_columns = [''_id'', ''name''], dt_rows = [[(''_id'', VStr ''1''), (''name'', VNull)]]\<rparr>),
                   ((''tenant_7'', ''shadow_person_1''), \<lparr>dt_columns = [''_id'', ''name''],
                                                        dt_rows = [[(''_id'', VStr ''1''), (''name'', VStr ''Ann'')]]\<rparr>)],
      on_published = []\<rparr>"

lemmas demo_mig_defs = demo_ontology_def demo_migration_def demo_entity_def

lemmas pg_eval = qualify_def quotePgIdentifier_def PG_IDENTIFIER_def slug_char_def is_digit_def rbind_def tenantSchemaName_def

theorem rollback_restores_nothing_witness:
  "on_tables (snd (rollbackMigration 9 ''m1'' demo_ontology)) = on_tables demo_ontology
   \<and> list_all (\<lambda>r. mg_id r \<noteq> ''m1'' \<or> mg_status r = MgRolledBack) (on_migrations (snd (rollbackMigration 9 ''m1'' demo_ontology)))"
proof -
  have h: "has_id_columns demo_ontology" by (simp add: has_id_columns_def demo_ontology_def)
  have f: "mig_findById demo_ontology ''m1'' = Some demo_migration" by (simp add: mig_findById_def demo_mig_defs)
  have e: "findById (on_db demo_ontology) (mg_tenant_id demo_migration) (mg_entity_id demo_migration) = Some demo_entity"
    by (simp add: findById_def demo_mig_defs)
  have q: "quoting_fails demo_migration = None" by (simp add: quoting_fails_def demo_migration_def)
  have n: "sh_status (hd (on_shadows demo_ontology)) = ShActive" by (simp add: demo_ontology_def)
  have "fst (rollback_batches ''tenant_7'' ''person'' (on_shadows demo_ontology) demo_ontology) = Inr ()"
    using restore_fails [OF h] by (simp add: demo_mig_defs) (simp add: pg_eval)
  moreover have "rev (sort_key sh_batch_index (filter (\<lambda>b. sh_migration_id b = ''m1'') (on_shadows demo_ontology))) = on_shadows demo_ontology"
    by (simp add: demo_ontology_def)
  moreover have "tenantSchemaName (mg_tenant_id demo_migration) = ''tenant_7''" "en_slug demo_entity = ''person''"
    by (simp_all add: tenantSchemaName_def demo_mig_defs)
  ultimately have "fst (rollbackMigration 9 ''m1'' demo_ontology) = Inr ()"
    using f e q by (auto simp: rollbackMigration_def split: prod.splits sum.splits)
  then obtain st' where "rollbackMigration 9 ''m1'' demo_ontology = (Inr (), st')"
    by (cases "rollbackMigration 9 ''m1'' demo_ontology") auto
  from rollback_restores_nothing [OF h this f e] this show ?thesis by simp
qed

theorem confirmed_once_witness:
  "case confirm_commit (\<lambda>sql. True) True 9 ''u'' (demo_migration, demo_entity) demo_ontology of
     (Inr r, st') \<Rightarrow>
       (case confirm_commit (\<lambda>sql. True) True 9 ''v'' (demo_migration, demo_entity) (run_migs [Failing 9 ''m1'' VNull] st') of
          (Inl e, st'') \<Rightarrow> True | (Inr r', st'') \<Rightarrow> False)
   | (Inl e, st') \<Rightarrow> False"
proof -
  have v: "confirm_view (\<lambda>sql. True) demo_migration demo_entity = None"
    by (simp add: confirm_view_def demo_mig_defs buildUnionViewDDL_def buildUnionViewName_def discriminantField_def
        coalesced_item_def pg_eval)
  have row: "find (\<lambda>r. mg_id r = mg_id demo_migration \<and> mg_status r = MgPending) (on_migrations demo_ontology) = Some demo_migration"
    by (simp add: demo_mig_defs)
  obtain r st' where c: "confirm_commit (\<lambda>sql. True) True 9 ''u'' (demo_migration, demo_entity) demo_ontology = (Inr r, st')"
    by (simp add: confirm_commit_def v row Let_def)
  show ?thesis
  proof (cases "confirm_commit (\<lambda>sql. True) True 9 ''v'' (demo_migration, demo_entity) (run_migs [Failing 9 ''m1'' VNull] st')")
    case (Pair x st'')
    then show ?thesis using c confirmed_once [OF c, of "\<lambda>sql. True" True 9 "''v''" demo_migration demo_entity] by (cases x) auto
  qed
qed

section \<open>Where migrations do not do what they are for\<close>

text \<open>A plan whose only change is a required field or a tightened rule is refused by the check of the table.\<close>

lemma single_plan_refused:
  "t \<in> {''add_required_field_no_default'', ''tighten_validation''} \<Longrightarrow>
   buildMigrationFieldSpec existingFields diff = Inr specs \<Longrightarrow>
   plan_breaking now newId tenantId entity existingFields diff [field_change t slug] st = (Inl MigrationDb, st)"
  by (auto simp: plan_breaking_def create_migration_def CHANGE_TYPES_def)

text \<open>Renamed fields are not in the plan.\<close>

lemma rename_not_planned:
  "buildMigrationFieldSpec existingFields (diff\<lparr>df_renameFields := r\<rparr>) = buildMigrationFieldSpec existingFields diff"
  by (simp add: buildMigrationFieldSpec_def)

text \<open>Another pattern counts as a relaxation.\<close>

lemma pattern_change_relaxed:
  "\<not> isValidationMoreRestrictive [\<lparr>vr_type = RulePattern, vr_value = VStr p, vr_message = None\<rparr>]
      [\<lparr>vr_type = RulePattern, vr_value = VStr q, vr_message = None\<rparr>]"
  by (simp add: isValidationMoreRestrictive_def rule_tightens_def existingMap_def)

text \<open>A plan that was not confirmed within the hour cannot be confirmed any more, but still counts as active and blocks changes.\<close>

lemma expired_plan_blocks:
  "confirm_read 3600010 ''m1'' demo_ontology = Inl MigrationPlanExpired \<and> findActiveByEntityId demo_ontology ''e1'' = Some demo_migration"
  by (simp add: confirm_read_def mig_findById_def findActiveByEntityId_def demo_mig_defs PLAN_EXPIRY_MS_def)

text \<open>Completing a migration that is not running leaves it as it is and counts up the version of the entity.\<close>

lemma completion_bumps_anyway:
  "let st = snd (completeMigration (\<lambda>sql. True) 9 ''m1'' demo_ontology)
   in on_migrations st = [demo_migration] \<and> map en_version (od_entities (on_db st)) = [2]"
  by (simp add: completeMigration_def mig_findById_def findById_def drop_view_def bumpVersion_def mig_update_def announce_def Let_def demo_mig_defs)

text \<open>A completed migration can be turned into a failed one.\<close>

lemma completed_can_fail:
  "let st = snd (failMigration 9 ''m1'' VNull (demo_ontology\<lparr>on_migrations := [setComplete 9 demo_migration]\<rparr>))
   in map mg_status (on_migrations st) = [MgFailed]"
  by (simp add: failMigration_def mig_findById_def quoting_fails_def mig_update_def announce_def setComplete_def setFailed_def Let_def demo_mig_defs)

text \<open>Default values that are text or a truth value, or none, always pass the check at confirmation.\<close>

lemma doubled_double: "doubled (double_quotes s)"
  by (induction s) (auto simp: double_quotes_def)

lemma planned_default_passes:
  "default_expression v = Inr d \<Longrightarrow> (case v of VNum n \<Rightarrow> False | _ \<Rightarrow> True) \<Longrightarrow> validateDefaultExpression d"
  using doubled_double
  by (auto simp: default_expression_def validateDefaultExpression_def text_literal_def escapeSqlString_def split: jsval.splits if_splits)

text \<open>A large number is planned with an exponent, which the confirmation refuses.\<close>

lemma exponent_refused: "\<not> validateDefaultExpression ''1e+21''"
  by (simp add: validateDefaultExpression_def text_literal_def number_literal_def is_digit_def)

end
